(* ===== verification/Py_Prelude.thy ===== *)
theory Py_Prelude
  imports Main "HOL-Library.Product_Lexorder" "HOL-Library.List_Lexorder"
begin

text \<open>
  The shared ground of the development: Python text as lists of Unicode code points, the
  string methods the program calls, exceptions as values, results as sums, and the generic
  list, map and number lemmas the component theories use.

  A Python \<open>str\<close> is a list of code points (\<open>ustr\<close>), so that \<open>len\<close> and slicing count what
  Python counts. Constants that are plain ASCII identifiers of the program (error codes,
  audit actions, reasons) stay HOL strings. \<open>u\<close> turns an ASCII literal into a \<open>ustr\<close>.
\<close>

section \<open>Collections of rules\<close>

named_theorems py_simps \<open>unfolding rules of the Python string functions\<close>
named_theorems frame \<open>what an operation leaves alone\<close>
named_theorems inv_intro \<open>an operation keeps the invariant\<close>

section \<open>Text\<close>

type_synonym ustr = "nat list"

definition u :: "string \<Rightarrow> ustr" where
  "u s = map of_char s"

lemma u_Nil [simp]: "u [] = []"
  by (simp add: u_def)

lemma u_Cons [simp]: "u (c # s) = of_char c # u s"
  by (simp add: u_def)

lemma length_u [simp]: "length (u s) = length s"
  by (simp add: u_def)

lemma u_append: "u (s @ t) = u s @ u t"
  by (simp add: u_def)

lemma u_inject [simp]: "u s = u t \<longleftrightarrow> s = t"
proof -
  have "inj (of_char :: char \<Rightarrow> nat)" by (simp add: inj_def)
  then show ?thesis by (simp add: u_def inj_map_eq_map)
qed

text \<open>\<open>str.isspace\<close>, one character: Python's Unicode white space.\<close>

definition is_space :: "nat \<Rightarrow> bool" where
  "is_space c \<longleftrightarrow>
     (9 \<le> c \<and> c \<le> 13) \<or> (28 \<le> c \<and> c \<le> 32) \<or> c = 133 \<or> c = 160 \<or> c = 5760
     \<or> (8192 \<le> c \<and> c \<le> 8202) \<or> c = 8232 \<or> c = 8233 \<or> c = 8239 \<or> c = 8287 \<or> c = 12288"

definition lstrip :: "ustr \<Rightarrow> ustr" where
  "lstrip s = dropWhile is_space s"

definition rstrip :: "ustr \<Rightarrow> ustr" where
  "rstrip s = rev (dropWhile is_space (rev s))"

definition strip :: "ustr \<Rightarrow> ustr" where
  "strip s = rstrip (lstrip s)"

text \<open>\<open>s.rstrip(c)\<close> and \<open>s.lstrip(c)\<close> for a one-character set.\<close>

definition rstrip_char :: "nat \<Rightarrow> ustr \<Rightarrow> ustr" where
  "rstrip_char c s = rev (dropWhile (\<lambda>x. x = c) (rev s))"

definition lstrip_char :: "nat \<Rightarrow> ustr \<Rightarrow> ustr" where
  "lstrip_char c s = dropWhile (\<lambda>x. x = c) s"

definition strip_char :: "nat \<Rightarrow> ustr \<Rightarrow> ustr" where
  "strip_char c s = rstrip_char c (lstrip_char c s)"

definition starts_with :: "ustr \<Rightarrow> ustr \<Rightarrow> bool" where
  "starts_with p s \<longleftrightarrow> take (length p) s = p"

definition ends_with :: "ustr \<Rightarrow> ustr \<Rightarrow> bool" where
  "ends_with p s \<longleftrightarrow> length p \<le> length s \<and> drop (length s - length p) s = p"

text \<open>\<open>s.removesuffix(p)\<close>.\<close>

definition remove_suffix :: "ustr \<Rightarrow> ustr \<Rightarrow> ustr" where
  "remove_suffix p s = (if p \<noteq> [] \<and> ends_with p s then take (length s - length p) s else s)"

text \<open>\<open>s.split(c)\<close> for one separator character.\<close>

fun split_on :: "nat \<Rightarrow> ustr \<Rightarrow> ustr list" where
  "split_on c [] = [[]]"
| "split_on c (x # xs) =
     (if x = c then [] # split_on c xs
      else (case split_on c xs of [] \<Rightarrow> [[x]] | w # ws \<Rightarrow> (x # w) # ws))"

text \<open>\<open>s.partition(c)\<close> for one separator character: before, found, after.\<close>

fun partition_on :: "nat \<Rightarrow> ustr \<Rightarrow> ustr \<times> bool \<times> ustr" where
  "partition_on c [] = ([], False, [])"
| "partition_on c (x # xs) =
     (if x = c then ([], True, xs)
      else (case partition_on c xs of (b, f, a) \<Rightarrow> (x # b, f, a)))"

text \<open>Character classes and ASCII case.\<close>

definition is_digit :: "nat \<Rightarrow> bool" where
  "is_digit c \<longleftrightarrow> 48 \<le> c \<and> c \<le> 57"

definition is_upper :: "nat \<Rightarrow> bool" where
  "is_upper c \<longleftrightarrow> 65 \<le> c \<and> c \<le> 90"

definition is_lower :: "nat \<Rightarrow> bool" where
  "is_lower c \<longleftrightarrow> 97 \<le> c \<and> c \<le> 122"

definition is_hex :: "nat \<Rightarrow> bool" where
  "is_hex c \<longleftrightarrow> is_digit c \<or> (97 \<le> c \<and> c \<le> 102)"

definition upper_char :: "nat \<Rightarrow> nat" where
  "upper_char c = (if is_lower c then c - 32 else c)"

definition lower_char :: "nat \<Rightarrow> nat" where
  "lower_char c = (if is_upper c then c + 32 else c)"

definition ascii_upper :: "ustr \<Rightarrow> ustr" where
  "ascii_upper s = map upper_char s"

definition ascii_lower :: "ustr \<Rightarrow> ustr" where
  "ascii_lower s = map lower_char s"

text \<open>The regular expressions \<open>[0-9a-f]{n}\<close> and \<open>[A-Za-z0-9][A-Za-z0-9._-]{0,127}\<close>, matched in full.\<close>

definition hex_text :: "nat \<Rightarrow> ustr \<Rightarrow> bool" where
  "hex_text n s \<longleftrightarrow> length s = n \<and> list_all is_hex s"

definition is_alnum :: "nat \<Rightarrow> bool" where
  "is_alnum c \<longleftrightarrow> is_digit c \<or> is_upper c \<or> is_lower c"

text \<open>\<open>s.encode('utf-8')\<close>.\<close>

definition utf8_char :: "nat \<Rightarrow> nat list" where
  "utf8_char c =
     (if c < 128 then [c]
      else if c < 2048 then [192 + c div 64, 128 + c mod 64]
      else if c < 65536 then [224 + c div 4096, 128 + (c div 64) mod 64, 128 + c mod 64]
      else [240 + c div 262144, 128 + (c div 4096) mod 64, 128 + (c div 64) mod 64, 128 + c mod 64])"

definition utf8 :: "ustr \<Rightarrow> nat list" where
  "utf8 s = concat (map utf8_char s)"

text \<open>Decimal rendering, \<open>str(n)\<close>.\<close>

fun show_nat :: "nat \<Rightarrow> ustr" where
  "show_nat n = (if n < 10 then [48 + n] else show_nat (n div 10) @ [48 + n mod 10])"

declare show_nat.simps [simp del]

definition show_int :: "int \<Rightarrow> ustr" where
  "show_int i = (if i < 0 then 45 # show_nat (nat (- i)) else show_nat (nat i))"

text \<open>
  \<open>int(text)\<close> in base ten: surrounding white space, one sign, ASCII digits with single underscores
  between them (other scripts' digits are not modelled).
\<close>

fun digits_value :: "ustr \<Rightarrow> int \<Rightarrow> int option" where
  "digits_value [] acc = Some acc"
| "digits_value (c # cs) acc =
     (if is_digit c then digits_value cs (acc * 10 + int (c - 48))
      else if c = 95 then
        (case cs of d # ds \<Rightarrow> if is_digit d then digits_value ds (acc * 10 + int (d - 48)) else None | [] \<Rightarrow> None)
      else None)"

definition unsigned_int :: "ustr \<Rightarrow> int option" where
  "unsigned_int s = (case s of [] \<Rightarrow> None | c # cs \<Rightarrow> if is_digit c then digits_value s 0 else None)"

definition py_int :: "ustr \<Rightarrow> int option" where
  "py_int s =
     (case strip s of
        [] \<Rightarrow> None
      | c # cs \<Rightarrow> if c = 45 then map_option uminus (unsigned_int cs)
                 else if c = 43 then unsigned_int cs
                 else unsigned_int (c # cs))"

subsection \<open>Lemmas on stripping\<close>

lemma dropWhile_hd: "dropWhile P xs = y # ys \<Longrightarrow> \<not> P y"
  by (metis hd_dropWhile list.distinct(1) list.sel(1))

lemma dropWhile_idem [simp]: "dropWhile P (dropWhile P xs) = dropWhile P xs"
  by (induction xs) auto

lemma rstrip_prefix: "\<exists>t. s = rstrip s @ t \<and> list_all is_space t"
proof -
  have "rev s = takeWhile is_space (rev s) @ dropWhile is_space (rev s)"
    by simp
  then have "s = rstrip s @ rev (takeWhile is_space (rev s))"
    unfolding rstrip_def by (metis rev_append rev_rev_ident)
  moreover have "list_all is_space (rev (takeWhile is_space (rev s)))"
    by (auto simp: list_all_iff dest: set_takeWhileD)
  ultimately show ?thesis by blast
qed

lemma lstrip_rstrip_fixed:
  assumes "lstrip s = s"
  shows "lstrip (rstrip s) = rstrip s"
proof (cases "rstrip s")
  case (Cons x xs)
  from rstrip_prefix obtain t where "s = rstrip s @ t" by blast
  with Cons have "s = x # (xs @ t)" by simp
  with assms have "\<not> is_space x"
    unfolding lstrip_def using dropWhile_hd by metis
  with Cons show ?thesis by (simp add: lstrip_def)
qed (simp add: lstrip_def)

lemma strip_idem [simp]: "strip (strip s) = strip s"
proof -
  have "lstrip (rstrip (lstrip s)) = rstrip (lstrip s)"
    by (rule lstrip_rstrip_fixed) (simp add: lstrip_def)
  then show ?thesis by (simp add: strip_def) (simp add: rstrip_def)
qed

lemma set_strip: "set (strip s) \<subseteq> set s"
proof -
  have d: "set (dropWhile is_space xs) \<subseteq> set xs" for xs :: ustr
    by (metis (no_types) subsetI set_dropWhileD)
  from d [of "rev (dropWhile is_space s)"] d [of s] show ?thesis
    by (auto simp: strip_def rstrip_def lstrip_def)
qed

lemma length_strip: "length (strip s) \<le> length s"
  unfolding strip_def rstrip_def lstrip_def
  by (simp add: length_dropWhile_le le_trans [OF length_dropWhile_le])

lemma strip_no_space: "list_all (\<lambda>c. \<not> is_space c) s \<Longrightarrow> strip s = s"
proof -
  assume a: "list_all (\<lambda>c. \<not> is_space c) s"
  have l: "lstrip s = s" using a by (cases s) (auto simp: lstrip_def)
  have "dropWhile is_space (rev s) = rev s"
    using a by (cases "rev s") (auto simp: list_all_iff dropWhile_eq_self_iff hd_rev dest: arg_cong [of _ _ rev])
  then show ?thesis by (simp add: strip_def l) (simp add: rstrip_def)
qed

lemma strip_Nil [simp]: "strip [] = []"
  by (simp add: strip_def lstrip_def rstrip_def)

subsection \<open>Lemmas on prefixes, suffixes and splitting\<close>

lemma starts_with_append [simp]: "starts_with p (p @ s)"
  by (simp add: starts_with_def)

lemma starts_withE: "starts_with p s \<Longrightarrow> \<exists>t. s = p @ t"
  unfolding starts_with_def by (metis append_take_drop_id)

lemma ends_with_append [simp]: "ends_with p (s @ p)"
  by (simp add: ends_with_def)

lemma ends_withE: "ends_with p s \<Longrightarrow> \<exists>t. s = t @ p"
  unfolding ends_with_def by (metis append_take_drop_id)

lemma split_on_nonempty [simp]: "split_on c xs \<noteq> []"
  by (induction xs) (auto split: list.splits)

lemma split_on_no_sep: "w \<in> set (split_on c xs) \<Longrightarrow> c \<notin> set w"
proof (induction xs arbitrary: w)
  case (Cons x xs)
  then show ?case
    by (cases "split_on c xs") (auto split: if_splits)
qed simp

lemma partition_on_found:
  "partition_on c xs = (b, f, a) \<Longrightarrow> c \<notin> set b \<and> xs = (if f then b @ c # a else b) \<and> (\<not> f \<longrightarrow> a = [])"
  by (induction xs arbitrary: b) (auto split: prod.splits if_splits)

subsection \<open>Lemmas on character classes\<close>

lemma upper_char_upper: "is_lower c \<Longrightarrow> is_upper (upper_char c)"
  by (auto simp: upper_char_def is_lower_def is_upper_def)

lemma upper_char_other: "\<not> is_lower c \<Longrightarrow> upper_char c = c"
  by (simp add: upper_char_def)

lemma length_ascii_upper [simp]: "length (ascii_upper s) = length s"
  by (simp add: ascii_upper_def)

lemma ascii_upper_fixed: "list_all (\<lambda>c. \<not> is_lower c) s \<Longrightarrow> ascii_upper s = s"
  by (induction s) (auto simp: ascii_upper_def upper_char_def)

lemma alnum_not_space: "is_alnum c \<Longrightarrow> \<not> is_space c"
  by (auto simp: is_alnum_def is_digit_def is_upper_def is_lower_def is_space_def)

lemma show_nat_digits: "list_all is_digit (show_nat n)"
proof (induction n rule: show_nat.induct)
  case (1 n)
  then show ?case
    by (subst show_nat.simps) (auto simp: is_digit_def [abs_def] less_Suc_eq_le [symmetric])
qed

lemma show_nat_nonempty: "show_nat n \<noteq> []"
  by (subst show_nat.simps) simp

lemma show_nat_inject: "show_nat m = show_nat n \<Longrightarrow> m = n"
proof (induction m arbitrary: n rule: show_nat.induct)
  case (1 m)
  show ?case
  proof (cases "m < 10 \<or> n < 10")
    case True
    with "1.prems" show ?thesis
      by (subst (asm) (1 2) show_nat.simps)
        (auto simp: show_nat_nonempty show_nat_nonempty [symmetric] split: if_splits)
  next
    case False
    with "1.prems" have "show_nat (m div 10) = show_nat (n div 10)" and "m mod 10 = n mod 10"
      by (subst (asm) (1 2) show_nat.simps, simp)+
    with "1.IH" False have "m div 10 = n div 10" by simp
    with \<open>m mod 10 = n mod 10\<close> show ?thesis by (metis div_mult_mod_eq)
  qed
qed

text \<open>Evaluating the string functions on literals.\<close>

lemmas text_eval = strip_def lstrip_def rstrip_def is_space_def is_alnum_def is_digit_def is_upper_def
  is_lower_def is_hex_def ascii_upper_def ascii_lower_def upper_char_def lower_char_def starts_with_def
  ends_with_def remove_suffix_def rstrip_char_def lstrip_char_def strip_char_def

lemma utf8_char_bytes: "c < 1114112 \<Longrightarrow> list_all (\<lambda>b. b < 256) (utf8_char c)"
proof -
  assume "c < 1114112"
  then have "c div 262144 < 16" by simp
  moreover have "c < 65536 \<Longrightarrow> c div 4096 < 16" "c < 2048 \<Longrightarrow> c div 64 < 32" by simp_all
  ultimately show ?thesis
    by (auto simp: utf8_char_def)
qed

lemma utf8_bytes: "list_all (\<lambda>c. c < 1114112) s \<Longrightarrow> list_all (\<lambda>b. b < 256) (utf8 s)"
  using utf8_char_bytes by (fastforce simp: utf8_def list_all_iff)

section \<open>Exceptions and results\<close>

text \<open>
  An exception the program raises or handles. \<open>AppError\<close> keeps the error code and the HTTP
  status of \<open>errors.AppError\<close>; its human-readable message is not modelled. \<open>UploadRejected\<close> is
  the subclass with a validation stage, \<open>PublishCancelled\<close> the cancellation that carries a
  published file (its storage path and whether this call moved it).
\<close>

datatype exc =
    AppError string nat
  | UploadRejected string string nat
  | RuntimeError string
  | ValueError string
  | OSError
  | DbError
  | UniqueViolation string
  | CheckViolation string
  | CancelledError
  | OverflowError
  | TypeError
  | PublishCancelled ustr bool

type_synonym 'a res = "exc + 'a"

text \<open>\<open>isinstance(error, AppError)\<close> and \<open>error.code\<close>.\<close>

fun app_error_code :: "exc \<Rightarrow> string option" where
  "app_error_code (AppError c _) = Some c"
| "app_error_code (UploadRejected c _ _) = Some c"
| "app_error_code _ = None"

text \<open>\<open>isinstance(error, asyncio.CancelledError)\<close>.\<close>

fun is_cancel :: "exc \<Rightarrow> bool" where
  "is_cancel CancelledError = True"
| "is_cancel (PublishCancelled _ _) = True"
| "is_cancel _ = False"

fun is_err :: "'e + 'a \<Rightarrow> bool" where
  "is_err (Inl _) = True"
| "is_err (Inr _) = False"

section \<open>JSON-like detail values of audit events\<close>

datatype dval = DStr ustr | DInt int | DBool bool | DNull | DStrs "ustr list"

type_synonym detail = "(string \<times> dval) list"

section \<open>Lists\<close>

text \<open>The first element that satisfies a predicate: \<open>fetchone\<close>, \<open>next(..., None)\<close>.\<close>

lemma find_SomeD: "List.find P xs = Some x \<Longrightarrow> x \<in> set xs \<and> P x"
  by (auto simp: find_Some_iff)

lemma find_NoneD: "List.find P xs = None \<Longrightarrow> x \<in> set xs \<Longrightarrow> \<not> P x"
  by (auto simp: find_None_iff)

lemma find_distinct_key:
  "distinct (map f xs) \<Longrightarrow> x \<in> set xs \<Longrightarrow> List.find (\<lambda>y. f y = f x) xs = Some x"
  by (induction xs) (auto simp: image_iff)

lemma filter_unique_key:
  "distinct (map f xs) \<Longrightarrow> x \<in> set xs \<Longrightarrow> filter (\<lambda>y. f y = f x) xs = [x]"
  by (induction xs) (auto simp: filter_empty_conv image_iff)

lemma find_append: "List.find P (xs @ ys) =
    (case List.find P xs of Some x \<Rightarrow> Some x | None \<Rightarrow> List.find P ys)"
  by (induction xs) auto

lemma find_map_same:
  "(\<And>x. x \<in> set xs \<Longrightarrow> P (f x) = P x) \<Longrightarrow> List.find P (map f xs) = map_option f (List.find P xs)"
  by (induction xs) auto

lemma distinct_sorted_wrt: "distinct xs \<longleftrightarrow> sorted_wrt (\<noteq>) xs"
  by (induction xs) auto

text \<open>\<open>UPDATE ... SET ... WHERE p\<close> on a table kept as a list of rows.\<close>

definition update_where :: "('a \<Rightarrow> bool) \<Rightarrow> ('a \<Rightarrow> 'a) \<Rightarrow> 'a list \<Rightarrow> 'a list" where
  "update_where p f xs = map (\<lambda>x. if p x then f x else x) xs"

lemma length_update_where [simp]: "length (update_where p f xs) = length xs"
  by (simp add: update_where_def)

lemma map_update_where: "(\<And>x. g (f x) = g x) \<Longrightarrow> map g (update_where p f xs) = map g xs"
  by (simp add: update_where_def)

lemma set_update_where:
  "x \<in> set (update_where p f xs) \<longleftrightarrow> (\<exists>y \<in> set xs. x = (if p y then f y else y))"
  by (auto simp: update_where_def)

lemma update_where_none: "(\<And>x. x \<in> set xs \<Longrightarrow> \<not> p x) \<Longrightarrow> update_where p f xs = xs"
  by (induction xs) (auto simp: update_where_def)

lemma find_update_where:
  "(\<And>x. q (f x) = q x) \<Longrightarrow>
   List.find q (update_where p f xs) = map_option (\<lambda>x. if p x then f x else x) (List.find q xs)"
  unfolding update_where_def by (rule find_map_same) simp

section \<open>Systems that only evolve in one direction\<close>

text \<open>
  The contract many components of the program share: operations on a state that keep an invariant
  and only move the state forward in an order (content is never overwritten, history is never
  rewritten, a stage is never left backwards). What holds of one operation then holds of every
  sequence of operations.
\<close>

locale evolving =
  fixes step :: "'op \<Rightarrow> 's \<Rightarrow> 's"
    and inv :: "'s \<Rightarrow> bool"
    and ahead :: "'s \<Rightarrow> 's \<Rightarrow> bool"
  assumes ahead_refl: "ahead s s"
    and ahead_trans: "ahead s t \<Longrightarrow> ahead t r \<Longrightarrow> ahead s r"
    and step_inv: "inv s \<Longrightarrow> inv (step x s)"
    and step_ahead: "inv s \<Longrightarrow> ahead s (step x s)"
begin

lemma run_both: "inv s \<Longrightarrow> inv (fold step xs s) \<and> ahead s (fold step xs s)"
proof (induction xs arbitrary: s)
  case (Cons x xs)
  then have "inv (step x s)" and "ahead s (step x s)" by (auto intro: step_inv step_ahead)
  with Cons.IH [of "step x s"] show ?case by (auto intro: ahead_trans)
qed (simp add: ahead_refl)

lemma run_inv: "inv s \<Longrightarrow> inv (fold step xs s)"
  using run_both by blast

lemma run_ahead: "inv s \<Longrightarrow> ahead s (fold step xs s)"
  using run_both by blast

lemma run_between: "inv s \<Longrightarrow> ahead (fold step xs s) (fold step (xs @ ys) s)"
  using run_ahead [OF run_inv] by simp

end

end
