(* ===== verification/Auth_Limit.thy ===== *)
theory Auth_Limit
  imports Py_Prelude
begin

text \<open>
  \<open>domains/auth/rate_limit.py\<close>: the login backoff per source address and per account.

  Clock readings and durations are integers in one unit. The delay is computed as the code does,
  \<open>min(base * 2**exponent, max)\<close> with a float \<open>base\<close>: Python raises \<open>OverflowError\<close> when the integer
  power does not convert to a double, that is from \<open>2**1024\<close> on; below, rounding is not modelled.
  \<open>casefold\<close> is the parameter \<open>cf\<close>. Each method takes its clock readings as arguments.
\<close>

section \<open>State\<close>

datatype limit_key = Ip ustr | Account ustr

record failure_state =
  fs_count :: nat
  fs_blocked_until :: int
  fs_last_failure :: int

record limiter_config =
  lc_limit :: nat
  lc_window :: int
  lc_base :: int
  lc_max :: int

type_synonym failures = "limit_key \<Rightarrow> failure_state option"

record reservation =
  rs_allowed :: bool
  rs_retry_after :: int

section \<open>Operations\<close>

text \<open>\<open>_active_state\<close>: an expired state is dropped from the dictionary.\<close>

definition active_state :: "limiter_config \<Rightarrow> limit_key \<Rightarrow> int \<Rightarrow> failures \<Rightarrow> failure_state option \<times> failures" where
  "active_state cfg key now fl =
     (case fl key of
        None \<Rightarrow> (None, fl)
      | Some s \<Rightarrow> if now - fs_last_failure s > lc_window cfg then (None, fl(key := None)) else (Some s, fl))"

definition retry_after :: "limiter_config \<Rightarrow> (ustr \<Rightarrow> ustr) \<Rightarrow> int \<Rightarrow> ustr \<Rightarrow> ustr \<Rightarrow> failures \<Rightarrow> int \<times> failures" where
  "retry_after cfg cf now ip username fl =
     (case active_state cfg (Ip ip) now fl of
        (s1, fl1) \<Rightarrow>
          (case active_state cfg (Account (cf username)) now fl1 of
             (s2, fl2) \<Rightarrow>
               ((case (s1, s2) of
                   (None, None) \<Rightarrow> 0
                 | (Some a, None) \<Rightarrow> fs_blocked_until a - now
                 | (None, Some b) \<Rightarrow> fs_blocked_until b - now
                 | (Some a, Some b) \<Rightarrow> max (fs_blocked_until a - now) (fs_blocked_until b - now)), fl2)))"

definition backoff :: "limiter_config \<Rightarrow> nat \<Rightarrow> int res" where
  "backoff cfg count =
     (if count \<ge> lc_limit cfg then
        (let exponent = count - lc_limit cfg
         in if exponent \<ge> 1024 then Inl OverflowError else Inr (min (lc_base cfg * 2 ^ exponent) (lc_max cfg)))
      else Inr 0)"

definition register_key :: "limiter_config \<Rightarrow> int \<Rightarrow> limit_key \<Rightarrow> failures \<Rightarrow> unit res \<times> failures" where
  "register_key cfg now key fl =
     (case active_state cfg key now fl of
        (s, fl1) \<Rightarrow>
          let count = (case s of None \<Rightarrow> 1 | Some st \<Rightarrow> fs_count st + 1)
          in case backoff cfg count of
               Inl e \<Rightarrow> (Inl e, fl1)
             | Inr delay \<Rightarrow>
                 (Inr (), fl1(key := Some \<lparr>fs_count = count, fs_blocked_until = now + delay, fs_last_failure = now\<rparr>)))"

definition register_failure ::
    "limiter_config \<Rightarrow> (ustr \<Rightarrow> ustr) \<Rightarrow> int \<Rightarrow> int \<Rightarrow> ustr \<Rightarrow> ustr \<Rightarrow> failures \<Rightarrow> int res \<times> failures" where
  "register_failure cfg cf now now' ip username fl =
     (case register_key cfg now (Ip ip) fl of
        (Inl e, fl1) \<Rightarrow> (Inl e, fl1)
      | (Inr _, fl1) \<Rightarrow>
          (case register_key cfg now (Account (cf username)) fl1 of
             (Inl e, fl2) \<Rightarrow> (Inl e, fl2)
           | (Inr _, fl2) \<Rightarrow> (case retry_after cfg cf now' ip username fl2 of (r, fl3) \<Rightarrow> (Inr r, fl3))))"

definition reserve_attempt ::
    "limiter_config \<Rightarrow> (ustr \<Rightarrow> ustr) \<Rightarrow> int \<Rightarrow> int \<Rightarrow> int \<Rightarrow> ustr \<Rightarrow> ustr \<Rightarrow> failures \<Rightarrow> reservation res \<times> failures" where
  "reserve_attempt cfg cf t1 t2 t3 ip username fl =
     (case retry_after cfg cf t1 ip username fl of
        (r, fl1) \<Rightarrow>
          if r > 0 then (Inr \<lparr>rs_allowed = False, rs_retry_after = r\<rparr>, fl1)
          else (case register_failure cfg cf t2 t3 ip username fl1 of
                  (Inl e, fl2) \<Rightarrow> (Inl e, fl2)
                | (Inr r2, fl2) \<Rightarrow> (Inr \<lparr>rs_allowed = True, rs_retry_after = r2\<rparr>, fl2)))"

definition register_success :: "(ustr \<Rightarrow> ustr) \<Rightarrow> ustr \<Rightarrow> ustr \<Rightarrow> failures \<Rightarrow> failures" where
  "register_success cf ip username fl = fl(Ip ip := None, Account (cf username) := None)"

section \<open>Lemmas\<close>

text \<open>What a reading at \<open>now\<close> still sees of a key.\<close>

definition live :: "limiter_config \<Rightarrow> int \<Rightarrow> failures \<Rightarrow> limit_key \<Rightarrow> failure_state option" where
  "live cfg now fl key =
     (case fl key of None \<Rightarrow> None | Some s \<Rightarrow> if now - fs_last_failure s > lc_window cfg then None else Some s)"

lemma active_state_live: "fst (active_state cfg key now fl) = live cfg now fl key"
  by (simp add: active_state_def live_def split: option.splits)

lemma active_state_eq: "active_state cfg key now fl = (live cfg now fl key, fl(key := live cfg now fl key))"
  by (auto simp: active_state_def live_def fun_eq_iff split: option.splits)

lemma live_update: "live cfg now (fl(k := x)) key =
    (if key = k then (case x of None \<Rightarrow> None | Some s \<Rightarrow> if now - fs_last_failure s > lc_window cfg then None else Some s)
     else live cfg now fl key)"
  by (simp add: live_def)

lemma live_idem [simp]: "live cfg now (fl(k := live cfg now fl k)) key = live cfg now fl key"
  by (auto simp: live_def split: option.splits)

definition remaining :: "int \<Rightarrow> failure_state option \<Rightarrow> int option" where
  "remaining now s = map_option (\<lambda>x. fs_blocked_until x - now) s"

lemma retry_after_eq:
  "retry_after cfg cf now ip username fl =
     (case (live cfg now fl (Ip ip), live cfg now fl (Account (cf username))) of
        (None, None) \<Rightarrow> 0
      | (Some a, None) \<Rightarrow> fs_blocked_until a - now
      | (None, Some b) \<Rightarrow> fs_blocked_until b - now
      | (Some a, Some b) \<Rightarrow> max (fs_blocked_until a - now) (fs_blocked_until b - now),
      fl(Ip ip := live cfg now fl (Ip ip), Account (cf username) := live cfg now fl (Account (cf username))))"
  unfolding retry_after_def active_state_eq prod.case live_idem by simp

text \<open>The counter of a key after one more failure at \<open>now\<close>.\<close>

definition next_count :: "limiter_config \<Rightarrow> int \<Rightarrow> failures \<Rightarrow> limit_key \<Rightarrow> nat" where
  "next_count cfg now fl key = (case live cfg now fl key of None \<Rightarrow> 1 | Some s \<Rightarrow> fs_count s + 1)"

lemma next_count_live: "live cfg now fl key = live cfg now fl' key \<Longrightarrow> next_count cfg now fl key = next_count cfg now fl' key"
  by (simp add: next_count_def)

lemma register_key_eq:
  "register_key cfg now key fl =
     (case backoff cfg (next_count cfg now fl key) of
        Inl e \<Rightarrow> (Inl e, fl(key := live cfg now fl key))
      | Inr delay \<Rightarrow> (Inr (), fl(key := Some
          \<lparr>fs_count = next_count cfg now fl key, fs_blocked_until = now + delay, fs_last_failure = now\<rparr>)))"
  by (simp add: register_key_def active_state_eq Let_def next_count_def split: sum.splits)

lemma retry_blocked:
  assumes "retry_after cfg cf now ip username fl = (r, fl')" and "live cfg now fl key = Some s"
    and "key = Ip ip \<or> key = Account (cf username)" and "now < fs_blocked_until s"
  shows "0 < r"
  using assms by (auto simp: retry_after_eq split: option.splits)

lemma reserve_allowed:
  assumes "reserve_attempt cfg cf t t t ip username fl = (Inr rs, fl')" and "rs_allowed rs" and "0 \<le> lc_window cfg"
  obtains d1 d2 where "backoff cfg (next_count cfg t fl (Ip ip)) = Inr d1"
    "backoff cfg (next_count cfg t fl (Account (cf username))) = Inr d2"
    "fl' = fl(Ip ip \<mapsto> \<lparr>fs_count = next_count cfg t fl (Ip ip), fs_blocked_until = t + d1, fs_last_failure = t\<rparr>,
              Account (cf username) \<mapsto> \<lparr>fs_count = next_count cfg t fl (Account (cf username)),
                fs_blocked_until = t + d2, fs_last_failure = t\<rparr>)"
    "rs_retry_after rs = max d1 d2"
proof -
  let ?acc = "Account (cf username)"
  have ne: "Ip ip \<noteq> ?acc" by simp
  obtain r fl1 where q: "retry_after cfg cf t ip username fl = (r, fl1)" by fastforce
  from q have fl1: "fl1 = fl(Ip ip := live cfg t fl (Ip ip), ?acc := live cfg t fl ?acc)"
    by (simp add: retry_after_eq)
  from assms q have r: "\<not> r > 0" by (auto simp: reserve_attempt_def)
  from assms(1) q r have f: "register_failure cfg cf t t ip username fl1 = (Inr (rs_retry_after rs), fl')"
    by (auto simp: reserve_attempt_def split: prod.splits sum.splits)
  have l1: "live cfg t fl1 (Ip ip) = live cfg t fl (Ip ip)" "live cfg t fl1 ?acc = live cfg t fl ?acc"
    by (auto simp: fl1 live_def split: option.splits)
  have n1: "next_count cfg t fl1 (Ip ip) = next_count cfg t fl (Ip ip)" by (rule next_count_live [OF l1(1)])
  have "\<exists>d1. backoff cfg (next_count cfg t fl (Ip ip)) = Inr d1"
  proof (cases "backoff cfg (next_count cfg t fl (Ip ip))")
    case (Inl e)
    with f show ?thesis by (simp add: register_failure_def register_key_eq n1)
  qed simp
  then obtain d1 where d1: "backoff cfg (next_count cfg t fl (Ip ip)) = Inr d1" by blast
  let ?fl2 = "fl1(Ip ip \<mapsto> \<lparr>fs_count = next_count cfg t fl (Ip ip), fs_blocked_until = t + d1, fs_last_failure = t\<rparr>)"
  have k1: "register_key cfg t (Ip ip) fl1 = (Inr (), ?fl2)"
    using d1 by (simp add: register_key_eq n1)
  have l2: "live cfg t ?fl2 ?acc = live cfg t fl ?acc" by (simp add: live_update l1(2)[symmetric])
  have reg2: "register_key cfg t ?acc ?fl2 =
     (case backoff cfg (next_count cfg t fl ?acc) of
        Inl e \<Rightarrow> (Inl e, ?fl2(?acc := live cfg t fl ?acc))
      | Inr delay \<Rightarrow> (Inr (), ?fl2(?acc := Some
          \<lparr>fs_count = next_count cfg t fl ?acc, fs_blocked_until = t + delay, fs_last_failure = t\<rparr>)))"
    by (simp only: register_key_eq l2 next_count_live [OF l2])
  have "\<exists>d2. backoff cfg (next_count cfg t fl ?acc) = Inr d2"
  proof (cases "backoff cfg (next_count cfg t fl ?acc)")
    case (Inl e)
    with reg2 have "register_key cfg t ?acc ?fl2 = (Inl e, ?fl2(?acc := live cfg t fl ?acc))" by simp
    with f k1 show ?thesis by (simp add: register_failure_def)
  qed simp
  then obtain d2 where d2: "backoff cfg (next_count cfg t fl ?acc) = Inr d2" by blast
  let ?fl3 = "?fl2(?acc \<mapsto> \<lparr>fs_count = next_count cfg t fl ?acc, fs_blocked_until = t + d2, fs_last_failure = t\<rparr>)"
  have k2: "register_key cfg t ?acc ?fl2 = (Inr (), ?fl3)"
    unfolding reg2 d2 by simp
  have "retry_after cfg cf t ip username ?fl3 = (max d1 d2, ?fl3)"
    using assms(3) by (simp add: retry_after_eq live_def fun_eq_iff)
  with f k1 k2 have e: "fl' = ?fl3" "rs_retry_after rs = max d1 d2"
    by (simp_all add: register_failure_def)
  have "?fl3 = fl(Ip ip \<mapsto> \<lparr>fs_count = next_count cfg t fl (Ip ip), fs_blocked_until = t + d1, fs_last_failure = t\<rparr>,
              ?acc \<mapsto> \<lparr>fs_count = next_count cfg t fl ?acc, fs_blocked_until = t + d2, fs_last_failure = t\<rparr>)"
    by (auto simp: fl1 fun_eq_iff)
  with e d1 d2 that show thesis by simp
qed

text \<open>The delay of a counter value.\<close>

definition delay :: "limiter_config \<Rightarrow> nat \<Rightarrow> int" where
  "delay cfg c = (if c < lc_limit cfg then 0 else min (lc_base cfg * 2 ^ (c - lc_limit cfg)) (lc_max cfg))"

lemma backoff_delay: "backoff cfg c = (if c < lc_limit cfg + 1024 then Inr (delay cfg c) else Inl OverflowError)"
  by (auto simp: backoff_def delay_def Let_def)

lemma delay_bounds: "0 \<le> lc_base cfg \<Longrightarrow> lc_base cfg \<le> lc_max cfg \<Longrightarrow> 0 \<le> delay cfg c \<and> delay cfg c \<le> lc_max cfg"
  by (simp add: delay_def)

lemma next_count_Some: "live cfg now fl key = Some s \<Longrightarrow> next_count cfg now fl key = Suc (fs_count s)"
  by (simp add: next_count_def)

text \<open>A small configuration and an account with three failures.\<close>

definition sample_cfg :: limiter_config where
  "sample_cfg = \<lparr>lc_limit = 2, lc_window = 900, lc_base = 1, lc_max = 60\<rparr>"

definition sample_failures :: failures where
  "sample_failures = [Account [9] \<mapsto> \<lparr>fs_count = 3, fs_blocked_until = 4, fs_last_failure = 0\<rparr>]"

lemma sample_reserve:
  "reserve_attempt sample_cfg id 5 5 5 [1] [9] sample_failures =
     (Inr \<lparr>rs_allowed = True, rs_retry_after = 4\<rparr>, snd (reserve_attempt sample_cfg id 5 5 5 [1] [9] sample_failures))"
  by (simp add: sample_cfg_def sample_failures_def reserve_attempt_def register_failure_def register_key_eq
      retry_after_eq live_def backoff_def next_count_def Let_def)

section \<open>Properties\<close>

text \<open>
  An admitted attempt blocks its account and its address: from the moment it is admitted until
  its backoff has run out, as long as the failure is inside the window, every further attempt on
  the same account from any address, and every attempt from the same address on any account, is
  refused, and the refusal changes no counter of that account or address.
\<close>

theorem login_throttle:
  assumes "reserve_attempt cfg cf t t t ip username fl = (Inr rs, fl')" and "rs_allowed rs"
    and "0 \<le> lc_window cfg" and "t \<le> t'" and "t' - t \<le> lc_window cfg"
    and "key = Ip ip \<and> ip' = ip \<or> key = Account (cf username) \<and> cf username' = cf username"
    and "backoff cfg (next_count cfg t fl key) = Inr d" and "t' < t + d"
  shows "\<exists>rs'. reserve_attempt cfg cf t' t2 t3 ip' username' fl' =
      (Inr rs', snd (retry_after cfg cf t' ip' username' fl')) \<and> \<not> rs_allowed rs' \<and> 0 < rs_retry_after rs'
    \<and> snd (retry_after cfg cf t' ip' username' fl') key = fl' key"
proof -
  from assms(1-3) obtain d1 d2 where b: "backoff cfg (next_count cfg t fl (Ip ip)) = Inr d1"
    "backoff cfg (next_count cfg t fl (Account (cf username))) = Inr d2"
    and fl': "fl' = fl(Ip ip \<mapsto> \<lparr>fs_count = next_count cfg t fl (Ip ip), fs_blocked_until = t + d1, fs_last_failure = t\<rparr>,
              Account (cf username) \<mapsto> \<lparr>fs_count = next_count cfg t fl (Account (cf username)),
                fs_blocked_until = t + d2, fs_last_failure = t\<rparr>)"
    by (rule reserve_allowed)
  let ?s = "\<lparr>fs_count = next_count cfg t fl key, fs_blocked_until = t + d, fs_last_failure = t\<rparr>"
  have s: "fl' key = Some ?s" using assms(6,7) b fl' by auto
  then have l: "live cfg t' fl' key = Some ?s" using assms(4,5) by (simp add: live_def)
  have k: "key = Ip ip' \<or> key = Account (cf username')" using assms(6) by auto
  obtain r fl2 where q: "retry_after cfg cf t' ip' username' fl' = (r, fl2)" by fastforce
  from retry_blocked [OF q l k] assms(8) have r: "0 < r" by simp
  have "fl2 key = fl' key" using q l s by (auto simp: retry_after_eq)
  with q r show ?thesis by (simp add: reserve_attempt_def)
qed

theorem login_throttle_witness:
  "\<exists>rs'. reserve_attempt sample_cfg id 5 5 5 [2] [9]
      (snd (reserve_attempt sample_cfg id 5 5 5 [1] [9]
         sample_failures)) =
      (Inr rs', snd (retry_after sample_cfg id 5 [2] [9]
        (snd (reserve_attempt sample_cfg id 5 5 5 [1] [9]
         sample_failures))))
     \<and> \<not> rs_allowed rs' \<and> 0 < rs_retry_after rs'
     \<and> snd (retry_after sample_cfg id 5 [2] [9]
        (snd (reserve_attempt sample_cfg id 5 5 5 [1] [9]
         sample_failures))) (Account [9])
       = snd (reserve_attempt sample_cfg id 5 5 5 [1] [9]
         sample_failures) (Account [9])"
  by (rule login_throttle [OF sample_reserve, where key = "Account [9]" and d = 4])
    (simp_all add: sample_cfg_def sample_failures_def next_count_def live_def backoff_def Let_def)

text \<open>
  The backoff announced to an admitted attempt is the larger of the two dimensions' delays: zero
  below the failure limit, then doubling from the base, and never above the configured maximum nor
  below zero.
\<close>

theorem login_backoff_value:
  assumes "reserve_attempt cfg cf t t t ip username fl = (Inr rs, fl')" and "rs_allowed rs"
    and "0 \<le> lc_window cfg" and "0 \<le> lc_base cfg" and "lc_base cfg \<le> lc_max cfg"
  shows "rs_retry_after rs =
      max (delay cfg (next_count cfg t fl (Ip ip))) (delay cfg (next_count cfg t fl (Account (cf username))))
    \<and> 0 \<le> rs_retry_after rs \<and> rs_retry_after rs \<le> lc_max cfg"
proof -
  from assms(1-3) obtain d1 d2 where "backoff cfg (next_count cfg t fl (Ip ip)) = Inr d1"
    "backoff cfg (next_count cfg t fl (Account (cf username))) = Inr d2" and r: "rs_retry_after rs = max d1 d2"
    by (rule reserve_allowed)
  then have "d1 = delay cfg (next_count cfg t fl (Ip ip))" "d2 = delay cfg (next_count cfg t fl (Account (cf username)))"
    by (simp_all add: backoff_delay split: if_splits)
  with r delay_bounds [OF assms(4,5), of "next_count cfg t fl (Ip ip)"]
    delay_bounds [OF assms(4,5), of "next_count cfg t fl (Account (cf username))"]
  show ?thesis by (simp add: max_def)
qed

theorem login_backoff_value_witness:
  "rs_retry_after \<lparr>rs_allowed = True, rs_retry_after = 4\<rparr> =
      max (delay sample_cfg (next_count sample_cfg 5 sample_failures (Ip [1])))
          (delay sample_cfg (next_count sample_cfg 5 sample_failures (Account (id [9]))))
    \<and> 0 \<le> rs_retry_after \<lparr>rs_allowed = True, rs_retry_after = 4\<rparr>
    \<and> rs_retry_after \<lparr>rs_allowed = True, rs_retry_after = 4\<rparr> \<le> lc_max sample_cfg"
  by (rule login_backoff_value [OF sample_reserve]) (simp_all add: sample_cfg_def)

section \<open>A sustained attack\<close>

text \<open>
  One attempt whenever the longest backoff has run out, always on the same account from the same
  address. The counters never expire, and the attempt number \<open>limit + 1024\<close> does not get an answer:
  the power no longer converts to a float, so that the handler raises.
\<close>

primrec attack :: "limiter_config \<Rightarrow> (ustr \<Rightarrow> ustr) \<Rightarrow> ustr \<Rightarrow> ustr \<Rightarrow> nat \<Rightarrow> failures" where
  "attack cfg cf ip username 0 = (\<lambda>_. None)"
| "attack cfg cf ip username (Suc n) =
     snd (reserve_attempt cfg cf (int n * lc_max cfg) (int n * lc_max cfg) (int n * lc_max cfg) ip username
       (attack cfg cf ip username n))"

definition attack_entry :: "limiter_config \<Rightarrow> nat \<Rightarrow> failure_state" where
  "attack_entry cfg n =
     \<lparr>fs_count = Suc n, fs_blocked_until = int n * lc_max cfg + delay cfg (Suc n), fs_last_failure = int n * lc_max cfg\<rparr>"

definition attack_map :: "limiter_config \<Rightarrow> (ustr \<Rightarrow> ustr) \<Rightarrow> ustr \<Rightarrow> ustr \<Rightarrow> nat \<Rightarrow> failures" where
  "attack_map cfg cf ip username n = [Ip ip \<mapsto> attack_entry cfg n, Account (cf username) \<mapsto> attack_entry cfg n]"

lemma attack_live:
  assumes "0 \<le> lc_base cfg" "lc_base cfg \<le> lc_max cfg" "lc_max cfg \<le> lc_window cfg"
    and "key = Ip ip \<or> key = Account (cf username)"
  shows "live cfg (int (Suc n) * lc_max cfg) (attack_map cfg cf ip username n) key = Some (attack_entry cfg n)"
  using assms by (auto simp: live_def attack_entry_def attack_map_def algebra_simps)

lemma attack_open:
  assumes "0 \<le> lc_base cfg" "lc_base cfg \<le> lc_max cfg" "lc_max cfg \<le> lc_window cfg"
  shows "\<exists>r. retry_after cfg cf (int (Suc n) * lc_max cfg) ip username (attack_map cfg cf ip username n)
    = (r, attack_map cfg cf ip username n) \<and> \<not> r > 0"
proof -
  let ?now = "int (Suc n) * lc_max cfg" and ?acc = "Account (cf username)" and ?fl = "attack_map cfg cf ip username n"
  have l: "live cfg ?now ?fl (Ip ip) = Some (attack_entry cfg n)" "live cfg ?now ?fl ?acc = Some (attack_entry cfg n)"
    by (intro attack_live [OF assms]; simp)+
  have "delay cfg (Suc n) \<le> lc_max cfg" using delay_bounds assms by blast
  then have b: "fs_blocked_until (attack_entry cfg n) \<le> ?now" by (simp add: attack_entry_def algebra_simps)
  have "?fl(Ip ip := Some (attack_entry cfg n), ?acc := Some (attack_entry cfg n)) = ?fl"
    by (auto simp: attack_map_def fun_eq_iff)
  then have "retry_after cfg cf ?now ip username ?fl = (fs_blocked_until (attack_entry cfg n) - ?now, ?fl)"
    unfolding retry_after_eq l prod.case option.case by simp
  with b show ?thesis by simp
qed

lemma attack_state:
  assumes "0 \<le> lc_base cfg" "lc_base cfg \<le> lc_max cfg" "lc_max cfg \<le> lc_window cfg" "Suc n < lc_limit cfg + 1024"
  shows "attack cfg cf ip username (Suc n) = attack_map cfg cf ip username n"
  using assms(4)
proof (induction n)
  case 0
  then show ?case
    using assms(1-3) by (simp add: reserve_attempt_def register_failure_def register_key_eq retry_after_eq live_def next_count_def
        attack_entry_def attack_map_def backoff_delay fun_eq_iff split: prod.split)
next
  case (Suc n)
  let ?now = "int (Suc n) * lc_max cfg" and ?acc = "Account (cf username)" and ?fl = "attack_map cfg cf ip username n"
  note live = attack_live [OF assms(1-3)]
  from attack_open [OF assms(1-3)] obtain r where q: "retry_after cfg cf ?now ip username ?fl = (r, ?fl)" "\<not> r > 0" by blast
  have c: "backoff cfg (Suc (Suc n)) = Inr (delay cfg (Suc (Suc n)))" using Suc.prems by (simp add: backoff_delay)
  have n1: "next_count cfg ?now ?fl (Ip ip) = Suc (Suc n)"
    using next_count_Some [OF live] by (simp add: attack_entry_def)
  let ?fl1 = "?fl(Ip ip \<mapsto> attack_entry cfg (Suc n))"
  have k1: "register_key cfg ?now (Ip ip) ?fl = (Inr (), ?fl1)"
    unfolding register_key_eq n1 c sum.case attack_entry_def ..
  have "live cfg ?now ?fl1 ?acc = live cfg ?now ?fl ?acc" by (simp add: live_update)
  then have n2: "next_count cfg ?now ?fl1 ?acc = Suc (Suc n)"
    using next_count_Some [of cfg ?now ?fl1 ?acc] live by (simp add: attack_entry_def)
  let ?fl2 = "?fl1(?acc \<mapsto> attack_entry cfg (Suc n))"
  have k2: "register_key cfg ?now ?acc ?fl1 = (Inr (), ?fl2)"
    unfolding register_key_eq n2 c sum.case by (simp only: attack_entry_def)
  have e: "?fl2 = attack_map cfg cf ip username (Suc n)"
    by (auto simp: attack_map_def fun_eq_iff)
  have "snd (retry_after cfg cf ?now ip username ?fl2) = ?fl2"
    using assms(1-3) by (auto simp: retry_after_eq live_def attack_entry_def fun_eq_iff)
  with q k1 k2 have "snd (reserve_attempt cfg cf ?now ?now ?now ip username ?fl) = ?fl2"
    by (auto simp: reserve_attempt_def register_failure_def split: prod.splits)
  with e Suc show ?case by simp
qed

theorem sustained_attack_raises:
  assumes "0 \<le> lc_base cfg" "lc_base cfg \<le> lc_max cfg" "lc_max cfg \<le> lc_window cfg" "Suc (Suc n) = lc_limit cfg + 1024"
    and "t = int (Suc n) * lc_max cfg"
  shows "fst (reserve_attempt cfg cf t t t ip username (attack cfg cf ip username (Suc n))) = Inl OverflowError"
proof -
  let ?fl = "attack_map cfg cf ip username n"
  have s: "attack cfg cf ip username (Suc n) = ?fl" using assms by (intro attack_state) simp_all
  from attack_open [OF assms(1-3)] obtain r where q: "retry_after cfg cf t ip username ?fl = (r, ?fl)" "\<not> r > 0"
    unfolding assms(5) by blast
  have "next_count cfg t ?fl (Ip ip) = lc_limit cfg + 1024"
    using next_count_Some [OF attack_live [OF assms(1-3), of "Ip ip" ip cf username n]] assms(4)
    unfolding assms(5) by (simp only: attack_entry_def failure_state.select_convs) simp
  then have "fst (register_key cfg t (Ip ip) ?fl) = Inl OverflowError"
    by (simp add: register_key_eq backoff_delay)
  then have "fst (register_failure cfg cf t t ip username ?fl) = Inl OverflowError"
    by (auto simp: register_failure_def split: prod.splits)
  with q s show ?thesis by (auto simp: reserve_attempt_def split: prod.splits)
qed

end
