(* ===== verification/App_Db.thy ===== *)
theory App_Db
  imports Py_Prelude "HOL-Library.Sublist"
begin

text \<open>
  The application's PostgreSQL schema (\<open>migrations/versions/20260801_0001_initial_schema.py\<close>
  and \<open>20260804_0002_product_name.py\<close>), the SQL statements the services issue against it, the
  audit service and psycopg's transaction blocks.

  A table is the list of its rows in insertion order. \<open>tables\<close> is the transactional state;
  \<open>seqs\<close> are the bigserial counters, which a rollback does not put back. Timestamps are whole
  microseconds; \<open>now()\<close> is the argument \<open>now\<close> (PostgreSQL fixes it for a transaction). UUIDs are
  natural numbers. The status column carries its CHECK constraint in its type.
\<close>

section \<open>Rows\<close>

datatype pstatus = Active | Disabled

record p_row =
  p_id :: int
  p_code :: ustr
  p_name :: "ustr option"
  p_token :: ustr
  p_status :: pstatus
  p_current :: "int option"
  p_created :: int
  p_updated :: int

record f_row =
  f_id :: int
  f_sha :: ustr
  f_size :: int
  f_path :: ustr
  f_created :: int

record v_row =
  v_id :: int
  v_product :: int
  v_file :: int
  v_no :: int
  v_filename :: ustr
  v_by :: int
  v_at :: int

record a_row =
  a_id :: int
  a_username :: ustr
  a_hash :: ustr
  a_must_change :: bool
  a_pw_updated :: int
  a_last_login :: "int option"
  a_created :: int

record s_row =
  s_id :: nat
  s_admin :: int
  s_hash :: ustr
  s_issued :: int
  s_expires :: int
  s_revoked :: "int option"

datatype audit_result = Success | Failure

text \<open>\<open>audit/service.AuditEvent\<close>, and the row it becomes.\<close>

record audit_event =
  ev_action :: string
  ev_result :: audit_result
  ev_actor_type :: string
  ev_actor :: "int option"
  ev_target_type :: "string option"
  ev_target :: "int option"
  ev_code :: "ustr option"
  ev_request :: "nat option"
  ev_detail :: "detail option"

record e_row =
  e_id :: int
  e_at :: int
  e_event :: audit_event

record tables =
  t_products :: "p_row list"
  t_files :: "f_row list"
  t_versions :: "v_row list"
  t_admins :: "a_row list"
  t_sessions :: "s_row list"
  t_audit :: "e_row list"

record seqs =
  q_products :: int
  q_files :: int
  q_versions :: int
  q_admins :: int
  q_audit :: int

record db =
  tabs :: tables
  seqs :: seqs

text \<open>The schema as the migrations leave it: empty tables, sequences at one.\<close>

definition empty_db :: db where
  "empty_db =
     \<lparr>tabs = \<lparr>t_products = [], t_files = [], t_versions = [], t_admins = [], t_sessions = [], t_audit = []\<rparr>,
      seqs = \<lparr>q_products = 1, q_files = 1, q_versions = 1, q_admins = 1, q_audit = 1\<rparr>\<rparr>"

abbreviation upd_tabs :: "(tables \<Rightarrow> tables) \<Rightarrow> db \<Rightarrow> db" where
  "upd_tabs f d \<equiv> d\<lparr>tabs := f (tabs d)\<rparr>"

abbreviation upd_seqs :: "(seqs \<Rightarrow> seqs) \<Rightarrow> db \<Rightarrow> db" where
  "upd_seqs f d \<equiv> d\<lparr>seqs := f (seqs d)\<rparr>"

section \<open>Transactions\<close>

text \<open>
  \<open>async with connection.transaction()\<close>, and a pooled connection's own block: commit on normal
  exit, roll back on an exception. Nested, it is a savepoint with the same effect on the tables.
\<close>

definition transaction :: "(db \<Rightarrow> 'a res \<times> db) \<Rightarrow> db \<Rightarrow> 'a res \<times> db" where
  "transaction body d =
     (case body d of
        (Inr x, d') \<Rightarrow> (Inr x, d')
      | (Inl e, d') \<Rightarrow> (Inl e, d\<lparr>seqs := seqs d'\<rparr>))"

lemma transaction_Inr: "transaction body d = (Inr x, d') \<longleftrightarrow> body d = (Inr x, d')"
  by (auto simp: transaction_def split: prod.splits sum.splits)

lemma transaction_Inl:
  "transaction body d = (Inl e, d') \<Longrightarrow> tabs d' = tabs d \<and> (\<exists>d''. body d = (Inl e, d'') \<and> seqs d' = seqs d'')"
  by (auto simp: transaction_def split: prod.splits sum.splits)

lemma fst_transaction [simp]: "fst (transaction body d) = fst (body d)"
  by (auto simp: transaction_def split: prod.splits sum.splits)

lemma transaction_body_Inl: "body d = (Inl e, d') \<Longrightarrow> transaction body d = (Inl e, d\<lparr>seqs := seqs d'\<rparr>)"
  by (simp add: transaction_def)

lemma transaction_body_Inr: "body d = (Inr x, d') \<Longrightarrow> transaction body d = (Inr x, d')"
  by (simp add: transaction_def)

text \<open>
  Statement sequencing: the next statement runs on the state and the value of the first; an
  exception of the first leaves the block at once.
\<close>

definition dbind :: "(db \<Rightarrow> 'a res \<times> db) \<Rightarrow> ('a \<Rightarrow> db \<Rightarrow> 'b res \<times> db) \<Rightarrow> db \<Rightarrow> 'b res \<times> db" where
  "dbind m f d = (case m d of (Inl e, d1) \<Rightarrow> (Inl e, d1) | (Inr x, d1) \<Rightarrow> f x d1)"

lemma dbind_Inr: "m d = (Inr x, d1) \<Longrightarrow> dbind m f d = f x d1"
  by (simp add: dbind_def)

lemma dbind_Inl: "m d = (Inl e, d1) \<Longrightarrow> dbind m f d = (Inl e, d1)"
  by (simp add: dbind_def)

lemma dbind_InrE:
  assumes "dbind m f d = (Inr y, d')"
  obtains x d1 where "m d = (Inr x, d1)" "f x d1 = (Inr y, d')"
  using assms by (auto simp: dbind_def split: prod.splits sum.splits)

section \<open>Column constraints\<close>

text \<open>\<open>code ~ '^[A-Z0-9_-]{1,64}$'\<close>.\<close>

definition code_char :: "nat \<Rightarrow> bool" where
  "code_char c \<longleftrightarrow> is_upper c \<or> is_digit c \<or> c = 95 \<or> c = 45"

definition ck_products_code_format :: "ustr \<Rightarrow> bool" where
  "ck_products_code_format s \<longleftrightarrow> 1 \<le> length s \<and> length s \<le> 64 \<and> list_all code_char s"

text \<open>The widths of the \<open>varchar\<close> columns of \<open>products\<close>; a longer value is refused before any check.\<close>

definition product_widths :: "ustr \<Rightarrow> ustr option \<Rightarrow> ustr \<Rightarrow> bool" where
  "product_widths code name token \<longleftrightarrow>
     length code \<le> 64 \<and> (case name of None \<Rightarrow> True | Some n \<Rightarrow> length n \<le> 120) \<and> length token \<le> 26"

definition audit_widths :: "audit_event \<Rightarrow> bool" where
  "audit_widths e \<longleftrightarrow>
     length (ev_actor_type e) \<le> 16 \<and> length (ev_action e) \<le> 48
     \<and> (case ev_target_type e of None \<Rightarrow> True | Some t \<Rightarrow> length t \<le> 24)
     \<and> (case ev_code e of None \<Rightarrow> True | Some c \<Rightarrow> length c \<le> 64)"

section \<open>Statements\<close>

text \<open>\<open>SELECT ... FROM products WHERE id = %s\<close> (with or without \<open>FOR UPDATE\<close>), and by token.\<close>

definition select_product :: "int \<Rightarrow> db \<Rightarrow> p_row option" where
  "select_product pid d = List.find (\<lambda>p. p_id p = pid) (t_products (tabs d))"

definition select_product_by_token :: "ustr \<Rightarrow> db \<Rightarrow> p_row option" where
  "select_product_by_token tok d = List.find (\<lambda>p. p_token p = tok) (t_products (tabs d))"

definition select_admin :: "int \<Rightarrow> db \<Rightarrow> a_row option" where
  "select_admin aid d = List.find (\<lambda>a. a_id a = aid) (t_admins (tabs d))"

text \<open>
  \<open>INSERT INTO products ... RETURNING ...\<close>. The key is drawn from the sequence first; then the
  column widths, the CHECK constraint and the unique indexes, in the order they were created.
\<close>

definition insert_product :: "int \<Rightarrow> ustr \<Rightarrow> ustr option \<Rightarrow> ustr \<Rightarrow> db \<Rightarrow> p_row res \<times> db" where
  "insert_product now code name token d =
     (let pid = q_products (seqs d);
          d1 = upd_seqs (\<lambda>q. q\<lparr>q_products := pid + 1\<rparr>) d;
          row = \<lparr>p_id = pid, p_code = code, p_name = name, p_token = token, p_status = Active,
                 p_current = None, p_created = now, p_updated = now\<rparr>
      in if \<not> product_widths code name token then (Inl DbError, d1)
         else if \<not> ck_products_code_format code then (Inl (CheckViolation ''ck_products_code_format''), d1)
         else if code \<in> set (map p_code (t_products (tabs d))) then (Inl (UniqueViolation ''products_code_key''), d1)
         else if token \<in> set (map p_token (t_products (tabs d))) then (Inl (UniqueViolation ''products_public_token_key''), d1)
         else (Inr row, upd_tabs (\<lambda>t. t\<lparr>t_products := t_products t @ [row]\<rparr>) d1))"

text \<open>
  \<open>UPDATE products SET ... WHERE id = %s\<close>. The trigger \<open>trg_products_immutable\<close> refuses a row
  whose code, token or id would change; \<open>fk_products_current_version\<close> refuses a pointer that is
  not a version of the same product.
\<close>

definition trg_products_immutable :: "p_row \<Rightarrow> p_row \<Rightarrow> bool" where
  "trg_products_immutable old new \<longleftrightarrow>
     p_code new = p_code old \<and> p_token new = p_token old \<and> p_id new = p_id old"

definition fk_current_ok :: "tables \<Rightarrow> p_row \<Rightarrow> bool" where
  "fk_current_ok t p =
     (case p_current p of None \<Rightarrow> True
      | Some vid \<Rightarrow> list_ex (\<lambda>v. v_product v = p_id p \<and> v_id v = vid) (t_versions t))"

definition update_product :: "int \<Rightarrow> (p_row \<Rightarrow> p_row) \<Rightarrow> db \<Rightarrow> p_row option res \<times> db" where
  "update_product pid f d =
     (case select_product pid d of
        None \<Rightarrow> (Inr None, d)
      | Some old \<Rightarrow>
          if \<not> trg_products_immutable old (f old) then (Inl DbError, d)
          else if \<not> fk_current_ok (tabs d) (f old) then (Inl DbError, d)
          else (Inr (Some (f old)),
                upd_tabs (\<lambda>t. t\<lparr>t_products := update_where (\<lambda>p. p_id p = pid) f (t_products t)\<rparr>) d))"

text \<open>
  \<open>INSERT INTO pdf_files ... ON CONFLICT (sha256) DO NOTHING RETURNING ...\<close>: no row is returned
  when the digest is already there (the key is drawn all the same).
\<close>

definition insert_file :: "int \<Rightarrow> ustr \<Rightarrow> int \<Rightarrow> ustr \<Rightarrow> db \<Rightarrow> f_row option \<times> db" where
  "insert_file now sha sz path d =
     (let fid = q_files (seqs d);
          d1 = upd_seqs (\<lambda>q. q\<lparr>q_files := fid + 1\<rparr>) d;
          row = \<lparr>f_id = fid, f_sha = sha, f_size = sz, f_path = path, f_created = now\<rparr>
      in if sha \<in> set (map f_sha (t_files (tabs d))) then (None, d1)
         else (Some row, upd_tabs (\<lambda>t. t\<lparr>t_files := t_files t @ [row]\<rparr>) d1))"

definition select_file_by_sha :: "ustr \<Rightarrow> db \<Rightarrow> f_row option" where
  "select_file_by_sha sha d = List.find (\<lambda>f. f_sha f = sha) (t_files (tabs d))"

definition select_file :: "int \<Rightarrow> db \<Rightarrow> f_row option" where
  "select_file fid d = List.find (\<lambda>f. f_id f = fid) (t_files (tabs d))"

definition select_version :: "int \<Rightarrow> int \<Rightarrow> db \<Rightarrow> v_row option" where
  "select_version pid vid d = List.find (\<lambda>v. v_product v = pid \<and> v_id v = vid) (t_versions (tabs d))"

text \<open>\<open>INSERT INTO pdf_versions ...\<close> with its three foreign keys and its unique constraint.\<close>

definition insert_version :: "int \<Rightarrow> int \<Rightarrow> int \<Rightarrow> int \<Rightarrow> ustr \<Rightarrow> int \<Rightarrow> db \<Rightarrow> v_row res \<times> db" where
  "insert_version now pid fid no filename by_id d =
     (let vid = q_versions (seqs d);
          d1 = upd_seqs (\<lambda>q. q\<lparr>q_versions := vid + 1\<rparr>) d;
          row = \<lparr>v_id = vid, v_product = pid, v_file = fid, v_no = no, v_filename = filename,
                 v_by = by_id, v_at = now\<rparr>
      in if list_ex (\<lambda>v. v_product v = pid \<and> v_no v = no) (t_versions (tabs d))
           then (Inl (UniqueViolation ''uq_pdf_versions_product_version''), d1)
         else if select_product pid d = None \<or> select_file fid d = None \<or> select_admin by_id d = None
           then (Inl DbError, d1)
         else (Inr row, upd_tabs (\<lambda>t. t\<lparr>t_versions := t_versions t @ [row]\<rparr>) d1))"

text \<open>
  \<open>UPDATE\<close> or \<open>DELETE\<close> on \<open>pdf_versions\<close> and \<open>pdf_files\<close>: the row triggers raise for every row
  the statement would touch, so that it can only succeed when it touches none.
\<close>

definition reject_append_only_mutation :: "('r \<Rightarrow> bool) \<Rightarrow> 'r list \<Rightarrow> db \<Rightarrow> unit res \<times> db" where
  "reject_append_only_mutation hit rows d =
     (if list_ex hit rows then (Inl DbError, d) else (Inr (), d))"

section \<open>The audit service\<close>

text \<open>\<open>append_event\<close>: the event in the caller's transaction.\<close>

definition append_event :: "int \<Rightarrow> audit_event \<Rightarrow> db \<Rightarrow> unit res \<times> db" where
  "append_event now e d =
     (let eid = q_audit (seqs d);
          d1 = upd_seqs (\<lambda>q. q\<lparr>q_audit := eid + 1\<rparr>) d
      in if \<not> audit_widths e then (Inl DbError, d1)
         else (Inr (), upd_tabs (\<lambda>t. t\<lparr>t_audit := t_audit t @ [\<lparr>e_id = eid, e_at = now, e_event = e\<rparr>]\<rparr>) d1))"

text \<open>
  \<open>append_independent_event\<close>: its own connection and transaction; any exception is swallowed and
  reported as \<open>False\<close>. \<open>up\<close> says whether the database accepts the connection at that moment.
\<close>

definition append_independent_event :: "bool \<Rightarrow> int \<Rightarrow> audit_event \<Rightarrow> db \<Rightarrow> bool \<times> db" where
  "append_independent_event up now e d =
     (if \<not> up then (False, d)
      else (case transaction (append_event now e) d of
              (Inl _, d') \<Rightarrow> (False, d')
            | (Inr _, d') \<Rightarrow> (True, d')))"

abbreviation admin_event :: "string \<Rightarrow> int \<Rightarrow> string \<Rightarrow> int \<Rightarrow> ustr option \<Rightarrow> nat option \<Rightarrow> detail option \<Rightarrow> audit_event" where
  "admin_event action actor ttype target code req det \<equiv>
     \<lparr>ev_action = action, ev_result = Success, ev_actor_type = ''admin'', ev_actor = Some actor,
      ev_target_type = Some ttype, ev_target = Some target, ev_code = code, ev_request = req,
      ev_detail = det\<rparr>"

section \<open>The database invariant\<close>

text \<open>
  What every row satisfies in every state the services can reach: keys below their sequence and
  distinct, the unique constraints, the CHECK constraint, the foreign keys, version numbers
  starting at one, and no version of a product later than its product's existence.
\<close>

definition key_ok :: "('r \<Rightarrow> int) \<Rightarrow> int \<Rightarrow> 'r list \<Rightarrow> bool" where
  "key_ok f q xs \<longleftrightarrow> distinct (map f xs) \<and> list_all (\<lambda>x. f x < q) xs"

definition keys_ok :: "tables \<Rightarrow> seqs \<Rightarrow> bool" where
  "keys_ok t q \<longleftrightarrow>
     key_ok p_id (q_products q) (t_products t) \<and> key_ok f_id (q_files q) (t_files t)
     \<and> key_ok v_id (q_versions q) (t_versions t) \<and> key_ok a_id (q_admins q) (t_admins t)
     \<and> key_ok e_id (q_audit q) (t_audit t)"

definition uniques_ok :: "tables \<Rightarrow> bool" where
  "uniques_ok t \<longleftrightarrow>
     distinct (map p_code (t_products t)) \<and> distinct (map p_token (t_products t))
     \<and> distinct (map f_sha (t_files t))
     \<and> distinct (map (\<lambda>v. (v_product v, v_no v)) (t_versions t))
     \<and> distinct (map a_username (t_admins t))
     \<and> distinct (map s_id (t_sessions t)) \<and> distinct (map s_hash (t_sessions t))"

definition checks_ok :: "tables \<Rightarrow> bool" where
  "checks_ok t \<longleftrightarrow>
     list_all (\<lambda>p. ck_products_code_format (p_code p) \<and> product_widths (p_code p) (p_name p) (p_token p)) (t_products t)
     \<and> list_all (\<lambda>v. 1 \<le> v_no v) (t_versions t)"

definition fks_ok :: "tables \<Rightarrow> bool" where
  "fks_ok t \<longleftrightarrow>
     list_all (fk_current_ok t) (t_products t)
     \<and> (\<forall>v \<in> set (t_versions t). v_product v \<in> p_id ` set (t_products t)
          \<and> v_file v \<in> f_id ` set (t_files t) \<and> v_by v \<in> a_id ` set (t_admins t))
     \<and> (\<forall>s \<in> set (t_sessions t). s_admin s \<in> a_id ` set (t_admins t))"

definition db_inv :: "db \<Rightarrow> bool" where
  "db_inv d \<longleftrightarrow> keys_ok (tabs d) (seqs d) \<and> uniques_ok (tabs d) \<and> checks_ok (tabs d) \<and> fks_ok (tabs d)"

lemmas db_inv_defs = db_inv_def keys_ok_def uniques_ok_def checks_ok_def fks_ok_def

lemma key_ok_append: "key_ok f q xs \<Longrightarrow> f r = q \<Longrightarrow> q < q' \<Longrightarrow> key_ok f q' (xs @ [r])"
  by (auto simp: key_ok_def list_all_iff)

lemma key_ok_mono: "key_ok f q xs \<Longrightarrow> q \<le> q' \<Longrightarrow> key_ok f q' xs"
  by (auto simp: key_ok_def list_all_iff)

lemma key_ok_map: "key_ok f q xs \<Longrightarrow> map f ys = map f xs \<Longrightarrow> key_ok f q ys"
  unfolding key_ok_def list_all_iff by (metis (no_types, lifting) imageE imageI list.set_map)

lemma key_ok_unique: "key_ok f q xs \<Longrightarrow> x \<in> set xs \<Longrightarrow> y \<in> set xs \<Longrightarrow> f x = f y \<Longrightarrow> x = y"
  unfolding key_ok_def distinct_map by (auto dest: inj_onD)

section \<open>Steps that keep the invariant and only add history\<close>

text \<open>
  \<open>grows d d'\<close>: the history tables of \<open>d\<close> are initial segments of those of \<open>d'\<close>, the identity
  (id, code, token) of every product is still there, and no sequence has gone back.
\<close>

definition ident :: "p_row \<Rightarrow> int \<times> ustr \<times> ustr" where
  "ident p = (p_id p, p_code p, p_token p)"

definition seqs_le :: "seqs \<Rightarrow> seqs \<Rightarrow> bool" where
  "seqs_le a b \<longleftrightarrow> q_products a \<le> q_products b \<and> q_files a \<le> q_files b \<and> q_versions a \<le> q_versions b
     \<and> q_admins a \<le> q_admins b \<and> q_audit a \<le> q_audit b"

definition tabs_grow :: "tables \<Rightarrow> tables \<Rightarrow> bool" where
  "tabs_grow t t' \<longleftrightarrow>
     prefix (t_versions t) (t_versions t') \<and> prefix (t_files t) (t_files t') \<and> prefix (t_audit t) (t_audit t')
     \<and> prefix (map ident (t_products t)) (map ident (t_products t'))
     \<and> prefix (map a_id (t_admins t)) (map a_id (t_admins t'))"

definition step_ok :: "db \<Rightarrow> db \<Rightarrow> bool" where
  "step_ok d d' \<longleftrightarrow> db_inv d \<longrightarrow> db_inv d' \<and> tabs_grow (tabs d) (tabs d') \<and> seqs_le (seqs d) (seqs d')"

lemma seqs_le_refl [simp]: "seqs_le a a"
  by (simp add: seqs_le_def)

lemma seqs_le_trans: "seqs_le a b \<Longrightarrow> seqs_le b c \<Longrightarrow> seqs_le a c"
  by (auto simp: seqs_le_def)

lemma tabs_grow_refl [simp]: "tabs_grow t t"
  by (simp add: tabs_grow_def)

lemma tabs_grow_trans: "tabs_grow a b \<Longrightarrow> tabs_grow b c \<Longrightarrow> tabs_grow a c"
  unfolding tabs_grow_def by (meson prefix_order.trans)

lemma step_ok_refl [simp, intro]: "step_ok d d"
  by (simp add: step_ok_def)

lemma step_ok_trans [trans]: "step_ok a b \<Longrightarrow> step_ok b c \<Longrightarrow> step_ok a c"
  unfolding step_ok_def using tabs_grow_trans seqs_le_trans by blast

text \<open>Only sequences moved.\<close>

lemma db_inv_seqs:
  assumes "db_inv d" and "tabs d' = tabs d" and "seqs_le (seqs d) (seqs d')"
  shows "db_inv d'"
  using assms unfolding db_inv_def keys_ok_def seqs_le_def by (auto intro: key_ok_mono)

lemma step_ok_seqs: "tabs d' = tabs d \<Longrightarrow> seqs_le (seqs d) (seqs d') \<Longrightarrow> step_ok d d'"
  unfolding step_ok_def using db_inv_seqs by auto

text \<open>A transaction block of statements that are each \<open>step_ok\<close> is \<open>step_ok\<close>, rolled back or not.\<close>

lemma step_ok_transaction:
  assumes "step_ok d (snd (body d))" and "transaction body d = (r, d')"
  shows "step_ok d d'"
proof (cases r)
  case (Inl e)
  with assms(2) transaction_Inl obtain d'' where
    t: "tabs d' = tabs d" and b: "body d = (Inl e, d'')" and q: "seqs d' = seqs d''" by metis
  from assms(1) b have s: "step_ok d d''" by simp
  show ?thesis unfolding step_ok_def
  proof
    assume i: "db_inv d"
    with s q have "seqs_le (seqs d) (seqs d')" by (simp add: step_ok_def)
    with i t show "db_inv d' \<and> tabs_grow (tabs d) (tabs d') \<and> seqs_le (seqs d) (seqs d')"
      using db_inv_seqs by simp
  qed
next
  case (Inr x)
  with assms show ?thesis by (auto simp: transaction_Inr)
qed

subsection \<open>Each statement\<close>

lemma select_productD: "select_product pid d = Some p \<Longrightarrow> p \<in> set (t_products (tabs d)) \<and> p_id p = pid"
  unfolding select_product_def by (rule find_SomeD)

lemma select_product_None: "select_product pid d = None \<longleftrightarrow> pid \<notin> p_id ` set (t_products (tabs d))"
  unfolding select_product_def find_None_iff by auto

lemma select_adminD: "select_admin aid d = Some a \<Longrightarrow> a \<in> set (t_admins (tabs d)) \<and> a_id a = aid"
  unfolding select_admin_def by (rule find_SomeD)

lemma select_fileD: "select_file fid d = Some f \<Longrightarrow> f \<in> set (t_files (tabs d)) \<and> f_id f = fid"
  unfolding select_file_def by (rule find_SomeD)

lemma select_file_by_shaD: "select_file_by_sha h d = Some f \<Longrightarrow> f \<in> set (t_files (tabs d)) \<and> f_sha f = h"
  unfolding select_file_by_sha_def by (rule find_SomeD)

lemma select_versionD:
  "select_version pid vid d = Some v \<Longrightarrow> v \<in> set (t_versions (tabs d)) \<and> v_product v = pid \<and> v_id v = vid"
  unfolding select_version_def by (drule find_SomeD) simp

lemmas selects = select_productD select_adminD select_fileD select_file_by_shaD select_versionD

lemma fk_current_ok_more:
  "fk_current_ok t p \<Longrightarrow> t_versions t' = t_versions t @ vs \<Longrightarrow> fk_current_ok t' p"
  by (auto simp: fk_current_ok_def split: option.splits)

lemma fk_current_ok_same: "t_versions t' = t_versions t \<Longrightarrow> fk_current_ok t' p = fk_current_ok t p"
  by (simp add: fk_current_ok_def cong: option.case_cong)

text \<open>Which parts of the invariant look at which table.\<close>

lemma fk_current_ok_frame [simp]:
  "fk_current_ok (t\<lparr>t_products := x1\<rparr>) = fk_current_ok t"
  "fk_current_ok (t\<lparr>t_files := x2\<rparr>) = fk_current_ok t"
  "fk_current_ok (t\<lparr>t_admins := x3\<rparr>) = fk_current_ok t"
  "fk_current_ok (t\<lparr>t_sessions := x4\<rparr>) = fk_current_ok t"
  "fk_current_ok (t\<lparr>t_audit := x5\<rparr>) = fk_current_ok t"
  by (rule ext, simp add: fk_current_ok_def split: option.split)+

lemma fk_current_None [simp]: "p_current p = None \<Longrightarrow> fk_current_ok t p"
  by (simp add: fk_current_ok_def)

lemma audit_frame [simp]:
  "uniques_ok (t\<lparr>t_audit := x\<rparr>) = uniques_ok t"
  "checks_ok (t\<lparr>t_audit := x\<rparr>) = checks_ok t"
  "fks_ok (t\<lparr>t_audit := x\<rparr>) = fks_ok t"
  by (simp_all add: uniques_ok_def checks_ok_def fks_ok_def)

lemma append_event_step:
  assumes "append_event now e d = (r, d')"
  shows "step_ok d d'"
proof (cases "audit_widths e")
  case False
  with assms show ?thesis
    by (auto simp: append_event_def Let_def seqs_le_def intro: step_ok_seqs)
next
  case True
  with assms show ?thesis
    by (auto simp: append_event_def Let_def step_ok_def tabs_grow_def seqs_le_def db_inv_def keys_ok_def
        intro!: key_ok_append [where q = "q_audit (seqs d)"])
qed

lemma insert_product_step:
  assumes "insert_product now code name token d = (r, d')"
  shows "step_ok d d'"
proof (cases r)
  case (Inl e)
  with assms have "tabs d' = tabs d \<and> seqs_le (seqs d) (seqs d')"
    by (auto simp: insert_product_def Let_def seqs_le_def split: if_splits)
  then show ?thesis by (auto intro: step_ok_seqs)
next
  case (Inr row)
  with assms have ok: "product_widths code name token" "ck_products_code_format code"
      "code \<notin> p_code ` set (t_products (tabs d))" "token \<notin> p_token ` set (t_products (tabs d))"
    and row: "row = \<lparr>p_id = q_products (seqs d), p_code = code, p_name = name, p_token = token,
        p_status = Active, p_current = None, p_created = now, p_updated = now\<rparr>"
    and d': "d' = d\<lparr>tabs := (tabs d)\<lparr>t_products := t_products (tabs d) @ [row]\<rparr>,
        seqs := (seqs d)\<lparr>q_products := q_products (seqs d) + 1\<rparr>\<rparr>"
    by (auto simp: insert_product_def Let_def split: if_splits)
  show ?thesis unfolding step_ok_def
  proof (intro impI conjI)
    assume i: "db_inv d"
    have "keys_ok (tabs d') (seqs d')"
      using i by (auto simp: d' db_inv_def keys_ok_def row intro: key_ok_append)
    moreover have "uniques_ok (tabs d')" "checks_ok (tabs d')" "fks_ok (tabs d')"
      using i ok by (auto simp: d' db_inv_def uniques_ok_def checks_ok_def fks_ok_def row)
    ultimately show "db_inv d'" by (simp add: db_inv_def)
  qed (simp_all add: d' tabs_grow_def seqs_le_def)
qed

lemma insert_file_step:
  assumes "insert_file now sha sz path d = (r, d')"
  shows "step_ok d d'"
proof (cases r)
  case None
  with assms have "tabs d' = tabs d \<and> seqs_le (seqs d) (seqs d')"
    by (auto simp: insert_file_def Let_def seqs_le_def split: if_splits)
  then show ?thesis by (auto intro: step_ok_seqs)
next
  case (Some row)
  with assms have ok: "sha \<notin> f_sha ` set (t_files (tabs d))"
    and row: "row = \<lparr>f_id = q_files (seqs d), f_sha = sha, f_size = sz, f_path = path, f_created = now\<rparr>"
    and d': "d' = d\<lparr>tabs := (tabs d)\<lparr>t_files := t_files (tabs d) @ [row]\<rparr>,
        seqs := (seqs d)\<lparr>q_files := q_files (seqs d) + 1\<rparr>\<rparr>"
    by (auto simp: insert_file_def Let_def split: if_splits)
  show ?thesis unfolding step_ok_def
  proof (intro impI conjI)
    assume i: "db_inv d"
    have "keys_ok (tabs d') (seqs d')"
      using i by (auto simp: d' db_inv_def keys_ok_def row intro: key_ok_append)
    moreover have "uniques_ok (tabs d')" "checks_ok (tabs d')" "fks_ok (tabs d')"
      using i ok by (auto simp: d' db_inv_def uniques_ok_def checks_ok_def fks_ok_def row)
    ultimately show "db_inv d'" by (simp add: db_inv_def)
  qed (simp_all add: d' tabs_grow_def seqs_le_def)
qed

lemma insert_version_step:
  assumes "insert_version now pid fid no filename by_id d = (r, d')" and "1 \<le> no"
  shows "step_ok d d'"
proof (cases r)
  case (Inl e)
  with assms have "tabs d' = tabs d \<and> seqs_le (seqs d) (seqs d')"
    by (auto simp: insert_version_def Let_def seqs_le_def split: if_splits)
  then show ?thesis by (auto intro: step_ok_seqs)
next
  case (Inr row)
  with assms have ok: "\<not> list_ex (\<lambda>v. v_product v = pid \<and> v_no v = no) (t_versions (tabs d))"
      "select_product pid d \<noteq> None" "select_file fid d \<noteq> None" "select_admin by_id d \<noteq> None"
    and row: "row = \<lparr>v_id = q_versions (seqs d), v_product = pid, v_file = fid, v_no = no,
        v_filename = filename, v_by = by_id, v_at = now\<rparr>"
    and d': "d' = d\<lparr>tabs := (tabs d)\<lparr>t_versions := t_versions (tabs d) @ [row]\<rparr>,
        seqs := (seqs d)\<lparr>q_versions := q_versions (seqs d) + 1\<rparr>\<rparr>"
    by (auto simp: insert_version_def Let_def split: if_splits)
  from ok selects have refs: "pid \<in> p_id ` set (t_products (tabs d))" "fid \<in> f_id ` set (t_files (tabs d))"
    "by_id \<in> a_id ` set (t_admins (tabs d))" by (metis (no_types, opaque_lifting) image_eqI not_None_eq)+
  show ?thesis unfolding step_ok_def
  proof (intro impI conjI)
    assume i: "db_inv d"
    have "keys_ok (tabs d') (seqs d')"
      using i by (auto simp: d' db_inv_def keys_ok_def row intro: key_ok_append)
    moreover have "uniques_ok (tabs d')" "checks_ok (tabs d')"
      using i ok \<open>1 \<le> no\<close> by (auto simp: d' db_inv_def uniques_ok_def checks_ok_def row list_ex_iff)
    moreover have "list_all (fk_current_ok (tabs d')) (t_products (tabs d'))"
      using i fk_current_ok_more [of "tabs d" _ "tabs d'"]
      by (auto simp: d' db_inv_def fks_ok_def list_all_iff)
    then have "fks_ok (tabs d')"
      using i refs by (auto simp: d' db_inv_def fks_ok_def row)
    ultimately show "db_inv d'" by (simp add: db_inv_def)
  qed (simp_all add: d' tabs_grow_def seqs_le_def)
qed

text \<open>
  \<open>UPDATE products\<close> by primary key: exactly one row changes, and the trigger and the foreign
  key make the update safe whatever the \<open>SET\<close> list is, as long as it leaves the name alone.
\<close>

lemma update_product_cases:
  assumes "update_product pid f d = (r, d')"
  obtains (missing) "select_product pid d = None" "r = Inr None" "d' = d"
  | (refused) "r = Inl DbError" "d' = d"
  | (updated) old where "select_product pid d = Some old" "trg_products_immutable old (f old)"
      "fk_current_ok (tabs d) (f old)" "r = Inr (Some (f old))"
      "d' = upd_tabs (\<lambda>t. t\<lparr>t_products := update_where (\<lambda>p. p_id p = pid) f (t_products t)\<rparr>) d"
  using assms by (auto simp: update_product_def split: option.splits if_splits)

lemma update_product_step:
  assumes u: "update_product pid f d = (r, d')" and name: "\<And>p. p_name (f p) = p_name p"
  shows "step_ok d d'"
  using u
proof (cases rule: update_product_cases)
  case (updated old)
  let ?ps = "t_products (tabs d)" and ?ps' = "update_where (\<lambda>p. p_id p = pid) f (t_products (tabs d))"
  from updated have o: "old \<in> set ?ps" "p_id old = pid" using select_productD by auto
  show ?thesis unfolding step_ok_def
  proof
    assume i: "db_inv d"
    then have only: "p = old" if "p \<in> set ?ps" "p_id p = pid" for p
      using o that by (auto simp: db_inv_def keys_ok_def dest: key_ok_unique)
    have same: "map h ?ps' = map h ?ps" if "h (f old) = h old" for h :: "p_row \<Rightarrow> 'x"
      using only that by (auto simp: update_where_def)
    have mem: "p \<in> set ?ps' \<Longrightarrow> (p \<in> set ?ps \<or> p = f old)" for p
      using only by (auto simp: set_update_where)
    have t: "p_code (f old) = p_code old" "p_token (f old) = p_token old" "p_id (f old) = p_id old"
      using updated by (auto simp: trg_products_immutable_def)
    then have s: "map p_id ?ps' = map p_id ?ps" "map p_code ?ps' = map p_code ?ps"
      "map p_token ?ps' = map p_token ?ps" "map ident ?ps' = map ident ?ps"
      by (auto intro!: same simp: ident_def)
    have ids: "p_id ` set ?ps' = p_id ` set ?ps" using s(1) by (metis list.set_map)
    have "keys_ok (tabs d') (seqs d')"
      using i s(1) by (auto simp: updated db_inv_def keys_ok_def intro: key_ok_map)
    moreover have "uniques_ok (tabs d')"
      using i s by (simp add: updated db_inv_def uniques_ok_def)
    moreover have "checks_ok (tabs d')"
      using i t o name mem by (fastforce simp: updated db_inv_def checks_ok_def list_all_iff)
    moreover have "fks_ok (tabs d')"
      using i updated mem ids by (fastforce simp: db_inv_def fks_ok_def list_all_iff)
    ultimately show "db_inv d' \<and> tabs_grow (tabs d) (tabs d') \<and> seqs_le (seqs d) (seqs d')"
      using s by (simp add: db_inv_def updated tabs_grow_def)
  qed
qed simp_all

lemma reject_append_only_step:
  "reject_append_only_mutation hit rows d = (r, d') \<Longrightarrow> d' = d"
  by (auto simp: reject_append_only_mutation_def split: if_splits)

lemma append_independent_event_step:
  assumes "append_independent_event up now e d = (b, d')"
  shows "step_ok d d'"
proof (cases up)
  case True
  have "step_ok d (snd (append_event now e d))"
    by (rule append_event_step [of now e d "fst (append_event now e d)"]) simp
  with True assms show ?thesis
    by (auto simp: append_independent_event_def split: prod.splits sum.splits dest: step_ok_transaction)
qed (use assms in \<open>auto simp: append_independent_event_def\<close>)

lemmas statement_steps = append_event_step insert_product_step insert_file_step insert_version_step
  append_independent_event_step

text \<open>What a successful audit insert leaves.\<close>

lemma append_event_ok:
  "audit_widths e \<Longrightarrow> append_event now e d =
     (Inr (), d\<lparr>tabs := (tabs d)\<lparr>t_audit := t_audit (tabs d) @ [\<lparr>e_id = q_audit (seqs d), e_at = now, e_event = e\<rparr>]\<rparr>,
                seqs := (seqs d)\<lparr>q_audit := q_audit (seqs d) + 1\<rparr>\<rparr>)"
  by (simp add: append_event_def Let_def)

lemma empty_db_inv [simp]: "db_inv empty_db"
  by (simp add: empty_db_def db_inv_def keys_ok_def key_ok_def uniques_ok_def checks_ok_def fks_ok_def)

text \<open>Selecting by a unique column finds exactly the row that has it.\<close>

lemma select_product_iff:
  "db_inv d \<Longrightarrow> select_product pid d = Some p \<longleftrightarrow> p \<in> set (t_products (tabs d)) \<and> p_id p = pid"
proof
  assume "db_inv d" and p: "p \<in> set (t_products (tabs d)) \<and> p_id p = pid"
  then have "distinct (map p_id (t_products (tabs d)))"
    by (simp add: db_inv_def keys_ok_def key_ok_def)
  with p find_distinct_key [of p_id] show "select_product pid d = Some p"
    by (auto simp: select_product_def)
qed (rule select_productD)

lemma select_token_iff:
  "db_inv d \<Longrightarrow> select_product_by_token tok d = Some p \<longleftrightarrow> p \<in> set (t_products (tabs d)) \<and> p_token p = tok"
proof
  assume "db_inv d" and p: "p \<in> set (t_products (tabs d)) \<and> p_token p = tok"
  then have "distinct (map p_token (t_products (tabs d)))"
    by (simp add: db_inv_def uniques_ok_def)
  with p find_distinct_key [of p_token] show "select_product_by_token tok d = Some p"
    by (auto simp: select_product_by_token_def)
qed (auto simp: select_product_by_token_def dest: find_SomeD)

subsection \<open>Composition\<close>

text \<open>
  The rules that carry a service's proof that it keeps the invariant: one per statement, one for
  sequencing, one for a transaction block.
\<close>

lemma step_dbind [inv_intro]:
  assumes "step_ok d (snd (m d))" and "\<And>x d1. m d = (Inr x, d1) \<Longrightarrow> step_ok d1 (snd (f x d1))"
  shows "step_ok d (snd (dbind m f d))"
proof (cases "m d")
  case (Pair r d1)
  with assms show ?thesis
    by (cases r) (auto simp: dbind_def intro: step_ok_trans)
qed

lemma step_transaction [inv_intro]:
  "step_ok d (snd (body d)) \<Longrightarrow> step_ok d (snd (transaction body d))"
  using step_ok_transaction prod.collapse by metis

lemma step_append_event [inv_intro]: "step_ok d (snd (append_event now e d))"
  by (rule append_event_step [of now e d "fst (append_event now e d)"]) simp

lemma step_insert_product [inv_intro]: "step_ok d (snd (insert_product now c n t d))"
  by (rule insert_product_step [of now c n t d "fst (insert_product now c n t d)"]) simp

lemma step_insert_file [inv_intro]: "step_ok d (snd (insert_file now h sz path d))"
  by (rule insert_file_step [of now h sz path d "fst (insert_file now h sz path d)"]) simp

lemma step_insert_version [inv_intro]: "1 \<le> no \<Longrightarrow> step_ok d (snd (insert_version now pid fid no fn aid d))"
  by (rule insert_version_step [of now pid fid no fn aid d "fst (insert_version now pid fid no fn aid d)"]) simp_all

lemma step_update_product [inv_intro]:
  "(\<And>p. p_name (f p) = p_name p) \<Longrightarrow> step_ok d (snd (update_product pid f d))"
  by (rule update_product_step [of pid f d "fst (update_product pid f d)"]) simp_all

lemma step_independent_event [inv_intro]: "step_ok d (snd (append_independent_event up now e d))"
  by (rule append_independent_event_step [of up now e d "fst (append_independent_event up now e d)"]) simp

subsection \<open>What a statement that succeeded has done\<close>

lemma append_event_InrD:
  "append_event now e d = (Inr x, d') \<Longrightarrow>
     tabs d' = (tabs d)\<lparr>t_audit := t_audit (tabs d) @ [\<lparr>e_id = q_audit (seqs d), e_at = now, e_event = e\<rparr>]\<rparr>
     \<and> seqs d' = (seqs d)\<lparr>q_audit := q_audit (seqs d) + 1\<rparr> \<and> audit_widths e"
  by (auto simp: append_event_def Let_def split: if_splits)

lemma insert_version_InrD:
  "insert_version now pid fid no filename by_id d = (Inr v, d') \<Longrightarrow>
     v = \<lparr>v_id = q_versions (seqs d), v_product = pid, v_file = fid, v_no = no, v_filename = filename,
          v_by = by_id, v_at = now\<rparr>
     \<and> tabs d' = (tabs d)\<lparr>t_versions := t_versions (tabs d) @ [v]\<rparr>
     \<and> seqs d' = (seqs d)\<lparr>q_versions := q_versions (seqs d) + 1\<rparr>"
  by (auto simp: insert_version_def Let_def split: if_splits)

lemma insert_file_cases:
  assumes "insert_file now h sz path d = (r, d')"
  obtains (there) "r = None" "tabs d' = tabs d" "h \<in> f_sha ` set (t_files (tabs d))"
      "seqs d' = (seqs d)\<lparr>q_files := q_files (seqs d) + 1\<rparr>"
  | (added) f where "r = Some f" "h \<notin> f_sha ` set (t_files (tabs d))"
      "f = \<lparr>f_id = q_files (seqs d), f_sha = h, f_size = sz, f_path = path, f_created = now\<rparr>"
      "tabs d' = (tabs d)\<lparr>t_files := t_files (tabs d) @ [f]\<rparr>"
      "seqs d' = (seqs d)\<lparr>q_files := q_files (seqs d) + 1\<rparr>"
  using assms by (auto simp: insert_file_def Let_def split: if_splits)

lemma update_product_SomeD:
  "update_product pid f d = (Inr x, d') \<Longrightarrow> select_product pid d = Some old \<Longrightarrow>
     x = Some (f old) \<and> trg_products_immutable old (f old) \<and> fk_current_ok (tabs d) (f old)
     \<and> tabs d' = (tabs d)\<lparr>t_products := update_where (\<lambda>p. p_id p = pid) f (t_products (tabs d))\<rparr>
     \<and> seqs d' = seqs d"
  by (erule update_product_cases) auto

lemmas succeeded = append_event_InrD insert_version_InrD update_product_SomeD

end
