(* ===== verification/Base32.thy ===== *)
theory Base32
  imports Py_Prelude
begin

text \<open>
  Unpadded Base32 (RFC 4648) as Python's \<open>base64.b32encode\<close> computes it: the input is padded with
  zero bytes to whole quanta of five, each quantum gives eight characters, and the characters that
  stand only for padding are replaced by \<open>=\<close>. The lemmas show the length and alphabet of the text of
  sixteen bytes and that no two inputs of sixteen bytes share it.
\<close>

section \<open>Numbers and digits\<close>

definition be_nat :: "nat list \<Rightarrow> nat" where
  "be_nat bs = foldl (\<lambda>n b. n * 256 + b) 0 bs"

fun digits :: "nat \<Rightarrow> nat \<Rightarrow> nat \<Rightarrow> nat list" where
  "digits b 0 n = []"
| "digits b (Suc k) n = digits b k (n div b) @ [n mod b]"

lemma length_digits [simp]: "length (digits b k n) = k"
  by (induction k arbitrary: n) auto

lemma digits_less: "0 < b \<Longrightarrow> x \<in> set (digits b k n) \<Longrightarrow> x < b"
  by (induction k arbitrary: n) auto

lemma take_digits: "take j (digits b (j + i) n) = digits b j (n div b ^ i)"
  by (induction i arbitrary: n) (auto simp: div_mult2_eq)

lemma digits_inject:
  "0 < b \<Longrightarrow> m < b ^ k \<Longrightarrow> n < b ^ k \<Longrightarrow> digits b k m = digits b k n \<Longrightarrow> m = n"
proof (induction k arbitrary: m n)
  case (Suc k)
  then have "m div b = n div b" and "m mod b = n mod b"
    by (auto simp: less_mult_imp_div_less mult.commute)
  then show ?case by (metis div_mult_mod_eq)
qed simp

lemma be_nat_Nil [simp]: "be_nat [] = 0"
  by (simp add: be_nat_def)

lemma be_nat_snoc [simp]: "be_nat (bs @ [b]) = be_nat bs * 256 + b"
  by (simp add: be_nat_def)

abbreviation bytes :: "nat list \<Rightarrow> bool" where
  "bytes bs \<equiv> list_all (\<lambda>b. b < 256) bs"

lemma be_nat_bound: "bytes bs \<Longrightarrow> be_nat bs < 256 ^ length bs"
  by (induction bs rule: rev_induct) auto

lemma be_nat_inject: "length xs = length ys \<Longrightarrow> bytes xs \<Longrightarrow> bytes ys \<Longrightarrow> be_nat xs = be_nat ys \<Longrightarrow> xs = ys"
proof (induction xs arbitrary: ys rule: rev_induct)
  case (snoc x xs)
  then obtain zs z where ys: "ys = zs @ [z]" by (cases ys rule: rev_cases) auto
  with snoc.prems have b: "x < 256" "z < 256" and e: "be_nat xs * 256 + x = be_nat zs * 256 + z"
    by auto
  from b have "be_nat xs = (be_nat xs * 256 + x) div 256" "be_nat zs = (be_nat zs * 256 + z) div 256"
    by simp_all
  with e have n: "be_nat xs = be_nat zs" by simp
  with e have "x = z" by simp
  with n snoc ys show ?case by auto
qed simp

section \<open>The encoder\<close>

text \<open>The alphabet \<open>A-Z2-7\<close>.\<close>

definition b32_char :: "nat \<Rightarrow> nat" where
  "b32_char d = (if d < 26 then 65 + d else 24 + d)"

definition is_b32 :: "nat \<Rightarrow> bool" where
  "is_b32 c \<longleftrightarrow> is_upper c \<or> (50 \<le> c \<and> c \<le> 55)"

definition b32_quantum :: "nat list \<Rightarrow> ustr" where
  "b32_quantum q = map b32_char (digits 32 8 (be_nat q))"

fun quanta :: "nat \<Rightarrow> nat list \<Rightarrow> nat list list" where
  "quanta 0 bs = []"
| "quanta (Suc k) bs = take 5 bs # quanta k (drop 5 bs)"

definition b32_padding :: "nat \<Rightarrow> nat" where
  "b32_padding leftover = (if leftover = 1 then 6 else if leftover = 2 then 4 else if leftover = 3 then 3
                           else if leftover = 4 then 1 else 0)"

definition b32encode :: "nat list \<Rightarrow> ustr" where
  "b32encode bs =
     (let leftover = length bs mod 5;
          padded = bs @ replicate ((5 - leftover) mod 5) 0;
          text = concat (map b32_quantum (quanta (length padded div 5) padded));
          pad = b32_padding leftover
      in take (length text - pad) text @ replicate pad 61)"

lemma b32_char_in: "d < 32 \<Longrightarrow> is_b32 (b32_char d)"
  by (auto simp: b32_char_def is_b32_def is_upper_def)

lemma b32_char_inj: "d < 32 \<Longrightarrow> e < 32 \<Longrightarrow> b32_char d = b32_char e \<Longrightarrow> d = e"
  by (auto simp: b32_char_def split: if_splits)

lemma is_b32_not_pad: "is_b32 c \<Longrightarrow> c \<noteq> 61"
  by (auto simp: is_b32_def is_upper_def)

lemma length_b32_quantum [simp]: "length (b32_quantum q) = 8"
  by (simp add: b32_quantum_def)

lemma b32_quantum_alphabet: "list_all is_b32 (b32_quantum q)"
  using digits_less [of 32] by (auto simp: b32_quantum_def list_all_iff intro!: b32_char_in)

lemma map_b32_char_inject:
  assumes "list_all (\<lambda>d. d < 32) xs" "list_all (\<lambda>d. d < 32) ys" "map b32_char xs = map b32_char ys"
  shows "xs = ys"
  using assms
proof (induction xs arbitrary: ys)
  case (Cons x xs)
  then show ?case by (cases ys) (auto dest: b32_char_inj)
qed simp

section \<open>Sixteen bytes\<close>

text \<open>Sixteen bytes are three whole quanta and a last one of one byte and four zeros.\<close>

lemma sixteen_split:
  assumes "length bs = 16"
  obtains q1 q2 q3 b where "bs = q1 @ q2 @ q3 @ [b]" "length q1 = 5" "length q2 = 5" "length q3 = 5"
proof -
  have "length (drop 15 bs) = Suc 0" using assms by simp
  then obtain b where b: "drop 15 bs = [b]" unfolding length_Suc_conv by auto
  have "bs = take 5 bs @ take 5 (drop 5 bs) @ take 5 (drop 10 bs) @ drop 15 bs"
    using append_take_drop_id [of 5 bs] append_take_drop_id [of 5 "drop 5 bs"] append_take_drop_id [of 5 "drop 10 bs"]
    by simp
  with b assms show ?thesis
    by (intro that [of "take 5 bs" "take 5 (drop 5 bs)" "take 5 (drop 10 bs)" b]) simp_all
qed

lemma b32encode_16:
  assumes "bs = q1 @ q2 @ q3 @ [b]" "length q1 = 5" "length q2 = 5" "length q3 = 5"
  shows "b32encode bs =
    b32_quantum q1 @ b32_quantum q2 @ b32_quantum q3 @ take 2 (b32_quantum [b, 0, 0, 0, 0]) @ replicate 6 61"
proof -
  have "replicate 4 (0::nat) = [0, 0, 0, 0]" by (simp add: numeral_eq_Suc)
  moreover have "quanta 4 (q1 @ q2 @ q3 @ [b, 0, 0, 0, 0]) = [q1, q2, q3, [b, 0, 0, 0, 0]]"
    using assms by (simp add: numeral_eq_Suc)
  ultimately show ?thesis
    using assms by (simp add: b32encode_def Let_def b32_padding_def)
qed

lemma rstrip_pad:
  assumes "c \<notin> set xs"
  shows "rstrip_char c (xs @ replicate n c) = xs"
proof -
  have "dropWhile (\<lambda>x. x = c) (replicate n c @ rev xs) = dropWhile (\<lambda>x. x = c) (rev xs)"
    by (induction n) auto
  also have "\<dots> = rev xs"
    using assms by (cases "rev xs") (auto dest: arg_cong [of _ _ set])
  finally show ?thesis by (simp add: rstrip_char_def)
qed

definition unpadded :: "nat list \<Rightarrow> ustr" where
  "unpadded bs = rstrip_char 61 (b32encode bs)"

lemma unpadded_16:
  assumes "bs = q1 @ q2 @ q3 @ [b]" "length q1 = 5" "length q2 = 5" "length q3 = 5"
  shows "unpadded bs = b32_quantum q1 @ b32_quantum q2 @ b32_quantum q3 @ take 2 (b32_quantum [b, 0, 0, 0, 0])"
proof -
  let ?t = "b32_quantum q1 @ b32_quantum q2 @ b32_quantum q3 @ take 2 (b32_quantum [b, 0, 0, 0, 0])"
  have "list_all is_b32 ?t"
    using b32_quantum_alphabet by (auto simp: list_all_iff dest: in_set_takeD)
  then have "61 \<notin> set ?t" using is_b32_not_pad by (auto simp: list_all_iff)
  from rstrip_pad [OF this, of 6] show ?thesis
    by (simp add: unpadded_def b32encode_16 [OF assms])
qed

lemma length_unpadded_16: "length bs = 16 \<Longrightarrow> length (unpadded bs) = 26"
  by (erule sixteen_split) (simp add: unpadded_16)

lemma unpadded_16_alphabet: "length bs = 16 \<Longrightarrow> list_all is_b32 (unpadded bs)"
  using b32_quantum_alphabet
  by (elim sixteen_split) (auto simp: unpadded_16 list_all_iff dest: in_set_takeD)

lemma b32_quantum_inject:
  assumes "length xs = 5" "length ys = 5" "bytes xs" "bytes ys" "b32_quantum xs = b32_quantum ys"
  shows "xs = ys"
proof -
  have l: "list_all (\<lambda>d. d < 32) (digits 32 8 n)" for n
    using digits_less [of 32] by (auto simp: list_all_iff)
  from assms(5) have "digits 32 8 (be_nat xs) = digits 32 8 (be_nat ys)"
    unfolding b32_quantum_def by (rule map_b32_char_inject [OF l l])
  moreover have "(256 :: nat) ^ 5 = 32 ^ 8" by simp
  then have "be_nat xs < 32 ^ 8" "be_nat ys < 32 ^ 8"
    using be_nat_bound [OF assms(3)] be_nat_bound [OF assms(4)] unfolding assms(1,2) by metis+
  ultimately have "be_nat xs = be_nat ys" using digits_inject [of 32 "be_nat xs" 8 "be_nat ys"] by simp
  with assms be_nat_inject show ?thesis by simp
qed

lemma last_quantum_inject:
  assumes "a < 256" "b < 256"
    and "take 2 (b32_quantum [a, 0, 0, 0, 0]) = take 2 (b32_quantum [b, 0, 0, 0, 0])"
  shows "a = b"
proof -
  have q: "take 2 (b32_quantum [c, 0, 0, 0, 0]) = map b32_char (digits 32 2 (c * 4))" for c
    using take_digits [of 2 32 6 "be_nat [c, 0, 0, 0, 0]"]
    by (simp add: b32_quantum_def take_map be_nat_def mult.commute)
  have l: "list_all (\<lambda>d. d < 32) (digits 32 2 n)" for n
    using digits_less [of 32] by (auto simp: list_all_iff)
  from assms(3) have "digits 32 2 (a * 4) = digits 32 2 (b * 4)"
    unfolding q by (rule map_b32_char_inject [OF l l])
  with assms(1,2) have "a * 4 = b * 4" by (intro digits_inject [of 32 _ 2]) simp_all
  then show ?thesis by simp
qed

lemma unpadded_16_inject:
  assumes "length xs = 16" "length ys = 16" "bytes xs" "bytes ys" "unpadded xs = unpadded ys"
  shows "xs = ys"
proof -
  from assms(1) obtain p1 p2 p3 a where x: "xs = p1 @ p2 @ p3 @ [a]" "length p1 = 5" "length p2 = 5" "length p3 = 5"
    by (rule sixteen_split)
  from assms(2) obtain q1 q2 q3 b where y: "ys = q1 @ q2 @ q3 @ [b]" "length q1 = 5" "length q2 = 5" "length q3 = 5"
    by (rule sixteen_split)
  from assms(5) have "b32_quantum p1 = b32_quantum q1" "b32_quantum p2 = b32_quantum q2"
    "b32_quantum p3 = b32_quantum q3" "take 2 (b32_quantum [a, 0, 0, 0, 0]) = take 2 (b32_quantum [b, 0, 0, 0, 0])"
    by (simp_all add: unpadded_16 [OF x] unpadded_16 [OF y])
  with x y assms(3,4) show ?thesis
    by (auto dest: b32_quantum_inject last_quantum_inject)
qed

end
