(* ===== verification/Product_Service.thy ===== *)
theory Product_Service
  imports App_Db Base32
begin

text \<open>
  \<open>domains/product/service.py\<close>: product codes and names, public tokens, creation with its
  savepoint per token attempt, the filtered listing, and the public-access status.
  The random bytes of the i-th token are the argument \<open>rnd i\<close>; the projection \<open>Product\<close> is the row.
\<close>

section \<open>Codes, names and tokens\<close>

definition product_char :: "nat \<Rightarrow> bool" where
  "product_char c \<longleftrightarrow> is_alnum c \<or> c = 95 \<or> c = 45"

definition PRODUCT_CODE_PATTERN :: "ustr \<Rightarrow> bool" where
  "PRODUCT_CODE_PATTERN s \<longleftrightarrow> 1 \<le> length s \<and> length s \<le> 64 \<and> list_all product_char s"

definition normalize_product_code :: "ustr \<Rightarrow> ustr res" where
  "normalize_product_code raw =
     (let stripped = strip raw
      in if \<not> PRODUCT_CODE_PATTERN stripped then Inl (AppError ''invalid_product_code'' 422)
         else Inr (ascii_upper stripped))"

text \<open>The stored-code contract: the pattern is the one of the CHECK constraint.\<close>

definition is_normalized_product_code :: "ustr \<Rightarrow> bool" where
  "is_normalized_product_code s \<longleftrightarrow>
     1 \<le> length s \<and> length s \<le> 64 \<and> list_all (\<lambda>c. is_upper c \<or> is_digit c \<or> c = 95 \<or> c = 45) s"

definition PRODUCT_NAME_MAX_LENGTH :: nat where
  "PRODUCT_NAME_MAX_LENGTH = 120"

definition normalize_product_name :: "ustr \<Rightarrow> ustr res" where
  "normalize_product_name raw =
     (let name = strip raw
      in if name = [] \<or> length name > PRODUCT_NAME_MAX_LENGTH then Inl (AppError ''invalid_product_name'' 422)
         else Inr name)"

definition PUBLIC_TOKEN_LENGTH :: nat where
  "PUBLIC_TOKEN_LENGTH = 26"

definition generate_public_token :: "nat list \<Rightarrow> ustr res" where
  "generate_public_token random_bytes =
     (let token = unpadded random_bytes
      in if length token \<noteq> PUBLIC_TOKEN_LENGTH then Inl (RuntimeError ''Unexpected public token length'')
         else Inr token)"

section \<open>Creation\<close>

definition TOKEN_RETRY_LIMIT :: nat where
  "TOKEN_RETRY_LIMIT = 5"

text \<open>One attempt: the savepoint with the insert and, when an action is named, its audit event.\<close>

definition create_attempt ::
    "int \<Rightarrow> ustr \<Rightarrow> ustr \<Rightarrow> ustr \<Rightarrow> int \<Rightarrow> nat option \<Rightarrow> string option \<Rightarrow> db \<Rightarrow> p_row res \<times> db" where
  "create_attempt now code name token actor req audit_action =
     transaction
       (dbind (insert_product now code (Some name) token)
         (\<lambda>p. case audit_action of
              None \<Rightarrow> Pair (Inr p)
            | Some a \<Rightarrow>
                dbind (append_event now (admin_event a actor ''product'' (p_id p) (Some (p_code p)) req None))
                  (\<lambda>_. Pair (Inr p))))"

text \<open>The loop over the attempts; \<open>i\<close> is \<open>_attempt\<close>, \<open>k\<close> the attempts that are left.\<close>

fun create_loop ::
    "nat \<Rightarrow> int \<Rightarrow> (nat \<Rightarrow> nat list) \<Rightarrow> nat \<Rightarrow> ustr \<Rightarrow> ustr \<Rightarrow> int \<Rightarrow> nat option \<Rightarrow> string option \<Rightarrow> db \<Rightarrow> p_row res \<times> db" where
  "create_loop 0 now rnd i code name actor req act d = (Inl (AppError ''token_generation_failed'' 503), d)"
| "create_loop (Suc k) now rnd i code name actor req act d =
     (case generate_public_token (rnd i) of
        Inl e \<Rightarrow> (Inl e, d)
      | Inr token \<Rightarrow>
          (case create_attempt now code name token actor req act d of
             (Inr p, d1) \<Rightarrow> (Inr p, d1)
           | (Inl e, d1) \<Rightarrow>
               if e = UniqueViolation ''products_code_key'' then (Inl (AppError ''duplicate_product_code'' 409), d1)
               else if e = UniqueViolation ''products_public_token_key''
                 then create_loop k now rnd (Suc i) code name actor req act d1
               else (Inl e, d1)))"

definition create_product_in_transaction ::
    "int \<Rightarrow> (nat \<Rightarrow> nat list) \<Rightarrow> ustr \<Rightarrow> ustr \<Rightarrow> int \<Rightarrow> nat option \<Rightarrow> string option \<Rightarrow> db \<Rightarrow> p_row res \<times> db" where
  "create_product_in_transaction now rnd raw_code raw_name actor req act d =
     (case normalize_product_code raw_code of
        Inl e \<Rightarrow> (Inl e, d)
      | Inr code \<Rightarrow>
          (case normalize_product_name raw_name of
             Inl e \<Rightarrow> (Inl e, d)
           | Inr name \<Rightarrow> create_loop TOKEN_RETRY_LIMIT now rnd 0 code name actor req act d))"

definition create_product ::
    "int \<Rightarrow> (nat \<Rightarrow> nat list) \<Rightarrow> ustr \<Rightarrow> ustr \<Rightarrow> int \<Rightarrow> nat option \<Rightarrow> db \<Rightarrow> p_row res \<times> db" where
  "create_product now rnd raw_code raw_name actor req =
     transaction (create_product_in_transaction now rnd raw_code raw_name actor req (Some ''product_create''))"

section \<open>Listing and lookup\<close>

definition replace_char :: "nat \<Rightarrow> ustr \<Rightarrow> ustr \<Rightarrow> ustr" where
  "replace_char c t s = concat (map (\<lambda>x. if x = c then t else [x]) s)"

definition escape_like_pattern :: "ustr \<Rightarrow> ustr" where
  "escape_like_pattern s =
     replace_char 95 [92, 95] (replace_char 37 [92, 37] (replace_char 92 [92, 92] s))"

text \<open>
  PostgreSQL's \<open>LIKE ... ESCAPE '\'\<close>; \<open>ILIKE\<close> compares the lower-cased texts. The case mapping of
  the database's locale is the parameter \<open>low\<close>, character by character.
\<close>

function (sequential) sql_like :: "ustr \<Rightarrow> ustr \<Rightarrow> bool" where
  "sql_like [] s = (s = [])"
| "sql_like (c # p) s =
     (if c = 37 then sql_like p s \<or> (case s of [] \<Rightarrow> False | x # xs \<Rightarrow> sql_like (c # p) xs)
      else if c = 92 then
        (case p of [] \<Rightarrow> False
         | e # q \<Rightarrow> (case s of [] \<Rightarrow> False | x # xs \<Rightarrow> x = e \<and> sql_like q xs))
      else (case s of [] \<Rightarrow> False | x # xs \<Rightarrow> (c = 95 \<or> x = c) \<and> sql_like p xs))"
  by pat_completeness auto
termination by (relation "measure (\<lambda>(p, s). length p + length s)") auto

declare sql_like.simps [simp del]

definition sql_ilike :: "(nat \<Rightarrow> nat) \<Rightarrow> ustr \<Rightarrow> ustr \<Rightarrow> bool" where
  "sql_ilike low s pattern = sql_like (map low pattern) (map low s)"

datatype pdf_status = Uploaded | Not_Uploaded

definition product_matches :: "(nat \<Rightarrow> nat) \<Rightarrow> ustr option \<Rightarrow> pdf_status option \<Rightarrow> p_row \<Rightarrow> bool" where
  "product_matches low q pdf_status p =
     (let search_term = (case q of Some t \<Rightarrow> strip t | None \<Rightarrow> []);
          pattern = [37] @ escape_like_pattern search_term @ [37];
          named = (case p_name p of Some n \<Rightarrow> n | None \<Rightarrow> [])
      in (search_term \<noteq> [] \<longrightarrow> sql_ilike low (p_code p) pattern \<or> sql_ilike low named pattern)
         \<and> (pdf_status = Some Uploaded \<longrightarrow> p_current p \<noteq> None)
         \<and> (pdf_status = Some Not_Uploaded \<longrightarrow> p_current p = None))"

text \<open>\<open>ORDER BY updated_at DESC, id DESC LIMIT %s OFFSET %s\<close>.\<close>

definition list_products ::
    "(nat \<Rightarrow> nat) \<Rightarrow> nat \<Rightarrow> nat \<Rightarrow> ustr option \<Rightarrow> pdf_status option \<Rightarrow> db \<Rightarrow> p_row list" where
  "list_products low limit offset q pdf_status d =
     take limit (drop offset
       (sort_key (\<lambda>p. (- p_updated p, - p_id p))
          (filter (product_matches low q pdf_status) (t_products (tabs d)))))"

definition get_product :: "int \<Rightarrow> db \<Rightarrow> p_row res" where
  "get_product pid d =
     (case select_product pid d of None \<Rightarrow> Inl (AppError ''product_not_found'' 404) | Some p \<Rightarrow> Inr p)"

section \<open>Public-access status\<close>

fun status_text :: "pstatus \<Rightarrow> ustr" where
  "status_text Active = u ''active''"
| "status_text Disabled = u ''disabled''"

definition set_product_status :: "int \<Rightarrow> int \<Rightarrow> pstatus \<Rightarrow> int \<Rightarrow> nat option \<Rightarrow> db \<Rightarrow> p_row res \<times> db" where
  "set_product_status now pid new_status actor req =
     transaction (\<lambda>d.
       case select_product pid d of
         None \<Rightarrow> (Inl (AppError ''product_not_found'' 404), d)
       | Some row \<Rightarrow>
           if p_status row = new_status then (Inr row, d)
           else
             dbind (update_product pid (\<lambda>p. p\<lparr>p_status := new_status, p_updated := now\<rparr>))
               (\<lambda>updated_row. case updated_row of
                  None \<Rightarrow> Pair (Inl (RuntimeError ''Product status update returned no row''))
                | Some p \<Rightarrow>
                    dbind (append_event now
                        (admin_event (if new_status = Disabled then ''product_disable'' else ''product_enable'')
                           actor ''product'' (p_id p) (Some (p_code p)) req
                           (Some [(''previous_status'', DStr (status_text (p_status row))),
                                  (''status'', DStr (status_text new_status))])))
                      (\<lambda>_. Pair (Inr p))) d)"

section \<open>Lemmas on codes, names and tokens\<close>

lemma product_char_upper: "product_char c \<Longrightarrow> code_char (upper_char c)"
  by (auto simp: product_char_def code_char_def is_alnum_def upper_char_def is_lower_def is_upper_def is_digit_def)

lemma product_char_not_space: "product_char c \<Longrightarrow> \<not> is_space c"
  by (auto simp: product_char_def is_space_def is_alnum_def is_digit_def is_upper_def is_lower_def)

lemma code_char_product_char: "code_char c \<Longrightarrow> product_char c \<and> upper_char c = c"
  by (auto simp: product_char_def code_char_def is_alnum_def upper_char_def is_lower_def is_upper_def is_digit_def)

lemma stored_code_contract: "is_normalized_product_code s = ck_products_code_format s"
  unfolding is_normalized_product_code_def ck_products_code_format_def
  by (simp add: code_char_def [abs_def])

lemma normalized_code_format:
  "normalize_product_code raw = Inr c \<Longrightarrow> ck_products_code_format c"
  by (auto simp: normalize_product_code_def Let_def ck_products_code_format_def PRODUCT_CODE_PATTERN_def
      ascii_upper_def list_all_iff product_char_upper split: if_splits)

lemma normalize_stored_code:
  assumes "ck_products_code_format c"
  shows "normalize_product_code c = Inr c"
proof -
  have p: "list_all product_char c" and up: "map upper_char c = c"
    using assms code_char_product_char by (auto simp: ck_products_code_format_def list_all_iff intro: map_idI)
  have "strip c = c"
    using p product_char_not_space by (intro strip_no_space) (auto simp: list_all_iff)
  with p up assms show ?thesis
    by (simp add: normalize_product_code_def PRODUCT_CODE_PATTERN_def ck_products_code_format_def ascii_upper_def)
qed

lemma normalized_name_width:
  "normalize_product_name raw = Inr n \<Longrightarrow> n \<noteq> [] \<and> length n \<le> 120 \<and> strip n = n"
  by (auto simp: normalize_product_name_def PRODUCT_NAME_MAX_LENGTH_def Let_def split: if_splits)

lemma normalize_name_fixed: "n \<noteq> [] \<Longrightarrow> length n \<le> 120 \<Longrightarrow> strip n = n \<Longrightarrow> normalize_product_name n = Inr n"
  by (simp add: normalize_product_name_def PRODUCT_NAME_MAX_LENGTH_def)

lemma generate_public_token_16: "length bs = 16 \<Longrightarrow> generate_public_token bs = Inr (unpadded bs)"
  by (simp add: generate_public_token_def Let_def length_unpadded_16 PUBLIC_TOKEN_LENGTH_def)

section \<open>Lemmas on creation\<close>

definition new_product :: "int \<Rightarrow> int \<Rightarrow> ustr \<Rightarrow> ustr \<Rightarrow> ustr \<Rightarrow> p_row" where
  "new_product now pid code name token =
     \<lparr>p_id = pid, p_code = code, p_name = Some name, p_token = token, p_status = Active,
      p_current = None, p_created = now, p_updated = now\<rparr>"

definition creation_audit :: "int \<Rightarrow> int \<Rightarrow> nat option \<Rightarrow> string option \<Rightarrow> p_row \<Rightarrow> int \<Rightarrow> e_row list" where
  "creation_audit now actor req act p eid =
     (case act of None \<Rightarrow> []
      | Some a \<Rightarrow> [\<lparr>e_id = eid, e_at = now,
          e_event = admin_event a actor ''product'' (p_id p) (Some (p_code p)) req None\<rparr>])"

text \<open>The tables after a creation: one product and its audit event, nothing else.\<close>

definition with_product :: "p_row \<Rightarrow> e_row list \<Rightarrow> tables \<Rightarrow> tables" where
  "with_product p es t = t\<lparr>t_products := t_products t @ [p], t_audit := t_audit t @ es\<rparr>"

definition valid_new :: "ustr \<Rightarrow> ustr \<Rightarrow> string option \<Rightarrow> bool" where
  "valid_new code name act \<longleftrightarrow>
     ck_products_code_format code \<and> length name \<le> 120 \<and> (case act of None \<Rightarrow> True | Some a \<Rightarrow> length a \<le> 48)"

lemma create_attempt_code:
  assumes "valid_new code name act" "length token \<le> 26" "code \<in> p_code ` set (t_products (tabs d))"
  shows "create_attempt now code name token actor req act d =
    (Inl (UniqueViolation ''products_code_key''), d\<lparr>seqs := (seqs d)\<lparr>q_products := q_products (seqs d) + 1\<rparr>\<rparr>)"
  using assms by (simp add: create_attempt_def transaction_def dbind_def insert_product_def Let_def product_widths_def
      valid_new_def ck_products_code_format_def)

lemma create_attempt_token:
  assumes "valid_new code name act" "length token \<le> 26" "code \<notin> p_code ` set (t_products (tabs d))"
    "token \<in> p_token ` set (t_products (tabs d))"
  shows "create_attempt now code name token actor req act d =
    (Inl (UniqueViolation ''products_public_token_key''), d\<lparr>seqs := (seqs d)\<lparr>q_products := q_products (seqs d) + 1\<rparr>\<rparr>)"
  using assms by (simp add: create_attempt_def transaction_def dbind_def insert_product_def Let_def product_widths_def
      valid_new_def ck_products_code_format_def)

lemma create_attempt_fresh:
  assumes "valid_new code name act" "length token \<le> 26" "code \<notin> p_code ` set (t_products (tabs d))"
    "token \<notin> p_token ` set (t_products (tabs d))"
  obtains d' where "create_attempt now code name token actor req act d =
      (Inr (new_product now (q_products (seqs d)) code name token), d')"
    "tabs d' = with_product (new_product now (q_products (seqs d)) code name token)
        (creation_audit now actor req act (new_product now (q_products (seqs d)) code name token) (q_audit (seqs d))) (tabs d)"
proof -
  have w: "product_widths code (Some name) token" "ck_products_code_format code"
    using assms by (auto simp: product_widths_def valid_new_def ck_products_code_format_def)
  have "length code \<le> 64" using assms by (simp add: valid_new_def ck_products_code_format_def)
  with w assms show thesis
    by (cases act; intro that) (auto simp: create_attempt_def transaction_def dbind_def insert_product_def Let_def valid_new_def
        append_event_def audit_widths_def new_product_def creation_audit_def with_product_def)
qed

text \<open>The first of the next \<open>k\<close> tokens that no product has.\<close>

definition fresh_token :: "(nat \<Rightarrow> nat list) \<Rightarrow> nat \<Rightarrow> nat \<Rightarrow> tables \<Rightarrow> nat option" where
  "fresh_token rnd i k t = List.find (\<lambda>j. unpadded (rnd j) \<notin> p_token ` set (t_products t)) [i..<i + k]"

lemma fresh_token_Suc:
  "fresh_token rnd i (Suc k) t =
     (if unpadded (rnd i) \<notin> p_token ` set (t_products t) then Some i else fresh_token rnd (Suc i) k t)"
proof -
  have "[i..<i + Suc k] = i # [Suc i..<Suc i + k]"
    by (simp add: upt_conv_Cons)
  then show ?thesis by (simp add: fresh_token_def)
qed

lemma create_loop_code_taken:
  assumes "valid_new code name act" "\<And>j. length (rnd j) = 16" "code \<in> p_code ` set (t_products (tabs d))" "0 < k"
  shows "\<exists>d'. create_loop k now rnd i code name actor req act d =
    (Inl (AppError ''duplicate_product_code'' 409), d') \<and> tabs d' = tabs d"
  using assms by (cases k) (simp_all add: generate_public_token_16 length_unpadded_16 create_attempt_code)

lemma create_loop_no_token:
  assumes "valid_new code name act" "\<And>j. length (rnd j) = 16" "code \<notin> p_code ` set (t_products (tabs d))"
    "fresh_token rnd i k (tabs d) = None"
  shows "\<exists>d'. create_loop k now rnd i code name actor req act d =
    (Inl (AppError ''token_generation_failed'' 503), d') \<and> tabs d' = tabs d"
  using assms
proof (induction k arbitrary: i d)
  case (Suc k)
  then have t: "unpadded (rnd i) \<in> p_token ` set (t_products (tabs d))" "fresh_token rnd (Suc i) k (tabs d) = None"
    by (auto simp: fresh_token_Suc split: if_splits)
  let ?d1 = "d\<lparr>seqs := (seqs d)\<lparr>q_products := q_products (seqs d) + 1\<rparr>\<rparr>"
  have "create_attempt now code name (unpadded (rnd i)) actor req act d =
      (Inl (UniqueViolation ''products_public_token_key''), ?d1)"
    using Suc.prems t by (intro create_attempt_token) (simp_all add: length_unpadded_16)
  moreover have "\<exists>d'. create_loop k now rnd (Suc i) code name actor req act ?d1 =
      (Inl (AppError ''token_generation_failed'' 503), d') \<and> tabs d' = tabs ?d1"
    using Suc.prems t by (intro Suc.IH) simp_all
  ultimately show ?case using Suc.prems by (simp add: generate_public_token_16)
qed simp

lemma create_loop_fresh:
  assumes "valid_new code name act" "\<And>j. length (rnd j) = 16" "code \<notin> p_code ` set (t_products (tabs d))"
    "fresh_token rnd i k (tabs d) = Some j"
  shows "\<exists>d' pid. create_loop k now rnd i code name actor req act d =
      (Inr (new_product now pid code name (unpadded (rnd j))), d')
    \<and> tabs d' = with_product (new_product now pid code name (unpadded (rnd j)))
        (creation_audit now actor req act (new_product now pid code name (unpadded (rnd j))) (q_audit (seqs d))) (tabs d)
    \<and> q_products (seqs d) \<le> pid"
  using assms
proof (induction k arbitrary: i d)
  case 0
  then show ?case by (simp add: fresh_token_def)
next
  case (Suc k)
  let ?tok = "unpadded (rnd i)"
  have len: "length ?tok \<le> 26" using Suc.prems by (simp add: length_unpadded_16)
  show ?case
  proof (cases "?tok \<in> p_token ` set (t_products (tabs d))")
    case True
    let ?d1 = "d\<lparr>seqs := (seqs d)\<lparr>q_products := q_products (seqs d) + 1\<rparr>\<rparr>"
    from True Suc.prems have "fresh_token rnd (Suc i) k (tabs ?d1) = Some j"
      by (simp add: fresh_token_Suc)
    then have "\<exists>d' pid. create_loop k now rnd (Suc i) code name actor req act ?d1 =
        (Inr (new_product now pid code name (unpadded (rnd j))), d')
      \<and> tabs d' = with_product (new_product now pid code name (unpadded (rnd j)))
          (creation_audit now actor req act (new_product now pid code name (unpadded (rnd j))) (q_audit (seqs ?d1))) (tabs ?d1)
      \<and> q_products (seqs ?d1) \<le> pid"
      using Suc.prems by (intro Suc.IH) simp_all
    moreover have "create_attempt now code name ?tok actor req act d =
        (Inl (UniqueViolation ''products_public_token_key''), ?d1)"
      using Suc.prems True len by (intro create_attempt_token)
    ultimately show ?thesis using Suc.prems by (fastforce simp: generate_public_token_16)
  next
    case False
    with Suc.prems have j: "j = i" by (simp add: fresh_token_Suc)
    from create_attempt_fresh [OF Suc.prems(1) len Suc.prems(3) False]
    obtain d' where "create_attempt now code name ?tok actor req act d =
        (Inr (new_product now (q_products (seqs d)) code name ?tok), d')"
      "tabs d' = with_product (new_product now (q_products (seqs d)) code name ?tok)
        (creation_audit now actor req act (new_product now (q_products (seqs d)) code name ?tok) (q_audit (seqs d))) (tabs d)"
      by blast
    with j Suc.prems show ?thesis by (auto simp: generate_public_token_16)
  qed
qed

text \<open>Whatever the arguments, creation keeps the invariant and only adds.\<close>

lemma create_attempt_step [inv_intro]: "step_ok d (snd (create_attempt now code name token actor req act d))"
  unfolding create_attempt_def by (auto intro!: inv_intro split: option.splits)

lemma create_loop_step [inv_intro]: "step_ok d (snd (create_loop k now rnd i code name actor req act d))"
proof (induction k arbitrary: i d)
  case (Suc k)
  have a: "step_ok d d1" if "create_attempt now code name tok actor req act d = (r, d1)" for tok r d1
    using create_attempt_step [of d now code name tok actor req act] that by simp
  show ?case
    using a by (auto split: prod.splits sum.splits intro: step_ok_trans [OF _ Suc.IH])
qed simp

lemma create_in_transaction_step [inv_intro]:
  "step_ok d (snd (create_product_in_transaction now rnd rc rn actor req act d))"
  unfolding create_product_in_transaction_def by (auto intro!: inv_intro split: sum.splits)

lemma create_product_step [inv_intro]: "step_ok d (snd (create_product now rnd rc rn actor req d))"
  unfolding create_product_def by (intro inv_intro)

lemma set_product_status_step [inv_intro]: "step_ok d (snd (set_product_status now pid st actor req d))"
  unfolding set_product_status_def by (auto intro!: inv_intro split: option.splits)

section \<open>Lemmas on the listing\<close>

definition is_meta :: "nat \<Rightarrow> bool" where
  "is_meta c \<longleftrightarrow> c = 37 \<or> c = 92 \<or> c = 95"

lemma replace_char_append: "replace_char c t (xs @ ys) = replace_char c t xs @ replace_char c t ys"
  by (simp add: replace_char_def)

lemma escape_Nil [simp]: "escape_like_pattern [] = []"
  by (simp add: escape_like_pattern_def replace_char_def)

lemma escape_Cons [simp]:
  "escape_like_pattern (c # s) = (if is_meta c then [92, c] else [c]) @ escape_like_pattern s"
  by (simp add: escape_like_pattern_def replace_char_def is_meta_def)

lemma like_any: "sql_like [37] s"
  by (induction s) (simp_all add: sql_like.simps)

lemma like_percent: "sql_like (37 # p) s \<longleftrightarrow> (\<exists>a b. s = a @ b \<and> sql_like p b)"
proof (induction s)
  case Nil
  then show ?case by (simp add: sql_like.simps(2))
next
  case (Cons x xs)
  have "sql_like (37 # p) (x # xs) \<longleftrightarrow> sql_like p (x # xs) \<or> sql_like (37 # p) xs"
    by (subst sql_like.simps(2)) simp
  with Cons show ?case by (auto simp: Cons_eq_append_conv)
qed

lemma like_escaped: "sql_like (escape_like_pattern t @ [37]) s \<longleftrightarrow> prefix t s"
proof (induction t arbitrary: s)
  case Nil
  then show ?case by (simp add: like_any)
next
  case (Cons c t)
  show ?case
  proof (cases "is_meta c")
    case True
    then show ?thesis by (cases s) (auto simp: sql_like.simps(2) Cons.IH)
  next
    case False
    then show ?thesis by (cases s) (auto simp: sql_like.simps(2) is_meta_def Cons.IH)
  qed
qed

lemma like_contains: "sql_like ([37] @ escape_like_pattern t @ [37]) s \<longleftrightarrow> sublist t s"
  by (auto simp: like_percent like_escaped sublist_def prefix_def)

text \<open>A case mapping that keeps the LIKE metacharacters apart from the other characters.\<close>

definition keeps_meta :: "(nat \<Rightarrow> nat) \<Rightarrow> bool" where
  "keeps_meta low \<longleftrightarrow> (\<forall>c. if is_meta c then low c = c else \<not> is_meta (low c))"

lemma map_escape: "keeps_meta low \<Longrightarrow> map low (escape_like_pattern s) = escape_like_pattern (map low s)"
proof (induction s)
  case (Cons c s)
  have "is_meta 92" by (simp add: is_meta_def)
  with Cons show ?case by (auto simp: keeps_meta_def)
qed simp

lemma ilike_contains:
  assumes "keeps_meta low"
  shows "sql_ilike low s ([37] @ escape_like_pattern t @ [37]) \<longleftrightarrow> sublist (map low t) (map low s)"
proof -
  have "low 37 = 37" using assms by (simp add: keeps_meta_def is_meta_def)
  then have "map low ([37] @ escape_like_pattern t @ [37]) = [37] @ escape_like_pattern (map low t) @ [37]"
    using map_escape [OF assms] by simp
  then show ?thesis unfolding sql_ilike_def by (simp only: like_contains)
qed

definition newest_first :: "p_row \<Rightarrow> p_row \<Rightarrow> bool" where
  "newest_first p r \<longleftrightarrow> p_updated r < p_updated p \<or> (p_updated r = p_updated p \<and> p_id r < p_id p)"

lemma sorted_wrt_take_drop: "sorted_wrt R xs \<Longrightarrow> sorted_wrt R (take n (drop m xs))"
  by (simp add: sorted_wrt_take sorted_wrt_drop)

lemma pages_concat: "concat (map (\<lambda>k. take n (drop (k * n) xs)) [0..<m]) = take (m * n) xs"
proof (induction m)
  case (Suc m)
  have "take (m * n) xs @ take n (drop (m * n) xs) = take (m * n + n) xs"
    by (simp add: take_add)
  with Suc show ?case by (simp add: add.commute)
qed simp

lemma newest_first_sorted:
  assumes "distinct (map p_id ps)"
  shows "sorted_wrt newest_first (sort_key (\<lambda>p. (- p_updated p, - p_id p)) ps)"
proof -
  let ?k = "\<lambda>p. (- p_updated p, - p_id p)"
  let ?s = "sort_key ?k ps"
  have "distinct (map p_id ?s)" using assms by (simp add: distinct_map)
  then have "sorted_wrt (\<noteq>) (map p_id ?s)" by (simp only: distinct_sorted_wrt)
  then have "sorted_wrt (\<lambda>p r. p_id p \<noteq> p_id r) ?s" by (simp only: sorted_wrt_map)
  moreover have "sorted_wrt (\<lambda>p r. ?k p \<le> ?k r) ?s"
    using sorted_sort_key [of ?k ps] by (simp only: sorted_wrt_map)
  ultimately have "sorted_wrt (\<lambda>p r. p_id p \<noteq> p_id r \<and> ?k p \<le> ?k r) ?s"
    by (simp add: sorted_wrt_iff_nth_less)
  then show ?thesis
    by (rule sorted_wrt_mono_rel [rotated]) (auto simp: newest_first_def)
qed

lemma list_products_all:
  "set (list_products low (length (t_products (tabs d))) 0 q st d) = {p \<in> set (t_products (tabs d)). product_matches low q st p}"
  by (simp add: list_products_def order_trans [OF length_filter_le])

section \<open>Properties\<close>

text \<open>
  A product code is accepted exactly when its trimmed text is 1 to 64 ASCII letters, digits,
  hyphens or underscores; the stored form is that text in upper case, satisfies the database's
  CHECK constraint, and is a fixed point of the normalisation.
\<close>

theorem normalize_code_canonical:
  "case normalize_product_code raw of
     Inr c \<Rightarrow> PRODUCT_CODE_PATTERN (strip raw) \<and> c = ascii_upper (strip raw)
        \<and> ck_products_code_format c \<and> is_normalized_product_code c \<and> normalize_product_code c = Inr c
   | Inl e \<Rightarrow> \<not> PRODUCT_CODE_PATTERN (strip raw) \<and> e = AppError ''invalid_product_code'' 422"
proof (cases "normalize_product_code raw")
  case (Inl e)
  then show ?thesis by (auto simp: normalize_product_code_def Let_def split: if_splits)
next
  case (Inr c)
  then have "ck_products_code_format c" by (rule normalized_code_format)
  then have "ck_products_code_format c \<and> is_normalized_product_code c \<and> normalize_product_code c = Inr c"
    by (simp add: stored_code_contract normalize_stored_code)
  with Inr show ?thesis by (auto simp: normalize_product_code_def Let_def split: if_splits)
qed

text \<open>
  A public token made of sixteen random bytes has 26 characters of the Base32 alphabet, is never
  refused by the length check, and two different draws never give the same token: the text keeps
  all 128 bits.
\<close>

theorem public_token_injective:
  assumes "length bs = 16" "bytes bs" "length bs' = 16" "bytes bs'"
  shows "\<exists>tok tok'. generate_public_token bs = Inr tok \<and> generate_public_token bs' = Inr tok'
     \<and> length tok = 26 \<and> list_all is_b32 tok \<and> (tok = tok' \<longleftrightarrow> bs = bs')"
  using assms by (auto simp: generate_public_token_16 length_unpadded_16 unpadded_16_alphabet dest: unpadded_16_inject)

theorem public_token_injective_witness:
  "\<exists>tok tok'. generate_public_token (replicate 16 0) = Inr tok \<and> generate_public_token (replicate 16 255) = Inr tok'
     \<and> length tok = 26 \<and> list_all is_b32 tok \<and> (tok = tok' \<longleftrightarrow> replicate 16 0 = replicate 16 (255 :: nat))"
  by (rule public_token_injective) (simp_all add: list_all_iff)

text \<open>
  The abstract outcome of a creation with accepted code and name: a code that exists is refused
  with 409; otherwise the product carries the first of five tokens that is free, starts active
  without a version, and is the only new product, with its audit event; with no free token the
  answer is 503. A refusal leaves every table as it was.
\<close>

definition creation_spec ::
    "int \<Rightarrow> (nat \<Rightarrow> nat list) \<Rightarrow> ustr \<Rightarrow> ustr \<Rightarrow> int \<Rightarrow> nat option \<Rightarrow> db \<Rightarrow> p_row res \<times> db \<Rightarrow> bool" where
  "creation_spec now rnd code name actor req d out =
     (let taken = (code \<in> p_code ` set (t_products (tabs d)));
          choice = fresh_token rnd 0 5 (tabs d)
      in case out of
           (Inl e, d') \<Rightarrow> tabs d' = tabs d
             \<and> (if taken then e = AppError ''duplicate_product_code'' 409
                else choice = None \<and> e = AppError ''token_generation_failed'' 503)
         | (Inr p, d') \<Rightarrow> \<not> taken
             \<and> (case choice of None \<Rightarrow> False
                | Some j \<Rightarrow> p = new_product now (p_id p) code name (unpadded (rnd j)))
             \<and> q_products (seqs d) \<le> p_id p
             \<and> tabs d' = with_product p (creation_audit now actor req (Some ''product_create'') p (q_audit (seqs d))) (tabs d))"

text \<open>Creating a product implements its abstract outcome on every branch.\<close>

theorem create_product_outcome:
  assumes "normalize_product_code raw_code = Inr code" and "normalize_product_name raw_name = Inr name"
    and "\<forall>j. length (rnd j) = 16"
  shows "creation_spec now rnd code name actor req d (create_product now rnd raw_code raw_name actor req d)"
proof -
  let ?act = "Some ''product_create''"
  have v: "valid_new code name ?act"
    using normalized_code_format [OF assms(1)] normalized_name_width [OF assms(2)] by (simp add: valid_new_def)
  have rnd: "length (rnd j) = 16" for j using assms(3) by simp
  have body: "create_product_in_transaction now rnd raw_code raw_name actor req ?act d =
      create_loop 5 now rnd 0 code name actor req ?act d"
    using assms(1,2) by (simp add: create_product_in_transaction_def TOKEN_RETRY_LIMIT_def)
  show ?thesis
  proof (cases "code \<in> p_code ` set (t_products (tabs d))")
    case True
    have "\<exists>d'. create_loop 5 now rnd 0 code name actor req ?act d =
        (Inl (AppError ''duplicate_product_code'' 409), d') \<and> tabs d' = tabs d"
      by (rule create_loop_code_taken [OF v rnd True]) simp
    then obtain d' where "create_loop 5 now rnd 0 code name actor req ?act d =
        (Inl (AppError ''duplicate_product_code'' 409), d')" "tabs d' = tabs d" by blast
    with body True show ?thesis by (simp add: create_product_def creation_spec_def transaction_def)
  next
    case False
    show ?thesis
    proof (cases "fresh_token rnd 0 5 (tabs d)")
      case None
      from create_loop_no_token [OF v rnd False None] obtain d' where
        "create_loop 5 now rnd 0 code name actor req ?act d = (Inl (AppError ''token_generation_failed'' 503), d')"
        "tabs d' = tabs d" by blast
      with body False None show ?thesis
        by (simp add: create_product_def creation_spec_def transaction_def)
    next
      case (Some j)
      from create_loop_fresh [OF v rnd False Some] obtain d' pid where
        "create_loop 5 now rnd 0 code name actor req ?act d = (Inr (new_product now pid code name (unpadded (rnd j))), d')"
        "tabs d' = with_product (new_product now pid code name (unpadded (rnd j)))
          (creation_audit now actor req ?act (new_product now pid code name (unpadded (rnd j))) (q_audit (seqs d))) (tabs d)"
        "q_products (seqs d) \<le> pid" by blast
      with body False Some show ?thesis
        by (simp add: create_product_def creation_spec_def transaction_def) (simp add: new_product_def)
    qed
  qed
qed

theorem create_product_outcome_witness:
  "creation_spec 9 (\<lambda>_. replicate 16 7) (u ''AB-1'') (u ''Valve'') 1 None empty_db
     (create_product 9 (\<lambda>_. replicate 16 7) (u '' ab-1 '') (u ''Valve '') 1 None empty_db)"
  by (rule create_product_outcome)
    (simp_all add: normalize_product_code_def normalize_product_name_def PRODUCT_CODE_PATTERN_def
      product_char_def PRODUCT_NAME_MAX_LENGTH_def text_eval)

text \<open>
  The search text of the listing is taken literally: for a case mapping that keeps the LIKE
  metacharacters apart, a product matches exactly when the trimmed text is empty or occurs, ignoring
  case, in its code or its name, whatever percent signs, underscores and backslashes it contains.
\<close>

theorem search_is_literal:
  assumes "keeps_meta low"
  shows "product_matches low (Some q) None p \<longleftrightarrow>
     strip q = [] \<or> sublist (map low (strip q)) (map low (p_code p))
     \<or> sublist (map low (strip q)) (map low (case p_name p of Some n \<Rightarrow> n | None \<Rightarrow> []))"
  using ilike_contains [OF assms] by (auto simp: product_matches_def Let_def)

theorem search_is_literal_witness:
  "product_matches lower_char (Some (u ''_b'')) None (new_product 0 1 (u ''A_B'') (u ''n'') [])
   \<longleftrightarrow> strip (u ''_b'') = [] \<or> sublist (map lower_char (strip (u ''_b''))) (map lower_char (u ''A_B''))
     \<or> sublist (map lower_char (strip (u ''_b''))) (map lower_char (u ''n''))"
  using search_is_literal [of lower_char "u ''_b''" "new_product 0 1 (u ''A_B'') (u ''n'') []"]
  by (simp add: keeps_meta_def is_meta_def lower_char_def is_upper_def new_product_def)

text \<open>
  The pages of the listing are consecutive slices of one fixed order, newest change first with
  the id as tie-break: pages of \<open>n\<close> products put together are the first \<open>m * n\<close> of the whole list,
  every page is strictly ordered, and the whole list is exactly the matching products.
\<close>

theorem listing_pages:
  assumes "db_inv d"
  shows "concat (map (\<lambda>k. list_products low n (k * n) q st d) [0..<m])
           = take (m * n) (list_products low (length (t_products (tabs d))) 0 q st d)
       \<and> set (list_products low (length (t_products (tabs d))) 0 q st d)
           = {p \<in> set (t_products (tabs d)). product_matches low q st p}
       \<and> sorted_wrt newest_first (list_products low n i q st d)"
proof (intro conjI)
  let ?all = "sort_key (\<lambda>p. (- p_updated p, - p_id p)) (filter (product_matches low q st) (t_products (tabs d)))"
  have whole: "list_products low (length (t_products (tabs d))) 0 q st d = ?all"
    by (simp add: list_products_def)
  show "concat (map (\<lambda>k. list_products low n (k * n) q st d) [0..<m])
      = take (m * n) (list_products low (length (t_products (tabs d))) 0 q st d)"
    unfolding whole using pages_concat [of n ?all m] by (simp add: list_products_def)
  have "distinct (map p_id (filter (product_matches low q st) (t_products (tabs d))))"
    using assms by (simp add: db_inv_def keys_ok_def key_ok_def distinct_map_filter)
  then show "sorted_wrt newest_first (list_products low n i q st d)"
    unfolding list_products_def by (intro sorted_wrt_take_drop newest_first_sorted)
qed (rule list_products_all)

theorem listing_pages_witness:
  "concat (map (\<lambda>k. list_products id 2 (k * 2) None None empty_db) [0..<3])
     = take (3 * 2) (list_products id (length (t_products (tabs empty_db))) 0 None None empty_db)
   \<and> set (list_products id (length (t_products (tabs empty_db))) 0 None None empty_db)
     = {p \<in> set (t_products (tabs empty_db)). product_matches id None None p}
   \<and> sorted_wrt newest_first (list_products id 2 0 None None empty_db)"
  by (rule listing_pages) simp

text \<open>
  The abstract outcome of a status request: nothing for an unknown product; a request for the
  status the product already has changes nothing and writes no audit event; a real transition
  changes that product's status and change time only, and appends one audit event that names both
  statuses.
\<close>

definition status_spec :: "int \<Rightarrow> int \<Rightarrow> pstatus \<Rightarrow> int \<Rightarrow> nat option \<Rightarrow> db \<Rightarrow> p_row res \<times> db \<Rightarrow> bool" where
  "status_spec now pid st actor req d out =
     (case select_product pid d of
        None \<Rightarrow> out = (Inl (AppError ''product_not_found'' 404), d)
      | Some row \<Rightarrow>
          if p_status row = st then out = (Inr row, d)
          else (case out of (r, d') \<Rightarrow>
            r = Inr (row\<lparr>p_status := st, p_updated := now\<rparr>)
            \<and> tabs d' = (tabs d)\<lparr>t_products := update_where (\<lambda>p. p_id p = pid) (\<lambda>p. p\<lparr>p_status := st, p_updated := now\<rparr>) (t_products (tabs d)),
                 t_audit := t_audit (tabs d) @
                   [\<lparr>e_id = q_audit (seqs d), e_at = now,
                     e_event = admin_event (case st of Disabled \<Rightarrow> ''product_disable'' | Active \<Rightarrow> ''product_enable'')
                       actor ''product'' pid (Some (p_code row)) req
                       (Some [(''previous_status'', DStr (status_text (p_status row))), (''status'', DStr (status_text st))])\<rparr>]\<rparr>))"

text \<open>Setting a product's status implements its abstract outcome in every state of the invariant.\<close>

theorem set_status_outcome:
  assumes "db_inv d"
  shows "status_spec now pid st actor req d (set_product_status now pid st actor req d)"
proof (cases "select_product pid d")
  case None
  then show ?thesis by (simp add: status_spec_def set_product_status_def transaction_def)
next
  case (Some row)
  then have row: "row \<in> set (t_products (tabs d))" "p_id row = pid" using select_productD by auto
  show ?thesis
  proof (cases "p_status row = st")
    case True
    with Some show ?thesis by (simp add: status_spec_def set_product_status_def transaction_def)
  next
    case False
    let ?f = "\<lambda>p. p\<lparr>p_status := st, p_updated := now\<rparr>"
    have "fk_current_ok (tabs d) row" and len: "length (p_code row) \<le> 64"
      using assms row by (auto simp: db_inv_def fks_ok_def checks_ok_def list_all_iff ck_products_code_format_def)
    then have fk: "fk_current_ok (tabs d) (?f row)" by (simp add: fk_current_ok_def split: option.splits)
    have "update_product pid ?f d = (Inr (Some (?f row)),
        upd_tabs (\<lambda>t. t\<lparr>t_products := update_where (\<lambda>p. p_id p = pid) ?f (t_products t)\<rparr>) d)"
      using Some fk by (simp add: update_product_def trg_products_immutable_def)
    with Some False len row show ?thesis
      by (cases st) (simp_all add: status_spec_def set_product_status_def transaction_def dbind_def
          append_event_def Let_def audit_widths_def)
  qed
qed

theorem set_status_outcome_witness:
  "status_spec 4 1 Disabled 1 None empty_db (set_product_status 4 1 Disabled 1 None empty_db)"
  by (rule set_status_outcome) simp

end
