(* ===== verification/Storage_Service.thy ===== *)
theory Storage_Service
  imports Py_Prelude "HOL-Library.Sublist"
begin

text \<open>
  \<open>domains/storage/service.py\<close>: receiving an upload into isolation, its validation, the atomic
  publication under a content-derived path, path resolution and the orphan report.

  The two directories are association lists: temporary files by their number, formal files by their
  path below \<open>files/\<close>. SHA-256 is the parameter \<open>digest\<close>; the operating system's failures and the
  outcome of the validation process are arguments of the operations that meet them.
\<close>

section \<open>State\<close>

type_synonym octets = "nat list"

record file_obj =
  fo_bytes :: octets
  fo_mtime :: int

record store =
  st_tmp :: "(nat \<times> octets) list"
  st_files :: "(ustr \<times> file_obj) list"

record validated_upload =
  vu_tmp :: nat
  vu_filename :: ustr
  vu_size :: int
  vu_sha :: ustr

record published_file =
  pf_path :: ustr
  pf_moved :: bool

record orphan_file =
  or_path :: ustr
  or_size :: int
  or_mtime :: int

definition drop_tmp :: "nat \<Rightarrow> store \<Rightarrow> store" where
  "drop_tmp t st = st\<lparr>st_tmp := filter (\<lambda>x. fst x \<noteq> t) (st_tmp st)\<rparr>"

text \<open>\<open>ValidatedUpload.discard\<close>: an operating-system error is logged and swallowed.\<close>

definition discard :: "bool \<Rightarrow> validated_upload \<Rightarrow> store \<Rightarrow> store" where
  "discard unlink_fails up st = (if unlink_fails then st else drop_tmp (vu_tmp up) st)"

section \<open>Metadata of an upload\<close>

text \<open>\<open>Path(filename).name\<close> and its \<open>suffix\<close>.\<close>

definition path_name :: "ustr \<Rightarrow> ustr" where
  "path_name s =
     (case rev (filter (\<lambda>p. p \<noteq> [] \<and> p \<noteq> [46]) (split_on 47 s)) of [] \<Rightarrow> [] | p # _ \<Rightarrow> p)"

definition path_suffix :: "ustr \<Rightarrow> ustr" where
  "path_suffix s =
     (let name = path_name s;
          after = rev (takeWhile (\<lambda>c. c \<noteq> 46) (rev name));
          i = length name - length after
      in if after = [] \<or> i \<le> 1 then [] else 46 # after)"

definition PDF_MIME_TYPE :: ustr where
  "PDF_MIME_TYPE = u ''application/pdf''"

definition PDF_MAGIC :: octets where
  "PDF_MAGIC = u ''%PDF-''"

definition validate_metadata :: "ustr \<Rightarrow> ustr option \<Rightarrow> unit res" where
  "validate_metadata filename content_type =
     (if ascii_lower (path_suffix filename) \<noteq> u ''.pdf''
        then Inl (UploadRejected ''invalid_pdf_extension'' ''extension'' 422)
      else
        let declared_type = ascii_lower (strip (fst (partition_on 59 (case content_type of Some c \<Rightarrow> c | None \<Rightarrow> []))))
        in if declared_type \<noteq> PDF_MIME_TYPE then Inl (UploadRejected ''invalid_pdf_mime'' ''mime'' 422)
           else Inr ())"

section \<open>Structure validation in a worker process\<close>

datatype pdf_validation_status = Valid | Invalid | Resource_Limit

text \<open>What \<open>PdfReader\<close> does with the file inside the worker, limits included.\<close>

datatype parse_event = Parsed | Memory_Error | Os_Or_Value_Error | Other_Error

fun parse_pdf :: "parse_event \<Rightarrow> pdf_validation_status" where
  "parse_pdf Parsed = Valid"
| "parse_pdf Memory_Error = Resource_Limit"
| "parse_pdf _ = Invalid"

text \<open>
  \<open>_pdf_validation_worker\<close>: \<open>limits\<close> is the exception of \<open>_set_pdf_worker_limits\<close>, if any;
  \<open>sent\<close> says whether the pipe took the status.
\<close>

definition pdf_validation_worker :: "parse_event option \<Rightarrow> parse_event \<Rightarrow> bool \<Rightarrow> pdf_validation_status option" where
  "pdf_validation_worker limits parse sent =
     (let status =
        (case limits of
           None \<Rightarrow> parse_pdf parse
         | Some Memory_Error \<Rightarrow> Resource_Limit
         | Some Os_Or_Value_Error \<Rightarrow> Resource_Limit
         | Some _ \<Rightarrow> Invalid)
      in if sent then Some status else None)"

text \<open>What the parent sees: the deadline passed, or the worker ended with a status and an exit code.\<close>

datatype worker_outcome = Timed_Out | Ended "pdf_validation_status option" "int option"

definition judge_worker :: "worker_outcome \<Rightarrow> unit res" where
  "judge_worker w =
     (case w of
        Timed_Out \<Rightarrow> Inl (UploadRejected ''pdf_validation_timeout'' ''structure_timeout'' 422)
      | Ended status exitcode \<Rightarrow>
          if status = Some Valid then Inr ()
          else if status = Some Resource_Limit
               \<or> (status = None \<and> (case exitcode of Some c \<Rightarrow> c < 0 | None \<Rightarrow> False))
            then Inl (UploadRejected ''pdf_validation_resource_limit'' ''structure_resource'' 422)
          else Inl (UploadRejected ''invalid_pdf_structure'' ''structure'' 422))"

definition validate_pdf_content :: "octets \<Rightarrow> int \<Rightarrow> worker_outcome \<Rightarrow> unit res" where
  "validate_pdf_content content sz worker =
     (if sz = 0 then Inl (UploadRejected ''empty_pdf'' ''size'' 422)
      else if take (length PDF_MAGIC) content \<noteq> PDF_MAGIC
        then Inl (UploadRejected ''invalid_pdf_signature'' ''signature'' 422)
      else judge_worker worker)"

section \<open>Receiving\<close>

text \<open>The chunks \<open>upload.read\<close> returns; an empty one ends the stream. \<open>acc\<close> is what was written.\<close>

fun receive_chunks :: "int \<Rightarrow> octets \<Rightarrow> octets list \<Rightarrow> octets res" where
  "receive_chunks max_pdf_bytes acc [] = Inr acc"
| "receive_chunks max_pdf_bytes acc (c # cs) =
     (if c = [] then Inr acc
      else if int (length acc + length c) > max_pdf_bytes then Inl (UploadRejected ''pdf_too_large'' ''size'' 413)
      else receive_chunks max_pdf_bytes (acc @ c) cs)"

text \<open>
  \<open>receive_and_validate\<close>. \<open>tmp\<close> is the temporary file \<open>mkstemp\<close> makes; \<open>io\<close> is an exception of
  the writes, the flush or the fsync. Every failure unlinks the temporary file.
\<close>

definition receive_and_validate ::
    "(octets \<Rightarrow> ustr) \<Rightarrow> int \<Rightarrow> nat \<Rightarrow> ustr option \<Rightarrow> ustr option \<Rightarrow> octets list \<Rightarrow> exc option \<Rightarrow> worker_outcome
     \<Rightarrow> store \<Rightarrow> validated_upload res \<times> store" where
  "receive_and_validate digest max_pdf_bytes tmp filename content_type chunks io worker st =
     (let original_filename = (case filename of Some f \<Rightarrow> f | None \<Rightarrow> []);
          opened = (\<lambda>content. st\<lparr>st_tmp := st_tmp st @ [(tmp, content)]\<rparr>);
          failed = (\<lambda>e. (Inl e, drop_tmp tmp (opened [])))
      in case receive_chunks max_pdf_bytes [] chunks of
           Inl e \<Rightarrow> failed e
         | Inr content \<Rightarrow>
             (case io of
                Some e \<Rightarrow> failed e
              | None \<Rightarrow>
                  (case validate_metadata original_filename content_type of
                     Inl e \<Rightarrow> failed e
                   | Inr () \<Rightarrow>
                       (case validate_pdf_content content (int (length content)) worker of
                          Inl e \<Rightarrow> failed e
                        | Inr () \<Rightarrow>
                            (Inr \<lparr>vu_tmp = tmp, vu_filename = original_filename, vu_size = int (length content),
                                  vu_sha = digest content\<rparr>,
                             opened content)))))"

section \<open>Publication\<close>

definition relative_path_for_hash :: "ustr \<Rightarrow> ustr res" where
  "relative_path_for_hash sha256 =
     (if \<not> hex_text 64 sha256 then Inl (ValueError ''Invalid SHA-256 digest'')
      else Inr (take 2 sha256 @ [47] @ take 2 (drop 2 sha256) @ [47] @ sha256 @ u ''.pdf''))"

text \<open>The calls of \<open>_publish_sync\<close> that the operating system can fail.\<close>

datatype os_fault = No_Fault | Mkdir_Fails | Open_Fails | Chmod_Fails | Rename_Fails

definition publish_sync ::
    "os_fault \<Rightarrow> bool \<Rightarrow> int \<Rightarrow> validated_upload \<Rightarrow> store \<Rightarrow> published_file res \<times> store" where
  "publish_sync fault unlink_fails now up st =
     (case relative_path_for_hash (vu_sha up) of
        Inl e \<Rightarrow> (Inl e, st)
      | Inr relative \<Rightarrow>
          if fault = Mkdir_Fails then (Inl OSError, st)
          else if map_of (st_files st) relative \<noteq> None
            then (Inr \<lparr>pf_path = relative, pf_moved = False\<rparr>, discard unlink_fails up st)
          else
            (case map_of (st_tmp st) (vu_tmp up) of
               None \<Rightarrow> (Inl OSError, st)
             | Some content \<Rightarrow>
                 if fault \<noteq> No_Fault then (Inl OSError, st)
                 else (Inr \<lparr>pf_path = relative, pf_moved = True\<rparr>,
                       (drop_tmp (vu_tmp up) st)\<lparr>st_files := st_files st @ [(relative, \<lparr>fo_bytes = content, fo_mtime = now\<rparr>)]\<rparr>)))"

text \<open>
  \<open>publish\<close>: the worker thread always completes. A cancellation that arrives meanwhile is raised
  afterwards, carrying the published file when there is one.
\<close>

definition publish ::
    "bool \<Rightarrow> os_fault \<Rightarrow> bool \<Rightarrow> int \<Rightarrow> validated_upload \<Rightarrow> store \<Rightarrow> published_file res \<times> store" where
  "publish cancelled fault unlink_fails now up st =
     (case publish_sync fault unlink_fails now up st of
        (Inl e, st1) \<Rightarrow> (Inl (if cancelled then CancelledError else e), st1)
      | (Inr p, st1) \<Rightarrow>
          ((if cancelled then Inl (PublishCancelled (pf_path p) (pf_moved p)) else Inr p), st1))"

section \<open>Path resolution and orphans\<close>

definition STORAGE_PATH_PATTERN :: "ustr \<Rightarrow> bool" where
  "STORAGE_PATH_PATTERN s \<longleftrightarrow>
     (case split_on 47 s of
        [a, b, c] \<Rightarrow> hex_text 2 a \<and> hex_text 2 b \<and> length c = 68 \<and> hex_text 64 (take 64 c) \<and> drop 64 c = u ''.pdf''
      | _ \<Rightarrow> False)"

text \<open>
  A path is the list of its components; \<open>resolve\<close> is the operating system's \<open>Path.resolve\<close>, which
  follows symbolic links.
\<close>

definition resolve_formal_path :: "(ustr list \<Rightarrow> ustr list) \<Rightarrow> ustr list \<Rightarrow> ustr \<Rightarrow> ustr list res" where
  "resolve_formal_path resolve files_root storage_path =
     (if \<not> STORAGE_PATH_PATTERN storage_path then Inl (RuntimeError ''Unsafe storage path'')
      else
        let root = resolve files_root;
            resolved = resolve (root @ split_on 47 storage_path)
        in if \<not> prefix root resolved then Inl (RuntimeError ''Storage path escaped the configured root'')
           else Inr resolved)"

definition find_orphans :: "ustr list \<Rightarrow> store \<Rightarrow> orphan_file list" where
  "find_orphans referenced_paths st =
     map (\<lambda>(p, f). \<lparr>or_path = p, or_size = int (length (fo_bytes f)), or_mtime = fo_mtime f\<rparr>)
       (filter (\<lambda>(p, f). p \<notin> set referenced_paths)
          (sort_key (\<lambda>(p, f). split_on 47 p) (filter (\<lambda>(p, f). ends_with (u ''.pdf'') p) (st_files st))))"

section \<open>Lemmas on paths\<close>

lemma split_on_no_occurrence: "c \<notin> set xs \<Longrightarrow> split_on c xs = [xs]"
  by (induction xs) auto

lemma split_on_sep: "c \<notin> set xs \<Longrightarrow> split_on c (xs @ c # ys) = xs # split_on c ys"
  by (induction xs) auto

lemma hex_no_sep: "list_all is_hex s \<Longrightarrow> 47 \<notin> set s"
  by (auto simp: list_all_iff is_hex_def is_digit_def)

lemma relative_path_split:
  assumes "relative_path_for_hash h = Inr p"
  shows "split_on 47 p = [take 2 h, take 2 (drop 2 h), h @ u ''.pdf'']" and "hex_text 64 h"
proof -
  from assms have h: "hex_text 64 h" and p: "p = take 2 h @ 47 # take 2 (drop 2 h) @ 47 # (h @ u ''.pdf'')"
    by (auto simp: relative_path_for_hash_def split: if_splits)
  from h have n: "47 \<notin> set h" by (auto simp: hex_text_def dest: hex_no_sep)
  then have "47 \<notin> set (take 2 h)" "47 \<notin> set (take 2 (drop 2 h))" "47 \<notin> set (h @ u ''.pdf'')"
    by (auto dest: in_set_takeD in_set_dropD)
  with p show "split_on 47 p = [take 2 h, take 2 (drop 2 h), h @ u ''.pdf'']"
    by (simp add: split_on_sep split_on_no_occurrence)
  show "hex_text 64 h" by (rule h)
qed

lemma relative_path_pattern:
  assumes "relative_path_for_hash h = Inr p"
  shows "STORAGE_PATH_PATTERN p"
  using relative_path_split [OF assms]
  by (auto simp: STORAGE_PATH_PATTERN_def hex_text_def list_all_iff dest: in_set_takeD in_set_dropD)

lemma relative_path_inject:
  "relative_path_for_hash h = Inr p \<Longrightarrow> relative_path_for_hash h' = Inr p \<Longrightarrow> h = h'"
  using relative_path_split(1) [of h p] relative_path_split(1) [of h' p] by simp

lemma pattern_components:
  assumes "STORAGE_PATH_PATTERN p" "c \<in> set (split_on 47 p)"
  shows "c \<noteq> []" and "c \<noteq> u ''.''" and "c \<noteq> u ''..''" and "47 \<notin> set c"
  using assms split_on_no_sep [OF assms(2)]
  by (auto simp: STORAGE_PATH_PATTERN_def hex_text_def is_hex_def is_digit_def split: list.splits)

section \<open>Lemmas on publication\<close>

text \<open>
  The formal directory is content-addressed: every file stands at the path derived from the digest
  of its bytes.
\<close>

definition store_inv :: "(octets \<Rightarrow> ustr) \<Rightarrow> store \<Rightarrow> bool" where
  "store_inv digest st \<longleftrightarrow>
     distinct (map fst (st_files st))
     \<and> list_all (\<lambda>(p, f). relative_path_for_hash (digest (fo_bytes f)) = Inr p) (st_files st)"

text \<open>No formal file disappears or changes.\<close>

definition files_kept :: "store \<Rightarrow> store \<Rightarrow> bool" where
  "files_kept st st' \<longleftrightarrow> (\<forall>p f. map_of (st_files st) p = Some f \<longrightarrow> map_of (st_files st') p = Some f)"

text \<open>The upload describes the temporary file it names.\<close>

definition upload_ok :: "(octets \<Rightarrow> ustr) \<Rightarrow> validated_upload \<Rightarrow> store \<Rightarrow> bool" where
  "upload_ok digest up st \<longleftrightarrow>
     (case map_of (st_tmp st) (vu_tmp up) of
        None \<Rightarrow> False
      | Some content \<Rightarrow> vu_sha up = digest content \<and> vu_size up = int (length content))"

lemma st_files_drop_tmp [simp]: "st_files (drop_tmp t st) = st_files st"
  by (simp add: drop_tmp_def)

lemma st_files_discard [simp]: "st_files (discard b up st) = st_files st"
  by (simp add: discard_def)

lemma files_kept_refl [simp]: "files_kept st st"
  by (simp add: files_kept_def)

lemma files_kept_trans: "files_kept a b \<Longrightarrow> files_kept b c \<Longrightarrow> files_kept a c"
  by (simp add: files_kept_def)

lemma publish_sync_cases:
  assumes "publish_sync fault uf now up st = (r, st')"
  obtains (failed) e where "r = Inl e" "st' = st"
  | (present) p f where "relative_path_for_hash (vu_sha up) = Inr p" "map_of (st_files st) p = Some f"
      "r = Inr \<lparr>pf_path = p, pf_moved = False\<rparr>" "st' = discard uf up st"
  | (moved) p content where "relative_path_for_hash (vu_sha up) = Inr p" "map_of (st_files st) p = None"
      "map_of (st_tmp st) (vu_tmp up) = Some content" "r = Inr \<lparr>pf_path = p, pf_moved = True\<rparr>"
      "st' = (drop_tmp (vu_tmp up) st)\<lparr>st_files := st_files st @ [(p, \<lparr>fo_bytes = content, fo_mtime = now\<rparr>)]\<rparr>"
proof (cases "relative_path_for_hash (vu_sha up)")
  case (Inl e)
  with assms show thesis by (intro failed [of e]) (simp_all add: publish_sync_def)
next
  case (Inr p)
  show thesis
  proof (cases "fault = Mkdir_Fails")
    case True
    with Inr assms show thesis by (intro failed [of OSError]) (simp_all add: publish_sync_def)
  next
    case mk: False
    show thesis
    proof (cases "map_of (st_files st) p")
      case (Some f)
      with Inr mk assms show thesis by (intro present [of p f]) (simp_all add: publish_sync_def)
    next
      case None
      show thesis
      proof (cases "map_of (st_tmp st) (vu_tmp up) = None \<or> fault \<noteq> No_Fault")
        case True
        with Inr mk None assms show thesis
          by (intro failed [of OSError]) (auto simp: publish_sync_def split: option.splits)
      next
        case False
        then obtain content where "map_of (st_tmp st) (vu_tmp up) = Some content" "fault = No_Fault" by auto
        with Inr None assms show thesis by (intro moved [of p content]) (simp_all add: publish_sync_def)
      qed
    qed
  qed
qed

lemma map_of_append_kept: "map_of xs k = Some v \<Longrightarrow> map_of (xs @ ys) k = Some v"
  by (simp add: map_add_def)

lemma publish_sync_kept: "publish_sync fault uf now up st = (r, st') \<Longrightarrow> files_kept st st'"
  by (erule publish_sync_cases) (auto simp: files_kept_def map_add_def)

lemma publish_sync_inv:
  assumes "publish_sync fault uf now up st = (r, st')" "store_inv digest st" "upload_ok digest up st"
  shows "store_inv digest st'"
  using assms(1)
proof (cases rule: publish_sync_cases)
  case (moved p content)
  with assms(2,3) show ?thesis
    by (simp add: store_inv_def upload_ok_def map_of_eq_None_iff)
qed (use assms(2) in \<open>auto simp: store_inv_def\<close>)

text \<open>After a publication that succeeded, the path holds a file with the uploaded digest.\<close>

lemma publish_sync_present:
  assumes "publish_sync fault uf now up st = (Inr pf, st')" "store_inv digest st" "upload_ok digest up st"
  shows "relative_path_for_hash (vu_sha up) = Inr (pf_path pf)"
    and "\<exists>f. map_of (st_files st') (pf_path pf) = Some f \<and> digest (fo_bytes f) = vu_sha up"
proof -
  have "relative_path_for_hash (vu_sha up) = Inr (pf_path pf)
      \<and> (\<exists>f. map_of (st_files st') (pf_path pf) = Some f \<and> digest (fo_bytes f) = vu_sha up)"
    using assms(1)
  proof (cases rule: publish_sync_cases)
    case (present p f)
    then have "(p, f) \<in> set (st_files st)" by (auto dest: map_of_SomeD)
    with assms(2) have "relative_path_for_hash (digest (fo_bytes f)) = Inr p"
      by (auto simp: store_inv_def list_all_iff)
    with present show ?thesis by (auto dest: relative_path_inject)
  next
    case (moved p content)
    with assms(3) show ?thesis by (auto simp: upload_ok_def map_add_def)
  qed simp
  then show "relative_path_for_hash (vu_sha up) = Inr (pf_path pf)"
    and "\<exists>f. map_of (st_files st') (pf_path pf) = Some f \<and> digest (fo_bytes f) = vu_sha up" by auto
qed

text \<open>No stored file has the digest of the upload and another size.\<close>

definition no_collision :: "validated_upload \<Rightarrow> (octets \<Rightarrow> ustr) \<Rightarrow> store \<Rightarrow> bool" where
  "no_collision vu digest st \<longleftrightarrow>
     list_all (\<lambda>(p, f). digest (fo_bytes f) = vu_sha vu \<longrightarrow> int (length (fo_bytes f)) = vu_size vu) (st_files st)"

lemma publish_sync_size:
  assumes "publish_sync fault uf now up st = (Inr pf, st')" "store_inv digest st" "upload_ok digest up st"
    "no_collision up digest st" "map_of (st_files st') (pf_path pf) = Some f"
  shows "int (length (fo_bytes f)) = vu_size up"
  using assms(1)
proof (cases rule: publish_sync_cases)
  case (present p g)
  with assms(5) have "g = f" "(p, f) \<in> set (st_files st)" by (auto dest: map_of_SomeD)
  moreover from this assms(2) present have "digest (fo_bytes f) = vu_sha up"
    by (auto simp: store_inv_def list_all_iff dest: relative_path_inject)
  ultimately show ?thesis using assms(4) by (auto simp: no_collision_def list_all_iff)
next
  case (moved p content)
  with assms(3,5) show ?thesis by (auto simp: upload_ok_def map_add_def)
qed simp

lemma publish_size:
  "publish c fault uf now up st = (Inr pf, st') \<Longrightarrow> store_inv digest st \<Longrightarrow> upload_ok digest up st \<Longrightarrow>
   no_collision up digest st \<Longrightarrow> map_of (st_files st') (pf_path pf) = Some f \<Longrightarrow> int (length (fo_bytes f)) = vu_size up"
  by (auto simp: publish_def split: prod.splits sum.splits if_splits dest: publish_sync_size)

lemma publish_kept: "publish c fault uf now up st = (r, st') \<Longrightarrow> files_kept st st'"
  by (auto simp: publish_def split: prod.splits sum.splits dest: publish_sync_kept)

lemma publish_inv:
  "publish c fault uf now up st = (r, st') \<Longrightarrow> store_inv digest st \<Longrightarrow> upload_ok digest up st \<Longrightarrow> store_inv digest st'"
  by (auto simp: publish_def split: prod.splits sum.splits dest: publish_sync_inv)

lemma publish_present:
  assumes "publish c fault uf now up st = (Inr pf, st')" "store_inv digest st" "upload_ok digest up st"
  shows "relative_path_for_hash (vu_sha up) = Inr (pf_path pf)"
    and "\<exists>f. map_of (st_files st') (pf_path pf) = Some f \<and> digest (fo_bytes f) = vu_sha up"
  using assms publish_sync_present
  by (auto simp: publish_def split: prod.splits sum.splits if_splits)

section \<open>Lemmas on receiving\<close>

lemma receive_chunks_spec:
  "int (length acc) \<le> m \<Longrightarrow> receive_chunks m acc cs =
     (let body = acc @ concat (takeWhile (\<lambda>c. c \<noteq> []) cs)
      in if int (length body) \<le> m then Inr body else Inl (UploadRejected ''pdf_too_large'' ''size'' 413))"
proof (induction cs arbitrary: acc)
  case (Cons c cs)
  show ?case
  proof (cases "c = []")
    case False
    then show ?thesis
      using Cons.IH [of "acc @ c"] by (auto simp: Let_def)
  qed (use Cons.prems in simp)
qed simp

lemma receive_files [simp]: "st_files (snd (receive_and_validate digest m t fn ct cs io w st)) = st_files st"
  by (simp add: receive_and_validate_def Let_def split: sum.split option.split unit.split)

text \<open>The storage service as a sequence of operations, each with its arguments.\<close>

datatype storage_op =
    Receive nat "ustr option" "ustr option" "octets list" "exc option" worker_outcome
  | Publish bool os_fault bool int validated_upload
  | Discard bool validated_upload

fun storage_step :: "(octets \<Rightarrow> ustr) \<Rightarrow> int \<Rightarrow> storage_op \<Rightarrow> store \<Rightarrow> store" where
  "storage_step digest m (Receive t fn ct cs io w) st = snd (receive_and_validate digest m t fn ct cs io w st)"
| "storage_step digest m (Publish c fault uf now up) st =
     (if upload_ok digest up st then snd (publish c fault uf now up st) else st)"
| "storage_step digest m (Discard uf up) st = discard uf up st"

lemma storage_step_inv: "store_inv digest st \<Longrightarrow> store_inv digest (storage_step digest m x st)"
proof (cases x)
  case (Publish c fault uf now up)
  assume "store_inv digest st"
  with Publish show ?thesis
    using publish_inv [of c fault uf now up st "fst (publish c fault uf now up st)"] by simp
qed (simp_all add: store_inv_def)

lemma storage_step_kept: "files_kept st (storage_step digest m x st)"
proof (cases x)
  case (Publish c fault uf now up)
  then show ?thesis
    using publish_kept [of c fault uf now up st "fst (publish c fault uf now up st)"] by simp
qed (simp_all add: files_kept_def)

interpretation content_store: evolving "storage_step digest m" "store_inv digest" files_kept
  for digest m
  by unfold_locales (auto intro: files_kept_trans storage_step_inv storage_step_kept)

lemma receive_failed:
  "receive_and_validate digest m t fn ct cs io w st = (Inl e, st') \<Longrightarrow>
     st' = drop_tmp t (st\<lparr>st_tmp := st_tmp st @ [(t, [])]\<rparr>)"
  by (simp add: receive_and_validate_def Let_def split: sum.splits option.splits unit.splits)

lemma receive_accepted:
  assumes "receive_and_validate digest m t fn ct cs io w st = (Inr up, st')"
  obtains content where "receive_chunks m [] cs = Inr content" "io = None"
    "validate_metadata (case fn of Some f \<Rightarrow> f | None \<Rightarrow> []) ct = Inr ()"
    "validate_pdf_content content (int (length content)) w = Inr ()"
    "up = \<lparr>vu_tmp = t, vu_filename = (case fn of Some f \<Rightarrow> f | None \<Rightarrow> []), vu_size = int (length content),
           vu_sha = digest content\<rparr>"
    "st' = st\<lparr>st_tmp := st_tmp st @ [(t, content)]\<rparr>"
  using assms that
  by (simp add: receive_and_validate_def Let_def split: sum.splits option.splits unit.splits)

lemma validate_pdf_content_ok:
  "validate_pdf_content content sz w = Inr () \<Longrightarrow>
     sz \<noteq> 0 \<and> take 5 content = PDF_MAGIC \<and> (\<exists>exitcode. w = Ended (Some Valid) exitcode)"
proof -
  have "length PDF_MAGIC = 5" by (simp add: PDF_MAGIC_def)
  then show "validate_pdf_content content sz w = Inr () \<Longrightarrow> ?thesis"
    by (auto simp: validate_pdf_content_def judge_worker_def split: if_splits worker_outcome.splits)
qed

lemma validate_metadata_ok:
  "validate_metadata fn ct = Inr () \<Longrightarrow> ascii_lower (path_suffix fn) = u ''.pdf''"
  by (simp add: validate_metadata_def split: if_splits)

section \<open>Properties\<close>

text \<open>
  Receiving an upload either fails and leaves no temporary file behind, or yields an upload whose
  size and digest are those of the bytes in its temporary file: at most the limit, not empty, with
  the PDF signature, a \<open>.pdf\<close> name and a worker that reported a valid structure. The formal files
  are untouched either way.
\<close>

theorem receive_sound:
  assumes "t \<notin> fst ` set (st_tmp st)" and "0 \<le> m"
  shows "case receive_and_validate digest m t fn ct cs io w st of
     (Inl e, st') \<Rightarrow> st' = st
   | (Inr up, st') \<Rightarrow> \<exists>content.
        content = concat (takeWhile (\<lambda>c. c \<noteq> []) cs) \<and> map_of (st_tmp st') (vu_tmp up) = Some content
        \<and> vu_size up = int (length content) \<and> vu_sha up = digest content
        \<and> 0 < vu_size up \<and> vu_size up \<le> m \<and> take 5 content = PDF_MAGIC
        \<and> ascii_lower (path_suffix (vu_filename up)) = u ''.pdf''
        \<and> (\<exists>exitcode. w = Ended (Some Valid) exitcode) \<and> st_files st' = st_files st"
proof (cases "receive_and_validate digest m t fn ct cs io w st")
  case (Pair r st')
  show ?thesis
  proof (cases r)
    case (Inl e)
    have "filter (\<lambda>x. fst x \<noteq> t) (st_tmp st) = st_tmp st"
      using assms(1) by (auto simp: filter_id_conv)
    with receive_failed [of digest m t fn ct cs io w st e st'] Inl Pair show ?thesis by (simp add: drop_tmp_def)
  next
    case (Inr up)
    with Pair have "receive_and_validate digest m t fn ct cs io w st = (Inr up, st')" by simp
    then obtain content where c: "receive_chunks m [] cs = Inr content"
      "validate_metadata (case fn of Some f \<Rightarrow> f | None \<Rightarrow> []) ct = Inr ()"
      "validate_pdf_content content (int (length content)) w = Inr ()"
      "up = \<lparr>vu_tmp = t, vu_filename = (case fn of Some f \<Rightarrow> f | None \<Rightarrow> []), vu_size = int (length content),
             vu_sha = digest content\<rparr>"
      "st' = st\<lparr>st_tmp := st_tmp st @ [(t, content)]\<rparr>"
      by (rule receive_accepted)
    have e: "content = concat (takeWhile (\<lambda>c. c \<noteq> []) cs)" and l: "int (length content) \<le> m"
      using c(1) receive_chunks_spec [of "[]" m cs] assms(2) by (auto simp: Let_def split: if_splits)
    have "map_of (st_tmp st') t = Some content"
      using assms(1) c(5) by (simp add: map_add_def map_of_eq_None_iff [THEN iffD2])
    moreover have "0 < int (length content)" using validate_pdf_content_ok [OF c(3)] by simp
    ultimately have "\<exists>x. x = concat (takeWhile (\<lambda>c. c \<noteq> []) cs) \<and> map_of (st_tmp st') (vu_tmp up) = Some x
        \<and> vu_size up = int (length x) \<and> vu_sha up = digest x
        \<and> 0 < vu_size up \<and> vu_size up \<le> m \<and> take 5 x = PDF_MAGIC
        \<and> ascii_lower (path_suffix (vu_filename up)) = u ''.pdf''
        \<and> (\<exists>exitcode. w = Ended (Some Valid) exitcode) \<and> st_files st' = st_files st"
      using e l c(4,5) validate_pdf_content_ok [OF c(3)] validate_metadata_ok [OF c(2)]
      by (intro exI [of _ content]) simp
    with Pair Inr show ?thesis by (simp only: prod.case sum.case)
  qed
qed

theorem receive_sound_witness:
  "case receive_and_validate (\<lambda>_. []) 10 0 (Some (u ''a.pdf'')) (Some (u ''application/pdf'')) [PDF_MAGIC]
      None (Ended (Some Valid) (Some 0)) \<lparr>st_tmp = [], st_files = []\<rparr> of
     (Inl e, st') \<Rightarrow> st' = \<lparr>st_tmp = [], st_files = []\<rparr>
   | (Inr up, st') \<Rightarrow> \<exists>content.
        content = concat (takeWhile (\<lambda>c. c \<noteq> []) [PDF_MAGIC]) \<and> map_of (st_tmp st') (vu_tmp up) = Some content
        \<and> vu_size up = int (length content) \<and> vu_sha up = []
        \<and> 0 < vu_size up \<and> vu_size up \<le> 10 \<and> take 5 content = PDF_MAGIC
        \<and> ascii_lower (path_suffix (vu_filename up)) = u ''.pdf''
        \<and> (\<exists>exitcode. Ended (Some Valid) (Some 0) = Ended (Some Valid) exitcode)
        \<and> st_files st' = st_files \<lparr>st_tmp = [], st_files = []\<rparr>"
  by (rule receive_sound) simp_all



text \<open>
  A storage path is derived from a valid SHA-256 text only; it has the two-level form of the
  digest, is accepted by the resolver's pattern, has no empty, dot or dot-dot component, and without
  symbolic links resolves to itself below the root.
\<close>

theorem storage_path_roundtrip:
  "case relative_path_for_hash h of
     Inl e \<Rightarrow> \<not> hex_text 64 h \<and> e = ValueError ''Invalid SHA-256 digest''
   | Inr p \<Rightarrow> hex_text 64 h \<and> split_on 47 p = [take 2 h, take 2 (drop 2 h), h @ u ''.pdf'']
       \<and> [] \<notin> set (split_on 47 p) \<and> u ''.'' \<notin> set (split_on 47 p) \<and> u ''..'' \<notin> set (split_on 47 p)
       \<and> resolve_formal_path id root p = Inr (root @ split_on 47 p)"
proof (cases "relative_path_for_hash h")
  case (Inl e)
  then show ?thesis by (auto simp: relative_path_for_hash_def split: if_splits)
next
  case (Inr p)
  from relative_path_pattern [OF Inr] have pat: "STORAGE_PATH_PATTERN p" .
  from pattern_components [OF pat] have "[] \<notin> set (split_on 47 p)" "u ''.'' \<notin> set (split_on 47 p)"
    "u ''..'' \<notin> set (split_on 47 p)" by blast+
  with Inr pat relative_path_split [OF Inr] show ?thesis
    by (simp add: resolve_formal_path_def)
qed

text \<open>
  The orphan report lists exactly the formal PDF files that no given reference names, in path
  order.
\<close>

theorem orphans_exact:
  "or_path ` set (find_orphans refs st) = {p \<in> fst ` set (st_files st). ends_with (u ''.pdf'') p \<and> p \<notin> set refs}
   \<and> sorted (map (\<lambda>r. split_on 47 (or_path r)) (find_orphans refs st))"
proof
  show "or_path ` set (find_orphans refs st) = {p \<in> fst ` set (st_files st). ends_with (u ''.pdf'') p \<and> p \<notin> set refs}"
    by (force simp: find_orphans_def image_iff)
  let ?k = "\<lambda>(p, f :: file_obj). split_on 47 p"
  have "sorted (map ?k (filter (\<lambda>(p, f). p \<notin> set refs) (sort_key ?k (filter (\<lambda>(p, f). ends_with (u ''.pdf'') p) (st_files st)))))"
    by (rule sorted_filter) simp
  moreover have "map (\<lambda>r. split_on 47 (or_path r)) (find_orphans refs st) =
      map ?k (filter (\<lambda>(p, f). p \<notin> set refs) (sort_key ?k (filter (\<lambda>(p, f). ends_with (u ''.pdf'') p) (st_files st))))"
    by (auto simp: find_orphans_def)
  ultimately show "sorted (map (\<lambda>r. split_on 47 (or_path r)) (find_orphans refs st))" by (simp only:)
qed

end
