(* ===== verification/Version_Service.thy ===== *)
theory Version_Service
  imports Product_Service Storage_Service
begin

text \<open>
  \<open>domains/version/service.py\<close>: the serialized PDF upload with its failure paths, the restore of an
  older version, and the history. The world is the database and the file store: a rollback restores
  the first, never the second.

  The row lock of the product makes one upload of a product run at a time, so the model runs it as
  one step; what may go wrong inside it is explicit. \<open>faults p\<close> is the exception, if any, that the
  awaited call at point \<open>p\<close> raises (a database error, a cancellation); the publication has its own
  faults; \<open>up\<close> says whether the independent audit connection works.
\<close>

section \<open>State\<close>

record world =
  w_db :: db
  w_store :: store

record pdf_version =
  pv_id :: int
  pv_product :: int
  pv_no :: int
  pv_file :: int
  pv_sha :: ustr
  pv_size :: int
  pv_path :: ustr
  pv_filename :: ustr

record restored_version =
  rv_product :: int
  rv_version :: int
  rv_no :: int

record history_item =
  hi_version :: v_row
  hi_username :: ustr
  hi_current :: bool

datatype upload_point =
    At_Product | At_Actor | At_Current | At_Number | At_File | At_File_Select | At_Version | At_Pointer
  | At_Audit | At_Commit

section \<open>Queries\<close>

text \<open>The join of a version with its file.\<close>

definition current_file :: "int \<Rightarrow> int \<Rightarrow> db \<Rightarrow> f_row option" where
  "current_file pid vid d =
     (case select_version pid vid d of None \<Rightarrow> None | Some v \<Rightarrow> select_file (v_file v) d)"

text \<open>\<open>SELECT COALESCE(MAX(version_no), 0) + 1 ... WHERE product_id = %s\<close>.\<close>

definition next_version_no :: "int \<Rightarrow> db \<Rightarrow> int" where
  "next_version_no pid d =
     (case map v_no (filter (\<lambda>v. v_product v = pid) (t_versions (tabs d))) of
        [] \<Rightarrow> 0
      | n # ns \<Rightarrow> fold max ns n) + 1"

section \<open>Upload\<close>

definition inject :: "(upload_point \<Rightarrow> exc option) \<Rightarrow> upload_point \<Rightarrow> db \<Rightarrow> unit res \<times> db" where
  "inject faults p d = (case faults p of Some e \<Rightarrow> (Inl e, d) | None \<Rightarrow> (Inr (), d))"

text \<open>\<open>product_code\<close>, assigned once the locked row is known.\<close>

definition locked_code :: "(upload_point \<Rightarrow> exc option) \<Rightarrow> int \<Rightarrow> db \<Rightarrow> ustr option" where
  "locked_code faults pid d =
     (case faults At_Product of Some _ \<Rightarrow> None | None \<Rightarrow> map_option p_code (select_product pid d))"

text \<open>The current version, if any, must not be the uploaded file.\<close>

definition current_check ::
    "(upload_point \<Rightarrow> exc option) \<Rightarrow> int \<Rightarrow> int option \<Rightarrow> validated_upload \<Rightarrow> db \<Rightarrow> unit res" where
  "current_check faults pid current vu d =
     (case current of
        None \<Rightarrow> Inr ()
      | Some vid \<Rightarrow>
          (case faults At_Current of Some e \<Rightarrow> Inl e | None \<Rightarrow>
           (case current_file pid vid d of
              None \<Rightarrow> Inl (RuntimeError ''Current version pointer cannot be resolved'')
            | Some f \<Rightarrow>
                if f_size f = vu_size vu \<and> f_sha f = vu_sha vu then Inl (AppError ''duplicate_current_pdf'' 409)
                else Inr ())))"

text \<open>The reads before the publication: lock, actor, current file, next number.\<close>

definition upload_check :: "(upload_point \<Rightarrow> exc option) \<Rightarrow> int \<Rightarrow> int \<Rightarrow> validated_upload \<Rightarrow> db \<Rightarrow> (ustr \<times> int) res" where
  "upload_check faults pid actor vu d =
     (case faults At_Product of Some e \<Rightarrow> Inl e | None \<Rightarrow>
      (case select_product pid d of
         None \<Rightarrow> Inl (AppError ''product_not_found'' 404)
       | Some prow \<Rightarrow>
      (case faults At_Actor of Some e \<Rightarrow> Inl e | None \<Rightarrow>
       if select_admin actor d = None then Inl (AppError ''upload_actor_not_found'' 422)
       else
      (case current_check faults pid (p_current prow) vu d of
         Inl e \<Rightarrow> Inl e
       | Inr _ \<Rightarrow>
           (case faults At_Number of Some e \<Rightarrow> Inl e | None \<Rightarrow> Inr (p_code prow, next_version_no pid d))))))"

text \<open>The content-addressed file row: inserted, or the one that is there when it agrees.\<close>

definition file_row ::
    "(upload_point \<Rightarrow> exc option) \<Rightarrow> int \<Rightarrow> validated_upload \<Rightarrow> published_file \<Rightarrow> db \<Rightarrow> int res \<times> db" where
  "file_row faults now vu pf =
     dbind (inject faults At_File) (\<lambda>_.
     dbind (\<lambda>d. case insert_file now (vu_sha vu) (vu_size vu) (pf_path pf) d of (r, d1) \<Rightarrow> (Inr r, d1)) (\<lambda>r.
     dbind (case r of
              Some f \<Rightarrow> Pair (Inr (Some f))
            | None \<Rightarrow> dbind (inject faults At_File_Select) (\<lambda>_ d. (Inr (select_file_by_sha (vu_sha vu) d), d))) (\<lambda>fr.
     case fr of
       None \<Rightarrow> Pair (Inl (RuntimeError ''Content-addressed file row cannot be resolved''))
     | Some f \<Rightarrow>
         if f_size f \<noteq> vu_size vu \<or> f_path f \<noteq> pf_path pf
           then Pair (Inl (RuntimeError ''Content-addressed file metadata conflict''))
         else Pair (Inr (f_id f)))))"

text \<open>The writes after the publication, up to the commit.\<close>

definition upload_record ::
    "(upload_point \<Rightarrow> exc option) \<Rightarrow> int \<Rightarrow> int \<Rightarrow> int \<Rightarrow> validated_upload \<Rightarrow> nat option \<Rightarrow> ustr \<Rightarrow> int
     \<Rightarrow> published_file \<Rightarrow> db \<Rightarrow> pdf_version res \<times> db" where
  "upload_record faults now pid actor vu req code no pf =
     dbind (file_row faults now vu pf) (\<lambda>fid.
     dbind (inject faults At_Version) (\<lambda>_.
     dbind (insert_version now pid fid no (vu_filename vu) actor) (\<lambda>v.
     dbind (inject faults At_Pointer) (\<lambda>_.
     dbind (update_product pid (\<lambda>p. p\<lparr>p_current := Some (v_id v), p_updated := now\<rparr>)) (\<lambda>_.
     dbind (inject faults At_Audit) (\<lambda>_.
     dbind (append_event now
        (admin_event ''pdf_upload'' actor ''version'' (v_id v) (Some code) req
           (Some [(''version_no'', DInt no), (''sha256'', DStr (vu_sha vu)), (''size_bytes'', DInt (vu_size vu))]))) (\<lambda>_.
     dbind (inject faults At_Commit) (\<lambda>_.
     Pair (Inr \<lparr>pv_id = v_id v, pv_product = pid, pv_no = no, pv_file = fid, pv_sha = vu_sha vu,
                pv_size = vu_size vu, pv_path = pf_path pf, pv_filename = vu_filename vu\<rparr>)))))))))"

text \<open>The transaction block, with what the handlers see of it: \<open>published\<close> and \<open>product_code\<close>.\<close>

record publish_env =
  pe_cancelled :: bool
  pe_fault :: os_fault
  pe_unlink_fails :: bool

definition upload_block ::
    "(upload_point \<Rightarrow> exc option) \<Rightarrow> publish_env \<Rightarrow> int \<Rightarrow> int \<Rightarrow> int \<Rightarrow> validated_upload \<Rightarrow> nat option \<Rightarrow> world
     \<Rightarrow> pdf_version res \<times> published_file option \<times> ustr option \<times> world" where
  "upload_block faults pe now pid actor vu req w =
     (let code = locked_code faults pid (w_db w)
      in case upload_check faults pid actor vu (w_db w) of
           Inl e \<Rightarrow> (Inl e, None, code, w)
         | Inr (product_code, no) \<Rightarrow>
             (case publish (pe_cancelled pe) (pe_fault pe) (pe_unlink_fails pe) now vu (w_store w) of
                (Inl e, st) \<Rightarrow> (Inl e, None, code, w\<lparr>w_store := st\<rparr>)
              | (Inr pf, st) \<Rightarrow>
                  (case transaction (upload_record faults now pid actor vu req product_code no pf) (w_db w) of
                     (r, d') \<Rightarrow> (r, Some pf, code, \<lparr>w_db = d', w_store = st\<rparr>))))"

definition upload_rejection_event ::
    "int \<Rightarrow> int \<Rightarrow> ustr option \<Rightarrow> nat option \<Rightarrow> string \<Rightarrow> ustr \<Rightarrow> published_file option \<Rightarrow> audit_event" where
  "upload_rejection_event pid actor code req reason sha256 published =
     (admin_event ''pdf_upload_rejected'' actor ''product'' pid code req
        (Some ([(''reason'', DStr (u reason)), (''stage'', DStr (u ''locked_transaction'')), (''sha256'', DStr sha256)]
               @ (case published of
                    Some pf \<Rightarrow> if pf_moved pf then [(''moved_file_sha256'', DStr sha256)] else []
                  | None \<Rightarrow> []))))\<lparr>ev_result := Failure\<rparr>"

definition upload_pdf ::
    "(upload_point \<Rightarrow> exc option) \<Rightarrow> publish_env \<Rightarrow> bool \<Rightarrow> int \<Rightarrow> int \<Rightarrow> int \<Rightarrow> validated_upload \<Rightarrow> nat option
     \<Rightarrow> world \<Rightarrow> pdf_version res \<times> world" where
  "upload_pdf faults pe up now pid actor vu req w =
     (case upload_block faults pe now pid actor vu req w of
        (r, published, product_code, w1) \<Rightarrow>
          let finish = (\<lambda>w2. w2\<lparr>w_store := discard (pe_unlink_fails pe) vu (w_store w2)\<rparr>);
              reject = (\<lambda>reason pub.
                w1\<lparr>w_db := snd (append_independent_event up now
                     (upload_rejection_event pid actor product_code req reason (vu_sha vu) pub) (w_db w1))\<rparr>)
          in case r of
               Inr v \<Rightarrow> (Inr v, finish w1)
             | Inl e \<Rightarrow>
                 if is_cancel e then
                   (Inl e, finish (reject ''upload_cancelled''
                      (case e of PublishCancelled path moved \<Rightarrow> Some \<lparr>pf_path = path, pf_moved = moved\<rparr> | _ \<Rightarrow> published)))
                 else
                   (case app_error_code e of
                      Some c \<Rightarrow> (Inl e, finish (reject c published))
                    | None \<Rightarrow> (Inl (AppError ''pdf_upload_failed'' 500), finish (reject ''upload_transaction_failed'' published))))"

definition record_upload_rejection ::
    "bool \<Rightarrow> int \<Rightarrow> int \<Rightarrow> int \<Rightarrow> string \<Rightarrow> string \<Rightarrow> nat option \<Rightarrow> db \<Rightarrow> bool \<times> db" where
  "record_upload_rejection up now pid actor reason stage req =
     append_independent_event up now
       ((admin_event ''pdf_upload_rejected'' actor ''product'' pid None req
          (Some [(''reason'', DStr (u reason)), (''stage'', DStr (u stage))]))\<lparr>ev_result := Failure\<rparr>)"

section \<open>Restore and history\<close>

definition restore_pdf_version :: "int \<Rightarrow> int \<Rightarrow> int \<Rightarrow> int \<Rightarrow> nat option \<Rightarrow> db \<Rightarrow> restored_version res \<times> db" where
  "restore_pdf_version now pid vid actor req =
     transaction (\<lambda>d.
       case select_product pid d of
         None \<Rightarrow> (Inl (AppError ''product_not_found'' 404), d)
       | Some prow \<Rightarrow>
           (case select_version pid vid d of
              None \<Rightarrow> (Inl (AppError ''version_not_found_for_product'' 404), d)
            | Some target \<Rightarrow>
                (case (case p_current prow of None \<Rightarrow> None | Some cid \<Rightarrow> select_version pid cid d) of
                   None \<Rightarrow> (Inl (RuntimeError ''Current version pointer cannot be resolved''), d)
                 | Some cur \<Rightarrow>
                     dbind (update_product pid (\<lambda>p. p\<lparr>p_current := Some vid, p_updated := now\<rparr>)) (\<lambda>_.
                     dbind (append_event now
                        (admin_event ''version_restore'' actor ''version'' vid (Some (p_code prow)) req
                           (Some [(''from_version_no'', DInt (v_no cur)), (''to_version_no'', DInt (v_no target))]))) (\<lambda>_.
                     Pair (Inr \<lparr>rv_product = pid, rv_version = vid, rv_no = v_no target\<rparr>))) d)))"

text \<open>\<open>JOIN\<close>s drop a version whose product or uploader is missing; \<open>ORDER BY version_no DESC\<close>.\<close>

definition list_pdf_versions :: "int \<Rightarrow> db \<Rightarrow> history_item list res" where
  "list_pdf_versions pid d =
     (case select_product pid d of
        None \<Rightarrow> Inl (AppError ''product_not_found'' 404)
      | Some p \<Rightarrow>
          Inr (List.map_filter
            (\<lambda>v. map_option (\<lambda>a. \<lparr>hi_version = v, hi_username = a_username a, hi_current = (p_current p = Some (v_id v))\<rparr>)
                   (select_admin (v_by v) d))
            (sort_key (\<lambda>v. - v_no v) (filter (\<lambda>v. v_product v = pid) (t_versions (tabs d))))))"

section \<open>Lemmas on the steps of an upload\<close>

lemma inject_Inr [simp]: "inject faults p d = (Inr x, d') \<longleftrightarrow> faults p = None \<and> d' = d"
  by (auto simp: inject_def split: option.splits)

lemma inject_step [inv_intro]: "step_ok d (snd (inject faults p d))"
  by (auto simp: inject_def split: option.splits)

lemma fold_max_le: "n \<le> fold max ns (n :: int) \<and> (\<forall>m \<in> set ns. m \<le> fold max ns n)"
proof (induction ns arbitrary: n)
  case (Cons k ns)
  show ?case using Cons.IH [of "max k n"] by auto
qed simp

lemma fold_max_bound: "n \<le> b \<Longrightarrow> (\<And>m. m \<in> set ns \<Longrightarrow> m \<le> b) \<Longrightarrow> fold max ns (n :: int) \<le> b"
  by (induction ns arbitrary: n) auto

lemma next_version_no_above:
  assumes "v \<in> set (t_versions (tabs d))" "v_product v = pid"
  shows "v_no v < next_version_no pid d"
proof (cases "map v_no (filter (\<lambda>v. v_product v = pid) (t_versions (tabs d)))")
  case Nil
  with assms show ?thesis by (auto simp: filter_empty_conv)
next
  case (Cons n ns)
  have "v_no v \<in> set (map v_no (filter (\<lambda>v. v_product v = pid) (t_versions (tabs d))))"
    using assms by auto
  with Cons fold_max_le [of n ns] show ?thesis
    by (auto simp: next_version_no_def intro: order_trans)
qed

lemma fold_max_pos: "(\<forall>m \<in> set (n # ns). (1 :: int) \<le> m) \<Longrightarrow> 1 \<le> fold max ns n"
  using fold_max_le [of n ns] by auto

lemma next_version_no_pos: "db_inv d \<Longrightarrow> 1 \<le> next_version_no pid d"
proof -
  assume "db_inv d"
  then have pos: "\<forall>m \<in> set (map v_no (filter (\<lambda>v. v_product v = pid) (t_versions (tabs d)))). 1 \<le> m"
    by (auto simp: db_inv_def checks_ok_def list_all_iff)
  show ?thesis
  proof (cases "map v_no (filter (\<lambda>v. v_product v = pid) (t_versions (tabs d)))")
    case (Cons n ns)
    with pos fold_max_pos [of n ns] show ?thesis by (simp add: next_version_no_def)
  qed (simp add: next_version_no_def)
qed

lemma upload_check_Inr:
  assumes c: "upload_check faults pid actor vu d = Inr (code, no)"
  obtains prow where "select_product pid d = Some prow" "code = p_code prow" "no = next_version_no pid d"
    "select_admin actor d \<noteq> None" "locked_code faults pid d = Some code"
    "current_check faults pid (p_current prow) vu d = Inr ()"
proof -
  from c have f: "faults At_Product = None" by (simp add: upload_check_def split: option.splits)
  from c f obtain prow where p: "select_product pid d = Some prow"
    by (auto simp: upload_check_def split: option.splits)
  from c f p have a: "faults At_Actor = None" "select_admin actor d \<noteq> None"
    by (simp_all add: upload_check_def split: option.splits if_splits)
  from c f p a have k: "current_check faults pid (p_current prow) vu d = Inr ()"
    by (auto simp: upload_check_def split: sum.splits)
  from c f p a k have "code = p_code prow" "no = next_version_no pid d"
    by (simp_all add: upload_check_def split: option.splits)
  with f p a k that show thesis by (simp add: locked_code_def)
qed

lemma file_row_step [inv_intro]: "step_ok d (snd (file_row faults now vu pf d))"
proof -
  have "step_ok d (snd (case insert_file now (vu_sha vu) (vu_size vu) (pf_path pf) d of (r, d1) \<Rightarrow> (Inr r, d1)))" for d
    using step_insert_file [of d now "vu_sha vu" "vu_size vu" "pf_path pf"] by (auto split: prod.split)
  then show ?thesis
    unfolding file_row_def by (auto intro!: step_dbind inject_step split: option.splits)
qed

lemma upload_record_step [inv_intro]:
  "1 \<le> no \<Longrightarrow> step_ok d (snd (upload_record faults now pid actor vu req code no pf d))"
  unfolding upload_record_def
  by (intro inv_intro) (simp_all)

lemma file_row_Inr:
  assumes "file_row faults now vu pf d = (Inr fid, d')" and "db_inv d"
  obtains (there) f where "select_file_by_sha (vu_sha vu) d = Some f" "f_id f = fid" "f_size f = vu_size vu"
      "f_path f = pf_path pf" "tabs d' = tabs d"
  | (added) f where "f = \<lparr>f_id = fid, f_sha = vu_sha vu, f_size = vu_size vu, f_path = pf_path pf, f_created = now\<rparr>"
      "select_file_by_sha (vu_sha vu) d = None"
      "tabs d' = (tabs d)\<lparr>t_files := t_files (tabs d) @ [f]\<rparr>"
proof -
  obtain r d1 where i: "insert_file now (vu_sha vu) (vu_size vu) (pf_path pf) d = (r, d1)" by fastforce
  have none: "select_file_by_sha h d = None \<longleftrightarrow> h \<notin> f_sha ` set (t_files (tabs d))" for h
    by (auto simp: select_file_by_sha_def find_None_iff)
  from i show thesis
  proof (cases rule: insert_file_cases)
    case there
    then have "select_file_by_sha (vu_sha vu) d1 = select_file_by_sha (vu_sha vu) d"
      by (simp add: select_file_by_sha_def)
    with there assms i that(1) show thesis
      by (auto simp: file_row_def dbind_def split: prod.splits sum.splits option.splits if_splits)
  next
    case (added f)
    with assms i that(2) [of f] none show thesis
      by (auto simp: file_row_def dbind_def split: prod.splits sum.splits option.splits if_splits)
  qed
qed

section \<open>What a recorded upload leaves in the database\<close>

definition upload_event :: "int \<Rightarrow> ustr \<Rightarrow> nat option \<Rightarrow> pdf_version \<Rightarrow> audit_event" where
  "upload_event actor code req pv =
     admin_event ''pdf_upload'' actor ''version'' (pv_id pv) (Some code) req
       (Some [(''version_no'', DInt (pv_no pv)), (''sha256'', DStr (pv_sha pv)), (''size_bytes'', DInt (pv_size pv))])"

definition version_row :: "int \<Rightarrow> int \<Rightarrow> pdf_version \<Rightarrow> v_row" where
  "version_row now actor pv =
     \<lparr>v_id = pv_id pv, v_product = pv_product pv, v_file = pv_file pv, v_no = pv_no pv,
      v_filename = pv_filename pv, v_by = actor, v_at = now\<rparr>"

definition file_matches :: "pdf_version \<Rightarrow> f_row \<Rightarrow> bool" where
  "file_matches pv f \<longleftrightarrow> f_id f = pv_file pv \<and> f_sha f = pv_sha pv \<and> f_size f = pv_size pv \<and> f_path f = pv_path pv"

text \<open>
  \<open>recorded now actor code req pv t t'\<close>: between \<open>t\<close> and \<open>t'\<close> exactly the upload \<open>pv\<close> was recorded.
\<close>

definition recorded :: "int \<Rightarrow> int \<Rightarrow> ustr \<Rightarrow> nat option \<Rightarrow> pdf_version \<Rightarrow> tables \<Rightarrow> tables \<Rightarrow> bool" where
  "recorded now actor code req pv t t' \<longleftrightarrow>
     (\<exists>fs eid. t' = t\<lparr>
        t_files := t_files t @ fs,
        t_versions := t_versions t @ [version_row now actor pv],
        t_products := update_where (\<lambda>p. p_id p = pv_product pv) (\<lambda>p. p\<lparr>p_current := Some (pv_id pv), p_updated := now\<rparr>) (t_products t),
        t_audit := t_audit t @ [\<lparr>e_id = eid, e_at = now, e_event = upload_event actor code req pv\<rparr>]\<rparr>
      \<and> (if fs = [] then list_ex (file_matches pv) (t_files t)
         else \<exists>f. fs = [f] \<and> file_matches pv f \<and> pv_sha pv \<notin> f_sha ` set (t_files t)))"

lemma upload_record_Inr:
  assumes r: "upload_record faults now pid actor vu req code no pf d = (Inr pv, d')"
    and i: "db_inv d" and p: "select_product pid d = Some prow"
  shows "recorded now actor code req pv (tabs d) (tabs d')
     \<and> pv_product pv = pid \<and> pv_no pv = no \<and> pv_sha pv = vu_sha vu \<and> pv_size pv = vu_size vu
     \<and> pv_path pv = pf_path pf \<and> pv_filename pv = vu_filename vu"
proof -
  from r obtain fid d1 v d2 x d3 y d4 where
    s1: "file_row faults now vu pf d = (Inr fid, d1)" and
    s2: "insert_version now pid fid no (vu_filename vu) actor d1 = (Inr v, d2)" and
    s3: "update_product pid (\<lambda>p. p\<lparr>p_current := Some (v_id v), p_updated := now\<rparr>) d2 = (Inr x, d3)" and
    s4: "append_event now (admin_event ''pdf_upload'' actor ''version'' (v_id v) (Some code) req
           (Some [(''version_no'', DInt no), (''sha256'', DStr (vu_sha vu)), (''size_bytes'', DInt (vu_size vu))])) d3 = (Inr y, d4)" and
    s5: "d' = d4" and
    pv: "pv = \<lparr>pv_id = v_id v, pv_product = pid, pv_no = no, pv_file = fid, pv_sha = vu_sha vu,
                pv_size = vu_size vu, pv_path = pf_path pf, pv_filename = vu_filename vu\<rparr>"
    unfolding upload_record_def by (elim dbind_InrE) auto
  from s1 i obtain fs where t1: "tabs d1 = (tabs d)\<lparr>t_files := t_files (tabs d) @ fs\<rparr>"
    and fs: "if fs = [] then list_ex (file_matches pv) (t_files (tabs d))
         else \<exists>f. fs = [f] \<and> file_matches pv f \<and> pv_sha pv \<notin> f_sha ` set (t_files (tabs d))"
  proof (cases rule: file_row_Inr)
    case (there f)
    then have "file_matches pv f" "f \<in> set (t_files (tabs d))"
      using select_file_by_shaD by (auto simp: file_matches_def pv)
    with there that [of "[]"] show thesis by (auto simp: list_ex_iff)
  next
    case (added f)
    then have "file_matches pv f" "pv_sha pv \<notin> f_sha ` set (t_files (tabs d))"
      by (auto simp: file_matches_def pv select_file_by_sha_def find_None_iff)
    with added that [of "[f]"] show thesis by simp
  qed
  from insert_version_InrD [OF s2] have v: "v = \<lparr>v_id = v_id v, v_product = pid, v_file = fid, v_no = no,
      v_filename = vu_filename vu, v_by = actor, v_at = now\<rparr>"
    and t2: "tabs d2 = (tabs d1)\<lparr>t_versions := t_versions (tabs d1) @ [v]\<rparr>" by auto
  have "select_product pid d2 = Some prow" using p t1 t2 by (simp add: select_product_def)
  from update_product_SomeD [OF s3 this]
  have t3: "tabs d3 = (tabs d2)\<lparr>t_products := update_where (\<lambda>p. p_id p = pid)
      (\<lambda>p. p\<lparr>p_current := Some (v_id v), p_updated := now\<rparr>) (t_products (tabs d2))\<rparr>" by simp
  from append_event_InrD [OF s4] obtain eid where t4: "tabs d4 = (tabs d3)\<lparr>t_audit := t_audit (tabs d3) @
      [\<lparr>e_id = eid, e_at = now, e_event = upload_event actor code req pv\<rparr>]\<rparr>"
    by (auto simp: upload_event_def pv)
  have f: "pv_id pv = v_id v" "pv_product pv = pid" "pv_no pv = no" "pv_sha pv = vu_sha vu" "pv_size pv = vu_size vu"
    "pv_path pv = pf_path pf" "pv_filename pv = vu_filename vu" "pv_file pv = fid" by (simp_all add: pv)
  have vr: "version_row now actor pv = v" by (subst v) (simp add: version_row_def f)
  show ?thesis
    unfolding recorded_def using fs
    by (intro conjI exI [of _ fs] exI [of _ eid]) (simp_all add: s5 t1 t2 t3 t4 vr f)
qed

section \<open>The invariant of the world\<close>

definition versions_of :: "int \<Rightarrow> tables \<Rightarrow> v_row list" where
  "versions_of pid t = filter (\<lambda>v. v_product v = pid) (t_versions t)"

text \<open>Version numbers of a product are one, two, three, ... in upload order.\<close>

definition numbered :: "tables \<Rightarrow> bool" where
  "numbered t \<longleftrightarrow> (\<forall>pid. map v_no (versions_of pid t) = map int [1..<Suc (length (versions_of pid t))])"

text \<open>A product has a current version as soon as it has one.\<close>

definition pointed :: "tables \<Rightarrow> bool" where
  "pointed t \<longleftrightarrow> list_all (\<lambda>p. p_current p = None \<longrightarrow> versions_of (p_id p) t = []) (t_products t)"

text \<open>Every file row is backed by a formal file with its digest and size.\<close>

definition backed :: "(octets \<Rightarrow> ustr) \<Rightarrow> store \<Rightarrow> f_row \<Rightarrow> bool" where
  "backed digest st f \<longleftrightarrow>
     relative_path_for_hash (f_sha f) = Inr (f_path f)
     \<and> (case map_of (st_files st) (f_path f) of
          None \<Rightarrow> False
        | Some obj \<Rightarrow> digest (fo_bytes obj) = f_sha f \<and> f_size f = int (length (fo_bytes obj)))"

definition world_inv :: "(octets \<Rightarrow> ustr) \<Rightarrow> world \<Rightarrow> bool" where
  "world_inv digest w \<longleftrightarrow>
     db_inv (w_db w) \<and> store_inv digest (w_store w) \<and> numbered (tabs (w_db w)) \<and> pointed (tabs (w_db w))
     \<and> list_all (backed digest (w_store w)) (t_files (tabs (w_db w)))"

lemma next_no_numbered:
  assumes "numbered (tabs d)"
  shows "next_version_no pid d = int (length (versions_of pid (tabs d))) + 1"
proof -
  have m: "fold max (map int [k..<Suc n]) (int j) = int n" if "j \<le> n" "k \<le> n" for j k n
  proof (rule antisym)
    show "fold max (map int [k..<Suc n]) (int j) \<le> int n"
      using that by (intro fold_max_bound) auto
    show "int n \<le> fold max (map int [k..<Suc n]) (int j)"
      using fold_max_le [of "int j" "map int [k..<Suc n]"] that by auto
  qed
  let ?n = "length (versions_of pid (tabs d))"
  from assms have e: "map v_no (filter (\<lambda>v. v_product v = pid) (t_versions (tabs d))) = map int [1..<Suc ?n]"
    by (simp add: numbered_def versions_of_def)
  show ?thesis
  proof (cases "?n \<le> 1")
    case True
    then have "?n = 0 \<or> ?n = 1" by linarith
    then show ?thesis unfolding next_version_no_def e by auto
  next
    case False
    then have "[1..<Suc ?n] = 1 # [2..<Suc ?n]" by (simp add: upt_conv_Cons numeral_2_eq_2)
    with False m [of 1 ?n 2] show ?thesis unfolding next_version_no_def e by simp
  qed
qed

lemma select_version_current:
  assumes "db_inv d" "p \<in> set (t_products (tabs d))" "p_current p = Some vid"
  obtains v where "select_version (p_id p) vid d = Some v" "v \<in> set (t_versions (tabs d))" "v_product v = p_id p" "v_id v = vid"
proof -
  from assms have "list_ex (\<lambda>v. v_product v = p_id p \<and> v_id v = vid) (t_versions (tabs d))"
    by (auto simp: db_inv_def fks_ok_def list_all_iff fk_current_ok_def split: option.splits)
  then have "select_version (p_id p) vid d \<noteq> None"
    by (auto simp: select_version_def find_None_iff list_ex_iff)
  then obtain v where "select_version (p_id p) vid d = Some v" by auto
  with that select_versionD show thesis by blast
qed

lemma current_file_resolves:
  assumes "db_inv d" "p \<in> set (t_products (tabs d))" "p_current p = Some vid"
  obtains v f where "select_version (p_id p) vid d = Some v" "select_file (v_file v) d = Some f"
    "current_file (p_id p) vid d = Some f" "f \<in> set (t_files (tabs d))"
proof -
  from assms obtain v where v: "select_version (p_id p) vid d = Some v" "v \<in> set (t_versions (tabs d))"
    by (rule select_version_current)
  with assms(1) have "v_file v \<in> f_id ` set (t_files (tabs d))" by (auto simp: db_inv_def fks_ok_def)
  then have "select_file (v_file v) d \<noteq> None" by (auto simp: select_file_def find_None_iff)
  then obtain f where "select_file (v_file v) d = Some f" by auto
  with v that select_fileD show thesis by (fastforce simp: current_file_def)
qed

section \<open>The cases of an upload\<close>

lemma upload_pdf_Inr:
  assumes "upload_pdf faults pe up now pid actor vu req w = (Inr pv, w')"
  obtains code no pf st d' where "upload_check faults pid actor vu (w_db w) = Inr (code, no)"
    "publish (pe_cancelled pe) (pe_fault pe) (pe_unlink_fails pe) now vu (w_store w) = (Inr pf, st)"
    "upload_record faults now pid actor vu req code no pf (w_db w) = (Inr pv, d')"
    "w' = \<lparr>w_db = d', w_store = discard (pe_unlink_fails pe) vu st\<rparr>"
proof -
  obtain r pub pc w1 where b: "upload_block faults pe now pid actor vu req w = (r, pub, pc, w1)"
    by (metis prod_cases4)
  with assms have r: "r = Inr pv" and w': "w' = w1\<lparr>w_store := discard (pe_unlink_fails pe) vu (w_store w1)\<rparr>"
    by (auto simp: upload_pdf_def Let_def split: sum.splits if_splits option.splits)
  from b r obtain code no where c: "upload_check faults pid actor vu (w_db w) = Inr (code, no)"
    by (auto simp: upload_block_def Let_def split: sum.splits)
  obtain q st where p: "publish (pe_cancelled pe) (pe_fault pe) (pe_unlink_fails pe) now vu (w_store w) = (q, st)"
    by fastforce
  from b r c p obtain pf where q: "q = Inr pf"
    by (auto simp: upload_block_def Let_def split: sum.splits)
  obtain rr d' where t: "transaction (upload_record faults now pid actor vu req code no pf) (w_db w) = (rr, d')"
    by fastforce
  from b r c p q t have "rr = Inr pv" "w1 = \<lparr>w_db = d', w_store = st\<rparr>"
    by (auto simp: upload_block_def Let_def)
  with t w' c p q that show thesis by (simp add: transaction_Inr)
qed

lemma upload_block_Inl:
  assumes "db_inv (w_db w)" and b: "upload_block faults pe now pid actor vu req w = (Inl e, pub, pc, w1)"
  shows "tabs (w_db w1) = tabs (w_db w)" and "step_ok (w_db w) (w_db w1)"
    and "w_store w1 = w_store w \<or> (\<exists>q. publish (pe_cancelled pe) (pe_fault pe) (pe_unlink_fails pe) now vu (w_store w) = (q, w_store w1))"
    and "pc = locked_code faults pid (w_db w)"
proof -
  have step: "step_ok (w_db w) d'"
    if "transaction (upload_record faults now pid actor vu req c no pf) (w_db w) = (r, d')" "1 \<le> no" for c no pf r d'
  proof -
    have "step_ok (w_db w) (snd (transaction (upload_record faults now pid actor vu req c no pf) (w_db w)))"
      using that(2) by (intro inv_intro)
    with that show ?thesis by simp
  qed
  have pos: "1 \<le> no" if "upload_check faults pid actor vu (w_db w) = Inr (c, no)" for c no
    using that next_version_no_pos [OF assms(1)] by (elim upload_check_Inr) simp
  show "tabs (w_db w1) = tabs (w_db w)" "step_ok (w_db w) (w_db w1)"
    "w_store w1 = w_store w \<or> (\<exists>q. publish (pe_cancelled pe) (pe_fault pe) (pe_unlink_fails pe) now vu (w_store w) = (q, w_store w1))"
    "pc = locked_code faults pid (w_db w)"
    using b step pos
    by (auto simp: upload_block_def Let_def split: sum.splits prod.splits dest: transaction_Inl)
qed

lemma locked_code_width: "db_inv d \<Longrightarrow> locked_code faults pid d = Some c \<Longrightarrow> length c \<le> 64"
  using select_productD
  by (fastforce simp: locked_code_def db_inv_def checks_ok_def list_all_iff ck_products_code_format_def
      split: option.splits)

lemma independent_event_tabs:
  assumes "audit_widths e"
  shows "tabs (snd (append_independent_event up now e d)) =
     (if up then (tabs d)\<lparr>t_audit := t_audit (tabs d) @ [\<lparr>e_id = q_audit (seqs d), e_at = now, e_event = e\<rparr>]\<rparr>
      else tabs d)"
  using assms by (simp add: append_independent_event_def transaction_def append_event_ok)

lemma rejection_event_widths:
  "db_inv d \<Longrightarrow> audit_widths (upload_rejection_event pid actor (locked_code faults pid d) req reason h pub)"
  by (auto simp: audit_widths_def upload_rejection_event_def dest: locked_code_width split: option.splits)

lemma upload_pdf_Inl:
  assumes i: "db_inv (w_db w)" and u: "upload_pdf faults pe up now pid actor vu req w = (Inl e, w')"
  obtains e0 reason pub w1 pub0 where "upload_block faults pe now pid actor vu req w = (Inl e0, pub0, locked_code faults pid (w_db w), w1)"
    "e = (if is_cancel e0 \<or> app_error_code e0 \<noteq> None then e0 else AppError ''pdf_upload_failed'' 500)"
    "w_db w' = snd (append_independent_event up now
        (upload_rejection_event pid actor (locked_code faults pid (w_db w)) req reason (vu_sha vu) pub) (w_db w1))"
    "w_store w' = discard (pe_unlink_fails pe) vu (w_store w1)"
proof -
  obtain r pub0 pc w1 where b: "upload_block faults pe now pid actor vu req w = (r, pub0, pc, w1)"
    by (metis prod_cases4)
  from b u obtain e0 where r: "r = Inl e0" by (auto simp: upload_pdf_def Let_def split: sum.splits)
  from b r upload_block_Inl(4) [OF i] have pc: "pc = locked_code faults pid (w_db w)" by blast
  note b' = b [unfolded r pc]
  show thesis
  proof (cases "is_cancel e0")
    case True
    show thesis
      by (rule that [OF b', of "''upload_cancelled''"
            "case e0 of PublishCancelled path moved \<Rightarrow> Some \<lparr>pf_path = path, pf_moved = moved\<rparr> | _ \<Rightarrow> pub0"])
        (use b r pc u True in \<open>auto simp: upload_pdf_def Let_def\<close>)
  next
    case False
    show thesis
    proof (cases "app_error_code e0")
      case None
      show thesis
        by (rule that [OF b', of "''upload_transaction_failed''" pub0])
          (use b r pc u False None in \<open>auto simp: upload_pdf_def Let_def\<close>)
    next
      case (Some c)
      show thesis
        by (rule that [OF b', of c pub0]) (use b r pc u False Some in \<open>auto simp: upload_pdf_def Let_def\<close>)
    qed
  qed
qed

section \<open>Preservation\<close>

lemma versions_of_snoc:
  "versions_of pid (t\<lparr>t_versions := t_versions t @ [v]\<rparr>) = versions_of pid t @ (if v_product v = pid then [v] else [])"
  by (simp add: versions_of_def)

lemma recorded_inv:
  assumes r: "recorded now actor code req pv t t'" and "numbered t" "pointed t"
    and no: "pv_no pv = int (length (versions_of (pv_product pv) t)) + 1"
  shows "numbered t'" and "pointed t'"
proof -
  from r have tv: "t_versions t' = t_versions t @ [version_row now actor pv]"
    and tp: "t_products t' = update_where (\<lambda>p. p_id p = pv_product pv) (\<lambda>p. p\<lparr>p_current := Some (pv_id pv), p_updated := now\<rparr>) (t_products t)"
    by (auto simp: recorded_def)
  have vo: "versions_of pid t' = versions_of pid t @ (if pv_product pv = pid then [version_row now actor pv] else [])" for pid
    using tv by (simp add: versions_of_def version_row_def)
  show "numbered t'"
    using assms(2) no by (simp add: numbered_def vo version_row_def)
  show "pointed t'"
    unfolding pointed_def list_all_iff
  proof (intro ballI impI)
    fix p assume "p \<in> set (t_products t')" and n: "p_current p = None"
    then obtain q where q: "q \<in> set (t_products t)"
      and pq: "p = (if p_id q = pv_product pv then q\<lparr>p_current := Some (pv_id pv), p_updated := now\<rparr> else q)"
      by (auto simp: tp set_update_where)
    from n pq have "p = q" "p_id q \<noteq> pv_product pv" by (auto split: if_splits)
    with q n assms(3) show "versions_of (p_id p) t' = []" by (simp add: pointed_def list_all_iff vo)
  qed
qed

lemma backed_kept: "backed digest st f \<Longrightarrow> files_kept st st' \<Longrightarrow> backed digest st' f"
  by (auto simp: backed_def files_kept_def split: option.splits)

text \<open>Tables that differ in the audit trail only.\<close>

lemma world_inv_audit:
  assumes "world_inv digest w" "db_inv d'" "tabs d' = (tabs (w_db w))\<lparr>t_audit := x\<rparr>"
    "store_inv digest st" "files_kept (w_store w) st"
  shows "world_inv digest \<lparr>w_db = d', w_store = st\<rparr>"
  using assms by (auto simp: world_inv_def numbered_def pointed_def versions_of_def list_all_iff intro: backed_kept)

lemma upload_pdf_inv:
  assumes w: "world_inv digest w" and vu: "upload_ok digest vu (w_store w)"
    and coll: "no_collision vu digest (w_store w)"
    and u: "upload_pdf faults pe up now pid actor vu req w = (r, w')"
  shows "world_inv digest w' \<and> step_ok (w_db w) (w_db w') \<and> files_kept (w_store w) (w_store w')"
proof (cases r)
  case (Inl e)
  from w have i: "db_inv (w_db w)" by (simp add: world_inv_def)
  from upload_pdf_Inl [OF i u [unfolded Inl]] obtain e0 reason pub w1 pub0 where
    b: "upload_block faults pe now pid actor vu req w = (Inl e0, pub0, locked_code faults pid (w_db w), w1)" and
    d': "w_db w' = snd (append_independent_event up now
        (upload_rejection_event pid actor (locked_code faults pid (w_db w)) req reason (vu_sha vu) pub) (w_db w1))" and
    st': "w_store w' = discard (pe_unlink_fails pe) vu (w_store w1)" by metis
  note bl = upload_block_Inl [OF i b]
  have s: "step_ok (w_db w) (w_db w')"
    unfolding d' using bl(2) step_independent_event by (rule step_ok_trans)
  have k: "files_kept (w_store w) (w_store w1)" "store_inv digest (w_store w1)"
    using bl(3) w vu by (auto simp: world_inv_def dest: publish_kept publish_inv)
  have "tabs (w_db w') = (tabs (w_db w))\<lparr>t_audit := t_audit (tabs (w_db w'))\<rparr>"
    unfolding d' using bl(1) rejection_event_widths [OF i]
    by (simp add: independent_event_tabs)
  then have "world_inv digest \<lparr>w_db = w_db w', w_store = w_store w'\<rparr>"
    using s i k st' by (intro world_inv_audit [OF w]) (auto simp: step_ok_def files_kept_def store_inv_def)
  then have "world_inv digest w'" by (cases w') simp
  with s k st' show ?thesis by (simp add: files_kept_def)
next
  case (Inr pv)
  from w have i: "db_inv (w_db w)" by (simp add: world_inv_def)
  from u Inr obtain code no pf st d' where
    c: "upload_check faults pid actor vu (w_db w) = Inr (code, no)" and
    p: "publish (pe_cancelled pe) (pe_fault pe) (pe_unlink_fails pe) now vu (w_store w) = (Inr pf, st)" and
    rec: "upload_record faults now pid actor vu req code no pf (w_db w) = (Inr pv, d')" and
    w': "w' = \<lparr>w_db = d', w_store = discard (pe_unlink_fails pe) vu st\<rparr>"
    by (blast elim: upload_pdf_Inr)
  from c obtain prow where prow: "select_product pid (w_db w) = Some prow" and no: "no = next_version_no pid (w_db w)"
    by (rule upload_check_Inr)
  from upload_record_Inr [OF rec i prow] have r: "recorded now actor code req pv (tabs (w_db w)) (tabs d')"
    and f: "pv_product pv = pid" "pv_no pv = no" "pv_sha pv = vu_sha vu" "pv_size pv = vu_size vu" "pv_path pv = pf_path pf" by auto
  have s: "step_ok (w_db w) d'"
    using upload_record_step [of no "w_db w" faults now pid actor vu req code pf] rec next_version_no_pos [OF i] no by simp
  have st: "store_inv digest st" "files_kept (w_store w) st"
    using p w vu by (auto simp: world_inv_def dest: publish_kept publish_inv)
  from publish_present [OF p _ vu] w obtain obj where path: "relative_path_for_hash (vu_sha vu) = Inr (pf_path pf)"
    and obj: "map_of (st_files st) (pf_path pf) = Some obj" "digest (fo_bytes obj) = vu_sha vu" by (auto simp: world_inv_def)
  have size: "int (length (fo_bytes obj)) = vu_size vu"
    using publish_size [OF p _ vu coll obj(1)] w by (simp add: world_inv_def)
  have nb: "numbered (tabs d')" "pointed (tabs d')"
    using recorded_inv [OF r] w f no next_no_numbered [of "w_db w" pid] by (simp_all add: world_inv_def)
  have "backed digest st g" if "file_matches pv g" for g
    using that f path obj size by (simp add: file_matches_def backed_def)
  moreover have "list_all (backed digest st) (t_files (tabs (w_db w)))"
    using w st(2) by (auto simp: world_inv_def list_all_iff intro: backed_kept)
  ultimately have "list_all (backed digest st) (t_files (tabs d'))"
    using r by (auto simp: recorded_def list_all_iff split: if_splits)
  with nb s i st w' show ?thesis
    by (auto simp: world_inv_def step_ok_def files_kept_def store_inv_def list_all_iff backed_def)
qed

section \<open>An upload without faults\<close>

abbreviation no_faults :: "upload_point \<Rightarrow> exc option" where
  "no_faults \<equiv> (\<lambda>_. None)"

lemma file_row_total:
  assumes "\<And>f. select_file_by_sha (vu_sha vu) d = Some f \<Longrightarrow> f_size f = vu_size vu \<and> f_path f = pf_path pf"
  shows "\<exists>fid d'. file_row no_faults now vu pf d = (Inr fid, d') \<and> select_file fid d' \<noteq> None
     \<and> t_products (tabs d') = t_products (tabs d) \<and> t_versions (tabs d') = t_versions (tabs d)
     \<and> t_admins (tabs d') = t_admins (tabs d)"
proof -
  obtain r d1 where i: "insert_file now (vu_sha vu) (vu_size vu) (pf_path pf) d = (r, d1)" by fastforce
  then show ?thesis
  proof (cases rule: insert_file_cases)
    case there
    then obtain f where f: "select_file_by_sha (vu_sha vu) d = Some f"
      by (cases "select_file_by_sha (vu_sha vu) d") (auto simp: select_file_by_sha_def find_None_iff)
    then have "select_file_by_sha (vu_sha vu) d1 = Some f" using there by (simp add: select_file_by_sha_def)
    moreover have "select_file (f_id f) d1 \<noteq> None"
      using select_file_by_shaD [OF f] there by (auto simp: select_file_def find_None_iff)
    ultimately show ?thesis
      using i there assms [OF f] by (simp add: file_row_def dbind_def inject_def)
  next
    case (added f)
    then have "select_file (f_id f) d1 \<noteq> None" by (auto simp: select_file_def find_None_iff)
    with i added show ?thesis by (simp add: file_row_def dbind_def inject_def)
  qed
qed

lemma upload_record_total:
  assumes i: "db_inv d" and p: "select_product pid d = Some prow" and a: "select_admin actor d \<noteq> None"
    and f: "\<And>f. select_file_by_sha (vu_sha vu) d = Some f \<Longrightarrow> f_size f = vu_size vu \<and> f_path f = pf_path pf"
  shows "\<exists>pv d'. upload_record no_faults now pid actor vu req (p_code prow) (next_version_no pid d) pf d = (Inr pv, d')"
proof -
  from file_row_total [where now = now and vu = vu and pf = pf and d = d] f obtain fid d1 where
    s1: "file_row no_faults now vu pf d = (Inr fid, d1)" and fref: "select_file fid d1 \<noteq> None" and
    t1: "t_products (tabs d1) = t_products (tabs d)" "t_versions (tabs d1) = t_versions (tabs d)" "t_admins (tabs d1) = t_admins (tabs d)"
    by blast
  have p1: "select_product pid d1 = Some prow" and a1: "select_admin actor d1 \<noteq> None"
    using p a t1 by (simp_all add: select_product_def select_admin_def)
  have "\<not> list_ex (\<lambda>v. v_product v = pid \<and> v_no v = next_version_no pid d) (t_versions (tabs d1))"
    using next_version_no_above [of _ d pid] t1 by (fastforce simp: list_ex_iff)
  then obtain v d2 where s2: "insert_version now pid fid (next_version_no pid d) (vu_filename vu) actor d1 = (Inr v, d2)"
    using p1 a1 fref by (auto simp: insert_version_def Let_def)
  note v = insert_version_InrD [OF s2]
  let ?f = "\<lambda>p. p\<lparr>p_current := Some (v_id v), p_updated := now\<rparr>"
  have p2: "select_product pid d2 = Some prow" using v p1 by (simp add: select_product_def)
  have "p_id prow = pid" using select_productD [OF p] by simp
  then have "fk_current_ok (tabs d2) (?f prow)" using v by (auto simp: fk_current_ok_def)
  then obtain d3 where s3: "update_product pid ?f d2 = (Inr (Some (?f prow)), d3)"
    using p2 by (simp add: update_product_def trg_products_immutable_def)
  have "length (p_code prow) \<le> 64"
    using i select_productD [OF p] by (auto simp: db_inv_def checks_ok_def list_all_iff ck_products_code_format_def)
  then have w: "audit_widths (admin_event ''pdf_upload'' actor ''version'' (v_id v) (Some (p_code prow)) req
      (Some [(''version_no'', DInt (next_version_no pid d)), (''sha256'', DStr (vu_sha vu)), (''size_bytes'', DInt (vu_size vu))]))"
    by (simp add: audit_widths_def)
  show ?thesis
    unfolding upload_record_def
    by (simp add: dbind_def [of "file_row no_faults now vu pf"] s1 dbind_def [of "inject no_faults _"] inject_def
        dbind_def [of "insert_version _ _ _ _ _ _"] s2 dbind_def [of "update_product _ _"] s3
        dbind_def [of "append_event _ _"] append_event_ok [OF w])
qed

text \<open>What the upload answers, from the state alone.\<close>

definition upload_answer :: "int \<Rightarrow> int \<Rightarrow> validated_upload \<Rightarrow> db \<Rightarrow> exc option" where
  "upload_answer pid actor vu d =
     (case select_product pid d of
        None \<Rightarrow> Some (AppError ''product_not_found'' 404)
      | Some p \<Rightarrow>
          if select_admin actor d = None then Some (AppError ''upload_actor_not_found'' 422)
          else
            (case p_current p of
               None \<Rightarrow> None
             | Some vid \<Rightarrow>
                 (case current_file pid vid d of
                    None \<Rightarrow> None
                  | Some f \<Rightarrow>
                      if f_size f = vu_size vu \<and> f_sha f = vu_sha vu then Some (AppError ''duplicate_current_pdf'' 409)
                      else None)))"

lemma upload_check_no_faults:
  assumes i: "db_inv d"
  shows "upload_check no_faults pid actor vu d =
    (case upload_answer pid actor vu d of
       Some e \<Rightarrow> Inl e
     | None \<Rightarrow> (case select_product pid d of Some p \<Rightarrow> Inr (p_code p, next_version_no pid d)))"
proof (cases "select_product pid d")
  case None
  then show ?thesis by (simp add: upload_check_def upload_answer_def)
next
  case (Some p)
  then have p: "p \<in> set (t_products (tabs d))" "p_id p = pid" using select_productD by auto
  show ?thesis
  proof (cases "p_current p")
    case None
    with Some show ?thesis by (simp add: upload_check_def upload_answer_def current_check_def)
  next
    case cur: (Some vid)
    from current_file_resolves [OF i p(1) cur] p(2) obtain f where "current_file pid vid d = Some f" by metis
    with Some cur show ?thesis by (simp add: upload_check_def upload_answer_def current_check_def)
  qed
qed

section \<open>Lemmas on the restore and the history\<close>

lemma restore_step [inv_intro]: "step_ok d (snd (restore_pdf_version now pid vid actor req d))"
  unfolding restore_pdf_version_def by (auto intro!: inv_intro split: option.splits)

lemma sorted_desc:
  assumes "distinct (map g xs)"
  shows "sorted_wrt (\<lambda>a b. g b < g a) (sort_key (\<lambda>v. - (g v :: int)) xs)"
proof -
  let ?s = "sort_key (\<lambda>v. - g v) xs"
  have "distinct (map g ?s)" using assms by (simp add: distinct_map)
  then have "sorted_wrt (\<lambda>a b. g a \<noteq> g b) ?s" by (simp only: distinct_sorted_wrt sorted_wrt_map)
  moreover have "sorted_wrt (\<lambda>a b. - g a \<le> - g b) ?s"
    using sorted_sort_key [of "\<lambda>v. - g v" xs] by (simp only: sorted_wrt_map)
  ultimately have "sorted_wrt (\<lambda>a b. g a \<noteq> g b \<and> - g a \<le> - g b) ?s"
    by (simp add: sorted_wrt_iff_nth_less)
  then show ?thesis by (rule sorted_wrt_mono_rel [rotated]) auto
qed

lemma map_filter_total:
  "(\<And>x. x \<in> set xs \<Longrightarrow> f x = Some (g x)) \<Longrightarrow> List.map_filter f xs = map g xs"
  by (induction xs) (auto simp: map_filter_simps)

definition calm :: publish_env where
  "calm = \<lparr>pe_cancelled = False, pe_fault = No_Fault, pe_unlink_fails = False\<rparr>"

lemma upload_pdf_answer:
  assumes w: "world_inv digest w" and vu: "upload_ok digest vu (w_store w)"
    and coll: "no_collision vu digest (w_store w)" and hex: "hex_text 64 (vu_sha vu)"
  shows "case upload_answer pid actor vu (w_db w) of
     Some e \<Rightarrow> fst (upload_pdf no_faults calm up now pid actor vu req w) = Inl e
   | None \<Rightarrow> \<exists>pv. fst (upload_pdf no_faults calm up now pid actor vu req w) = Inr pv"
proof -
  from w have i: "db_inv (w_db w)" and si: "store_inv digest (w_store w)" by (simp_all add: world_inv_def)
  show ?thesis
  proof (cases "upload_answer pid actor vu (w_db w)")
    case (Some e)
    then have "upload_check no_faults pid actor vu (w_db w) = Inl e"
      by (simp add: upload_check_no_faults [OF i])
    moreover have "\<not> is_cancel e \<and> app_error_code e \<noteq> None"
      using Some by (auto simp: upload_answer_def split: option.splits if_splits)
    ultimately show ?thesis
      using Some by (auto simp: upload_pdf_def upload_block_def Let_def)
  next
    case None
    then obtain prow where p: "select_product pid (w_db w) = Some prow" and a: "select_admin actor (w_db w) \<noteq> None"
      by (auto simp: upload_answer_def split: option.splits if_splits)
    with None have c: "upload_check no_faults pid actor vu (w_db w) = Inr (p_code prow, next_version_no pid (w_db w))"
      by (simp add: upload_check_no_faults [OF i])
    obtain rel where rel: "relative_path_for_hash (vu_sha vu) = Inr rel"
      using hex by (simp add: relative_path_for_hash_def)
    obtain content where "map_of (st_tmp (w_store w)) (vu_tmp vu) = Some content"
      using vu by (auto simp: upload_ok_def split: option.splits)
    then have "\<exists>pf st. publish False No_Fault False now vu (w_store w) = (Inr pf, st)"
      using rel by (cases "map_of (st_files (w_store w)) rel") (simp_all add: publish_def publish_sync_def)
    then obtain pf st where pub: "publish False No_Fault False now vu (w_store w) = (Inr pf, st)" by blast
    have path: "relative_path_for_hash (vu_sha vu) = Inr (pf_path pf)" by (rule publish_present(1) [OF pub si vu])
    have "f_size f = vu_size vu \<and> f_path f = pf_path pf" if "select_file_by_sha (vu_sha vu) (w_db w) = Some f" for f
    proof -
      from select_file_by_shaD [OF that] w have b: "backed digest (w_store w) f" and h: "f_sha f = vu_sha vu"
        by (auto simp: world_inv_def list_all_iff)
      from b h have r: "relative_path_for_hash (vu_sha vu) = Inr (f_path f)" by (simp add: backed_def)
      from b obtain obj where o: "map_of (st_files (w_store w)) (f_path f) = Some obj"
        "digest (fo_bytes obj) = f_sha f" "f_size f = int (length (fo_bytes obj))"
        unfolding backed_def by (cases "map_of (st_files (w_store w)) (f_path f)") simp_all
      from o(1) have "(f_path f, obj) \<in> set (st_files (w_store w))" by (rule map_of_SomeD)
      with coll o h have "f_size f = vu_size vu" by (auto simp: no_collision_def list_all_iff)
      with r path show ?thesis by simp
    qed
    from upload_record_total [OF i p a this] obtain pv d' where
      "upload_record no_faults now pid actor vu req (p_code prow) (next_version_no pid (w_db w)) pf (w_db w) = (Inr pv, d')"
      by blast
    with None c pub show ?thesis
      by (simp add: upload_pdf_def upload_block_def Let_def calm_def transaction_def)
  qed
qed

section \<open>Properties\<close>

text \<open>
  The abstract outcome of a successful upload: the product and the uploader exist, the number is one
  more than the product's versions so far, the database gained exactly this version, its file row,
  the new current pointer and one audit event, and the formal file at the recorded path holds bytes
  with the uploaded digest; earlier formal files are as they were.
\<close>

definition upload_success ::
    "(octets \<Rightarrow> ustr) \<Rightarrow> int \<Rightarrow> int \<Rightarrow> int \<Rightarrow> validated_upload \<Rightarrow> nat option \<Rightarrow> world \<Rightarrow> pdf_version \<Rightarrow> world \<Rightarrow> bool" where
  "upload_success digest now pid actor vu req w pv w' \<longleftrightarrow>
     (case select_product pid (w_db w) of
        None \<Rightarrow> False
      | Some prow \<Rightarrow>
          recorded now actor (p_code prow) req pv (tabs (w_db w)) (tabs (w_db w')))
     \<and> select_admin actor (w_db w) \<noteq> None
     \<and> pv_product pv = pid \<and> pv_no pv = int (length (versions_of pid (tabs (w_db w)))) + 1
     \<and> pv_sha pv = vu_sha vu \<and> pv_size pv = vu_size vu \<and> pv_filename pv = vu_filename vu
     \<and> (case map_of (st_files (w_store w')) (pv_path pv) of None \<Rightarrow> False | Some f \<Rightarrow> digest (fo_bytes f) = vu_sha vu)
     \<and> files_kept (w_store w) (w_store w')"

text \<open>C8. Whenever the upload returns a version, the abstract outcome of a successful upload holds.\<close>

theorem upload_records_version:
  assumes w: "world_inv digest w" and vu: "upload_ok digest vu (w_store w)"
    and u: "upload_pdf faults pe up now pid actor vu req w = (Inr pv, w')"
  shows "upload_success digest now pid actor vu req w pv w'"
proof -
  from w have i: "db_inv (w_db w)" "store_inv digest (w_store w)" by (simp_all add: world_inv_def)
  from u obtain code no pf st d' where
    c: "upload_check faults pid actor vu (w_db w) = Inr (code, no)" and
    p: "publish (pe_cancelled pe) (pe_fault pe) (pe_unlink_fails pe) now vu (w_store w) = (Inr pf, st)" and
    rec: "upload_record faults now pid actor vu req code no pf (w_db w) = (Inr pv, d')" and
    w': "w' = \<lparr>w_db = d', w_store = discard (pe_unlink_fails pe) vu st\<rparr>"
    by (rule upload_pdf_Inr)
  from c obtain prow where prow: "select_product pid (w_db w) = Some prow" "code = p_code prow"
    and no: "no = next_version_no pid (w_db w)" and a: "select_admin actor (w_db w) \<noteq> None"
    by (rule upload_check_Inr)
  have "no = int (length (versions_of pid (tabs (w_db w)))) + 1"
    using w no by (simp add: world_inv_def next_no_numbered)
  with upload_record_Inr [OF rec i(1) prow(1)] prow a w' publish_present(2) [OF p i(2) vu] publish_kept [OF p]
  show ?thesis by (auto simp: upload_success_def files_kept_def)
qed

text \<open>A world with one administrator, one product without versions and an upload waiting.\<close>

definition sample_world :: world where
  "sample_world =
     \<lparr>w_db = empty_db\<lparr>tabs := (tabs empty_db)\<lparr>
          t_products := [new_product 0 1 (u ''AB-1'') (u ''Valve'') (u ''TOKEN'')],
          t_admins := [\<lparr>a_id = 1, a_username = u ''root'', a_hash = [], a_must_change = False, a_pw_updated = 0,
                       a_last_login = None, a_created = 0\<rparr>]\<rparr>,
          seqs := (seqs empty_db)\<lparr>q_products := 2, q_admins := 2\<rparr>\<rparr>,
      w_store = \<lparr>st_tmp = [(0, PDF_MAGIC)], st_files = []\<rparr>\<rparr>"

definition sample_upload :: validated_upload where
  "sample_upload = \<lparr>vu_tmp = 0, vu_filename = u ''a.pdf'', vu_size = 5, vu_sha = replicate 64 48\<rparr>"

lemma sample_world_inv: "world_inv (\<lambda>_. replicate 64 48) sample_world"
  by (simp add: sample_world_def world_inv_def empty_db_def db_inv_def keys_ok_def key_ok_def uniques_ok_def
      checks_ok_def fks_ok_def new_product_def numbered_def pointed_def versions_of_def store_inv_def
      ck_products_code_format_def product_widths_def code_char_def is_upper_def is_digit_def)

lemma sample_upload_ok: "upload_ok (\<lambda>_. replicate 64 48) sample_upload (w_store sample_world)"
  by (simp add: sample_world_def sample_upload_def upload_ok_def PDF_MAGIC_def)

lemma sample_no_collision: "no_collision sample_upload digest (w_store sample_world)"
  by (simp add: sample_world_def no_collision_def)

text \<open>The sample upload succeeds.\<close>

lemma sample_upload_answer: "upload_answer 1 1 sample_upload (w_db sample_world) = None"
  by (simp add: upload_answer_def select_product_def select_admin_def sample_world_def new_product_def)

lemma sample_sha: "hex_text 64 (vu_sha sample_upload)"
  by (simp add: sample_upload_def hex_text_def is_hex_def is_digit_def list_all_iff)

theorem upload_records_version_witness:
  "\<exists>pv w'. upload_pdf no_faults calm True 3 1 1 sample_upload None sample_world = (Inr pv, w')
     \<and> upload_success (\<lambda>_. replicate 64 48) 3 1 1 sample_upload None sample_world pv w'"
proof -
  from upload_pdf_answer [OF sample_world_inv sample_upload_ok sample_no_collision sample_sha, where pid = 1 and actor = 1
      and up = True and now = 3 and req = None]
  obtain pv w' where u: "upload_pdf no_faults calm True 3 1 1 sample_upload None sample_world = (Inr pv, w')"
    by (auto simp: sample_upload_answer prod_eq_iff)
  from upload_records_version [OF sample_world_inv sample_upload_ok this] u show ?thesis by blast
qed



text \<open>
  The abstract outcome of an upload that raised, at whatever point and for whatever reason: the
  caller sees a cancellation or an application error, every table but the audit trail is as before,
  the audit trail has gained one rejection event exactly when the independent connection works, no
  formal file was changed, and the temporary file is gone unless its unlink failed.
\<close>

definition upload_refused :: "bool \<Rightarrow> bool \<Rightarrow> int \<Rightarrow> int \<Rightarrow> validated_upload \<Rightarrow> world \<Rightarrow> exc \<Rightarrow> world \<Rightarrow> bool" where
  "upload_refused up unlink_fails now pid vu w e w' \<longleftrightarrow>
     (is_cancel e \<or> app_error_code e \<noteq> None)
     \<and> (\<exists>extra. tabs (w_db w') = (tabs (w_db w))\<lparr>t_audit := t_audit (tabs (w_db w)) @ extra\<rparr>
        \<and> map (\<lambda>r. (e_at r, ev_action (e_event r), ev_result (e_event r), ev_target (e_event r))) extra
          = (if up then [(now, ''pdf_upload_rejected'', Failure, Some pid)] else []))
     \<and> files_kept (w_store w) (w_store w')
     \<and> (if unlink_fails then True else map_of (st_tmp (w_store w')) (vu_tmp vu) = None)"

lemma map_of_drop_tmp: "map_of (st_tmp (drop_tmp t st)) t = None"
  by (auto simp: drop_tmp_def map_of_eq_None_iff)

lemma upload_pdf_refused:
  assumes i: "db_inv (w_db w)" and u: "upload_pdf faults pe up now pid actor vu req w = (Inl e, w')"
  shows "upload_refused up (pe_unlink_fails pe) now pid vu w e w'"
proof -
  from upload_pdf_Inl [OF i u] obtain e0 reason pub w1 pub0 where
    b: "upload_block faults pe now pid actor vu req w = (Inl e0, pub0, locked_code faults pid (w_db w), w1)" and
    e: "e = (if is_cancel e0 \<or> app_error_code e0 \<noteq> None then e0 else AppError ''pdf_upload_failed'' 500)" and
    d': "w_db w' = snd (append_independent_event up now
        (upload_rejection_event pid actor (locked_code faults pid (w_db w)) req reason (vu_sha vu) pub) (w_db w1))" and
    st': "w_store w' = discard (pe_unlink_fails pe) vu (w_store w1)" by metis
  note bl = upload_block_Inl [OF i b]
  have "files_kept (w_store w) (w_store w')"
    using bl(3) st' by (auto simp: files_kept_def dest: publish_kept)
  moreover have "is_cancel e \<or> app_error_code e \<noteq> None" using e by auto
  moreover have "\<exists>extra. tabs (w_db w') = (tabs (w_db w))\<lparr>t_audit := t_audit (tabs (w_db w)) @ extra\<rparr>
        \<and> map (\<lambda>r. (e_at r, ev_action (e_event r), ev_result (e_event r), ev_target (e_event r))) extra
          = (if up then [(now, ''pdf_upload_rejected'', Failure, Some pid)] else [])"
    unfolding d' independent_event_tabs [OF rejection_event_widths [OF i]] bl(1)
    by (cases up) (auto simp: upload_rejection_event_def)
  ultimately show ?thesis
    by (simp add: upload_refused_def st' discard_def map_of_drop_tmp)
qed



text \<open>The sample database with one version.\<close>

definition sample_versioned :: db where
  "sample_versioned =
     \<lparr>tabs = (tabs (w_db sample_world))\<lparr>
        t_files := [\<lparr>f_id = 1, f_sha = [], f_size = 5, f_path = [], f_created = 0\<rparr>],
        t_versions := [\<lparr>v_id = 1, v_product = 1, v_file = 1, v_no = 1, v_filename = [], v_by = 1, v_at = 0\<rparr>],
        t_products := [(new_product 0 1 (u ''AB-1'') (u ''Valve'') (u ''TOKEN''))\<lparr>p_current := Some 1\<rparr>]\<rparr>,
      seqs = \<lparr>q_products = 2, q_files = 2, q_versions = 2, q_admins = 2, q_audit = 1\<rparr>\<rparr>"

lemma sample_versioned_inv: "db_inv sample_versioned"
  by (simp add: sample_versioned_def sample_world_def empty_db_def db_inv_def keys_ok_def key_ok_def uniques_ok_def
      checks_ok_def fks_ok_def fk_current_ok_def new_product_def ck_products_code_format_def product_widths_def
      code_char_def is_upper_def is_digit_def)

lemma sample_versioned_numbered: "numbered (tabs sample_versioned)" and sample_versioned_pointed: "pointed (tabs sample_versioned)"
  by (simp_all add: sample_versioned_def sample_world_def numbered_def pointed_def versions_of_def new_product_def)

lemma sample_versioned_select:
  "select_product 1 sample_versioned = Some ((new_product 0 1 (u ''AB-1'') (u ''Valve'') (u ''TOKEN''))\<lparr>p_current := Some 1\<rparr>)"
  by (simp add: sample_versioned_def select_product_def new_product_def)

text \<open>
  The abstract outcome of a restore: 404 for an unknown product or a version of another product,
  with nothing changed; otherwise only the product's pointer and change time move, and one audit
  event names both version numbers. Versions and files are untouched.
\<close>

definition restore_spec :: "int \<Rightarrow> int \<Rightarrow> int \<Rightarrow> int \<Rightarrow> nat option \<Rightarrow> db \<Rightarrow> restored_version res \<times> db \<Rightarrow> bool" where
  "restore_spec now pid vid actor req d out =
     (case select_product pid d of
        None \<Rightarrow> out = (Inl (AppError ''product_not_found'' 404), d)
      | Some prow \<Rightarrow>
          (case select_version pid vid d of
             None \<Rightarrow> out = (Inl (AppError ''version_not_found_for_product'' 404), d)
           | Some target \<Rightarrow>
               fst out = Inr \<lparr>rv_product = pid, rv_version = vid, rv_no = v_no target\<rparr>
               \<and> (\<exists>from_no. tabs (snd out) = (tabs d)\<lparr>
                    t_products := update_where (\<lambda>p. p_id p = pid) (\<lambda>p. p\<lparr>p_current := Some vid, p_updated := now\<rparr>) (t_products (tabs d)),
                    t_audit := t_audit (tabs d) @ [\<lparr>e_id = q_audit (seqs d), e_at = now,
                      e_event = admin_event ''version_restore'' actor ''version'' vid (Some (p_code prow)) req
                        (Some [(''from_version_no'', DInt from_no), (''to_version_no'', DInt (v_no target))])\<rparr>]\<rparr>
                  \<and> (\<exists>c v. p_current prow = Some c \<and> select_version pid c d = Some v \<and> from_no = v_no v))))"

text \<open>Restoring a version implements its abstract outcome in every state of the invariants.\<close>

theorem restore_outcome:
  assumes i: "db_inv d" and pt: "pointed (tabs d)"
  shows "restore_spec now pid vid actor req d (restore_pdf_version now pid vid actor req d)"
proof (cases "select_product pid d")
  case None
  then show ?thesis by (simp add: restore_spec_def restore_pdf_version_def transaction_def)
next
  case p: (Some prow)
  from select_productD [OF p] have row: "prow \<in> set (t_products (tabs d))" "p_id prow = pid" by auto
  show ?thesis
  proof (cases "select_version pid vid d")
    case None
    with p show ?thesis by (simp add: restore_spec_def restore_pdf_version_def transaction_def)
  next
    case t: (Some target)
    from select_versionD [OF t] have "target \<in> set (versions_of pid (tabs d))" by (simp add: versions_of_def)
    then have "p_current prow \<noteq> None"
      using pt row by (auto simp: pointed_def list_all_iff)
    then obtain c where c: "p_current prow = Some c" by auto
    from select_version_current [OF i row(1) c] row(2) obtain v where v: "select_version pid c d = Some v" by metis
    let ?f = "\<lambda>p. p\<lparr>p_current := Some vid, p_updated := now\<rparr>"
    have "fk_current_ok (tabs d) (?f prow)"
      using select_versionD [OF t] row by (auto simp: fk_current_ok_def list_ex_iff)
    then have up: "update_product pid ?f d = (Inr (Some (?f prow)),
        upd_tabs (\<lambda>t. t\<lparr>t_products := update_where (\<lambda>p. p_id p = pid) ?f (t_products t)\<rparr>) d)"
      using p by (simp add: update_product_def trg_products_immutable_def)
    have "length (p_code prow) \<le> 64"
      using i row by (auto simp: db_inv_def checks_ok_def list_all_iff ck_products_code_format_def)
    with p t c v up show ?thesis
      by (simp add: restore_spec_def restore_pdf_version_def transaction_def dbind_def append_event_def Let_def audit_widths_def)
  qed
qed

theorem restore_outcome_witness:
  "restore_spec 4 1 1 1 None sample_versioned (restore_pdf_version 4 1 1 1 None sample_versioned)"
  by (rule restore_outcome [OF sample_versioned_inv sample_versioned_pointed])

text \<open>
  The history of a product lists all its versions and no other, newest number first without
  repetition, each with its uploader's name; and exactly one entry is marked current when the
  product has a version.
\<close>

theorem history_complete:
  assumes i: "db_inv d" and n: "numbered (tabs d)" and pt: "pointed (tabs d)" and p: "select_product pid d = Some prow"
  shows "\<exists>hs. list_pdf_versions pid d = Inr hs
     \<and> set (map hi_version hs) = set (versions_of pid (tabs d)) \<and> length hs = length (versions_of pid (tabs d))
     \<and> sorted_wrt (\<lambda>a b. v_no (hi_version b) < v_no (hi_version a)) hs
     \<and> length (filter hi_current hs) = (if versions_of pid (tabs d) = [] then 0 else 1)"
proof -
  from select_productD [OF p] have row: "prow \<in> set (t_products (tabs d))" "p_id prow = pid" by auto
  let ?vs = "versions_of pid (tabs d)" and ?s = "sort_key (\<lambda>v. - v_no v) (versions_of pid (tabs d))"
  define item where "item v = \<lparr>hi_version = v, hi_username = a_username (the (select_admin (v_by v) d)),
      hi_current = (p_current prow = Some (v_id v))\<rparr>" for v
  have "select_admin (v_by v) d \<noteq> None" if "v \<in> set (t_versions (tabs d))" for v
  proof -
    have "v_by v \<in> a_id ` set (t_admins (tabs d))" using i that by (simp add: db_inv_def fks_ok_def)
    then show ?thesis by (auto simp: select_admin_def find_None_iff)
  qed
  then have e: "map_option (\<lambda>a. \<lparr>hi_version = v, hi_username = a_username a, hi_current = (p_current prow = Some (v_id v))\<rparr>)
      (select_admin (v_by v) d) = Some (item v)" if "v \<in> set ?s" for v
    using that by (fastforce simp: item_def versions_of_def)
  have l: "list_pdf_versions pid d = Inr (map item ?s)"
    unfolding list_pdf_versions_def p option.case versions_of_def [symmetric]
    by (simp only: map_filter_total [of ?s, OF e])
  have "distinct (map v_no ?vs)" using n by (simp add: numbered_def distinct_map)
  then have "sorted_wrt (\<lambda>a b. v_no b < v_no a) ?s" by (rule sorted_desc)
  then have sorted: "sorted_wrt (\<lambda>a b. v_no (hi_version b) < v_no (hi_version a)) (map item ?s)"
    by (simp add: sorted_wrt_map item_def)
  have "length (filter hi_current (map item ?s)) = length (filter (\<lambda>v. p_current prow = Some (v_id v)) ?vs)"
    by (simp add: filter_map o_def item_def filter_sort)
  also have "\<dots> = (if ?vs = [] then 0 else 1)"
  proof (cases "?vs = []")
    case False
    then obtain c where c: "p_current prow = Some c" using pt row by (auto simp: pointed_def list_all_iff)
    from select_version_current [OF i row(1) c] row(2) obtain v where v: "v \<in> set (t_versions (tabs d))" "v_product v = pid" "v_id v = c"
      by metis
    have dk: "distinct (map v_id ?vs)"
      using i by (simp add: db_inv_def keys_ok_def key_ok_def versions_of_def distinct_map_filter)
    have "v \<in> set ?vs" using v by (simp add: versions_of_def)
    then have "filter (\<lambda>x. v_id x = c) ?vs = [v]"
      using filter_unique_key [OF dk, of v] v(3) by simp
    then show ?thesis using False c by (simp add: eq_commute [of c])
  qed simp
  finally show ?thesis using l sorted by (intro exI [of _ "map item ?s"]) (simp add: item_def image_image)
qed

theorem history_complete_witness:
  "\<exists>hs. list_pdf_versions 1 sample_versioned = Inr hs
     \<and> set (map hi_version hs) = set (versions_of 1 (tabs sample_versioned)) \<and> length hs = length (versions_of 1 (tabs sample_versioned))
     \<and> sorted_wrt (\<lambda>a b. v_no (hi_version b) < v_no (hi_version a)) hs
     \<and> length (filter hi_current hs) = (if versions_of 1 (tabs sample_versioned) = [] then 0 else 1)"
  by (rule history_complete [OF sample_versioned_inv sample_versioned_numbered sample_versioned_pointed sample_versioned_select])

end
