(* ===== verification/Public_Scan.thy ===== *)
theory Public_Scan
  imports Version_Service
begin

text \<open>
  \<open>domains/public/service.py\<close> and \<open>router.py\<close>: the four public states of a token, the limiter of
  missing-token probes, and the scan endpoint with its response and its headers.

  Clock readings are integers (the code compares monotonic readings only). The limiter's clock is
  read once to expire old misses and once more for the time of a new one.
\<close>

section \<open>Public documents\<close>

datatype public_state = Missing | Public_Disabled | Unuploaded | Available

record public_document =
  pd_state :: public_state
  pd_path :: "ustr list option"
  pd_filename :: "ustr option"
  pd_size :: "int option"

definition bare :: "public_state \<Rightarrow> public_document" where
  "bare s = \<lparr>pd_state = s, pd_path = None, pd_filename = None, pd_size = None\<rparr>"

text \<open>\<open>path.is_file()\<close> for a resolved path.\<close>

definition is_formal_file :: "(ustr list \<Rightarrow> ustr list) \<Rightarrow> ustr list \<Rightarrow> store \<Rightarrow> ustr list \<Rightarrow> bool" where
  "is_formal_file resolve root st path =
     list_ex (\<lambda>(p, f). resolve (root @ split_on 47 p) = path) (st_files st)"

text \<open>The query's \<open>LEFT JOIN\<close>s: the current version and its file, when they are there.\<close>

definition joined_version :: "p_row \<Rightarrow> db \<Rightarrow> v_row option" where
  "joined_version p d = (case p_current p of None \<Rightarrow> None | Some vid \<Rightarrow> select_version (p_id p) vid d)"

definition joined_file :: "p_row \<Rightarrow> db \<Rightarrow> f_row option" where
  "joined_file p d = (case joined_version p d of None \<Rightarrow> None | Some v \<Rightarrow> select_file (v_file v) d)"

definition resolve_public_document ::
    "(ustr list \<Rightarrow> ustr list) \<Rightarrow> ustr list \<Rightarrow> ustr \<Rightarrow> world \<Rightarrow> public_document res" where
  "resolve_public_document resolve root token w =
     (case select_product_by_token token (w_db w) of
        None \<Rightarrow> Inr (bare Missing)
      | Some p \<Rightarrow>
          if p_status p = Disabled then Inr (bare Public_Disabled)
          else if p_current p = None then Inr (bare Unuploaded)
          else
            (case (joined_file p (w_db w), joined_version p (w_db w)) of
               (Some f, Some v) \<Rightarrow>
                 (case resolve_formal_path resolve root (f_path f) of
                    Inl e \<Rightarrow> Inl e
                  | Inr path \<Rightarrow>
                      if \<not> is_formal_file resolve root (w_store w) path
                        then Inl (RuntimeError ''Current PDF file is missing'')
                      else Inr \<lparr>pd_state = Available, pd_path = Some path, pd_filename = Some (v_filename v),
                                pd_size = Some (f_size f)\<rparr>)
             | _ \<Rightarrow> Inl (RuntimeError ''Current PDF metadata cannot be resolved'')))"

section \<open>The limiter of missing tokens\<close>

record miss_limiter =
  ml_limit :: int
  ml_window :: int
  ml_misses :: "ustr \<Rightarrow> int list"

definition active_misses :: "int \<Rightarrow> ustr \<Rightarrow> miss_limiter \<Rightarrow> miss_limiter" where
  "active_misses now source lim =
     lim\<lparr>ml_misses := (ml_misses lim)(source := dropWhile (\<lambda>t. t \<le> now - ml_window lim) (ml_misses lim source))\<rparr>"

definition is_limited :: "int \<Rightarrow> ustr \<Rightarrow> miss_limiter \<Rightarrow> bool \<times> miss_limiter" where
  "is_limited now source lim =
     (let lim1 = active_misses now source lim
      in (ml_limit lim \<le> int (length (ml_misses lim1 source)), lim1))"

definition register_miss :: "int \<Rightarrow> int \<Rightarrow> ustr \<Rightarrow> miss_limiter \<Rightarrow> bool \<times> miss_limiter" where
  "register_miss now1 now2 source lim =
     (let lim1 = active_misses now1 source lim;
          was_limited = (ml_limit lim \<le> int (length (ml_misses lim1 source)));
          lim2 = lim1\<lparr>ml_misses := (ml_misses lim1)(source := ml_misses lim1 source @ [now2])\<rparr>
      in (\<not> was_limited \<and> ml_limit lim \<le> int (length (ml_misses lim2 source)), lim2))"

section \<open>Headers\<close>

text \<open>\<open>urllib.parse.quote(text, safe='')\<close>.\<close>

definition hex_digit :: "nat \<Rightarrow> nat" where
  "hex_digit n = (if n < 10 then 48 + n else 55 + n)"

definition unreserved :: "nat \<Rightarrow> bool" where
  "unreserved c \<longleftrightarrow> is_alnum c \<or> c = 95 \<or> c = 46 \<or> c = 45 \<or> c = 126"

definition quote_byte :: "nat \<Rightarrow> ustr" where
  "quote_byte b = (if unreserved b then [b] else [37, hex_digit (b div 16), hex_digit (b mod 16)])"

definition quote :: "ustr \<Rightarrow> ustr" where
  "quote s = concat (map quote_byte (utf8 s))"

section \<open>The scan endpoint\<close>

datatype scan_response =
    Too_Many_Requests
  | Status_Page public_state
  | Stream "ustr list" ustr ustr

text \<open>
  \<open>public_scan\<close>; \<open>t0\<close>, \<open>t1\<close>, \<open>t2\<close> are the clock readings, \<open>up\<close> and \<open>req\<close> belong to the independent
  audit write. A stream carries its path, \<open>Content-Disposition\<close> and \<open>Content-Length\<close>.
\<close>

definition public_scan ::
    "(ustr list \<Rightarrow> ustr list) \<Rightarrow> ustr list \<Rightarrow> int \<Rightarrow> int \<Rightarrow> int \<Rightarrow> bool \<Rightarrow> int \<Rightarrow> nat \<Rightarrow> ustr option \<Rightarrow> ustr
     \<Rightarrow> world \<times> miss_limiter \<Rightarrow> scan_response res \<times> world \<times> miss_limiter" where
  "public_scan resolve root t0 t1 t2 up now req client token s =
     (case s of (w, lim) \<Rightarrow>
        let source = (case client of Some h \<Rightarrow> h | None \<Rightarrow> u ''unknown'')
        in case is_limited t0 source lim of
             (True, lim1) \<Rightarrow> (Inr Too_Many_Requests, w, lim1)
           | (False, lim1) \<Rightarrow>
               (case resolve_public_document resolve root token w of
                  Inl e \<Rightarrow> (Inl e, w, lim1)
                | Inr doc \<Rightarrow>
                    (case pd_state doc of
                       Missing \<Rightarrow>
                         (case register_miss t1 t2 source lim1 of
                            (newly_limited, lim2) \<Rightarrow>
                              (Inr (Status_Page Missing),
                               (if newly_limited then
                                  w\<lparr>w_db := snd (append_independent_event up now
                                     \<lparr>ev_action = ''public_token_probe'', ev_result = Failure, ev_actor_type = ''anonymous'',
                                      ev_actor = None, ev_target_type = None, ev_target = None, ev_code = None,
                                      ev_request = Some req,
                                      ev_detail = Some [(''miss_limit'', DInt (ml_limit lim1)),
                                                        (''observed_misses'', DInt (ml_limit lim1)),
                                                        (''source_ip'', DStr source)]\<rparr> (w_db w))\<rparr>
                                else w),
                               lim2))
                     | Public_Disabled \<Rightarrow> (Inr (Status_Page Public_Disabled), w, lim1)
                     | Unuploaded \<Rightarrow> (Inr (Status_Page Unuploaded), w, lim1)
                     | Available \<Rightarrow>
                         (case (pd_path doc, pd_filename doc, pd_size doc) of
                            (Some path, Some filename, Some sz) \<Rightarrow>
                              (Inr (Stream path (u ''inline; filename*=UTF-8'' @ [39, 39] @ quote filename) (show_int sz)), w, lim1)
                          | _ \<Rightarrow> (Inl (RuntimeError ''Available public document lacks file metadata''), w, lim1)))))"

definition scan_status :: "scan_response res \<Rightarrow> nat" where
  "scan_status r = (case r of Inl _ \<Rightarrow> 500 | Inr Too_Many_Requests \<Rightarrow> 429 | Inr _ \<Rightarrow> 200)"

section \<open>Lemmas on the limiter\<close>

text \<open>A miss as the clock saw it: source, reading for the expiry, reading of the miss.\<close>

type_synonym miss = "ustr \<times> int \<times> int"

definition register_all :: "miss list \<Rightarrow> miss_limiter \<Rightarrow> miss_limiter" where
  "register_all ms lim = fold (\<lambda>(s, t1, t2) l. snd (register_miss t1 t2 s l)) ms lim"

definition readings :: "miss list \<Rightarrow> int list" where
  "readings ms = concat (map (\<lambda>(s, t1, t2). [t1, t2]) ms)"

definition times_of :: "ustr \<Rightarrow> miss list \<Rightarrow> int list" where
  "times_of s ms = map (\<lambda>(s', t1, t2). t2) (filter (\<lambda>(s', t1, t2). s' = s) ms)"

definition fresh_limiter :: "int \<Rightarrow> int \<Rightarrow> miss_limiter" where
  "fresh_limiter limit window = \<lparr>ml_limit = limit, ml_window = window, ml_misses = (\<lambda>_. [])\<rparr>"

lemma register_miss_misses:
  "ml_misses (snd (register_miss t1 t2 s lim)) =
     (ml_misses lim)(s := dropWhile (\<lambda>t. t \<le> t1 - ml_window lim) (ml_misses lim s) @ [t2])"
  by (simp add: register_miss_def active_misses_def Let_def)

lemma register_miss_params [simp]:
  "ml_limit (snd (register_miss t1 t2 s lim)) = ml_limit lim"
  "ml_window (snd (register_miss t1 t2 s lim)) = ml_window lim"
  by (simp_all add: register_miss_def active_misses_def Let_def)

lemma dropWhile_older:
  "a \<le> b \<Longrightarrow> dropWhile (\<lambda>t. t \<le> (b :: int)) (dropWhile (\<lambda>t. t \<le> a) xs) = dropWhile (\<lambda>t. t \<le> b) xs"
  by (induction xs) auto

lemma dropWhile_snoc_later:
  "a \<le> b \<Longrightarrow> dropWhile (\<lambda>t. t \<le> (b :: int)) (dropWhile (\<lambda>t. t \<le> a) xs @ [y]) = dropWhile (\<lambda>t. t \<le> b) (xs @ [y])"
  by (induction xs) auto

lemma times_of_snoc: "times_of s (ms @ [(s', t1, t2)]) = times_of s ms @ (if s' = s then [t2] else [])"
  by (simp add: times_of_def)

lemma times_in_readings: "set (times_of s ms) \<subseteq> set (readings ms)"
  by (auto simp: times_of_def readings_def)

lemma sorted_times: "sorted (readings ms) \<Longrightarrow> sorted (times_of s ms)"
proof (induction ms rule: rev_induct)
  case (snoc m ms)
  obtain s' t1 t2 where m: "m = (s', t1, t2)" by (cases m)
  from snoc.prems have "sorted (readings ms)" and "\<forall>t \<in> set (readings ms). t \<le> t2"
    by (auto simp: readings_def m sorted_append)
  with snoc.IH times_in_readings [of s ms] show ?case
    by (auto simp: m times_of_snoc sorted_append)
qed (simp add: times_of_def)

text \<open>
  The queue of a source is what is left of all its misses after dropping the expired ones: the
  queue forgets only what no later question can count.
\<close>

lemma queue_is_window:
  assumes "sorted (readings ms @ [now])"
  shows "dropWhile (\<lambda>t. t \<le> now - window) (ml_misses (register_all ms (fresh_limiter limit window)) s)
     = dropWhile (\<lambda>t. t \<le> now - window) (times_of s ms)"
  using assms
proof (induction ms arbitrary: now rule: rev_induct)
  case Nil
  then show ?case by (simp add: register_all_def times_of_def fresh_limiter_def)
next
  case (snoc m ms)
  obtain s' t1 t2 where m: "m = (s', t1, t2)" by (cases m)
  from snoc.prems have srt: "sorted (readings ms @ [t1])" "t1 \<le> now" "sorted (readings ms @ [now])"
    by (auto simp: readings_def m sorted_append)
  let ?l = "register_all ms (fresh_limiter limit window)"
  have w: "ml_window ?l = window"
    by (induction ms rule: rev_induct) (auto simp: register_all_def fresh_limiter_def split: prod.splits)
  have l: "register_all (ms @ [m]) (fresh_limiter limit window) = snd (register_miss t1 t2 s' ?l)"
    by (simp add: register_all_def m)
  show ?case
  proof (cases "s' = s")
    case True
    have "dropWhile (\<lambda>t. t \<le> t1 - window) (ml_misses ?l s) = dropWhile (\<lambda>t. t \<le> t1 - window) (times_of s ms)"
      by (rule snoc.IH [OF srt(1)])
    then show ?thesis
      unfolding l using True srt(2) by (simp add: register_miss_misses w times_of_snoc m dropWhile_snoc_later)
  next
    case False
    then show ?thesis unfolding l using snoc.IH [OF srt(3)] by (simp add: register_miss_misses times_of_snoc m)
  qed
qed

lemma sorted_dropWhile_filter: "sorted xs \<Longrightarrow> dropWhile (\<lambda>t. t \<le> (c :: int)) xs = filter (\<lambda>t. c < t) xs"
proof (induction xs)
  case (Cons x xs)
  show ?case
  proof (cases "c < x")
    case True
    then have "\<forall>t \<in> set (x # xs). c < t" using Cons.prems by auto
    then have "filter (\<lambda>t. c < t) (x # xs) = x # xs" by (rule filter_True)
    with True show ?thesis by simp
  qed (use Cons in auto)
qed simp

lemma register_all_params [simp]:
  "ml_limit (register_all ms lim) = ml_limit lim" "ml_window (register_all ms lim) = ml_window lim"
  by (induction ms rule: rev_induct) (auto simp: register_all_def split: prod.splits)

lemma window_count:
  assumes "sorted (readings ms @ [now])"
  shows "ml_misses (active_misses now s (register_all ms (fresh_limiter limit window))) s
     = filter (\<lambda>t. now - window < t) (times_of s ms)"
proof -
  have "sorted (times_of s ms)" using assms by (intro sorted_times) (simp add: sorted_append)
  with queue_is_window [OF assms] show ?thesis
    by (simp add: active_misses_def fresh_limiter_def sorted_dropWhile_filter)
qed

section \<open>Lemmas on headers\<close>

lemma hex_digit_safe: "n < 16 \<Longrightarrow> is_digit (hex_digit n) \<or> is_upper (hex_digit n)"
  by (auto simp: hex_digit_def is_digit_def is_upper_def)

lemma nibble: "b < 256 \<Longrightarrow> b div 16 < (16 :: nat)"
  by simp

lemma quote_byte_safe:
  "b < 256 \<Longrightarrow> c \<in> set (quote_byte b) \<Longrightarrow> unreserved c \<or> c = 37"
  using nibble hex_digit_safe [of "b div 16"] hex_digit_safe [of "b mod 16"]
  by (auto simp: quote_byte_def unreserved_def is_alnum_def split: if_splits)

definition unhex :: "nat \<Rightarrow> nat" where
  "unhex c = (if is_digit c then c - 48 else c - 55)"

fun unquote_bytes :: "ustr \<Rightarrow> nat list" where
  "unquote_bytes (c # a # b # cs) =
     (if c = 37 then (unhex a * 16 + unhex b) # unquote_bytes cs else c # unquote_bytes (a # b # cs))"
| "unquote_bytes cs = cs"

lemma unhex_hex: "n < 16 \<Longrightarrow> unhex (hex_digit n) = n"
  by (auto simp: unhex_def hex_digit_def is_digit_def)

lemma unquote_plain: "c \<noteq> 37 \<Longrightarrow> unquote_bytes (c # cs) = c # unquote_bytes cs"
  by (cases cs rule: unquote_bytes.cases) auto

lemma unreserved_not_percent: "unreserved b \<Longrightarrow> b \<noteq> 37"
  by (auto simp: unreserved_def is_alnum_def is_digit_def is_upper_def is_lower_def)

lemma unquote_quote_bytes:
  "list_all (\<lambda>b. b < 256) bs \<Longrightarrow> unquote_bytes (concat (map quote_byte bs)) = bs"
proof (induction bs)
  case (Cons b bs)
  then show ?case
    by (cases "unreserved b") (simp_all add: quote_byte_def unquote_plain unreserved_not_percent unhex_hex nibble)
qed simp

section \<open>Properties\<close>

text \<open>
  C38. The limiter is exactly a sliding window: after any sequence of misses on a clock that does not
  go back, a source is limited at time \<open>now\<close> precisely when it has at least \<open>limit\<close> misses younger
  than the window, however the misses of other sources are interleaved and whatever the queue has
  already forgotten; and a miss reports that it reached the threshold precisely when it is the one
  that crosses it.
\<close>

theorem limiter_is_window:
  assumes "sorted (readings ms @ [now])"
  shows "fst (is_limited now s (register_all ms (fresh_limiter limit window)))
           = (limit \<le> int (length (filter (\<lambda>t. now - window < t) (times_of s ms))))
       \<and> fst (register_miss now now' s (register_all ms (fresh_limiter limit window)))
           = (limit = int (length (filter (\<lambda>t. now - window < t) (times_of s ms))) + 1)"
  using window_count [OF assms, of s limit window]
  by (auto simp: is_limited_def register_miss_def Let_def)
     (auto simp: active_misses_def fresh_limiter_def)

theorem limiter_is_window_witness:
  "fst (is_limited 11 [7] (register_all [([7], 1, 1), ([8], 2, 3), ([7], 5, 6)] (fresh_limiter 2 10)))
     = (2 \<le> int (length (filter (\<lambda>t. 11 - 10 < t) (times_of [7] [([7], 1, 1), ([8], 2, 3), ([7], 5, 6)]))))
   \<and> fst (register_miss 11 12 [7] (register_all [([7], 1, 1), ([8], 2, 3), ([7], 5, 6)] (fresh_limiter 2 10)))
     = (2 = int (length (filter (\<lambda>t. 11 - 10 < t) (times_of [7] [([7], 1, 1), ([8], 2, 3), ([7], 5, 6)]))) + 1)"
  by (rule limiter_is_window) (simp add: readings_def)

text \<open>
  The file name in a \<open>Content-Disposition\<close> header is inert: whatever the uploaded name contains,
  quotes, semicolons, line breaks or other scripts, the quoted text has only unreserved ASCII
  characters and percent escapes, and decoding the escapes gives back its UTF-8 bytes.
\<close>

theorem quoted_filename_inert:
  assumes "list_all (\<lambda>c. c < 1114112) s"
  shows "list_all (\<lambda>c. unreserved c \<or> c = 37) (quote s) \<and> unquote_bytes (quote s) = utf8 s"
  using utf8_bytes [OF assms] quote_byte_safe unquote_quote_bytes
  by (auto simp: quote_def list_all_iff)

theorem quoted_filename_inert_witness:
  "list_all (\<lambda>c. unreserved c \<or> c = 37) (quote [34, 10, 233, 20013, 128512]) \<and> unquote_bytes (quote [34, 10, 233, 20013, 128512]) = utf8 [34, 10, 233, 20013, 128512]"
  by (rule quoted_filename_inert) simp

text \<open>
  What a token means, from the state alone: unknown, disabled (whether or not there is a document),
  without a document, or the current version with its file.
\<close>

definition token_state :: "ustr \<Rightarrow> db \<Rightarrow> public_state" where
  "token_state token d =
     (case select_product_by_token token d of
        None \<Rightarrow> Missing
      | Some p \<Rightarrow> if p_status p = Disabled then Public_Disabled else if p_current p = None then Unuploaded else Available)"

lemma available_document:
  assumes w: "world_inv digest w" and p: "select_product_by_token token (w_db w) = Some p" and c: "p_current p = Some vid"
  obtains v f obj where "joined_version p (w_db w) = Some v" "joined_file p (w_db w) = Some f" "v_id v = vid" "v_product v = p_id p"
    "map_of (st_files (w_store w)) (f_path f) = Some obj" "digest (fo_bytes obj) = f_sha f" "f_size f = int (length (fo_bytes obj))"
    "resolve_formal_path id root (f_path f) = Inr (root @ split_on 47 (f_path f))"
    "is_formal_file id root (w_store w) (root @ split_on 47 (f_path f))"
proof -
  from w have i: "db_inv (w_db w)" by (simp add: world_inv_def)
  with p have row: "p \<in> set (t_products (tabs (w_db w)))" by (simp add: select_token_iff)
  from current_file_resolves [OF i row c] obtain v f where v: "select_version (p_id p) vid (w_db w) = Some v"
    and f: "select_file (v_file v) (w_db w) = Some f" and m: "f \<in> set (t_files (tabs (w_db w)))" by metis
  from m w have b: "backed digest (w_store w) f" by (auto simp: world_inv_def list_all_iff)
  then have r: "relative_path_for_hash (f_sha f) = Inr (f_path f)" by (simp add: backed_def)
  from b obtain obj where o: "map_of (st_files (w_store w)) (f_path f) = Some obj"
    "digest (fo_bytes obj) = f_sha f" "f_size f = int (length (fo_bytes obj))"
    unfolding backed_def by (cases "map_of (st_files (w_store w)) (f_path f)") simp_all
  have "resolve_formal_path id root (f_path f) = Inr (root @ split_on 47 (f_path f))"
    using relative_path_pattern [OF r] by (simp add: resolve_formal_path_def)
  moreover have "is_formal_file id root (w_store w) (root @ split_on 47 (f_path f))"
    using map_of_SomeD [OF o(1)] by (auto simp: is_formal_file_def list_ex_iff)
  ultimately show thesis
    using that [of v f obj] v f c o select_versionD [OF v] by (simp add: joined_version_def joined_file_def)
qed




end
