(* ===== verification/Auth_Service.thy ===== *)
theory Auth_Service
  imports App_Db
begin

text \<open>
  \<open>domains/auth/service.py\<close>: the sole administrator, passwords and server-side sessions.

  Argon2 is the pair of parameters \<open>hash_pw\<close>, \<open>verify\<close> (a malformed hash verifies nothing), SHA-256
  the parameter \<open>sha\<close>, \<open>str.casefold\<close> the parameter \<open>cf\<close>; the random session id and token are arguments.
  Durations of sessions are seconds, timestamps microseconds.
\<close>

section \<open>Values\<close>

record authenticated_admin =
  aa_id :: int
  aa_username :: ustr
  aa_must_change :: bool
  aa_session :: nat
  aa_expires :: int

record created_session =
  cs_token :: ustr
  cs_admin :: authenticated_admin

definition ADMIN_USERNAME_MAX_LENGTH :: nat where "ADMIN_USERNAME_MAX_LENGTH = 64"
definition PASSWORD_MIN_LENGTH :: nat where "PASSWORD_MIN_LENGTH = 12"

definition normalize_username :: "ustr \<Rightarrow> ustr res" where
  "normalize_username raw =
     (let username = strip raw
      in if username = [] \<or> length username > ADMIN_USERNAME_MAX_LENGTH then Inl (AppError ''invalid_admin_username'' 422)
         else Inr username)"

definition validate_new_password :: "(ustr \<Rightarrow> ustr) \<Rightarrow> ustr \<Rightarrow> ustr \<Rightarrow> unit res" where
  "validate_new_password cf password username =
     (if length password < PASSWORD_MIN_LENGTH then Inl (AppError ''weak_password'' 422)
      else if cf password = cf username then Inl (AppError ''weak_password'' 422)
      else Inr ())"

definition hash_session_token :: "(nat list \<Rightarrow> ustr) \<Rightarrow> ustr \<Rightarrow> ustr" where
  "hash_session_token sha token = sha (utf8 token)"

definition CSRF_DOMAIN_SEPARATOR :: "nat list" where
  "CSRF_DOMAIN_SEPARATOR = u ''product-pdf-qr:csrf:v1'' @ [0]"

definition csrf_token_for_session :: "(nat list \<Rightarrow> ustr) \<Rightarrow> ustr \<Rightarrow> ustr" where
  "csrf_token_for_session sha token = sha (CSRF_DOMAIN_SEPARATOR @ utf8 token)"

section \<open>Statements\<close>

definition select_admin_by_name :: "ustr \<Rightarrow> db \<Rightarrow> a_row option" where
  "select_admin_by_name name d = List.find (\<lambda>a. a_username a = name) (t_admins (tabs d))"

definition insert_admin :: "int \<Rightarrow> ustr \<Rightarrow> ustr \<Rightarrow> db \<Rightarrow> int res \<times> db" where
  "insert_admin now username pw_hash d =
     (let aid = q_admins (seqs d);
          d1 = upd_seqs (\<lambda>q. q\<lparr>q_admins := aid + 1\<rparr>) d;
          row = \<lparr>a_id = aid, a_username = username, a_hash = pw_hash, a_must_change = True, a_pw_updated = now,
                 a_last_login = None, a_created = now\<rparr>
      in if length username > 64 then (Inl DbError, d1)
         else if username \<in> set (map a_username (t_admins (tabs d))) then (Inl (UniqueViolation ''admins_username_key''), d1)
         else (Inr aid, upd_tabs (\<lambda>t. t\<lparr>t_admins := t_admins t @ [row]\<rparr>) d1))"

text \<open>
  \<open>UPDATE admins SET ... WHERE id = %s\<close>: the runtime role may set the password columns and the last
  login only.
\<close>

definition update_admin :: "int \<Rightarrow> (a_row \<Rightarrow> a_row) \<Rightarrow> db \<Rightarrow> unit res \<times> db" where
  "update_admin aid f d =
     (Inr (), upd_tabs (\<lambda>t. t\<lparr>t_admins := update_where (\<lambda>a. a_id a = aid) f (t_admins t)\<rparr>) d)"

definition insert_session :: "int \<Rightarrow> nat \<Rightarrow> int \<Rightarrow> ustr \<Rightarrow> int \<Rightarrow> db \<Rightarrow> int res \<times> db" where
  "insert_session now sid aid token_hash ttl_seconds d =
     (let row = \<lparr>s_id = sid, s_admin = aid, s_hash = token_hash, s_issued = now,
                 s_expires = now + ttl_seconds * 1000000, s_revoked = None\<rparr>
      in if sid \<in> set (map s_id (t_sessions (tabs d))) then (Inl (UniqueViolation ''admin_sessions_pkey''), d)
         else if token_hash \<in> set (map s_hash (t_sessions (tabs d))) then (Inl (UniqueViolation ''admin_sessions_token_hash_key''), d)
         else if select_admin aid d = None then (Inl DbError, d)
         else (Inr (s_expires row), upd_tabs (\<lambda>t. t\<lparr>t_sessions := t_sessions t @ [row]\<rparr>) d))"

definition revoke_where :: "int \<Rightarrow> (s_row \<Rightarrow> bool) \<Rightarrow> db \<Rightarrow> unit res \<times> db" where
  "revoke_where now p d =
     (Inr (), upd_tabs (\<lambda>t. t\<lparr>t_sessions :=
        update_where (\<lambda>s. p s \<and> s_revoked s = None) (\<lambda>s. s\<lparr>s_revoked := Some now\<rparr>) (t_sessions t)\<rparr>) d)"

definition auth_event :: "string \<Rightarrow> int option \<Rightarrow> int \<Rightarrow> audit_event" where
  "auth_event action actor target =
     \<lparr>ev_action = action, ev_result = Success, ev_actor_type = (case actor of None \<Rightarrow> ''system'' | Some _ \<Rightarrow> ''admin''),
      ev_actor = actor, ev_target_type = Some ''admin'', ev_target = Some target, ev_code = None, ev_request = None,
      ev_detail = None\<rparr>"

section \<open>Operations\<close>

definition create_admin ::
    "(ustr \<Rightarrow> ustr) \<Rightarrow> (ustr \<Rightarrow> ustr) \<Rightarrow> int \<Rightarrow> ustr \<Rightarrow> ustr \<Rightarrow> db \<Rightarrow> int res \<times> db" where
  "create_admin cf hash_pw now raw_username password d =
     (case normalize_username raw_username of
        Inl e \<Rightarrow> (Inl e, d)
      | Inr username \<Rightarrow>
          (case validate_new_password cf password username of
             Inl e \<Rightarrow> (Inl e, d)
           | Inr _ \<Rightarrow>
               transaction (\<lambda>d.
                 case sort_key a_id (t_admins (tabs d)) of
                   existing # _ \<Rightarrow>
                     (Inl (AppError (if cf (a_username existing) = cf username then ''admin_already_exists''
                                     else ''single_admin_already_exists'') 409), d)
                 | [] \<Rightarrow>
                     dbind (insert_admin now username (hash_pw password)) (\<lambda>aid.
                     dbind (append_event now (auth_event ''admin_create'' None aid)) (\<lambda>_.
                     Pair (Inr aid))) d) d))"

definition reset_admin_password ::
    "(ustr \<Rightarrow> ustr) \<Rightarrow> (ustr \<Rightarrow> ustr) \<Rightarrow> int \<Rightarrow> ustr \<Rightarrow> ustr \<Rightarrow> db \<Rightarrow> int res \<times> db" where
  "reset_admin_password cf hash_pw now raw_username password d =
     (case normalize_username raw_username of
        Inl e \<Rightarrow> (Inl e, d)
      | Inr username \<Rightarrow>
          (case validate_new_password cf password username of
             Inl e \<Rightarrow> (Inl e, d)
           | Inr _ \<Rightarrow>
               transaction (\<lambda>d.
                 case select_admin_by_name username d of
                   None \<Rightarrow> (Inl (AppError ''admin_not_found'' 404), d)
                 | Some row \<Rightarrow>
                     dbind (update_admin (a_id row) (\<lambda>a. a\<lparr>a_hash := hash_pw password, a_must_change := True, a_pw_updated := now\<rparr>)) (\<lambda>_.
                     dbind (revoke_where now (\<lambda>s. s_admin s = a_id row)) (\<lambda>_.
                     dbind (append_event now (auth_event ''password_reset'' None (a_id row))) (\<lambda>_.
                     Pair (Inr (a_id row))))) d) d))"

text \<open>
  \<open>create_authenticated_session\<close>: an unknown or malformed user name and a wrong password all return
  \<open>None\<close>; each path spends one password verification.
\<close>

definition create_authenticated_session ::
    "(nat list \<Rightarrow> ustr) \<Rightarrow> (ustr \<Rightarrow> ustr \<Rightarrow> bool) \<Rightarrow> int \<Rightarrow> nat \<Rightarrow> ustr \<Rightarrow> ustr \<Rightarrow> ustr \<Rightarrow> int \<Rightarrow> db
     \<Rightarrow> created_session option res \<times> db" where
  "create_authenticated_session sha verify now session_id token raw_username password ttl_seconds d =
     (case normalize_username raw_username of
        Inl _ \<Rightarrow> (Inr None, d)
      | Inr username \<Rightarrow>
          transaction (\<lambda>d.
            case select_admin_by_name username d of
              None \<Rightarrow> (Inr None, d)
            | Some row \<Rightarrow>
                if \<not> verify (a_hash row) password then (Inr None, d)
                else
                  dbind (insert_session now session_id (a_id row) (hash_session_token sha token) ttl_seconds) (\<lambda>expires_at.
                  dbind (update_admin (a_id row) (\<lambda>a. a\<lparr>a_last_login := Some now\<rparr>)) (\<lambda>_.
                  dbind (append_event now (auth_event ''login_success'' (Some (a_id row)) (a_id row))) (\<lambda>_.
                  Pair (Inr (Some \<lparr>cs_token = token,
                    cs_admin = \<lparr>aa_id = a_id row, aa_username = a_username row, aa_must_change = a_must_change row,
                                aa_session = session_id, aa_expires = expires_at\<rparr>\<rparr>))))) d) d)"

definition resolve_session :: "(nat list \<Rightarrow> ustr) \<Rightarrow> int \<Rightarrow> ustr \<Rightarrow> db \<Rightarrow> authenticated_admin option" where
  "resolve_session sha now token d =
     (case List.find (\<lambda>s. s_hash s = hash_session_token sha token \<and> s_revoked s = None \<and> s_expires s > now
                        \<and> select_admin (s_admin s) d \<noteq> None) (t_sessions (tabs d)) of
        None \<Rightarrow> None
      | Some s \<Rightarrow>
          (case select_admin (s_admin s) d of
             None \<Rightarrow> None
           | Some a \<Rightarrow> Some \<lparr>aa_id = a_id a, aa_username = a_username a, aa_must_change = a_must_change a,
                              aa_session = s_id s, aa_expires = s_expires s\<rparr>))"

definition revoke_session :: "int \<Rightarrow> authenticated_admin \<Rightarrow> db \<Rightarrow> unit res \<times> db" where
  "revoke_session now admin =
     transaction
       (dbind (revoke_where now (\<lambda>s. s_id s = aa_session admin \<and> s_admin s = aa_id admin))
         (\<lambda>_. append_event now (auth_event ''admin_logout'' (Some (aa_id admin)) (aa_id admin))))"

definition change_password ::
    "(ustr \<Rightarrow> ustr) \<Rightarrow> (ustr \<Rightarrow> ustr) \<Rightarrow> (ustr \<Rightarrow> ustr \<Rightarrow> bool) \<Rightarrow> int \<Rightarrow> authenticated_admin \<Rightarrow> ustr \<Rightarrow> ustr \<Rightarrow> db
     \<Rightarrow> unit res \<times> db" where
  "change_password cf hash_pw verify now admin current_password new_password d =
     (case validate_new_password cf new_password (aa_username admin) of
        Inl e \<Rightarrow> (Inl e, d)
      | Inr _ \<Rightarrow>
          transaction (\<lambda>d.
            case select_admin (aa_id admin) d of
              None \<Rightarrow> (Inl (AppError ''admin_not_found'' 404), d)
            | Some row \<Rightarrow>
                if \<not> verify (a_hash row) current_password then (Inl (AppError ''invalid_current_password'' 422), d)
                else if verify (a_hash row) new_password then (Inl (AppError ''password_unchanged'' 422), d)
                else
                  dbind (update_admin (aa_id admin) (\<lambda>a. a\<lparr>a_hash := hash_pw new_password, a_must_change := False, a_pw_updated := now\<rparr>)) (\<lambda>_.
                  dbind (revoke_where now (\<lambda>s. s_admin s = aa_id admin \<and> s_id s \<noteq> aa_session admin))
                    (\<lambda>_. append_event now (auth_event ''password_change'' (Some (aa_id admin)) (aa_id admin)))) d) d)"

section \<open>Each statement keeps the invariant\<close>

lemma sessions_frame [simp]:
  "checks_ok (t\<lparr>t_sessions := x\<rparr>) = checks_ok t"
  "keys_ok (t\<lparr>t_sessions := x\<rparr>) q = keys_ok t q"
  by (simp_all add: checks_ok_def keys_ok_def)

lemma insert_admin_step [inv_intro]: "step_ok d (snd (insert_admin now un h d))"
proof -
  let ?q = "(seqs d)\<lparr>q_admins := q_admins (seqs d) + 1\<rparr>"
  have q: "step_ok d (d\<lparr>seqs := ?q\<rparr>)" by (rule step_ok_seqs) (simp_all add: seqs_le_def)
  have add: "step_ok d (d\<lparr>seqs := ?q, tabs := (tabs d)\<lparr>t_admins := t_admins (tabs d) @ [r]\<rparr>\<rparr>)"
    if "a_id r = q_admins (seqs d)" "a_username r \<notin> a_username ` set (t_admins (tabs d))" for r
    unfolding step_ok_def
  proof (intro impI conjI)
    assume i: "db_inv d"
    let ?t = "(tabs d)\<lparr>t_admins := t_admins (tabs d) @ [r]\<rparr>"
    have "keys_ok ?t ?q"
      using i that by (auto simp: db_inv_def keys_ok_def intro: key_ok_append)
    moreover have "uniques_ok ?t" "checks_ok ?t" "fks_ok ?t"
      using i that by (auto simp: db_inv_def uniques_ok_def checks_ok_def fks_ok_def)
    ultimately show "db_inv (d\<lparr>seqs := ?q, tabs := ?t\<rparr>)" by (simp add: db_inv_def)
  qed (simp_all add: tabs_grow_def seqs_le_def)
  show ?thesis
    using q add by (auto simp: insert_admin_def Let_def)
qed

lemma update_admin_step [inv_intro]:
  assumes "\<And>a. a_id (f a) = a_id a" "\<And>a. a_username (f a) = a_username a"
  shows "step_ok d (snd (update_admin aid f d))"
  unfolding step_ok_def
proof (intro impI conjI)
  assume i: "db_inv d"
  let ?as = "update_where (\<lambda>a. a_id a = aid) f (t_admins (tabs d))"
  have m: "map a_id ?as = map a_id (t_admins (tabs d))" "map a_username ?as = map a_username (t_admins (tabs d))"
    using assms by (auto intro: map_update_where)
  then have ids: "a_id ` set ?as = a_id ` set (t_admins (tabs d))" by (metis list.set_map)
  show "db_inv (snd (update_admin aid f d))"
    using i m ids unfolding update_admin_def db_inv_def keys_ok_def uniques_ok_def checks_ok_def fks_ok_def
    by (auto intro: key_ok_map)
qed (use assms in \<open>auto simp: update_admin_def tabs_grow_def map_update_where\<close>)

lemma insert_session_step [inv_intro]: "step_ok d (snd (insert_session now sid aid h ttl d))"
proof -
  have "step_ok d (d\<lparr>tabs := (tabs d)\<lparr>t_sessions := t_sessions (tabs d) @ [r]\<rparr>\<rparr>)"
    if "s_id r \<notin> s_id ` set (t_sessions (tabs d))" "s_hash r \<notin> s_hash ` set (t_sessions (tabs d))"
      "s_admin r \<in> a_id ` set (t_admins (tabs d))" for r
    using that by (auto simp: step_ok_def tabs_grow_def db_inv_def uniques_ok_def fks_ok_def)
  then show ?thesis
    using select_adminD by (fastforce simp: insert_session_def Let_def)
qed

lemma revoke_where_step [inv_intro]: "step_ok d (snd (revoke_where now p d))"
  unfolding step_ok_def
proof (intro impI conjI)
  assume i: "db_inv d"
  let ?ss = "update_where (\<lambda>s. p s \<and> s_revoked s = None) (\<lambda>s. s\<lparr>s_revoked := Some now\<rparr>) (t_sessions (tabs d))"
  have m: "map s_id ?ss = map s_id (t_sessions (tabs d))" "map s_hash ?ss = map s_hash (t_sessions (tabs d))"
    "map s_admin ?ss = map s_admin (t_sessions (tabs d))"
    by (auto intro: map_update_where)
  then have ids: "s_admin ` set ?ss = s_admin ` set (t_sessions (tabs d))" by (metis list.set_map)
  have "s_admin ` set (t_sessions (tabs d)) \<subseteq> a_id ` set (t_admins (tabs d))"
    using i by (auto simp: db_inv_def fks_ok_def)
  then have "\<forall>s \<in> set ?ss. s_admin s \<in> a_id ` set (t_admins (tabs d))"
    unfolding ids [symmetric] by (simp add: image_subset_iff)
  then show "db_inv (snd (revoke_where now p d))"
    using i m by (simp add: revoke_where_def db_inv_def uniques_ok_def fks_ok_def)
qed (simp_all add: revoke_where_def tabs_grow_def)

lemma create_admin_step [inv_intro]: "step_ok d (snd (create_admin cf h now un pw d))"
  unfolding create_admin_def by (auto intro!: inv_intro split: sum.splits list.splits)

lemma reset_step [inv_intro]: "step_ok d (snd (reset_admin_password cf h now un pw d))"
  unfolding reset_admin_password_def by (auto intro!: inv_intro split: sum.splits option.splits)

lemma create_session_step [inv_intro]:
  "step_ok d (snd (create_authenticated_session sha verify now sid tok un pw ttl d))"
  unfolding create_authenticated_session_def by (auto intro!: inv_intro split: sum.splits option.splits)

lemma revoke_session_step [inv_intro]: "step_ok d (snd (revoke_session now admin d))"
  unfolding revoke_session_def by (intro inv_intro)

lemma change_password_step [inv_intro]: "step_ok d (snd (change_password cf h verify now admin cp np d))"
  unfolding change_password_def by (auto intro!: inv_intro split: sum.splits option.splits)

section \<open>Lemmas on sessions\<close>

lemma resolve_sessionD:
  assumes "resolve_session sha now tok d = Some a"
  obtains s row where "s \<in> set (t_sessions (tabs d))" "s_hash s = hash_session_token sha tok" "s_revoked s = None"
    "s_expires s > now" "select_admin (s_admin s) d = Some row"
    "a = \<lparr>aa_id = a_id row, aa_username = a_username row, aa_must_change = a_must_change row,
          aa_session = s_id s, aa_expires = s_expires s\<rparr>"
  using assms by (auto simp: resolve_session_def split: option.splits dest!: find_SomeD)

text \<open>A session that the table holds live is found, since token hashes are unique.\<close>

lemma resolve_sessionI:
  assumes "distinct (map s_hash (t_sessions (tabs d)))" "s \<in> set (t_sessions (tabs d))"
    "s_hash s = hash_session_token sha tok" "select_admin (s_admin s) d = Some row"
  shows "resolve_session sha now tok d =
    (if s_revoked s = None \<and> s_expires s > now
     then Some \<lparr>aa_id = a_id row, aa_username = a_username row, aa_must_change = a_must_change row,
                 aa_session = s_id s, aa_expires = s_expires s\<rparr> else None)"
proof -
  have only: "r = s" if "r \<in> set (t_sessions (tabs d))" "s_hash r = s_hash s" for r
    using assms(1,2) that by (metis distinct_map inj_onD)
  let ?P = "\<lambda>r. s_hash r = hash_session_token sha tok \<and> s_revoked r = None \<and> s_expires r > now \<and> select_admin (s_admin r) d \<noteq> None"
  show ?thesis
  proof (cases "List.find ?P (t_sessions (tabs d))")
    case None
    then have "\<not> ?P s" using assms(2) by (auto simp: find_None_iff)
    with None assms(3,4) show ?thesis by (simp add: resolve_session_def)
  next
    case (Some r)
    with find_SomeD [OF Some] only assms(3) have "r = s" "?P s" by auto
    with Some assms(4) show ?thesis by (simp add: resolve_session_def)
  qed
qed

lemma select_admin_updated:
  assumes "\<And>a. a_id (f a) = a_id a"
  shows "select_admin aid (snd (update_admin aid' f d)) =
    map_option (\<lambda>a. if a_id a = aid' then f a else a) (select_admin aid d)"
  using assms by (simp add: select_admin_def update_admin_def find_update_where)

lemma revoke_where_select [simp]: "select_admin aid (snd (revoke_where now p d)) = select_admin aid d"
  by (simp add: select_admin_def revoke_where_def)

lemma audit_select [simp]: "append_event now e d = (r, d') \<Longrightarrow> select_admin aid d' = select_admin aid d"
  by (auto simp: append_event_def Let_def select_admin_def split: if_splits)

lemma audit_sessions: "append_event now e d = (r, d') \<Longrightarrow> t_sessions (tabs d') = t_sessions (tabs d)"
  by (auto simp: append_event_def Let_def split: if_splits)

text \<open>After a revocation no session that the predicate names is live.\<close>

lemma revoked_not_named:
  assumes "s \<in> set (t_sessions (tabs (snd (revoke_where now p d))))" "s_revoked s = None"
  shows "\<not> p s"
  using assms by (auto simp: revoke_where_def set_update_where split: if_splits dest: arg_cong [of _ _ s_revoked])

lemma auth_event_widths: "length action \<le> 48 \<Longrightarrow> audit_widths (auth_event action actor target)"
  by (simp add: audit_widths_def auth_event_def split: option.split)

lemma snd_update_admin: "update_admin aid f d = (Inr (), snd (update_admin aid f d))"
  by (simp add: update_admin_def)

lemma snd_revoke_where: "revoke_where now p d = (Inr (), snd (revoke_where now p d))"
  by (simp add: revoke_where_def)

section \<open>Properties\<close>

text \<open>
  There is one administrator: with an administrator in the table every creation is refused with
  409 and changes no table; on an empty table an accepted name and password create exactly one,
  who must change the password at the first login.
\<close>

theorem single_administrator:
  assumes "normalize_username raw = Inr name" and "validate_new_password cf pw name = Inr ()"
  shows "case create_admin cf hash_pw now raw pw d of (r, d') \<Rightarrow>
     (if t_admins (tabs d) \<noteq> [] then (\<exists>c. r = Inl (AppError c 409)) \<and> tabs d' = tabs d
      else r = Inr (q_admins (seqs d)) \<and> t_sessions (tabs d') = t_sessions (tabs d)
        \<and> t_admins (tabs d') = [\<lparr>a_id = q_admins (seqs d), a_username = name, a_hash = hash_pw pw, a_must_change = True,
             a_pw_updated = now, a_last_login = None, a_created = now\<rparr>])"
proof -
  have len: "length name \<le> 64"
    using assms(1) by (auto simp: normalize_username_def ADMIN_USERNAME_MAX_LENGTH_def Let_def split: if_splits)
  show ?thesis
  proof (cases "t_admins (tabs d) = []")
    case True
    with assms len show ?thesis
      by (simp add: create_admin_def transaction_def dbind_def insert_admin_def Let_def append_event_ok auth_event_widths)
  next
    case False
    then obtain x xs where "sort_key a_id (t_admins (tabs d)) = x # xs"
      by (metis list.exhaust length_sort length_0_conv)
    with assms False show ?thesis by (simp add: create_admin_def transaction_def)
  qed
qed

theorem single_administrator_witness:
  "case create_admin id id 5 (u ''root '') (u ''correct horse'') empty_db of (r, d') \<Rightarrow>
     (if t_admins (tabs empty_db) \<noteq> [] then (\<exists>c. r = Inl (AppError c 409)) \<and> tabs d' = tabs empty_db
      else r = Inr (q_admins (seqs empty_db)) \<and> t_sessions (tabs d') = t_sessions (tabs empty_db)
        \<and> t_admins (tabs d') = [\<lparr>a_id = q_admins (seqs empty_db), a_username = u ''root'', a_hash = id (u ''correct horse''), a_must_change = True,
             a_pw_updated = 5, a_last_login = None, a_created = 5\<rparr>])"
  by (rule single_administrator)
    (simp_all add: normalize_username_def ADMIN_USERNAME_MAX_LENGTH_def validate_new_password_def PASSWORD_MIN_LENGTH_def
      text_eval)

text \<open>
  C33. A password reset locks everybody out: afterwards no token, old or guessed, resolves to a session
  of that administrator at any time, the stored hash is the one of the temporary password, and the
  next login must change it.
\<close>

theorem reset_revokes_all_sessions:
  assumes "db_inv d" and r: "reset_admin_password cf hash_pw now raw pw d = (Inr aid, d')"
  shows "(case resolve_session sha now' tok d' of None \<Rightarrow> True | Some a \<Rightarrow> aa_id a \<noteq> aid)
    \<and> (\<exists>row. select_admin aid d' = Some row \<and> a_hash row = hash_pw pw \<and> a_must_change row)"
proof -
  from r obtain name where n: "normalize_username raw = Inr name" "validate_new_password cf pw name = Inr ()"
    by (auto simp: reset_admin_password_def split: sum.splits)
  obtain row where row: "select_admin_by_name name d = Some row"
    using r n by (cases "select_admin_by_name name d") (auto simp: reset_admin_password_def transaction_def)
  let ?f = "\<lambda>a. a\<lparr>a_hash := hash_pw pw, a_must_change := True, a_pw_updated := now\<rparr>"
  let ?d1 = "snd (update_admin (a_id row) ?f d)"
  let ?d2 = "snd (revoke_where now (\<lambda>s. s_admin s = a_id row) ?d1)"
  from r n row obtain e where ev: "append_event now (auth_event ''password_reset'' None (a_id row)) ?d2 = (Inr e, d')"
    and aid: "aid = a_id row"
    by (auto simp: reset_admin_password_def transaction_Inr dbind_Inr [OF snd_update_admin] dbind_Inr [OF snd_revoke_where]
        elim!: dbind_InrE)
  from row have "row \<in> set (t_admins (tabs d))" by (auto simp: select_admin_by_name_def dest: find_SomeD)
  with assms(1) have sel: "select_admin aid d = Some row"
    using find_distinct_key [of a_id] by (auto simp: aid select_admin_def db_inv_def keys_ok_def key_ok_def)
  have sel': "select_admin aid d' = Some (?f row)"
    using sel by (simp add: audit_select [OF ev] select_admin_updated aid)
  have "aa_id a \<noteq> aid" if "resolve_session sha now' tok d' = Some a" for a
  proof
    assume eq: "aa_id a = aid"
    from that obtain s row' where s: "s \<in> set (t_sessions (tabs d'))" "s_revoked s = None"
      "select_admin (s_admin s) d' = Some row'" "aa_id a = a_id row'" by (rule resolve_sessionD) auto
    from s(3,4) eq have "s_admin s = a_id row" using select_adminD aid by fastforce
    with revoked_not_named [OF s(1) [unfolded audit_sessions [OF ev]] s(2)] show False by simp
  qed
  then show ?thesis using sel' by (auto split: option.splits)
qed

text \<open>A database with the administrator \<open>root\<close>, whose password text is its own hash, and one session.\<close>

definition sample_auth :: db where
  "sample_auth =
     \<lparr>tabs = (tabs empty_db)\<lparr>
        t_admins := [\<lparr>a_id = 1, a_username = u ''root'', a_hash = u ''correct horse'', a_must_change = True, a_pw_updated = 0,
                     a_last_login = None, a_created = 0\<rparr>],
        t_sessions := [\<lparr>s_id = 7, s_admin = 1, s_hash = [55], s_issued = 0, s_expires = 90000000, s_revoked = None\<rparr>]\<rparr>,
      seqs = (seqs empty_db)\<lparr>q_admins := 2\<rparr>\<rparr>"

lemma sample_auth_inv: "db_inv sample_auth"
  by (simp add: sample_auth_def empty_db_def db_inv_def keys_ok_def key_ok_def uniques_ok_def checks_ok_def fks_ok_def)

lemma sample_username: "normalize_username (u ''root'') = Inr (u ''root'')"
  by (simp add: normalize_username_def ADMIN_USERNAME_MAX_LENGTH_def text_eval)

lemma sample_root: "select_admin_by_name (u ''root'') sample_auth = Some \<lparr>a_id = 1, a_username = u ''root'', a_hash = u ''correct horse'',
    a_must_change = True, a_pw_updated = 0, a_last_login = None, a_created = 0\<rparr>"
  by (simp add: select_admin_by_name_def sample_auth_def)

theorem reset_revokes_all_sessions_witness:
  "\<exists>aid d'. reset_admin_password id id 5 (u ''root'') (u ''battery staple'') sample_auth = (Inr aid, d')
     \<and> (case resolve_session id 6 [55] d' of None \<Rightarrow> True | Some a \<Rightarrow> aa_id a \<noteq> aid)
     \<and> (\<exists>row. select_admin aid d' = Some row \<and> a_hash row = id (u ''battery staple'') \<and> a_must_change row)"
proof -
  have "\<exists>aid d'. reset_admin_password id id 5 (u ''root'') (u ''battery staple'') sample_auth = (Inr aid, d')"
    by (simp add: reset_admin_password_def sample_username sample_root validate_new_password_def PASSWORD_MIN_LENGTH_def
        transaction_def dbind_def update_admin_def revoke_where_def append_event_ok auth_event_widths del: u_Cons u_Nil)
  then show ?thesis using reset_revokes_all_sessions [OF sample_auth_inv] by blast
qed

text \<open>
  A password change keeps only the session it was made from: it succeeds only with the current
  password, afterwards the old text no longer verifies and the new one does, the forced change is
  cleared, and every live session of the administrator is the one that made the change.
\<close>

theorem password_change_keeps_one_session:
  assumes "db_inv d" and hv: "\<forall>p q. verify (hash_pw p) q \<longleftrightarrow> p = q"
    and r: "change_password cf hash_pw verify now admin cur new d = (Inr (), d')"
  shows "(case select_admin (aa_id admin) d of None \<Rightarrow> False | Some row \<Rightarrow> verify (a_hash row) cur)
    \<and> (\<exists>row. select_admin (aa_id admin) d' = Some row \<and> \<not> a_must_change row \<and> verify (a_hash row) new \<and> \<not> verify (a_hash row) cur)
    \<and> (case resolve_session sha now' tok d' of None \<Rightarrow> True
       | Some a \<Rightarrow> if aa_id a = aa_id admin then aa_session a = aa_session admin else True)"
proof -
  from r have v: "validate_new_password cf new (aa_username admin) = Inr ()"
    by (auto simp: change_password_def split: sum.splits)
  obtain row where row: "select_admin (aa_id admin) d = Some row"
    using r v by (cases "select_admin (aa_id admin) d") (auto simp: change_password_def transaction_def)
  have ver: "verify (a_hash row) cur" "\<not> verify (a_hash row) new"
    using r v row by (auto simp: change_password_def transaction_def split: if_splits)
  let ?f = "\<lambda>a. a\<lparr>a_hash := hash_pw new, a_must_change := False, a_pw_updated := now\<rparr>"
  let ?d1 = "snd (update_admin (aa_id admin) ?f d)"
  let ?p = "\<lambda>s. s_admin s = aa_id admin \<and> s_id s \<noteq> aa_session admin"
  let ?d2 = "snd (revoke_where now ?p ?d1)"
  have ev: "append_event now (auth_event ''password_change'' (Some (aa_id admin)) (aa_id admin)) ?d2 = (Inr (), d')"
    using r v row ver by (simp add: change_password_def transaction_Inr dbind_Inr [OF snd_update_admin] dbind_Inr [OF snd_revoke_where])
  have sel: "select_admin (aa_id admin) d' = Some (?f row)"
    using row select_adminD [OF row] by (simp add: audit_select [OF ev] select_admin_updated)
  have "cur \<noteq> new" using ver by auto
  moreover have "aa_session a = aa_session admin"
    if a: "resolve_session sha now' tok d' = Some a" and eq: "aa_id a = aa_id admin" for a
  proof -
    from a obtain s row' where s: "s \<in> set (t_sessions (tabs d'))" "s_revoked s = None"
      "select_admin (s_admin s) d' = Some row'" "aa_id a = a_id row'" "aa_session a = s_id s" by (rule resolve_sessionD) auto
    from s(3,4) eq have "s_admin s = aa_id admin" using select_adminD by fastforce
    with revoked_not_named [OF s(1) [unfolded audit_sessions [OF ev]] s(2)] s(5) show ?thesis by simp
  qed
  ultimately show ?thesis using row ver(1) sel hv by (auto split: option.splits)
qed

definition sample_identity :: authenticated_admin where
  "sample_identity = \<lparr>aa_id = 1, aa_username = u ''root'', aa_must_change = True, aa_session = 7, aa_expires = 90000000\<rparr>"

theorem password_change_keeps_one_session_witness:
  "\<exists>d'. change_password id id (=) 5 sample_identity (u ''correct horse'') (u ''battery staple'') sample_auth = (Inr (), d')
    \<and> (case select_admin (aa_id sample_identity) sample_auth of None \<Rightarrow> False | Some row \<Rightarrow> a_hash row = (u ''correct horse''))
    \<and> (\<exists>row. select_admin (aa_id sample_identity) d' = Some row \<and> \<not> a_must_change row \<and> a_hash row = u ''battery staple'' \<and> \<not> a_hash row = u ''correct horse'')
    \<and> (case resolve_session id 6 [55] d' of None \<Rightarrow> True
       | Some a \<Rightarrow> if aa_id a = aa_id sample_identity then aa_session a = aa_session sample_identity else True)"
proof -
  have "\<exists>d'. change_password id id (=) 5 sample_identity (u ''correct horse'') (u ''battery staple'') sample_auth = (Inr (), d')"
    by (simp add: change_password_def validate_new_password_def PASSWORD_MIN_LENGTH_def sample_identity_def sample_auth_def
        select_admin_def transaction_def dbind_def update_admin_def revoke_where_def append_event_ok auth_event_widths)
  then obtain d' where d': "change_password id id (=) 5 sample_identity (u ''correct horse'') (u ''battery staple'') sample_auth = (Inr (), d')"
    by blast
  have "\<forall>p q. (id p = q) \<longleftrightarrow> p = q" by simp
  from password_change_keeps_one_session [OF sample_auth_inv this d', of id 6 "[55]"] d' show ?thesis by blast
qed

text \<open>
  A login is a session until it expires or is revoked: a session is issued only for a stored
  administrator whose hash verifies; its token resolves to the identity that was issued at every
  time before the expiry and to nothing from the expiry on; and after the logout it never resolves
  again.
\<close>

theorem login_session_lifecycle:
  assumes i: "db_inv d"
    and r: "create_authenticated_session sha verify now sid tok raw pw ttl d = (Inr (Some s), d')"
  shows "cs_token s = tok \<and> aa_expires (cs_admin s) = now + ttl * 1000000
    \<and> (\<exists>row. row \<in> set (t_admins (tabs d)) \<and> a_id row = aa_id (cs_admin s) \<and> verify (a_hash row) pw)
    \<and> resolve_session sha now' tok d' = (if now' < now + ttl * 1000000 then Some (cs_admin s) else None)
    \<and> resolve_session sha now' tok (snd (revoke_session now2 (cs_admin s) d')) = None"
proof -
  from r obtain name where n: "normalize_username raw = Inr name"
    by (auto simp: create_authenticated_session_def split: sum.splits)
  obtain row where row: "select_admin_by_name name d = Some row"
    using r n by (cases "select_admin_by_name name d") (auto simp: create_authenticated_session_def transaction_def)
  then have mem: "row \<in> set (t_admins (tabs d))" by (auto simp: select_admin_by_name_def dest: find_SomeD)
  have ver: "verify (a_hash row) pw"
    using r n row by (auto simp: create_authenticated_session_def transaction_def split: if_splits)
  let ?h = "hash_session_token sha tok"
  from r n row ver obtain ex d1 e where
    s1: "insert_session now sid (a_id row) ?h ttl d = (Inr ex, d1)" and
    ev: "append_event now (auth_event ''login_success'' (Some (a_id row)) (a_id row))
        (snd (update_admin (a_id row) (\<lambda>a. a\<lparr>a_last_login := Some now\<rparr>) d1)) = (Inr e, d')" and
    s: "s = \<lparr>cs_token = tok, cs_admin = \<lparr>aa_id = a_id row, aa_username = a_username row, aa_must_change = a_must_change row,
                                aa_session = sid, aa_expires = ex\<rparr>\<rparr>"
    by (auto simp: create_authenticated_session_def transaction_Inr dbind_Inr [OF snd_update_admin] elim!: dbind_InrE)
  let ?row = "\<lparr>s_id = sid, s_admin = a_id row, s_hash = ?h, s_issued = now, s_expires = now + ttl * 1000000, s_revoked = None\<rparr>"
  from s1 have ex: "ex = now + ttl * 1000000" and d1: "d1 = upd_tabs (\<lambda>t. t\<lparr>t_sessions := t_sessions t @ [?row]\<rparr>) d"
    and fresh: "?h \<notin> s_hash ` set (t_sessions (tabs d))" "sid \<notin> s_id ` set (t_sessions (tabs d))"
    by (auto simp: insert_session_def Let_def split: if_splits)
  have ss: "t_sessions (tabs d') = t_sessions (tabs d) @ [?row]"
    using audit_sessions [OF ev] by (simp add: update_admin_def d1)
  have dist: "distinct (map s_hash (t_sessions (tabs d')))"
    using i fresh by (simp add: ss db_inv_def uniques_ok_def)
  have "select_admin (a_id row) d = Some row"
    using i mem find_distinct_key [of a_id] by (auto simp: select_admin_def db_inv_def keys_ok_def key_ok_def)
  then have "select_admin (a_id row) d1 = Some row" by (simp add: d1 select_admin_def)
  then have sel: "select_admin (a_id row) d' = Some (row\<lparr>a_last_login := Some now\<rparr>)"
    by (simp add: audit_select [OF ev] select_admin_updated)
  have res: "resolve_session sha now' tok d' = (if now' < now + ttl * 1000000 then Some (cs_admin s) else None)"
    using resolve_sessionI [OF dist, where s = ?row and tok = tok and sha = sha and now = now'] sel by (simp add: ss s ex)
  let ?p = "\<lambda>x. s_id x = sid \<and> s_admin x = a_id row"
  let ?d2 = "snd (revoke_where now2 ?p d')"
  have rv: "snd (revoke_session now2 (cs_admin s) d') = snd (append_event now2 (auth_event ''admin_logout'' (Some (a_id row)) (a_id row)) ?d2)"
    by (simp add: revoke_session_def transaction_def s dbind_Inr [OF snd_revoke_where] append_event_ok auth_event_widths)
  have gone: "resolve_session sha now' tok (snd (revoke_session now2 (cs_admin s) d')) = None"
  proof (rule ccontr)
    assume "resolve_session sha now' tok (snd (revoke_session now2 (cs_admin s) d')) \<noteq> None"
    then obtain a where "resolve_session sha now' tok (snd (revoke_session now2 (cs_admin s) d')) = Some a" by auto
    then obtain x where x: "x \<in> set (t_sessions (tabs ?d2))" "s_hash x = ?h" "s_revoked x = None"
      unfolding rv using audit_sessions [OF prod.collapse [symmetric]] by (elim resolve_sessionD) metis
    then obtain y where y: "y \<in> set (t_sessions (tabs d'))" "s_hash y = ?h" "x = (if ?p y \<and> s_revoked y = None then y\<lparr>s_revoked := Some now2\<rparr> else y)"
      by (auto simp: revoke_where_def set_update_where split: if_splits)
    then have "y = ?row" using fresh(1) by (auto simp: ss image_iff)
    with y(3) x(3) show False by simp
  qed
  show ?thesis using mem ver res gone by (auto simp: s ex)
qed

lemma sample_sessions: "t_sessions (tabs sample_auth) = [\<lparr>s_id = 7, s_admin = 1, s_hash = [55], s_issued = 0, s_expires = 90000000, s_revoked = None\<rparr>]"
  and sample_select: "select_admin 1 sample_auth \<noteq> None"
  by (simp_all add: sample_auth_def select_admin_def)

theorem login_session_lifecycle_witness:
  "\<exists>s d'. create_authenticated_session id (=) 5 8 [56] (u ''root'') (u ''correct horse'') 60 sample_auth = (Inr (Some s), d')
    \<and> cs_token s = [56] \<and> aa_expires (cs_admin s) = 5 + 60 * 1000000
    \<and> (\<exists>row. row \<in> set (t_admins (tabs sample_auth)) \<and> a_id row = aa_id (cs_admin s) \<and> a_hash row = u ''correct horse'')
    \<and> resolve_session id 6 [56] d' = (if (6 :: int) < 5 + 60 * 1000000 then Some (cs_admin s) else None)
    \<and> resolve_session id 6 [56] (snd (revoke_session 6 (cs_admin s) d')) = None"
proof -
  have "\<exists>s d'. create_authenticated_session id (=) 5 8 [56] (u ''root'') (u ''correct horse'') 60 sample_auth = (Inr (Some s), d')"
    by (simp add: create_authenticated_session_def sample_username sample_root transaction_def dbind_def insert_session_def
        Let_def update_admin_def append_event_ok auth_event_widths hash_session_token_def utf8_def utf8_char_def
        sample_sessions sample_select [simplified] del: u_Cons u_Nil)
  then obtain s d' where "create_authenticated_session id (=) 5 8 [56] (u ''root'') (u ''correct horse'') 60 sample_auth = (Inr (Some s), d')" by blast
  with login_session_lifecycle [OF sample_auth_inv this, of 6 6] show ?thesis by blast
qed

end
