(* ===== verification/Import_Parse.thy ===== *)
theory Import_Parse
  imports Py_Prelude
begin

text \<open>
  \<open>domains/importer/parser.py\<close>: the inspection of an XLSX container, the resolution of worksheet
  paths, cells, columns and rows, and the judgement of the parsing process.

  The ZIP reader and the XML parser are third-party or C code; the model starts from what the code
  reads of them: the directory entries of the archive with their contents, and per row and cell the
  attributes and texts that \<open>ElementTree\<close> returns. \<open>cf\<close> is \<open>str.casefold\<close>.
\<close>

section \<open>Values\<close>

record container_metrics =
  cm_compressed :: nat
  cm_decompressed :: nat

record parsed_row =
  pr_number :: int
  pr_values :: "(int \<times> ustr) list"
  pr_nonblank :: bool

record parsed_workbook =
  wb_headers :: "(int \<times> ustr) list"
  wb_rows :: "parsed_row list"
  wb_sheets :: nat

text \<open>\<open>XlsxRejected\<close>, without its message and with the \<open>reason\<close> entry of its detail alone.\<close>

record xlsx_rejected =
  xl_code :: string
  xl_reason :: string
  xl_status :: nat
  xl_format :: bool

abbreviation rejected :: "string \<Rightarrow> string \<Rightarrow> nat \<Rightarrow> bool \<Rightarrow> xlsx_rejected" where
  "rejected code reason status fmt \<equiv> \<lparr>xl_code = code, xl_reason = reason, xl_status = status, xl_format = fmt\<rparr>"

text \<open>What the parser raises: a rejection, or a \<open>ValueError\<close>.\<close>

datatype parse_error = Rejected xlsx_rejected | Value_Error

text \<open>\<open>ParsedCells.get\<close>, \<open>has_nonblank\<close> and \<open>populated_values\<close>.\<close>

definition cells_get :: "(int \<times> ustr) list \<Rightarrow> int \<Rightarrow> ustr" where
  "cells_get entries i = (case map_of entries i of Some v \<Rightarrow> v | None \<Rightarrow> [])"

definition cells_has_nonblank :: "(int \<times> ustr) list \<Rightarrow> bool" where
  "cells_has_nonblank entries = list_ex (\<lambda>(i, v). strip v \<noteq> []) entries"

definition populated_values :: "(int \<times> ustr) list \<Rightarrow> ustr list" where
  "populated_values entries = map snd entries"

section \<open>Container inspection\<close>

text \<open>A directory entry; reading it gives its bytes, or raises (a bad CRC, an unknown method).\<close>

record zip_entry =
  ze_name :: ustr
  ze_file_size :: nat
  ze_compress_size :: nat
  ze_encrypted :: bool
  ze_content :: "nat list option"

definition xlsx_signature :: "nat list \<Rightarrow> bool" where
  "xlsx_signature content \<longleftrightarrow>
     starts_with [80, 75, 3, 4] content \<or> starts_with [80, 75, 5, 6] content \<or> starts_with [80, 75, 7, 8] content"

text \<open>\<open>XML_DANGER_PATTERN\<close>: \<open><!\<close>, white space, DOCTYPE or ENTITY in any case, a word boundary.\<close>

definition byte_space :: "nat \<Rightarrow> bool" where
  "byte_space b \<longleftrightarrow> b = 32 \<or> (9 \<le> b \<and> b \<le> 13)"

definition word_byte :: "nat \<Rightarrow> bool" where
  "word_byte b \<longleftrightarrow> is_alnum b \<or> b = 95"

definition keyword_at :: "ustr \<Rightarrow> nat list \<Rightarrow> bool" where
  "keyword_at kw bs \<longleftrightarrow>
     ascii_upper (take (length kw) bs) = kw
     \<and> (case drop (length kw) bs of [] \<Rightarrow> True | b # _ \<Rightarrow> \<not> word_byte b)"

definition danger_at :: "nat list \<Rightarrow> bool" where
  "danger_at bs \<longleftrightarrow>
     (case bs of
        a # b # rest \<Rightarrow> a = 60 \<and> b = 33
          \<and> (keyword_at (u ''DOCTYPE'') (dropWhile byte_space rest) \<or> keyword_at (u ''ENTITY'') (dropWhile byte_space rest))
      | _ \<Rightarrow> False)"

fun xml_danger :: "nat list \<Rightarrow> bool" where
  "xml_danger [] = False"
| "xml_danger (b # bs) \<longleftrightarrow> danger_at (b # bs) \<or> xml_danger bs"

fun inspect_entries :: "(ustr \<Rightarrow> ustr) \<Rightarrow> zip_entry list \<Rightarrow> xlsx_rejected + unit" where
  "inspect_entries cf [] = Inr ()"
| "inspect_entries cf (e # es) =
     (if ze_encrypted e then Inl (rejected ''encrypted_xlsx_not_supported'' ''encrypted_zip_entry'' 422 False)
      else if \<not> (ends_with (u ''.xml'') (cf (ze_name e)) \<or> ends_with (u ''.rels'') (cf (ze_name e)))
        then inspect_entries cf es
      else
        (case ze_content e of
           None \<Rightarrow> Inl (rejected ''invalid_xlsx_container'' ''invalid_zip_container'' 422 False)
         | Some xml \<Rightarrow>
             if xml_danger xml then Inl (rejected ''unsafe_xlsx_xml'' ''dtd_or_entity_declaration'' 422 False) else inspect_entries cf es))"

text \<open>
  \<open>inspect_xlsx_container\<close>. \<open>archive\<close> is what \<open>ZipFile\<close> finds in the content (\<open>None\<close> when it raises);
  the ratio limit is the fraction \<open>rn / rd\<close>.
\<close>

definition inspect_xlsx_container ::
    "(ustr \<Rightarrow> ustr) \<Rightarrow> nat list \<Rightarrow> zip_entry list option \<Rightarrow> nat \<Rightarrow> nat \<Rightarrow> nat \<Rightarrow> xlsx_rejected + container_metrics" where
  "inspect_xlsx_container cf content archive max_decompressed rn rd =
     (if \<not> xlsx_signature content then Inl (rejected ''invalid_xlsx_signature'' ''zip_signature_mismatch'' 422 False)
      else
        (case archive of
           None \<Rightarrow> Inl (rejected ''invalid_xlsx_container'' ''invalid_zip_container'' 422 False)
         | Some entries \<Rightarrow>
             let decompressed = sum_list (map ze_file_size entries);
                 compressed = sum_list (map ze_compress_size entries)
             in if decompressed > max_decompressed then Inl (rejected ''xlsx_decompressed_too_large'' ''decompressed_size_exceeded'' 413 False)
                else if decompressed * rd > rn * max compressed 1
                  then Inl (rejected ''xlsx_compression_ratio_too_high'' ''compression_ratio_exceeded'' 413 False)
                else
                  (case inspect_entries cf entries of
                     Inl e \<Rightarrow> Inl e
                   | Inr _ \<Rightarrow> Inr \<lparr>cm_compressed = compressed, cm_decompressed = decompressed\<rparr>)))"

section \<open>Worksheet paths\<close>

text \<open>\<open>posixpath.normpath\<close> of a relative path, on its components.\<close>

fun norm_parts :: "ustr list \<Rightarrow> ustr list \<Rightarrow> ustr list" where
  "norm_parts done [] = rev done"
| "norm_parts done (c # cs) =
     (if c = [] \<or> c = u ''.'' then norm_parts done cs
      else if c \<noteq> u ''..'' \<or> done = [] \<or> hd done = u ''..'' then norm_parts (c # done) cs
      else norm_parts (tl done) cs)"

definition sheet_parts :: "ustr \<Rightarrow> ustr list" where
  "sheet_parts target =
     (if starts_with [47] target then filter (\<lambda>p. p \<noteq> [] \<and> p \<noteq> u ''.'') (split_on 47 (lstrip_char 47 target))
      else norm_parts [] (u ''xl'' # split_on 47 target))"

text \<open>
  \<open>_worksheet_paths\<close>: the relationship ids of the sheets in order, looked up in the targets. A path
  is the list of its components.
\<close>

fun worksheet_paths_loop :: "(ustr \<times> ustr) list \<Rightarrow> ustr option list \<Rightarrow> parse_error + ustr list list" where
  "worksheet_paths_loop targets [] = Inr []"
| "worksheet_paths_loop targets (rid # rids) =
     (case rid of None \<Rightarrow> Inl Value_Error
      | Some r \<Rightarrow>
          (case map_of (rev targets) r of
             None \<Rightarrow> Inl Value_Error
           | Some target \<Rightarrow>
               if u ''..'' \<in> set (sheet_parts target) then Inl Value_Error
               else (case worksheet_paths_loop targets rids of
                       Inl e \<Rightarrow> Inl e
                     | Inr ps \<Rightarrow> Inr (sheet_parts target # ps))))"

definition worksheet_paths :: "(ustr \<times> ustr) list \<Rightarrow> ustr option list \<Rightarrow> parse_error + ustr list list" where
  "worksheet_paths targets rids =
     (case worksheet_paths_loop targets rids of
        Inl e \<Rightarrow> Inl e
      | Inr ps \<Rightarrow> if ps = [] then Inl Value_Error else Inr ps)"

section \<open>Cells\<close>

text \<open>
  A \<open>c\<close> element: its \<open>r\<close> and \<open>t\<close> attributes (empty when absent), the texts of the \<open>t\<close> elements below
  it, and the text of its \<open>v\<close> child.
\<close>

record xcell =
  xc_ref :: ustr
  xc_type :: ustr
  xc_texts :: "ustr list"
  xc_value :: "ustr option"

record xrow =
  xr_number :: "ustr option"
  xr_cells :: "xcell list"

definition column_value :: "ustr \<Rightarrow> int" where
  "column_value letters = foldl (\<lambda>v c. v * 26 + int c - 65 + 1) 0 letters"

definition cell_reference :: "ustr \<Rightarrow> ustr option" where
  "cell_reference s =
     (let letters = takeWhile is_upper s; number = dropWhile is_upper s
      in if letters \<noteq> [] \<and> (case number of [] \<Rightarrow> False | c # cs \<Rightarrow> is_digit c \<and> c \<noteq> 48 \<and> list_all is_digit cs)
         then Some letters else None)"

definition column_index :: "ustr \<Rightarrow> int \<Rightarrow> int" where
  "column_index reference fallback =
     (case cell_reference reference of None \<Rightarrow> fallback | Some letters \<Rightarrow> column_value letters - 1)"

text \<open>\<open>shared_strings[int(value)]\<close>, negative indices included.\<close>

definition py_index :: "'a list \<Rightarrow> int \<Rightarrow> 'a option" where
  "py_index xs i =
     (if 0 \<le> i \<and> i < int (length xs) then Some (xs ! nat i)
      else if - int (length xs) \<le> i \<and> i < 0 then Some (xs ! nat (i + int (length xs)))
      else None)"

definition cell_text :: "xcell \<Rightarrow> ustr list \<Rightarrow> parse_error + ustr" where
  "cell_text cell shared_strings =
     (if xc_type cell = u ''inlineStr'' then Inr (concat (xc_texts cell))
      else
        (case xc_value cell of
           None \<Rightarrow> Inr []
         | Some value \<Rightarrow>
             if xc_type cell = u ''s'' then
               (case py_int value of
                  None \<Rightarrow> Inl Value_Error
                | Some i \<Rightarrow> (case py_index shared_strings i of None \<Rightarrow> Inl Value_Error | Some s \<Rightarrow> Inr s))
             else if xc_type cell = u ''b'' then Inr (if value = u ''1'' then u ''TRUE'' else u ''FALSE'')
             else Inr value))"

definition row_number :: "xrow \<Rightarrow> int \<Rightarrow> parse_error + int" where
  "row_number row fallback =
     (case xr_number row of
        None \<Rightarrow> Inr fallback
      | Some raw \<Rightarrow> (case py_int raw of None \<Rightarrow> Inl Value_Error | Some n \<Rightarrow> Inr n))"

fun row_cells_loop ::
    "ustr list \<Rightarrow> int list option \<Rightarrow> xcell list \<Rightarrow> int \<Rightarrow> (int \<times> ustr) list \<Rightarrow> bool
     \<Rightarrow> parse_error + (int \<times> ustr) list \<times> bool" where
  "row_cells_loop shared retained [] fallback acc nonblank = Inr (acc, nonblank)"
| "row_cells_loop shared retained (c # cs) fallback acc nonblank =
     (let column = column_index (xc_ref c) fallback
      in if column < 0 \<or> column > 16383 then Inl Value_Error
         else
           (case cell_text c shared of
              Inl e \<Rightarrow> Inl e
            | Inr value \<Rightarrow>
                row_cells_loop shared retained cs (column + 1)
                  (if value \<noteq> [] \<and> (case retained of None \<Rightarrow> True | Some cols \<Rightarrow> column \<in> set cols)
                   then acc @ [(column, value)] else acc)
                  (nonblank \<or> strip value \<noteq> [])))"

definition row_cells :: "ustr list \<Rightarrow> int list option \<Rightarrow> xrow \<Rightarrow> parse_error + (int \<times> ustr) list \<times> bool" where
  "row_cells shared retained row = row_cells_loop shared retained (xr_cells row) 0 [] False"

section \<open>Rows\<close>

definition CODE_HEADERS :: "ustr list" where
  "CODE_HEADERS = [[32534, 30721], [20135, 21697, 32534, 30721]]"

definition NAME_HEADERS :: "ustr list" where
  "NAME_HEADERS = [[21517, 31216], [20135, 21697, 21517, 31216]]"

record consume_state =
  cs_data :: "parsed_row list"
  cs_header :: "(int \<times> ustr) list"
  cs_header_nonblank :: bool
  cs_seen :: bool
  cs_retained :: "int list option"
  cs_count :: nat
  cs_nonempty :: bool

definition consume_init :: consume_state where
  "consume_init = \<lparr>cs_data = [], cs_header = [], cs_header_nonblank = False, cs_seen = False, cs_retained = None,
                   cs_count = 0, cs_nonempty = False\<rparr>"

text \<open>One iteration of the loop over the row elements.\<close>

definition consume_row ::
    "(ustr \<Rightarrow> ustr) \<Rightarrow> ustr list \<Rightarrow> nat option \<Rightarrow> int \<Rightarrow> xrow \<Rightarrow> consume_state \<Rightarrow> parse_error + consume_state" where
  "consume_row cf shared max_data_rows fallback row st =
     (case row_number row fallback of
        Inl e \<Rightarrow> Inl e
      | Inr n \<Rightarrow>
          (case row_cells shared (if n = 1 then None else cs_retained st) row of
             Inl e \<Rightarrow> Inl e
           | Inr (values, nonblank) \<Rightarrow>
               let st1 = st\<lparr>cs_nonempty := cs_nonempty st \<or> nonblank\<rparr>
               in if n = 1 then
                    Inr (if cs_seen st1 then st1
                         else st1\<lparr>cs_seen := True, cs_header := values, cs_header_nonblank := nonblank,
                                  cs_retained := Some (map fst (filter (\<lambda>(c, v). cf (strip v) \<in> set (CODE_HEADERS @ NAME_HEADERS)) values))\<rparr>)
                  else if n < 1 \<or> \<not> nonblank then Inr st1
                  else if (case max_data_rows of None \<Rightarrow> False | Some m \<Rightarrow> cs_count st1 + 1 > m)
                    then Inl (Rejected (rejected ''xlsx_row_limit_exceeded'' ''row_limit_exceeded'' 413 False))
                  else Inr (st1\<lparr>cs_count := cs_count st1 + 1,
                                cs_data := cs_data st1 @ [\<lparr>pr_number = n, pr_values = values, pr_nonblank = True\<rparr>]\<rparr>)))"

fun consume_loop ::
    "(ustr \<Rightarrow> ustr) \<Rightarrow> ustr list \<Rightarrow> nat option \<Rightarrow> int \<Rightarrow> xrow list \<Rightarrow> consume_state \<Rightarrow> parse_error + consume_state" where
  "consume_loop cf shared m fallback [] st = Inr st"
| "consume_loop cf shared m fallback (r # rs) st =
     (case consume_row cf shared m fallback r st of
        Inl e \<Rightarrow> Inl e
      | Inr st1 \<Rightarrow> consume_loop cf shared m (fallback + 1) rs st1)"

definition consume_rows ::
    "(ustr \<Rightarrow> ustr) \<Rightarrow> ustr list \<Rightarrow> nat option \<Rightarrow> xrow list \<Rightarrow> parse_error + parsed_row list \<times> bool" where
  "consume_rows cf shared m rows =
     (case consume_loop cf shared m 1 rows consume_init of
        Inl e \<Rightarrow> Inl e
      | Inr st \<Rightarrow>
          let consumed = (case cs_retained st of None \<Rightarrow> [] | Some cols \<Rightarrow> cols);
              data = map (\<lambda>r. r\<lparr>pr_values := filter (\<lambda>(c, v). c \<in> set consumed) (pr_values r)\<rparr>) (cs_data st);
              header = (if cs_seen st
                        then [\<lparr>pr_number = 1, pr_values = cs_header st, pr_nonblank = cs_header_nonblank st\<rparr>] else [])
          in Inr (header @ data, cs_nonempty st))"

fun sheet_is_nonempty :: "ustr list \<Rightarrow> xcell list \<Rightarrow> bool \<Rightarrow> parse_error + bool" where
  "sheet_is_nonempty shared [] acc = Inr acc"
| "sheet_is_nonempty shared (c # cs) acc =
     (if acc then sheet_is_nonempty shared cs acc
      else (case cell_text c shared of
              Inl e \<Rightarrow> Inl e
            | Inr v \<Rightarrow> sheet_is_nonempty shared cs (strip v \<noteq> [])))"

fun count_nonempty :: "ustr list \<Rightarrow> xcell list list \<Rightarrow> nat \<Rightarrow> parse_error + nat" where
  "count_nonempty shared [] n = Inr n"
| "count_nonempty shared (s # ss) n =
     (case sheet_is_nonempty shared s False of
        Inl e \<Rightarrow> Inl e
      | Inr b \<Rightarrow> count_nonempty shared ss (n + (if b then 1 else 0)))"

text \<open>\<open>parse_xlsx\<close>, from the rows of the first sheet and the cells of the others.\<close>

definition parse_xlsx ::
    "(ustr \<Rightarrow> ustr) \<Rightarrow> ustr list \<Rightarrow> nat \<Rightarrow> xrow list \<Rightarrow> xcell list list \<Rightarrow> parse_error + parsed_workbook" where
  "parse_xlsx cf shared max_rows first others =
     (case consume_rows cf shared (Some max_rows) first of
        Inl e \<Rightarrow> Inl e
      | Inr (rows, nonempty) \<Rightarrow>
          (case count_nonempty shared others (if nonempty then 1 else 0) of
             Inl e \<Rightarrow> Inl e
           | Inr n \<Rightarrow>
               Inr \<lparr>wb_headers = (case List.find (\<lambda>r. pr_number r = 1) rows of Some r \<Rightarrow> pr_values r | None \<Rightarrow> []),
                    wb_rows = filter (\<lambda>r. pr_number r > 1) rows, wb_sheets = n\<rparr>))"

section \<open>The parsing process\<close>

text \<open>What the parent receives: a message, nothing before the deadline, or a closed pipe.\<close>

datatype worker_message =
    Msg_Success parsed_workbook
  | Msg_Rejected xlsx_rejected
  | Msg_Resource_Limit
  | Msg_Failure

datatype parse_outcome = Received worker_message | Deadline | Pipe_Closed "int option"

text \<open>\<open>_parse_worker\<close>: \<open>limit_fails\<close> when the memory limit cannot be set, \<open>memory\<close> on a \<open>MemoryError\<close>.\<close>

definition parse_worker :: "bool \<Rightarrow> bool \<Rightarrow> parse_error + parsed_workbook \<Rightarrow> worker_message" where
  "parse_worker limit_fails memory result =
     (if limit_fails \<or> memory then Msg_Resource_Limit
      else (case result of
              Inr wb \<Rightarrow> Msg_Success wb
            | Inl (Rejected r) \<Rightarrow> Msg_Rejected r
            | Inl Value_Error \<Rightarrow> Msg_Failure))"

definition parse_xlsx_with_timeout :: "parse_outcome \<Rightarrow> xlsx_rejected + parsed_workbook" where
  "parse_xlsx_with_timeout outcome =
     (case outcome of
        Deadline \<Rightarrow> Inl (rejected ''xlsx_parse_timeout'' ''parse_timeout'' 408 False)
      | Pipe_Closed exitcode \<Rightarrow>
          (case exitcode of
             Some c \<Rightarrow> if c < 0 then Inl (rejected ''xlsx_parse_resource_limit'' ''parser_memory_limit_exceeded'' 413 False)
                       else Inl (rejected ''invalid_xlsx'' ''parser_process_failed'' 422 True)
           | None \<Rightarrow> Inl (rejected ''invalid_xlsx'' ''parser_process_failed'' 422 True))
      | Received m \<Rightarrow>
          (case m of
             Msg_Success wb \<Rightarrow> Inr wb
           | Msg_Rejected r \<Rightarrow> Inl r
           | Msg_Resource_Limit \<Rightarrow> Inl (rejected ''xlsx_parse_resource_limit'' ''parser_memory_limit_exceeded'' 413 False)
           | Msg_Failure \<Rightarrow> Inl (rejected ''invalid_xlsx'' ''xml_or_workbook_parse_failed'' 422 True)))"

section \<open>Lemmas on columns\<close>

text \<open>The spreadsheet name of a column: bijective base 26 over A to Z.\<close>

fun column_letters :: "nat \<Rightarrow> ustr" where
  "column_letters n = (if n < 26 then [65 + n] else column_letters (n div 26 - 1) @ [65 + n mod 26])"

declare column_letters.simps [simp del]

lemma column_value_snoc: "column_value (cs @ [c]) = column_value cs * 26 + int c - 64"
  by (simp add: column_value_def)

lemma column_value_letters: "column_value (column_letters n) = int n + 1"
proof (induction n rule: column_letters.induct)
  case (1 n)
  show ?case
  proof (cases "n < 26")
    case True
    then show ?thesis by (subst column_letters.simps) (simp add: column_value_def)
  next
    case False
    with 1 have ih: "column_value (column_letters (n div 26 - 1)) = int (n div 26 - 1) + 1" by simp
    have "1 \<le> n div 26" using False by simp
    then have "column_value (column_letters (n div 26 - 1)) = int (n div 26)" using ih by linarith
    moreover have "int (n div 26) * 26 + int (n mod 26) = int n" by (metis div_mult_mod_eq of_nat_add of_nat_mult of_nat_numeral)
    ultimately show ?thesis using False by (subst column_letters.simps) (simp add: column_value_snoc)
  qed
qed

lemma column_letters_upper: "list_all is_upper (column_letters n) \<and> column_letters n \<noteq> []"
proof (induction n rule: column_letters.induct)
  case (1 n)
  have "n mod 26 < 26" by simp
  then have "is_upper (65 + n mod 26)" "n < 26 \<Longrightarrow> is_upper (65 + n)" by (simp_all add: is_upper_def)
  with 1 show ?case by (subst (1 2) column_letters.simps) auto
qed

text \<open>Every non-empty sequence of capital letters is the name of exactly one column.\<close>

lemma letters_are_columns:
  "list_all is_upper cs \<Longrightarrow> cs \<noteq> [] \<Longrightarrow> \<exists>n. cs = column_letters n"
proof (induction cs rule: rev_induct)
  case (snoc c cs)
  then have c: "65 \<le> c" "c \<le> 90" by (auto simp: is_upper_def)
  show ?case
  proof (cases "cs = []")
    case True
    have "c - 65 < 26" "65 + (c - 65) = c" using c by simp_all
    with True show ?thesis by (intro exI [of _ "c - 65"]) (subst column_letters.simps, simp)
  next
    case False
    with snoc obtain m where m: "cs = column_letters m" by auto
    from c obtain j where j: "c = 65 + j" "j < 26" by (intro that [of "c - 65"]) auto
    then have "((m + 1) * 26 + j) div 26 = m + 1" "((m + 1) * 26 + j) mod 26 = j"
      by (simp, simp only: mod_mult_self3 mod_less)
    with m j show ?thesis
      by (intro exI [of _ "(m + 1) * 26 + j"]) (subst column_letters.simps, simp)
  qed
qed simp

lemma digit_not_upper: "is_digit c \<Longrightarrow> \<not> is_upper c"
  by (simp add: is_digit_def is_upper_def)

lemma show_nat_leading: "0 < n \<Longrightarrow> \<exists>c cs. show_nat n = c # cs \<and> is_digit c \<and> c \<noteq> 48 \<and> list_all is_digit cs"
proof (induction n rule: show_nat.induct)
  case (1 n)
  show ?case
  proof (cases "n < 10")
    case True
    with 1 show ?thesis by (subst show_nat.simps) (simp add: is_digit_def)
  next
    case False
    then have "0 < n div 10" by simp
    with 1 False obtain c cs where c: "show_nat (n div 10) = c # cs" "is_digit c" "c \<noteq> 48" "list_all is_digit cs"
      by blast
    have "n mod 10 < 10" by simp
    then have "is_digit (48 + n mod 10)" unfolding is_digit_def by linarith
    with c False show ?thesis by (subst show_nat.simps) simp
  qed
qed

lemma cell_reference_name:
  assumes "list_all is_upper cs" "cs \<noteq> []"
  shows "cell_reference (cs @ show_nat (Suc r)) = Some cs"
proof -
  obtain d ds where d: "show_nat (Suc r) = d # ds" "is_digit d" "d \<noteq> 48" "list_all is_digit ds"
    using show_nat_leading [of "Suc r"] by auto
  have "takeWhile is_upper (cs @ d # ds) = cs" "dropWhile is_upper (cs @ d # ds) = d # ds"
    using assms(1) d(2) digit_not_upper by (auto simp: list_all_iff)
  with d assms(2) show ?thesis by (simp add: cell_reference_def Let_def)
qed

lemma cell_reference_letters: "cell_reference s = Some cs \<Longrightarrow> list_all is_upper cs \<and> cs \<noteq> []"
  by (auto simp: cell_reference_def Let_def list_all_iff dest: set_takeWhileD split: if_splits)

section \<open>Lemmas on the container\<close>

lemma xml_danger_iff: "xml_danger bs \<longleftrightarrow> (\<exists>pre rest. bs = pre @ rest \<and> danger_at rest)"
proof (induction bs)
  case Nil
  show ?case by (simp add: danger_at_def)
next
  case (Cons b bs)
  have "(\<exists>pre rest. b # bs = pre @ rest \<and> danger_at rest)
      \<longleftrightarrow> danger_at (b # bs) \<or> (\<exists>pre rest. bs = pre @ rest \<and> danger_at rest)"
    by (metis append_Cons append_Nil append_eq_Cons_conv)
  with Cons show ?case by simp
qed

definition xml_entry :: "(ustr \<Rightarrow> ustr) \<Rightarrow> zip_entry \<Rightarrow> bool" where
  "xml_entry cf e \<longleftrightarrow> ends_with (u ''.xml'') (cf (ze_name e)) \<or> ends_with (u ''.rels'') (cf (ze_name e))"

lemma inspect_entries_Inr:
  "inspect_entries cf es = Inr x \<longleftrightarrow>
     (\<forall>e \<in> set es. \<not> ze_encrypted e \<and> (xml_entry cf e \<longrightarrow> (\<exists>xml. ze_content e = Some xml \<and> \<not> xml_danger xml)))"
proof (induction es)
  case (Cons e es)
  then show ?case
    by (cases "ze_content e") (auto simp: xml_entry_def simp del: u_Cons u_Nil)
qed simp

section \<open>Lemmas on rows\<close>

definition cells_within :: "(int \<times> ustr) list \<Rightarrow> bool" where
  "cells_within vs \<longleftrightarrow> (\<forall>(c, v) \<in> set vs. 0 \<le> c \<and> c \<le> 16383 \<and> v \<noteq> [])"

lemma row_cells_loop_within:
  "row_cells_loop shared ret cs fb acc nb = Inr (vs, b) \<Longrightarrow> cells_within acc \<Longrightarrow> cells_within vs"
proof (induction cs arbitrary: fb acc nb)
  case (Cons c cs)
  let ?col = "column_index (xc_ref c) fb"
  from Cons.prems obtain v where v: "cell_text c shared = Inr v" and col: "0 \<le> ?col" "?col \<le> 16383"
    and rest: "row_cells_loop shared ret cs (?col + 1)
        (if v \<noteq> [] \<and> (case ret of None \<Rightarrow> True | Some cols \<Rightarrow> ?col \<in> set cols) then acc @ [(?col, v)] else acc)
        (nb \<or> strip v \<noteq> []) = Inr (vs, b)"
    by (auto simp: Let_def split: if_splits sum.splits)
  show ?case
    by (rule Cons.IH [OF rest]) (use Cons.prems col in \<open>auto simp: cells_within_def\<close>)
qed (simp add: cells_within_def)

lemma row_cells_within: "row_cells shared ret row = Inr (vs, b) \<Longrightarrow> cells_within vs"
  unfolding row_cells_def by (erule row_cells_loop_within) (simp add: cells_within_def)

definition header_columns :: "(ustr \<Rightarrow> ustr) \<Rightarrow> (int \<times> ustr) list \<Rightarrow> int list" where
  "header_columns cf values = map fst (filter (\<lambda>(c, v). cf (strip v) \<in> set (CODE_HEADERS @ NAME_HEADERS)) values)"

text \<open>What holds of the loop state after every row.\<close>

definition consume_inv :: "(ustr \<Rightarrow> ustr) \<Rightarrow> nat option \<Rightarrow> consume_state \<Rightarrow> bool" where
  "consume_inv cf m st \<longleftrightarrow>
     length (cs_data st) = cs_count st \<and> (case m of None \<Rightarrow> True | Some k \<Rightarrow> cs_count st \<le> k)
     \<and> (\<forall>r \<in> set (cs_data st). 1 < pr_number r \<and> pr_nonblank r \<and> cells_within (pr_values r))
     \<and> cells_within (cs_header st)
     \<and> cs_retained st = (if cs_seen st then Some (header_columns cf (cs_header st)) else None)"

lemma consume_row_inv:
  assumes "consume_row cf shared m fb row st = Inr st'" "consume_inv cf m st"
  shows "consume_inv cf m st'"
proof -
  from assms(1) obtain n vs b where n: "row_number row fb = Inr n"
    and cells: "row_cells shared (if n = 1 then None else cs_retained st) row = Inr (vs, b)"
    by (auto simp: consume_row_def split: sum.splits)
  from cells have w: "cells_within vs" by (rule row_cells_within)
  note step = assms(1) [unfolded consume_row_def n cells sum.case prod.case Let_def]
  consider (header) "n = 1" | (skip) "n \<noteq> 1" "n < 1 \<or> \<not> b" | (data) "1 < n" "b" by linarith
  then show ?thesis
  proof cases
    case header
    with step assms(2) w show ?thesis
      by (cases m; cases "cs_seen st") (auto simp: consume_inv_def header_columns_def)
  next
    case skip
    with step assms(2) show ?thesis by (cases m) (auto simp: consume_inv_def)
  next
    case data
    with step have lim: "case m of None \<Rightarrow> True | Some k \<Rightarrow> cs_count st + 1 \<le> k"
      by (auto split: option.splits if_splits)
    from data step have "st' = st\<lparr>cs_nonempty := cs_nonempty st \<or> b, cs_count := cs_count st + 1,
        cs_data := cs_data st @ [\<lparr>pr_number = n, pr_values = vs, pr_nonblank = True\<rparr>]\<rparr>"
      by (auto split: option.splits if_splits)
    with assms(2) lim data w show ?thesis by (auto simp: consume_inv_def split: option.splits)
  qed
qed

lemma consume_loop_inv:
  "consume_loop cf shared m fb rows st = Inr st' \<Longrightarrow> consume_inv cf m st \<Longrightarrow> consume_inv cf m st'"
  by (induction rows arbitrary: fb st) (auto split: sum.splits dest: consume_row_inv)

lemma consume_init_inv: "consume_inv cf m consume_init"
  by (simp add: consume_inv_def consume_init_def cells_within_def split: option.split)

text \<open>What a sheet that was consumed gives.\<close>

definition sheet_ok :: "(ustr \<Rightarrow> ustr) \<Rightarrow> nat \<Rightarrow> (int \<times> ustr) list \<Rightarrow> parsed_row list \<Rightarrow> bool" where
  "sheet_ok cf m header data \<longleftrightarrow>
     length data \<le> m \<and> cells_within header
     \<and> (\<forall>r \<in> set data. 1 < pr_number r \<and> pr_nonblank r \<and> cells_within (pr_values r)
          \<and> fst ` set (pr_values r) \<subseteq> set (header_columns cf header))"

lemma consume_rows_ok:
  assumes "consume_rows cf shared (Some m) rows = Inr (out, b)"
  shows "\<exists>header data. sheet_ok cf m header data
    \<and> (out = data \<and> header = [] \<or> (\<exists>hb. out = \<lparr>pr_number = 1, pr_values = header, pr_nonblank = hb\<rparr> # data))"
proof -
  from assms obtain st where st: "consume_loop cf shared (Some m) 1 rows consume_init = Inr st"
    and out: "out = (if cs_seen st then [\<lparr>pr_number = 1, pr_values = cs_header st, pr_nonblank = cs_header_nonblank st\<rparr>] else [])
      @ map (\<lambda>r. r\<lparr>pr_values := filter (\<lambda>(c, v). c \<in> set (case cs_retained st of None \<Rightarrow> [] | Some cols \<Rightarrow> cols)) (pr_values r)\<rparr>) (cs_data st)"
    by (auto simp: consume_rows_def Let_def split: sum.splits)
  from consume_loop_inv [OF st consume_init_inv] have i: "consume_inv cf (Some m) st" .
  let ?h = "if cs_seen st then cs_header st else []"
  let ?data = "map (\<lambda>r. r\<lparr>pr_values := filter (\<lambda>(c, v). c \<in> set (case cs_retained st of None \<Rightarrow> [] | Some cols \<Rightarrow> cols)) (pr_values r)\<rparr>) (cs_data st)"
  have "sheet_ok cf m ?h ?data"
    using i unfolding sheet_ok_def consume_inv_def by (cases "cs_seen st") (auto simp: cells_within_def)
  with out show ?thesis by (intro exI [of _ ?h] exI [of _ ?data]) auto
qed

lemma parse_xlsx_ok:
  assumes "parse_xlsx cf shared m first others = Inr wb"
  shows "sheet_ok cf m (wb_headers wb) (wb_rows wb) \<and> wb_sheets wb \<le> Suc (length others)"
proof -
  have count: "count_nonempty shared ss k = Inr n \<Longrightarrow> n \<le> k + length ss" for ss k n
  proof (induction ss arbitrary: k)
    case (Cons s ss)
    then obtain b where "count_nonempty shared ss (k + (if b then 1 else 0)) = Inr n"
      by (auto split: sum.splits)
    with Cons.IH have "n \<le> k + (if b then 1 else 0) + length ss" by blast
    then show ?case by (cases b) auto
  qed simp
  from assms obtain rows b n where r: "consume_rows cf shared (Some m) first = Inr (rows, b)"
    and n: "count_nonempty shared others (if b then 1 else 0) = Inr n"
    and wb: "wb = \<lparr>wb_headers = (case List.find (\<lambda>r. pr_number r = 1) rows of Some r \<Rightarrow> pr_values r | None \<Rightarrow> []),
                    wb_rows = filter (\<lambda>r. pr_number r > 1) rows, wb_sheets = n\<rparr>"
    by (auto simp: parse_xlsx_def split: sum.splits)
  from consume_rows_ok [OF r] obtain header data where ok: "sheet_ok cf m header data"
    and out: "rows = data \<and> header = [] \<or> (\<exists>hb. rows = \<lparr>pr_number = 1, pr_values = header, pr_nonblank = hb\<rparr> # data)"
    by blast
  have "filter (\<lambda>r. pr_number r > 1) data = data" "List.find (\<lambda>r. pr_number r = 1) data = None"
    using ok by (auto simp: sheet_ok_def filter_id_conv find_None_iff)
  with out have "wb_rows wb = data" "wb_headers wb = header" by (auto simp: wb)
  with ok count [OF n] show ?thesis by (auto simp: wb split: if_splits)
qed

section \<open>Properties\<close>

text \<open>
  Column references are read as bijective base 26: the name of column \<open>n\<close> followed by any row
  number gives \<open>n\<close> whatever the fallback is, and a reference that is recognised has the name of
  exactly the column it gives, so that no two names share a column.
\<close>

theorem column_names:
  "column_index (column_letters n @ show_nat (Suc r)) fb = int n
   \<and> (case cell_reference s of
        None \<Rightarrow> column_index s fb = fb
      | Some letters \<Rightarrow> 0 \<le> column_index s fb \<and> letters = column_letters (nat (column_index s fb)))"
proof (intro conjI)
  have "cell_reference (column_letters n @ show_nat (Suc r)) = Some (column_letters n)"
    using column_letters_upper [of n] by (intro cell_reference_name) auto
  then show "column_index (column_letters n @ show_nat (Suc r)) fb = int n"
    by (simp add: column_index_def column_value_letters)
next
  show "case cell_reference s of None \<Rightarrow> column_index s fb = fb
      | Some letters \<Rightarrow> 0 \<le> column_index s fb \<and> letters = column_letters (nat (column_index s fb))"
  proof (cases "cell_reference s")
    case (Some letters)
    then obtain k where "letters = column_letters k"
      using letters_are_columns [of letters] cell_reference_letters by blast
    with Some show ?thesis by (simp add: column_index_def column_value_letters)
  qed (simp add: column_index_def)
qed

text \<open>
  The container inspection accepts a file exactly when it carries a ZIP signature, opens as an
  archive, stays within the bounds on the decompressed size and on the compression ratio, has no
  encrypted entry, and every XML part of it can be read and nowhere holds a DOCTYPE or ENTITY
  declaration; the metrics it returns are the sums over the directory.
\<close>

theorem container_accepted:
  "inspect_xlsx_container cf content archive limit rn rd = Inr metrics \<longleftrightarrow>
     xlsx_signature content
     \<and> (\<exists>entries. archive = Some entries
          \<and> metrics = \<lparr>cm_compressed = sum_list (map ze_compress_size entries),
                       cm_decompressed = sum_list (map ze_file_size entries)\<rparr>
          \<and> cm_decompressed metrics \<le> limit
          \<and> cm_decompressed metrics * rd \<le> rn * max (cm_compressed metrics) 1
          \<and> (\<forall>e \<in> set entries. \<not> ze_encrypted e
               \<and> (xml_entry cf e \<longrightarrow>
                    (\<exists>xml. ze_content e = Some xml \<and> \<not> (\<exists>pre rest. xml = pre @ rest \<and> danger_at rest)))))"
proof (cases archive)
  case (Some entries)
  show ?thesis
  proof (cases "inspect_entries cf entries")
    case (Inl e)
    then have "\<not> (\<forall>e \<in> set entries. \<not> ze_encrypted e \<and> (xml_entry cf e \<longrightarrow> (\<exists>xml. ze_content e = Some xml \<and> \<not> xml_danger xml)))"
      using inspect_entries_Inr [of cf entries] by auto
    with Some Inl show ?thesis
      unfolding inspect_xlsx_container_def xml_danger_iff by (auto simp: Let_def)
  next
    case (Inr x)
    then have "\<forall>e \<in> set entries. \<not> ze_encrypted e \<and> (xml_entry cf e \<longrightarrow> (\<exists>xml. ze_content e = Some xml \<and> \<not> xml_danger xml))"
      using inspect_entries_Inr [of cf entries] by auto
    with Some Inr show ?thesis
      unfolding inspect_xlsx_container_def xml_danger_iff by (auto simp: Let_def not_less)
  qed
qed (simp add: inspect_xlsx_container_def)

text \<open>
  A workbook that the parser returns respects its bounds: at most the allowed number of data
  rows, each below the header and with some text, every kept cell non-empty and in one of the 16384
  columns, and in data rows only under a heading that names the code or the product name.
\<close>

theorem parsed_workbook_bounded:
  assumes "parse_xlsx cf shared m first others = Inr wb"
  shows "length (wb_rows wb) \<le> m \<and> cells_within (wb_headers wb)
    \<and> (\<forall>r \<in> set (wb_rows wb). 1 < pr_number r \<and> pr_nonblank r \<and> cells_within (pr_values r)
         \<and> fst ` set (pr_values r) \<subseteq>
             {c. \<exists>v. (c, v) \<in> set (wb_headers wb) \<and> cf (strip v) \<in> set (CODE_HEADERS @ NAME_HEADERS)})
    \<and> wb_sheets wb \<le> Suc (length others)"
  using parse_xlsx_ok [OF assms] unfolding sheet_ok_def
  by (fastforce simp: header_columns_def)

definition text_cell :: "ustr \<Rightarrow> xcell" where
  "text_cell v = \<lparr>xc_ref = [], xc_type = u ''inlineStr'', xc_texts = [v], xc_value = None\<rparr>"

definition sample_sheet :: "xrow list" where
  "sample_sheet = [\<lparr>xr_number = None, xr_cells = [text_cell [32534, 30721], text_cell (u ''x'')]\<rparr>,
                   \<lparr>xr_number = None, xr_cells = [text_cell (u ''A1''), text_cell (u ''y'')]\<rparr>]"

definition sample_workbook :: parsed_workbook where
  "sample_workbook = \<lparr>wb_headers = [(0, [32534, 30721]), (1, u ''x'')],
     wb_rows = [\<lparr>pr_number = 2, pr_values = [(0, u ''A1'')], pr_nonblank = True\<rparr>], wb_sheets = 1\<rparr>"

lemma sample_sheet_parsed: "parse_xlsx id [] 3 sample_sheet [] = Inr sample_workbook"
  by (simp add: parse_xlsx_def consume_rows_def sample_sheet_def consume_row_def row_number_def row_cells_def
      text_cell_def cell_text_def column_index_def cell_reference_def Let_def consume_init_def CODE_HEADERS_def
      NAME_HEADERS_def text_eval sample_workbook_def)

theorem parsed_workbook_bounded_witness:
  "length (wb_rows sample_workbook) \<le> 3 \<and> cells_within (wb_headers sample_workbook)
    \<and> 1 < pr_number (hd (wb_rows sample_workbook)) \<and> cells_within (pr_values (hd (wb_rows sample_workbook)))
    \<and> wb_sheets sample_workbook \<le> 1"
proof -
  have "hd (wb_rows sample_workbook) \<in> set (wb_rows sample_workbook)" by (simp add: sample_workbook_def)
  moreover note b = parsed_workbook_bounded [OF sample_sheet_parsed]
  ultimately have "1 < pr_number (hd (wb_rows sample_workbook)) \<and> cells_within (pr_values (hd (wb_rows sample_workbook)))"
    using b [THEN conjunct2, THEN conjunct2, THEN conjunct1] by blast
  with b show ?thesis by simp
qed

text \<open>
  Two inputs the parser accepts although it means not to. A shared-string index below zero picks a
  string from the end of the table; and the search for a document type declaration looks at bytes,
  so that it does not see one in a part encoded as UTF-16.
\<close>

theorem negative_shared_string_accepted:
  "cell_text \<lparr>xc_ref = [], xc_type = u ''s'', xc_texts = [], xc_value = Some (u ''-1'')\<rparr> [u ''first'', u ''last'']
     = Inr (u ''last'')"
  by (simp add: cell_text_def py_int_def unsigned_int_def text_eval py_index_def)

definition utf16 :: "ustr \<Rightarrow> nat list" where
  "utf16 s = [255, 254] @ concat (map (\<lambda>c. [c mod 256, c div 256]) s)"

theorem utf16_doctype_unseen:
  "xml_danger (utf8 (u ''<!DOCTYPE a>'')) \<and> \<not> xml_danger (utf16 (u ''<!DOCTYPE a>''))"
  by (simp add: utf8_def utf8_char_def utf16_def danger_at_def keyword_at_def byte_space_def word_byte_def text_eval)

end
