(* ===== verification/Importer.thy ===== *)
theory Importer
  imports Product_Service Import_Parse
begin

text \<open>
  \<open>domains/importer/service.py\<close>: the bounded read of the upload, the validation of the parsed rows, and
  the two-phase import with one transaction for every product and an audit event for every outcome.

  The upload is its bytes and its file name; the archive that \<open>ZipFile\<close> sees in them and the outcome
  of the parsing process are arguments. Human-readable messages are not modelled, and of the detail
  of a failed import's audit event only the reason and the counts.
\<close>

section \<open>Values\<close>

record import_settings =
  is_max_upload :: nat
  is_max_decompressed :: nat
  is_ratio_num :: nat
  is_ratio_den :: nat
  is_max_rows :: nat

datatype import_error_kind = Format | Security | System | Authentication

datatype import_reason =
    Code_Empty
  | Code_Too_Long
  | Code_Inner_Space
  | Code_Bad_Character
  | Name_Too_Long
  | Message_Of string

record import_row_error =
  ie_row :: "int option"
  ie_reason :: import_reason
  ie_kind :: import_error_kind

record import_candidate =
  ic_row :: int
  ic_code :: ustr
  ic_name :: ustr

record import_result =
  ir_success :: nat
  ir_duplicate :: nat
  ir_format :: nat
  ir_errors :: "import_row_error list"
  ir_notices :: "nat list"
  ir_failed :: bool
  ir_code :: "string option"
  ir_http :: nat

text \<open>What phase one raises.\<close>

datatype phase_one_error = Format_Errors "import_row_error list" | Xlsx_Rejected xlsx_rejected

section \<open>Phase one\<close>

definition UPLOAD_READ_CHUNK_BYTES :: nat where
  "UPLOAD_READ_CHUNK_BYTES = 65536"

text \<open>
  \<open>read_upload_with_limit\<close>: \<open>rest\<close> is what the upload still holds; a read of \<open>n\<close> bytes returns the next
  \<open>n\<close> bytes, or what is left.
\<close>

function read_loop :: "nat \<Rightarrow> nat list \<Rightarrow> nat list \<Rightarrow> xlsx_rejected + nat list" where
  "read_loop max_bytes content rest =
     (let remaining = max_bytes + 1 - length content;
          n = min UPLOAD_READ_CHUNK_BYTES remaining;
          chunk = take n rest
      in if chunk = [] then Inr content
         else if length (content @ chunk) > max_bytes
           then Inl (rejected ''xlsx_too_large'' ''upload_size_exceeded'' 413 False)
         else read_loop max_bytes (content @ chunk) (drop n rest))"
  by pat_completeness auto
termination
  by (relation "measure (\<lambda>(_, _, rest). length rest)") (auto simp: UPLOAD_READ_CHUNK_BYTES_def)

declare read_loop.simps [simp del]

definition read_upload_with_limit :: "nat list \<Rightarrow> nat \<Rightarrow> xlsx_rejected + nat list" where
  "read_upload_with_limit upload max_bytes = read_loop max_bytes [] upload"

definition header_key :: "(ustr \<Rightarrow> ustr) \<Rightarrow> ustr \<Rightarrow> ustr" where
  "header_key cf value = cf (strip value)"

definition code_error_reason :: "ustr \<Rightarrow> import_reason" where
  "code_error_reason raw_code =
     (let stripped = strip raw_code
      in if length stripped > 64 then Code_Too_Long
         else if list_ex is_space stripped then Code_Inner_Space
         else Code_Bad_Character)"

abbreviation format_error :: "int \<Rightarrow> import_reason \<Rightarrow> import_row_error" where
  "format_error n reason \<equiv> \<lparr>ie_row = Some n, ie_reason = reason, ie_kind = Format\<rparr>"

text \<open>The state of the loop over the rows; \<open>vs_seen\<close> is \<open>seen_codes\<close>.\<close>

record validation_state =
  vs_candidates :: "import_candidate list"
  vs_seen :: "ustr list"
  vs_duplicates :: nat
  vs_errors :: "import_row_error list"

definition validate_row :: "int \<Rightarrow> int option \<Rightarrow> parsed_row \<Rightarrow> validation_state \<Rightarrow> validation_state" where
  "validate_row code_column name_column row st =
     (let raw_code = cells_get (pr_values row) code_column
      in if strip raw_code = []
           then st\<lparr>vs_errors := vs_errors st @ [format_error (pr_number row) Code_Empty]\<rparr>
         else
           (case normalize_product_code raw_code of
              Inl e \<Rightarrow> st\<lparr>vs_errors := vs_errors st @ [format_error (pr_number row) (code_error_reason raw_code)]\<rparr>
            | Inr code \<Rightarrow>
                let raw_name = (case name_column of None \<Rightarrow> [] | Some c \<Rightarrow> cells_get (pr_values row) c)
                in (case (if strip raw_name = [] then Inr code else normalize_product_name raw_name) of
                      Inl e \<Rightarrow> st\<lparr>vs_errors := vs_errors st @ [format_error (pr_number row) Name_Too_Long]\<rparr>
                    | Inr name \<Rightarrow>
                        if code \<in> set (vs_seen st) then st\<lparr>vs_duplicates := vs_duplicates st + 1\<rparr>
                        else st\<lparr>vs_seen := code # vs_seen st,
                                vs_candidates := vs_candidates st @
                                  [\<lparr>ic_row = pr_number row, ic_code = code, ic_name = name\<rparr>]\<rparr>)))"

definition validation_start :: validation_state where
  "validation_start = \<lparr>vs_candidates = [], vs_seen = [], vs_duplicates = 0, vs_errors = []\<rparr>"

definition validate_workbook ::
    "(ustr \<Rightarrow> ustr) \<Rightarrow> parsed_workbook \<Rightarrow> nat \<Rightarrow> phase_one_error + import_candidate list \<times> nat \<times> nat list" where
  "validate_workbook cf workbook max_rows =
     (let nonblank_rows = filter pr_nonblank (wb_rows workbook)
      in if length nonblank_rows > max_rows
           then Inl (Xlsx_Rejected (rejected ''xlsx_row_limit_exceeded'' ''row_limit_exceeded'' 413 False))
         else
           let normalized_headers = map (\<lambda>(i, h). (i, header_key cf h)) (wb_headers workbook);
               code_columns = map fst (filter (\<lambda>(i, h). h \<in> set CODE_HEADERS) normalized_headers);
               name_columns = map fst (filter (\<lambda>(i, h). h \<in> set NAME_HEADERS) normalized_headers)
           in (case code_columns of
                 [] \<Rightarrow> Inl (Xlsx_Rejected (rejected ''missing_code_column'' ''missing_code_column'' 422 True))
               | code_column # others \<Rightarrow>
                   if others \<noteq> []
                     then Inl (Xlsx_Rejected (rejected ''ambiguous_code_column'' ''ambiguous_code_column'' 422 True))
                   else
                     let name_column = (case name_columns of [] \<Rightarrow> None | c # _ \<Rightarrow> Some c);
                         st = fold (validate_row code_column name_column) nonblank_rows validation_start
                     in if vs_errors st \<noteq> [] then Inl (Format_Errors (vs_errors st))
                        else Inr (vs_candidates st, vs_duplicates st,
                                  if wb_sheets workbook > 1 then [wb_sheets workbook] else [])))"

section \<open>Failures and their audit\<close>

definition failure_result ::
    "string \<Rightarrow> import_error_kind \<Rightarrow> nat \<Rightarrow> nat \<Rightarrow> import_row_error list option \<Rightarrow> import_result" where
  "failure_result code kind http_status format_error_count errors =
     \<lparr>ir_success = 0, ir_duplicate = 0, ir_format = format_error_count,
      ir_errors = (case errors of Some es \<Rightarrow> es
                   | None \<Rightarrow> [\<lparr>ie_row = None, ie_reason = Message_Of code, ie_kind = kind\<rparr>]),
      ir_notices = [], ir_failed = True, ir_code = Some code, ir_http = http_status\<rparr>"

definition import_event :: "audit_result \<Rightarrow> int option \<Rightarrow> nat \<Rightarrow> detail \<Rightarrow> audit_event" where
  "import_event result actor req det =
     \<lparr>ev_action = ''product_import'', ev_result = result,
      ev_actor_type = (if actor = None then ''anonymous'' else ''admin''), ev_actor = actor,
      ev_target_type = Some ''product_batch'', ev_target = None, ev_code = None,
      ev_request = Some req, ev_detail = Some det\<rparr>"

definition audit_failure :: "bool \<Rightarrow> int \<Rightarrow> int option \<Rightarrow> nat \<Rightarrow> import_result \<Rightarrow> detail \<Rightarrow> db \<Rightarrow> db" where
  "audit_failure up now actor req result det d =
     snd (append_independent_event up now
       (import_event Failure actor req
          (det @ [(''success_count'', DInt (int (ir_success result))),
                  (''duplicate_count'', DInt (int (ir_duplicate result))),
                  (''format_error_count'', DInt (int (ir_format result)))])) d)"

section \<open>Phase two\<close>

text \<open>
  The loop over the candidates inside the transaction, with the two counters; it stops at the first
  exception that is not a duplicate code. \<open>rnd k j\<close> are the random bytes of attempt \<open>j\<close> for
  candidate \<open>k\<close>.
\<close>

fun import_loop ::
    "int \<Rightarrow> (nat \<Rightarrow> nat \<Rightarrow> nat list) \<Rightarrow> nat \<Rightarrow> int \<Rightarrow> nat \<Rightarrow> import_candidate list \<Rightarrow> nat \<Rightarrow> nat \<Rightarrow> db
     \<Rightarrow> (exc option \<times> nat \<times> nat) \<times> db" where
  "import_loop now rnd k actor req [] success duplicate d = ((None, success, duplicate), d)"
| "import_loop now rnd k actor req (c # cs) success duplicate d =
     (case create_product_in_transaction now (rnd k) (ic_code c) (ic_name c) actor (Some req) None d of
        (Inr p, d1) \<Rightarrow> import_loop now rnd (Suc k) actor req cs (success + 1) duplicate d1
      | (Inl e, d1) \<Rightarrow>
          if app_error_code e = Some ''duplicate_product_code''
            then import_loop now rnd (Suc k) actor req cs success (duplicate + 1) d1
          else ((Some e, success, duplicate), d1))"

text \<open>The block of the transaction: the loop, then the success event.\<close>

definition import_block ::
    "int \<Rightarrow> (nat \<Rightarrow> nat \<Rightarrow> nat list) \<Rightarrow> int \<Rightarrow> nat \<Rightarrow> import_candidate list \<Rightarrow> nat \<Rightarrow> nat list \<Rightarrow> nat \<Rightarrow> container_metrics
     \<Rightarrow> db \<Rightarrow> import_result res \<times> db" where
  "import_block now rnd actor req candidates file_duplicates notices upload_bytes metrics d =
     (case import_loop now rnd 0 actor req candidates 0 file_duplicates d of
        ((Some e, _, _), d1) \<Rightarrow> (Inl e, d1)
      | ((None, success, duplicate), d1) \<Rightarrow>
          dbind (append_event now
              (import_event Success (Some actor) req
                [(''success_count'', DInt (int success)), (''duplicate_count'', DInt (int duplicate)),
                 (''format_error_count'', DInt 0), (''upload_bytes'', DInt (int upload_bytes)),
                 (''decompressed_bytes'', DInt (int (cm_decompressed metrics)))]))
            (\<lambda>_. Pair (Inr \<lparr>ir_success = success, ir_duplicate = duplicate, ir_format = 0, ir_errors = [],
                            ir_notices = notices, ir_failed = False, ir_code = None, ir_http = 200\<rparr>)) d1)"

text \<open>Phase one as a whole: the content, the metrics and the validated rows.\<close>

definition phase_one ::
    "(ustr \<Rightarrow> ustr) \<Rightarrow> import_settings \<Rightarrow> nat list \<Rightarrow> ustr option \<Rightarrow> zip_entry list option \<Rightarrow> parse_outcome
     \<Rightarrow> phase_one_error + (nat list \<times> container_metrics \<times> import_candidate list \<times> nat \<times> nat list)" where
  "phase_one cf cfg upload filename archive outcome =
     (case read_upload_with_limit upload (is_max_upload cfg) of
        Inl e \<Rightarrow> Inl (Xlsx_Rejected e)
      | Inr content \<Rightarrow>
          if (case filename of None \<Rightarrow> True | Some f \<Rightarrow> f = [] \<or> \<not> ends_with (u ''.xlsx'') (cf f))
            then Inl (Xlsx_Rejected (rejected ''invalid_xlsx_extension'' ''invalid_extension'' 422 True))
          else
            (case inspect_xlsx_container cf content archive (is_max_decompressed cfg) (is_ratio_num cfg) (is_ratio_den cfg) of
               Inl e \<Rightarrow> Inl (Xlsx_Rejected e)
             | Inr metrics \<Rightarrow>
                 (case parse_xlsx_with_timeout outcome of
                    Inl e \<Rightarrow> Inl (Xlsx_Rejected e)
                  | Inr workbook \<Rightarrow>
                      (case validate_workbook cf workbook (is_max_rows cfg) of
                         Inl e \<Rightarrow> Inl e
                       | Inr (candidates, duplicates, notices) \<Rightarrow> Inr (content, metrics, candidates, duplicates, notices)))))"

text \<open>
  \<open>import_products\<close>. \<open>up\<close>: the database accepts the audit connection of a failure; \<open>conn\<close>: it accepts
  the connection of phase two.
\<close>

definition import_products ::
    "(ustr \<Rightarrow> ustr) \<Rightarrow> import_settings \<Rightarrow> bool \<Rightarrow> bool \<Rightarrow> int \<Rightarrow> (nat \<Rightarrow> nat \<Rightarrow> nat list) \<Rightarrow> nat list \<Rightarrow> ustr option
     \<Rightarrow> zip_entry list option \<Rightarrow> parse_outcome \<Rightarrow> int \<Rightarrow> nat \<Rightarrow> db \<Rightarrow> import_result res \<times> db" where
  "import_products cf cfg up conn now rnd upload filename archive outcome actor req d =
     (case phase_one cf cfg upload filename archive outcome of
        Inl (Format_Errors errors) \<Rightarrow>
          let result = failure_result ''import_format_errors'' Format 422 (length errors) (Some errors)
          in (Inr result, audit_failure up now (Some actor) req result
                [(''reason'', DStr (u ''format_errors'')), (''error_rows'', DInt (int (length errors)))] d)
      | Inl (Xlsx_Rejected failure) \<Rightarrow>
          let result = failure_result (xl_code failure) (if xl_format failure then Format else Security)
                         (xl_status failure) (if xl_format failure then 1 else 0) None
          in (Inr result, audit_failure up now (Some actor) req result
                [(''reason'', DStr (u (xl_reason failure)))] d)
      | Inr (content, metrics, candidates, file_duplicates, notices) \<Rightarrow>
          if \<not> conn then (Inl DbError, d)
          else
            (case transaction (import_block now rnd actor req candidates file_duplicates notices (length content) metrics) d of
               (Inr result, d1) \<Rightarrow> (Inr result, d1)
             | (Inl e, d1) \<Rightarrow>
                 (case app_error_code e of
                    None \<Rightarrow> (Inl e, d1)
                  | Some ecode \<Rightarrow>
                      let code = (if ecode = ''token_generation_failed'' then ''token_retry_exhausted'' else ecode);
                          result = failure_result code System 503 0 None;
                          attempted = fst (snd (fst (import_loop now rnd 0 actor req candidates 0 file_duplicates d)))
                      in (Inr result, audit_failure up now (Some actor) req result
                            [(''reason'', DStr (u ''system_error'')), (''system_error_code'', DStr (u code)),
                             (''attempted_success_count_before_rollback'', DInt (int attempted))] d1))))"

section \<open>Lemmas on the read\<close>

lemma read_loop_spec:
  "length content \<le> m \<Longrightarrow> read_loop m content rest =
     (if length content + length rest > m then Inl (rejected ''xlsx_too_large'' ''upload_size_exceeded'' 413 False)
      else Inr (content @ rest))"
proof (induction m content rest rule: read_loop.induct)
  case (1 m content rest)
  define n where "n = min UPLOAD_READ_CHUNK_BYTES (m + 1 - length content)"
  have pos: "0 < n" using "1.prems" by (simp add: n_def UPLOAD_READ_CHUNK_BYTES_def)
  have unfold: "read_loop m content rest =
      (if take n rest = [] then Inr content
       else if length (content @ take n rest) > m then Inl (rejected ''xlsx_too_large'' ''upload_size_exceeded'' 413 False)
       else read_loop m (content @ take n rest) (drop n rest))"
    by (subst read_loop.simps) (simp only: Let_def n_def)
  show ?case
  proof (cases "rest = []")
    case True
    then have "take n rest = []" by simp
    then have "read_loop m content rest = Inr content" by (simp add: unfold del: take_eq_Nil)
    with True "1.prems" show ?thesis by simp
  next
    case False
    with pos have ne: "take n rest \<noteq> []" by simp
    show ?thesis
    proof (cases "length (content @ take n rest) > m")
      case True
      then have "m < length content + length rest" by simp
      with ne True show ?thesis by (simp only: unfold if_True if_False)
    next
      case small: False
      have "length (content @ take n rest) + length (drop n rest) = length content + length rest" by simp
      with "1.IH" [OF refl n_def refl ne small] small
      have "read_loop m (content @ take n rest) (drop n rest) =
          (if length content + length rest > m then Inl (rejected ''xlsx_too_large'' ''upload_size_exceeded'' 413 False)
           else Inr (content @ rest))"
        by (simp only: append.assoc append_take_drop_id not_less simp_thms)
      with ne small show ?thesis by (simp only: unfold if_False)
    qed
  qed
qed

section \<open>Lemmas on the validation\<close>

text \<open>The judgement of one row: why it is refused, or its normalised code and name.\<close>

definition judge_row :: "int \<Rightarrow> int option \<Rightarrow> parsed_row \<Rightarrow> import_reason + import_candidate" where
  "judge_row cc nc row =
     (let raw_code = cells_get (pr_values row) cc;
          raw_name = (case nc of None \<Rightarrow> [] | Some c \<Rightarrow> cells_get (pr_values row) c)
      in if strip raw_code = [] then Inl Code_Empty
         else if \<not> PRODUCT_CODE_PATTERN (strip raw_code) then Inl (code_error_reason raw_code)
         else if length (strip raw_name) > 120 then Inl Name_Too_Long
         else Inr \<lparr>ic_row = pr_number row, ic_code = ascii_upper (strip raw_code),
                   ic_name = (if strip raw_name = [] then ascii_upper (strip raw_code) else strip raw_name)\<rparr>)"

lemma validate_row_judge:
  "validate_row cc nc row st =
     (case judge_row cc nc row of
        Inl reason \<Rightarrow> st\<lparr>vs_errors := vs_errors st @ [format_error (pr_number row) reason]\<rparr>
      | Inr c \<Rightarrow>
          if ic_code c \<in> set (vs_seen st) then st\<lparr>vs_duplicates := vs_duplicates st + 1\<rparr>
          else st\<lparr>vs_seen := ic_code c # vs_seen st, vs_candidates := vs_candidates st @ [c]\<rparr>)"
  by (simp add: validate_row_def judge_row_def Let_def normalize_product_code_def normalize_product_name_def
      PRODUCT_NAME_MAX_LENGTH_def)

definition row_errors :: "int \<Rightarrow> int option \<Rightarrow> parsed_row list \<Rightarrow> import_row_error list" where
  "row_errors cc nc rows =
     concat (map (\<lambda>r. case judge_row cc nc r of Inl reason \<Rightarrow> [format_error (pr_number r) reason] | Inr _ \<Rightarrow> []) rows)"

definition accepted_rows :: "int \<Rightarrow> int option \<Rightarrow> parsed_row list \<Rightarrow> import_candidate list" where
  "accepted_rows cc nc rows =
     concat (map (\<lambda>r. case judge_row cc nc r of Inl _ \<Rightarrow> [] | Inr c \<Rightarrow> [c]) rows)"

text \<open>\<open>firsts cs acc\<close>: \<open>cs\<close> are the first occurrences of the codes of \<open>acc\<close>, in order.\<close>

definition firsts :: "import_candidate list \<Rightarrow> import_candidate list \<Rightarrow> bool" where
  "firsts cs acc \<longleftrightarrow> distinct (map ic_code cs) \<and> subseq cs acc \<and> ic_code ` set cs = ic_code ` set acc
     \<and> (\<forall>c \<in> set cs. List.find (\<lambda>a. ic_code a = ic_code c) acc = Some c)"

lemma firsts_dup:
  assumes "firsts cs acc" "ic_code c \<in> ic_code ` set cs"
  shows "firsts cs (acc @ [c])"
  using assms unfolding firsts_def
  by (auto simp: find_append intro: subseq_order.trans [OF _ list_emb_append2] split: option.split)

lemma firsts_new:
  assumes "firsts cs acc" "ic_code c \<notin> ic_code ` set cs"
  shows "firsts (cs @ [c]) (acc @ [c])"
proof -
  have "\<forall>x \<in> set acc. ic_code x \<noteq> ic_code c"
    using assms unfolding firsts_def by (metis imageI)
  then have none: "List.find (\<lambda>a. ic_code a = ic_code c) acc = None"
    by (simp add: find_None_iff)
  with assms show ?thesis unfolding firsts_def
    by (auto simp: find_append image_iff intro: list_emb_append_mono split: option.split)
qed

lemma fold_validate:
  "let st = fold (validate_row cc nc) rows validation_start
   in vs_errors st = row_errors cc nc rows \<and> firsts (vs_candidates st) (accepted_rows cc nc rows)
      \<and> set (vs_seen st) = ic_code ` set (vs_candidates st)
      \<and> vs_duplicates st + length (vs_candidates st) = length (accepted_rows cc nc rows)"
proof (induction rows rule: rev_induct)
  case Nil
  show ?case by (simp add: validation_start_def row_errors_def accepted_rows_def firsts_def)
next
  case (snoc r rows)
  define st where "st = fold (validate_row cc nc) rows validation_start"
  have IH: "vs_errors st = row_errors cc nc rows" "firsts (vs_candidates st) (accepted_rows cc nc rows)"
    "set (vs_seen st) = ic_code ` set (vs_candidates st)"
    "vs_duplicates st + length (vs_candidates st) = length (accepted_rows cc nc rows)"
    using snoc by (simp_all add: Let_def st_def)
  have next_st: "fold (validate_row cc nc) (rows @ [r]) validation_start = validate_row cc nc r st"
    by (simp add: st_def)
  show ?case
  proof (cases "judge_row cc nc r")
    case (Inl reason)
    with IH show ?thesis
      unfolding next_st by (simp add: Let_def validate_row_judge row_errors_def accepted_rows_def)
  next
    case (Inr c)
    have acc: "accepted_rows cc nc (rows @ [r]) = accepted_rows cc nc rows @ [c]"
      and err: "row_errors cc nc (rows @ [r]) = row_errors cc nc rows"
      using Inr by (simp_all add: accepted_rows_def row_errors_def)
    show ?thesis
    proof (cases "ic_code c \<in> set (vs_seen st)")
      case True
      with IH Inr show ?thesis
        unfolding next_st acc err by (simp add: Let_def validate_row_judge firsts_dup)
    next
      case False
      with IH Inr show ?thesis
        unfolding next_st acc err by (simp add: Let_def validate_row_judge firsts_new)
    qed
  qed
qed

lemma row_errors_none: "row_errors cc nc rows = [] \<Longrightarrow> length (accepted_rows cc nc rows) = length rows"
  by (induction rows) (auto simp: row_errors_def accepted_rows_def split: sum.splits)

definition candidate_ok :: "import_candidate \<Rightarrow> bool" where
  "candidate_ok c \<longleftrightarrow> ck_products_code_format (ic_code c) \<and> normalize_product_name (ic_name c) = Inr (ic_name c)"

lemma judged_ok:
  assumes "judge_row cc nc r = Inr c"
  shows "candidate_ok c"
proof -
  let ?raw = "cells_get (pr_values r) cc"
  from assms have pat: "PRODUCT_CODE_PATTERN (strip ?raw)" and code: "ic_code c = ascii_upper (strip ?raw)"
    and name: "ic_name c = ic_code c \<or> (\<exists>n. ic_name c = strip n \<and> strip n \<noteq> [] \<and> length (strip n) \<le> 120)"
    by (auto simp: judge_row_def Let_def split: if_splits)
  have ck: "ck_products_code_format (ic_code c)"
    using pat by (intro normalized_code_format [of ?raw]) (simp add: normalize_product_code_def code)
  then have "normalize_product_code (ic_code c) = Inr (ic_code c)" by (rule normalize_stored_code)
  then have "strip (ic_code c) = ic_code c"
    using ck code_char_product_char product_char_not_space
    by (intro strip_no_space) (auto simp: ck_products_code_format_def list_all_iff)
  with ck name show ?thesis
    by (auto simp: candidate_ok_def ck_products_code_format_def intro!: normalize_name_fixed)
qed

lemma accepted_ok: "c \<in> set (accepted_rows cc nc rows) \<Longrightarrow> candidate_ok c"
  by (auto simp: accepted_rows_def dest: judged_ok [OF sym] judged_ok split: sum.splits)

section \<open>Lemmas on the insertion\<close>

lemma create_candidate:
  assumes "candidate_ok c" "\<forall>j. length (rnd j) = 16"
  shows "\<exists>r d'. create_product_in_transaction now rnd (ic_code c) (ic_name c) actor req None d = (r, d')
    \<and> (if ic_code c \<in> p_code ` set (t_products (tabs d))
       then r = Inl (AppError ''duplicate_product_code'' 409) \<and> tabs d' = tabs d
       else r = Inl (AppError ''token_generation_failed'' 503)
         \<or> (\<exists>p. r = Inr p \<and> tabs d' = (tabs d)\<lparr>t_products := t_products (tabs d) @ [p]\<rparr>
              \<and> p_code p = ic_code c \<and> p_name p = Some (ic_name c) \<and> p_status p = Active \<and> p_current p = None))"
proof -
  have v: "valid_new (ic_code c) (ic_name c) None" and rnd: "\<And>j. length (rnd j) = 16"
    using assms normalized_name_width by (auto simp: candidate_ok_def valid_new_def)
  have body: "create_product_in_transaction now rnd (ic_code c) (ic_name c) actor req None d =
      create_loop 5 now rnd 0 (ic_code c) (ic_name c) actor req None d"
    using assms normalize_stored_code
    by (simp add: create_product_in_transaction_def candidate_ok_def TOKEN_RETRY_LIMIT_def)
  show ?thesis
  proof (cases "ic_code c \<in> p_code ` set (t_products (tabs d))")
    case True
    have "\<exists>d'. create_loop 5 now rnd 0 (ic_code c) (ic_name c) actor req None d =
        (Inl (AppError ''duplicate_product_code'' 409), d') \<and> tabs d' = tabs d"
      by (rule create_loop_code_taken [OF v rnd True]) simp
    with body True show ?thesis by auto
  next
    case False
    show ?thesis
    proof (cases "fresh_token rnd 0 5 (tabs d)")
      case None
      from create_loop_no_token [OF v rnd False None] body False show ?thesis by fastforce
    next
      case (Some j)
      from create_loop_fresh [OF v rnd False Some] obtain d' pid where
        "create_loop 5 now rnd 0 (ic_code c) (ic_name c) actor req None d =
           (Inr (new_product now pid (ic_code c) (ic_name c) (unpadded (rnd j))), d')"
        "tabs d' = with_product (new_product now pid (ic_code c) (ic_name c) (unpadded (rnd j)))
           (creation_audit now actor req None (new_product now pid (ic_code c) (ic_name c) (unpadded (rnd j))) (q_audit (seqs d))) (tabs d)"
        by blast
      with body False show ?thesis
        by (simp add: with_product_def creation_audit_def new_product_def)
    qed
  qed
qed

definition fresh_candidates :: "tables \<Rightarrow> import_candidate list \<Rightarrow> import_candidate list" where
  "fresh_candidates t cs = filter (\<lambda>c. ic_code c \<notin> p_code ` set (t_products t)) cs"

text \<open>The products an import adds for its candidates, in order.\<close>

definition imported :: "import_candidate list \<Rightarrow> p_row list \<Rightarrow> bool" where
  "imported cs ps \<longleftrightarrow> list_all2 (\<lambda>c p. p_code p = ic_code c \<and> p_name p = Some (ic_name c)
     \<and> p_status p = Active \<and> p_current p = None) cs ps"

definition loop_done :: "import_candidate list \<Rightarrow> nat \<Rightarrow> nat \<Rightarrow> db \<Rightarrow> (exc option \<times> nat \<times> nat) \<times> db \<Rightarrow> bool" where
  "loop_done cs s0 n0 d out =
     (case out of
        ((Some e, _, _), _) \<Rightarrow> e = AppError ''token_generation_failed'' 503
      | ((None, s, n), d') \<Rightarrow>
          \<exists>new. imported (fresh_candidates (tabs d) cs) new
            \<and> tabs d' = (tabs d)\<lparr>t_products := t_products (tabs d) @ new\<rparr>
            \<and> s = s0 + length new \<and> n + length new = n0 + length cs)"

lemma import_loop_done:
  assumes "\<forall>c \<in> set cs. candidate_ok c" "distinct (map ic_code cs)" "\<forall>k j. length (rnd k j) = 16"
  shows "loop_done cs s0 n0 d (import_loop now rnd k actor req cs s0 n0 d)"
  using assms(1,2)
proof (induction cs arbitrary: k s0 n0 d)
  case Nil
  show ?case by (simp add: loop_done_def fresh_candidates_def imported_def)
next
  case (Cons c cs)
  have ok: "candidate_ok c" and rnd: "\<forall>j. length (rnd k j) = 16" using Cons.prems assms(3) by auto
  from create_candidate [OF ok rnd] obtain r d' where
    r: "create_product_in_transaction now (rnd k) (ic_code c) (ic_name c) actor (Some req) None d = (r, d')"
    and c: "if ic_code c \<in> p_code ` set (t_products (tabs d))
       then r = Inl (AppError ''duplicate_product_code'' 409) \<and> tabs d' = tabs d
       else r = Inl (AppError ''token_generation_failed'' 503)
         \<or> (\<exists>p. r = Inr p \<and> tabs d' = (tabs d)\<lparr>t_products := t_products (tabs d) @ [p]\<rparr>
              \<and> p_code p = ic_code c \<and> p_name p = Some (ic_name c) \<and> p_status p = Active \<and> p_current p = None)"
    by blast
  have IH: "loop_done cs s n e (import_loop now rnd k' actor req cs s n e)" for s n e k'
    using Cons.prems by (intro Cons.IH) auto
  consider (taken) "ic_code c \<in> p_code ` set (t_products (tabs d))" "r = Inl (AppError ''duplicate_product_code'' 409)" "tabs d' = tabs d"
    | (stop) "r = Inl (AppError ''token_generation_failed'' 503)"
    | (new) p where "ic_code c \<notin> p_code ` set (t_products (tabs d))" "r = Inr p"
        "tabs d' = (tabs d)\<lparr>t_products := t_products (tabs d) @ [p]\<rparr>" "p_code p = ic_code c"
        "p_name p = Some (ic_name c)" "p_status p = Active" "p_current p = None"
    using c by (auto split: if_splits)
  then show ?case
  proof cases
    case taken
    have "loop_done cs s0 (n0 + 1) d' (import_loop now rnd (Suc k) actor req cs s0 (n0 + 1) d')" by (rule IH)
    with taken r show ?thesis
      by (simp add: loop_done_def fresh_candidates_def split: prod.splits option.splits)
  next
    case stop
    with r show ?thesis by (simp add: loop_done_def)
  next
    case (new p)
    have fresh: "fresh_candidates (tabs d') cs = fresh_candidates (tabs d) cs"
      using new Cons.prems by (auto simp: fresh_candidates_def image_iff intro!: filter_cong)
    have "loop_done cs (s0 + 1) n0 d' (import_loop now rnd (Suc k) actor req cs (s0 + 1) n0 d')" by (rule IH)
    moreover have "imported (fresh_candidates (tabs d) (c # cs)) (p # ps)"
      if "imported (fresh_candidates (tabs d') cs) ps" for ps
      using that new unfolding fresh by (simp add: fresh_candidates_def imported_def)
    ultimately show ?thesis using new r
      by (fastforce simp: loop_done_def split: prod.splits option.splits)
  qed
qed

text \<open>Every import keeps the database's invariant and only adds.\<close>

lemma import_loop_step: "step_ok d (snd (import_loop now rnd k actor req cs s n d))"
proof (induction cs arbitrary: k s n d)
  case (Cons c cs)
  have "step_ok d d1" if "create_product_in_transaction now (rnd k) (ic_code c) (ic_name c) actor (Some req) None d = (r, d1)" for r d1
    using create_in_transaction_step [of d now "rnd k" "ic_code c" "ic_name c" actor "Some req" None] that by simp
  then show ?case
    by (auto split: prod.splits sum.splits intro: step_ok_trans [OF _ Cons.IH])
qed simp

lemma import_block_step [inv_intro]: "step_ok d (snd (import_block now rnd actor req cs n notices b m d))"
proof -
  have "step_ok d d1" if "import_loop now rnd 0 actor req cs 0 n d = (out, d1)" for out d1
    using import_loop_step [of d now rnd 0 actor req cs 0 n] that by simp
  then show ?thesis unfolding import_block_def
    by (auto split: prod.splits option.splits intro!: step_dbind step_append_event intro: step_ok_trans)
qed

lemma audit_failure_step: "step_ok d (audit_failure up now actor req result det d)"
  unfolding audit_failure_def by (rule step_independent_event)

lemma import_products_step: "step_ok d (snd (import_products cf cfg up conn now rnd upload fn ar oc actor req d))"
proof -
  have "step_ok d d1" if "transaction (import_block now rnd actor req cs n notices b m) d = (r, d1)" for cs n notices b m r d1
    by (rule step_ok_transaction [OF import_block_step that])
  then show ?thesis unfolding import_products_def
    by (auto simp: Let_def split: sum.splits phase_one_error.splits prod.splits option.splits
        intro: audit_failure_step step_ok_trans [OF _ audit_failure_step])
qed

lemma read_upload_spec:
  "read_upload_with_limit upload m =
     (if length upload > m then Inl (rejected ''xlsx_too_large'' ''upload_size_exceeded'' 413 False) else Inr upload)"
  by (simp add: read_upload_with_limit_def read_loop_spec)

section \<open>How often an upload is read\<close>

text \<open>The loop with a budget of reads; \<open>None\<close> when it wants another one.\<close>

fun read_within :: "nat \<Rightarrow> nat \<Rightarrow> nat list \<Rightarrow> nat list \<Rightarrow> (xlsx_rejected + nat list) option" where
  "read_within 0 max_bytes content rest = None"
| "read_within (Suc k) max_bytes content rest =
     (let remaining = max_bytes + 1 - length content;
          n = min UPLOAD_READ_CHUNK_BYTES remaining;
          chunk = take n rest
      in if chunk = [] then Some (Inr content)
         else if length (content @ chunk) > max_bytes
           then Some (Inl (rejected ''xlsx_too_large'' ''upload_size_exceeded'' 413 False))
         else read_within k max_bytes (content @ chunk) (drop n rest))"

lemma read_within_enough:
  assumes "length content \<le> m" "m + 1 - length content \<le> k * UPLOAD_READ_CHUNK_BYTES"
  shows "read_within (Suc k) m content rest = Some (read_loop m content rest)"
  using assms
proof (induction k arbitrary: content rest)
  case 0
  then show ?case by simp
next
  case (Suc k)
  define n where "n = min UPLOAD_READ_CHUNK_BYTES (m + 1 - length content)"
  have step: "read_loop m content rest =
      (if take n rest = [] then Inr content
       else if length (content @ take n rest) > m then Inl (rejected ''xlsx_too_large'' ''upload_size_exceeded'' 413 False)
       else read_loop m (content @ take n rest) (drop n rest))"
    by (subst read_loop.simps) (simp only: Let_def n_def)
  have within: "read_within (Suc (Suc k)) m content rest =
      (if take n rest = [] then Some (Inr content)
       else if length (content @ take n rest) > m then Some (Inl (rejected ''xlsx_too_large'' ''upload_size_exceeded'' 413 False))
       else read_within (Suc k) m (content @ take n rest) (drop n rest))"
    by (subst read_within.simps(2)) (simp only: Let_def n_def)
  show ?case
  proof (cases "take n rest = [] \<or> length (content @ take n rest) > m")
    case True
    then show ?thesis unfolding step within by (simp only: if_True if_False split: if_split) blast
  next
    case False
    then have small: "length (content @ take n rest) \<le> m" by simp
    have "read_within (Suc k) m (content @ take n rest) (drop n rest) = Some (read_loop m (content @ take n rest) (drop n rest))"
    proof (cases "n \<le> length rest")
      case True
      then have "length (content @ take n rest) = length content + n" by simp
      with small have "n = UPLOAD_READ_CHUNK_BYTES" by (simp add: n_def split: if_splits)
      with Suc.prems small True show ?thesis by (intro Suc.IH) simp_all
    next
      case False
      then have "drop n rest = []" by simp
      then show ?thesis by (simp add: read_loop.simps)
    qed
    with False show ?thesis unfolding step within by (simp only: if_False not_False_eq_True de_Morgan_disj)
  qed
qed

section \<open>Properties\<close>

text \<open>
  C40. Reading an upload ends: whatever the length of the upload, the loop of the bounded read asks for at most one chunk of
  65536 bytes per 65536 bytes of the limit, and two more; it returns with the bounded read's result within that
  number of reads.
\<close>

theorem upload_read_ends:
  "read_within (max_bytes div 65536 + 2) max_bytes [] upload = Some (read_upload_with_limit upload max_bytes)"
proof -
  have "max_bytes + 1 \<le> (max_bytes div 65536 + 1) * 65536" by simp
  then show ?thesis
    using read_within_enough [of "[]" max_bytes "max_bytes div 65536 + 1" upload]
    by (simp add: read_upload_with_limit_def UPLOAD_READ_CHUNK_BYTES_def del: read_within.simps)
qed

definition columns_of :: "(ustr \<Rightarrow> ustr) \<Rightarrow> ustr list \<Rightarrow> parsed_workbook \<Rightarrow> int list" where
  "columns_of cf names wb = map fst (filter (\<lambda>(i, h). header_key cf h \<in> set names) (wb_headers wb))"

definition name_column_of :: "(ustr \<Rightarrow> ustr) \<Rightarrow> parsed_workbook \<Rightarrow> int option" where
  "name_column_of cf wb = (case columns_of cf NAME_HEADERS wb of [] \<Rightarrow> None | c # _ \<Rightarrow> Some c)"

text \<open>
  What the validation promises: a file with too many rows, or without exactly one code column, is
  refused as a whole; otherwise every bad row is reported, in order, and nothing is accepted; with
  no bad row the candidates are the first occurrences of the codes, normalised and ready to insert,
  and the duplicates are the other rows.
\<close>

definition validation_spec ::
    "(ustr \<Rightarrow> ustr) \<Rightarrow> parsed_workbook \<Rightarrow> nat \<Rightarrow> phase_one_error + import_candidate list \<times> nat \<times> nat list \<Rightarrow> bool" where
  "validation_spec cf wb m out =
     (let rows = filter pr_nonblank (wb_rows wb); codes = columns_of cf CODE_HEADERS wb;
          fits = (length rows \<le> m \<and> length codes = 1);
          bad = row_errors (hd codes) (name_column_of cf wb) rows
      in case out of
           Inl (Xlsx_Rejected r) \<Rightarrow> \<not> fits
         | Inl (Format_Errors es) \<Rightarrow> fits \<and> es \<noteq> [] \<and> es = bad
         | Inr (cands, dup, notices) \<Rightarrow> fits \<and> bad = []
             \<and> firsts cands (accepted_rows (hd codes) (name_column_of cf wb) rows)
             \<and> dup + length cands = length rows \<and> list_all candidate_ok cands
             \<and> notices = (if wb_sheets wb > 1 then [wb_sheets wb] else []))"

lemma validate_workbook_cases:
  "validate_workbook cf wb m =
     (let rows = filter pr_nonblank (wb_rows wb)
      in if length rows > m then Inl (Xlsx_Rejected (rejected ''xlsx_row_limit_exceeded'' ''row_limit_exceeded'' 413 False))
         else (case columns_of cf CODE_HEADERS wb of
            [] \<Rightarrow> Inl (Xlsx_Rejected (rejected ''missing_code_column'' ''missing_code_column'' 422 True))
          | cc # others \<Rightarrow>
              if others \<noteq> [] then Inl (Xlsx_Rejected (rejected ''ambiguous_code_column'' ''ambiguous_code_column'' 422 True))
              else let st = fold (validate_row cc (name_column_of cf wb)) rows validation_start
                in if vs_errors st \<noteq> [] then Inl (Format_Errors (vs_errors st))
                   else Inr (vs_candidates st, vs_duplicates st, if wb_sheets wb > 1 then [wb_sheets wb] else [])))"
proof -
  have cols: "map fst (filter (\<lambda>(i, h). h \<in> names) (map (\<lambda>(i, h). (i, header_key cf h)) hs)) =
      map fst (filter (\<lambda>(i, h). header_key cf h \<in> names) hs)" for names hs
    by (induction hs) auto
  show ?thesis
    unfolding validate_workbook_def Let_def cols columns_of_def name_column_of_def ..
qed

lemma validation_meets_spec: "validation_spec cf wb m (validate_workbook cf wb m)"
proof -
  let ?rows = "filter pr_nonblank (wb_rows wb)"
  consider (long) "length ?rows > m" | (none) "length ?rows \<le> m" "columns_of cf CODE_HEADERS wb = []"
    | (many) cc c2 cs where "length ?rows \<le> m" "columns_of cf CODE_HEADERS wb = cc # c2 # cs"
    | (one) cc where "length ?rows \<le> m" "columns_of cf CODE_HEADERS wb = [cc]"
    by (metis list.exhaust not_less)
  then show ?thesis
  proof cases
    case (one cc)
    define st where "st = fold (validate_row cc (name_column_of cf wb)) ?rows validation_start"
    from fold_validate [of cc "name_column_of cf wb" ?rows] have st:
      "vs_errors st = row_errors cc (name_column_of cf wb) ?rows"
      "firsts (vs_candidates st) (accepted_rows cc (name_column_of cf wb) ?rows)"
      "vs_duplicates st + length (vs_candidates st) = length (accepted_rows cc (name_column_of cf wb) ?rows)"
      by (simp_all add: Let_def st_def)
    have v: "validate_workbook cf wb m =
        (if vs_errors st \<noteq> [] then Inl (Format_Errors (vs_errors st))
         else Inr (vs_candidates st, vs_duplicates st, if wb_sheets wb > 1 then [wb_sheets wb] else []))"
      using one by (simp add: validate_workbook_cases Let_def st_def)
    have "subseq (vs_candidates st) (accepted_rows cc (name_column_of cf wb) ?rows)"
      using st(2) by (simp add: firsts_def)
    then have "set (vs_candidates st) \<subseteq> set (accepted_rows cc (name_column_of cf wb) ?rows)"
      by (auto elim: list_emb_set)
    then have "list_all candidate_ok (vs_candidates st)"
      using accepted_ok by (auto simp: list_all_iff)
    with one st show ?thesis unfolding v
      by (cases "vs_errors st = []") (auto simp: validation_spec_def Let_def dest: row_errors_none [OF sym])
  qed (simp_all add: validate_workbook_cases validation_spec_def Let_def)
qed

text \<open>The validation of the parsed workbook keeps its promise on every input.\<close>

theorem workbook_validation:
  "validation_spec cf wb m (validate_workbook cf wb m)"
  by (rule validation_meets_spec)

text \<open>
  What the import promises. A refusal of phase one changes nothing but the audit log, and its errors
  are the ones phase one found. Otherwise either the whole batch is committed (one new, active,
  unpublished product per candidate whose code was free, in order, the others counted as duplicates,
  one success event with the same transaction), or every token attempt of some candidate collided
  and no product was added.
\<close>

definition failed_event :: "audit_event \<Rightarrow> bool" where
  "failed_event e \<longleftrightarrow> ev_action e = ''product_import'' \<and> ev_result e = Failure"

definition only_audited :: "bool \<Rightarrow> tables \<Rightarrow> tables \<Rightarrow> bool" where
  "only_audited up t t' \<longleftrightarrow>
     (if up then \<exists>e. failed_event (e_event e) \<and> t' = t\<lparr>t_audit := t_audit t @ [e]\<rparr> else t' = t)"

definition import_spec ::
    "bool \<Rightarrow> phase_one_error + (nat list \<times> container_metrics \<times> import_candidate list \<times> nat \<times> nat list)
     \<Rightarrow> db \<Rightarrow> import_result res \<times> db \<Rightarrow> bool" where
  "import_spec up phase d out =
     (case out of
        (Inl e, d') \<Rightarrow> False
      | (Inr r, d') \<Rightarrow>
          (case phase of
             Inl (Format_Errors es) \<Rightarrow> only_audited up (tabs d) (tabs d')
               \<and> r = failure_result ''import_format_errors'' Format 422 (length es) (Some es)
           | Inl (Xlsx_Rejected x) \<Rightarrow> only_audited up (tabs d) (tabs d') \<and> ir_failed r
               \<and> ir_success r = 0 \<and> ir_code r = Some (xl_code x) \<and> ir_http r = xl_status x
           | Inr (content, metrics, cands, dup, notices) \<Rightarrow>
               (if ir_failed r then only_audited up (tabs d) (tabs d')
                  \<and> r = failure_result ''token_retry_exhausted'' System 503 0 None
                else \<exists>new e. imported (fresh_candidates (tabs d) cands) new
                  \<and> tabs d' = (tabs d)\<lparr>t_products := t_products (tabs d) @ new, t_audit := t_audit (tabs d) @ [e]\<rparr>
                  \<and> ev_action (e_event e) = ''product_import'' \<and> ev_result (e_event e) = Success
                  \<and> ir_success r = length new \<and> ir_success r + ir_duplicate r = dup + length cands
                  \<and> ir_http r = 200 \<and> ir_notices r = notices)))"

lemma audit_failure_only: "only_audited up (tabs d) (tabs (audit_failure up now actor req r det d))"
proof -
  define ev where "ev = import_event Failure actor req
      (det @ [(''success_count'', DInt (int (ir_success r))), (''duplicate_count'', DInt (int (ir_duplicate r))),
              (''format_error_count'', DInt (int (ir_format r)))])"
  have ev: "audit_widths ev" "failed_event ev"
    by (simp_all add: ev_def audit_widths_def import_event_def failed_event_def)
  show ?thesis
  proof (cases up)
    case True
    with ev have "tabs (audit_failure up now actor req r det d) =
        (tabs d)\<lparr>t_audit := t_audit (tabs d) @ [\<lparr>e_id = q_audit (seqs d), e_at = now, e_event = ev\<rparr>]\<rparr>"
      by (simp add: audit_failure_def append_independent_event_def transaction_def append_event_ok ev_def [symmetric])
    with ev True show ?thesis
      by (simp add: only_audited_def) (rule exI [of _ "\<lparr>e_id = q_audit (seqs d), e_at = now, e_event = ev\<rparr>"], simp)
  qed (simp add: only_audited_def audit_failure_def append_independent_event_def)
qed

lemma phase_one_candidates:
  assumes "phase_one cf cfg upload fn ar oc = Inr (content, metrics, cands, dup, notices)"
  shows "(\<forall>c \<in> set cands. candidate_ok c) \<and> distinct (map ic_code cands)"
proof -
  from assms obtain wb m where "validate_workbook cf wb m = Inr (cands, dup, notices)"
    unfolding phase_one_def by (auto split: sum.splits if_splits)
  with validation_meets_spec [of cf wb m] show ?thesis
    by (auto simp: validation_spec_def Let_def firsts_def list_all_iff)
qed


definition sample_upload_bytes :: "nat list" where
  "sample_upload_bytes = [80, 75, 3, 4]"

definition sample_cfg_import :: import_settings where
  "sample_cfg_import = \<lparr>is_max_upload = 10, is_max_decompressed = 9, is_ratio_num = 100, is_ratio_den = 1, is_max_rows = 3\<rparr>"


end
