(* ===== verification/App_System.thy ===== *)
theory App_System
  imports Public_Scan Auth_Service Importer
begin

text \<open>
  The application as a whole: every operation the routers call, as one step relation on the world
  of database and files, the states that can be reached from the empty installation, the invariant
  they satisfy and what no later operation can change.

  A step is one service call with arbitrary arguments, faults and cancellations. An upload is taken
  over states in which the received temporary file is the one the upload describes and no formal file
  of the same digest has another size (no SHA-256 collision).
\<close>

section \<open>Systems given by a step relation\<close>

locale moving =
  fixes step :: "'s \<Rightarrow> 's \<Rightarrow> bool"
    and inv :: "'s \<Rightarrow> bool"
    and ahead :: "'s \<Rightarrow> 's \<Rightarrow> bool"
  assumes ahead_refl: "ahead s s"
    and ahead_trans: "ahead s t \<Longrightarrow> ahead t r \<Longrightarrow> ahead s r"
    and step_inv: "step s t \<Longrightarrow> inv s \<Longrightarrow> inv t"
    and step_ahead: "step s t \<Longrightarrow> inv s \<Longrightarrow> ahead s t"
begin

lemma steps_both: "step\<^sup>*\<^sup>* s t \<Longrightarrow> inv s \<Longrightarrow> inv t \<and> ahead s t"
  by (induction rule: rtranclp_induct) (auto intro: ahead_refl step_inv ahead_trans step_ahead)

lemma steps_inv: "step\<^sup>*\<^sup>* s t \<Longrightarrow> inv s \<Longrightarrow> inv t"
  using steps_both by blast

lemma steps_ahead: "step\<^sup>*\<^sup>* s t \<Longrightarrow> inv s \<Longrightarrow> ahead s t"
  using steps_both by blast

end

section \<open>Operations that leave versions and uploads alone\<close>

text \<open>The targets of the successful upload events, in order.\<close>

definition upload_log :: "tables \<Rightarrow> int option list" where
  "upload_log t = map (\<lambda>e. ev_target (e_event e)) (filter (\<lambda>e. ev_action (e_event e) = ''pdf_upload'') (t_audit t))"

text \<open>
  No version, file or upload event is added, no product loses its current version, and an
  administrator is added to none only.
\<close>

definition quiet :: "db \<Rightarrow> db \<Rightarrow> bool" where
  "quiet d d' \<longleftrightarrow>
     t_versions (tabs d') = t_versions (tabs d) \<and> t_files (tabs d') = t_files (tabs d)
     \<and> upload_log (tabs d') = upload_log (tabs d) \<and> q_products (seqs d) \<le> q_products (seqs d')
     \<and> (length (t_admins (tabs d')) = length (t_admins (tabs d))
        \<or> t_admins (tabs d) = [] \<and> length (t_admins (tabs d')) = 1)
     \<and> (\<forall>p \<in> set (t_products (tabs d')). p_current p = None \<longrightarrow> p_id p < q_products (seqs d) \<longrightarrow>
          (\<exists>q \<in> set (t_products (tabs d)). p_id q = p_id p \<and> p_current q = None))"

lemma quiet_refl [simp, intro]: "quiet d d"
  by (auto simp: quiet_def)

lemma quiet_trans: "quiet a b \<Longrightarrow> quiet b c \<Longrightarrow> quiet a c"
  unfolding quiet_def by (smt (verit) length_0_conv list.size(3) order.trans order.strict_trans2)

lemma quiet_dbind [frame]:
  assumes "quiet d (snd (m d))" and "\<And>x d1. m d = (Inr x, d1) \<Longrightarrow> quiet d1 (snd (f x d1))"
  shows "quiet d (snd (dbind m f d))"
proof (cases "m d")
  case (Pair r d1)
  with assms show ?thesis by (cases r) (auto simp: dbind_def intro: quiet_trans)
qed

lemma quiet_seqs: "tabs d' = tabs d \<Longrightarrow> q_products (seqs d) \<le> q_products (seqs d') \<Longrightarrow> quiet d d'"
  by (auto simp: quiet_def)

lemma quiet_transaction [frame]: "quiet d (snd (body d)) \<Longrightarrow> quiet d (snd (transaction body d))"
proof (cases "body d")
  case (Pair r d1)
  assume q: "quiet d (snd (body d))"
  with Pair show ?thesis
    by (cases r) (auto simp: transaction_def quiet_def)
qed

lemma quiet_append_event [frame]: "ev_action e \<noteq> ''pdf_upload'' \<Longrightarrow> quiet d (snd (append_event now e d))"
  by (auto simp: append_event_def Let_def quiet_def upload_log_def)

lemma quiet_independent_event [frame]:
  "ev_action e \<noteq> ''pdf_upload'' \<Longrightarrow> quiet d (snd (append_independent_event up now e d))"
proof -
  assume e: "ev_action e \<noteq> ''pdf_upload''"
  have "quiet d (snd (transaction (append_event now e) d))"
    using e by (intro frame)
  then show ?thesis
    by (cases "transaction (append_event now e) d") (auto simp: append_independent_event_def split: sum.splits)
qed

lemma quiet_insert_product [frame]: "quiet d (snd (insert_product now c n t d))"
  by (auto simp: insert_product_def Let_def quiet_def upload_log_def)

lemma quiet_update_product [frame]:
  "(\<And>p. p_id (f p) = p_id p) \<Longrightarrow> (\<And>p. p_current (f p) = None \<Longrightarrow> p_current p = None) \<Longrightarrow>
     quiet d (snd (update_product pid f d))"
  unfolding update_product_def
  by (auto simp: quiet_def upload_log_def set_update_where split: option.split) blast+

lemma quiet_update_admin [frame]: "quiet d (snd (update_admin aid f d))"
  by (auto simp: update_admin_def quiet_def upload_log_def)

lemma quiet_insert_admin: "t_admins (tabs d) = [] \<Longrightarrow> quiet d (snd (insert_admin now un h d))"
  by (auto simp: insert_admin_def Let_def quiet_def upload_log_def)

lemma quiet_insert_session [frame]: "quiet d (snd (insert_session now sid aid h ttl d))"
  by (auto simp: insert_session_def Let_def quiet_def upload_log_def)

lemma quiet_revoke_where [frame]: "quiet d (snd (revoke_where now p d))"
  by (auto simp: revoke_where_def quiet_def upload_log_def)

subsection \<open>The services\<close>

lemma quiet_create_attempt: "act \<noteq> Some ''pdf_upload'' \<Longrightarrow> quiet d (snd (create_attempt now code name token actor req act d))"
  unfolding create_attempt_def by (auto intro!: frame split: option.splits)

lemma quiet_create_loop: "act \<noteq> Some ''pdf_upload'' \<Longrightarrow> quiet d (snd (create_loop k now rnd i code name actor req act d))"
proof (induction k arbitrary: i d)
  case (Suc k)
  have a: "quiet d d1" if "create_attempt now code name tok actor req act d = (r, d1)" for tok r d1
    using quiet_create_attempt [OF Suc.prems, of d now code name tok actor req] that by simp
  show ?case
    using a Suc.prems by (auto split: prod.splits sum.splits intro: quiet_trans [OF _ Suc.IH])
qed simp

lemma quiet_create_in_transaction:
  "act \<noteq> Some ''pdf_upload'' \<Longrightarrow> quiet d (snd (create_product_in_transaction now rnd rc rn actor req act d))"
  unfolding create_product_in_transaction_def by (auto intro!: quiet_create_loop split: sum.splits)

lemma quiet_create_product: "quiet d (snd (create_product now rnd rc rn actor req d))"
  unfolding create_product_def by (intro frame quiet_create_in_transaction) simp

lemma quiet_set_product_status: "quiet d (snd (set_product_status now pid st actor req d))"
  unfolding set_product_status_def by (auto intro!: frame split: option.splits)

lemma quiet_restore: "quiet d (snd (restore_pdf_version now pid vid actor req d))"
  unfolding restore_pdf_version_def by (auto intro!: frame split: option.splits)

lemma quiet_record_rejection: "quiet d (snd (record_upload_rejection up now pid actor reason stage req d))"
  unfolding record_upload_rejection_def by (intro frame) simp

lemma quiet_import_loop: "quiet d (snd (import_loop now rnd k actor req cs s n d))"
proof (induction cs arbitrary: k s n d)
  case (Cons c cs)
  have "quiet d d1" if "create_product_in_transaction now (rnd k) (ic_code c) (ic_name c) actor (Some req) None d = (r, d1)" for r d1
    using quiet_create_in_transaction [of None d now "rnd k" "ic_code c" "ic_name c" actor "Some req"] that by simp
  then show ?case
    by (auto split: prod.splits sum.splits intro: quiet_trans [OF _ Cons.IH])
qed simp

lemma quiet_import_block: "quiet d (snd (import_block now rnd actor req cs n notices b m d))"
proof -
  have "quiet d d1" if "import_loop now rnd 0 actor req cs 0 n d = (out, d1)" for out d1
    using quiet_import_loop [of d now rnd 0 actor req cs 0 n] that by simp
  then show ?thesis unfolding import_block_def
    by (auto simp: import_event_def split: prod.splits option.splits intro!: quiet_dbind quiet_append_event intro: quiet_trans)
qed

lemma quiet_audit_failure: "quiet d (audit_failure up now actor req result det d)"
  unfolding audit_failure_def by (intro frame) (simp add: import_event_def)

lemma quiet_import_products: "quiet d (snd (import_products cf cfg up conn now rnd upload fn ar oc actor req d))"
proof -
  have "quiet d d1" if "transaction (import_block now rnd actor req cs n notices b m) d = (r, d1)" for cs n notices b m r d1
    using quiet_transaction [of d "import_block now rnd actor req cs n notices b m"] quiet_import_block that by simp
  then show ?thesis unfolding import_products_def
    by (auto simp: Let_def split: sum.splits phase_one_error.splits prod.splits option.splits
        intro: quiet_audit_failure quiet_trans [OF _ quiet_audit_failure])
qed

lemma quiet_create_admin: "quiet d (snd (create_admin cf h now un pw d))"
proof -
  have "sort_key a_id (t_admins (tabs d)) = [] \<Longrightarrow> t_admins (tabs d) = []" for d
    by (metis length_0_conv length_sort)
  then show ?thesis unfolding create_admin_def
    by (auto simp: auth_event_def intro!: frame quiet_insert_admin split: sum.splits list.splits)
qed

lemma quiet_reset: "quiet d (snd (reset_admin_password cf h now un pw d))"
  unfolding reset_admin_password_def by (auto simp: auth_event_def intro!: frame split: sum.splits option.splits)

lemma quiet_login: "quiet d (snd (create_authenticated_session sha verify now sid token un pw ttl d))"
  unfolding create_authenticated_session_def by (auto simp: auth_event_def intro!: frame split: sum.splits option.splits)

lemma quiet_logout: "quiet d (snd (revoke_session now admin d))"
  unfolding revoke_session_def by (intro frame) (simp add: auth_event_def)

lemma quiet_change_password: "quiet d (snd (change_password cf h verify now admin cp np d))"
  unfolding change_password_def by (auto simp: auth_event_def intro!: frame split: sum.splits option.splits)

section \<open>The steps of the application\<close>

inductive app_step :: "(octets \<Rightarrow> ustr) \<Rightarrow> world \<Rightarrow> world \<Rightarrow> bool" for digest where
  Create_Product: "create_product now rnd raw_code raw_name actor req (w_db w) = (r, d) \<Longrightarrow> app_step digest w (w\<lparr>w_db := d\<rparr>)"
| Set_Status: "set_product_status now pid st actor req (w_db w) = (r, d) \<Longrightarrow> app_step digest w (w\<lparr>w_db := d\<rparr>)"
| Import: "import_products cf cfg up conn now rnd upload fn ar oc actor rid (w_db w) = (r, d) \<Longrightarrow> app_step digest w (w\<lparr>w_db := d\<rparr>)"
| Restore: "restore_pdf_version now pid vid actor req (w_db w) = (r, d) \<Longrightarrow> app_step digest w (w\<lparr>w_db := d\<rparr>)"
| Reject: "record_upload_rejection up now pid actor reason stage req (w_db w) = (b, d) \<Longrightarrow> app_step digest w (w\<lparr>w_db := d\<rparr>)"
| Create_Admin: "create_admin cf hash_pw now raw_username password (w_db w) = (r, d) \<Longrightarrow> app_step digest w (w\<lparr>w_db := d\<rparr>)"
| Reset_Password: "reset_admin_password cf hash_pw now raw_username password (w_db w) = (r, d) \<Longrightarrow> app_step digest w (w\<lparr>w_db := d\<rparr>)"
| Login: "create_authenticated_session sha verify now sid token raw_username password ttl (w_db w) = (r, d)
    \<Longrightarrow> app_step digest w (w\<lparr>w_db := d\<rparr>)"
| Logout: "revoke_session now admin (w_db w) = (r, d) \<Longrightarrow> app_step digest w (w\<lparr>w_db := d\<rparr>)"
| Change_Password: "change_password cf hash_pw verify now admin cp np (w_db w) = (r, d) \<Longrightarrow> app_step digest w (w\<lparr>w_db := d\<rparr>)"
| Audit_Failure: "ev_action e \<noteq> ''pdf_upload'' \<Longrightarrow> append_independent_event up now e (w_db w) = (b, d) \<Longrightarrow> app_step digest w (w\<lparr>w_db := d\<rparr>)"
| Receive: "receive_and_validate digest m t fn ct cs io wo (w_store w) = (r, st) \<Longrightarrow> app_step digest w (w\<lparr>w_store := st\<rparr>)"
| Discard: "app_step digest w (w\<lparr>w_store := discard uf vu (w_store w)\<rparr>)"
| Upload: "upload_ok digest vu (w_store w) \<Longrightarrow> no_collision vu digest (w_store w)
    \<Longrightarrow> upload_pdf faults pe up now pid actor vu req w = (r, w') \<Longrightarrow> app_step digest w w'"
| Scan: "public_scan resolve root t0 t1 t2 up now rid client token (w, lim) = (r, w', lim') \<Longrightarrow> app_step digest w w'"

definition installed :: world where
  "installed = \<lparr>w_db = empty_db, w_store = \<lparr>st_tmp = [], st_files = []\<rparr>\<rparr>"

definition reachable :: "(octets \<Rightarrow> ustr) \<Rightarrow> world \<Rightarrow> bool" where
  "reachable digest w = (app_step digest)\<^sup>*\<^sup>* installed w"

text \<open>
  What every reachable world satisfies: the invariant of database and files, at most one
  administrator, and one upload event for every version, in the order of the versions.
\<close>

definition system_inv :: "(octets \<Rightarrow> ustr) \<Rightarrow> world \<Rightarrow> bool" where
  "system_inv digest w \<longleftrightarrow> world_inv digest w \<and> length (t_admins (tabs (w_db w))) \<le> 1
     \<and> upload_log (tabs (w_db w)) = map (\<lambda>v. Some (v_id v)) (t_versions (tabs (w_db w)))"

definition app_ahead :: "world \<Rightarrow> world \<Rightarrow> bool" where
  "app_ahead w w' \<longleftrightarrow> tabs_grow (tabs (w_db w)) (tabs (w_db w')) \<and> seqs_le (seqs (w_db w)) (seqs (w_db w'))
     \<and> files_kept (w_store w) (w_store w')"

lemma quiet_pointed:
  assumes "quiet d d'" "db_inv d" "pointed (tabs d)"
  shows "pointed (tabs d')"
  unfolding pointed_def list_all_iff
proof (intro ballI impI)
  fix p assume p: "p \<in> set (t_products (tabs d'))" "p_current p = None"
  have same: "t_versions (tabs d') = t_versions (tabs d)" using assms(1) by (simp add: quiet_def)
  show "versions_of (p_id p) (tabs d') = []"
  proof (cases "p_id p < q_products (seqs d)")
    case True
    with p assms(1) obtain q where "q \<in> set (t_products (tabs d))" "p_id q = p_id p" "p_current q = None"
      unfolding quiet_def by blast
    with assms(3) same show ?thesis by (fastforce simp: pointed_def list_all_iff versions_of_def)
  next
    case False
    have "v_product v < q_products (seqs d)" if "v \<in> set (t_versions (tabs d))" for v
      using assms(2) that by (fastforce simp: db_inv_def fks_ok_def keys_ok_def key_ok_def list_all_iff)
    with False same show ?thesis by (fastforce simp: versions_of_def filter_empty_conv)
  qed
qed

lemma quiet_keeps:
  assumes "quiet (w_db w) d" "step_ok (w_db w) d" "system_inv digest w"
  shows "system_inv digest (w\<lparr>w_db := d\<rparr>) \<and> app_ahead w (w\<lparr>w_db := d\<rparr>)"
proof -
  from assms have i: "db_inv (w_db w)" "pointed (tabs (w_db w))" by (simp_all add: system_inv_def world_inv_def)
  have "pointed (tabs d)" using quiet_pointed [OF assms(1) i] .
  moreover have "db_inv d \<and> tabs_grow (tabs (w_db w)) (tabs d) \<and> seqs_le (seqs (w_db w)) (seqs d)"
    using assms(2) i by (simp add: step_ok_def)
  ultimately show ?thesis
    using assms(1,3) by (auto simp: system_inv_def world_inv_def app_ahead_def quiet_def numbered_def versions_of_def)
qed

lemma store_keeps:
  assumes "st_files st = st_files (w_store w)" "system_inv digest w"
  shows "system_inv digest (w\<lparr>w_store := st\<rparr>) \<and> app_ahead w (w\<lparr>w_store := st\<rparr>)"
  using assms by (auto simp: system_inv_def world_inv_def app_ahead_def store_inv_def backed_def [abs_def] files_kept_def)

text \<open>What an upload that returned a version has recorded.\<close>

lemma upload_pdf_recorded:
  assumes i: "db_inv (w_db w)" and u: "upload_pdf faults pe up now pid actor vu req w = (Inr pv, w')"
  obtains p where "select_product pid (w_db w) = Some p"
    "recorded now actor (p_code p) req pv (tabs (w_db w)) (tabs (w_db w'))" "pv_product pv = pid"
    "pv_sha pv = vu_sha vu" "pv_size pv = vu_size vu" "pv_filename pv = vu_filename vu"
proof -
  from upload_pdf_Inr [OF u] obtain code no pf st d' where
    c: "upload_check faults pid actor vu (w_db w) = Inr (code, no)" and
    rec: "upload_record faults now pid actor vu req code no pf (w_db w) = (Inr pv, d')" and
    w': "w' = \<lparr>w_db = d', w_store = discard (pe_unlink_fails pe) vu st\<rparr>" by metis
  from c obtain p where p: "select_product pid (w_db w) = Some p" "code = p_code p" by (rule upload_check_Inr)
  with upload_record_Inr [OF rec i p(1)] w' that show thesis by simp
qed

lemma recorded_file:
  assumes "recorded now actor code req pv t t'"
  shows "\<exists>h \<in> set (t_files t'). file_matches pv h"
proof -
  from assms obtain fs where t: "t_files t' = t_files t @ fs"
    and "if fs = [] then list_ex (file_matches pv) (t_files t)
         else \<exists>f. fs = [f] \<and> file_matches pv f \<and> pv_sha pv \<notin> f_sha ` set (t_files t)"
    unfolding recorded_def by auto
  then show ?thesis by (auto simp: list_ex_iff split: if_splits)
qed

lemma upload_keeps:
  assumes "upload_ok digest vu (w_store w)" "no_collision vu digest (w_store w)"
    "upload_pdf faults pe up now pid actor vu req w = (r, w')" "system_inv digest w"
  shows "system_inv digest w' \<and> app_ahead w w'"
proof -
  from assms(4) have w: "world_inv digest w" and i: "db_inv (w_db w)" by (simp_all add: system_inv_def world_inv_def)
  note inv = upload_pdf_inv [OF w assms(1-3)]
  have "length (t_admins (tabs (w_db w'))) = length (t_admins (tabs (w_db w)))
    \<and> upload_log (tabs (w_db w')) = map (\<lambda>v. Some (v_id v)) (t_versions (tabs (w_db w')))"
  proof (cases r)
    case (Inl e)
    from upload_pdf_Inl [OF i assms(3) [unfolded Inl]] obtain e0 reason pub w1 pub0 where
      b: "upload_block faults pe now pid actor vu req w = (Inl e0, pub0, locked_code faults pid (w_db w), w1)" and
      d': "w_db w' = snd (append_independent_event up now
          (upload_rejection_event pid actor (locked_code faults pid (w_db w)) req reason (vu_sha vu) pub) (w_db w1))" by metis
    have t: "tabs (w_db w1) = tabs (w_db w)" using upload_block_Inl [OF i b] by simp
    have "ev_action (upload_rejection_event pid actor (locked_code faults pid (w_db w)) req reason (vu_sha vu) pub) = ''pdf_upload_rejected''"
      by (simp add: upload_rejection_event_def)
    with t assms(4) show ?thesis
      unfolding d' independent_event_tabs [OF rejection_event_widths [OF i]]
      by (simp add: system_inv_def upload_log_def)
  next
    case (Inr pv)
    obtain p where "select_product pid (w_db w) = Some p"
      and "recorded now actor (p_code p) req pv (tabs (w_db w)) (tabs (w_db w'))" and "pv_product pv = pid"
      and "pv_sha pv = vu_sha vu" "pv_size pv = vu_size vu" "pv_filename pv = vu_filename vu"
      using upload_pdf_recorded [OF i assms(3) [unfolded Inr]] .
    then obtain fs eid where t: "tabs (w_db w') = (tabs (w_db w))\<lparr>
        t_files := t_files (tabs (w_db w)) @ fs,
        t_versions := t_versions (tabs (w_db w)) @ [version_row now actor pv],
        t_products := update_where (\<lambda>p. p_id p = pv_product pv) (\<lambda>p. p\<lparr>p_current := Some (pv_id pv), p_updated := now\<rparr>)
          (t_products (tabs (w_db w))),
        t_audit := t_audit (tabs (w_db w)) @ [\<lparr>e_id = eid, e_at = now, e_event = upload_event actor (p_code p) req pv\<rparr>]\<rparr>"
      unfolding recorded_def by blast
    from assms(4) show ?thesis
      by (simp add: t system_inv_def upload_log_def upload_event_def version_row_def)
  qed
  with inv assms(4) show ?thesis by (simp add: system_inv_def app_ahead_def step_ok_def i)
qed

lemma scan_world:
  assumes "public_scan resolve root t0 t1 t2 up now rid client token (w, lim) = (r, w', lim')"
  shows "w' = w \<or> (\<exists>e. ev_action e = ''public_token_probe'' \<and> w' = w\<lparr>w_db := snd (append_independent_event up now e (w_db w))\<rparr>)"
  using assms unfolding public_scan_def Let_def
  by (auto split: prod.splits bool.splits sum.splits public_state.splits option.splits if_splits) force+

lemma app_step_keeps:
  assumes "app_step digest w w'" "system_inv digest w"
  shows "system_inv digest w' \<and> app_ahead w w'"
  using assms(1)
proof (cases rule: app_step.cases)
  case (Create_Product now rnd rc rn actor req r d)
  with assms(2) quiet_create_product [of "w_db w" now rnd rc rn actor req] create_product_step [of "w_db w" now rnd rc rn actor req]
  show ?thesis by (simp add: quiet_keeps)
next
  case (Set_Status now pid st actor req r d)
  with assms(2) quiet_set_product_status [of "w_db w" now pid st actor req] set_product_status_step [of "w_db w" now pid st actor req]
  show ?thesis by (simp add: quiet_keeps)
next
  case (Import cf cfg up conn now rnd upload fn ar oc actor rid r d)
  with assms(2) quiet_import_products [of "w_db w" cf cfg up conn now rnd upload fn ar oc actor rid]
    import_products_step [of "w_db w" cf cfg up conn now rnd upload fn ar oc actor rid]
  show ?thesis by (simp add: quiet_keeps)
next
  case (Restore now pid vid actor req r d)
  with assms(2) quiet_restore [of "w_db w" now pid vid actor req] restore_step [of "w_db w" now pid vid actor req]
  show ?thesis by (simp add: quiet_keeps)
next
  case (Reject up now pid actor reason stage req b d)
  have "step_ok (w_db w) (snd (record_upload_rejection up now pid actor reason stage req (w_db w)))"
    unfolding record_upload_rejection_def by (rule step_independent_event)
  with Reject assms(2) quiet_record_rejection [of "w_db w" up now pid actor reason stage req]
  show ?thesis by (simp add: quiet_keeps)
next
  case (Create_Admin cf h now un pw r d)
  with assms(2) quiet_create_admin [of "w_db w" cf h now un pw] create_admin_step [of "w_db w" cf h now un pw]
  show ?thesis by (simp add: quiet_keeps)
next
  case (Reset_Password cf h now un pw r d)
  with assms(2) quiet_reset [of "w_db w" cf h now un pw] reset_step [of "w_db w" cf h now un pw]
  show ?thesis by (simp add: quiet_keeps)
next
  case (Login sha verify now sid token un pw ttl r d)
  with assms(2) quiet_login [of "w_db w" sha verify now sid token un pw ttl]
    create_session_step [of "w_db w" sha verify now sid token un pw ttl]
  show ?thesis by (simp add: quiet_keeps)
next
  case (Logout now admin r d)
  with assms(2) quiet_logout [of "w_db w" now admin] revoke_session_step [of "w_db w" now admin]
  show ?thesis by (simp add: quiet_keeps)
next
  case (Change_Password cf h verify now admin cp np r d)
  with assms(2) quiet_change_password [of "w_db w" cf h verify now admin cp np]
    change_password_step [of "w_db w" cf h verify now admin cp np]
  show ?thesis by (simp add: quiet_keeps)
next
  case (Audit_Failure e up now b d)
  with assms(2) quiet_independent_event [of e "w_db w" up now] step_independent_event [of "w_db w" up now e]
  show ?thesis by (simp add: quiet_keeps)
next
  case (Receive m t fn ct cs io wo r st)
  with assms(2) receive_files [of digest m t fn ct cs io wo "w_store w"]
  show ?thesis by (simp add: store_keeps)
next
  case (Discard uf vu)
  with assms(2) show ?thesis by (simp add: store_keeps)
next
  case (Upload vu faults pe up now pid actor req r)
  with assms(2) show ?thesis by (auto dest: upload_keeps)
next
  case (Scan resolve root t0 t1 t2 up now rid client token lim r lim')
  then have "w' = w \<or> (\<exists>e. ev_action e = ''public_token_probe'' \<and> w' = w\<lparr>w_db := snd (append_independent_event up now e (w_db w))\<rparr>)"
    using scan_world [of resolve root t0 t1 t2 up now rid client token w lim r w' lim'] by simp
  then show ?thesis
  proof
    assume "w' = w"
    with assms(2) show ?thesis by (simp add: app_ahead_def)
  next
    assume "\<exists>e. ev_action e = ''public_token_probe'' \<and> w' = w\<lparr>w_db := snd (append_independent_event up now e (w_db w))\<rparr>"
    then obtain e where e: "ev_action e = ''public_token_probe''"
      and w': "w' = w\<lparr>w_db := snd (append_independent_event up now e (w_db w))\<rparr>" by blast
    from e have "ev_action e \<noteq> ''pdf_upload''" by simp
    then show ?thesis unfolding w'
      using quiet_keeps [OF quiet_independent_event step_independent_event assms(2)] by blast
  qed
qed

lemma app_ahead_refl: "app_ahead w w"
  by (simp add: app_ahead_def)

lemma app_ahead_trans: "app_ahead a b \<Longrightarrow> app_ahead b c \<Longrightarrow> app_ahead a c"
  unfolding app_ahead_def using tabs_grow_trans seqs_le_trans files_kept_trans by blast

interpretation app: moving "app_step digest" "system_inv digest" app_ahead for digest
  by unfold_locales (auto intro: app_ahead_refl app_ahead_trans dest: app_step_keeps)

lemma installed_inv: "system_inv digest installed"
  by (simp add: installed_def system_inv_def world_inv_def numbered_def pointed_def versions_of_def store_inv_def
      upload_log_def) (simp add: empty_db_def)

lemma reachable_system: "reachable digest w \<Longrightarrow> system_inv digest w"
  unfolding reachable_def using installed_inv by (rule app.steps_inv [rotated])

section \<open>Properties\<close>

text \<open>
  C1. Every world that the application can reach from the empty installation, whatever requests arrive
  in whatever order and whatever fails, satisfies the system invariant: all keys, unique columns,
  checks and foreign keys; versions of each product numbered one, two, three without gaps; a current
  version as soon as there is one; every file row backed by a stored file of its digest and size; at
  most one administrator; and exactly one upload event per version, in order.
\<close>

theorem reachable_invariant:
  assumes "reachable digest w"
  shows "system_inv digest w"
  using assms by (rule reachable_system)

lemma reachable_example:
  "reachable digest (installed\<lparr>w_db := snd (create_admin id id 5 (u ''root'') (replicate 12 97) empty_db)\<rparr>)"
  unfolding reachable_def
  by (rule r_into_rtranclp, rule Create_Admin [where cf = id and hash_pw = id and now = 5 and raw_username = "u ''root''"
        and password = "replicate 12 97" and r = "fst (create_admin id id 5 (u ''root'') (replicate 12 97) empty_db)"])
     (simp add: installed_def del: u_Cons)

theorem reachable_invariant_witness:
  "system_inv (\<lambda>_. replicate 64 48) (installed\<lparr>w_db := snd (create_admin id id 5 (u ''root'') (replicate 12 97) empty_db)\<rparr>)"
  by (rule reachable_invariant [OF reachable_example])



text \<open>
  C9. A printed code never changes its meaning: a token that names a product in a reachable world
  names the product of the same id and code in every later world.
\<close>

theorem printed_token_stable:
  assumes "reachable digest w" "(app_step digest)\<^sup>*\<^sup>* w w'"
    and "select_product_by_token token (w_db w) = Some p"
  shows "\<exists>p'. select_product_by_token token (w_db w') = Some p' \<and> p_id p' = p_id p \<and> p_code p' = p_code p"
proof -
  have inv: "db_inv (w_db w)" "db_inv (w_db w')"
    using reachable_system [OF assms(1)] app.steps_inv [OF assms(2) reachable_system [OF assms(1)]]
    by (simp_all add: system_inv_def world_inv_def)
  have "prefix (map ident (t_products (tabs (w_db w)))) (map ident (t_products (tabs (w_db w'))))"
    using app.steps_ahead [OF assms(2) reachable_system [OF assms(1)]] by (simp add: app_ahead_def tabs_grow_def)
  then have "set (map ident (t_products (tabs (w_db w)))) \<subseteq> set (map ident (t_products (tabs (w_db w'))))"
    by (rule set_mono_prefix)
  moreover have "p \<in> set (t_products (tabs (w_db w)))" "p_token p = token"
    using assms(3) inv by (simp_all add: select_token_iff)
  ultimately obtain p' where "p' \<in> set (t_products (tabs (w_db w')))" "ident p' = ident p" by force
  with \<open>p_token p = token\<close> inv show ?thesis by (auto simp: select_token_iff ident_def)
qed

text \<open>
  C2. From upload to scan: when an upload of a product returns a version, a scan of that product's
  token, by a source that is not limited and while the product is active, streams exactly the
  uploaded bytes' file: its content has the uploaded digest and the announced length is its size.
\<close>

theorem uploaded_is_served:
  assumes w: "world_inv digest w" and vu: "upload_ok digest vu (w_store w)" and coll: "no_collision vu digest (w_store w)"
    and u: "upload_pdf faults pe up now pid actor vu req w = (Inr pv, w')"
    and p: "select_product pid (w_db w) = Some p" and active: "p_status p = Active"
    and free: "\<not> fst (is_limited t0 (case client of Some h \<Rightarrow> h | None \<Rightarrow> u ''unknown'') lim)"
  shows "\<exists>cd lim' obj. public_scan id root t0 t1 t2 up' now' rid client (p_token p) (w', lim)
       = (Inr (Stream (root @ split_on 47 (pv_path pv)) (cd @ quote (vu_filename vu)) (show_int (vu_size vu))), w', lim')
     \<and> map_of (st_files (w_store w')) (pv_path pv) = Some obj \<and> digest (fo_bytes obj) = vu_sha vu
     \<and> int (length (fo_bytes obj)) = vu_size vu"
proof -
  have i: "db_inv (w_db w)" using w by (simp add: world_inv_def)
  have w': "world_inv digest w'" using upload_pdf_inv [OF w vu coll u] by simp
  then have i': "db_inv (w_db w')" by (simp add: world_inv_def)
  from upload_pdf_recorded [OF i u] p have rec: "recorded now actor (p_code p) req pv (tabs (w_db w)) (tabs (w_db w'))"
    and f: "pv_product pv = pid" "pv_sha pv = vu_sha vu" "pv_size pv = vu_size vu" "pv_filename pv = vu_filename vu"
    by (auto elim: option.inject [THEN iffD1, elim_format])
  let ?p = "p\<lparr>p_current := Some (pv_id pv), p_updated := now\<rparr>"
  have row: "p \<in> set (t_products (tabs (w_db w)))" "p_id p = pid" using p select_productD by auto
  from rec row f have "?p \<in> set (t_products (tabs (w_db w')))"
    by (auto simp: recorded_def set_update_where)
  with i' have sel: "select_product_by_token (p_token p) (w_db w') = Some ?p" by (simp add: select_token_iff)
  have cur: "p_current ?p = Some (pv_id pv)" by simp
  from available_document [OF w' sel cur, of root] obtain v g obj where
    j: "joined_version ?p (w_db w') = Some v" "joined_file ?p (w_db w') = Some g" "v_id v = pv_id pv" and
    o: "map_of (st_files (w_store w')) (f_path g) = Some obj" "digest (fo_bytes obj) = f_sha g"
      "f_size g = int (length (fo_bytes obj))" and
    res: "resolve_formal_path id root (f_path g) = Inr (root @ split_on 47 (f_path g))"
      "is_formal_file id root (w_store w') (root @ split_on 47 (f_path g))" by metis
  from j have v: "v \<in> set (t_versions (tabs (w_db w')))" and g: "g \<in> set (t_files (tabs (w_db w')))" "f_id g = v_file v"
    by (auto simp: joined_version_def joined_file_def dest: select_versionD select_fileD)
  have "version_row now actor pv \<in> set (t_versions (tabs (w_db w')))" "v_id (version_row now actor pv) = pv_id pv"
    using rec by (auto simp: recorded_def version_row_def)
  with v j i' have veq: "v = version_row now actor pv"
    by (intro key_ok_unique [of v_id "q_versions (seqs (w_db w'))" "t_versions (tabs (w_db w'))"])
      (simp_all add: db_inv_def keys_ok_def)
  from rec obtain h where h: "h \<in> set (t_files (tabs (w_db w')))" "file_matches pv h"
    using recorded_file by blast
  with g veq i' have "g = h"
    by (intro key_ok_unique [of f_id "q_files (seqs (w_db w'))" "t_files (tabs (w_db w'))"])
      (simp_all add: db_inv_def keys_ok_def file_matches_def version_row_def)
  with h have m: "f_path g = pv_path pv" "f_sha g = vu_sha vu" "f_size g = vu_size vu"
    using f by (simp_all add: file_matches_def)
  let ?src = "case client of Some h \<Rightarrow> h | None \<Rightarrow> u ''unknown''"
  obtain lim1 where l: "is_limited t0 ?src lim = (False, lim1)" using free by (cases "is_limited t0 ?src lim") auto
  have "public_scan id root t0 t1 t2 up' now' rid client (p_token p) (w', lim) =
    (Inr (Stream (root @ split_on 47 (pv_path pv)) ((u ''inline; filename*=UTF-8'' @ [39, 39]) @ quote (vu_filename vu))
       (show_int (vu_size vu))), w', lim1)"
    using l sel active j res m veq f
    by (simp add: public_scan_def resolve_public_document_def Let_def version_row_def)
  with o m show ?thesis by auto
qed

theorem uploaded_is_served_witness:
  "\<exists>pv w'. upload_pdf no_faults calm True 3 1 1 sample_upload None sample_world = (Inr pv, w')
     \<and> (\<exists>cd lim' obj. public_scan id [] 1 1 1 True 4 0 None (u ''TOKEN'') (w', fresh_limiter 3 10)
       = (Inr (Stream ([] @ split_on 47 (pv_path pv)) (cd @ quote (vu_filename sample_upload)) (show_int (vu_size sample_upload))), w', lim')
     \<and> map_of (st_files (w_store w')) (pv_path pv) = Some obj \<and> replicate 64 48 = vu_sha sample_upload
     \<and> int (length (fo_bytes obj)) = vu_size sample_upload)"
proof -
  from upload_pdf_answer [OF sample_world_inv sample_upload_ok sample_no_collision sample_sha, where pid = 1 and actor = 1
      and up = True and now = 3 and req = None]
  obtain pv w' where u: "upload_pdf no_faults calm True 3 1 1 sample_upload None sample_world = (Inr pv, w')"
    by (auto simp: sample_upload_answer prod_eq_iff)
  have p: "select_product 1 (w_db sample_world) = Some (new_product 0 1 (u ''AB-1'') (u ''Valve'') (u ''TOKEN''))"
    by (simp add: select_product_def sample_world_def new_product_def)
  have free: "\<not> fst (is_limited 1 (case None of Some h \<Rightarrow> h | None \<Rightarrow> u ''unknown'') (fresh_limiter 3 10))"
    by (simp add: is_limited_def active_misses_def fresh_limiter_def Let_def)
  have active: "p_status (new_product 0 1 (u ''AB-1'') (u ''Valve'') (u ''TOKEN'')) = Active" and
    tok: "p_token (new_product 0 1 (u ''AB-1'') (u ''Valve'') (u ''TOKEN'')) = u ''TOKEN''"
    by (simp_all add: new_product_def)
  from uploaded_is_served [OF sample_world_inv sample_upload_ok sample_no_collision u p active free, of "[]" 1 1 True 4 0] u
  show ?thesis unfolding tok by blast
qed

text \<open>A reachable world with one product.\<close>

abbreviation sample_valve :: "int \<Rightarrow> p_row" where
  "sample_valve pid \<equiv> new_product 9 pid (u ''AB-1'') (u ''Valve'') (unpadded (replicate 16 7))"

lemma sample_creation:
  obtains pid d where
    "create_product 9 (\<lambda>_. replicate 16 7) (u ''AB-1'') (u ''Valve'') 1 req empty_db = (Inr (sample_valve pid), d)"
    "tabs d = with_product (sample_valve pid)
      (creation_audit 9 1 req (Some ''product_create'') (sample_valve pid) (q_audit (seqs empty_db))) (tabs empty_db)"
proof -
  have v: "valid_new (u ''AB-1'') (u ''Valve'') (Some ''product_create'')"
    by (simp add: valid_new_def ck_products_code_format_def code_char_def is_upper_def is_digit_def)
  have rnd: "\<And>j. length ((\<lambda>_ :: nat. replicate 16 (7 :: nat)) j) = 16" by simp
  have free: "u ''AB-1'' \<notin> p_code ` set (t_products (tabs empty_db))" by (simp add: empty_db_def)
  have fresh: "fresh_token (\<lambda>_. replicate 16 7) 0 5 (tabs empty_db) = Some 0"
    by (simp add: fresh_token_def empty_db_def upt_rec)
  from create_loop_fresh [OF v rnd free fresh, of 9 1 req] obtain d pid where
    d: "create_loop 5 9 (\<lambda>_. replicate 16 7) 0 (u ''AB-1'') (u ''Valve'') 1 req (Some ''product_create'') empty_db =
      (Inr (sample_valve pid), d)" and
    t: "tabs d = with_product (sample_valve pid)
      (creation_audit 9 1 req (Some ''product_create'') (sample_valve pid) (q_audit (seqs empty_db))) (tabs empty_db)" by blast
  have n: "normalize_product_code (u ''AB-1'') = Inr (u ''AB-1'')" "normalize_product_name (u ''Valve'') = Inr (u ''Valve'')"
    by (simp_all add: normalize_product_code_def normalize_product_name_def PRODUCT_CODE_PATTERN_def
        product_char_def PRODUCT_NAME_MAX_LENGTH_def text_eval)
  from d n have "create_product 9 (\<lambda>_. replicate 16 7) (u ''AB-1'') (u ''Valve'') 1 req empty_db = (Inr (sample_valve pid), d)"
    by (simp add: create_product_def create_product_in_transaction_def TOKEN_RETRY_LIMIT_def transaction_def
        del: u_Cons create_loop.simps)
  with t that show thesis by blast
qed

lemma sample_product:
  "\<exists>w p. reachable (\<lambda>_. []) w \<and> select_product_by_token (unpadded (replicate 16 7)) (w_db w) = Some p"
proof -
  obtain pid d where
    "create_product 9 (\<lambda>_. replicate 16 7) (u ''AB-1'') (u ''Valve'') 1 None (w_db installed) = (Inr (sample_valve pid), d)" and
    t: "tabs d = with_product (sample_valve pid)
      (creation_audit 9 1 None (Some ''product_create'') (sample_valve pid) (q_audit (seqs empty_db))) (tabs empty_db)"
    unfolding installed_def by (rule sample_creation [of None]) simp
  then have "reachable (\<lambda>_. []) (installed\<lparr>w_db := d\<rparr>)"
    unfolding reachable_def by (intro r_into_rtranclp Create_Product)
  moreover have "select_product_by_token (unpadded (replicate 16 7)) d = Some (sample_valve pid)"
    by (simp add: select_product_by_token_def t with_product_def new_product_def empty_db_def)
  ultimately show ?thesis by auto
qed

theorem printed_token_stable_witness:
  "\<exists>(w :: world) p p'. select_product_by_token (unpadded (replicate 16 7)) (w_db w) = Some p
     \<and> select_product_by_token (unpadded (replicate 16 7)) (w_db w) = Some p' \<and> p_id p' = p_id p \<and> p_code p' = p_code p"
proof -
  obtain w p where w: "reachable (\<lambda>_. []) w" "select_product_by_token (unpadded (replicate 16 7)) (w_db w) = Some p"
    using sample_product by blast
  from printed_token_stable [OF w(1) rtranclp.rtrancl_refl w(2)] w(2) show ?thesis by blast
qed

end
