(* ===== verification/Upload_Gate.thy ===== *)
theory Upload_Gate
  imports Auth_Service
begin

text \<open>
  \<open>upload_limit.py\<close>: the ASGI middleware that bounds the requests of the two upload routes before the
  multipart parser sees them.

  The wrapped application is an interaction tree: it receives messages, sends messages, returns or
  raises. \<open>g_seen\<close> records what it received.
\<close>

section \<open>Requests\<close>

record scope =
  sc_type :: ustr
  sc_method :: "ustr option"
  sc_path :: ustr
  sc_headers :: "(nat list \<times> nat list) list"
  sc_admin :: "authenticated_admin option"

datatype asgi_in = Http_Request "nat list" | Disconnect

datatype 'm app =
    Returns
  | Raises
  | Send 'm "'m app"
  | Recv "asgi_in \<Rightarrow> 'm app"

definition MULTIPART_OVERHEAD_BYTES :: nat where
  "MULTIPART_OVERHEAD_BYTES = 64 * 1024"

text \<open>\<open>PDF_UPLOAD_PATH\<close>, matched in full: the product segment, when the path has the form.\<close>

definition PDF_UPLOAD_PATH :: "ustr \<Rightarrow> ustr option" where
  "PDF_UPLOAD_PATH path =
     (case split_on 47 path of
        [a, b, c, pid, e] \<Rightarrow>
          if a = [] \<and> b = u ''api'' \<and> c = u ''products'' \<and> pid \<noteq> [] \<and> e = u ''pdf'' then Some pid else None
      | _ \<Rightarrow> None)"

definition PRODUCT_IMPORT_PATHS :: "ustr list" where
  "PRODUCT_IMPORT_PATHS = [u ''/api/product-imports'', u ''/admin/imports'']"

definition is_pdf_upload :: "scope \<Rightarrow> bool" where
  "is_pdf_upload sc \<longleftrightarrow> sc_type sc = u ''http'' \<and> sc_method sc = Some (u ''POST'') \<and> PDF_UPLOAD_PATH (sc_path sc) \<noteq> None"

definition is_product_import :: "scope \<Rightarrow> bool" where
  "is_product_import sc \<longleftrightarrow>
     sc_type sc = u ''http'' \<and> sc_method sc = Some (u ''POST'') \<and> sc_path sc \<in> set PRODUCT_IMPORT_PATHS"

text \<open>\<open>int(value)\<close> of a byte string: only ASCII white space is stripped.\<close>

definition bytes_int :: "nat list \<Rightarrow> int option" where
  "bytes_int bs = (if list_ex (\<lambda>b. 128 \<le> b \<or> (28 \<le> b \<and> b \<le> 31)) bs then None else py_int bs)"

fun content_length :: "(nat list \<times> nat list) list \<Rightarrow> nat option" where
  "content_length [] = None"
| "content_length ((name, value) # headers) =
     (if ascii_lower name \<noteq> u ''content-length'' then content_length headers
      else (case bytes_int value of
              None \<Rightarrow> None
            | Some parsed \<Rightarrow> if parsed \<ge> 0 then Some (nat parsed) else None))"

section \<open>The limited stream\<close>

text \<open>\<open>receive\<close>: the next message of the server; after the last one the client is gone.\<close>

fun next_message :: "asgi_in list \<Rightarrow> asgi_in \<times> asgi_in list" where
  "next_message [] = (Disconnect, [])"
| "next_message (m # ms) = (m, ms)"

definition limited_receive :: "nat \<Rightarrow> asgi_in list \<Rightarrow> nat \<Rightarrow> bool \<Rightarrow> asgi_in \<times> asgi_in list \<times> nat \<times> bool" where
  "limited_receive max_request_bytes src received_bytes too_large =
     (if too_large then (Disconnect, src, received_bytes, True)
      else
        (case next_message src of
           (Http_Request body, src1) \<Rightarrow>
             let received1 = received_bytes + length body
             in if received1 > max_request_bytes then (Disconnect, src1, received1, True)
                else (Http_Request body, src1, received1, False)
         | (Disconnect, src1) \<Rightarrow> (Disconnect, src1, received_bytes, False)))"

record 'm served =
  g_sent :: "'m list"
  g_seen :: "asgi_in list"
  g_received :: nat
  g_too_large :: bool
  g_raised :: bool

text \<open>\<open>self.app(scope, limited_receive, tracked_send)\<close>: nothing is sent once the limit was hit.\<close>

primrec run_limited :: "'m app \<Rightarrow> nat \<Rightarrow> asgi_in list \<Rightarrow> 'm served \<Rightarrow> 'm served" where
  "run_limited Returns limit src st = st"
| "run_limited Raises limit src st = st\<lparr>g_raised := True\<rparr>"
| "run_limited (Send m k) limit src st =
     run_limited k limit src (if g_too_large st then st else st\<lparr>g_sent := g_sent st @ [m]\<rparr>)"
| "run_limited (Recv k) limit src st =
     (case limited_receive limit src (g_received st) (g_too_large st) of
        (m, src1, received, big) \<Rightarrow>
          run_limited (k m) limit src1 (st\<lparr>g_seen := g_seen st @ [m], g_received := received, g_too_large := big\<rparr>))"

text \<open>The application on its own.\<close>

primrec run_plain :: "'m app \<Rightarrow> asgi_in list \<Rightarrow> 'm served \<Rightarrow> 'm served" where
  "run_plain Returns src st = st"
| "run_plain Raises src st = st\<lparr>g_raised := True\<rparr>"
| "run_plain (Send m k) src st = run_plain k src (st\<lparr>g_sent := g_sent st @ [m]\<rparr>)"
| "run_plain (Recv k) src st =
     (case next_message src of (m, src1) \<Rightarrow> run_plain (k m) src1 (st\<lparr>g_seen := g_seen st @ [m]\<rparr>))"

definition served_start :: "'m served" where
  "served_start = \<lparr>g_sent = [], g_seen = [], g_received = 0, g_too_large = False, g_raised = False\<rparr>"

section \<open>The middleware\<close>

definition rejection_event :: "scope \<Rightarrow> nat \<Rightarrow> detail \<Rightarrow> audit_event" where
  "rejection_event sc req det =
     (let import_path = (sc_path sc \<in> set PRODUCT_IMPORT_PATHS)
      in \<lparr>ev_action = (if import_path then ''product_import'' else ''pdf_upload_rejected''), ev_result = Failure,
          ev_actor_type = (if sc_admin sc = None then ''anonymous'' else ''admin''),
          ev_actor = map_option aa_id (sc_admin sc),
          ev_target_type = Some (if import_path then ''product_batch'' else ''product''),
          ev_target = (case PDF_UPLOAD_PATH (sc_path sc) of
                         None \<Rightarrow> None
                       | Some pid \<Rightarrow> (case py_int pid of Some n \<Rightarrow> if n > 0 then Some n else None | None \<Rightarrow> None)),
          ev_code = None, ev_request = Some req, ev_detail = Some det\<rparr>)"

text \<open>What the client gets: the application's messages, then a 413 with its code when it was rejected.\<close>

datatype 'm gate_answer = Passed "'m served" | Rejected_413 "'m served" string

definition rejection_code :: "scope \<Rightarrow> string" where
  "rejection_code sc = (if sc_path sc \<in> set PRODUCT_IMPORT_PATHS then ''xlsx_too_large'' else ''pdf_too_large'')"

text \<open>The streamed case: an exception of the application is dropped once the limit was hit.\<close>

definition limited_call ::
    "nat \<Rightarrow> detail \<Rightarrow> bool \<Rightarrow> int \<Rightarrow> nat \<Rightarrow> 'm app \<Rightarrow> scope \<Rightarrow> asgi_in list \<Rightarrow> db \<Rightarrow> 'm gate_answer \<times> db" where
  "limited_call max_request_bytes payload up now req app sc src d =
     (let st = run_limited app max_request_bytes src served_start
      in if g_too_large st then
           (Rejected_413 st (rejection_code sc),
            snd (append_independent_event up now
              (rejection_event sc req
                 ([(''reason'', DStr (u ''chunked_stream_exceeded'')), (''stage'', DStr (u ''pre_parser_size'')),
                   (''received_bytes_before_abort'', DInt (int (g_received st))),
                   (''complete_pdf_byte_length_known'', DBool False)] @ payload)) d))
         else (Passed st, d))"

definition upload_gate ::
    "nat \<Rightarrow> nat \<Rightarrow> nat option \<Rightarrow> nat \<Rightarrow> bool \<Rightarrow> int \<Rightarrow> nat \<Rightarrow> 'm app \<Rightarrow> scope \<Rightarrow> asgi_in list \<Rightarrow> db \<Rightarrow> 'm gate_answer \<times> db" where
  "upload_gate max_pdf_bytes import_max_upload_bytes configured overhead up now req app sc src d =
     (if \<not> is_pdf_upload sc \<and> \<not> is_product_import sc then (Passed (run_plain app src served_start), d)
      else
        let max_payload_bytes = (case configured of Some n \<Rightarrow> n
                                 | None \<Rightarrow> if is_pdf_upload sc then max_pdf_bytes else import_max_upload_bytes);
            max_request_bytes = max_payload_bytes + overhead;
            payload = (if is_product_import sc then [(''max_payload_bytes'', DInt (int max_payload_bytes))] else [])
        in case content_length (sc_headers sc) of
             Some declared \<Rightarrow>
               if declared > max_request_bytes then
                 (Rejected_413 served_start (rejection_code sc),
                  snd (append_independent_event up now
                    (rejection_event sc req
                       ([(''reason'', DStr (u ''content_length_exceeded'')), (''stage'', DStr (u ''pre_parser_size'')),
                         (''declared_content_length'', DInt (int declared)),
                         (''declared_request_body_verified'', DBool False),
                         (''complete_pdf_byte_length_known'', DBool False)] @ payload)) d))
               else limited_call max_request_bytes payload up now req app sc src d
           | None \<Rightarrow> limited_call max_request_bytes payload up now req app sc src d)"

section \<open>Lemmas\<close>

fun body_bytes :: "asgi_in \<Rightarrow> nat" where
  "body_bytes (Http_Request body) = length body"
| "body_bytes Disconnect = 0"

definition total_bytes :: "asgi_in list \<Rightarrow> nat" where
  "total_bytes ms = sum_list (map body_bytes ms)"

lemma total_bytes_simps [simp]:
  "total_bytes [] = 0" "total_bytes (m # ms) = body_bytes m + total_bytes ms"
  "total_bytes (ms @ ns) = total_bytes ms + total_bytes ns"
  by (simp_all add: total_bytes_def)

lemma limited_receive_cases:
  assumes "limited_receive limit src n big = (m, src1, n1, big1)"
  obtains (closed) "big" "big1" "m = Disconnect" "src1 = src" "n1 = n"
  | (over) body where "\<not> big" "big1" "m = Disconnect" "src = Http_Request body # src1" "n1 = n + length body" "limit < n1"
  | (fine) "\<not> big" "\<not> big1" "next_message src = (m, src1)" "n1 = n + body_bytes m" "body_bytes m = 0 \<or> n1 \<le> limit"
  using assms
  by (cases src; cases "hd src")
    (auto simp: limited_receive_def Let_def split: if_splits)

lemma next_message_bytes: "next_message src = (m, src1) \<Longrightarrow> total_bytes src = body_bytes m + total_bytes src1"
  by (cases src) auto

text \<open>What the application has seen is what was counted, and stays within the limit.\<close>

definition within :: "nat \<Rightarrow> 'm served \<Rightarrow> bool" where
  "within limit st \<longleftrightarrow> total_bytes (g_seen st) \<le> limit
     \<and> (if g_too_large st then limit < g_received st else total_bytes (g_seen st) = g_received st)"

lemma run_limited_within: "within limit st \<Longrightarrow> within limit (run_limited app limit src st)"
proof (induction app arbitrary: src st)
  case (Send m k)
  then have "within limit (if g_too_large st then st else st\<lparr>g_sent := g_sent st @ [m]\<rparr>)"
    by (auto simp: within_def split: if_splits)
  then show ?case unfolding run_limited.simps by (rule Send.IH)
next
  case (Recv k)
  obtain m src1 n1 big1 where l: "limited_receive limit src (g_received st) (g_too_large st) = (m, src1, n1, big1)"
    by (metis prod_cases4)
  have "within limit (st\<lparr>g_seen := g_seen st @ [m], g_received := n1, g_too_large := big1\<rparr>)"
    using l Recv.prems by (cases rule: limited_receive_cases) (auto simp: within_def split: if_splits)
  with l Recv.IH show ?case by simp
qed (simp_all add: within_def)

text \<open>A stream within the limit is not disturbed.\<close>

definition like_plain :: "'m served \<Rightarrow> 'm served \<Rightarrow> bool" where
  "like_plain st st' \<longleftrightarrow> g_sent st = g_sent st' \<and> g_seen st = g_seen st' \<and> g_raised st = g_raised st' \<and> \<not> g_too_large st"

lemma run_limited_transparent:
  "g_received st + total_bytes src \<le> limit \<Longrightarrow> like_plain st st' \<Longrightarrow>
     like_plain (run_limited app limit src st) (run_plain app src st')"
proof (induction app arbitrary: src st st')
  case (Send m k)
  have "like_plain (st\<lparr>g_sent := g_sent st @ [m]\<rparr>) (st'\<lparr>g_sent := g_sent st' @ [m]\<rparr>)" "\<not> g_too_large st"
    using Send.prems by (simp_all add: like_plain_def)
  with Send.prems show ?case using Send.IH [of "st\<lparr>g_sent := g_sent st @ [m]\<rparr>" src] by simp
next
  case (Recv k)
  obtain m src1 n1 big1 where l: "limited_receive limit src (g_received st) (g_too_large st) = (m, src1, n1, big1)"
    by (metis prod_cases4)
  from l show ?case
  proof (cases rule: limited_receive_cases)
    case fine
    let ?st1 = "st\<lparr>g_seen := g_seen st @ [m], g_received := n1, g_too_large := big1\<rparr>"
    have "like_plain ?st1 (st'\<lparr>g_seen := g_seen st' @ [m]\<rparr>)"
      using Recv.prems fine by (simp add: like_plain_def)
    moreover have "g_received ?st1 + total_bytes src1 \<le> limit"
      using Recv.prems fine next_message_bytes [OF fine(3)] by simp
    ultimately have "like_plain (run_limited (k m) limit src1 ?st1) (run_plain (k m) src1 (st'\<lparr>g_seen := g_seen st' @ [m]\<rparr>))"
      using Recv.IH by blast
    with l fine show ?thesis by simp
  qed (use Recv.prems in \<open>auto simp: like_plain_def\<close>)
qed (auto simp: like_plain_def)

lemma independent_event_grows:
  "\<exists>extra. tabs (snd (append_independent_event up now e d)) = (tabs d)\<lparr>t_audit := t_audit (tabs d) @ extra\<rparr>"
proof -
  have "tabs d = (tabs d)\<lparr>t_audit := t_audit (tabs d) @ []\<rparr>" by simp
  moreover have "append_independent_event up now e d = (b, d') \<Longrightarrow> tabs d' = tabs d
      \<or> tabs d' = (tabs d)\<lparr>t_audit := t_audit (tabs d) @ [\<lparr>e_id = q_audit (seqs d), e_at = now, e_event = e\<rparr>]\<rparr>" for b d'
    by (auto simp: append_independent_event_def transaction_def append_event_def Let_def split: if_splits)
  ultimately show ?thesis by (metis prod.collapse)
qed

section \<open>Properties\<close>

text \<open>
  What the gate promises for an upload request with the given bound: a declared length above it is
  refused before the application runs; a stream within it is served as without the gate; of a longer
  stream the application never sees more bytes than the bound, and when the limit was hit the answer
  is a 413. Only a refusal touches the database, and only by adding audit events.
\<close>

definition gate_spec :: "nat \<Rightarrow> 'm app \<Rightarrow> scope \<Rightarrow> asgi_in list \<Rightarrow> db \<Rightarrow> 'm gate_answer \<times> db \<Rightarrow> bool" where
  "gate_spec bound app sc src d out =
     (case out of
        (Passed st, d') \<Rightarrow> d' = d \<and> total_bytes (g_seen st) \<le> bound
          \<and> (case content_length (sc_headers sc) of None \<Rightarrow> True | Some n \<Rightarrow> n \<le> bound)
          \<and> (if total_bytes src \<le> bound then like_plain st (run_plain app src served_start) else True)
      | (Rejected_413 st c, d') \<Rightarrow> c = rejection_code sc \<and> total_bytes (g_seen st) \<le> bound
          \<and> (case content_length (sc_headers sc) of
               None \<Rightarrow> bound < total_bytes src
             | Some n \<Rightarrow> if bound < n then st = served_start else bound < total_bytes src)
          \<and> (\<exists>extra. tabs d' = (tabs d)\<lparr>t_audit := t_audit (tabs d) @ extra\<rparr>))"

definition request_bound :: "nat \<Rightarrow> nat \<Rightarrow> nat option \<Rightarrow> nat \<Rightarrow> scope \<Rightarrow> nat" where
  "request_bound max_pdf max_import configured overhead sc =
     (case configured of Some n \<Rightarrow> n | None \<Rightarrow> if is_pdf_upload sc then max_pdf else max_import) + overhead"

lemma nothing_seen [simp]: "g_seen served_start = []"
  by (simp add: served_start_def)

lemma limited_call_spec:
  assumes "case content_length (sc_headers sc) of None \<Rightarrow> True | Some n \<Rightarrow> n \<le> bound"
  shows "gate_spec bound app (sc :: scope) src d (limited_call bound payload up now req app sc src d)"
proof -
  define st where "st = run_limited app bound src served_start"
  have w: "within bound st"
    unfolding st_def by (rule run_limited_within) (simp add: within_def served_start_def)
  have t: "total_bytes src \<le> bound \<Longrightarrow> like_plain st (run_plain app src served_start)"
    unfolding st_def by (rule run_limited_transparent) (simp_all add: served_start_def like_plain_def)
  show ?thesis
  proof (cases "g_too_large st")
    case True
    with t have "bound < total_bytes src" by (metis like_plain_def not_less)
    with True w assms show ?thesis
      using independent_event_grows
      by (auto simp: limited_call_def st_def [symmetric] Let_def gate_spec_def within_def split: option.splits)
  next
    case False
    with t w assms show ?thesis
      by (simp add: limited_call_def st_def [symmetric] Let_def gate_spec_def within_def)
  qed
qed

text \<open>
  C37. The gate keeps its promise for every upload and import request, whatever the application does
  and whatever the client declares or sends, and any other request is served as without the gate.
\<close>

theorem upload_gate_bounded:
  "if is_pdf_upload sc \<or> is_product_import sc
   then gate_spec (request_bound max_pdf max_import configured overhead sc) app sc src d
          (upload_gate max_pdf max_import configured overhead up now req app sc src d)
   else upload_gate max_pdf max_import configured overhead up now req app sc src d = (Passed (run_plain app src served_start), d)"
proof (cases "is_pdf_upload sc \<or> is_product_import sc")
  case guarded: True
  let ?bound = "request_bound max_pdf max_import configured overhead sc"
  have g: "(\<not> is_pdf_upload sc \<and> \<not> is_product_import sc) = False" using guarded by blast
  show ?thesis
  proof (cases "case content_length (sc_headers sc) of None \<Rightarrow> True | Some n \<Rightarrow> n \<le> ?bound")
    case True
    then have "\<exists>payload. upload_gate max_pdf max_import configured overhead up now req app sc src d
        = limited_call ?bound payload up now req app sc src d"
      unfolding upload_gate_def g if_False Let_def request_bound_def [symmetric]
      by (cases "content_length (sc_headers sc)") (auto simp: not_less)
    with guarded limited_call_spec [OF True] show ?thesis by auto
  next
    case False
    then obtain n where n: "content_length (sc_headers sc) = Some n" "?bound < n" by (auto split: option.splits)
    then have "\<exists>e. upload_gate max_pdf max_import configured overhead up now req app sc src d
        = (Rejected_413 served_start (rejection_code sc), snd (append_independent_event up now e d))"
      unfolding upload_gate_def g if_False Let_def request_bound_def [symmetric] by auto
    then show ?thesis using guarded n independent_event_grows by (auto simp: gate_spec_def)
  qed
qed (simp add: upload_gate_def)

end
