(* ===== verification/Admin_Gate.thy ===== *)
theory Admin_Gate
  imports Auth_Limit App_System Upload_Gate
begin

text \<open>
  \<open>auth_middleware.py\<close> and \<open>admin.py\<close>: the authentication of every management route, and the server
  side of login, password change, logout and the import page, with \<open>errors.py\<close>'s mapping of
  exceptions to responses. Templates are what they render: the status and the values they get.
\<close>

section \<open>Requests\<close>

record web_request =
  rq_path :: ustr
  rq_method :: ustr
  rq_cookie :: "ustr option"
  rq_csrf_header :: "ustr option"
  rq_client :: "ustr option"

definition LOGIN_PATH :: ustr where "LOGIN_PATH = u ''/admin/login''"
definition CHANGE_PASSWORD_PATH :: ustr where "CHANGE_PASSWORD_PATH = u ''/admin/change-password''"
definition LOGOUT_PATH :: ustr where "LOGOUT_PATH = u ''/admin/logout''"

definition SAFE_METHODS :: "ustr list" where
  "SAFE_METHODS = [u ''GET'', u ''HEAD'', u ''OPTIONS'']"

definition IMPORT_PATHS :: "ustr list" where
  "IMPORT_PATHS = [u ''/api/product-imports'', u ''/admin/imports'']"

definition is_management_path :: "ustr \<Rightarrow> bool" where
  "is_management_path path \<longleftrightarrow>
     path = u ''/admin'' \<or> starts_with (u ''/admin/'') path \<or> starts_with (u ''/api/'') path"

text \<open>\<open>hmac.compare_digest\<close> of two texts: both must be ASCII.\<close>

definition compare_digest :: "ustr \<Rightarrow> ustr \<Rightarrow> bool res" where
  "compare_digest a b = (if list_ex (\<lambda>c. 128 \<le> c) (a @ b) then Inl TypeError else Inr (a = b))"

text \<open>\<open>urlencode({'next': path})\<close>: \<open>quote_plus\<close> of the path.\<close>

definition quote_plus :: "ustr \<Rightarrow> ustr" where
  "quote_plus s = concat (map (\<lambda>b. if b = 32 then [43] else quote_byte b) (utf8 s))"

section \<open>The middleware\<close>

datatype gate =
    To_App "(authenticated_admin \<times> ustr) option"
  | To_Login ustr
  | To_Change_Password
  | Csrf_Refused

definition refused_import :: "int option \<Rightarrow> detail \<Rightarrow> audit_event" where
  "refused_import actor det =
     \<lparr>ev_action = ''product_import'', ev_result = Failure,
      ev_actor_type = (case actor of None \<Rightarrow> ''anonymous'' | Some _ \<Rightarrow> ''admin''), ev_actor = actor,
      ev_target_type = Some ''product_batch'', ev_target = None, ev_code = None, ev_request = None,
      ev_detail = Some det\<rparr>"

text \<open>\<open>dispatch\<close>; \<open>has_db\<close>: the application state has its database.\<close>

definition dispatch ::
    "(nat list \<Rightarrow> ustr) \<Rightarrow> bool \<Rightarrow> bool \<Rightarrow> int \<Rightarrow> web_request \<Rightarrow> db \<Rightarrow> gate res \<times> db" where
  "dispatch sha has_db up now rq d =
     (let path = rq_path rq
      in if \<not> is_management_path path \<or> path = LOGIN_PATH then (Inr (To_App None), d)
         else
           (case (case rq_cookie rq of None \<Rightarrow> None | Some t \<Rightarrow> if has_db then resolve_session sha now t d else None) of
              None \<Rightarrow>
                (Inr (To_Login (LOGIN_PATH @ u ''?next='' @ quote_plus path)),
                 if path \<in> set IMPORT_PATHS \<and> rq_method rq = u ''POST'' \<and> has_db
                   then snd (append_independent_event up now
                          (refused_import None [(''reason'', DStr (u ''unauthenticated_rejection''))]) d)
                   else d)
            | Some admin \<Rightarrow>
                (case rq_cookie rq of
                   None \<Rightarrow> (Inl (RuntimeError ''Resolved administrator session has no source token''), d)
                 | Some token \<Rightarrow>
                     let csrf_token = csrf_token_for_session sha token
                     in if aa_must_change admin \<and> path \<noteq> CHANGE_PASSWORD_PATH \<and> path \<noteq> LOGOUT_PATH
                          then (Inr To_Change_Password, d)
                        else if starts_with (u ''/api/'') path \<and> rq_method rq \<notin> set SAFE_METHODS then
                          (case compare_digest (case rq_csrf_header rq of None \<Rightarrow> [] | Some h \<Rightarrow> h) csrf_token of
                             Inl e \<Rightarrow> (Inl e, d)
                           | Inr same \<Rightarrow>
                               if same then (Inr (To_App (Some (admin, csrf_token))), d)
                               else
                                 (Inr Csrf_Refused,
                                  if path \<in> set IMPORT_PATHS
                                    then snd (append_independent_event up now
                                      (refused_import (Some (aa_id admin))
                                         [(''reason'', DStr (u ''csrf_rejection'')),
                                          (''actual'', DStr (case rq_csrf_header rq of None \<Rightarrow> u ''missing'' | Some _ \<Rightarrow> u ''mismatch''))]) d)
                                    else d))
                        else (Inr (To_App (Some (admin, csrf_token))), d))))"

section \<open>Errors as responses\<close>

definition error_response :: "exc \<Rightarrow> nat \<times> string" where
  "error_response e =
     (case e of AppError c s \<Rightarrow> (s, c) | UploadRejected c _ s \<Rightarrow> (s, c) | _ \<Rightarrow> (500, ''internal_error''))"

section \<open>The pages\<close>

text \<open>
  What a page answers: a form with its status and \<open>Retry-After\<close>, or a redirect with what it does to
  the session cookie.
\<close>

datatype cookie_change = Keep_Cookie | Set_Cookie ustr | Delete_Cookie

datatype admin_response =
    Login_Form nat "int option" ustr
  | Password_Form nat
  | Refused_Page nat
  | Redirect ustr cookie_change
  | Import_Page import_result

definition safe_next_path :: "ustr \<Rightarrow> ustr" where
  "safe_next_path candidate =
     (if candidate = u ''/admin'' \<or> starts_with (u ''/admin/'') candidate then candidate else u ''/admin'')"

definition client_ip :: "web_request \<Rightarrow> ustr" where
  "client_ip rq = (case rq_client rq of Some h \<Rightarrow> h | None \<Rightarrow> u ''unknown'')"

definition record_login_failure :: "bool \<Rightarrow> int \<Rightarrow> ustr \<Rightarrow> string \<Rightarrow> db \<Rightarrow> db" where
  "record_login_failure up now account_key reason d =
     snd (append_independent_event up now
       \<lparr>ev_action = ''login_failure'', ev_result = Failure, ev_actor_type = ''anonymous'', ev_actor = None,
        ev_target_type = Some ''admin'', ev_target = None, ev_code = None, ev_request = None,
        ev_detail = Some [(''username'', DStr account_key), (''reason'', DStr (u reason))]\<rparr> d)"

definition valid_csrf_token :: "ustr \<Rightarrow> ustr option \<Rightarrow> bool res" where
  "valid_csrf_token expected candidate = (case candidate of None \<Rightarrow> Inr False | Some c \<Rightarrow> compare_digest c expected)"

text \<open>\<open>math.ceil\<close> of a duration, in seconds; \<open>per_second\<close> clock units make one second.\<close>

definition ceil_seconds :: "int \<Rightarrow> int \<Rightarrow> int" where
  "ceil_seconds per_second r = - ((- r) div per_second)"

definition login ::
    "limiter_config \<Rightarrow> (ustr \<Rightarrow> ustr) \<Rightarrow> (nat list \<Rightarrow> ustr) \<Rightarrow> (ustr \<Rightarrow> ustr \<Rightarrow> bool) \<Rightarrow> int \<Rightarrow> int \<times> int \<times> int \<Rightarrow> bool \<Rightarrow> int
     \<Rightarrow> nat \<Rightarrow> ustr \<Rightarrow> int \<Rightarrow> web_request \<Rightarrow> ustr \<Rightarrow> ustr \<Rightarrow> ustr \<Rightarrow> failures \<times> db \<Rightarrow> admin_response res \<times> failures \<times> db" where
  "login cfg cf sha verify per_second clock up now session_id token ttl_seconds rq username password next_path s =
     (case (clock, s) of ((t1, t2, t3), (fl, d)) \<Rightarrow>
        let ip_address = client_ip rq;
            account_key = cf (take 64 (strip username))
        in case reserve_attempt cfg cf t1 t2 t3 ip_address account_key fl of
             (Inl e, fl1) \<Rightarrow> (Inl e, fl1, d)
           | (Inr reservation, fl1) \<Rightarrow>
               if \<not> rs_allowed reservation then
                 (Inr (Login_Form 429 (Some (max 1 (ceil_seconds per_second (rs_retry_after reservation)))) (safe_next_path next_path)),
                  fl1, record_login_failure up now account_key ''rate_limited'' d)
               else
                 (case create_authenticated_session sha verify now session_id token username password ttl_seconds d of
                    (Inl e, d1) \<Rightarrow> (Inl e, fl1, d1)
                  | (Inr None, d1) \<Rightarrow>
                      (Inr (Login_Form 401
                         (if rs_retry_after reservation > 0 then Some (ceil_seconds per_second (rs_retry_after reservation)) else None)
                         (safe_next_path next_path)),
                       fl1, record_login_failure up now account_key ''invalid_credentials'' d1)
                  | (Inr (Some session), d1) \<Rightarrow>
                      (Inr (Redirect (if aa_must_change (cs_admin session) then u ''/admin/change-password'' else safe_next_path next_path)
                              (Set_Cookie (cs_token session))),
                       register_success cf ip_address account_key fl1, d1)))"

definition change_password_endpoint ::
    "(ustr \<Rightarrow> ustr) \<Rightarrow> (ustr \<Rightarrow> ustr) \<Rightarrow> (ustr \<Rightarrow> ustr \<Rightarrow> bool) \<Rightarrow> int \<Rightarrow> authenticated_admin \<Rightarrow> ustr \<Rightarrow> ustr option
     \<Rightarrow> ustr \<Rightarrow> ustr \<Rightarrow> ustr \<Rightarrow> db \<Rightarrow> admin_response res \<times> db" where
  "change_password_endpoint cf hash_pw verify now admin expected csrf current_password new_password confirm_password d =
     (case valid_csrf_token expected csrf of
        Inl e \<Rightarrow> (Inl e, d)
      | Inr ok \<Rightarrow>
          if \<not> ok then (Inr (Password_Form 403), d)
          else if new_password \<noteq> confirm_password then (Inr (Password_Form 422), d)
          else
            (case change_password cf hash_pw verify now admin current_password new_password d of
               (Inl e, d1) \<Rightarrow>
                 (case app_error_code e of
                    None \<Rightarrow> (Inl e, d1)
                  | Some _ \<Rightarrow> (Inr (Password_Form (fst (error_response e))), d1))
             | (Inr _, d1) \<Rightarrow> (Inr (Redirect (u ''/admin'') Keep_Cookie), d1)))"

definition logout :: "int \<Rightarrow> authenticated_admin \<Rightarrow> ustr \<Rightarrow> ustr option \<Rightarrow> db \<Rightarrow> admin_response res \<times> db" where
  "logout now admin expected csrf d =
     (case valid_csrf_token expected csrf of
        Inl e \<Rightarrow> (Inl e, d)
      | Inr ok \<Rightarrow>
          if \<not> ok then (Inr (Refused_Page 403), d)
          else (case revoke_session now admin d of
                  (Inl e, d1) \<Rightarrow> (Inl e, d1)
                | (Inr _, d1) \<Rightarrow> (Inr (Redirect (u ''/admin/login'') Delete_Cookie), d1)))"

text \<open>\<open>submit_import_page\<close>; \<open>run\<close> is the call of \<open>import_products\<close> with the uploaded file.\<close>

definition submit_import_page ::
    "bool \<Rightarrow> int \<Rightarrow> authenticated_admin \<Rightarrow> ustr \<Rightarrow> ustr option \<Rightarrow> (db \<Rightarrow> import_result res \<times> db) \<Rightarrow> db
     \<Rightarrow> admin_response res \<times> db" where
  "submit_import_page up now admin expected csrf run d =
     (case valid_csrf_token expected csrf of
        Inl e \<Rightarrow> (Inl e, d)
      | Inr ok \<Rightarrow>
          if \<not> ok then
            (Inr (Import_Page \<lparr>ir_success = 0, ir_duplicate = 0, ir_format = 0,
                    ir_errors = [\<lparr>ie_row = None, ie_reason = Message_Of ''invalid_csrf_token'', ie_kind = Authentication\<rparr>],
                    ir_notices = [], ir_failed = True, ir_code = Some ''invalid_csrf_token'', ir_http = 403\<rparr>),
             snd (append_independent_event up now
               (refused_import (Some (aa_id admin))
                  [(''reason'', DStr (u ''csrf_rejection'')), (''actual'', DStr (u ''missing_or_mismatch''))]) d))
          else
            (case run d of
               (Inl e, d1) \<Rightarrow> (Inl e, d1)
             | (Inr result, d1) \<Rightarrow> (Inr (Import_Page result), d1)))"

section \<open>Lemmas\<close>

definition inside_admin :: "ustr \<Rightarrow> bool" where
  "inside_admin p \<longleftrightarrow> p = u ''/admin'' \<or> starts_with (u ''/admin/'') p"

lemma safe_next_inside: "inside_admin (safe_next_path p)"
  by (simp add: inside_admin_def safe_next_path_def)

definition audited_only :: "db \<Rightarrow> db \<Rightarrow> bool" where
  "audited_only d d' \<longleftrightarrow> (\<exists>extra. tabs d' = (tabs d)\<lparr>t_audit := t_audit (tabs d) @ extra\<rparr>)"

lemma audited_only_refl [simp]: "audited_only d d"
  unfolding audited_only_def by (rule exI [of _ "[]"]) simp

lemma audited_only_event [simp]: "audited_only d (snd (append_independent_event up now e d))"
  unfolding audited_only_def by (rule independent_event_grows)

lemma audited_only_tables:
  "audited_only d d' \<Longrightarrow> t_sessions (tabs d') = t_sessions (tabs d) \<and> t_admins (tabs d') = t_admins (tabs d)
     \<and> t_products (tabs d') = t_products (tabs d) \<and> t_versions (tabs d') = t_versions (tabs d)"
  by (auto simp: audited_only_def)

text \<open>A live session of the cookie: stored, not revoked, not expired, of a stored administrator.\<close>

definition live_session :: "(nat list \<Rightarrow> ustr) \<Rightarrow> int \<Rightarrow> ustr \<Rightarrow> authenticated_admin \<Rightarrow> db \<Rightarrow> bool" where
  "live_session sha now token admin d \<longleftrightarrow>
     (\<exists>s \<in> set (t_sessions (tabs d)). \<exists>row \<in> set (t_admins (tabs d)).
        s_hash s = hash_session_token sha token \<and> s_revoked s = None \<and> now < s_expires s \<and> a_id row = s_admin s
        \<and> admin = \<lparr>aa_id = a_id row, aa_username = a_username row, aa_must_change = a_must_change row,
                   aa_session = s_id s, aa_expires = s_expires s\<rparr>)"

lemma resolve_live: "resolve_session sha now token d = Some admin \<Longrightarrow> live_session sha now token admin d"
  by (erule resolve_sessionD) (auto simp: live_session_def dest: select_adminD)

definition api_write :: "web_request \<Rightarrow> bool" where
  "api_write rq \<longleftrightarrow> starts_with (u ''/api/'') (rq_path rq) \<and> rq_method rq \<notin> set SAFE_METHODS"

definition csrf_candidate :: "web_request \<Rightarrow> ustr" where
  "csrf_candidate rq = (case rq_csrf_header rq of None \<Rightarrow> [] | Some h \<Rightarrow> h)"

section \<open>Properties\<close>

text \<open>
  What the middleware promises. A handler of a management route runs only with the identity of a live
  session of the request's cookie; while that administrator must change the password, only the
  password change and the logout run; and a writing API call runs only with the session's CSRF
  token. The login page and the public routes run without identity. Only audit events are written.
\<close>

definition guard_spec :: "(nat list \<Rightarrow> ustr) \<Rightarrow> bool \<Rightarrow> int \<Rightarrow> web_request \<Rightarrow> db \<Rightarrow> gate res \<times> db \<Rightarrow> bool" where
  "guard_spec sha has_db now rq d out =
     (let protected = (is_management_path (rq_path rq) \<and> rq_path rq \<noteq> LOGIN_PATH)
      in audited_only d (snd out)
         \<and> (case fst out of
              Inr (To_App None) \<Rightarrow> \<not> protected
            | Inr (To_App (Some (admin, csrf))) \<Rightarrow> protected
                \<and> (\<exists>token. rq_cookie rq = Some token \<and> live_session sha now token admin d
                     \<and> csrf = csrf_token_for_session sha token)
                \<and> (if aa_must_change admin then rq_path rq \<in> {CHANGE_PASSWORD_PATH, LOGOUT_PATH} else True)
                \<and> (if api_write rq then csrf_candidate rq = csrf else True)
            | Inr (To_Login _) \<Rightarrow> protected
                \<and> (case rq_cookie rq of None \<Rightarrow> True | Some token \<Rightarrow> has_db \<longrightarrow> resolve_session sha now token d = None)
            | Inr To_Change_Password \<Rightarrow> protected \<and> rq_path rq \<notin> {CHANGE_PASSWORD_PATH, LOGOUT_PATH}
            | Inr Csrf_Refused \<Rightarrow> api_write rq
            | Inl e \<Rightarrow> e = TypeError \<and> api_write rq))"

text \<open>C13. The middleware keeps its promise for every request in every state.\<close>

theorem management_guard:
  "guard_spec sha has_db now rq d (dispatch sha has_db up now rq d)"
proof (cases "is_management_path (rq_path rq) \<and> rq_path rq \<noteq> LOGIN_PATH")
  case False
  then show ?thesis by (auto simp: guard_spec_def dispatch_def Let_def)
next
  case True
  let ?admin = "case rq_cookie rq of None \<Rightarrow> None | Some t \<Rightarrow> if has_db then resolve_session sha now t d else None"
  show ?thesis
  proof (cases ?admin)
    case None
    then have "case rq_cookie rq of None \<Rightarrow> True | Some token \<Rightarrow> has_db \<longrightarrow> resolve_session sha now token d = None"
      by (auto split: option.splits if_splits)
    with None True show ?thesis by (simp add: guard_spec_def dispatch_def Let_def)
  next
    case (Some admin)
    then obtain token where tok: "rq_cookie rq = Some token" "has_db" "resolve_session sha now token d = Some admin"
      by (auto split: option.splits if_splits)
    note live = resolve_live [OF tok(3)]
    let ?csrf = "csrf_token_for_session sha token"
    consider (change) "aa_must_change admin" "rq_path rq \<noteq> CHANGE_PASSWORD_PATH" "rq_path rq \<noteq> LOGOUT_PATH"
      | (writes) "\<not> (aa_must_change admin \<and> rq_path rq \<noteq> CHANGE_PASSWORD_PATH \<and> rq_path rq \<noteq> LOGOUT_PATH)" "api_write rq"
      | (reads) "\<not> (aa_must_change admin \<and> rq_path rq \<noteq> CHANGE_PASSWORD_PATH \<and> rq_path rq \<noteq> LOGOUT_PATH)" "\<not> api_write rq"
      by blast
    then show ?thesis
    proof cases
      case change
      with True tok show ?thesis by (simp add: guard_spec_def dispatch_def Let_def)
    next
      case writes
      have d: "dispatch sha has_db up now rq d =
          (case compare_digest (csrf_candidate rq) ?csrf of
             Inl e \<Rightarrow> (Inl e, d)
           | Inr same \<Rightarrow>
               if same then (Inr (To_App (Some (admin, ?csrf))), d)
               else (Inr Csrf_Refused,
                 if rq_path rq \<in> set IMPORT_PATHS
                   then snd (append_independent_event up now
                      (refused_import (Some (aa_id admin))
                         [(''reason'', DStr (u ''csrf_rejection'')),
                          (''actual'', DStr (case rq_csrf_header rq of None \<Rightarrow> u ''missing'' | Some _ \<Rightarrow> u ''mismatch''))]) d)
                   else d))"
        using writes True tok unfolding dispatch_def Let_def api_write_def csrf_candidate_def by auto
      show ?thesis
        using writes True tok live unfolding d
        by (auto simp: guard_spec_def Let_def compare_digest_def)
    next
      case reads
      then have "dispatch sha has_db up now rq d = (Inr (To_App (Some (admin, ?csrf))), d)"
        using True tok unfolding dispatch_def Let_def api_write_def by auto
      with reads True tok live show ?thesis by (auto simp: guard_spec_def Let_def)
    qed
  qed
qed

text \<open>
  A CSRF header outside ASCII is not answered with the 403 of a wrong token: the comparison raises,
  and the refused import leaves no audit event.
\<close>

theorem non_ascii_csrf_raises:
  assumes "resolve_session sha now tok d = Some admin" "\<not> aa_must_change admin"
  shows "dispatch sha True up now
     \<lparr>rq_path = u ''/api/product-imports'', rq_method = u ''POST'', rq_cookie = Some tok, rq_csrf_header = Some [233], rq_client = None\<rparr> d
     = (Inl TypeError, d)"
  using assms
  by (simp add: dispatch_def is_management_path_def starts_with_def LOGIN_PATH_def SAFE_METHODS_def compare_digest_def)

text \<open>
  What a login promises. A redirect carries the new session's token, leads into the management area,
  and is given only to an attempt that was not throttled and whose password verified against the
  stored administrator of that name; the throttle of that address and account is then cleared. A
  form is a 401 or a 429 with a wait of at least a second, issues no session and leads nowhere else;
  an exception leaves the tables as they were.
\<close>

definition login_spec ::
    "limiter_config \<Rightarrow> (ustr \<Rightarrow> ustr) \<Rightarrow> (nat list \<Rightarrow> ustr) \<Rightarrow> (ustr \<Rightarrow> ustr \<Rightarrow> bool) \<Rightarrow> int \<Rightarrow> ustr \<Rightarrow> web_request \<Rightarrow> ustr \<Rightarrow> ustr
     \<Rightarrow> failures \<Rightarrow> db \<Rightarrow> admin_response res \<times> failures \<times> db \<Rightarrow> bool" where
  "login_spec cfg cf sha verify t1 token rq username password fl d out =
     (let key = cf (take 64 (strip username));
          wait = fst (retry_after cfg cf t1 (client_ip rq) key fl)
      in case out of (r, fl', d') \<Rightarrow>
        (case r of
           Inr (Redirect dest c) \<Rightarrow> c = Set_Cookie token \<and> inside_admin dest \<and> wait \<le> 0
             \<and> (\<exists>row \<in> set (t_admins (tabs d)). normalize_username username = Inr (a_username row) \<and> verify (a_hash row) password)
             \<and> (\<exists>s. t_sessions (tabs d') = t_sessions (tabs d) @ [s] \<and> s_hash s = hash_session_token sha token)
             \<and> fl' (Ip (client_ip rq)) = None \<and> fl' (Account (cf key)) = None
         | Inr (Login_Form status retry dest) \<Rightarrow> inside_admin dest \<and> audited_only d d'
             \<and> (if wait > 0 then status = 429 \<and> (\<exists>n. retry = Some n \<and> 1 \<le> n) else status = 401)
         | Inr _ \<Rightarrow> False
         | Inl e \<Rightarrow> tabs d' = tabs d))"

lemma create_session_cases:
  assumes "create_authenticated_session sha verify now sid token raw pw ttl d = (r, d')"
  shows "case r of
     Inl e \<Rightarrow> tabs d' = tabs d
   | Inr None \<Rightarrow> d' = d
   | Inr (Some s) \<Rightarrow> cs_token s = token
       \<and> (\<exists>row \<in> set (t_admins (tabs d)). normalize_username raw = Inr (a_username row) \<and> verify (a_hash row) pw)
       \<and> (\<exists>x. t_sessions (tabs d') = t_sessions (tabs d) @ [x] \<and> s_hash x = hash_session_token sha token)"
proof (cases "normalize_username raw")
  case (Inl e)
  with assms show ?thesis by (auto simp: create_authenticated_session_def)
next
  case (Inr name)
  show ?thesis
  proof (cases "select_admin_by_name name d")
    case None
    with Inr assms show ?thesis by (auto simp: create_authenticated_session_def transaction_def)
  next
    case (Some row)
    then have row: "row \<in> set (t_admins (tabs d))" "a_username row = name"
      unfolding select_admin_by_name_def using find_SomeD by fastforce+
    show ?thesis
    proof (cases "verify (a_hash row) pw")
      case False
      with Some Inr assms show ?thesis by (auto simp: create_authenticated_session_def transaction_def)
    next
      case True
      let ?body = "dbind (insert_session now sid (a_id row) (hash_session_token sha token) ttl) (\<lambda>expires_at.
                  dbind (update_admin (a_id row) (\<lambda>a. a\<lparr>a_last_login := Some now\<rparr>)) (\<lambda>_.
                  dbind (append_event now (auth_event ''login_success'' (Some (a_id row)) (a_id row))) (\<lambda>_.
                  Pair (Inr (Some \<lparr>cs_token = token,
                    cs_admin = \<lparr>aa_id = a_id row, aa_username = a_username row, aa_must_change = a_must_change row,
                                aa_session = sid, aa_expires = expires_at\<rparr>\<rparr>)))))"
      have t: "transaction (\<lambda>d. case select_admin_by_name name d of
              None \<Rightarrow> (Inr None, d)
            | Some row \<Rightarrow>
                if \<not> verify (a_hash row) pw then (Inr None, d)
                else dbind (insert_session now sid (a_id row) (hash_session_token sha token) ttl) (\<lambda>expires_at.
                  dbind (update_admin (a_id row) (\<lambda>a. a\<lparr>a_last_login := Some now\<rparr>)) (\<lambda>_.
                  dbind (append_event now (auth_event ''login_success'' (Some (a_id row)) (a_id row))) (\<lambda>_.
                  Pair (Inr (Some \<lparr>cs_token = token,
                    cs_admin = \<lparr>aa_id = a_id row, aa_username = a_username row, aa_must_change = a_must_change row,
                                aa_session = sid, aa_expires = expires_at\<rparr>\<rparr>))))) d) d = (r, d')"
        using assms Inr by (simp add: create_authenticated_session_def)
      show ?thesis
      proof (cases r)
        case (Inl e)
        with t transaction_Inl show ?thesis by fastforce
      next
        case ok: (Inr x)
        with t have "?body d = (Inr x, d')" using Some True by (simp add: transaction_Inr)
        then obtain ex d1 e where s1: "insert_session now sid (a_id row) (hash_session_token sha token) ttl d = (Inr ex, d1)"
          and ev: "append_event now (auth_event ''login_success'' (Some (a_id row)) (a_id row))
            (snd (update_admin (a_id row) (\<lambda>a. a\<lparr>a_last_login := Some now\<rparr>) d1)) = (Inr e, d')"
          and x: "\<exists>s. x = Some s \<and> cs_token s = token"
          by (auto simp: dbind_Inr [OF snd_update_admin] elim!: dbind_InrE)
        from s1 have "\<exists>y. t_sessions (tabs d1) = t_sessions (tabs d) @ [y] \<and> s_hash y = hash_session_token sha token"
          by (auto simp: insert_session_def Let_def split: if_splits)
        with audit_sessions [OF ev] have "\<exists>y. t_sessions (tabs d') = t_sessions (tabs d) @ [y] \<and> s_hash y = hash_session_token sha token"
          by (simp add: update_admin_def)
        with ok x Inr row True show ?thesis by auto
      qed
    qed
  qed
qed

text \<open>C28. The login keeps its promise for every request, in every state of throttle and database.\<close>

theorem login_outcome:
  "login_spec cfg cf sha verify t1 token rq username password fl d
     (login cfg cf sha verify per_second (t1, t2, t3) up now sid token ttl rq username password next_path (fl, d))"
proof -
  let ?key = "cf (take 64 (strip username))"
  obtain w fl0 where w: "retry_after cfg cf t1 (client_ip rq) ?key fl = (w, fl0)" by fastforce
  show ?thesis
  proof (cases "w > 0")
    case True
    with w show ?thesis
      by (simp add: login_def login_spec_def Let_def reserve_attempt_def safe_next_inside record_login_failure_def)
  next
    case False
    obtain r1 fl1 where f: "register_failure cfg cf t2 t3 (client_ip rq) ?key fl0 = (r1, fl1)" by fastforce
    show ?thesis
    proof (cases r1)
      case (Inl e)
      with w f False show ?thesis by (simp add: login_def login_spec_def Let_def reserve_attempt_def)
    next
      case (Inr wait)
      obtain r2 d2 where c: "create_authenticated_session sha verify now sid token username password ttl d = (r2, d2)" by fastforce
      note cc = create_session_cases [OF c]
      show ?thesis
      proof (cases r2)
        case (Inl e)
        with w f Inr False c cc show ?thesis by (simp add: login_def login_spec_def Let_def reserve_attempt_def)
      next
        case ok: (Inr s)
        show ?thesis
        proof (cases s)
          case None
          with w f Inr False c cc ok show ?thesis
            by (simp add: login_def login_spec_def Let_def reserve_attempt_def safe_next_inside record_login_failure_def)
        next
          case (Some cs)
          have "inside_admin (u ''/admin/change-password'')" by (simp add: inside_admin_def starts_with_def)
          with w f Inr False c cc ok Some show ?thesis
            by (simp add: login_def login_spec_def Let_def reserve_attempt_def safe_next_inside register_success_def del: u_Cons)
        qed
      qed
    qed
  qed
qed

end
