(* ===== verification/Qr_Label.thy ===== *)
theory Qr_Label
  imports Product_Service
begin

text \<open>
  \<open>domains/qrcode/service.py\<close>: the payload of a QR code, the geometry of the image, the wrapping of the
  product name under it, and the cache of finished images.

  The QR encoder (\<open>encode\<close>), the font metrics (\<open>width\<close>, the width of a text at a font size;
  \<open>line_height\<close>) and the final drawing and PNG encoding (\<open>render\<close>) are third-party code, and so is
  the reading of a PNG (\<open>readable\<close>). A cache is a map from codes to file contents.
\<close>

section \<open>Constants and payload\<close>

definition QR_IMAGE_SIZE :: nat where "QR_IMAGE_SIZE = 1024"
definition QR_LABEL_HEIGHT :: nat where "QR_LABEL_HEIGHT = 256"
definition QR_CANVAS_HEIGHT :: nat where "QR_CANVAS_HEIGHT = QR_IMAGE_SIZE + QR_LABEL_HEIGHT"
definition QR_BORDER_MODULES :: nat where "QR_BORDER_MODULES = 4"
definition QR_LABEL_HORIZONTAL_PADDING :: nat where "QR_LABEL_HORIZONTAL_PADDING = 40"
definition QR_LABEL_VERTICAL_PADDING :: nat where "QR_LABEL_VERTICAL_PADDING = 20"
definition QR_LABEL_MAX_FONT_SIZE :: nat where "QR_LABEL_MAX_FONT_SIZE = 64"
definition QR_LABEL_MIN_FONT_SIZE :: nat where "QR_LABEL_MIN_FONT_SIZE = 24"
definition QR_LABEL_LINE_SPACING :: nat where "QR_LABEL_LINE_SPACING = 8"

abbreviation qr_error :: exc where
  "qr_error \<equiv> AppError ''qrcode_generation_failed'' 422"

definition public_url :: "ustr \<Rightarrow> ustr \<Rightarrow> ustr" where
  "public_url public_base_url public_token = rstrip_char 47 public_base_url @ u ''/p/'' @ public_token"

section \<open>Geometry\<close>

text \<open>A rectangle of black pixels, both corners inclusive: \<open>(x0, y0, x1, y1)\<close>.\<close>

type_synonym rect = "int \<times> int \<times> int \<times> int"

definition module_start :: "nat \<Rightarrow> nat \<Rightarrow> int" where
  "module_start module_count i = int (((i + QR_BORDER_MODULES) * QR_IMAGE_SIZE) div module_count)"

definition module_end :: "nat \<Rightarrow> nat \<Rightarrow> int" where
  "module_end module_count i = int (((i + QR_BORDER_MODULES + 1) * QR_IMAGE_SIZE) div module_count) - 1"

definition module_rects :: "bool list list \<Rightarrow> rect list" where
  "module_rects matrix =
     (let module_count = length matrix + 2 * QR_BORDER_MODULES
      in concat (map (\<lambda>(r, row). concat (map (\<lambda>(c, is_dark).
           if is_dark then [(module_start module_count c, module_start module_count r,
                             module_end module_count c, module_end module_count r)]
           else []) (enumerate 0 row))) (enumerate 0 matrix)))"

definition square_matrix :: "bool list list \<Rightarrow> bool" where
  "square_matrix matrix \<longleftrightarrow> matrix \<noteq> [] \<and> list_all (\<lambda>row. length row = length matrix) matrix"

section \<open>The label\<close>

text \<open>The loop of \<open>_wrap_product_name\<close>: the finished lines and the current one.\<close>

fun wrap_loop :: "(ustr \<Rightarrow> nat) \<Rightarrow> nat \<Rightarrow> ustr list \<Rightarrow> ustr \<Rightarrow> ustr \<Rightarrow> ustr list res" where
  "wrap_loop width maximum_width lines current [] = Inr (if current \<noteq> [] then lines @ [current] else lines)"
| "wrap_loop width maximum_width lines current (c # cs) =
     (let candidate = current @ [c];
          breaks = (current \<noteq> [] \<and> width candidate > maximum_width);
          lines1 = (if breaks then lines @ [current] else lines);
          current1 = (if breaks then [c] else candidate)
      in if width current1 > maximum_width then Inl qr_error
         else wrap_loop width maximum_width lines1 current1 cs)"

definition wrap_product_name :: "(ustr \<Rightarrow> nat) \<Rightarrow> nat \<Rightarrow> ustr \<Rightarrow> ustr list res" where
  "wrap_product_name width maximum_width product_name = wrap_loop width maximum_width [] [] product_name"

text \<open>\<open>range(64, 23, -2)\<close>.\<close>

definition font_sizes :: "nat list" where
  "font_sizes = map (\<lambda>k. QR_LABEL_MAX_FONT_SIZE - 2 * k) [0..<(QR_LABEL_MAX_FONT_SIZE - QR_LABEL_MIN_FONT_SIZE) div 2 + 1]"

definition label_height :: "nat \<Rightarrow> nat \<Rightarrow> int" where
  "label_height line_height n = int line_height * int n + int QR_LABEL_LINE_SPACING * (int n - 1)"

fun fit_sizes :: "(nat \<Rightarrow> ustr \<Rightarrow> nat) \<Rightarrow> (nat \<Rightarrow> nat) \<Rightarrow> ustr \<Rightarrow> nat list \<Rightarrow> (nat \<times> ustr list) res" where
  "fit_sizes width line_height name [] = Inl qr_error"
| "fit_sizes width line_height name (fsz # sizes) =
     (case wrap_product_name (width fsz) (QR_IMAGE_SIZE - 2 * QR_LABEL_HORIZONTAL_PADDING) name of
        Inl e \<Rightarrow> Inl e
      | Inr lines \<Rightarrow>
          if label_height (line_height fsz) (length lines) \<le> int (QR_LABEL_HEIGHT - 2 * QR_LABEL_VERTICAL_PADDING)
            then Inr (fsz, lines)
          else fit_sizes width line_height name sizes)"

definition fit_product_name :: "(nat \<Rightarrow> ustr \<Rightarrow> nat) \<Rightarrow> (nat \<Rightarrow> nat) \<Rightarrow> ustr \<Rightarrow> (nat \<times> ustr list) res" where
  "fit_product_name width line_height name = fit_sizes width line_height name font_sizes"

text \<open>The vertical positions of the lines, and the end of the last one.\<close>

fun line_positions :: "int \<Rightarrow> nat \<Rightarrow> ustr list \<Rightarrow> int list" where
  "line_positions y line_height [] = []"
| "line_positions y line_height (l # ls) = y # line_positions (y + int line_height + int QR_LABEL_LINE_SPACING) line_height ls"

definition label_top :: "nat \<Rightarrow> ustr list \<Rightarrow> int" where
  "label_top line_height lines = int QR_IMAGE_SIZE + (int QR_LABEL_HEIGHT - label_height line_height (length lines)) div 2"

section \<open>Generation\<close>

text \<open>
  \<open>generate\<close>: an unexpected exception of the encoder or the drawing (\<open>None\<close>) is reported as a
  generation error.
\<close>

definition generate ::
    "(ustr \<Rightarrow> bool list list option) \<Rightarrow> (nat \<Rightarrow> ustr \<Rightarrow> nat) \<Rightarrow> (nat \<Rightarrow> nat)
     \<Rightarrow> (rect list \<Rightarrow> nat \<Rightarrow> (int \<times> ustr) list \<Rightarrow> nat list option) \<Rightarrow> ustr \<Rightarrow> ustr \<Rightarrow> ustr \<Rightarrow> ustr \<Rightarrow> nat list res" where
  "generate encode width line_height render base code public_token product_name =
     (if \<not> is_normalized_product_code code then Inl qr_error
      else
        let normalized_name = strip product_name
        in if normalized_name = [] \<or> length normalized_name > 120 then Inl qr_error
           else
             (case encode (public_url base public_token) of
                None \<Rightarrow> Inl qr_error
              | Some matrix \<Rightarrow>
                  if \<not> square_matrix matrix then Inl qr_error
                  else
                    (case fit_product_name width line_height normalized_name of
                       Inl e \<Rightarrow> Inl qr_error
                     | Inr (font_size, lines) \<Rightarrow>
                         (case render (module_rects matrix) font_size
                                 (zip (line_positions (label_top (line_height font_size) lines) (line_height font_size) lines) lines) of
                            None \<Rightarrow> Inl qr_error
                          | Some png \<Rightarrow> Inr png))))"

section \<open>The cache\<close>

record qr_result =
  qr_bytes :: "nat list"
  qr_hit :: bool
  qr_cache_error :: "string option"

type_synonym qr_cache = "ustr \<Rightarrow> nat list option"

definition read_current_cache :: "(nat list \<Rightarrow> bool) \<Rightarrow> ustr \<Rightarrow> qr_cache \<Rightarrow> nat list option" where
  "read_current_cache readable code cache =
     (case cache code of None \<Rightarrow> None | Some png \<Rightarrow> if readable png then Some png else None)"

text \<open>
  \<open>_write_cache_atomically\<close>: a temporary file, renamed over the target; \<open>fault\<close> is the name of the
  \<open>OSError\<close> that one of its calls raises.
\<close>

definition write_cache_atomically :: "string option \<Rightarrow> ustr \<Rightarrow> nat list \<Rightarrow> qr_cache \<Rightarrow> string option \<times> qr_cache" where
  "write_cache_atomically fault code image_bytes cache =
     (case fault of Some e \<Rightarrow> (Some e, cache) | None \<Rightarrow> (None, cache(code \<mapsto> image_bytes)))"

text \<open>
  \<open>get_or_generate\<close>. The cache may change between the first look and the acquired lock: \<open>first\<close> is
  what the first look sees, \<open>cache\<close> the state under the lock.
\<close>

definition get_or_generate ::
    "(nat list \<Rightarrow> bool) \<Rightarrow> nat list res \<Rightarrow> string option \<Rightarrow> ustr \<Rightarrow> qr_cache \<Rightarrow> qr_cache \<Rightarrow> qr_result res \<times> qr_cache" where
  "get_or_generate readable generated fault code first cache =
     (case read_current_cache readable code first of
        Some png \<Rightarrow> (Inr \<lparr>qr_bytes = png, qr_hit = True, qr_cache_error = None\<rparr>, cache)
      | None \<Rightarrow>
          (case generated of
             Inl e \<Rightarrow> (Inl e, cache)
           | Inr image_bytes \<Rightarrow>
               (case read_current_cache readable code cache of
                  Some png \<Rightarrow> (Inr \<lparr>qr_bytes = png, qr_hit = True, qr_cache_error = None\<rparr>, cache)
                | None \<Rightarrow>
                    (case write_cache_atomically fault code image_bytes cache of
                       (e, cache1) \<Rightarrow> (Inr \<lparr>qr_bytes = image_bytes, qr_hit = False, qr_cache_error = e\<rparr>, cache1)))))"

section \<open>Lemmas\<close>

lemma module_start_next: "module_start n (Suc i) = module_end n i + 1"
  by (simp add: module_start_def module_end_def)

lemma module_bounds:
  assumes "n = k + 2 * QR_BORDER_MODULES" "i < k"
  shows "0 \<le> module_start n i" "module_end n i < int QR_IMAGE_SIZE"
proof -
  have "(i + QR_BORDER_MODULES + 1) * QR_IMAGE_SIZE \<le> n * QR_IMAGE_SIZE"
    using assms by (intro mult_le_mono1) (simp add: QR_BORDER_MODULES_def)
  then have "(i + QR_BORDER_MODULES + 1) * QR_IMAGE_SIZE div n \<le> n * QR_IMAGE_SIZE div n"
    by (rule div_le_mono)
  also have "n * QR_IMAGE_SIZE div n = QR_IMAGE_SIZE"
    using assms by (simp add: QR_BORDER_MODULES_def)
  finally show "module_end n i < int QR_IMAGE_SIZE" unfolding module_end_def by linarith
qed (simp add: module_start_def)

lemma module_nonempty:
  assumes "0 < n" "n \<le> QR_IMAGE_SIZE"
  shows "module_start n i \<le> module_end n i"
proof -
  have "(i + QR_BORDER_MODULES) * QR_IMAGE_SIZE + n \<le> (i + QR_BORDER_MODULES + 1) * QR_IMAGE_SIZE"
    using assms by simp
  then have "((i + QR_BORDER_MODULES) * QR_IMAGE_SIZE + n) div n \<le> (i + QR_BORDER_MODULES + 1) * QR_IMAGE_SIZE div n"
    by (rule div_le_mono)
  moreover have "((i + QR_BORDER_MODULES) * QR_IMAGE_SIZE + n) div n = (i + QR_BORDER_MODULES) * QR_IMAGE_SIZE div n + 1"
    by (rule div_add_self2) (use assms in simp)
  ultimately show ?thesis unfolding module_start_def module_end_def by linarith
qed

lemma module_start_mono: "i \<le> j \<Longrightarrow> module_start n i \<le> module_start n j"
  unfolding module_start_def by (intro of_nat_mono div_le_mono mult_le_mono1) simp

lemma module_disjoint: "i < j \<Longrightarrow> module_end n i < module_start n j"
  using module_start_mono [of "Suc i" j n] module_start_next [of n i] by simp

lemma wrap_loop_ok:
  assumes "wrap_loop width m lines current cs = Inr out"
    and "list_all (\<lambda>l. l \<noteq> [] \<and> width l \<le> m) lines" "current \<noteq> [] \<Longrightarrow> width current \<le> m"
  shows "concat out = concat lines @ current @ cs \<and> list_all (\<lambda>l. l \<noteq> [] \<and> width l \<le> m) out"
  using assms
proof (induction cs arbitrary: lines current)
  case Nil
  then show ?case by (auto split: if_splits)
next
  case (Cons c cs)
  define breaks where "breaks \<longleftrightarrow> current \<noteq> [] \<and> width (current @ [c]) > m"
  let ?lines = "if breaks then lines @ [current] else lines" and ?cur = "if breaks then [c] else current @ [c]"
  from Cons.prems(1) have rest: "wrap_loop width m ?lines ?cur cs = Inr out" and w: "width ?cur \<le> m"
    by (simp_all add: Let_def breaks_def [symmetric] split: if_splits)
  have "list_all (\<lambda>l. l \<noteq> [] \<and> width l \<le> m) ?lines"
    using Cons.prems(2,3) by (auto simp: breaks_def)
  from Cons.IH [OF rest this] w show ?case by (auto split: if_splits)
qed

lemma fit_sizes_ok:
  "fit_sizes width line_height name sizes = Inr (fsz, lines) \<Longrightarrow>
     fsz \<in> set sizes \<and> concat lines = name \<and> list_all (\<lambda>l. l \<noteq> [] \<and> width fsz l \<le> 944) lines
     \<and> label_height (line_height fsz) (length lines) \<le> 216"
proof (induction sizes)
  case (Cons s sizes)
  from Cons.prems obtain ls where w: "wrap_product_name (width s) 944 name = Inr ls"
    by (auto simp: QR_IMAGE_SIZE_def QR_LABEL_HORIZONTAL_PADDING_def split: sum.splits)
  then have ok: "concat ls = name" "list_all (\<lambda>l. l \<noteq> [] \<and> width s l \<le> 944) ls"
    using wrap_loop_ok [of "width s" 944 "[]" "[]" name ls] by (simp_all add: wrap_product_name_def)
  show ?case
  proof (cases "label_height (line_height s) (length ls) \<le> 216")
    case True
    with Cons.prems w ok show ?thesis
      by (auto simp: QR_IMAGE_SIZE_def QR_LABEL_HORIZONTAL_PADDING_def QR_LABEL_HEIGHT_def QR_LABEL_VERTICAL_PADDING_def)
  next
    case False
    with Cons.prems w have "fit_sizes width line_height name sizes = Inr (fsz, lines)"
      by (auto simp: QR_IMAGE_SIZE_def QR_LABEL_HORIZONTAL_PADDING_def QR_LABEL_HEIGHT_def QR_LABEL_VERTICAL_PADDING_def)
    with Cons.IH show ?thesis by simp
  qed
qed simp

lemma line_positions_bounds:
  "y' \<in> set (line_positions y h ls) \<Longrightarrow> y \<le> y' \<and> y' + int h \<le> y + label_height h (length ls)"
proof (induction ls arbitrary: y)
  case (Cons l ls)
  have step: "label_height h (Suc (length ls)) = label_height h (length ls) + int h + int QR_LABEL_LINE_SPACING"
    by (simp add: label_height_def algebra_simps)
  show ?case
  proof (cases "y' = y")
    case True
    have "0 \<le> int (length ls) * (int h + int QR_LABEL_LINE_SPACING)" by simp
    with True show ?thesis by (simp add: label_height_def algebra_simps)
  next
    case False
    with Cons.prems have "y' \<in> set (line_positions (y + int h + int QR_LABEL_LINE_SPACING) h ls)" by simp
    from Cons.IH [OF this] step show ?thesis by simp
  qed
qed simp

section \<open>Properties\<close>

text \<open>
  The image is drawn right for every symbol that fits: with at most 1016 modules a side, the
  rectangles of the modules are non-empty, stay inside the 1024 pixel square and leave no gap and no
  overlap between neighbours, in both directions; and a label that is accepted contains the whole
  product name in order, in non-empty lines no wider than the area, every line inside the 256 pixel
  strip below the square.
\<close>

theorem label_layout:
  assumes "0 < k" "k + 2 * QR_BORDER_MODULES \<le> QR_IMAGE_SIZE"
    and "fit_product_name width line_height name = Inr (fsz, lines)"
  shows "(\<forall>i < k. 0 \<le> module_start (k + 2 * QR_BORDER_MODULES) i
            \<and> module_start (k + 2 * QR_BORDER_MODULES) i \<le> module_end (k + 2 * QR_BORDER_MODULES) i
            \<and> module_end (k + 2 * QR_BORDER_MODULES) i < int QR_IMAGE_SIZE
            \<and> module_start (k + 2 * QR_BORDER_MODULES) (Suc i) = module_end (k + 2 * QR_BORDER_MODULES) i + 1)
    \<and> concat lines = name \<and> fsz \<in> set font_sizes
    \<and> (\<forall>l \<in> set lines. l \<noteq> [] \<and> width fsz l \<le> QR_IMAGE_SIZE - 2 * QR_LABEL_HORIZONTAL_PADDING)
    \<and> (\<forall>y \<in> set (line_positions (label_top (line_height fsz) lines) (line_height fsz) lines).
          int QR_IMAGE_SIZE \<le> y \<and> y + int (line_height fsz) \<le> int QR_CANVAS_HEIGHT)"
proof -
  let ?n = "k + 2 * QR_BORDER_MODULES"
  note fit = fit_sizes_ok [OF assms(3) [unfolded fit_product_name_def]]
  have geo: "0 \<le> module_start ?n i \<and> module_start ?n i \<le> module_end ?n i
      \<and> module_end ?n i < int QR_IMAGE_SIZE \<and> module_start ?n (Suc i) = module_end ?n i + 1" if "i < k" for i
    using module_bounds [OF refl that] module_nonempty [of ?n i] assms(1,2) module_start_next [of ?n i] by simp
  let ?h = "label_height (line_height fsz) (length lines)"
  have "1024 \<le> label_top (line_height fsz) lines" "label_top (line_height fsz) lines + ?h \<le> 1280"
    using fit by (auto simp: label_top_def QR_IMAGE_SIZE_def QR_LABEL_HEIGHT_def)
  then have "1024 \<le> y \<and> y + int (line_height fsz) \<le> 1280"
    if "y \<in> set (line_positions (label_top (line_height fsz) lines) (line_height fsz) lines)" for y
    using line_positions_bounds [OF that] by linarith
  with geo fit show ?thesis
    by (simp add: list_all_iff QR_IMAGE_SIZE_def QR_LABEL_HORIZONTAL_PADDING_def QR_CANVAS_HEIGHT_def QR_LABEL_HEIGHT_def)
qed

text \<open>A font in which every character is ten units wide, whatever its size, and lines are thirty high.\<close>

lemma sample_fit: "fit_product_name (\<lambda>_ t. 10 * length t) (\<lambda>_. 30) (u ''Pump'') = Inr (64, [u ''Pump''])"
  by (simp add: fit_product_name_def font_sizes_def wrap_product_name_def Let_def upt_rec QR_LABEL_MAX_FONT_SIZE_def
      QR_LABEL_MIN_FONT_SIZE_def QR_IMAGE_SIZE_def QR_LABEL_HORIZONTAL_PADDING_def label_height_def
      QR_LABEL_HEIGHT_def QR_LABEL_VERTICAL_PADDING_def)

theorem label_layout_witness:
  "module_end (33 + 2 * QR_BORDER_MODULES) 32 < int QR_IMAGE_SIZE
    \<and> module_start (33 + 2 * QR_BORDER_MODULES) (Suc 32) = module_end (33 + 2 * QR_BORDER_MODULES) 32 + 1
    \<and> concat [u ''Pump''] = u ''Pump'' \<and> 64 \<in> set font_sizes
    \<and> int QR_IMAGE_SIZE \<le> hd (line_positions (label_top 30 [u ''Pump'']) 30 [u ''Pump''])"
proof -
  have "0 < (33::nat)" "33 + 2 * QR_BORDER_MODULES \<le> QR_IMAGE_SIZE" by (simp_all add: QR_BORDER_MODULES_def QR_IMAGE_SIZE_def)
  moreover have "line_positions (label_top 30 [u ''Pump'']) 30 [u ''Pump''] \<noteq> []" by simp
  then have "hd (line_positions (label_top 30 [u ''Pump'']) 30 [u ''Pump'']) \<in> set (line_positions (label_top 30 [u ''Pump'']) 30 [u ''Pump''])"
    by (rule hd_in_set)
  moreover note label_layout [OF _ _ sample_fit, of 33]
  ultimately have all: "\<forall>i < 33. module_end (33 + 2 * QR_BORDER_MODULES) i < int QR_IMAGE_SIZE
      \<and> module_start (33 + 2 * QR_BORDER_MODULES) (Suc i) = module_end (33 + 2 * QR_BORDER_MODULES) i + 1"
    and rest: "concat [u ''Pump''] = u ''Pump''" "64 \<in> set font_sizes"
      "int QR_IMAGE_SIZE \<le> hd (line_positions (label_top 30 [u ''Pump'']) 30 [u ''Pump''])"
    by blast+
  from all [rule_format, of 32] rest show ?thesis by simp
qed

end
