(* ===== verification/Product_Routes.thy ===== *)
theory Product_Routes
  imports App_System Qr_Label
begin

text \<open>
  The management endpoints that join several components: \<open>domains/product/router.py\<close> (creation with its
  QR pre-generation, download and retry, the PDF upload), \<open>domains/qrcode/router.py\<close> and
  \<open>domains/storage/router.py\<close>. The other endpoints of the product router pass one service call through.

  \<open>qr_env\<close> is the QR service: the image it generates for a code, a token and a name, what it accepts
  from the cache, the fault of the cache write and the cache as the first look sees it.
\<close>

record qr_env =
  qe_generate :: "ustr \<Rightarrow> ustr \<Rightarrow> ustr \<Rightarrow> nat list res"
  qe_readable :: "nat list \<Rightarrow> bool"
  qe_fault :: "string option"
  qe_first :: "qr_cache \<Rightarrow> qr_cache"

section \<open>QR codes of products\<close>

definition record_qrcode_outcome :: "bool \<Rightarrow> int \<Rightarrow> p_row \<Rightarrow> string \<Rightarrow> audit_result \<Rightarrow> string option \<Rightarrow> db \<Rightarrow> db" where
  "record_qrcode_outcome up now product action result reason d =
     snd (append_independent_event up now
       \<lparr>ev_action = action, ev_result = result, ev_actor_type = ''system'', ev_actor = None,
        ev_target_type = Some ''product'', ev_target = Some (p_id product), ev_code = Some (p_code product),
        ev_request = None, ev_detail = map_option (\<lambda>r. [(''reason'', DStr (u r))]) reason\<rparr> d)"

definition label_name :: "p_row \<Rightarrow> ustr" where
  "label_name product = (case p_name product of None \<Rightarrow> p_code product | Some n \<Rightarrow> if n = [] then p_code product else n)"

definition generate_with_audit ::
    "qr_env \<Rightarrow> bool \<Rightarrow> int \<Rightarrow> p_row \<Rightarrow> db \<times> qr_cache \<Rightarrow> qr_result res \<times> db \<times> qr_cache" where
  "generate_with_audit qe up now product s =
     (case s of (d, cache) \<Rightarrow>
        (case get_or_generate (qe_readable qe)
                (qe_generate qe (p_code product) (p_token product) (label_name product)) (qe_fault qe)
                (p_code product) (qe_first qe cache) cache of
           (Inl e, cache1) \<Rightarrow>
             (Inl e, (if e = qr_error then record_qrcode_outcome up now product ''qrcode_generation_failure'' Failure
                                             (Some ''qrcode_generation_failed'') d else d), cache1)
         | (Inr result, cache1) \<Rightarrow>
             (Inr result,
              (case qr_cache_error result of
                 None \<Rightarrow> d
               | Some err \<Rightarrow> record_qrcode_outcome up now product ''qrcode_cache_failure'' Failure (Some err) d),
              cache1)))"

record create_response =
  cr_product :: p_row
  cr_public_url :: ustr
  cr_qrcode_status :: string

text \<open>The request model: a code of at least one character, a name of 1 to 120.\<close>

definition valid_create_request :: "ustr \<Rightarrow> ustr \<Rightarrow> bool" where
  "valid_create_request code name \<longleftrightarrow> 1 \<le> length code \<and> 1 \<le> length name \<and> length name \<le> PRODUCT_NAME_MAX_LENGTH"

definition create_product_endpoint ::
    "qr_env \<Rightarrow> ustr \<Rightarrow> bool \<Rightarrow> int \<Rightarrow> (nat \<Rightarrow> nat list) \<Rightarrow> ustr \<Rightarrow> ustr \<Rightarrow> int \<Rightarrow> nat \<Rightarrow> db \<times> qr_cache
     \<Rightarrow> create_response res \<times> db \<times> qr_cache" where
  "create_product_endpoint qe base up now rnd code name actor req s =
     (case s of (d, cache) \<Rightarrow>
        (case create_product now rnd code name actor (Some req) d of
           (Inl e, d1) \<Rightarrow> (Inl e, d1, cache)
         | (Inr product, d1) \<Rightarrow>
             (case generate_with_audit qe up now product (d1, cache) of
                (Inl e, d2, cache2) \<Rightarrow>
                  if e = qr_error then
                    (Inr \<lparr>cr_product = product, cr_public_url = public_url base (p_token product),
                          cr_qrcode_status = ''generation_failed''\<rparr>, d2, cache2)
                  else (Inl e, d2, cache2)
              | (Inr result, d2, cache2) \<Rightarrow>
                  (Inr \<lparr>cr_product = product, cr_public_url = public_url base (p_token product),
                        cr_qrcode_status = (if qr_cache_error result = None then ''ready'' else ''ready_cache_degraded'')\<rparr>,
                   d2, cache2))))"

definition download_qrcode :: "qr_env \<Rightarrow> bool \<Rightarrow> int \<Rightarrow> int \<Rightarrow> db \<times> qr_cache \<Rightarrow> (nat list \<times> ustr) res \<times> db \<times> qr_cache" where
  "download_qrcode qe up now pid s =
     (case get_product pid (fst s) of
        Inl e \<Rightarrow> (Inl e, s)
      | Inr product \<Rightarrow>
          (case generate_with_audit qe up now product s of
             (Inl e, s1) \<Rightarrow> (Inl e, s1)
           | (Inr result, s1) \<Rightarrow> (Inr (qr_bytes result, p_code product @ u ''.png''), s1)))"

definition retry_qrcode :: "qr_env \<Rightarrow> bool \<Rightarrow> int \<Rightarrow> int \<Rightarrow> db \<times> qr_cache \<Rightarrow> bool res \<times> db \<times> qr_cache" where
  "retry_qrcode qe up now pid s =
     (case get_product pid (fst s) of
        Inl e \<Rightarrow> (Inl e, s)
      | Inr product \<Rightarrow>
          (case generate_with_audit qe up now product s of
             (Inl e, s1) \<Rightarrow> (Inl e, s1)
           | (Inr result, d1, cache1) \<Rightarrow>
               (Inr (qr_hit result),
                record_qrcode_outcome up now product ''qrcode_generation_recovered'' Success None d1, cache1)))"

section \<open>The failure report\<close>

record qr_failure =
  qf_product :: int
  qf_code :: ustr
  qf_reason :: "ustr option"

definition is_failure_event :: "e_row \<Rightarrow> bool" where
  "is_failure_event r \<longleftrightarrow> ev_action (e_event r) = ''qrcode_generation_failure'' \<and> ev_target_type (e_event r) = Some ''product''
     \<and> ev_target (e_event r) \<noteq> None \<and> ev_code (e_event r) \<noteq> None"

text \<open>\<open>SELECT DISTINCT ON (target_id) ... ORDER BY target_id, occurred_at DESC, id DESC\<close>.\<close>

definition failure_rows :: "db \<Rightarrow> e_row list" where
  "failure_rows d =
     (let rows = sort_key (\<lambda>r. (the (ev_target (e_event r)), - e_at r, - e_id r)) (filter is_failure_event (t_audit (tabs d)))
      in map (\<lambda>i. rows ! i) (filter (\<lambda>i. i = 0 \<or> ev_target (e_event (rows ! (i - 1))) \<noteq> ev_target (e_event (rows ! i)))
           [0..<length rows]))"

definition failure_reason :: "audit_event \<Rightarrow> ustr option" where
  "failure_reason e =
     (case ev_detail e of
        None \<Rightarrow> None
      | Some det \<Rightarrow> Some (case map_of det ''reason'' of Some (DStr s) \<Rightarrow> s | _ \<Rightarrow> u ''None''))"

definition report_qrcode_failures :: "db \<Rightarrow> qr_cache \<Rightarrow> qr_failure list" where
  "report_qrcode_failures d cache =
     map (\<lambda>r. \<lparr>qf_product = the (ev_target (e_event r)), qf_code = the (ev_code (e_event r)), qf_reason = failure_reason (e_event r)\<rparr>)
       (filter (\<lambda>r. cache (the (ev_code (e_event r))) = None) (failure_rows d))"

section \<open>The PDF upload\<close>

definition upload_pdf_endpoint ::
    "(octets \<Rightarrow> ustr) \<Rightarrow> int \<Rightarrow> nat \<Rightarrow> ustr option \<Rightarrow> ustr option \<Rightarrow> octets list \<Rightarrow> exc option \<Rightarrow> worker_outcome
     \<Rightarrow> (upload_point \<Rightarrow> exc option) \<Rightarrow> publish_env \<Rightarrow> bool \<Rightarrow> int \<Rightarrow> int \<Rightarrow> int \<Rightarrow> nat \<Rightarrow> world \<Rightarrow> pdf_version res \<times> world" where
  "upload_pdf_endpoint digest max_pdf_bytes tmp filename content_type chunks io worker faults pe up now pid actor req w =
     (case receive_and_validate digest max_pdf_bytes tmp filename content_type chunks io worker (w_store w) of
        (Inl (UploadRejected code stage status), st) \<Rightarrow>
          (Inl (UploadRejected code stage status),
           \<lparr>w_db = snd (record_upload_rejection up now pid actor code stage (Some req) (w_db w)), w_store = st\<rparr>)
      | (Inl e, st) \<Rightarrow> (Inl e, w\<lparr>w_store := st\<rparr>)
      | (Inr validated, st) \<Rightarrow> upload_pdf faults pe up now pid actor validated (Some req) (w\<lparr>w_store := st\<rparr>))"

text \<open>\<open>report_orphan_files\<close>.\<close>

definition report_orphan_files :: "world \<Rightarrow> orphan_file list" where
  "report_orphan_files w = find_orphans (map f_path (t_files (tabs (w_db w)))) (w_store w)"

section \<open>Lemmas\<close>

definition only_audit :: "db \<Rightarrow> db \<Rightarrow> bool" where
  "only_audit d d' \<longleftrightarrow> (\<exists>extra. tabs d' = (tabs d)\<lparr>t_audit := t_audit (tabs d) @ extra\<rparr>)"

lemma only_audit_refl [simp]: "only_audit d d"
  unfolding only_audit_def by (rule exI [of _ "[]"]) simp

lemma only_audit_event: "only_audit d (snd (append_independent_event up now e d))"
proof -
  have "append_independent_event up now e d = (b, d') \<Longrightarrow> tabs d' = tabs d
      \<or> tabs d' = (tabs d)\<lparr>t_audit := t_audit (tabs d) @ [\<lparr>e_id = q_audit (seqs d), e_at = now, e_event = e\<rparr>]\<rparr>" for b d'
    by (auto simp: append_independent_event_def transaction_def append_event_def Let_def split: if_splits)
  then show ?thesis
    unfolding only_audit_def by (metis (no_types) only_audit_def only_audit_refl prod.collapse)
qed

lemma only_audit_qrcode [simp]: "only_audit d (record_qrcode_outcome up now product action result reason d)"
  unfolding record_qrcode_outcome_def by (rule only_audit_event)

lemma generate_with_audit_tables:
  "generate_with_audit qe up now product (d, cache) = (r, d', cache') \<Longrightarrow> only_audit d d'
     \<and> (\<forall>code. code \<noteq> p_code product \<longrightarrow> cache' code = cache code)"
  by (auto simp: generate_with_audit_def get_or_generate_def write_cache_atomically_def
      split: prod.splits sum.splits option.splits if_splits)

lemma receive_tmp:
  assumes "receive_and_validate digest m t fn ct cs io w st = (r, st')" "map_of (st_tmp st) t = None"
  shows "case r of Inl _ \<Rightarrow> map_of (st_tmp st') t = None
     | Inr vu \<Rightarrow> vu_tmp vu = t \<and> upload_ok digest vu st' \<and> vu_sha vu = digest (the (map_of (st_tmp st') t))"
proof (cases r)
  case (Inl e)
  from receive_failed [OF assms(1) [unfolded Inl]] show ?thesis
    by (simp add: Inl map_of_drop_tmp)
next
  case (Inr vu)
  from receive_accepted [OF assms(1) [unfolded Inr]] obtain content where
    "vu = \<lparr>vu_tmp = t, vu_filename = (case fn of Some f \<Rightarrow> f | None \<Rightarrow> []), vu_size = int (length content),
           vu_sha = digest content\<rparr>" "st' = st\<lparr>st_tmp := st_tmp st @ [(t, content)]\<rparr>" by metis
  moreover have "map_of (st_tmp st @ [(t, content)]) t = Some content"
    using assms(2) by (simp add: map_add_def)
  ultimately show ?thesis by (simp add: Inr upload_ok_def)
qed


lemma store_drop [simp]: "st_files (drop_tmp t st) = st_files st"
  by (simp add: drop_tmp_def)

lemma generate_with_audit_cache:
  "generate_with_audit qe up now product (d, cache) = (Inr result, d', cache') \<Longrightarrow>
     (if qr_cache_error result = None then qe_first qe cache = cache \<longrightarrow> cache' (p_code product) \<noteq> None else cache' = cache)"
  "generate_with_audit qe up now product (d, cache) = (Inl e, d', cache') \<Longrightarrow> cache' = cache"
  by (auto simp: generate_with_audit_def get_or_generate_def write_cache_atomically_def read_current_cache_def
      split: prod.splits sum.splits option.splits if_splits)

text \<open>
  C20. Creating a product through the API. When the creation transaction committed, the product stays: whatever the
  QR service does (generate, fail to generate, fail to write its cache), the endpoint only adds audit rows
  to the tables the creation left, it touches no cached image but this product's own, and it answers 201 with the
  stored product, its public link, and a status that is \<open>ready\<close> only when its image is in the cache (as long as nobody else
  changes the cache meanwhile); another status leaves the cache as it was. Only a fault that is not a QR generation error escapes. When the creation itself failed, its error is answered
  and the QR cache is untouched.
\<close>

theorem create_endpoint_keeps_product:
  assumes created: "create_product now rnd code name actor (Some req) d = (r, d1)"
    and called: "create_product_endpoint qe base up now rnd code name actor req (d, cache) = (r', d2, cache2)"
  shows "case r of
      Inl e \<Rightarrow> r' = Inl e \<and> d2 = d1 \<and> cache2 = cache
    | Inr product \<Rightarrow>
        only_audit d1 d2 \<and> (\<forall>c. c \<noteq> p_code product \<longrightarrow> cache2 c = cache c)
        \<and> (case r' of
             Inl e \<Rightarrow> e \<noteq> qr_error
           | Inr resp \<Rightarrow> cr_product resp = product \<and> cr_public_url resp = public_url base (p_token product)
               \<and> cr_qrcode_status resp \<in> {''ready'', ''ready_cache_degraded'', ''generation_failed''}
               \<and> (cr_qrcode_status resp = ''ready'' \<and> qe_first qe cache = cache \<longrightarrow> cache2 (p_code product) \<noteq> None)
               \<and> (cr_qrcode_status resp \<noteq> ''ready'' \<longrightarrow> cache2 = cache))"
proof (cases r)
  case (Inl e)
  with assms show ?thesis by (simp add: create_product_endpoint_def)
next
  case (Inr product)
  obtain g d3 cache3 where g: "generate_with_audit qe up now product (d1, cache) = (g, d3, cache3)" by (metis prod.exhaust)
  note kept = generate_with_audit_tables [OF g] and call = called [unfolded create_product_endpoint_def]
  show ?thesis
  proof (cases g)
    case (Inl e)
    from kept call created Inr g [unfolded Inl] generate_with_audit_cache(2) [OF g [unfolded Inl]] show ?thesis
      by (auto split: if_splits)
  next
    case g': (Inr result)
    from kept call created Inr g [unfolded g'] generate_with_audit_cache(1) [OF g [unfolded g']] show ?thesis
      by (auto split: if_splits)
  qed
qed

text \<open>A creation whose image cannot be generated, and one for which it can.\<close>

definition sample_qr :: "nat list res \<Rightarrow> qr_env" where
  "sample_qr img = \<lparr>qe_generate = (\<lambda>_ _ _. img), qe_readable = (\<lambda>_. True), qe_fault = None, qe_first = id\<rparr>"


theorem create_endpoint_keeps_product_witness:
  "\<exists>pid d1 d2 cache2 resp.
     create_product_endpoint (sample_qr (Inr [1, 2])) (u ''http://x'') True 9 (\<lambda>_. replicate 16 7) (u ''AB-1'') (u ''Valve'') 1 3
       (empty_db, Map.empty) = (Inr resp, d2, cache2)
     \<and> tabs d1 = with_product (sample_valve pid)
         (creation_audit 9 1 (Some 3) (Some ''product_create'') (sample_valve pid) (q_audit (seqs empty_db))) (tabs empty_db)
     \<and> only_audit d1 d2 \<and> cr_product resp = sample_valve pid \<and> cr_qrcode_status resp = ''ready''
     \<and> cache2 (u ''AB-1'') \<noteq> None"
proof -
  obtain pid d where c:
    "create_product 9 (\<lambda>_. replicate 16 7) (u ''AB-1'') (u ''Valve'') 1 (Some 3) empty_db = (Inr (sample_valve pid), d)" and
    t: "tabs d = with_product (sample_valve pid)
      (creation_audit 9 1 (Some 3) (Some ''product_create'') (sample_valve pid) (q_audit (seqs empty_db))) (tabs empty_db)"
    by (rule sample_creation [of "Some 3"])
  have call: "create_product_endpoint (sample_qr (Inr [1, 2])) (u ''http://x'') True 9 (\<lambda>_. replicate 16 7) (u ''AB-1'') (u ''Valve'') 1 3
      (empty_db, Map.empty) =
      (Inr \<lparr>cr_product = sample_valve pid, cr_public_url = public_url (u ''http://x'') (p_token (sample_valve pid)),
            cr_qrcode_status = ''ready''\<rparr>, d, [u ''AB-1'' \<mapsto> [1, 2]])"
    by (simp add: create_product_endpoint_def c generate_with_audit_def sample_qr_def get_or_generate_def
        read_current_cache_def write_cache_atomically_def new_product_def del: u_Cons)
  have "only_audit d d" "cr_product \<lparr>cr_product = sample_valve pid, cr_public_url = public_url (u ''http://x'')
      (p_token (sample_valve pid)), cr_qrcode_status = ''ready''\<rparr> = sample_valve pid"
    using create_endpoint_keeps_product [OF c call] by simp_all
  with t call show ?thesis by fastforce
qed

lemma only_audit_refused: "upload_refused up uf now pid vu w e w' \<Longrightarrow> only_audit (w_db w) (w_db w')"
  unfolding upload_refused_def only_audit_def by (elim conjE exE) (rule exI)




end
