(* ===== verification/Json.thy ===== *)
theory Json
  imports Py_Prelude
begin

text \<open>
  JSON documents as the operational scripts handle them, i.e. as the Python values \<open>json.loads\<close>
  returns: \<open>dict.get\<close>, truth, equality, hashability, and the key-sorted form behind \<open>canonical_json\<close>.
  Numbers with a fraction or an exponent are not represented: no record of the scripts has one.
  A dictionary is its list of items; two dictionaries are equal when they have the same items, in any order.
\<close>

section \<open>Values\<close>

datatype json = JNull | JBool bool | JInt int | JStr ustr | JArr "json list" | JObj "(ustr \<times> json) list"

type_synonym jobj = "(ustr \<times> json) list"

text \<open>\<open>d.get(key)\<close>; an absent key reads as \<open>None\<close>, like the value \<open>null\<close>.\<close>

definition jget :: "jobj \<Rightarrow> string \<Rightarrow> json" where
  "jget d k = (case map_of d (u k) of None \<Rightarrow> JNull | Some v \<Rightarrow> v)"

text \<open>\<open>set(d) == {...}\<close>.\<close>

definition keys_are :: "jobj \<Rightarrow> string list \<Rightarrow> bool" where
  "keys_are d names \<longleftrightarrow> list_all (\<lambda>k. k \<in> set (map u names)) (map fst d) \<and> list_all (\<lambda>k. k \<in> set (map fst d)) (map u names)"

fun is_obj :: "json \<Rightarrow> bool" where
  "is_obj (JObj _) = True"
| "is_obj _ = False"

fun is_str :: "json \<Rightarrow> bool" where
  "is_str (JStr _) = True"
| "is_str _ = False"

fun is_bool :: "json \<Rightarrow> bool" where
  "is_bool (JBool _) = True"
| "is_bool _ = False"

fun is_arr :: "json \<Rightarrow> bool" where
  "is_arr (JArr _) = True"
| "is_arr _ = False"

fun items :: "json \<Rightarrow> jobj" where
  "items (JObj d) = d"
| "items _ = []"

fun elems :: "json \<Rightarrow> json list" where
  "elems (JArr xs) = xs"
| "elems _ = []"

fun text_of :: "json \<Rightarrow> ustr" where
  "text_of (JStr s) = s"
| "text_of _ = []"

text \<open>A Boolean is an integer in Python.\<close>

fun int_of :: "json \<Rightarrow> int option" where
  "int_of (JInt n) = Some n"
| "int_of (JBool b) = Some (of_bool b)"
| "int_of _ = None"

fun truthy :: "json \<Rightarrow> bool" where
  "truthy JNull = False"
| "truthy (JBool b) = b"
| "truthy (JInt n) = (n \<noteq> 0)"
| "truthy (JStr s) = (s \<noteq> [])"
| "truthy (JArr xs) = (xs \<noteq> [])"
| "truthy (JObj d) = (d \<noteq> [])"

text \<open>What may be looked up in a set: \<open>x in {...}\<close> raises \<open>TypeError\<close> on a list or a dictionary.\<close>

fun hashable :: "json \<Rightarrow> bool" where
  "hashable (JArr _) = False"
| "hashable (JObj _) = False"
| "hashable _ = True"

section \<open>Equality\<close>

fun py_eq :: "json \<Rightarrow> json \<Rightarrow> bool" where
  "py_eq JNull w = (w = JNull)"
| "py_eq (JBool b) w = (int_of w = Some (of_bool b))"
| "py_eq (JInt n) w = (int_of w = Some n)"
| "py_eq (JStr s) w = (w = JStr s)"
| "py_eq (JArr xs) w = (case w of JArr ys \<Rightarrow> list_all2 py_eq xs ys | _ \<Rightarrow> False)"
| "py_eq (JObj d) w = (case w of JObj e \<Rightarrow> list_all (\<lambda>k. k \<in> set (map fst d)) (map fst e)
     \<and> list_all (\<lambda>kv. case map_of e (fst kv) of None \<Rightarrow> False | Some v \<Rightarrow> py_eq (snd kv) v) d | _ \<Rightarrow> False)"

section \<open>The canonical form\<close>

text \<open>\<open>sort_keys=True\<close>, at every level.\<close>

fun canonical :: "json \<Rightarrow> json" where
  "canonical (JArr xs) = JArr (map canonical xs)"
| "canonical (JObj d) = JObj (sort_key fst (map (\<lambda>kv. (fst kv, canonical (snd kv))) d))"
| "canonical v = v"


section \<open>Lemmas\<close>

lemma py_eq_text [simp]: "py_eq w (JStr s) \<longleftrightarrow> w = JStr s"
  by (cases w) auto

lemma keys_areD: "keys_are d names \<Longrightarrow> k \<in> set names \<Longrightarrow> \<exists>v. map_of d (u k) = Some v"
  by (fastforce simp: keys_are_def list_all_iff map_of_eq_None_iff [symmetric] dest: weak_map_of_SomeI)

text \<open>No dictionary has a key twice.\<close>

fun json_wf :: "json \<Rightarrow> bool" where
  "json_wf (JArr xs) = list_all json_wf xs"
| "json_wf (JObj d) = (distinct (map fst d) \<and> list_all (\<lambda>kv. json_wf (snd kv)) d)"
| "json_wf v = True"

definition obj_wf :: "jobj \<Rightarrow> bool" where
  "obj_wf d \<longleftrightarrow> json_wf (JObj d)"

lemma map_sort_key: "map f (sort_key f xs) = sort (map f xs)"
proof -
  have "map f (insort_key f x ys) = insort (f x) (map f ys)" for x ys
    by (induction ys) auto
  then show ?thesis by (induction xs) auto
qed

lemma map_of_filter_key: "map_of (filter (\<lambda>y. fst y = k) xs) k = map_of xs k"
  by (induction xs) auto

text \<open>Sorting by key is stable, so a lookup finds the same item.\<close>

lemma map_of_sort_key [simp]: "map_of (sort_key fst xs) = map_of xs"
proof
  fix k
  have "map_of (sort_key fst xs) k = map_of (filter (\<lambda>y. fst y = k) (sort_key fst xs)) k"
    by (simp only: map_of_filter_key)
  also have "filter (\<lambda>y. fst y = k) (sort_key fst xs) = filter (\<lambda>y. fst y = k) xs"
    by (rule sort_key_stable)
  finally show "map_of (sort_key fst xs) k = map_of xs k" by (simp only: map_of_filter_key)
qed

lemma map_of_canonical: "map_of (items (canonical (JObj d))) k = map_option canonical (map_of d k)"
proof -
  have "map_of (map (\<lambda>kv. (fst kv, canonical (snd kv))) d) k = map_option canonical (map_of d k)"
    by (induction d) auto
  then show ?thesis by simp
qed

lemma canonical_eq_JNull [simp]: "canonical v = JNull \<longleftrightarrow> v = JNull"
  by (cases v) auto

lemma jget_canonical [simp]: "jget (items (canonical (JObj d))) k = canonical (jget d k)"
  by (simp add: jget_def map_of_canonical del: canonical.simps(2) split: option.splits)

lemma jget_sorted [simp]: "jget (sort_key fst (map (\<lambda>kv. (fst kv, canonical (snd kv))) d)) k = canonical (jget d k)"
  using jget_canonical [of d k] by simp

lemma keys_canonical [simp]: "keys_are (items (canonical (JObj d))) names = keys_are d names"
  by (simp add: keys_are_def list_all_iff image_image)

lemma canonical_shape [simp]:
  "is_obj (canonical v) = is_obj v" "is_arr (canonical v) = is_arr v" "is_str (canonical v) = is_str v"
  "is_bool (canonical v) = is_bool v" "text_of (canonical v) = text_of v" "int_of (canonical v) = int_of v"
  "elems (canonical v) = map canonical (elems v)"
  by (cases v; simp)+

lemma canonical_atom [simp]:
  "canonical v = JStr s \<longleftrightarrow> v = JStr s" "canonical v = JBool b \<longleftrightarrow> v = JBool b" "canonical v = JInt n \<longleftrightarrow> v = JInt n"
  by (cases v; simp)+

lemma jget_items_canonical [simp]: "jget (items (canonical v)) k = canonical (jget (items v) k)"
proof (cases v)
  case (JObj d)
  then show ?thesis by (simp only: jget_canonical items.simps)
qed (simp_all add: jget_def)

lemma keys_items_canonical [simp]: "keys_are (items (canonical v)) names = keys_are (items v) names"
  by (cases v) (simp_all add: keys_are_def list_all_iff image_image)

lemma canonical_wf: "json_wf v \<Longrightarrow> json_wf (canonical v)"
proof (induction v rule: canonical.induct)
  case (2 d)
  then have "distinct (map fst (sort_key fst (map (\<lambda>kv. (fst kv, canonical (snd kv))) d)))"
    by (simp add: map_sort_key comp_def)
  with 2 show ?case by (auto simp: list_all_iff)
qed (auto simp: list_all_iff)

lemma sort_key_sorted: "sorted (map f xs) \<Longrightarrow> sort_key f xs = xs"
  by (induction xs) (auto simp: insort_is_Cons)

lemma canonical_idem [simp]: "canonical (canonical v) = canonical v"
proof (induction v rule: canonical.induct)
  case (2 d)
  let ?e = "map (\<lambda>kv. (fst kv, canonical (snd kv))) d"
  have "map (\<lambda>kv. (fst kv, canonical (snd kv))) (sort_key fst ?e) = sort_key fst ?e"
    using 2 by (intro map_idI) auto
  then show ?case by (simp add: sort_key_sorted)
qed auto

text \<open>Assignment to a key.\<close>

definition jset :: "string \<Rightarrow> json \<Rightarrow> jobj \<Rightarrow> jobj" where
  "jset k v d = (if u k \<in> set (map fst d) then map (\<lambda>kv. if fst kv = u k then (fst kv, v) else kv) d else d @ [(u k, v)])"

lemma map_of_replace:
  "map_of (map (\<lambda>kv. if fst kv = a then (fst kv, v) else kv) d) b = (if b = a \<and> map_of d a \<noteq> None then Some v else map_of d b)"
  by (induction d) auto

lemma jget_jset [simp]: "jget (jset k v d) k' = (if k' = k then v else jget d k')"
proof (cases "u k \<in> fst ` set d")
  case True
  then have "map_of d (u k) \<noteq> None" by (simp add: map_of_eq_None_iff)
  with True show ?thesis by (simp add: jget_def jset_def map_of_replace)
next
  case False
  then have "map_of d (u k) = None" by (simp add: map_of_eq_None_iff)
  with False show ?thesis by (simp add: jget_def jset_def map_add_def split: option.splits)
qed

lemma jset_fst [simp]: "map fst (jset k v d) = (if u k \<in> set (map fst d) then map fst d else map fst d @ [u k])"
  by (auto simp: jset_def)

lemma jset_distinct: "distinct (map fst d) \<Longrightarrow> distinct (map fst (jset k v d))"
  by simp

lemma jget_Cons: "jget ((a, v) # d) k = (if a = u k then v else jget d k)"
  by (simp add: jget_def)

lemma keys_are_jset: "keys_are d names \<Longrightarrow> k \<in> set names \<Longrightarrow> keys_are (jset k v d) names"
proof -
  have set_iff: "keys_are e names \<longleftrightarrow> set (map fst e) = u ` set names" for e
    by (auto simp: keys_are_def list_all_iff)
  assume "keys_are d names" "k \<in> set names"
  then show ?thesis unfolding set_iff jset_fst by auto
qed

text \<open>\<open>d.pop(key, None)\<close>.\<close>

definition without :: "string \<Rightarrow> jobj \<Rightarrow> jobj" where
  "without k d = filter (\<lambda>kv. fst kv \<noteq> u k) d"

lemma without_append [simp]: "without k (xs @ ys) = without k xs @ without k ys"
  by (simp add: without_def)

lemma without_same [simp]: "without k (without k d) = without k d" "without k [(u k, v)] = []"
  by (simp_all add: without_def)

lemma jget_without [simp]: "k' \<noteq> k \<Longrightarrow> jget (without k d) k' = jget d k'"
  by (induction d) (auto simp: without_def jget_def)

lemma jget_snoc: "k \<noteq> a \<Longrightarrow> jget (xs @ [(u a, v)]) k = jget xs k"
  by (auto simp: jget_def map_add_def simp del: u_Cons split: option.splits)

lemma without_canonical: "without k (items (canonical (JObj d))) = items (canonical (JObj (without k d)))"
  by (simp add: without_def filter_sort filter_map comp_def)

end
