(* ===== verification/Rb_Base.thy ===== *)
theory Rb_Base
  imports Json
begin

text \<open>
  The ground of \<open>scripts/deploy_rollback/model.py\<close>: its errors as values, runs of checks, the texts its
  regular expressions accept, its one timestamp format, the digests, and the files
  its records live in.

  The digest, the JSON text of a document and the two Unicode tables the module reaches through
  \<open>hashlib\<close>, \<open>json\<close>, \<open>str.lower\<close> and \<open>re\<close> are the fields of \<open>rb_env\<close>.
\<close>

section \<open>Errors and checks\<close>

text \<open>
  \<open>Killed\<close> stands for the end of the process inside a call: no handler runs.
  \<open>HostError\<close> is any other exception of a host command.
\<close>

datatype rexc = RollbackSafetyError string | RollbackDecisionRequired | JSONDecodeError | UnicodeDecodeError | PyTypeError
  | PyKeyError | PyOSError | HostError nat | Killed

fun is_safety :: "rexc \<Rightarrow> bool" where
  "is_safety (RollbackSafetyError _) = True"
| "is_safety RollbackDecisionRequired = True"
| "is_safety _ = False"

abbreviation unsafe :: "string \<Rightarrow> rexc + 'a" where
  "unsafe msg \<equiv> Inl (RollbackSafetyError msg)"

definition require :: "bool \<Rightarrow> string \<Rightarrow> rexc + unit" where
  "require b msg = (if b then Inr () else unsafe msg)"

text \<open>The checks of a validator in the order of its statements; the first that fails decides.\<close>

fun checks :: "('e + unit) list \<Rightarrow> 'e + unit" where
  "checks [] = Inr ()"
| "checks (m # ms) = (case m of Inl e \<Rightarrow> Inl e | Inr _ \<Rightarrow> checks ms)"

definition passed :: "'e + 'a \<Rightarrow> 'e + unit" where
  "passed m = (case m of Inl e \<Rightarrow> Inl e | Inr _ \<Rightarrow> Inr ())"

definition andthen :: "'e + 'a \<Rightarrow> ('a \<Rightarrow> 'e + 'b) \<Rightarrow> 'e + 'b" where
  "andthen m k = (case m of Inl e \<Rightarrow> Inl e | Inr x \<Rightarrow> k x)"

named_theorems returns \<open>when a run of checks ends without an error\<close>

lemma require_returns [returns]: "require b msg = Inr x \<longleftrightarrow> b"
  by (simp add: require_def)

lemma checks_returns: "checks ms = Inr x \<longleftrightarrow> (\<forall>m \<in> set ms. m = Inr ())"
  by (induction ms) (auto split: sum.splits)

declare checks.simps(2) [simp del]

lemma checks_Cons_returns [returns]: "checks (m # ms) = Inr x \<longleftrightarrow> m = Inr () \<and> checks ms = Inr ()"
  by (auto simp: checks.simps(2) split: sum.splits)

lemma checks_append_returns [returns]: "checks (ms @ ns) = Inr x \<longleftrightarrow> checks ms = Inr () \<and> checks ns = Inr ()"
  by (auto simp: checks_returns)

lemma checks_map_returns [returns]: "checks (map f xs) = Inr y \<longleftrightarrow> (\<forall>x \<in> set xs. f x = Inr ())"
  by (auto simp: checks_returns)

lemma passed_returns [returns]: "passed m = Inr x \<longleftrightarrow> (\<exists>y. m = Inr y)"
  by (auto simp: passed_def split: sum.splits)

lemma andthen_returns [returns]: "andthen m k = Inr y \<longleftrightarrow> (\<exists>x. m = Inr x \<and> k x = Inr y)"
  by (auto simp: andthen_def split: sum.splits)

lemma andthen_Inr [simp]: "andthen (Inr x) k = k x"
  by (simp add: andthen_def)

lemma andthen_Inl [simp]: "andthen (Inl e) k = Inl e"
  by (simp add: andthen_def)

section \<open>Constants\<close>

definition RTO_LIMIT_SECONDS :: int where
  "RTO_LIMIT_SECONDS = 14400"

definition SCHEMA_VERSION :: int where
  "SCHEMA_VERSION = 1"

section \<open>Accepted texts\<close>

definition SHA256 :: "ustr \<Rightarrow> bool" where
  "SHA256 s \<longleftrightarrow> hex_text 64 s"

definition GIT_SHA :: "ustr \<Rightarrow> bool" where
  "GIT_SHA s \<longleftrightarrow> hex_text 40 s"

definition id_char :: "nat \<Rightarrow> bool" where
  "id_char c \<longleftrightarrow> is_digit c \<or> is_upper c \<or> is_lower c"

definition SAFE_ID :: "ustr \<Rightarrow> bool" where
  "SAFE_ID s \<longleftrightarrow> (case s of [] \<Rightarrow> False
     | c # r \<Rightarrow> id_char c \<and> length r \<le> 127 \<and> list_all (\<lambda>x. id_char x \<or> x = 46 \<or> x = 95 \<or> x = 45) r)"

definition BACKUP_ID :: "ustr \<Rightarrow> bool" where
  "BACKUP_ID s \<longleftrightarrow> length s = 49 \<and> list_all is_digit (take 8 s) \<and> s ! 8 = 84 \<and> list_all is_digit (take 6 (drop 9 s))
     \<and> s ! 15 = 90 \<and> s ! 16 = 45 \<and> hex_text 32 (drop 17 s)"

text \<open>White space of an ASCII pattern.\<close>

definition ascii_space :: "nat \<Rightarrow> bool" where
  "ascii_space c \<longleftrightarrow> (9 \<le> c \<and> c \<le> 13) \<or> c = 32"

text \<open>\<open>IMAGE.fullmatch\<close>: the digest of a reference \<open>name:tag@sha256:digest\<close>.\<close>

definition IMAGE :: "ustr \<Rightarrow> ustr option" where
  "IMAGE s =
     (let name = takeWhile (\<lambda>c. c \<noteq> 64) s;
          rest = drop (length name) s
      in if list_all (\<lambda>c. \<not> ascii_space c) name \<and> 58 \<in> set (butlast (tl name))
            \<and> take 8 rest = u ''@sha256:'' \<and> hex_text 64 (drop 8 rest)
         then Some (drop 8 rest) else None)"

section \<open>Time\<close>

text \<open>A UTC \<open>datetime\<close>, ordered by its fields.\<close>

datatype datetime = DateTime (dt_year: nat) (dt_month: nat) (dt_day: nat) (dt_hour: nat) (dt_minute: nat) (dt_second: nat)
  (dt_micro: nat)

definition dt_fields :: "datetime \<Rightarrow> nat \<times> nat \<times> nat \<times> nat \<times> nat \<times> nat \<times> nat" where
  "dt_fields t = (dt_year t, dt_month t, dt_day t, dt_hour t, dt_minute t, dt_second t, dt_micro t)"

lemma dt_fields_inject [simp]: "dt_fields s = dt_fields t \<longleftrightarrow> s = t"
  by (cases s; cases t) (auto simp: dt_fields_def)

instantiation datetime :: linorder
begin

definition less_eq_datetime :: "datetime \<Rightarrow> datetime \<Rightarrow> bool" where
  "less_eq_datetime s t \<longleftrightarrow> dt_fields s \<le> dt_fields t"

definition less_datetime :: "datetime \<Rightarrow> datetime \<Rightarrow> bool" where
  "less_datetime s t \<longleftrightarrow> dt_fields s < dt_fields t"

instance
  by standard (auto simp: less_eq_datetime_def less_datetime_def less_le)

end

definition is_leap :: "nat \<Rightarrow> bool" where
  "is_leap y \<longleftrightarrow> y mod 4 = 0 \<and> (y mod 100 \<noteq> 0 \<or> y mod 400 = 0)"

definition days_in_month :: "nat \<Rightarrow> nat \<Rightarrow> nat" where
  "days_in_month y m = (if m = 2 \<and> is_leap y then 29 else [0, 31, 28, 31, 30, 31, 30, 31, 31, 30, 31, 30, 31] ! m)"

definition valid_datetime :: "datetime \<Rightarrow> bool" where
  "valid_datetime t \<longleftrightarrow> 1 \<le> dt_year t \<and> dt_year t \<le> 9999 \<and> 1 \<le> dt_month t \<and> dt_month t \<le> 12
     \<and> 1 \<le> dt_day t \<and> dt_day t \<le> days_in_month (dt_year t) (dt_month t)
     \<and> dt_hour t < 24 \<and> dt_minute t < 60 \<and> dt_second t < 60 \<and> dt_micro t < 1000000"

text \<open>\<open>date.toordinal\<close> and the microseconds since the day before the first.\<close>

definition to_ordinal :: "datetime \<Rightarrow> nat" where
  "to_ordinal t = (let y = dt_year t - 1 in y * 365 + y div 4 - y div 100 + y div 400
     + sum_list (map (days_in_month (dt_year t)) [1..<dt_month t]) + dt_day t)"

definition microseconds :: "datetime \<Rightarrow> int" where
  "microseconds t = ((int (to_ordinal t) * 24 + int (dt_hour t)) * 60 + int (dt_minute t)) * 60000000
     + int (dt_second t) * 1000000 + int (dt_micro t)"

text \<open>\<open>int((s - t).total_seconds())\<close>, truncated towards zero.\<close>

definition seconds_between :: "datetime \<Rightarrow> datetime \<Rightarrow> int" where
  "seconds_between s t = (let d = microseconds s - microseconds t in if d < 0 then - (- d div 1000000) else d div 1000000)"

fun decimal :: "nat \<Rightarrow> nat \<Rightarrow> ustr" where
  "decimal 0 n = []"
| "decimal (Suc k) n = decimal k (n div 10) @ [48 + n mod 10]"

fun undecimal :: "nat \<Rightarrow> ustr \<Rightarrow> nat" where
  "undecimal acc [] = acc"
| "undecimal acc (c # s) = undecimal (acc * 10 + (c - 48)) s"

definition format_time :: "datetime \<Rightarrow> ustr" where
  "format_time t = decimal 4 (dt_year t) @ [45] @ decimal 2 (dt_month t) @ [45] @ decimal 2 (dt_day t) @ [84]
     @ decimal 2 (dt_hour t) @ [58] @ decimal 2 (dt_minute t) @ [58] @ decimal 2 (dt_second t) @ [46]
     @ decimal 6 (dt_micro t) @ [90]"

text \<open>The numbers of a text of the canonical shape.\<close>

definition scan_time :: "ustr \<Rightarrow> datetime" where
  "scan_time s = DateTime (undecimal 0 (take 4 s)) (undecimal 0 (take 2 (drop 5 s))) (undecimal 0 (take 2 (drop 8 s)))
     (undecimal 0 (take 2 (drop 11 s))) (undecimal 0 (take 2 (drop 14 s))) (undecimal 0 (take 2 (drop 17 s)))
     (undecimal 0 (take 6 (drop 20 s)))"

text \<open>\<open>parse_time\<close>: only the canonical text of an existing moment is accepted.\<close>

definition parse_time :: "json \<Rightarrow> string \<Rightarrow> rexc + datetime" where
  "parse_time v field =
     (case v of
        JStr s \<Rightarrow> (if valid_datetime (scan_time s) \<and> format_time (scan_time s) = s then Inr (scan_time s)
                   else unsafe (field @ '' must be a canonical UTC timestamp''))
      | _ \<Rightarrow> unsafe (field @ '' must be a canonical UTC timestamp''))"

text \<open>The parsed value, where a check has made sure that there is one.\<close>

definition time_of :: "json \<Rightarrow> datetime" where
  "time_of v = scan_time (text_of v)"

lemma length_decimal [simp]: "length (decimal k n) = k"
  by (induction k arbitrary: n) auto

lemma undecimal_append: "undecimal acc (s @ t) = undecimal (undecimal acc s) t"
  by (induction s arbitrary: acc) auto

lemma undecimal_decimal: "n < 10 ^ k \<Longrightarrow> undecimal 0 (decimal k n) = n"
  by (induction k arbitrary: n) (auto simp: undecimal_append less_mult_imp_div_less mult.commute)

lemma days_in_month_bound: "1 \<le> m \<Longrightarrow> m \<le> 12 \<Longrightarrow> days_in_month y m \<le> 31"
proof -
  assume "1 \<le> m" "m \<le> 12"
  define l :: "nat list" where "l = [0, 31, 28, 31, 30, 31, 30, 31, 31, 30, 31, 30, 31]"
  have "\<forall>d \<in> set l. d \<le> 31" "m < length l" using \<open>m \<le> 12\<close> by (simp_all add: l_def)
  then have "l ! m \<le> 31" using nth_mem by blast
  then show ?thesis by (simp add: days_in_month_def l_def)
qed

lemma scan_format: 
  assumes "valid_datetime t"
  shows "scan_time (format_time t) = t"
proof -
  from assms have "dt_day t \<le> 31" using days_in_month_bound [of "dt_month t" "dt_year t"] by (simp add: valid_datetime_def)
  with assms have "dt_year t < 10 ^ 4" "dt_month t < 10 ^ 2" "dt_day t < 10 ^ 2" "dt_hour t < 10 ^ 2" "dt_minute t < 10 ^ 2"
    "dt_second t < 10 ^ 2" "dt_micro t < 10 ^ 6" by (auto simp: valid_datetime_def)
  then show ?thesis by (simp add: scan_time_def format_time_def undecimal_decimal)
qed

lemma parse_format: "valid_datetime t \<Longrightarrow> parse_time (JStr (format_time t)) field = Inr t"
  by (simp add: parse_time_def scan_format)

lemma parse_time_Inr: "parse_time v field = Inr t \<longleftrightarrow> v = JStr (format_time t) \<and> valid_datetime t"
  by (cases v) (auto simp: parse_time_def scan_format)

lemma parse_time_returns [returns]: "(\<exists>t. parse_time v field = Inr t) \<longleftrightarrow> (\<exists>t. v = JStr (format_time t) \<and> valid_datetime t)"
  by (simp add: parse_time_Inr)

lemma time_of_format [simp]: "valid_datetime t \<Longrightarrow> time_of (JStr (format_time t)) = t"
  by (simp add: time_of_def scan_format)

end
