(* ===== verification/Rb_Files.thy ===== *)
theory Rb_Files
  imports Rb_Base
begin

text \<open>
  The files of \<open>scripts/deploy_rollback/model.py\<close> and its writes. A file is what reading it gives: a
  JSON document, a log of JSON lines, other text, or bytes that are no text. Every durable change is one
  primitive that consumes an entry of the plan \<open>dk_plan\<close>: it succeeds, raises \<open>OSError\<close> before or after its effect,
  or the process ends in it. All theorems hold for every plan, so they cover crashes.
\<close>

section \<open>What the module imports\<close>

type_synonym octets = "nat list"

record rb_env =
  en_sha :: "octets \<Rightarrow> ustr"
  en_dumps :: "json \<Rightarrow> octets"
  en_loads :: "octets \<Rightarrow> rexc + json"
  en_lower :: "octets \<Rightarrow> ustr"
  en_word :: "nat \<Rightarrow> bool"

text \<open>\<open>canonical_json\<close> and \<open>digest_json\<close>: the text of the key-sorted document.\<close>

definition canonical_json :: "rb_env \<Rightarrow> json \<Rightarrow> octets" where
  "canonical_json env v = en_dumps env (canonical v)"

definition digest_json :: "rb_env \<Rightarrow> json \<Rightarrow> ustr" where
  "digest_json env v = en_sha env (canonical_json env v)"

lemma digest_canonical [simp]: "digest_json env (canonical v) = digest_json env v"
  by (simp add: digest_json_def canonical_json_def)

section \<open>Files\<close>

datatype payload = Doc json | Log "json option list" | Txt ustr | Opaque

text \<open>A regular file with whether others may write it, a symbolic link with what reading it gives, a directory.\<close>

datatype node = Regular bool payload | Link "payload option" | Folder bool

type_synonym files = "ustr \<Rightarrow> node option"

fun document :: "payload \<Rightarrow> rexc + json" where
  "document (Doc v) = Inr v"
| "document (Log [Some v]) = Inr v"
| "document Opaque = Inl UnicodeDecodeError"
| "document _ = Inl JSONDecodeError"

fun log_lines :: "payload \<Rightarrow> rexc + json option list" where
  "log_lines (Doc v) = Inr [Some v]"
| "log_lines (Log ls) = Inr ls"
| "log_lines (Txt s) = Inr (if s = [] then [] else [None])"
| "log_lines Opaque = Inl UnicodeDecodeError"

text \<open>\<open>read_text(encoding="ascii")\<close>; the text of a document or a log is no digest.\<close>

fun ascii_text :: "payload \<Rightarrow> rexc + ustr" where
  "ascii_text (Txt s) = (if list_all (\<lambda>c. c < 128) s then Inr s else Inl UnicodeDecodeError)"
| "ascii_text Opaque = Inl UnicodeDecodeError"
| "ascii_text _ = Inr []"

text \<open>\<open>path.exists()\<close> and \<open>path.is_file()\<close> follow links.\<close>

definition exists_at :: "files \<Rightarrow> ustr \<Rightarrow> bool" where
  "exists_at fs p = (case fs p of None \<Rightarrow> False | Some (Link None) \<Rightarrow> False | _ \<Rightarrow> True)"

definition is_file :: "files \<Rightarrow> ustr \<Rightarrow> bool" where
  "is_file fs p = (case fs p of Some (Regular _ _) \<Rightarrow> True | Some (Link (Some _)) \<Rightarrow> True | _ \<Rightarrow> False)"

definition is_symlink :: "files \<Rightarrow> ustr \<Rightarrow> bool" where
  "is_symlink fs p = (case fs p of Some (Link _) \<Rightarrow> True | _ \<Rightarrow> False)"

definition read_json_file :: "files \<Rightarrow> ustr \<Rightarrow> rexc + jobj" where
  "read_json_file fs p =
     (case fs p of
        None \<Rightarrow> unsafe ''invalid persistent JSON''
      | Some (Regular False c) \<Rightarrow>
          (case document c of
             Inl JSONDecodeError \<Rightarrow> unsafe ''invalid persistent JSON''
           | Inl e \<Rightarrow> Inl e
           | Inr (JObj d) \<Rightarrow> Inr d
           | Inr _ \<Rightarrow> unsafe ''persistent JSON is not an object'')
      | Some _ \<Rightarrow> unsafe ''unsafe persistent file'')"

text \<open>\<open>path.read_text(encoding="ascii").strip()\<close> with \<open>OSError\<close> turned into \<open>missing\<close>.\<close>

definition read_seal :: "string \<Rightarrow> files \<Rightarrow> ustr \<Rightarrow> rexc + ustr" where
  "read_seal missing fs p =
     (case fs p of
        Some (Regular _ c) \<Rightarrow> andthen (ascii_text c) (\<lambda>s. Inr (strip s))
      | Some (Link (Some c)) \<Rightarrow> andthen (ascii_text c) (\<lambda>s. Inr (strip s))
      | _ \<Rightarrow> unsafe missing)"

section \<open>Writes\<close>

datatype outcome = Done | Fails | Fails_After | Dies | Tears

record disk =
  dk_files :: files
  dk_plan :: "outcome list"

type_synonym 'a io = "disk \<Rightarrow> (rexc + 'a) \<times> disk"

definition io_bind :: "'a io \<Rightarrow> ('a \<Rightarrow> 'b io) \<Rightarrow> 'b io" where
  "io_bind m k d = (case m d of (Inl e, d1) \<Rightarrow> (Inl e, d1) | (Inr x, d1) \<Rightarrow> k x d1)"

text \<open>\<open>except BaseException: h; raise\<close>; when the process has ended nothing runs.\<close>

definition cleanup :: "'a io \<Rightarrow> unit io \<Rightarrow> 'a io" where
  "cleanup m h d =
     (case m d of
        (Inl e, d1) \<Rightarrow> if e = Killed then (Inl e, d1)
                       else (case h d1 of (Inl e2, d2) \<Rightarrow> (Inl e2, d2) | (Inr _, d2) \<Rightarrow> (Inl e, d2))
      | r \<Rightarrow> r)"

text \<open>The effects of a primitive when it succeeds, when it fails late, and when it is torn.\<close>

definition attempt :: "(files \<Rightarrow> files) \<Rightarrow> (files \<Rightarrow> files) \<Rightarrow> (files \<Rightarrow> files) \<Rightarrow> unit io" where
  "attempt succeed late torn d =
     (case dk_plan d of
        [] \<Rightarrow> (Inr (), d\<lparr>dk_files := succeed (dk_files d)\<rparr>)
      | Done # r \<Rightarrow> (Inr (), d\<lparr>dk_files := succeed (dk_files d), dk_plan := r\<rparr>)
      | Fails # r \<Rightarrow> (Inl PyOSError, d\<lparr>dk_plan := r\<rparr>)
      | Fails_After # r \<Rightarrow> (Inl PyOSError, d\<lparr>dk_files := late (dk_files d), dk_plan := r\<rparr>)
      | Dies # r \<Rightarrow> (Inl Killed, d\<lparr>dk_plan := r\<rparr>)
      | Tears # r \<Rightarrow> (Inl Killed, d\<lparr>dk_files := torn (dk_files d), dk_plan := r\<rparr>))"

text \<open>A complete file replaces the old one; only the final directory sync may fail after that.\<close>

definition atomic_write :: "ustr \<Rightarrow> payload \<Rightarrow> unit io" where
  "atomic_write p c d =
     (if \<not> starts_with (u ''/'') p then (unsafe ''persistent path must be absolute'', d)
      else (case dk_files d p of
              Some (Folder _) \<Rightarrow> (Inl PyOSError, d)
            | _ \<Rightarrow> (let put = (\<lambda>fs. fs(p \<mapsto> Regular False c)) in attempt put put id d)))"

text \<open>A creation that fails removes what it wrote; one that is torn leaves a partial file.\<close>

definition atomic_create :: "ustr \<Rightarrow> payload \<Rightarrow> unit io" where
  "atomic_create p c d =
     (if \<not> starts_with (u ''/'') p then (unsafe ''persistent path must be absolute'', d)
      else if dk_files d p \<noteq> None then (unsafe ''immutable record already exists'', d)
      else attempt (\<lambda>fs. fs(p \<mapsto> Regular False c)) id (\<lambda>fs. fs(p \<mapsto> Regular False (Txt []))) d)"

definition unlink :: "ustr \<Rightarrow> unit io" where
  "unlink p = attempt (\<lambda>fs. fs(p := None)) (\<lambda>fs. fs(p := None)) id"

text \<open>
  One record appended to a log. \<open>json.dumps(ensure_ascii=False)\<close> writes the characters U+0085, U+2028 and U+2029 as they are, and
  \<open>str.splitlines\<close> ends a line at them: such a record reads back as several lines, none of them JSON.
\<close>

fun json_texts :: "json \<Rightarrow> ustr list" where
  "json_texts (JStr s) = [s]"
| "json_texts (JArr xs) = concat (map json_texts xs)"
| "json_texts (JObj d) = concat (map (\<lambda>kv. fst kv # json_texts (snd kv)) d)"
| "json_texts _ = []"

definition has_break :: "json \<Rightarrow> bool" where
  "has_break v \<longleftrightarrow> list_ex (list_ex (\<lambda>c. c \<in> {133, 8232, 8233})) (json_texts v)"

definition as_lines :: "json \<Rightarrow> json option list" where
  "as_lines v = (if has_break v then [None, None] else [Some v])"

fun with_lines :: "json option list \<Rightarrow> node option \<Rightarrow> node option" where
  "with_lines ls None = Some (Regular False (Log ls))"
| "with_lines ls (Some (Regular b c)) = Some (Regular b (case log_lines c of Inl _ \<Rightarrow> c | Inr old \<Rightarrow> Log (old @ ls)))"
| "with_lines ls (Some n) = Some n"

text \<open>A torn append leaves a part of the record, a late failure all of it.\<close>

definition append_line :: "ustr \<Rightarrow> json \<Rightarrow> unit io" where
  "append_line p v =
     attempt (\<lambda>fs. fs(p := with_lines (as_lines v) (fs p))) (\<lambda>fs. fs(p := with_lines (as_lines v) (fs p)))
             (\<lambda>fs. fs(p := with_lines [None] (fs p)))"

section \<open>Lemmas\<close>

named_theorems io_simps \<open>the results of file operations\<close>

lemma attempt_cases:
  obtains (succeeded) "attempt f g h d = (Inr (), d\<lparr>dk_files := f (dk_files d), dk_plan := tl (dk_plan d)\<rparr>)"
  | (failed) e fs where "attempt f g h d = (Inl e, d\<lparr>dk_files := fs, dk_plan := tl (dk_plan d)\<rparr>)"
      "e = PyOSError \<and> fs \<in> {dk_files d, g (dk_files d)} \<or> e = Killed \<and> fs \<in> {dk_files d, h (dk_files d)}"
proof (cases "dk_plan d")
  case Nil
  then have "attempt f g h d = (Inr (), d\<lparr>dk_files := f (dk_files d), dk_plan := tl (dk_plan d)\<rparr>)"
    by (simp add: attempt_def)
  then show thesis by (rule succeeded)
next
  case (Cons out r)
  show thesis
  proof (cases out)
    case Done
    with Cons show thesis by (intro succeeded) (simp add: attempt_def)
  next
    case Fails
    with Cons show thesis by (intro failed [of PyOSError "dk_files d"]) (simp_all add: attempt_def)
  next
    case Fails_After
    with Cons show thesis by (intro failed [of PyOSError "g (dk_files d)"]) (simp_all add: attempt_def)
  next
    case Dies
    with Cons show thesis by (intro failed [of Killed "dk_files d"]) (simp_all add: attempt_def)
  next
    case Tears
    with Cons show thesis by (intro failed [of Killed "h (dk_files d)"]) (simp_all add: attempt_def)
  qed
qed

end
