(* ===== verification/Rb_Record.thy ===== *)
theory Rb_Record
  imports Rb_Files
begin

text \<open>
  The validation of release records in \<open>scripts/deploy_rollback/model.py\<close>: artifact sets with their
  configuration bodies and image evidence, approvals, the pre-release backup, the whole record, and the
  identity that binds them. A validator is its run of checks.
\<close>

section \<open>Constants\<close>

definition RUNNING_IMAGES :: "string list" where
  "RUNNING_IMAGES = [''app'', ''migrate'', ''proxy'', ''db'', ''certbot'', ''pr2a'']"

definition REQUIRED_COMPATIBILITY_ACTIONS :: "string list" where
  "REQUIRED_COMPATIBILITY_ACTIONS =
     [''login'', ''create'', ''import'', ''upload'', ''history_restore'', ''enable'', ''disable'', ''no_upload'', ''public_read'',
      ''audit_append'', ''constraints'', ''defaults'', ''enums'', ''triggers'', ''permissions'']"

definition REQUIRED_RECOVERY_CONFIG :: "string list" where
  "REQUIRED_RECOVERY_CONFIG =
     [''compose.prod.yaml'', ''compose.backup.yaml'', ''deploy/production/nginx/nginx.conf'',
      ''deploy/production/nginx/templates/site.conf.template'',
      ''deploy/production/systemd/product-pdf-qr-backup-alert@.service'',
      ''deploy/production/systemd/product-pdf-qr-backup-finalize.service'',
      ''deploy/production/systemd/product-pdf-qr-backup-finalize.timer'',
      ''deploy/production/systemd/product-pdf-qr-backup-precopy.service'',
      ''deploy/production/systemd/product-pdf-qr-backup-precopy.timer'',
      ''deploy/production/systemd/product-pdf-qr-cert-renew.service'',
      ''deploy/production/systemd/product-pdf-qr-cert-renew.timer'',
      ''deploy/production/systemd/product-pdf-qr-log-rotate.service'',
      ''deploy/production/systemd/product-pdf-qr-log-rotate.timer'',
      ''deploy/backup/contract.json'', ''deploy/backup/requirements.txt'',
      ''scripts/backup_recovery/__init__.py'', ''scripts/backup_recovery/backup-run.sh'', ''scripts/backup_recovery/backup.py'',
      ''scripts/backup_recovery/cli.py'', ''scripts/backup_recovery/contract.py'', ''scripts/backup_recovery/crypto.py'',
      ''scripts/backup_recovery/emit-alert.sh'', ''scripts/backup_recovery/init-file-access.sh'',
      ''scripts/backup_recovery/lock.sh'', ''scripts/backup_recovery/model.py'', ''scripts/backup_recovery/rehearse-local.sh'',
      ''scripts/backup_recovery/remote.py'', ''scripts/backup_recovery/restore-run.sh'', ''scripts/backup_recovery/restore.py'',
      ''scripts/backup_recovery/synthetic_functional_check.py'', ''scripts/backup_recovery/validate_compose.py'',
      ''scripts/backup_recovery/verify-reproducible-image.sh'']"

definition ALLOWED_APP_CONFIG :: "string list" where
  "ALLOWED_APP_CONFIG = [''app-runtime.json'', ''app-limits.json'', ''app-public-origin.json'']"

definition ALLOWED_APP_ENVIRONMENT :: "string list" where
  "ALLOWED_APP_ENVIRONMENT =
     [''APP_PORT'', ''DB_POOL_MIN_SIZE'', ''DB_POOL_MAX_SIZE'', ''STORAGE_ROOT'', ''PUBLIC_DOMAIN'', ''PUBLIC_BASE_URL'',
      ''MAX_PDF_BYTES'', ''IMPORT_MAX_UPLOAD_BYTES'', ''IMPORT_MAX_DECOMPRESSED_BYTES'', ''IMPORT_MAX_COMPRESSION_RATIO'',
      ''IMPORT_PARSE_TIMEOUT_SECONDS'', ''IMPORT_PARSE_MEMORY_BYTES'', ''IMPORT_MAX_ROWS'', ''PDF_VALIDATION_TIMEOUT_SECONDS'',
      ''PDF_VALIDATION_CPU_SECONDS'', ''PDF_VALIDATION_MEMORY_BYTES'', ''PUBLIC_MISS_LIMIT'', ''PUBLIC_MISS_WINDOW_SECONDS'',
      ''SESSION_COOKIE_SECURE'', ''SESSION_TTL_SECONDS'', ''LOGIN_FAILURE_LIMIT'', ''LOGIN_FAILURE_WINDOW_SECONDS'',
      ''LOGIN_BACKOFF_BASE_SECONDS'', ''LOGIN_BACKOFF_MAX_SECONDS'']"

definition FORBIDDEN_CONFIG_WORDS :: "string list" where
  "FORBIDDEN_CONFIG_WORDS = [''age-secret-key-'', ''-----begin private key-----'', ''aws_secret_access_key ='']"

definition SENSITIVE_AUDIT_WORDS :: "string list" where
  "SENSITIVE_AUDIT_WORDS = [''password'', ''secret'', ''private_key'', ''credential'', ''token'', ''pdf_content'', ''challenge'']"

section \<open>Fields\<close>

definition required_text :: "jobj \<Rightarrow> string \<Rightarrow> rexc + ustr" where
  "required_text d field =
     (case jget d field of JStr s \<Rightarrow> if strip s = [] then unsafe (field @ '' is required'') else Inr s
      | _ \<Rightarrow> unsafe (field @ '' is required''))"

definition safe_id :: "jobj \<Rightarrow> string \<Rightarrow> rexc + ustr" where
  "safe_id d field = andthen (required_text d field) (\<lambda>s. if SAFE_ID s then Inr s else unsafe (field @ '' is invalid''))"

definition exact_image :: "json \<Rightarrow> string \<Rightarrow> rexc + ustr" where
  "exact_image v field =
     (case v of JStr s \<Rightarrow> if IMAGE s = None then unsafe (field @ '' must be an exact tag@sha256 image'') else Inr s
      | _ \<Rightarrow> unsafe (field @ '' must be an exact tag@sha256 image''))"

definition image_digest :: "ustr \<Rightarrow> rexc + ustr" where
  "image_digest s = (case IMAGE s of None \<Rightarrow> unsafe ''image reference is not exact'' | Some h \<Rightarrow> Inr h)"

definition is_sha :: "json \<Rightarrow> bool" where
  "is_sha v = (case v of JStr s \<Rightarrow> SHA256 s | _ \<Rightarrow> False)"

text \<open>\<open>value is not True\<close> fails for everything but the constant.\<close>

abbreviation is_true :: "json \<Rightarrow> bool" where
  "is_true v \<equiv> v = JBool True"

section \<open>Configuration bodies\<close>

definition b64_digit :: "nat \<Rightarrow> nat" where
  "b64_digit n = (if n < 26 then 65 + n else if n < 52 then 71 + n else if n < 62 then n - 4 else if n = 62 then 43 else 47)"

definition b64_value :: "nat \<Rightarrow> nat option" where
  "b64_value c = (if is_upper c then Some (c - 65) else if is_lower c then Some (c - 71) else if is_digit c then Some (c + 4)
     else if c = 43 then Some 62 else if c = 47 then Some 63 else None)"

text \<open>\<open>base64.b64encode\<close>.\<close>

fun b64encode :: "octets \<Rightarrow> ustr" where
  "b64encode (a # b # c # r) =
     [b64_digit (a div 4), b64_digit ((a mod 4) * 16 + b div 16), b64_digit ((b mod 16) * 4 + c div 64), b64_digit (c mod 64)]
     @ b64encode r"
| "b64encode [a, b] = [b64_digit (a div 4), b64_digit ((a mod 4) * 16 + b div 16), b64_digit ((b mod 16) * 4), 61]"
| "b64encode [a] = [b64_digit (a div 4), b64_digit ((a mod 4) * 16), 61, 61]"
| "b64encode [] = []"

text \<open>The bytes of a padded text; what is not padded or has another character is refused.\<close>

fun b64decode :: "ustr \<Rightarrow> octets option" where
  "b64decode [] = Some []"
| "b64decode (w # x # y # z # r) =
     (case (b64_value w, b64_value x) of
        (Some p, Some q) \<Rightarrow>
          if y = 61 \<and> z = 61 \<and> r = [] then Some [p * 4 + q div 16]
          else (case b64_value y of
                  None \<Rightarrow> None
                | Some s \<Rightarrow>
                    if z = 61 \<and> r = [] then Some [p * 4 + q div 16, (q mod 16) * 16 + s div 4]
                    else (case (b64_value z, b64decode r) of
                            (Some t, Some bs) \<Rightarrow> Some ([p * 4 + q div 16, (q mod 16) * 16 + s div 4, (s mod 4) * 64 + t] @ bs)
                          | _ \<Rightarrow> None))
      | _ \<Rightarrow> None)"
| "b64decode _ = None"

text \<open>\<open>b64decode(content, validate=True)\<close> and the comparison with the encoded result.\<close>

definition canonical_body :: "ustr \<Rightarrow> octets option" where
  "canonical_body s = (case b64decode s of None \<Rightarrow> None | Some bs \<Rightarrow> if b64encode bs = s then Some bs else None)"

fun contains :: "ustr \<Rightarrow> ustr \<Rightarrow> bool" where
  "contains w [] = (w = [])"
| "contains w (c # s) = (take (length w) (c # s) = w \<or> contains w s)"

definition eat :: "ustr \<Rightarrow> ustr \<Rightarrow> ustr option" where
  "eat p s = (if take (length p) s = p then Some (drop (length p) s) else None)"

definition eat_run :: "(nat \<Rightarrow> bool) \<Rightarrow> ustr \<Rightarrow> ustr option" where
  "eat_run P s = (if takeWhile P s = [] then None else Some (dropWhile P s))"

text \<open>
  \<open>postgres(?:ql)?(?:\+\w+)?://[^:/\s]+:[^@\s]+@\<close> at the start of a text. Every repetition ends at a
  character it may not contain, so no other way to match exists.
\<close>

definition database_url_at :: "rb_env \<Rightarrow> ustr \<Rightarrow> bool" where
  "database_url_at env s =
     (let after_name = Option.bind (eat (u ''postgres'') s) (\<lambda>r. Some (case eat (u ''ql'') r of None \<Rightarrow> r | Some r' \<Rightarrow> r'));
          after_driver = Option.bind after_name (\<lambda>r. case eat (u ''+'') r of None \<Rightarrow> Some r | Some r' \<Rightarrow> eat_run (en_word env) r');
          after_user = Option.bind (Option.bind after_driver (eat (u ''://''))) (eat_run (\<lambda>c. c \<noteq> 58 \<and> c \<noteq> 47 \<and> \<not> is_space c));
          after_password = Option.bind (Option.bind after_user (eat (u '':''))) (eat_run (\<lambda>c. c \<noteq> 64 \<and> \<not> is_space c))
      in Option.bind after_password (eat (u ''@'')) \<noteq> None)"

fun has_database_url :: "rb_env \<Rightarrow> ustr \<Rightarrow> bool" where
  "has_database_url env [] = database_url_at env []"
| "has_database_url env (c # s) = (database_url_at env (c # s) \<or> has_database_url env s)"

text \<open>The environment of the application: only allowed names, every value a non-empty text.\<close>

definition runtime_config :: "rb_env \<Rightarrow> octets \<Rightarrow> rexc + unit" where
  "runtime_config env body =
     (case en_loads env body of
        Inl JSONDecodeError \<Rightarrow> unsafe ''app runtime config must be JSON''
      | Inl e \<Rightarrow> Inl e
      | Inr v \<Rightarrow>
          require (is_obj v \<and> items v \<noteq> [] \<and> list_all (\<lambda>k. k \<in> set (map u ALLOWED_APP_ENVIRONMENT)) (map fst (items v))
                   \<and> list_all (\<lambda>w. is_str w \<and> text_of w \<noteq> []) (map snd (items v)))
                  ''app runtime config contains a forbidden environment field'')"

definition validate_config_artifact :: "rb_env \<Rightarrow> ustr \<Rightarrow> json \<Rightarrow> datetime \<Rightarrow> ustr list \<Rightarrow> rexc + unit" where
  "validate_config_artifact env name artifact window_end allowlist =
     (let a = items artifact;
          content = text_of (jget a ''content_b64'');
          body = (case canonical_body content of None \<Rightarrow> [] | Some b \<Rightarrow> b);
          digest = text_of (jget a ''sha256'');
          lowered = en_lower env body
      in checks
        [require (name \<in> set allowlist \<and> is_obj artifact) ''non-secret config is outside its component allowlist'',
         require (keys_are a [''content_b64'', ''sha256'', ''retained_until'']) ''config artifact schema mismatch'',
         require (is_str (jget a ''content_b64'') \<and> content \<noteq> []) ''config artifact body is required'',
         require (canonical_body content \<noteq> None) ''config artifact body is not canonical base64'',
         require (is_sha (jget a ''sha256'')) ''config artifact digest is invalid'',
         require (en_sha env body = digest) ''config artifact digest mismatch'',
         require (\<not> list_ex (\<lambda>w. contains (u w) lowered) FORBIDDEN_CONFIG_WORDS) ''config artifact appears to contain a secret'',
         require (\<not> has_database_url env lowered) ''config artifact appears to contain database credentials'',
         (if name = u ''app-runtime.json'' then runtime_config env body else Inr ()),
         andthen (parse_time (jget a ''retained_until'') ''config.retained_until'') (\<lambda>retained_until.
           require (window_end \<le> retained_until) ''config artifact retention is shorter than rollback window'')])"

section \<open>Artifact sets\<close>

text \<open>The image of one component and the proof that it was fetched and is retained.\<close>

definition validate_image :: "string \<Rightarrow> datetime \<Rightarrow> jobj \<Rightarrow> jobj \<Rightarrow> string \<Rightarrow> rexc + unit" where
  "validate_image name window_end images evidence component =
     (let proof_v = jget evidence component;
          proof_d = items proof_v
      in andthen (exact_image (jget images component) (name @ ''.images.'' @ component)) (\<lambda>reference.
        andthen (require (is_obj proof_v \<and> keys_are proof_d [''registry_digest'', ''image_id_digest'', ''prefetched'', ''retained_until''])
                   (name @ ''.'' @ component @ '' image evidence schema mismatch'')) (\<lambda>_.
        andthen (image_digest reference) (\<lambda>expected. checks
          [require (jget proof_d ''registry_digest'' = JStr expected \<and> is_sha (jget proof_d ''image_id_digest''))
             (name @ ''.'' @ component @ '' fetched image identity mismatch''),
           require (is_true (jget proof_d ''prefetched'')) (name @ ''.'' @ component @ '' image was not prefetched''),
           andthen (parse_time (jget proof_d ''retained_until'') (name @ ''.'' @ component @ ''.retained_until'')) (\<lambda>retained_until.
             require (window_end \<le> retained_until) (name @ ''.'' @ component @ '' retention is too short''))]))))"

definition recovery_path_allowed :: "ustr \<Rightarrow> bool" where
  "recovery_path_allowed p \<longleftrightarrow>
     (p \<in> {u ''compose.prod.yaml'', u ''compose.backup.yaml''} \<or> starts_with (u ''deploy/production/nginx/'') p
      \<or> starts_with (u ''deploy/production/systemd/'') p \<or> starts_with (u ''deploy/backup/'') p
      \<or> starts_with (u ''scripts/backup_recovery/'') p)
     \<and> \<not> starts_with (u ''/'') p \<and> u ''..'' \<notin> set (split_on 47 p)"

definition validate_configs :: "rb_env \<Rightarrow> string \<Rightarrow> datetime \<Rightarrow> jobj \<Rightarrow> string \<Rightarrow> rexc + unit" where
  "validate_configs env name window_end artifacts field =
     (let configs = jget artifacts field;
          recovery = (field = ''recovery_config'')
      in checks
        ([require (is_obj configs \<and> items configs \<noteq> []) (name @ '' retrievable '' @ field @ '' is required''),
          require (recovery \<longrightarrow> list_all (\<lambda>k. k \<in> set (map fst (items configs))) (map u REQUIRED_RECOVERY_CONFIG))
            (name @ '' recovery config archive is incomplete'')]
         @ map (\<lambda>kv. checks
             [require (recovery \<longrightarrow> recovery_path_allowed (fst kv)) ''recovery config is outside the PR2A allowlist'',
              validate_config_artifact env (fst kv) (snd kv) window_end
                (if recovery then [fst kv] else map u ALLOWED_APP_CONFIG)]) (items configs)))"

definition validate_secret_reference :: "ustr \<times> json \<Rightarrow> rexc + unit" where
  "validate_secret_reference kv = checks
     [require (fst kv \<noteq> [] \<and> is_str (snd kv) \<and> strip (text_of (snd kv)) \<noteq> [])
        ''secret references must be versioned non-empty strings'',
      require (10 \<notin> set (text_of (snd kv)) \<and> 61 \<notin> set (text_of (snd kv))) ''secret reference may not contain a secret value'']"

definition validate_artifact_set :: "rb_env \<Rightarrow> json \<Rightarrow> string \<Rightarrow> datetime \<Rightarrow> rexc + unit" where
  "validate_artifact_set env artifact_set name window_end =
     (let a = items artifact_set;
          images = jget a ''images'';
          evidence = jget a ''image_evidence'';
          secrets = jget a ''secret_references''
      in checks
        ([require (is_obj artifact_set) (name @ '' artifact set is missing''),
          require (keys_are a [''commit'', ''alembic_revision'', ''migration_sha'', ''images'', ''image_evidence'', ''recovery_config'',
                               ''app_config'', ''secret_references'']) (name @ '' artifact set schema mismatch''),
          andthen (required_text a ''commit'') (\<lambda>s. require (GIT_SHA s) (name @ '' commit must be an exact Git SHA'')),
          passed (safe_id a ''alembic_revision''),
          andthen (required_text a ''migration_sha'') (\<lambda>s. require (GIT_SHA s) (name @ '' migration_sha must be an exact Git SHA'')),
          require (is_obj images \<and> keys_are (items images) RUNNING_IMAGES) (name @ '' must bind every running image''),
          require (is_obj evidence \<and> keys_are (items evidence) RUNNING_IMAGES) (name @ '' image evidence is incomplete'')]
         @ map (validate_image name window_end (items images) (items evidence))
             [''app'', ''certbot'', ''db'', ''migrate'', ''pr2a'', ''proxy'']
         @ [validate_configs env name window_end a ''recovery_config'',
            validate_configs env name window_end a ''app_config'',
            require (is_obj secrets \<and> items secrets \<noteq> []) (name @ '' secret references are required'')]
         @ map validate_secret_reference (items secrets)))"

section \<open>Identity\<close>

definition sha_of_item :: "json \<Rightarrow> json" where
  "sha_of_item v = jget (items v) ''sha256''"

text \<open>\<open>{name: item.get("sha256") for name, item in sorted(configs.items())}\<close>.\<close>

definition config_digests :: "json \<Rightarrow> json" where
  "config_digests configs = JObj (map (\<lambda>kv. (fst kv, sha_of_item (snd kv))) (sort_key fst (items configs)))"

definition artifacts_identity :: "jobj \<Rightarrow> rexc + json" where
  "artifacts_identity a =
     (if \<not> is_obj (jget a ''app_config'') then unsafe ''release config identity is missing''
      else if \<not> is_obj (jget a ''recovery_config'') then unsafe ''release recovery config identity is missing''
      else Inr (JObj
        [(u ''commit'', jget a ''commit''), (u ''alembic_revision'', jget a ''alembic_revision''),
         (u ''migration_sha'', jget a ''migration_sha''), (u ''images'', jget a ''images''),
         (u ''recovery_config_sha256'', config_digests (jget a ''recovery_config'')),
         (u ''config_sha256'', config_digests (jget a ''app_config''))]))"

definition picked :: "json \<Rightarrow> string list \<Rightarrow> json" where
  "picked v ks = (if is_obj v then JObj (map (\<lambda>f. (u f, jget (items v) f)) ks) else JNull)"

definition identity_document :: "jobj \<Rightarrow> rexc + json" where
  "identity_document r =
     (if \<not> is_obj (jget r ''stable'') \<or> \<not> is_obj (jget r ''candidate'') then unsafe ''release artifacts are missing''
      else andthen (artifacts_identity (items (jget r ''stable''))) (\<lambda>stable.
           andthen (artifacts_identity (items (jget r ''candidate''))) (\<lambda>candidate.
             Inr (JObj
               [(u ''release_id'', jget r ''release_id''), (u ''environment_id'', jget r ''environment_id''),
                (u ''stable'', stable), (u ''candidate'', candidate),
                (u ''pre_release_backup'', picked (jget r ''pre_release_backup'')
                   [''backup_id'', ''source_commit'', ''images'', ''config_sha256'', ''alembic_revision'', ''completed_at'',
                    ''g19_watermark_sha256'']),
                (u ''publication_fence'', picked (jget r ''publication_fence'') [''command_sha256'', ''readiness_bypass_only''])]))))"

definition release_identity :: "rb_env \<Rightarrow> jobj \<Rightarrow> rexc + ustr" where
  "release_identity env r = andthen (identity_document r) (\<lambda>d. Inr (digest_json env d))"

section \<open>The record\<close>

definition validate_approval :: "json \<Rightarrow> string \<Rightarrow> rexc + unit" where
  "validate_approval v field = checks
     [require (is_obj v \<and> keys_are (items v) [''approval_id'', ''approver'', ''approved_at'']) (field @ '' approval schema mismatch''),
      passed (safe_id (items v) ''approval_id''), passed (safe_id (items v) ''approver''),
      passed (parse_time (jget (items v) ''approved_at'') (field @ ''.approved_at''))]"

text \<open>\<open>{name: artifact["sha256"] ...}\<close> of the stable recovery configuration.\<close>

definition validate_backup :: "jobj \<Rightarrow> json \<Rightarrow> datetime \<Rightarrow> rexc + unit" where
  "validate_backup r backup declared_at =
     (let b = items backup;
          stable = items (jget r ''stable'')
      in checks
        ([require (is_obj backup \<and> keys_are b [''backup_id'', ''source_commit'', ''images'', ''config_sha256'', ''alembic_revision'',
             ''frozen_at'', ''completed_at'', ''encrypted'', ''manifest_authenticated'', ''completion_last'', ''remote_verified'',
             ''preflight_retrievable'', ''g19_watermark_sha256'']) ''pre-release backup schema mismatch'',
          andthen (required_text b ''backup_id'') (\<lambda>s. require (BACKUP_ID s) ''pre-release backup_id is invalid''),
          andthen (parse_time (jget b ''frozen_at'') ''backup.frozen_at'') (\<lambda>frozen.
          andthen (parse_time (jget b ''completed_at'') ''backup.completed_at'') (\<lambda>completed. checks
            [require (frozen < completed \<and> completed \<le> declared_at) ''pre-release backup timing is invalid'',
             require (microseconds declared_at - microseconds completed \<le> 3600000000) ''pre-release backup is not immediate'']))]
         @ map (\<lambda>f. require (is_true (jget b f)) (''pre-release backup '' @ f @ '' proof is missing''))
             [''encrypted'', ''manifest_authenticated'', ''completion_last'', ''remote_verified'', ''preflight_retrievable'']
         @ [require (is_sha (jget b ''g19_watermark_sha256'')) ''pre-release backup G-19 watermark is missing'',
            require (py_eq (jget b ''source_commit'') (jget stable ''commit'')) ''pre-release backup source commit mismatch'',
            require (py_eq (jget b ''images'') (jget stable ''images'')) ''pre-release backup image identity mismatch'',
            require (py_eq (jget b ''config_sha256'') (config_digests (jget stable ''recovery_config'')))
              ''pre-release backup config identity mismatch'',
            require (py_eq (jget b ''alembic_revision'') (jget stable ''alembic_revision''))
              ''pre-release backup Alembic identity mismatch'']))"

definition validate_fence :: "json \<Rightarrow> rexc + unit" where
  "validate_fence fence = checks
     [require (is_obj fence \<and> keys_are (items fence) [''command_sha256'', ''readiness_bypass_only'', ''approval'']
        \<and> is_sha (jget (items fence) ''command_sha256'') \<and> is_true (jget (items fence) ''readiness_bypass_only''))
        ''approved publication fence is incomplete'',
      validate_approval (jget (items fence) ''approval'') ''publication_fence'']"

text \<open>The evidence of a run that passed: the smoke test of the stable release and the rehearsal.\<close>

definition validate_run :: "json \<Rightarrow> string \<Rightarrow> rexc + unit" where
  "validate_run v msg = checks
     [require (is_obj v \<and> keys_are (items v) [''passed'', ''run_id'', ''release_identity''] \<and> is_true (jget (items v) ''passed'')) msg,
      passed (safe_id (items v) ''run_id'')]"

text \<open>\<open>x in {...}\<close> for a set of texts.\<close>

definition member_of :: "json \<Rightarrow> string list \<Rightarrow> rexc + bool" where
  "member_of v names = (if hashable v then Inr (v \<in> set (map (JStr \<circ> u) names)) else Inl PyTypeError)"

definition validate_compatibility :: "json \<Rightarrow> rexc + unit" where
  "validate_compatibility compatibility =
     (let c = items compatibility;
          actions = jget c ''full_read_write_actions''
      in checks
        [require (is_obj compatibility \<and> keys_are c [''verdict'', ''migration_owner'', ''decided_at'', ''release_identity'', ''approval'',
            ''full_read_write_actions'', ''g19_rehearsal'']) ''compatibility record schema mismatch'',
         andthen (member_of (jget c ''verdict'') [''compatible'', ''incompatible''])
           (\<lambda>known. require known ''compatibility verdict is missing or unknown''),
         passed (safe_id c ''migration_owner''),
         passed (parse_time (jget c ''decided_at'') ''compatibility.decided_at''),
         validate_approval (jget c ''approval'') ''compatibility'',
         require (is_obj actions \<and> keys_are (items actions) REQUIRED_COMPATIBILITY_ACTIONS \<and> list_all is_bool (map snd (items actions)))
           ''complete old-app read/write compatibility evidence is required'',
         require (jget c ''verdict'' = JStr (u ''compatible'') \<longrightarrow> list_all is_true (map snd (items actions)))
           ''compatible requires every old-app read/write action'',
         validate_run (jget c ''g19_rehearsal'') ''release-specific G-19 rehearsal is required''])"

definition roll_forward_valid :: "json \<Rightarrow> ustr \<Rightarrow> bool" where
  "roll_forward_valid v identity \<longleftrightarrow>
     is_obj v \<and> keys_are (items v) [''rehearsed'', ''run_id'', ''release_identity'', ''approval'']
     \<and> is_true (jget (items v) ''rehearsed'') \<and> jget (items v) ''release_identity'' = JStr identity"

definition lossy_valid :: "json \<Rightarrow> ustr \<Rightarrow> bool" where
  "lossy_valid v identity \<longleftrightarrow>
     is_obj v \<and> keys_are (items v) [''preapproved'', ''authorization_record'', ''loss_start'', ''loss_end'', ''release_identity'', ''approval'']
     \<and> is_true (jget (items v) ''preapproved'') \<and> jget (items v) ''release_identity'' = JStr identity"

definition validate_plan :: "json \<Rightarrow> json \<Rightarrow> ustr \<Rightarrow> rexc + unit" where
  "validate_plan plan verdict identity =
     (let roll_forward = jget (items plan) ''roll_forward'';
          lossy = jget (items plan) ''lossy_recovery'';
          l = items lossy
      in checks
        ([require (is_obj plan \<and> keys_are (items plan) [''roll_forward'', ''lossy_recovery'']) ''pre-publication plan schema mismatch'']
         @ (if verdict = JStr (u ''incompatible'') then
              (if roll_forward_valid roll_forward identity then
                 [passed (safe_id (items roll_forward) ''run_id''),
                  validate_approval (jget (items roll_forward) ''approval'') ''roll_forward''] else [])
              @ (if lossy_valid lossy identity then
                   [passed (safe_id l ''authorization_record''),
                    andthen (parse_time (jget l ''loss_start'') ''lossy.loss_start'') (\<lambda>loss_start.
                    andthen (parse_time (jget l ''loss_end'') ''lossy.loss_end'') (\<lambda>loss_end.
                      require (loss_start < loss_end) ''approved data-loss window is invalid'')),
                    validate_approval (jget l ''approval'') ''lossy''] else [])
              @ [require (roll_forward_valid roll_forward identity \<or> lossy_valid lossy identity)
                   ''incompatible release lacks rehearsed roll-forward or approved data plan'']
            else [])))"

definition validate_release_record :: "rb_env \<Rightarrow> jobj \<Rightarrow> rexc + ustr" where
  "validate_release_record env r =
     (let compatibility = jget r ''compatibility'';
          smoke = jget r ''stable_isolation_smoke'';
          rehearsal = jget (items compatibility) ''g19_rehearsal''
      in andthen (checks
        [require (keys_are r [''schema_version'', ''release_id'', ''environment_id'', ''declared_at'', ''rollback_window_ends_at'', ''stable'',
            ''candidate'', ''pre_release_backup'', ''compatibility'', ''release_approval'', ''publication_fence'',
            ''stable_isolation_smoke'', ''pre_publication_plan'']) ''release record schema mismatch'',
         require (int_of (jget r ''schema_version'') = Some SCHEMA_VERSION) ''unsupported release record schema'',
         passed (safe_id r ''release_id''), passed (safe_id r ''environment_id''),
         andthen (parse_time (jget r ''declared_at'') ''declared_at'') (\<lambda>declared_at.
         andthen (parse_time (jget r ''rollback_window_ends_at'') ''rollback_window_ends_at'') (\<lambda>window_end. checks
           [require (declared_at < window_end) ''rollback window must end after release declaration'',
            validate_artifact_set env (jget r ''stable'') ''stable'' window_end,
            validate_artifact_set env (jget r ''candidate'') ''candidate'' window_end,
            require (\<not> py_eq (jget (items (jget r ''stable'')) ''commit'') (jget (items (jget r ''candidate'')) ''commit''))
              ''stable and candidate commits must differ'',
            validate_backup r (jget r ''pre_release_backup'') declared_at])),
         validate_approval (jget r ''release_approval'') ''release'',
         validate_fence (jget r ''publication_fence''),
         validate_run smoke ''stable isolated smoke evidence is incomplete'',
         validate_compatibility compatibility]) (\<lambda>_.
      andthen (release_identity env r) (\<lambda>identity.
      andthen (checks
        (map (\<lambda>observed. require (observed = JStr identity) ''exact release evidence is stale or cross-bound'')
           [jget (items smoke) ''release_identity'', jget (items compatibility) ''release_identity'',
            jget (items rehearsal) ''release_identity'']
         @ [validate_plan (jget r ''pre_publication_plan'') (jget (items compatibility) ''verdict'') identity])) (\<lambda>_.
      Inr identity))))"

end
