(* ===== verification/Rb_Publication.thy ===== *)
theory Rb_Publication
  imports Rb_Record
begin

text \<open>
  \<open>validate_watermark\<close>, \<open>PublicationState\<close> and \<open>choose_rollback_path\<close> of
  \<open>scripts/deploy_rollback/model.py\<close>: the persistent stage of a release, its cutover marker, and the choice
  between restoring the backup and keeping the new data.
\<close>

section \<open>Stages\<close>

datatype stage = Prepared | Migrated | Isolated_Validated | Public_Cutover

fun stage_index :: "stage \<Rightarrow> nat" where
  "stage_index Prepared = 0"
| "stage_index Migrated = 1"
| "stage_index Isolated_Validated = 2"
| "stage_index Public_Cutover = 3"

fun stage_name :: "stage \<Rightarrow> string" where
  "stage_name Prepared = ''prepared''"
| "stage_name Migrated = ''migrated''"
| "stage_name Isolated_Validated = ''isolated_validated''"
| "stage_name Public_Cutover = ''public_cutover''"

definition STAGES :: "stage list" where
  "STAGES = [Prepared, Migrated, Isolated_Validated, Public_Cutover]"

instantiation stage :: linorder
begin

definition less_eq_stage :: "stage \<Rightarrow> stage \<Rightarrow> bool" where
  "less_eq_stage s t \<longleftrightarrow> stage_index s \<le> stage_index t"

definition less_stage :: "stage \<Rightarrow> stage \<Rightarrow> bool" where
  "less_stage s t \<longleftrightarrow> stage_index s < stage_index t"

instance
proof
  show "s = t" if "s \<le> t" "t \<le> s" for s t :: stage
    using that by (cases s; cases t) (simp_all add: less_eq_stage_def)
qed (auto simp: less_eq_stage_def less_stage_def)

end

text \<open>\<open>stage in STAGES\<close> and \<open>STAGES.index(stage)\<close>.\<close>

definition stage_of :: "json \<Rightarrow> stage option" where
  "stage_of v = List.find (\<lambda>s. v = JStr (u (stage_name s))) STAGES"

section \<open>Watermarks\<close>

definition RELATIONS :: "string list" where
  "RELATIONS = [''admins'', ''products'', ''pdf_files'', ''pdf_versions'', ''admin_sessions'', ''audit_events'']"

definition watermark_item :: "json \<Rightarrow> bool" where
  "watermark_item v \<longleftrightarrow>
     (let i = items v; path = text_of (jget i ''path'')
      in is_obj v \<and> keys_are i [''path'', ''size'', ''sha256''] \<and> is_str (jget i ''path'') \<and> path \<noteq> []
         \<and> \<not> starts_with (u ''/'') path \<and> \<not> starts_with (u ''../'') path \<and> u ''..'' \<notin> set (split_on 47 path)
         \<and> (case jget i ''size'' of JInt n \<Rightarrow> 0 \<le> n | _ \<Rightarrow> False) \<and> is_sha (jget i ''sha256''))"

text \<open>\<open>paths != sorted(set(paths))\<close> fails for the strictly ascending lists only.\<close>

definition validate_watermark :: "rb_env \<Rightarrow> json \<Rightarrow> rexc + ustr" where
  "validate_watermark env w =
     (let d = items w; relations = jget d ''relations''; fls = jget d ''files''
      in andthen (checks
        [require (is_obj w \<and> keys_are d [''relations'', ''files'', ''audit_projection'']) ''full data watermark schema mismatch'',
         require (is_obj relations \<and> keys_are (items relations) RELATIONS \<and> list_all is_sha (map snd (items relations)))
           ''all stable relation projections are required'',
         require (is_arr fls) ''complete historical file manifest is required'',
         require (list_all watermark_item (elems fls)) ''historical file manifest item is invalid'',
         require (sorted_wrt (<) (map (\<lambda>i. text_of (jget (items i) ''path'')) (elems fls)))
           ''historical file manifest must be complete and canonical'',
         require (is_sha (jget d ''audit_projection'')) ''audit projection digest is required''])
        (\<lambda>_. Inr (digest_json env w)))"

section \<open>The state file\<close>

text \<open>A handle: the paths of the state, its seal and the cutover marker, and the identity they are bound to.\<close>

record publication =
  pb_path :: ustr
  pb_release :: ustr
  pb_environment :: ustr

definition integrity_path :: "ustr \<Rightarrow> ustr" where
  "integrity_path p = p @ u ''.sha256''"

definition cutover_marker :: "publication \<Rightarrow> ustr" where
  "cutover_marker pb = pb_path pb @ u ''.public-cutover''"

definition publication_init :: "ustr \<Rightarrow> ustr \<Rightarrow> ustr \<Rightarrow> rexc + publication" where
  "publication_init path release_id environment_id =
     (if \<not> starts_with (u ''/'') path \<or> path = u ''/'' then unsafe ''publication state path must be bounded and absolute''
      else if \<not> SAFE_ID release_id \<or> \<not> SAFE_ID environment_id then unsafe ''publication identity is invalid''
      else Inr \<lparr>pb_path = path, pb_release = release_id, pb_environment = environment_id\<rparr>)"

definition history_item :: "stage \<Rightarrow> datetime \<Rightarrow> json" where
  "history_item s now = JObj [(u ''stage'', JStr (u (stage_name s))), (u ''at'', JStr (format_time now))]"

text \<open>A document and the seal over its text, as every record of the module is written.\<close>

definition sealed_text :: "rb_env \<Rightarrow> json \<Rightarrow> payload" where
  "sealed_text env v = Txt (digest_json env v @ [10])"

definition prepare :: "rb_env \<Rightarrow> publication \<Rightarrow> json \<Rightarrow> datetime \<Rightarrow> jobj io" where
  "prepare env pb watermark now d =
     (if exists_at (dk_files d) (cutover_marker pb) then (unsafe ''previous public cutover marker forbids state reuse'', d)
      else case validate_watermark env watermark of
        Inl e \<Rightarrow> (Inl e, d)
      | Inr watermark_digest \<Rightarrow>
          let state = [(u ''schema_version'', JInt SCHEMA_VERSION), (u ''release_id'', JStr (pb_release pb)),
                       (u ''environment_id'', JStr (pb_environment pb)), (u ''stage'', JStr (u ''prepared'')),
                       (u ''proxy_ever_public'', JBool False), (u ''baseline_watermark'', watermark),
                       (u ''baseline_watermark_digest'', JStr watermark_digest),
                       (u ''history'', JArr [history_item Prepared now])]
          in io_bind (atomic_create (pb_path pb) (Doc (canonical (JObj state)))) (\<lambda>_.
             io_bind (cleanup (atomic_create (integrity_path (pb_path pb)) (sealed_text env (JObj state))) (unlink (pb_path pb))) (\<lambda>_.
               \<lambda>d2. (Inr state, d2))) d)"

definition seal_matches :: "rb_env \<Rightarrow> files \<Rightarrow> ustr \<Rightarrow> ustr \<Rightarrow> jobj \<Rightarrow> bool" where
  "seal_matches env fs p expected state \<longleftrightarrow>
     \<not> is_symlink fs p \<and> is_file fs p \<and> SHA256 expected \<and> digest_json env (JObj state) = expected"

definition history_stages :: "json \<Rightarrow> json list" where
  "history_stages v = map (\<lambda>i. jget (items i) ''stage'') (elems v)"

definition pub_state_ok :: "rb_env \<Rightarrow> publication \<Rightarrow> jobj \<Rightarrow> rexc + unit" where
  "pub_state_ok env pb state =
     andthen (require (keys_are state [''schema_version'', ''release_id'', ''environment_id'', ''stage'', ''proxy_ever_public'',
        ''baseline_watermark'', ''baseline_watermark_digest'', ''history''] \<and> int_of (jget state ''schema_version'') = Some SCHEMA_VERSION
        \<and> jget state ''release_id'' = JStr (pb_release pb) \<and> jget state ''environment_id'' = JStr (pb_environment pb)
        \<and> stage_of (jget state ''stage'') \<noteq> None \<and> is_bool (jget state ''proxy_ever_public''))
        ''publication state is missing, corrupt, or unknown'') (\<lambda>_.
     andthen (validate_watermark env (jget state ''baseline_watermark'')) (\<lambda>wd. checks
       [require (jget state ''baseline_watermark_digest'' = JStr wd \<and> is_arr (jget state ''history'') \<and> elems (jget state ''history'') \<noteq> [])
          ''publication state is missing, corrupt, or unknown'',
        require (history_stages (jget state ''history'')
            = map (JStr \<circ> u \<circ> stage_name) (take (stage_index (the (stage_of (jget state ''stage''))) + 1) STAGES))
          ''publication state history is non-monotonic'',
        require (jget state ''proxy_ever_public'' = JBool (stage_of (jget state ''stage'') = Some Public_Cutover))
          ''publication proxy/cutover evidence conflicts'']))"

definition marker_ok :: "publication \<Rightarrow> jobj \<Rightarrow> files \<Rightarrow> rexc + unit" where
  "marker_ok pb state fs =
     (if exists_at fs (cutover_marker pb) then
        andthen (read_json_file fs (cutover_marker pb)) (\<lambda>marker.
          require (int_of (jget marker ''schema_version'') = Some SCHEMA_VERSION \<and> jget marker ''release_id'' = JStr (pb_release pb)
              \<and> jget marker ''environment_id'' = JStr (pb_environment pb) \<and> stage_of (jget state ''stage'') = Some Public_Cutover)
            ''irreversible public cutover marker conflicts'')
      else require (stage_of (jget state ''stage'') \<noteq> Some Public_Cutover) ''irreversible public cutover marker is missing'')"

definition pub_read :: "rb_env \<Rightarrow> publication \<Rightarrow> files \<Rightarrow> rexc + jobj" where
  "pub_read env pb fs =
     andthen (read_json_file fs (pb_path pb)) (\<lambda>state.
     andthen (read_seal ''publication state integrity seal is missing'' fs (integrity_path (pb_path pb))) (\<lambda>expected.
     andthen (checks
       [require (seal_matches env fs (integrity_path (pb_path pb)) expected state) ''publication state integrity seal mismatch'',
        pub_state_ok env pb state, marker_ok pb state fs]) (\<lambda>_. Inr state)))"

definition advanced :: "stage \<Rightarrow> datetime \<Rightarrow> jobj \<Rightarrow> jobj" where
  "advanced stage now state =
     (let state1 = jset ''stage'' (JStr (u (stage_name stage))) state;
          state2 = (if stage = Public_Cutover then jset ''proxy_ever_public'' (JBool True) state1 else state1)
      in jset ''history'' (JArr (elems (jget state2 ''history'') @ [history_item stage now])) state2)"

definition marker_document :: "publication \<Rightarrow> datetime \<Rightarrow> json" where
  "marker_document pb now = JObj [(u ''schema_version'', JInt SCHEMA_VERSION), (u ''release_id'', JStr (pb_release pb)),
     (u ''environment_id'', JStr (pb_environment pb)), (u ''cutover_at'', JStr (format_time now))]"

text \<open>The marker is durable before the state says so.\<close>

definition advance :: "rb_env \<Rightarrow> publication \<Rightarrow> json \<Rightarrow> datetime \<Rightarrow> jobj io" where
  "advance env pb stage_v now d =
     (case stage_of stage_v of
        None \<Rightarrow> (unsafe ''unknown publication stage'', d)
      | Some stage \<Rightarrow>
          (case pub_read env pb (dk_files d) of
             Inl e \<Rightarrow> (Inl e, d)
           | Inr state \<Rightarrow>
               if stage_index stage \<noteq> stage_index (the (stage_of (jget state ''stage''))) + 1
               then (unsafe ''publication state must advance exactly one stage'', d)
               else (let state' = advanced stage now state
                     in io_bind (if stage = Public_Cutover then atomic_create (cutover_marker pb) (Doc (canonical (marker_document pb now)))
                                 else (\<lambda>d1. (Inr (), d1))) (\<lambda>_.
                        io_bind (atomic_write (pb_path pb) (Doc (canonical (JObj state')))) (\<lambda>_.
                        io_bind (atomic_write (integrity_path (pb_path pb)) (sealed_text env (JObj state'))) (\<lambda>_.
                          \<lambda>d2. (Inr state', d2)))) d)))"

definition authorize_proxy_start :: "rb_env \<Rightarrow> publication \<Rightarrow> files \<Rightarrow> rexc + unit" where
  "authorize_proxy_start env pb fs =
     andthen (pub_read env pb fs) (\<lambda>state.
       require (stage_of (jget state ''stage'') = Some Public_Cutover \<and> is_true (jget state ''proxy_ever_public''))
         ''proxy remains blocked until durable public_cutover'')"

section \<open>The choice of the path\<close>

datatype rollback_path = Pre_Public_Restore | Preserve_Forward_Data

fun rollback_path_name :: "rollback_path \<Rightarrow> string" where
  "rollback_path_name Pre_Public_Restore = ''pre_public_restore''"
| "rollback_path_name Preserve_Forward_Data = ''preserve_forward_data''"

text \<open>\<open>except (OSError, RollbackSafetyError, TypeError, AttributeError)\<close>.\<close>

definition choice_handles :: "rexc \<Rightarrow> bool" where
  "choice_handles e \<longleftrightarrow> is_safety e \<or> e = PyOSError \<or> e = PyTypeError"

definition positive_proof :: "rb_env \<Rightarrow> jobj \<Rightarrow> json \<Rightarrow> bool \<Rightarrow> rexc + bool" where
  "positive_proof env state current isolated =
     (let baseline_digest = jget state ''baseline_watermark_digest''
      in if stage_of (jget state ''stage'') \<in> Some ` set (butlast STAGES) \<and> jget state ''proxy_ever_public'' = JBool False \<and> isolated
         then andthen (validate_watermark env (jget state ''baseline_watermark'')) (\<lambda>wd.
           Inr (baseline_digest = JStr wd \<and> baseline_digest = JStr (digest_json env current)))
         else Inr False)"

definition choose_rollback_path :: "rb_env \<Rightarrow> rexc + jobj \<Rightarrow> json \<Rightarrow> bool \<Rightarrow> rexc + rollback_path" where
  "choose_rollback_path env loaded current isolated =
     andthen (validate_watermark env current) (\<lambda>_.
       case andthen loaded (\<lambda>state. positive_proof env state current isolated) of
         Inr True \<Rightarrow> Inr Pre_Public_Restore
       | Inr False \<Rightarrow> Inr Preserve_Forward_Data
       | Inl e \<Rightarrow> if choice_handles e then Inr Preserve_Forward_Data else Inl e)"

section \<open>The files of a publication\<close>

lemma paths_distinct [simp]:
  "integrity_path p \<noteq> p" "p \<noteq> integrity_path p" "cutover_marker pb \<noteq> pb_path pb" "pb_path pb \<noteq> cutover_marker pb"
  "integrity_path (pb_path pb) \<noteq> cutover_marker pb" "cutover_marker pb \<noteq> integrity_path (pb_path pb)"
  by (simp_all add: integrity_path_def cutover_marker_def)

text \<open>What a primitive may leave behind.\<close>

lemma atomic_write_files:
  "atomic_write p c d = (r, d') \<Longrightarrow> dk_files d' = dk_files d \<or> dk_files d' = (dk_files d)(p \<mapsto> Regular False c)"
  by (auto simp: atomic_write_def attempt_def Let_def split: if_splits option.splits node.splits list.splits outcome.splits)

lemma atomic_create_files:
  "atomic_create p c d = (r, d') \<Longrightarrow> dk_files d' = dk_files d
     \<or> dk_files d p = None \<and> (\<exists>c'. dk_files d' = (dk_files d)(p \<mapsto> Regular False c'))"
  by (auto simp: atomic_create_def attempt_def split: if_splits list.splits outcome.splits)

lemma unlink_files:
  "unlink p d = (r, d') \<Longrightarrow> dk_files d' = dk_files d \<or> dk_files d' = (dk_files d)(p := None)"
  by (auto simp: unlink_def attempt_def split: list.splits outcome.splits)

text \<open>Preparation writes only where nothing was; it never touches the marker.\<close>

lemma atomic_create_present: "dk_files d p \<noteq> None \<Longrightarrow> \<exists>e. atomic_create p c d = (Inl e, d)"
  by (auto simp: atomic_create_def)

lemma prepare_present:
  assumes "dk_files d (pb_path pb) \<noteq> None"
  shows "\<exists>e. prepare env pb wm now d = (Inl e, d)"
proof -
  have "\<exists>e. io_bind (atomic_create (pb_path pb) c) k d = (Inl e, d)" for c and k :: "unit \<Rightarrow> jobj io"
    using atomic_create_present [of d "pb_path pb" c] assms by (auto simp: io_bind_def)
  then show ?thesis by (simp add: prepare_def Let_def split: sum.split)
qed

lemma prepare_files:
  assumes "prepare env pb wm now d = (r, d')"
  shows "dk_files d' (cutover_marker pb) = dk_files d (cutover_marker pb)
    \<and> (dk_files d (pb_path pb) \<noteq> None \<longrightarrow> dk_files d' = dk_files d)"
proof -
  have create: "dk_files d1 (cutover_marker pb) = dk_files d0 (cutover_marker pb)"
    if "atomic_create p c d0 = (q, d1)" "p \<noteq> cutover_marker pb" for p c q d0 d1
    using atomic_create_files [OF that(1)] that(2) by auto
  have clean: "dk_files d1 (cutover_marker pb) = dk_files d0 (cutover_marker pb)"
    if "cleanup (atomic_create (integrity_path (pb_path pb)) c) (unlink (pb_path pb)) d0 = (q, d1)" for c q d0 d1
    using that create unlink_files by (fastforce simp: cleanup_def split: prod.splits sum.splits if_splits)
  have "dk_files d' (cutover_marker pb) = dk_files d (cutover_marker pb)"
    using assms unfolding prepare_def io_bind_def Let_def
    by (auto split: if_splits sum.splits prod.splits dest!: create clean)
  with prepare_present [of d pb env wm now] assms show ?thesis by auto
qed

lemma advance_files:
  assumes "advance env pb stage_v now d = (r, d')"
  shows "dk_files d' = dk_files d
    \<or> (\<exists>stage state. stage_of stage_v = Some stage \<and> pub_read env pb (dk_files d) = Inr state
         \<and> stage_index stage = stage_index (the (stage_of (jget state ''stage''))) + 1
         \<and> (if stage = Public_Cutover then dk_files d (cutover_marker pb) = None \<and> dk_files d' (cutover_marker pb) \<noteq> None
            else dk_files d' (cutover_marker pb) = dk_files d (cutover_marker pb))
         \<and> (dk_files d' (pb_path pb) = dk_files d (pb_path pb)
            \<or> dk_files d' (pb_path pb) = Some (Regular False (Doc (canonical (JObj (advanced stage now state)))))))"
proof (cases "stage_of stage_v")
  case None
  with assms show ?thesis by (simp add: advance_def)
next
  case stage: (Some stage)
  show ?thesis
  proof (cases "pub_read env pb (dk_files d)")
    case (Inl e)
    with assms stage show ?thesis by (simp add: advance_def)
  next
    case (Inr state)
    define ok where "ok = (stage_index stage = stage_index (the (stage_of (jget state ''stage''))) + 1)"
    define mark where "mark = (if stage = Public_Cutover
        then atomic_create (cutover_marker pb) (Doc (canonical (marker_document pb now))) else (\<lambda>d1. (Inr (), d1)))"
    obtain q1 d1 where m1: "mark d = (q1, d1)" by fastforce
    obtain q2 d2 where m2: "atomic_write (pb_path pb) (Doc (canonical (JObj (advanced stage now state)))) d1 = (q2, d2)" by fastforce
    obtain q3 d3 where m3: "atomic_write (integrity_path (pb_path pb)) (sealed_text env (JObj (advanced stage now state))) d2 = (q3, d3)"
      by fastforce
    have c1: "dk_files d1 = dk_files d \<or> (stage = Public_Cutover \<and> dk_files d (cutover_marker pb) = None
        \<and> (\<exists>c. dk_files d1 = (dk_files d)(cutover_marker pb \<mapsto> Regular False c)))"
      using m1 atomic_create_files by (fastforce simp: mark_def split: if_splits)
    have ok1: "stage = Public_Cutover \<Longrightarrow> q1 = Inr () \<Longrightarrow> dk_files d (cutover_marker pb) = None \<and> dk_files d1 (cutover_marker pb) \<noteq> None"
      using m1 by (auto simp: mark_def atomic_create_def attempt_def split: if_splits list.splits outcome.splits)
    note c2 = atomic_write_files [OF m2] and c3 = atomic_write_files [OF m3]
    show ?thesis
    proof (cases ok)
      case False
      with assms stage Inr show ?thesis by (simp add: advance_def ok_def)
    next
      case True
      have "(r, d') = (case q1 of Inl e \<Rightarrow> (Inl e, d1) | Inr _ \<Rightarrow> (case q2 of Inl e \<Rightarrow> (Inl e, d2) | Inr _ \<Rightarrow>
          (case q3 of Inl e \<Rightarrow> (Inl e, d3) | Inr _ \<Rightarrow> (Inr (advanced stage now state), d3))))"
        using assms stage Inr True m1 m2 m3
        by (auto simp: advance_def ok_def io_bind_def Let_def mark_def split: sum.splits if_splits)
      then have "q1 \<noteq> Inr () \<and> d' = d1 \<or> q1 = Inr () \<and> (d' = d2 \<or> d' = d3)"
        by (cases q1; cases q2; cases q3) auto
      then show ?thesis
        using c1 c2 c3 ok1 stage Inr True unfolding ok_def
        by (elim disjE conjE exE) (auto split: if_splits)
    qed
  qed
qed

section \<open>Reading back\<close>

lemma stage_name_inject [simp]: "stage_name s = stage_name t \<longleftrightarrow> s = t"
  by (cases s; cases t) simp_all

lemma stage_of_name [simp]: "stage_of (JStr (u (stage_name s))) = Some s"
  by (cases s) (simp_all add: stage_of_def STAGES_def del: u_Cons)

lemma stage_ofD: "stage_of v = Some s \<Longrightarrow> v = JStr (u (stage_name s))"
  by (auto simp: stage_of_def dest: find_SomeD)

lemma stage_of_canonical [simp]: "stage_of (canonical v) = stage_of v"
  by (simp add: stage_of_def)

lemma is_sha_canonical [simp]: "is_sha (canonical v) = is_sha v"
  by (cases v) (simp_all add: is_sha_def)

lemma read_json_file_Inr:
  "read_json_file fs p = Inr state \<longleftrightarrow> (\<exists>c. fs p = Some (Regular False c) \<and> document c = Inr (JObj state))"
  by (auto simp: read_json_file_def split: option.splits node.splits bool.splits sum.splits rexc.splits json.splits)

lemma pub_read_Inr:
  "pub_read env pb fs = Inr state \<Longrightarrow> read_json_file fs (pb_path pb) = Inr state \<and> pub_state_ok env pb state = Inr ()
     \<and> marker_ok pb state fs = Inr ()"
  by (auto simp: pub_read_def returns)

lemma pub_state_okD:
  assumes "pub_state_ok env pb state = Inr x"
  obtains s wd where "stage_of (jget state ''stage'') = Some s" "jget state ''proxy_ever_public'' = JBool (s = Public_Cutover)"
    "validate_watermark env (jget state ''baseline_watermark'') = Inr wd" "jget state ''baseline_watermark_digest'' = JStr wd"
    "history_stages (jget state ''history'') = map (JStr \<circ> u \<circ> stage_name) (take (stage_index s + 1) STAGES)"
    "jget state ''release_id'' = JStr (pb_release pb)" "jget state ''environment_id'' = JStr (pb_environment pb)"
  using assms by (auto simp: pub_state_ok_def returns)

lemma marker_ok_cutover:
  assumes "marker_ok pb state fs = Inr x"
  shows "exists_at fs (cutover_marker pb) \<longleftrightarrow> stage_of (jget state ''stage'') = Some Public_Cutover"
  using assms by (auto simp: marker_ok_def returns split: if_splits)

lemma jget_advanced_stage: "jget (advanced s now state) ''stage'' = JStr (u (stage_name s))"
  by (simp add: advanced_def Let_def)

lemma stage_advanced [simp]: "stage_of (jget (advanced s now state) ''stage'') = Some s"
  unfolding jget_advanced_stage by (rule stage_of_name)

text \<open>The stage a state file shows, whether its seal fits or not.\<close>

definition file_stage :: "files \<Rightarrow> ustr \<Rightarrow> stage option" where
  "file_stage fs p = (case read_json_file fs p of Inl _ \<Rightarrow> None | Inr state \<Rightarrow> stage_of (jget state ''stage''))"

lemma file_stage_cong: "fs' p = fs p \<Longrightarrow> file_stage fs' p = file_stage fs p"
  by (simp add: file_stage_def read_json_file_def)

lemma file_stage_written:
  "fs p = Some (Regular False (Doc (canonical (JObj (advanced s now state))))) \<Longrightarrow> file_stage fs p = Some s"
  by (simp add: file_stage_def read_json_file_def)

lemma file_stage_read: "pub_read env pb fs = Inr state \<Longrightarrow> file_stage fs (pb_path pb) = stage_of (jget state ''stage'')"
  by (simp add: file_stage_def pub_read_Inr)

section \<open>Runs\<close>

text \<open>One operation with any plan of faults; a crash is a plan that kills it.\<close>

inductive pub_step :: "rb_env \<Rightarrow> publication \<Rightarrow> files \<Rightarrow> files \<Rightarrow> bool" for env pb where
  Prepare: "prepare env pb wm now \<lparr>dk_files = fs, dk_plan = plan\<rparr> = (r, d) \<Longrightarrow> pub_step env pb fs (dk_files d)"
| Advance: "advance env pb stage_v now \<lparr>dk_files = fs, dk_plan = plan\<rparr> = (r, d) \<Longrightarrow> pub_step env pb fs (dk_files d)"

abbreviation pub_steps :: "rb_env \<Rightarrow> publication \<Rightarrow> files \<Rightarrow> files \<Rightarrow> bool" where
  "pub_steps env pb \<equiv> (pub_step env pb)\<^sup>*\<^sup>*"

lemma step_marker:
  assumes "pub_step env pb fs fs'" "fs (cutover_marker pb) \<noteq> None"
  shows "fs' (cutover_marker pb) = fs (cutover_marker pb)"
  using assms(1)
proof (cases rule: pub_step.cases)
  case (Prepare wm now plan r d)
  with prepare_files [OF Prepare(2)] show ?thesis by simp
next
  case (Advance stage_v now plan r d)
  with advance_files [OF Advance(2)] assms(2) show ?thesis by (auto split: if_splits)
qed

lemma step_stage:
  assumes "pub_step env pb fs fs'" "fs (pb_path pb) \<noteq> None"
  shows "fs' (pb_path pb) \<noteq> None \<and> (\<forall>s. file_stage fs (pb_path pb) = Some s \<longrightarrow> (\<exists>s'. s \<le> s' \<and> file_stage fs' (pb_path pb) = Some s'))"
  using assms(1)
proof (cases rule: pub_step.cases)
  case (Prepare wm now plan r d)
  with prepare_files [OF Prepare(2)] assms(2) show ?thesis by auto
next
  case (Advance stage_v now plan r d)
  from advance_files [OF Advance(2)] consider "fs' (pb_path pb) = fs (pb_path pb)"
    | stage state where "pub_read env pb fs = Inr state" "stage_index stage = stage_index (the (stage_of (jget state ''stage''))) + 1"
      "fs' (pb_path pb) = Some (Regular False (Doc (canonical (JObj (advanced stage now state)))))"
    unfolding Advance(1) by (elim disjE exE conjE) auto
  then show ?thesis
  proof cases
    case 1
    with assms(2) file_stage_cong [of fs' "pb_path pb" fs] show ?thesis by auto
  next
    case 2
    then show ?thesis
      using file_stage_written [of fs' "pb_path pb", OF 2(3)] file_stage_read [OF 2(1)] by (auto simp: less_eq_stage_def)
  qed
qed

lemma steps_marker: "pub_steps env pb fs fs' \<Longrightarrow> fs (cutover_marker pb) \<noteq> None \<Longrightarrow> fs' (cutover_marker pb) = fs (cutover_marker pb)"
  by (induction rule: rtranclp_induct) (auto dest: step_marker)

lemma steps_stage:
  "pub_steps env pb fs fs' \<Longrightarrow> fs (pb_path pb) \<noteq> None \<Longrightarrow> file_stage fs (pb_path pb) = Some s \<Longrightarrow>
     fs' (pb_path pb) \<noteq> None \<and> (\<exists>s'. s \<le> s' \<and> file_stage fs' (pb_path pb) = Some s')"
  by (induction rule: rtranclp_induct) (auto dest!: step_stage intro: order_trans)

section \<open>What the choice rests on\<close>

lemma choose_pre_public:
  "choose_rollback_path env (pub_read env pb fs) current isolated = Inr Pre_Public_Restore \<longleftrightarrow>
     (\<exists>wd state. validate_watermark env current = Inr wd \<and> isolated \<and> pub_read env pb fs = Inr state
        \<and> stage_of (jget state ''stage'') \<noteq> Some Public_Cutover \<and> jget state ''baseline_watermark_digest'' = JStr (digest_json env current))"
proof -
  have pre: "stage_of v \<in> Some ` set (butlast STAGES) \<longleftrightarrow> (\<exists>s. stage_of v = Some s \<and> s \<noteq> Public_Cutover)" for v
    by (cases "stage_of v"; cases "the (stage_of v)") (auto simp: STAGES_def)
  show ?thesis
    by (fastforce simp: choose_rollback_path_def positive_proof_def andthen_def pre Let_def
        split: sum.splits bool.splits if_splits dest: pub_read_Inr elim!: pub_state_okD)
qed


section \<open>Writing and reading\<close>

lemma watermark_item_canonical [simp]: "watermark_item (canonical v) = watermark_item v"
proof -
  have "(case canonical w of JInt n \<Rightarrow> 0 \<le> n | _ \<Rightarrow> False) = (case w of JInt n \<Rightarrow> 0 \<le> n | _ \<Rightarrow> False)" for w
    by (cases w) simp_all
  then show ?thesis by (simp add: watermark_item_def Let_def)
qed

lemma list_all_values_canonical:
  assumes "\<And>v. P (canonical v) = P v"
  shows "list_all P (map snd (items (canonical w))) = list_all P (map snd (items w))"
  using assms by (cases w) (auto simp: list_all_iff)

lemma validate_watermark_canonical [simp]: "validate_watermark env (canonical w) = validate_watermark env w"
proof -
  have "list_all is_sha (map snd (items (jget (items (canonical w)) ''relations''))) = list_all is_sha (map snd (items (jget (items w) ''relations'')))"
    using list_all_values_canonical [of is_sha] by simp
  moreover have "list_all watermark_item (map canonical xs) = list_all watermark_item xs" for xs
    by (induction xs) auto
  moreover have "map (\<lambda>i. text_of (jget (items i) ''path'')) (map canonical xs) = map (\<lambda>i. text_of (jget (items i) ''path'')) xs" for xs
    by simp
  ultimately show ?thesis by (simp add: validate_watermark_def Let_def del: map_map)
qed

lemma history_stages_canonical [simp]: "history_stages v = map (JStr \<circ> u \<circ> stage_name) ss \<Longrightarrow>
    history_stages (canonical v) = map (JStr \<circ> u \<circ> stage_name) ss"
proof -
  assume a: "history_stages v = map (JStr \<circ> u \<circ> stage_name) ss"
  have "history_stages (canonical v) = map canonical (history_stages v)" by (simp add: history_stages_def)
  then show ?thesis unfolding a by simp
qed

lemma pub_state_ok_canonical:
  assumes "pub_state_ok env pb state = Inr ()"
  shows "pub_state_ok env pb (items (canonical (JObj state))) = Inr ()"
  using assms unfolding pub_state_ok_def
  by (simp add: returns del: canonical.simps items.simps) (auto simp: history_stages_canonical)

text \<open>The seal of a written document, once its line end is stripped.\<close>

lemma hex_not_space: "SHA256 s \<Longrightarrow> list_all (\<lambda>c. \<not> is_space c) s \<and> list_all (\<lambda>c. c < 128) s"
  by (auto simp: SHA256_def hex_text_def list_all_iff is_hex_def is_digit_def is_space_def)

lemma strip_line: "list_all (\<lambda>c. \<not> is_space c) s \<Longrightarrow> strip (s @ [10]) = s"
proof -
  assume s: "list_all (\<lambda>c. \<not> is_space c) s"
  have r: "rstrip (s @ [10]) = rstrip s" by (simp add: rstrip_def is_space_def)
  show ?thesis
  proof (cases s)
    case Nil
    then show ?thesis by (simp add: strip_def lstrip_def rstrip_def is_space_def)
  next
    case (Cons c t)
    with s have "lstrip (s @ [10]) = s @ [10]" "lstrip s = s" by (simp_all add: lstrip_def)
    with r s strip_no_space [OF s] show ?thesis by (simp add: strip_def)
  qed
qed

lemma read_sealed_text:
  assumes "fs p = Some (Regular False (sealed_text env v))" "SHA256 (digest_json env v)"
  shows "read_seal msg fs p = Inr (digest_json env v)"
  using assms hex_not_space [OF assms(2)] by (simp add: read_seal_def sealed_text_def strip_line)

lemma pub_read_written:
  assumes "fs (pb_path pb) = Some (Regular False (Doc (canonical (JObj state))))"
    "fs (integrity_path (pb_path pb)) = Some (Regular False (sealed_text env (JObj state)))"
    "SHA256 (digest_json env (JObj state))" "pub_state_ok env pb state = Inr ()" "marker_ok pb state fs = Inr ()"
  shows "pub_read env pb fs = Inr (items (canonical (JObj state)))"
proof -
  define c where "c = items (canonical (JObj state))"
  have jc: "JObj c = canonical (JObj state)" by (simp add: c_def)
  have "read_json_file fs (pb_path pb) = Inr c" using assms(1) by (simp add: read_json_file_def c_def)
  moreover have "seal_matches env fs (integrity_path (pb_path pb)) (digest_json env (JObj state)) c"
    using assms(2,3) by (simp add: seal_matches_def jc is_symlink_def is_file_def del: canonical.simps)
  moreover have "marker_ok pb c fs = marker_ok pb state fs" by (simp add: marker_ok_def c_def)
  moreover have "pub_state_ok env pb c = Inr ()" unfolding c_def using assms(4) by (rule pub_state_ok_canonical)
  ultimately show ?thesis
    using read_sealed_text [of fs "integrity_path (pb_path pb)" env "JObj state", OF assms(2,3)] assms(5) by (simp add: pub_read_def checks.simps require_def) (simp add: c_def)
qed

text \<open>A publication at stage \<open>s\<close> whose baseline is \<open>wm\<close>, sealed on a disk without faults.\<close>

definition stored :: "rb_env \<Rightarrow> publication \<Rightarrow> stage \<Rightarrow> json \<Rightarrow> disk \<Rightarrow> bool" where
  "stored env pb s wm d \<longleftrightarrow> dk_plan d = [] \<and> (s \<noteq> Public_Cutover \<longrightarrow> dk_files d (cutover_marker pb) = None)
     \<and> (\<exists>state. dk_files d (pb_path pb) = Some (Regular False (Doc (canonical (JObj state))))
          \<and> dk_files d (integrity_path (pb_path pb)) = Some (Regular False (sealed_text env (JObj state)))
          \<and> pub_state_ok env pb state = Inr () \<and> stage_of (jget state ''stage'') = Some s
          \<and> jget state ''baseline_watermark_digest'' = JStr (digest_json env wm) \<and> marker_ok pb state (dk_files d) = Inr ())"

lemma stored_read:
  assumes "stored env pb s wm d" "\<And>v. SHA256 (digest_json env v)"
  obtains state where "pub_read env pb (dk_files d) = Inr state" "pub_state_ok env pb state = Inr ()"
    "stage_of (jget state ''stage'') = Some s" "jget state ''baseline_watermark_digest'' = JStr (digest_json env wm)"
proof -
  from assms(1) obtain st where st: "dk_files d (pb_path pb) = Some (Regular False (Doc (canonical (JObj st))))"
    "dk_files d (integrity_path (pb_path pb)) = Some (Regular False (sealed_text env (JObj st)))"
    "pub_state_ok env pb st = Inr ()" "marker_ok pb st (dk_files d) = Inr ()"
    "stage_of (jget st ''stage'') = Some s" "jget st ''baseline_watermark_digest'' = JStr (digest_json env wm)"
    unfolding stored_def by blast
  show thesis
  proof (rule that)
    show "pub_read env pb (dk_files d) = Inr (items (canonical (JObj st)))"
      by (rule pub_read_written [OF st(1,2) assms(2) st(3,4)])
    show "pub_state_ok env pb (items (canonical (JObj st))) = Inr ()" by (rule pub_state_ok_canonical [OF st(3)])
  qed (simp_all add: st(5,6))
qed

lemma advanced_ok:
  assumes ok: "pub_state_ok env pb state = Inr ()" and s: "stage_of (jget state ''stage'') = Some s"
    and n: "stage_index t = stage_index s + 1"
  shows "pub_state_ok env pb (advanced t now state) = Inr ()"
    "jget (advanced t now state) ''baseline_watermark_digest'' = jget state ''baseline_watermark_digest''"
proof -
  have h: "history_stages (jget state ''history'') = map (JStr \<circ> u \<circ> stage_name) (take (stage_index s + 1) STAGES)"
    using ok s by (auto simp: pub_state_ok_def returns)
  have "history_stages (jget (advanced t now state) ''history'')
      = history_stages (jget state ''history'') @ [JStr (u (stage_name t))]"
    by (simp add: advanced_def Let_def history_stages_def history_item_def jget_Cons del: u_Cons)
  also have "\<dots> = map (JStr \<circ> u \<circ> stage_name) (take (stage_index t + 1) STAGES)"
    unfolding h using n by (cases s; cases t) (simp_all add: STAGES_def del: u_Cons)
  finally have h': "history_stages (jget (advanced t now state) ''history'') = map (JStr \<circ> u \<circ> stage_name) (take (stage_index t + 1) STAGES)" .
  have p: "jget (advanced t now state) ''proxy_ever_public'' = JBool (t = Public_Cutover)"
    using ok s n by (cases s; cases t) (auto simp: advanced_def Let_def pub_state_ok_def returns)
  have "\<And>k. k \<noteq> ''stage'' \<Longrightarrow> k \<noteq> ''proxy_ever_public'' \<Longrightarrow> k \<noteq> ''history'' \<Longrightarrow> jget (advanced t now state) k = jget state k"
    by (simp add: advanced_def Let_def)
  moreover have "is_arr (jget (advanced t now state) ''history'') \<and> elems (jget (advanced t now state) ''history'') \<noteq> []"
    by (simp add: advanced_def Let_def)
  moreover have "keys_are (advanced t now state) [''schema_version'', ''release_id'', ''environment_id'', ''stage'', ''proxy_ever_public'',
        ''baseline_watermark'', ''baseline_watermark_digest'', ''history'']"
    using ok by (simp add: advanced_def Let_def pub_state_ok_def returns keys_are_jset)
  ultimately show "pub_state_ok env pb (advanced t now state) = Inr ()"
    "jget (advanced t now state) ''baseline_watermark_digest'' = jget state ''baseline_watermark_digest''"
    using ok p h' unfolding pub_state_ok_def by (auto simp: returns)
qed

lemma stored_advance:
  assumes st: "stored env pb s wm d" and hex: "\<And>v. SHA256 (digest_json env v)" and "abs": "starts_with (u ''/'') (pb_path pb)"
    and dirs: "\<And>b. dk_files d (pb_path pb) \<noteq> Some (Folder b)" and n: "stage_index t = stage_index s + 1"
  shows "\<exists>state d'. advance env pb (JStr (u (stage_name t))) now d = (Inr state, d') \<and> stored env pb t wm d'"
proof -
  obtain state where r: "pub_read env pb (dk_files d) = Inr state" "pub_state_ok env pb state = Inr ()"
    "stage_of (jget state ''stage'') = Some s" "jget state ''baseline_watermark_digest'' = JStr (digest_json env wm)"
    by (rule stored_read [OF st hex])
  note a = advanced_ok [OF r(2,3) n, of now]
  from st obtain c c2 where f: "dk_plan d = []" "dk_files d (cutover_marker pb) = None"
      "dk_files d (pb_path pb) = Some (Regular False c)" "dk_files d (integrity_path (pb_path pb)) = Some (Regular False c2)"
    using n by (cases s; cases t) (auto simp: stored_def)
  have absolute: "starts_with (u ''/'') (integrity_path (pb_path pb))" "starts_with (u ''/'') (cutover_marker pb)"
    using "abs" starts_withE [OF "abs"] by (auto simp: integrity_path_def cutover_marker_def starts_with_def)
  define fs1 where "fs1 = (if t = Public_Cutover then (dk_files d)(cutover_marker pb \<mapsto> Regular False (Doc (canonical (marker_document pb now)))) else dk_files d)"
  define fs3 where "fs3 = fs1(pb_path pb \<mapsto> Regular False (Doc (canonical (JObj (advanced t now state)))),
      integrity_path (pb_path pb) \<mapsto> Regular False (sealed_text env (JObj (advanced t now state))))"
  have run: "advance env pb (JStr (u (stage_name t))) now d = (Inr (advanced t now state), d\<lparr>dk_files := fs3\<rparr>)"
    using f r n "abs" absolute
    by (simp add: advance_def stage_of_name io_bind_def atomic_create_def atomic_write_def attempt_def Let_def fs1_def fs3_def
        del: canonical.simps u_Cons)
  have "marker_ok pb (advanced t now state) fs3 = Inr ()"
    using f by (simp add: marker_ok_def fs3_def fs1_def exists_at_def read_json_file_def require_def marker_document_def
        jget_Cons SCHEMA_VERSION_def del: u_Cons)
  with a r(4) f run show ?thesis
    by (auto simp: stored_def fs3_def fs1_def simp del: canonical.simps intro!: exI [of _ "advanced t now state"])
qed

lemma stored_prepare:
  assumes hex: "\<And>v. SHA256 (digest_json env v)" and "abs": "starts_with (u ''/'') (pb_path pb)"
    and wm: "validate_watermark env wm = Inr wd" and d: "dk_plan d = []" "dk_files d (pb_path pb) = None"
      "dk_files d (integrity_path (pb_path pb)) = None" "dk_files d (cutover_marker pb) = None"
  shows "\<exists>state d'. prepare env pb wm now d = (Inr state, d') \<and> stored env pb Prepared wm d'"
proof -
  have wd: "wd = digest_json env wm" using wm by (auto simp: validate_watermark_def Let_def returns)
  define state where "state = [(u ''schema_version'', JInt SCHEMA_VERSION), (u ''release_id'', JStr (pb_release pb)),
     (u ''environment_id'', JStr (pb_environment pb)), (u ''stage'', JStr (u ''prepared'')),
     (u ''proxy_ever_public'', JBool False), (u ''baseline_watermark'', wm),
     (u ''baseline_watermark_digest'', JStr wd), (u ''history'', JArr [history_item Prepared now])]"
  have absolute: "starts_with (u ''/'') (integrity_path (pb_path pb))"
    using starts_withE [OF "abs"] by (auto simp: integrity_path_def starts_with_def)
  define fs where "fs = (dk_files d)(pb_path pb \<mapsto> Regular False (Doc (canonical (JObj state))),
      integrity_path (pb_path pb) \<mapsto> Regular False (sealed_text env (JObj state)))"
  have run: "prepare env pb wm now d = (Inr state, d\<lparr>dk_files := fs\<rparr>)"
    using d wm "abs" absolute
    by (simp add: prepare_def exists_at_def io_bind_def cleanup_def atomic_create_def attempt_def Let_def fs_def state_def [symmetric]
        del: canonical.simps u_Cons)
  have st: "stage_of (jget state ''stage'') = Some Prepared"
    using stage_of_name [of Prepared] by (simp add: state_def jget_Cons del: u_Cons stage_of_name)
  have "pub_state_ok env pb state = Inr ()"
    using wm st unfolding pub_state_ok_def
    by (simp add: returns state_def jget_Cons keys_are_def history_stages_def history_item_def STAGES_def SCHEMA_VERSION_def del: u_Cons)
  moreover have "marker_ok pb state fs = Inr ()"
    using d st by (simp add: marker_ok_def fs_def exists_at_def require_def)
  moreover have "jget state ''baseline_watermark_digest'' = JStr (digest_json env wm)"
    by (simp add: state_def wd jget_Cons del: u_Cons)
  ultimately have "stored env pb Prepared wm (d\<lparr>dk_files := fs\<rparr>)"
    using st d by (auto simp: stored_def fs_def simp del: canonical.simps intro!: exI [of _ state])
  with run show ?thesis by blast
qed

lemma stored_choice:
  assumes "stored env pb s wm d" "\<And>v. SHA256 (digest_json env v)" "validate_watermark env wm = Inr wd"
  shows "choose_rollback_path env (pub_read env pb (dk_files d)) wm True
      = Inr (if s = Public_Cutover then Preserve_Forward_Data else Pre_Public_Restore)"
    "(\<exists>x. authorize_proxy_start env pb (dk_files d) = Inr x) \<longleftrightarrow> s = Public_Cutover"
proof -
  obtain state where r: "pub_read env pb (dk_files d) = Inr state" "pub_state_ok env pb state = Inr ()"
    "stage_of (jget state ''stage'') = Some s" "jget state ''baseline_watermark_digest'' = JStr (digest_json env wm)"
    by (rule stored_read [OF assms(1,2)])
  have p: "jget state ''proxy_ever_public'' = JBool (s = Public_Cutover)"
    using r(2,3) by (auto elim: pub_state_okD)
  show "(\<exists>x. authorize_proxy_start env pb (dk_files d) = Inr x) \<longleftrightarrow> s = Public_Cutover"
    using r p by (auto simp: authorize_proxy_start_def returns)
  show "choose_rollback_path env (pub_read env pb (dk_files d)) wm True
      = Inr (if s = Public_Cutover then Preserve_Forward_Data else Pre_Public_Restore)"
  proof (cases "s = Public_Cutover")
    case True
    then show ?thesis using r assms(3) by (simp add: choose_rollback_path_def positive_proof_def STAGES_def)
  next
    case False
    have "choose_rollback_path env (pub_read env pb (dk_files d)) wm True = Inr Pre_Public_Restore"
      unfolding choose_pre_public using r assms(3) False by auto
    with False show ?thesis by simp
  qed
qed

lemma stored_run:
  assumes hex: "\<And>v. SHA256 (digest_json env v)" and pb: "publication_init path release environment = Inr pb"
    and wm: "validate_watermark env wm = Inr wd"
    and fresh: "fs path = None" "fs (integrity_path path) = None" "fs (cutover_marker pb) = None"
  obtains s0 d0 s1 d1 s2 d2 s3 d3 where "prepare env pb wm t0 \<lparr>dk_files = fs, dk_plan = []\<rparr> = (Inr s0, d0)"
    "stored env pb Prepared wm d0"
    "advance env pb (JStr (u ''migrated'')) t1 d0 = (Inr s1, d1)" "stored env pb Migrated wm d1"
    "advance env pb (JStr (u ''isolated_validated'')) t2 d1 = (Inr s2, d2)" "stored env pb Isolated_Validated wm d2"
    "advance env pb (JStr (u ''public_cutover'')) t3 d2 = (Inr s3, d3)" "stored env pb Public_Cutover wm d3"
proof -
  have p: "pb_path pb = path" "starts_with (u ''/'') (pb_path pb)" using pb by (auto simp: publication_init_def split: if_splits)
  have dirs: "dk_files d (pb_path pb) \<noteq> Some (Folder b)" if "stored env pb s wm d" for s d b
    using that by (auto simp: stored_def)
  have step: "\<exists>state d'. advance env pb (JStr (u (stage_name t))) now d = (Inr state, d') \<and> stored env pb t wm d'"
    if "stored env pb s wm d" "stage_index t = stage_index s + 1" for s t d now
    using stored_advance [OF that(1) hex p(2) dirs [OF that(1)] that(2)] .
  obtain s0 d0 where 0: "prepare env pb wm t0 \<lparr>dk_files = fs, dk_plan = []\<rparr> = (Inr s0, d0)" "stored env pb Prepared wm d0"
    using stored_prepare [OF hex p(2) wm, of "\<lparr>dk_files = fs, dk_plan = []\<rparr>" t0] fresh p(1) by auto
  obtain s1 d1 where 1: "advance env pb (JStr (u ''migrated'')) t1 d0 = (Inr s1, d1)" "stored env pb Migrated wm d1"
    using step [OF 0(2), of Migrated t1] by (auto simp del: u_Cons)
  obtain s2 d2 where 2: "advance env pb (JStr (u ''isolated_validated'')) t2 d1 = (Inr s2, d2)" "stored env pb Isolated_Validated wm d2"
    using step [OF 1(2), of Isolated_Validated t2] by (auto simp del: u_Cons)
  obtain s3 d3 where 3: "advance env pb (JStr (u ''public_cutover'')) t3 d2 = (Inr s3, d3)" "stored env pb Public_Cutover wm d3"
    using step [OF 2(2), of Public_Cutover t3] by (auto simp del: u_Cons)
  show thesis by (rule that [OF 0 1 2 3])
qed

text \<open>A publication and a watermark without files.\<close>

definition sample_env :: rb_env where
  "sample_env = \<lparr>en_sha = (\<lambda>_. replicate 64 48), en_dumps = (\<lambda>_. []),
     en_loads = (\<lambda>_. Inr (JObj [(u ''APP_PORT'', JStr (u ''1''))])), en_lower = (\<lambda>b. b), en_word = (\<lambda>_. False)\<rparr>"

definition sample_pub :: publication where
  "sample_pub = \<lparr>pb_path = u ''/r/state'', pb_release = u ''r1'', pb_environment = u ''e1''\<rparr>"

definition sample_sha_text :: json where
  "sample_sha_text = JStr (replicate 64 48)"

definition sample_watermark :: json where
  "sample_watermark = JObj [(u ''relations'', JObj (map (\<lambda>r. (u r, sample_sha_text)) RELATIONS)), (u ''files'', JArr []),
     (u ''audit_projection'', sample_sha_text)]"

lemma zeros_sha [simp]: "SHA256 (replicate 64 48)"
  by (simp add: SHA256_def hex_text_def is_hex_def is_digit_def list_all_iff)

lemma sample_digest [simp]: "digest_json sample_env v = replicate 64 48"
  by (simp add: digest_json_def sample_env_def)

lemma sample_watermark_valid: "validate_watermark sample_env sample_watermark = Inr (replicate 64 48)"
proof -
  have "is_sha sample_sha_text" by (simp add: sample_sha_text_def is_sha_def)
  then show ?thesis
    by (simp add: validate_watermark_def sample_watermark_def Let_def jget_Cons returns keys_are_def RELATIONS_def
        checks.simps require_def del: u_Cons)
qed

lemma sample_pub_init: "publication_init (u ''/r/state'') (u ''r1'') (u ''e1'') = Inr sample_pub"
  by (simp add: publication_init_def sample_pub_def SAFE_ID_def starts_with_def id_char_def is_digit_def is_upper_def is_lower_def)

lemma sample_run:
  obtains d0 d2 d3 where "stored sample_env sample_pub Prepared sample_watermark d0"
    "stored sample_env sample_pub Isolated_Validated sample_watermark d2"
    "stored sample_env sample_pub Public_Cutover sample_watermark d3"
    "pub_steps sample_env sample_pub (dk_files d0) (dk_files d2)" "pub_steps sample_env sample_pub (dk_files d2) (dk_files d3)"
proof -
  define t where "t = DateTime 2026 8 1 0 0 0 0"
  obtain s0 d0 s1 d1 s2 d2 s3 d3 where r: "stored sample_env sample_pub Prepared sample_watermark d0"
    "advance sample_env sample_pub (JStr (u ''migrated'')) t d0 = (Inr s1, d1)" "stored sample_env sample_pub Migrated sample_watermark d1"
    "advance sample_env sample_pub (JStr (u ''isolated_validated'')) t d1 = (Inr s2, d2)"
    "stored sample_env sample_pub Isolated_Validated sample_watermark d2"
    "advance sample_env sample_pub (JStr (u ''public_cutover'')) t d2 = (Inr s3, d3)"
    "stored sample_env sample_pub Public_Cutover sample_watermark d3"
    by (rule stored_run [OF _ sample_pub_init sample_watermark_valid, of "\<lambda>_. None" t t t t]) simp_all
  have step: "pub_step sample_env sample_pub (dk_files d) (dk_files d')"
    if "advance sample_env sample_pub v t d = (Inr s, d')" for v s d d'
    by (rule Advance [of sample_env sample_pub v t "dk_files d" "dk_plan d" "Inr s" d']) (use that in \<open>cases d, simp\<close>)
  show thesis
  proof (rule that [OF r(1,5,7)])
    show "pub_steps sample_env sample_pub (dk_files d0) (dk_files d2)"
      using step [OF r(2)] step [OF r(4)] by (meson converse_rtranclp_into_rtranclp rtranclp.rtrancl_refl)
    show "pub_steps sample_env sample_pub (dk_files d2) (dk_files d3)"
      using step [OF r(6)] by blast
  qed
qed

section \<open>Properties\<close>

text \<open>
  C15. The cutover cannot be undone. Once the cutover marker is on disk, then after any sequence of operations on the
  publication (each with any fault, or killed at any point) the marker is still there, the
  choice never falls on restoring the backup, whatever the watermark and the isolation claim say, and no new
  state can be prepared over it.
\<close>

theorem cutover_irreversible:
  assumes "pub_steps env pb fs fs'" "exists_at fs (cutover_marker pb)"
  shows "exists_at fs' (cutover_marker pb)
    \<and> choose_rollback_path env (pub_read env pb fs') current isolated \<noteq> Inr Pre_Public_Restore
    \<and> (\<exists>e. fst (prepare env pb wm now \<lparr>dk_files = fs', dk_plan = plan\<rparr>) = Inl e)"
proof -
  have "fs (cutover_marker pb) \<noteq> None" using assms(2) by (auto simp: exists_at_def split: option.splits)
  from steps_marker [OF assms(1) this] assms(2) have m: "exists_at fs' (cutover_marker pb)"
    by (simp add: exists_at_def)
  have "stage_of (jget state ''stage'') = Some Public_Cutover" if "pub_read env pb fs' = Inr state" for state
    using that m pub_read_Inr marker_ok_cutover by blast
  with m show ?thesis by (auto simp: choose_pre_public prepare_def)
qed

text \<open>
  The stage only moves forward. If a publication can be read before and after a sequence of operations
  (with any faults and crashes in them), the stage after it is not earlier than the one before.
\<close>

theorem stage_monotone:
  assumes steps: "pub_steps env pb fs fs'" and before: "pub_read env pb fs = Inr state" and "after": "pub_read env pb fs' = Inr state'"
  shows "\<exists>s s'. stage_of (jget state ''stage'') = Some s \<and> stage_of (jget state' ''stage'') = Some s' \<and> s \<le> s'"
proof -
  obtain s where s: "stage_of (jget state ''stage'') = Some s"
    using pub_read_Inr [OF before] by (auto elim: pub_state_okD)
  have "fs (pb_path pb) \<noteq> None" using pub_read_Inr [OF before] by (auto simp: read_json_file_Inr)
  from steps_stage [OF steps this] s file_stage_read [OF before] file_stage_read [OF "after"] show ?thesis
    by fastforce
qed

text \<open>
  The proxy and the restore exclude each other. Whatever the files hold: when the proxy may start, the release is at its public
  cutover with the four stages in its history, the marker is on disk, and restoring the
  backup is not chosen; when it is chosen, the watermark now is the sealed baseline, isolation was continuous, no
  marker exists, and the proxy may not start.
\<close>

theorem proxy_excludes_restore:
  "case authorize_proxy_start env pb fs of
     Inr _ \<Rightarrow> (\<exists>state. pub_read env pb fs = Inr state
         \<and> history_stages (jget state ''history'') = map (JStr \<circ> u \<circ> stage_name) STAGES)
       \<and> exists_at fs (cutover_marker pb)
       \<and> choose_rollback_path env (pub_read env pb fs) current isolated \<noteq> Inr Pre_Public_Restore
   | Inl _ \<Rightarrow> choose_rollback_path env (pub_read env pb fs) current isolated = Inr Pre_Public_Restore \<longrightarrow>
       isolated \<and> \<not> exists_at fs (cutover_marker pb)
       \<and> (\<exists>state. pub_read env pb fs = Inr state \<and> jget state ''baseline_watermark_digest'' = JStr (digest_json env current))"
proof (cases "authorize_proxy_start env pb fs")
  case (Inl e)
  then show ?thesis
    using marker_ok_cutover pub_read_Inr by (auto simp: choose_pre_public) blast
next
  case (Inr x)
  then obtain state where r: "pub_read env pb fs = Inr state" and s: "stage_of (jget state ''stage'') = Some Public_Cutover"
    by (auto simp: authorize_proxy_start_def returns)
  from pub_read_Inr [OF r] s have "history_stages (jget state ''history'') = map (JStr \<circ> u \<circ> stage_name) STAGES"
    by (auto elim!: pub_state_okD simp: STAGES_def)
  moreover have "exists_at fs (cutover_marker pb)"
    using pub_read_Inr [OF r] s marker_ok_cutover by blast
  moreover have "choose_rollback_path env (pub_read env pb fs) current isolated \<noteq> Inr Pre_Public_Restore"
    unfolding choose_pre_public using r s by simp
  ultimately show ?thesis using Inr r by simp
qed


text \<open>
  A release can be published, and the choice follows its stage. On a disk without faults and without files of the
  publication, preparing and the three advances succeed one after the other; each state reads back; with the
  watermark unchanged and the proxy isolated, the backup may be restored up to the isolated validation, and the
  proxy may start after the cutover and not before.
\<close>

theorem publication_lifecycle:
  assumes hex: "\<And>v. SHA256 (digest_json env v)" and pb: "publication_init path release environment = Inr pb"
    and wm: "validate_watermark env wm = Inr wd"
    and fresh: "fs path = None" "fs (integrity_path path) = None" "fs (cutover_marker pb) = None"
  shows "\<exists>s0 d0 s1 d1 s2 d2 s3 d3. prepare env pb wm t0 \<lparr>dk_files = fs, dk_plan = []\<rparr> = (Inr s0, d0)
    \<and> advance env pb (JStr (u ''migrated'')) t1 d0 = (Inr s1, d1)
    \<and> advance env pb (JStr (u ''isolated_validated'')) t2 d1 = (Inr s2, d2)
    \<and> advance env pb (JStr (u ''public_cutover'')) t3 d2 = (Inr s3, d3)
    \<and> (\<forall>d \<in> {d0, d1, d2}. choose_rollback_path env (pub_read env pb (dk_files d)) wm True = Inr Pre_Public_Restore
         \<and> is_err (authorize_proxy_start env pb (dk_files d)))
    \<and> choose_rollback_path env (pub_read env pb (dk_files d3)) wm True = Inr Preserve_Forward_Data
    \<and> authorize_proxy_start env pb (dk_files d3) = Inr ()"
proof -
  obtain s0 d0 s1 d1 s2 d2 s3 d3 where 0: "prepare env pb wm t0 \<lparr>dk_files = fs, dk_plan = []\<rparr> = (Inr s0, d0)" "stored env pb Prepared wm d0"
    and 1: "advance env pb (JStr (u ''migrated'')) t1 d0 = (Inr s1, d1)" "stored env pb Migrated wm d1"
    and 2: "advance env pb (JStr (u ''isolated_validated'')) t2 d1 = (Inr s2, d2)" "stored env pb Isolated_Validated wm d2"
    and 3: "advance env pb (JStr (u ''public_cutover'')) t3 d2 = (Inr s3, d3)" "stored env pb Public_Cutover wm d3"
    by (rule stored_run [OF hex pb wm fresh])
  have early: "choose_rollback_path env (pub_read env pb (dk_files d)) wm True = Inr Pre_Public_Restore
      \<and> is_err (authorize_proxy_start env pb (dk_files d))" if "stored env pb s wm d" "s \<noteq> Public_Cutover" for s d
    using stored_choice [OF that(1) hex wm] that(2) by (cases "authorize_proxy_start env pb (dk_files d)") auto
  have late: "choose_rollback_path env (pub_read env pb (dk_files d3)) wm True = Inr Preserve_Forward_Data"
    "authorize_proxy_start env pb (dk_files d3) = Inr ()"
    using stored_choice [OF 3(2) hex wm] by auto
  from early [OF 0(2)] early [OF 1(2)] early [OF 2(2)] have "\<forall>d \<in> {d0, d1, d2}.
      choose_rollback_path env (pub_read env pb (dk_files d)) wm True = Inr Pre_Public_Restore
      \<and> is_err (authorize_proxy_start env pb (dk_files d))" by simp
  with 0(1) 1(1) 2(1) 3(1) late show ?thesis by blast
qed


theorem publication_lifecycle_witness:
  "\<exists>s3 d2 d3. advance sample_env sample_pub (JStr (u ''public_cutover'')) (DateTime 2026 8 1 0 0 0 0) d2 = (Inr s3, d3)
     \<and> choose_rollback_path sample_env (pub_read sample_env sample_pub (dk_files d2)) sample_watermark True = Inr Pre_Public_Restore
     \<and> authorize_proxy_start sample_env sample_pub (dk_files d3) = Inr ()"
  using publication_lifecycle [OF _ sample_pub_init sample_watermark_valid, of "\<lambda>_. None"
      "DateTime 2026 8 1 0 0 0 0" "DateTime 2026 8 1 0 0 0 0" "DateTime 2026 8 1 0 0 0 0" "DateTime 2026 8 1 0 0 0 0"]
  by (simp del: u_Cons) blast

theorem cutover_irreversible_witness:
  "\<exists>fs. exists_at fs (cutover_marker sample_pub)
     \<and> choose_rollback_path sample_env (pub_read sample_env sample_pub fs) sample_watermark True \<noteq> Inr Pre_Public_Restore"
proof -
  obtain d2 d3 where d: "stored sample_env sample_pub Public_Cutover sample_watermark d3" by (rule sample_run)
  obtain state where "pub_read sample_env sample_pub (dk_files d3) = Inr state" "stage_of (jget state ''stage'') = Some Public_Cutover"
    by (rule stored_read [OF d]) simp_all
  then have m: "exists_at (dk_files d3) (cutover_marker sample_pub)" using pub_read_Inr marker_ok_cutover by blast
  from cutover_irreversible [OF rtranclp.rtrancl_refl m] m show ?thesis by blast
qed

theorem proxy_excludes_restore_witness:
  "\<exists>fs. choose_rollback_path sample_env (pub_read sample_env sample_pub fs) sample_watermark True = Inr Pre_Public_Restore
     \<and> is_err (authorize_proxy_start sample_env sample_pub fs) \<and> \<not> exists_at fs (cutover_marker sample_pub)"
proof -
  obtain d0 where d: "stored sample_env sample_pub Prepared sample_watermark d0" by (rule sample_run)
  have c: "choose_rollback_path sample_env (pub_read sample_env sample_pub (dk_files d0)) sample_watermark True = Inr Pre_Public_Restore"
    "is_err (authorize_proxy_start sample_env sample_pub (dk_files d0))"
    using stored_choice [OF d _ sample_watermark_valid] by (cases "authorize_proxy_start sample_env sample_pub (dk_files d0)"; simp)+
  then obtain e where "authorize_proxy_start sample_env sample_pub (dk_files d0) = Inl e"
    by (cases "authorize_proxy_start sample_env sample_pub (dk_files d0)") auto
  with proxy_excludes_restore [of sample_env sample_pub "dk_files d0" sample_watermark True] c show ?thesis by auto
qed

theorem stage_monotone_witness:
  "\<exists>fs fs' state state'. pub_steps sample_env sample_pub fs fs' \<and> pub_read sample_env sample_pub fs = Inr state
     \<and> pub_read sample_env sample_pub fs' = Inr state'
     \<and> (\<exists>s s'. stage_of (jget state ''stage'') = Some s \<and> stage_of (jget state' ''stage'') = Some s' \<and> s \<le> s')"
proof -
  obtain d0 d2 where d: "stored sample_env sample_pub Prepared sample_watermark d0"
    "stored sample_env sample_pub Isolated_Validated sample_watermark d2"
    "pub_steps sample_env sample_pub (dk_files d0) (dk_files d2)" by (rule sample_run)
  obtain state where r: "pub_read sample_env sample_pub (dk_files d0) = Inr state"
    by (rule stored_read [OF d(1)]) simp_all
  obtain state' where r': "pub_read sample_env sample_pub (dk_files d2) = Inr state'"
    by (rule stored_read [OF d(2)]) simp_all
  from stage_monotone [OF d(3) r r'] d(3) r r' show ?thesis by blast
qed

end
