(* ===== verification/Rb_Clock.thy ===== *)
theory Rb_Clock
  imports Rb_Publication
begin

text \<open>
  \<open>RollbackClock\<close> of \<open>scripts/deploy_rollback/model.py\<close>: the one persistent start of a rollback operation, the
  seconds that count against the recovery time objective, and its completion. Wall-clock readings are arguments,
  as are those of the monotonic clock, in nanoseconds.
\<close>

section \<open>Operations\<close>

record rclock =
  ck_path :: ustr
  ck_operation :: ustr
  ck_release :: ustr
  ck_anchor :: int

definition clock_init :: "ustr \<Rightarrow> ustr \<Rightarrow> ustr \<Rightarrow> int \<Rightarrow> rexc + rclock" where
  "clock_init path operation_id release_id ticks =
     (if \<not> starts_with (u ''/'') path \<or> path = u ''/'' then unsafe ''RTO state path must be bounded and absolute''
      else if \<not> SAFE_ID operation_id \<or> \<not> SAFE_ID release_id then unsafe ''rollback operation identity is invalid''
      else Inr \<lparr>ck_path = path, ck_operation = operation_id, ck_release = release_id, ck_anchor = ticks\<rparr>)"

definition clock_fields :: "string list" where
  "clock_fields = [''schema_version'', ''operation_id'', ''release_id'', ''started_at'', ''elapsed_floor_seconds'', ''completed'', ''rto_passed'']"

text \<open>\<open>v not in {None, True, False}\<close>: the numbers 0 and 1 are equal to Booleans, a list cannot be looked up.\<close>

definition rto_known :: "json \<Rightarrow> rexc + unit" where
  "rto_known v = (if \<not> hashable v then Inl PyTypeError
     else require (v = JNull \<or> int_of v = Some 0 \<or> int_of v = Some 1) ''rollback RTO record is invalid'')"

definition natural :: "json \<Rightarrow> bool" where
  "natural v = (case v of JInt n \<Rightarrow> 0 \<le> n | _ \<Rightarrow> False)"

definition clock_state_ok :: "rclock \<Rightarrow> jobj \<Rightarrow> rexc + unit" where
  "clock_state_ok ck state = checks
     [require (keys_are state clock_fields \<and> int_of (jget state ''schema_version'') = Some SCHEMA_VERSION
         \<and> jget state ''operation_id'' = JStr (ck_operation ck) \<and> jget state ''release_id'' = JStr (ck_release ck)
         \<and> natural (jget state ''elapsed_floor_seconds'') \<and> is_bool (jget state ''completed''))
       ''rollback RTO record is invalid'',
      rto_known (jget state ''rto_passed''),
      passed (parse_time (jget state ''started_at'') ''rollback.started_at'')]"

definition clock_read :: "rb_env \<Rightarrow> rclock \<Rightarrow> files \<Rightarrow> rexc + jobj" where
  "clock_read env ck fs =
     andthen (read_json_file fs (ck_path ck)) (\<lambda>state.
     andthen (read_seal ''rollback RTO integrity seal is missing'' fs (integrity_path (ck_path ck))) (\<lambda>expected.
     andthen (checks
       [require (seal_matches env fs (integrity_path (ck_path ck)) expected state) ''rollback RTO integrity seal mismatch'',
        clock_state_ok ck state]) (\<lambda>_. Inr state)))"

definition new_clock_state :: "rclock \<Rightarrow> datetime \<Rightarrow> jobj" where
  "new_clock_state ck wall =
     [(u ''schema_version'', JInt SCHEMA_VERSION), (u ''operation_id'', JStr (ck_operation ck)),
      (u ''release_id'', JStr (ck_release ck)), (u ''started_at'', JStr (format_time wall)),
      (u ''elapsed_floor_seconds'', JInt 0), (u ''completed'', JBool False), (u ''rto_passed'', JNull)]"

text \<open>\<open>declare\<close>.\<close>

definition clock_declare :: "rb_env \<Rightarrow> rclock \<Rightarrow> datetime \<Rightarrow> jobj io" where
  "clock_declare env ck wall d =
     (if exists_at (dk_files d) (ck_path ck) then (clock_read env ck (dk_files d), d)
      else let state = new_clock_state ck wall
           in io_bind (atomic_create (ck_path ck) (Doc (canonical (JObj state)))) (\<lambda>_.
              io_bind (cleanup (atomic_create (integrity_path (ck_path ck)) (sealed_text env (JObj state))) (unlink (ck_path ck))) (\<lambda>_.
                \<lambda>d2. (Inr state, d2))) d)"

definition clock_write :: "rb_env \<Rightarrow> rclock \<Rightarrow> jobj \<Rightarrow> unit io" where
  "clock_write env ck state =
     io_bind (atomic_write (ck_path ck) (Doc (canonical (JObj state)))) (\<lambda>_.
       atomic_write (integrity_path (ck_path ck)) (sealed_text env (JObj state)))"

definition floor_of :: "jobj \<Rightarrow> int" where
  "floor_of state = (case int_of (jget state ''elapsed_floor_seconds'') of Some n \<Rightarrow> n | None \<Rightarrow> 0)"

text \<open>\<open>elapsed\<close>: the readings are those of \<open>declare\<close>, of the wall clock after it, and of the monotonic clock.\<close>

definition clock_elapsed :: "rb_env \<Rightarrow> rclock \<Rightarrow> datetime \<Rightarrow> datetime \<Rightarrow> int \<Rightarrow> int io" where
  "clock_elapsed env ck wall0 wall ticks =
     io_bind (clock_declare env ck wall0) (\<lambda>state d.
       case parse_time (jget state ''started_at'') ''rollback.started_at'' of
         Inl e \<Rightarrow> (Inl e, d)
       | Inr started \<Rightarrow>
           let process_elapsed = (ticks - ck_anchor ck) div 1000000000;
               elapsed = max (max (floor_of state) (seconds_between wall started)) (max process_elapsed 0)
           in if elapsed = floor_of state then (Inr elapsed, d)
              else io_bind (clock_write env ck (jset ''elapsed_floor_seconds'' (JInt elapsed) state)) (\<lambda>_ d2. (Inr elapsed, d2)) d)"

definition alert_path :: "rclock \<Rightarrow> ustr" where
  "alert_path ck = ck_path ck @ u ''.rto-alert.json''"

definition rto_alert :: "rclock \<Rightarrow> int \<Rightarrow> json" where
  "rto_alert ck elapsed = JObj
     [(u ''schema_version'', JInt SCHEMA_VERSION), (u ''operation_id'', JStr (ck_operation ck)), (u ''release_id'', JStr (ck_release ck)),
      (u ''elapsed_seconds'', JInt elapsed), (u ''limit_seconds'', JInt RTO_LIMIT_SECONDS),
      (u ''action'', JStr (u ''alert_only_no_automatic_data_loss''))]"

definition completed_state :: "int \<Rightarrow> jobj \<Rightarrow> jobj" where
  "completed_state elapsed state = jset ''rto_passed'' (JBool (elapsed \<le> RTO_LIMIT_SECONDS))
     (jset ''completed'' (JBool True) (jset ''elapsed_floor_seconds'' (JInt elapsed) state))"

text \<open>The seconds a completion counts.\<close>

definition completion_seconds :: "rb_env \<Rightarrow> rclock \<Rightarrow> datetime option \<Rightarrow> datetime \<Rightarrow> datetime \<Rightarrow> int \<Rightarrow> jobj \<Rightarrow> int io" where
  "completion_seconds env ck external wall0 wall ticks state d =
     (case external of
        None \<Rightarrow> clock_elapsed env ck wall0 wall ticks d
      | Some ready \<Rightarrow>
          (case parse_time (jget state ''started_at'') ''rollback.started_at'' of
             Inl e \<Rightarrow> (Inl e, d)
           | Inr started \<Rightarrow>
               if seconds_between ready started < 0 then (unsafe ''external readiness predates rollback declaration'', d)
               else (Inr (max (floor_of state) (seconds_between ready started)), d)))"

definition complete_after_external_readiness ::
    "rb_env \<Rightarrow> rclock \<Rightarrow> datetime option \<Rightarrow> datetime \<Rightarrow> datetime \<Rightarrow> int \<Rightarrow> (int \<times> bool) io" where
  "complete_after_external_readiness env ck external wall0 wall ticks d =
     (case clock_read env ck (dk_files d) of
        Inl e \<Rightarrow> (Inl e, d)
      | Inr state \<Rightarrow>
          if jget state ''completed'' = JBool True then (Inr (floor_of state, truthy (jget state ''rto_passed'')), d)
          else io_bind (completion_seconds env ck external wall0 wall ticks state) (\<lambda>elapsed d1.
            case clock_read env ck (dk_files d1) of
              Inl e \<Rightarrow> (Inl e, d1)
            | Inr state1 \<Rightarrow>
                io_bind (clock_write env ck (completed_state elapsed state1)) (\<lambda>_.
                io_bind (if RTO_LIMIT_SECONDS < elapsed then atomic_write (alert_path ck) (Doc (canonical (rto_alert ck elapsed)))
                         else (\<lambda>d3. (Inr (), d3))) (\<lambda>_ d4.
                  (Inr (elapsed, elapsed \<le> RTO_LIMIT_SECONDS), d4))) d1) d)"

section \<open>What every operation keeps\<close>

text \<open>
  A later state of the same operation: the start is the same, the counted seconds have not decreased, and a completion
  with its verdict stands.
\<close>

definition later :: "jobj \<Rightarrow> jobj \<Rightarrow> bool" where
  "later st st' \<longleftrightarrow> text_of (jget st' ''started_at'') = text_of (jget st ''started_at'') \<and> floor_of st \<le> floor_of st'
     \<and> (jget st ''completed'' = JBool True \<longrightarrow> jget st' ''completed'' = JBool True
          \<and> canonical (jget st' ''rto_passed'') = canonical (jget st ''rto_passed''))"

lemma later_refl [simp]: "later st st"
  by (simp add: later_def)

lemma later_trans: "later a b \<Longrightarrow> later b c \<Longrightarrow> later a c"
  by (auto simp: later_def)

abbreviation sorted_state :: "jobj \<Rightarrow> jobj" where
  "sorted_state st \<equiv> sort_key fst (map (\<lambda>kv. (fst kv, canonical (snd kv))) st)"

lemma floor_of_sorted [simp]: "floor_of (sorted_state st) = floor_of st"
  by (simp add: floor_of_def)

lemma later_sorted [simp]: "later st (sorted_state st') = later st st'"
  by (simp add: later_def)

lemma clock_read_Inr:
  "clock_read env ck fs = Inr state \<Longrightarrow> read_json_file fs (ck_path ck) = Inr state
     \<and> (\<exists>n. jget state ''elapsed_floor_seconds'' = JInt n \<and> 0 \<le> n) \<and> (\<exists>b. jget state ''completed'' = JBool b)
     \<and> (\<exists>t. jget state ''started_at'' = JStr (format_time t) \<and> valid_datetime t)"
proof -
  assume r: "clock_read env ck fs = Inr state"
  have nat: "natural v \<Longrightarrow> \<exists>n. v = JInt n \<and> 0 \<le> n" and bool: "is_bool v \<Longrightarrow> \<exists>b. v = JBool b" for v
    by (cases v; simp add: natural_def)+
  from r show ?thesis by (auto simp: clock_read_def clock_state_ok_def returns dest!: nat bool)
qed

lemma read_present: "read_json_file fs p = Inr st \<Longrightarrow> exists_at fs p"
  by (auto simp: read_json_file_Inr exists_at_def)

lemma read_written [simp]:
  "read_json_file (fs(p \<mapsto> Regular False (Doc (JObj d)))) p = Inr d"
  "q \<noteq> p \<Longrightarrow> read_json_file (fs(q \<mapsto> n)) p = read_json_file fs p"
  by (simp_all add: read_json_file_def)

text \<open>A write leaves the old state or the new one, whatever goes wrong; without a fault the new one.\<close>

lemma clock_write_state:
  assumes "clock_write env ck state d = (r, d')" "read_json_file (dk_files d) (ck_path ck) = Inr st"
  shows "read_json_file (dk_files d') (ck_path ck) \<in> {Inr st, Inr (sorted_state state)}"
    and "r = Inr () \<Longrightarrow> read_json_file (dk_files d') (ck_path ck) = Inr (sorted_state state)"
proof -
  obtain q1 d1 where w1: "atomic_write (ck_path ck) (Doc (canonical (JObj state))) d = (q1, d1)" by fastforce
  obtain q2 d2 where w2: "atomic_write (integrity_path (ck_path ck)) (sealed_text env (JObj state)) d1 = (q2, d2)" by fastforce
  have r: "(r, d') = (case q1 of Inl e \<Rightarrow> (Inl e, d1) | Inr _ \<Rightarrow> (q2, d2))"
    using assms(1) w1 w2 by (auto simp: clock_write_def io_bind_def split: sum.splits)
  have ok: "q1 = Inr () \<Longrightarrow> dk_files d1 = (dk_files d)(ck_path ck \<mapsto> Regular False (Doc (canonical (JObj state))))"
    using w1 by (auto simp: atomic_write_def attempt_def Let_def split: if_splits option.splits node.splits list.splits outcome.splits)
  note f1 = atomic_write_files [OF w1] and f2 = atomic_write_files [OF w2]
  show "read_json_file (dk_files d') (ck_path ck) \<in> {Inr st, Inr (sorted_state state)}"
    using r f1 f2 assms(2) by (cases q1) (auto split: sum.splits)
  assume "r = Inr ()"
  with r have "q1 = Inr () \<and> d' = d2" by (cases q1) auto
  with ok f2 show "read_json_file (dk_files d') (ck_path ck) = Inr (sorted_state state)" by auto
qed

lemma declare_present:
  "read_json_file (dk_files d) (ck_path ck) = Inr st \<Longrightarrow> clock_declare env ck wall d = (clock_read env ck (dk_files d), d)"
  by (simp add: clock_declare_def read_present)

lemma elapsed_run:
  assumes st: "clock_read env ck (dk_files d) = Inr st" and t: "jget st ''started_at'' = JStr (format_time t)" "valid_datetime t"
    and n: "n = max (max (floor_of st) (seconds_between wall t)) (max ((ticks - ck_anchor ck) div 1000000000) 0)"
    and w: "clock_write env ck (jset ''elapsed_floor_seconds'' (JInt n) st) d = (q, d1)"
  shows "clock_elapsed env ck wall0 wall ticks d = (if n = floor_of st then (Inr n, d)
      else (case q of Inl x \<Rightarrow> (Inl x, d1) | Inr _ \<Rightarrow> (Inr n, d1)))"
proof -
  have "read_json_file (dk_files d) (ck_path ck) = Inr st" using clock_read_Inr [OF st] by simp
  from declare_present [OF this] st t w show ?thesis
    by (simp add: clock_elapsed_def io_bind_def parse_format n [symmetric] Let_def split: sum.split)
qed

text \<open>The three ways of \<open>elapsed\<close> on an existing record.\<close>

lemma elapsed_cases:
  assumes e: "clock_elapsed env ck wall0 wall ticks d = (r, d')" and st: "read_json_file (dk_files d) (ck_path ck) = Inr st"
  obtains (unread) x where "r = Inl x" "clock_read env ck (dk_files d) = Inl x" "d' = d"
  | (counted) n q where "clock_read env ck (dk_files d) = Inr st" "floor_of st \<le> n" "0 \<le> n"
      "seconds_between wall (time_of (jget st ''started_at'')) \<le> n"
      "n = floor_of st \<and> q = Inr () \<and> d' = d \<or> clock_write env ck (jset ''elapsed_floor_seconds'' (JInt n) st) d = (q, d')"
      "r = (case q of Inl x \<Rightarrow> Inl x | Inr _ \<Rightarrow> Inr n)"
proof (cases "clock_read env ck (dk_files d)")
  case (Inl x)
  with e declare_present [OF st] show thesis by (intro unread [of x]) (simp_all add: clock_elapsed_def io_bind_def)
next
  case (Inr st0)
  with st have s0: "clock_read env ck (dk_files d) = Inr st" using clock_read_Inr by fastforce
  then obtain t where t: "jget st ''started_at'' = JStr (format_time t)" "valid_datetime t" using clock_read_Inr by blast
  define n where "n = max (max (floor_of st) (seconds_between wall t)) (max ((ticks - ck_anchor ck) div 1000000000) 0)"
  have n: "floor_of st \<le> n" "0 \<le> n" "seconds_between wall (time_of (jget st ''started_at'')) \<le> n"
    using t by (simp_all add: n_def)
  obtain q d1 where w: "clock_write env ck (jset ''elapsed_floor_seconds'' (JInt n) st) d = (q, d1)" by fastforce
  note run = elapsed_run [OF s0 t n_def w, of wall0]
  show thesis
  proof (cases "n = floor_of st")
    case True
    with run e show thesis by (intro counted [OF s0 n, of "Inr ()"]) simp_all
  next
    case False
    with run e w show thesis by (intro counted [OF s0 n, of q]) (auto split: sum.splits)
  qed
qed

lemma elapsed_state:
  assumes e: "clock_elapsed env ck wall0 wall ticks d = (r, d')" and st: "read_json_file (dk_files d) (ck_path ck) = Inr st"
  shows "\<exists>st'. read_json_file (dk_files d') (ck_path ck) = Inr st' \<and> later st st'
      \<and> (jget st' ''completed'' = JBool True \<longleftrightarrow> jget st ''completed'' = JBool True) \<and> (\<forall>n. r = Inr n \<longrightarrow> floor_of st' = n)"
  using e st
proof (cases rule: elapsed_cases)
  case (unread x)
  with st show ?thesis by auto
next
  case (counted n q)
  define new where "new = jset ''elapsed_floor_seconds'' (JInt n) st"
  have new: "later st new" "jget new ''completed'' = jget st ''completed''" "floor_of new = n"
    using counted(2) by (simp_all add: new_def later_def floor_of_def)
  from counted(5) show ?thesis
  proof
    assume "n = floor_of st \<and> q = Inr () \<and> d' = d"
    with st counted(6) show ?thesis by auto
  next
    assume "clock_write env ck (jset ''elapsed_floor_seconds'' (JInt n) st) d = (q, d')"
    with clock_write_state [OF this st] new counted(6) st show ?thesis
      by (cases q) (auto simp: new_def [symmetric])
  qed
qed

lemma completion_state:
  assumes c: "complete_after_external_readiness env ck external wall0 wall ticks d = (r, d')"
    and st: "read_json_file (dk_files d) (ck_path ck) = Inr st"
  shows "\<exists>st'. read_json_file (dk_files d') (ck_path ck) = Inr st' \<and> later st st'"
proof (cases "clock_read env ck (dk_files d) = Inr st \<and> jget st ''completed'' \<noteq> JBool True")
  case False
  then have "d' = d"
    using c st clock_read_Inr [of env ck "dk_files d"]
    by (fastforce simp: complete_after_external_readiness_def split: sum.splits if_splits)
  with st show ?thesis by auto
next
  case True
  obtain q d1 where s: "completion_seconds env ck external wall0 wall ticks st d = (q, d1)" by fastforce
  obtain st1 where st1: "read_json_file (dk_files d1) (ck_path ck) = Inr st1" "later st st1" "jget st1 ''completed'' \<noteq> JBool True"
    and n1: "\<And>n. q = Inr n \<Longrightarrow> floor_of st1 \<le> n"
  proof (cases external)
    case None
    with s have "clock_elapsed env ck wall0 wall ticks d = (q, d1)" by (simp add: completion_seconds_def)
    from elapsed_state [OF this st] True that show thesis by fastforce
  next
    case (Some ready)
    with s have "d1 = d" "\<And>n. q = Inr n \<Longrightarrow> floor_of st \<le> n"
      by (auto simp: completion_seconds_def split: sum.splits if_splits)
    with st True show thesis by (intro that [of st]) auto
  qed
  show ?thesis
  proof (cases "\<exists>n. q = Inr n \<and> clock_read env ck (dk_files d1) = Inr st1")
    case False
    have "clock_read env ck (dk_files d1) = Inr x \<Longrightarrow> x = st1" for x using clock_read_Inr [of env ck "dk_files d1"] st1(1) by fastforce
    then have "d' = d1"
      using c True s False by (auto simp: complete_after_external_readiness_def io_bind_def split: sum.splits prod.splits if_splits)
    with st1 show ?thesis by auto
  next
    case nn: True
    then obtain n where n: "q = Inr n" "clock_read env ck (dk_files d1) = Inr st1" by blast
    obtain w d2 where w: "clock_write env ck (completed_state n st1) d1 = (w, d2)" by fastforce
    have l: "later st1 (completed_state n st1)"
      using n1 [OF n(1)] st1(3) by (simp add: completed_state_def later_def floor_of_def)
    from clock_write_state(1) [OF w st1(1)] l obtain st2 where
      st2: "read_json_file (dk_files d2) (ck_path ck) = Inr st2" "later st1 st2" by auto
    have alert: "read_json_file (dk_files d3) (ck_path ck) = read_json_file (dk_files d2) (ck_path ck)"
      if "atomic_write (alert_path ck) v d2 = (x, d3)" for v x d3
      using atomic_write_files [OF that] by (auto simp: alert_path_def)
    have "d' = d2 \<or> (\<exists>v x. atomic_write (alert_path ck) v d2 = (x, d'))"
      using c True s n w
      by (auto simp: complete_after_external_readiness_def io_bind_def split: sum.splits prod.splits if_splits)
    with st2 alert st1(2) show ?thesis by (auto intro: later_trans)
  qed
qed

lemma complete_run:
  assumes "clock_read env ck (dk_files d) = Inr st" "jget st ''completed'' = JBool False"
    "jget st ''started_at'' = JStr (format_time t)" "valid_datetime t" "0 \<le> seconds_between ready t"
    "n = max (floor_of st) (seconds_between ready t)" "n \<le> RTO_LIMIT_SECONDS"
    "clock_write env ck (completed_state n st) d = (Inr (), d')"
  shows "complete_after_external_readiness env ck (Some ready) wall0 wall ticks d = (Inr (n, True), d')"
  using assms by (simp add: complete_after_external_readiness_def completion_seconds_def io_bind_def parse_format less_max_iff_disj not_less [symmetric])

section \<open>Runs\<close>

inductive clock_step :: "rb_env \<Rightarrow> rclock \<Rightarrow> files \<Rightarrow> files \<Rightarrow> bool" for env ck where
  Declare: "clock_declare env ck wall \<lparr>dk_files = fs, dk_plan = plan\<rparr> = (r, d) \<Longrightarrow> clock_step env ck fs (dk_files d)"
| Elapsed: "clock_elapsed env ck wall0 wall ticks \<lparr>dk_files = fs, dk_plan = plan\<rparr> = (rn, d) \<Longrightarrow> clock_step env ck fs (dk_files d)"
| Complete: "complete_after_external_readiness env ck external wall0 wall ticks \<lparr>dk_files = fs, dk_plan = plan\<rparr> = (rc, d) \<Longrightarrow>
    clock_step env ck fs (dk_files d)"

lemma step_later:
  assumes "clock_step env ck fs fs'" "read_json_file fs (ck_path ck) = Inr st"
  shows "\<exists>st'. read_json_file fs' (ck_path ck) = Inr st' \<and> later st st'"
  using assms(1)
proof (cases rule: clock_step.cases)
  case (Declare wall plan r d)
  with declare_present [of "\<lparr>dk_files = fs, dk_plan = plan\<rparr>" ck st env wall] assms(2) show ?thesis by auto
next
  case (Elapsed wall0 wall ticks plan rn d)
  from elapsed_state [OF Elapsed(2)] assms(2) Elapsed(1) show ?thesis by fastforce
next
  case (Complete external wall0 wall ticks plan rc d)
  from completion_state [OF Complete(2)] assms(2) Complete(1) show ?thesis by fastforce
qed

lemma steps_later:
  "(clock_step env ck)\<^sup>*\<^sup>* fs fs' \<Longrightarrow> read_json_file fs (ck_path ck) = Inr st \<Longrightarrow>
     \<exists>st'. read_json_file fs' (ck_path ck) = Inr st' \<and> later st st'"
proof (induction rule: rtranclp_induct)
  case (step fs1 fs2)
  then show ?case using step_later later_trans by blast
qed auto

section \<open>A new record\<close>

lemma seal_written:
  assumes "fs q = Some (Regular False (sealed_text env (JObj state)))" "SHA256 (digest_json env (JObj state))"
  shows "read_seal msg fs q = Inr (digest_json env (JObj state))"
    "seal_matches env fs q (digest_json env (JObj state)) (sorted_state state)"
proof -
  show "read_seal msg fs q = Inr (digest_json env (JObj state))" by (rule read_sealed_text [of fs q env "JObj state", OF assms])
  have "digest_json env (JObj (sorted_state state)) = digest_json env (JObj state)"
    using digest_canonical [of env "JObj state"] by simp
  with assms show "seal_matches env fs q (digest_json env (JObj state)) (sorted_state state)"
    by (simp add: seal_matches_def is_symlink_def is_file_def)
qed

lemma keys_sorted [simp]: "keys_are (sorted_state state) names = keys_are state names"
  using keys_canonical [of state names] by simp

lemma natural_canonical [simp]: "natural (canonical v) = natural v"
  by (cases v) (simp_all add: natural_def)

lemma hashable_canonical [simp]: "hashable (canonical v) = hashable v"
  by (cases v) simp_all

lemma parse_time_canonical [simp]: "parse_time (canonical v) field = parse_time v field"
  by (cases v) (simp_all add: parse_time_def)

lemma rto_known_canonical [simp]: "rto_known (canonical v) = rto_known v"
  by (simp add: rto_known_def)

lemma clock_state_ok_sorted [simp]: "clock_state_ok ck (sorted_state state) = clock_state_ok ck state"
  by (simp add: clock_state_ok_def)

lemma sealed_clock_reads:
  assumes "fs (ck_path ck) = Some (Regular False (Doc (canonical (JObj state))))"
    "fs (integrity_path (ck_path ck)) = Some (Regular False (sealed_text env (JObj state)))"
    "SHA256 (digest_json env (JObj state))" "clock_state_ok ck state = Inr ()"
  shows "clock_read env ck fs = Inr (sorted_state state)"
proof -
  have r: "read_json_file fs (ck_path ck) = Inr (sorted_state state)" using assms(1) by (simp add: read_json_file_def)
  from seal_written [of fs "integrity_path (ck_path ck)" env state, OF assms(2,3)] assms(4) show ?thesis
    unfolding clock_read_def r by (simp add: returns)
qed

lemma clock_updates_ok:
  assumes "clock_state_ok ck state = Inr ()" "0 \<le> n"
  shows "clock_state_ok ck (jset ''elapsed_floor_seconds'' (JInt n) state) = Inr ()"
    "clock_state_ok ck (completed_state n state) = Inr ()"
  using assms by (simp_all add: clock_state_ok_def completed_state_def returns keys_are_jset clock_fields_def natural_def rto_known_def
      require_def split: if_splits)

text \<open>Without faults a write reads back.\<close>

lemma clock_write_reads:
  assumes "dk_plan d = []" "starts_with (u ''/'') (ck_path ck)" "\<And>b. dk_files d (ck_path ck) \<noteq> Some (Folder b)"
    "\<And>b. dk_files d (integrity_path (ck_path ck)) \<noteq> Some (Folder b)" "SHA256 (digest_json env (JObj state))"
    "clock_state_ok ck state = Inr ()"
  shows "\<exists>d'. clock_write env ck state d = (Inr (), d') \<and> dk_plan d' = [] \<and> clock_read env ck (dk_files d') = Inr (sorted_state state)"
proof -
  have absolute: "starts_with (u ''/'') (integrity_path (ck_path ck))"
    using starts_withE [OF assms(2)] by (auto simp: integrity_path_def starts_with_def)
  define fs where "fs = (dk_files d)(ck_path ck \<mapsto> Regular False (Doc (canonical (JObj state))),
      integrity_path (ck_path ck) \<mapsto> Regular False (sealed_text env (JObj state)))"
  have "clock_write env ck state d = (Inr (), d\<lparr>dk_files := fs\<rparr>)"
    using assms(1-4) absolute
    by (auto simp: clock_write_def io_bind_def atomic_write_def attempt_def Let_def fs_def simp del: canonical.simps
        split: option.splits node.splits)
  moreover have "clock_read env ck fs = Inr (sorted_state state)"
    by (rule sealed_clock_reads) (simp_all add: fs_def assms(5,6) del: canonical.simps)
  ultimately show ?thesis using assms(1) by simp
qed

lemma new_clock_ok: "valid_datetime wall \<Longrightarrow> clock_state_ok ck (new_clock_state ck wall) = Inr ()"
  by (simp add: clock_state_ok_def new_clock_state_def jget_Cons keys_are_def clock_fields_def returns rto_known_def natural_def
      SCHEMA_VERSION_def parse_format require_def del: u_Cons)

lemma new_clock_fields:
  "jget (new_clock_state ck t) ''started_at'' = JStr (format_time t)" "floor_of (new_clock_state ck t) = 0"
  "jget (new_clock_state ck t) ''completed'' = JBool False"
  by (simp_all add: new_clock_state_def jget_Cons floor_of_def del: u_Cons)

text \<open>An operation declared on the first of August.\<close>

definition sample_clock :: rclock where
  "sample_clock = \<lparr>ck_path = u ''/r/clock'', ck_operation = u ''op1'', ck_release = u ''r1'', ck_anchor = 0\<rparr>"

definition sample_start :: datetime where
  "sample_start = DateTime 2026 8 1 0 0 0 0"

definition sample_clock_files :: files where
  "sample_clock_files = [ck_path sample_clock \<mapsto> Regular False (Doc (canonical (JObj (new_clock_state sample_clock sample_start)))),
     integrity_path (ck_path sample_clock) \<mapsto> Regular False (sealed_text sample_env (JObj (new_clock_state sample_clock sample_start)))]"

lemma sample_start_valid: "valid_datetime sample_start"
  by (simp add: sample_start_def valid_datetime_def days_in_month_def)

lemma sample_clock_reads: "clock_read sample_env sample_clock sample_clock_files = Inr (sorted_state (new_clock_state sample_clock sample_start))"
  by (rule sealed_clock_reads) (simp_all add: sample_clock_files_def sample_start_valid new_clock_ok del: canonical.simps)

lemma sample_clock_write:
  assumes "clock_state_ok sample_clock state = Inr ()"
  shows "\<exists>d'. clock_write sample_env sample_clock state \<lparr>dk_files = sample_clock_files, dk_plan = []\<rparr> = (Inr (), d') \<and> dk_plan d' = []
    \<and> clock_read sample_env sample_clock (dk_files d') = Inr (sorted_state state)"
  by (rule clock_write_reads [OF _ _ _ _ _ assms])
    (simp_all add: sample_clock_files_def sample_clock_def starts_with_def integrity_path_def del: canonical.simps)

lemma sample_clock_ok: "clock_state_ok sample_clock (sorted_state (new_clock_state sample_clock sample_start)) = Inr ()"
  by (simp add: new_clock_ok sample_start_valid)

section \<open>Properties\<close>

text \<open>
  C17. No retry resets the clock. Whatever is called afterwards on the same operation, with any wall and monotonic readings
  (a wall clock set back included), any fault and any crash: as long as the record can be read, the start is the one declared
  first, the counted seconds have not decreased, and a completed operation keeps its verdict.
\<close>

theorem clock_never_reset:
  assumes "(clock_step env ck)\<^sup>*\<^sup>* fs fs'" "clock_read env ck fs = Inr st" "clock_read env ck fs' = Inr st'"
  shows "jget st' ''started_at'' = jget st ''started_at'' \<and> floor_of st \<le> floor_of st'
    \<and> (jget st ''completed'' = JBool True \<longrightarrow> jget st' ''completed'' = JBool True
         \<and> canonical (jget st' ''rto_passed'') = canonical (jget st ''rto_passed''))"
proof -
  obtain st1 where "read_json_file fs' (ck_path ck) = Inr st1" "later st st1"
    using steps_later [OF assms(1)] clock_read_Inr [OF assms(2)] by blast
  then have "later st st'" using clock_read_Inr [OF assms(3)] by simp
  with clock_read_Inr [OF assms(2)] clock_read_Inr [OF assms(3)] show ?thesis by (auto simp: later_def)
qed

text \<open>
  What a completion reports. When completing succeeds, the seconds it returns are those on record and at least those
  counted before; the verdict of a first completion is whether they are within the limit, and exactly when they
  are not the alert is written; the seconds of a completion at a given moment are at
  least those from the declared start to it.
\<close>

theorem completion_verdict:
  assumes c: "complete_after_external_readiness env ck external wall0 wall ticks d = (Inr (n, ok), d')"
    and st: "clock_read env ck (dk_files d) = Inr st" and fresh: "jget st ''completed'' = JBool False"
  shows "floor_of st \<le> n \<and> ok = (n \<le> RTO_LIMIT_SECONDS)
    \<and> (\<forall>ready. external = Some ready \<longrightarrow> seconds_between ready (time_of (jget st ''started_at'')) \<le> n)
    \<and> (\<exists>st'. read_json_file (dk_files d') (ck_path ck) = Inr st' \<and> floor_of st' = n
         \<and> jget st' ''completed'' = JBool True \<and> jget st' ''rto_passed'' = JBool ok)
    \<and> (\<not> ok \<longrightarrow> dk_files d' (alert_path ck) = Some (Regular False (Doc (canonical (rto_alert ck n)))))"
proof -
  from clock_read_Inr [OF st] obtain t where doc: "read_json_file (dk_files d) (ck_path ck) = Inr st" and
    t: "jget st ''started_at'' = JStr (format_time t)" "valid_datetime t" by blast
  obtain q d1 where s: "completion_seconds env ck external wall0 wall ticks st d = (q, d1)" by fastforce
  from c st fresh s obtain st1 d2 where q: "q = Inr n" and st1: "clock_read env ck (dk_files d1) = Inr st1" and
    w: "clock_write env ck (completed_state n st1) d1 = (Inr (), d2)" and ok: "ok = (n \<le> RTO_LIMIT_SECONDS)" and
    a: "if ok then d' = d2 else atomic_write (alert_path ck) (Doc (canonical (rto_alert ck n))) d2 = (Inr (), d')"
    by (auto simp: complete_after_external_readiness_def io_bind_def split: sum.splits prod.splits if_splits)
  have n: "floor_of st \<le> n \<and> (\<forall>ready. external = Some ready \<longrightarrow> seconds_between ready (time_of (jget st ''started_at'')) \<le> n)"
  proof (cases external)
    case None
    with s q have "clock_elapsed env ck wall0 wall ticks d = (Inr n, d1)" by (simp add: completion_seconds_def)
    from elapsed_state [OF this doc] None show ?thesis by (auto simp: later_def)
  next
    case (Some ready)
    with s q t show ?thesis by (auto simp: completion_seconds_def parse_format split: if_splits)
  qed
  have doc1: "read_json_file (dk_files d1) (ck_path ck) = Inr st1" using clock_read_Inr [OF st1] by simp
  have doc2: "read_json_file (dk_files d2) (ck_path ck) = Inr (sorted_state (completed_state n st1))"
    by (rule clock_write_state(2) [OF w doc1]) simp
  have alert: "\<not> ok \<Longrightarrow> dk_files d' = (dk_files d2)(alert_path ck \<mapsto> Regular False (Doc (canonical (rto_alert ck n))))"
    using a by (auto simp: atomic_write_def attempt_def Let_def split: if_splits option.splits node.splits list.splits outcome.splits)
  have "read_json_file (dk_files d') (ck_path ck) = Inr (sorted_state (completed_state n st1))"
    using doc2 a alert by (cases ok) (auto simp: alert_path_def)
  moreover have "floor_of (completed_state n st1) = n" "jget (completed_state n st1) ''completed'' = JBool True"
    "jget (completed_state n st1) ''rto_passed'' = JBool ok"
    by (simp_all add: completed_state_def floor_of_def ok)
  ultimately show ?thesis using n ok alert by auto
qed


text \<open>Five seconds after the start, although the wall clock shows the day before.\<close>

theorem clock_never_reset_witness:
  "\<exists>d' st'. clock_elapsed sample_env sample_clock sample_start (DateTime 2026 7 31 0 0 0 0) 5000000000
        \<lparr>dk_files = sample_clock_files, dk_plan = []\<rparr> = (Inr 5, d')
     \<and> clock_read sample_env sample_clock (dk_files d') = Inr st' \<and> 0 \<le> floor_of st' \<and> text_of (jget st' ''started_at'') = format_time sample_start"
proof -
  define st where "st = sorted_state (new_clock_state sample_clock sample_start)"
  have r: "clock_read sample_env sample_clock sample_clock_files = Inr st" by (simp add: sample_clock_reads st_def)
  have f: "jget st ''started_at'' = JStr (format_time sample_start)" "floor_of st = 0"
    by (simp_all add: st_def new_clock_fields)
  have ok: "clock_state_ok sample_clock (jset ''elapsed_floor_seconds'' (JInt 5) st) = Inr ()"
    unfolding st_def by (rule clock_updates_ok [OF sample_clock_ok]) simp
  obtain d' where w: "clock_write sample_env sample_clock (jset ''elapsed_floor_seconds'' (JInt 5) st)
      \<lparr>dk_files = sample_clock_files, dk_plan = []\<rparr> = (Inr (), d')" and
    r': "clock_read sample_env sample_clock (dk_files d') = Inr (sorted_state (jset ''elapsed_floor_seconds'' (JInt 5) st))"
    using sample_clock_write [OF ok] by blast
  have "seconds_between (DateTime 2026 7 31 0 0 0 0) sample_start = - 86400"
    by (simp add: seconds_between_def microseconds_def to_ordinal_def sample_start_def Let_def upt_rec days_in_month_def is_leap_def)
  then have e: "clock_elapsed sample_env sample_clock sample_start (DateTime 2026 7 31 0 0 0 0) 5000000000
      \<lparr>dk_files = sample_clock_files, dk_plan = []\<rparr> = (Inr 5, d')"
    using elapsed_run [of sample_env sample_clock "\<lparr>dk_files = sample_clock_files, dk_plan = []\<rparr>" st sample_start 5
        "DateTime 2026 7 31 0 0 0 0" 5000000000, OF _ f(1) sample_start_valid _ w] r f(2) by (simp add: sample_clock_def)
  have "clock_step sample_env sample_clock sample_clock_files (dk_files d')" by (rule Elapsed [OF e])
  from clock_never_reset [OF r_into_rtranclp [of "clock_step sample_env sample_clock", OF this] r r'] e r' f show ?thesis by fastforce
qed

theorem completion_verdict_witness:
  "\<exists>n ok d'. complete_after_external_readiness sample_env sample_clock (Some (DateTime 2026 8 1 2 0 0 0)) sample_start sample_start 0
       \<lparr>dk_files = sample_clock_files, dk_plan = []\<rparr> = (Inr (n, ok), d') \<and> ok = (n \<le> RTO_LIMIT_SECONDS) \<and> 7200 \<le> n"
proof -
  define st where "st = sorted_state (new_clock_state sample_clock sample_start)"
  have r: "clock_read sample_env sample_clock sample_clock_files = Inr st" by (simp add: sample_clock_reads st_def)
  have f: "jget st ''started_at'' = JStr (format_time sample_start)" "floor_of st = 0" "jget st ''completed'' = JBool False"
    by (simp_all add: st_def new_clock_fields)
  have ok: "clock_state_ok sample_clock (completed_state 7200 st) = Inr ()"
    unfolding st_def by (rule clock_updates_ok [OF sample_clock_ok]) simp
  obtain d' where w: "clock_write sample_env sample_clock (completed_state 7200 st)
      \<lparr>dk_files = sample_clock_files, dk_plan = []\<rparr> = (Inr (), d')" using sample_clock_write [OF ok] by blast
  have s: "seconds_between (DateTime 2026 8 1 2 0 0 0) sample_start = 7200"
    by (simp add: seconds_between_def microseconds_def to_ordinal_def sample_start_def Let_def upt_rec days_in_month_def is_leap_def)
  then have c: "complete_after_external_readiness sample_env sample_clock (Some (DateTime 2026 8 1 2 0 0 0)) sample_start sample_start 0
      \<lparr>dk_files = sample_clock_files, dk_plan = []\<rparr> = (Inr (7200, True), d')"
    using r f w by (intro complete_run [OF _ f(3,1) sample_start_valid _ _ _ w]) (simp_all add: RTO_LIMIT_SECONDS_def)
  from completion_verdict [OF c _ f(3)] r f s c show ?thesis by (auto simp: sample_start_valid)
qed

text \<open>
  A process that ends between the two writes of \<open>_write\<close> leaves a record whose seal is that of the
  state before: unless the two digests collide, no later call can read it, so the operation can neither be continued nor
  declared again.
\<close>

theorem interrupted_write_locks:
  assumes st: "clock_read env ck (dk_files d) = Inr st" and "abs": "starts_with (u ''/'') (ck_path ck)" and plan: "dk_plan d = [Done, Dies]"
    and differ: "digest_json env (JObj state) \<noteq> digest_json env (JObj st)" and w: "clock_write env ck state d = (r, d')"
  shows "r = Inl Killed \<and> fst (clock_declare env ck wall d') = unsafe ''rollback RTO integrity seal mismatch''
    \<and> dk_files (snd (clock_declare env ck wall d')) = dk_files d'"
proof -
  from st obtain expected where doc: "read_json_file (dk_files d) (ck_path ck) = Inr st" and
    seal: "read_seal ''rollback RTO integrity seal is missing'' (dk_files d) (integrity_path (ck_path ck)) = Inr expected" and
    m: "seal_matches env (dk_files d) (integrity_path (ck_path ck)) expected st"
    by (auto simp: clock_read_def returns)
  have absolute: "starts_with (u ''/'') (integrity_path (ck_path ck))"
    using starts_withE [OF "abs"] by (auto simp: integrity_path_def starts_with_def)
  from doc obtain c where c: "dk_files d (ck_path ck) = Some (Regular False c)" by (auto simp: read_json_file_Inr)
  from m obtain b c2 where c2: "dk_files d (integrity_path (ck_path ck)) = Some (Regular b c2)"
    by (auto simp: seal_matches_def is_file_def is_symlink_def split: option.splits node.splits)
  define fs where "fs = (dk_files d)(ck_path ck \<mapsto> Regular False (Doc (canonical (JObj state))))"
  have d': "r = Inl Killed \<and> d' = d\<lparr>dk_files := fs, dk_plan := []\<rparr>"
    using w plan "abs" absolute c c2
    by (simp add: clock_write_def io_bind_def atomic_write_def attempt_def Let_def fs_def del: canonical.simps)
  have r: "read_json_file fs (ck_path ck) = Inr (sorted_state state)" by (simp add: fs_def)
  have s: "read_seal ''rollback RTO integrity seal is missing'' fs (integrity_path (ck_path ck)) = Inr expected"
    using seal by (simp add: fs_def read_seal_def)
  have "digest_json env (JObj (sorted_state state)) = digest_json env (JObj state)"
    using digest_canonical [of env "JObj state"] by simp
  then have "\<not> seal_matches env fs (integrity_path (ck_path ck)) expected (sorted_state state)"
    using m differ by (auto simp: seal_matches_def)
  with r s have "clock_read env ck fs = unsafe ''rollback RTO integrity seal mismatch''"
    by (simp add: clock_read_def checks.simps require_def)
  with d' read_present [OF r] show ?thesis by (simp add: clock_declare_def)
qed

end
