(* ===== verification/Rb_Audit.thy ===== *)
theory Rb_Audit
  imports Rb_Clock
begin

text \<open>
  \<open>AuditLog\<close> of \<open>scripts/deploy_rollback/model.py\<close>: the hash-chained log of the rollback operations and its anchor.
\<close>

section \<open>The audit log\<close>

definition zero_sha :: ustr where
  "zero_sha = replicate 64 48"

definition anchor_path :: "ustr \<Rightarrow> ustr" where
  "anchor_path p = p @ u ''.anchor''"

text \<open>The loop over the lines: the verified events and the digest of the last.\<close>

fun chain :: "rb_env \<Rightarrow> ustr \<Rightarrow> json option list \<Rightarrow> rexc + (jobj list \<times> ustr)" where
  "chain env previous [] = Inr ([], previous)"
| "chain env previous (l # ls) =
     (case l of
        None \<Rightarrow> unsafe ''audit log contains invalid JSON''
      | Some (JObj event) \<Rightarrow>
          let body = without ''event_sha256'' event; observed = jget event ''event_sha256''
          in if jget body ''previous_sha256'' \<noteq> JStr previous \<or> observed \<noteq> JStr (digest_json env (JObj body))
             then unsafe ''audit chain was modified or truncated''
             else andthen (chain env (text_of observed) ls) (\<lambda>(events, head).
               Inr ((body @ [(u ''event_sha256'', observed)]) # events, head))
      | Some _ \<Rightarrow> unsafe ''audit event is invalid'')"

definition anchor_document :: "nat \<Rightarrow> ustr \<Rightarrow> jobj" where
  "anchor_document n head = [(u ''event_count'', JInt (int n)), (u ''head_sha256'', JStr head)]"

definition audit_events :: "rb_env \<Rightarrow> ustr \<Rightarrow> files \<Rightarrow> rexc + jobj list" where
  "audit_events env p fs =
     (if \<not> exists_at fs p then Inr []
      else case fs p of
        Some (Regular _ c) \<Rightarrow>
          andthen (log_lines c) (\<lambda>ls.
          andthen (chain env zero_sha ls) (\<lambda>(events, head).
            if \<not> is_file fs (anchor_path p) then unsafe ''audit head anchor is missing''
            else andthen (read_json_file fs (anchor_path p)) (\<lambda>anchor.
              if py_eq (JObj anchor) (JObj (anchor_document (length events) head)) then Inr events
              else unsafe ''audit chain was truncated or its head changed'')))
      | _ \<Rightarrow> unsafe ''audit log is not a regular file'')"

text \<open>\<open>str(key).lower()\<close> on the ASCII letters, the only ones the forbidden words have.\<close>

definition sensitive :: "jobj \<Rightarrow> bool" where
  "sensitive event \<longleftrightarrow> list_ex (\<lambda>kv. list_ex (\<lambda>w. contains (u w) (ascii_lower (fst kv))) SENSITIVE_AUDIT_WORDS) event"

definition head_of :: "jobj list \<Rightarrow> ustr" where
  "head_of existing = (if existing = [] then zero_sha else text_of (jget (last existing) ''event_sha256''))"

text \<open>The body with the digest before it, and its own digest.\<close>

definition linked :: "ustr \<Rightarrow> jobj \<Rightarrow> jobj" where
  "linked previous event = jset ''previous_sha256'' (JStr previous) event"

definition sealed_event :: "rb_env \<Rightarrow> ustr \<Rightarrow> jobj \<Rightarrow> jobj" where
  "sealed_event env previous event =
     jset ''event_sha256'' (JStr (digest_json env (JObj (linked previous event)))) (linked previous event)"

definition audit_append :: "rb_env \<Rightarrow> ustr \<Rightarrow> jobj \<Rightarrow> ustr io" where
  "audit_append env p event d =
     (if sensitive event then (unsafe ''sensitive field is forbidden in rollback audit'', d)
      else case audit_events env p (dk_files d) of
        Inl e \<Rightarrow> (Inl e, d)
      | Inr existing \<Rightarrow>
          let sealed = sealed_event env (head_of existing) event;
              sha = text_of (jget sealed ''event_sha256'')
          in io_bind (append_line p (canonical (JObj sealed))) (\<lambda>_.
             io_bind (atomic_write (anchor_path p) (Doc (canonical (JObj (anchor_document (length existing + 1) sha))))) (\<lambda>_ d2.
               (Inr sha, d2))) d)"

section \<open>Chains\<close>

lemma chain_append:
  "chain env p (xs @ ys) = andthen (chain env p xs) (\<lambda>(es, h). andthen (chain env h ys) (\<lambda>(es', h'). Inr (es @ es', h')))"
proof (induction xs arbitrary: p)
  case Nil
  show ?case by (cases "chain env p ys") auto
next
  case (Cons l xs)
  then show ?case
    by (auto simp: Let_def andthen_def split: option.splits json.splits sum.splits)
qed

lemma chain_one:
  "chain env p [l] = Inr (es, h) \<longleftrightarrow> (\<exists>event body. l = Some (JObj event) \<and> body = without ''event_sha256'' event
     \<and> jget body ''previous_sha256'' = JStr p \<and> jget event ''event_sha256'' = JStr h \<and> h = digest_json env (JObj body)
     \<and> es = [body @ [(u ''event_sha256'', JStr h)]])"
  by (auto simp: Let_def split: option.splits json.splits if_splits)

text \<open>The part of an event its digest covers.\<close>

definition body_of :: "jobj \<Rightarrow> json" where
  "body_of event = JObj (without ''event_sha256'' event)"

lemma chain_oneD:
  assumes "chain env p [l] = Inr ([e], h)"
  shows "h = digest_json env (body_of e) \<and> jget (items (body_of e)) ''previous_sha256'' = JStr p \<and> jget e ''event_sha256'' = JStr h"
proof -
  from assms obtain event body where b: "body = without ''event_sha256'' event" "jget body ''previous_sha256'' = JStr p"
    "h = digest_json env (JObj body)" "e = body @ [(u ''event_sha256'', JStr h)]"
    unfolding chain_one by blast
  have "map_of (without k d) (u k) = None" for k d by (auto simp: without_def map_of_eq_None_iff)
  then have "jget e ''event_sha256'' = JStr h" by (simp add: b(1,4) jget_def map_add_def del: u_Cons)
  with b show ?thesis by (simp add: body_of_def del: u_Cons)
qed

definition collision_free :: "rb_env \<Rightarrow> json list \<Rightarrow> json list \<Rightarrow> bool" where
  "collision_free env vs ws \<longleftrightarrow> (\<forall>v \<in> set vs. \<forall>w \<in> set ws. digest_json env v = digest_json env w \<longrightarrow> canonical v = canonical w)"

lemma chain_determined:
  assumes "chain env p xs = Inr (es, h)" "chain env p' ys = Inr (es', h)" "length es = length es'"
    "collision_free env (map body_of es) (map body_of es')"
  shows "map (canonical \<circ> body_of) es = map (canonical \<circ> body_of) es'"
  using assms
proof (induction xs arbitrary: h ys es es' rule: rev_induct)
  case Nil
  then show ?case by simp
next
  case (snoc x xs)
  from snoc.prems(1) obtain es0 h0 e where c0: "chain env p xs = Inr (es0, h0)" and x: "chain env h0 [x] = Inr ([e], h)" and es: "es = es0 @ [e]"
  proof -
    from snoc.prems(1) obtain es0 h0 es1 where c: "chain env p xs = Inr (es0, h0)" "chain env h0 [x] = Inr (es1, h)" "es = es0 @ es1"
      by (auto simp: chain_append returns simp del: chain.simps)
    moreover from c(2) obtain e where "es1 = [e]" unfolding chain_one by blast
    ultimately show thesis using that by simp
  qed
  show ?case
  proof (cases ys rule: rev_cases)
    case Nil
    with snoc.prems es show ?thesis by simp
  next
    case (snoc ys0 y)
    with \<open>chain env p' ys = Inr (es', h)\<close> obtain es0' h0' e' where c0': "chain env p' ys0 = Inr (es0', h0')" and
      y: "chain env h0' [y] = Inr ([e'], h)" and es': "es' = es0' @ [e']"
    proof -
      from \<open>chain env p' ys = Inr (es', h)\<close> snoc obtain es0 h0 es1 where
        c: "chain env p' ys0 = Inr (es0, h0)" "chain env h0 [y] = Inr (es1, h)" "es' = es0 @ es1"
        by (auto simp: chain_append returns simp del: chain.simps)
      moreover from c(2) obtain e where "es1 = [e]" unfolding chain_one by blast
      ultimately show thesis using that by simp
    qed
    from chain_oneD [OF x] chain_oneD [OF y] have b: "h = digest_json env (body_of e)" "h = digest_json env (body_of e')"
      "jget (items (body_of e)) ''previous_sha256'' = JStr h0" "jget (items (body_of e')) ''previous_sha256'' = JStr h0'"
      by simp_all
    have eq: "canonical (body_of e) = canonical (body_of e')"
      using assms(4) b snoc.prems(4) es es' unfolding collision_free_def by auto
    then have "canonical (JStr h0) = canonical (JStr h0')"
      using b(3,4) jget_items_canonical by metis
    then have "h0 = h0'" by simp
    moreover have "collision_free env (map body_of es0) (map body_of es0')"
      using snoc.prems(4) es es' by (auto simp: collision_free_def)
    ultimately have "map (canonical \<circ> body_of) es0 = map (canonical \<circ> body_of) es0'"
      using snoc.IH [OF c0, of ys0 es0'] c0' snoc.prems(3) es es' by (simp add: comp_def)
    with eq es es' show ?thesis by (simp add: comp_def)
  qed
qed

lemma audit_events_Inr:
  assumes "audit_events env p fs = Inr es" "exists_at fs p"
  obtains b c ls h anchor where "fs p = Some (Regular b c)" "log_lines c = Inr ls" "chain env zero_sha ls = Inr (es, h)"
    "read_json_file fs (anchor_path p) = Inr anchor" "py_eq (JObj anchor) (JObj (anchor_document (length es) h))"
  using assms by (auto simp: audit_events_def returns split: option.splits node.splits if_splits)

section \<open>Appending\<close>

text \<open>The event as a later verification returns it.\<close>

definition stored_event :: "rb_env \<Rightarrow> ustr \<Rightarrow> jobj \<Rightarrow> jobj" where
  "stored_event env previous event = items (canonical (JObj (linked previous event)))
     @ [(u ''event_sha256'', JStr (digest_json env (JObj (linked previous event))))]"

lemma without_sealed:
  assumes "u ''event_sha256'' \<notin> set (map fst event)"
  shows "without ''event_sha256'' (items (canonical (JObj (sealed_event env previous event)))) = items (canonical (JObj (linked previous event)))"
proof -
  have no: "u ''event_sha256'' \<notin> set (map fst (linked previous event))" using assms by (simp add: linked_def)
  then have "without ''event_sha256'' (linked previous event) = linked previous event"
    by (force simp: without_def filter_id_conv simp del: u_Cons)
  moreover have "without ''event_sha256'' (sealed_event env previous event) = without ''event_sha256'' (linked previous event)"
    using no by (simp add: sealed_event_def jset_def del: u_Cons)
  ultimately show ?thesis by (simp only: without_canonical)
qed

lemma chain_sealed:
  assumes "u ''event_sha256'' \<notin> set (map fst event)"
  shows "chain env previous [Some (canonical (JObj (sealed_event env previous event)))] =
    Inr ([stored_event env previous event], digest_json env (JObj (linked previous event)))"
proof -
  have obj: "canonical (JObj (sealed_event env previous event)) = JObj (items (canonical (JObj (sealed_event env previous event))))"
    by simp
  have body: "without ''event_sha256'' (items (canonical (JObj (sealed_event env previous event)))) = items (canonical (JObj (linked previous event)))"
    by (rule without_sealed [OF assms])
  have whole: "JObj (items (canonical (JObj (linked previous event)))) = canonical (JObj (linked previous event))" by simp
  have "jget (items (canonical (JObj (linked previous event)))) ''previous_sha256'' = JStr previous"
    by (simp only: jget_canonical) (simp add: linked_def)
  moreover have "jget (items (canonical (JObj (sealed_event env previous event)))) ''event_sha256'' = JStr (digest_json env (JObj (linked previous event)))"
    by (simp only: jget_canonical) (simp add: sealed_event_def)
  moreover have "digest_json env (JObj (items (canonical (JObj (linked previous event))))) = digest_json env (JObj (linked previous event))"
    by (simp only: whole digest_canonical)
  ultimately show ?thesis
    by (subst obj) (simp add: body Let_def stored_event_def del: canonical.simps items.simps)
qed

lemma chain_head: "chain env zero_sha ls = Inr (es, h) \<Longrightarrow> h = head_of es"
proof (induction ls arbitrary: es h rule: rev_induct)
  case (snoc l ls)
  from snoc.prems obtain es0 h0 es1 where c: "chain env zero_sha ls = Inr (es0, h0)" "chain env h0 [l] = Inr (es1, h)" "es = es0 @ es1"
    by (auto simp: chain_append returns simp del: chain.simps)
  from c(2) obtain e where e: "es1 = [e]" unfolding chain_one by blast
  from chain_oneD [of env h0 l e h] c(2) e have "jget e ''event_sha256'' = JStr h" by blast
  then show ?case by (simp add: head_of_def c(3) e)
qed (simp add: head_of_def)

definition appendable :: "ustr \<Rightarrow> jobj \<Rightarrow> files \<Rightarrow> bool" where
  "appendable p event fs \<longleftrightarrow> starts_with (u ''/'') p \<and> \<not> sensitive event \<and> u ''event_sha256'' \<notin> set (map fst event)
     \<and> (case fs p of Some (Link _) \<Rightarrow> False | _ \<Rightarrow> True) \<and> (case fs (anchor_path p) of Some (Folder _) \<Rightarrow> False | _ \<Rightarrow> True)"

lemma appended_reads:
  assumes es: "audit_events env p fs = Inr es" and ok: "appendable p event fs"
    and line: "\<not> has_break (canonical (JObj (sealed_event env (head_of es) event)))"
    and log: "fs' p = with_lines (as_lines (canonical (JObj (sealed_event env (head_of es) event)))) (fs p)"
    and anchor: "fs' (anchor_path p) = Some (Regular False (Doc (canonical (JObj (anchor_document (length es + 1)
        (digest_json env (JObj (linked (head_of es) event))))))))"
  shows "audit_events env p fs' = Inr (es @ [stored_event env (head_of es) event])"
proof -
  obtain b c ls where before: "fs' p = Some (Regular b (Log (ls @ as_lines (canonical (JObj (sealed_event env (head_of es) event))))))"
    "chain env zero_sha ls = Inr (es, head_of es)"
  proof (cases "exists_at fs p")
    case True
    obtain b c ls h where "fs p = Some (Regular b c)" "log_lines c = Inr ls" "chain env zero_sha ls = Inr (es, h)"
      by (rule audit_events_Inr [OF es True]) simp
    with log chain_head that show thesis by fastforce
  next
    case False
    with es ok have "fs p = None" "es = []"
      by (auto simp: audit_events_def appendable_def exists_at_def split: option.splits node.splits)
    with log that [of False "[]"] show thesis by (simp add: head_of_def)
  qed
  have "chain env zero_sha (ls @ as_lines (canonical (JObj (sealed_event env (head_of es) event)))) =
      Inr (es @ [stored_event env (head_of es) event], digest_json env (JObj (linked (head_of es) event)))"
    using ok chain_sealed [of event env "head_of es"] line
    by (simp add: chain_append before(2) as_lines_def appendable_def del: chain.simps)
  moreover have "py_eq (JObj (items (canonical (JObj (anchor_document n h))))) (JObj (anchor_document n h))" for n h
    by (simp add: anchor_document_def)
  moreover have "read_json_file fs' (anchor_path p) = Inr (items (canonical (JObj (anchor_document (length es + 1)
        (digest_json env (JObj (linked (head_of es) event)))))))"
    by (simp add: read_json_file_def anchor)
  ultimately show ?thesis
    by (simp add: audit_events_def before(1) exists_at_def is_file_def anchor del: canonical.simps py_eq.simps)
qed

text \<open>Without faults an appended event is read back at the end of the log; the files of others are left alone.\<close>

lemma audit_append_run:
  assumes es: "audit_events env p (dk_files d) = Inr es" and ok: "appendable p event (dk_files d)"
    and line: "\<not> has_break (canonical (JObj (sealed_event env (head_of es) event)))" and plan: "dk_plan d = []"
  shows "\<exists>fs. audit_append env p event d = (Inr (digest_json env (JObj (linked (head_of es) event))), \<lparr>dk_files = fs, dk_plan = []\<rparr>)
    \<and> audit_events env p fs = Inr (es @ [stored_event env (head_of es) event])
    \<and> (\<forall>q. q \<notin> {p, anchor_path p} \<longrightarrow> fs q = dk_files d q)
    \<and> (\<exists>c. fs p = Some c \<and> (\<forall>t. c \<noteq> Link t)) \<and> (\<exists>c. fs (anchor_path p) = Some (Regular False c))"
proof -
  define log where "log = with_lines (as_lines (canonical (JObj (sealed_event env (head_of es) event)))) (dk_files d p)"
  define anchor where "anchor = Regular False (Doc (canonical (JObj (anchor_document (length es + 1)
    (digest_json env (JObj (linked (head_of es) event)))))))"
  define fs where "fs = (dk_files d)(p := log, anchor_path p \<mapsto> anchor)"
  have q: "anchor_path p \<noteq> p" by (simp add: anchor_path_def)
  have absolute: "starts_with (u ''/'') (anchor_path p)"
    using ok starts_withE [of "u ''/''" p] by (fastforce simp: appendable_def anchor_path_def starts_with_def)
  have sha: "jget (sealed_event env (head_of es) event) ''event_sha256'' = JStr (digest_json env (JObj (linked (head_of es) event)))"
    by (simp add: sealed_event_def)
  have "audit_append env p event d = (Inr (digest_json env (JObj (linked (head_of es) event))), d\<lparr>dk_files := fs\<rparr>)"
    using ok es plan absolute q
    by (auto simp: audit_append_def appendable_def io_bind_def append_line_def atomic_write_def attempt_def Let_def sha fs_def log_def
        anchor_def simp del: canonical.simps split: option.splits node.splits)
  moreover have "audit_events env p fs = Inr (es @ [stored_event env (head_of es) event])"
    by (rule appended_reads [OF es ok line]) (simp_all add: fs_def log_def anchor_def q q [symmetric])
  moreover have "\<exists>c. log = Some c \<and> (\<forall>t. c \<noteq> Link t)"
    using ok by (cases "dk_files d p") (auto simp: log_def appendable_def split: node.splits)
  moreover have "d\<lparr>dk_files := fs\<rparr> = \<lparr>dk_files = fs, dk_plan = []\<rparr>" using plan by simp
  moreover have "\<forall>q'. q' \<notin> {p, anchor_path p} \<longrightarrow> fs q' = dk_files d q'" "fs p = log" "fs (anchor_path p) = Some anchor"
    using q [symmetric] by (simp_all add: fs_def)
  ultimately show ?thesis by (intro exI [of _ fs]) (simp add: anchor_def del: canonical.simps)
qed

lemma anchor_lookup:
  assumes "py_eq (JObj anchor) (JObj (anchor_document n h))"
  shows "int_of (jget anchor ''event_count'') = Some (int n)" "jget anchor ''head_sha256'' = JStr h"
proof -
  from assms have keys: "u ''event_count'' \<in> set (map fst anchor)" "u ''head_sha256'' \<in> set (map fst anchor)"
    by (auto simp: anchor_document_def simp del: u_Cons)
  then have "map_of anchor (u ''event_count'') \<noteq> None" "map_of anchor (u ''head_sha256'') \<noteq> None"
    by (simp_all add: map_of_eq_None_iff del: u_Cons)
  then obtain v w where v: "map_of anchor (u ''event_count'') = Some v" and w: "map_of anchor (u ''head_sha256'') = Some w"
    by (auto simp del: u_Cons)
  have sub: "\<And>k x. (k, x) \<in> set anchor \<Longrightarrow> \<exists>y. map_of (anchor_document n h) k = Some y \<and> py_eq x y"
  proof -
    fix k x
    assume "(k, x) \<in> set anchor"
    moreover have "list_all (\<lambda>kv. case map_of (anchor_document n h) (fst kv) of None \<Rightarrow> False | Some v \<Rightarrow> py_eq (snd kv) v) anchor"
      using assms by (simp only: py_eq.simps json.case)
    ultimately have "case map_of (anchor_document n h) (fst (k, x)) of None \<Rightarrow> False | Some v \<Rightarrow> py_eq (snd (k, x)) v"
      unfolding list_all_iff by (rule bspec [rotated])
    then show "\<exists>y. map_of (anchor_document n h) k = Some y \<and> py_eq x y"
      by (cases "map_of (anchor_document n h) k") simp_all
  qed
  from sub [OF map_of_SomeD [OF v]] have "py_eq v (JInt (int n))" by (simp add: anchor_document_def del: u_Cons)
  then have "int_of v = Some (int n)" by (cases v) auto
  then show "int_of (jget anchor ''event_count'') = Some (int n)" using v by (simp add: jget_def del: u_Cons)
  from sub [OF map_of_SomeD [OF w]] show "jget anchor ''head_sha256'' = JStr h" using w by (simp add: anchor_document_def jget_def del: u_Cons)
qed


text \<open>
  What is appended is read back. On a log that verifies, and without faults, appending an event whose keys are harmless and whose texts
  hold no line separator succeeds, and the log verifies afterwards with exactly the old events and, last,
  the new one linked to the digest of the one before.
\<close>

theorem audit_append_reads_back:
  assumes "audit_events env p (dk_files d) = Inr es" "appendable p event (dk_files d)" "dk_plan d = []"
    and "\<not> has_break (canonical (JObj (sealed_event env (head_of es) event)))"
  shows "\<exists>d'. audit_append env p event d = (Inr (digest_json env (JObj (linked (head_of es) event))), d')
    \<and> audit_events env p (dk_files d') = Inr (es @ [stored_event env (head_of es) event])
    \<and> jget (stored_event env (head_of es) event) ''previous_sha256'' = JStr (head_of es)"
proof -
  have "jget (stored_event env (head_of es) event) ''previous_sha256'' = JStr (head_of es)"
    by (simp add: stored_event_def jget_snoc jget_canonical [simplified] linked_def del: u_Cons)
  then show ?thesis using audit_append_run [OF assms(1,2,4,3)] by fastforce
qed

definition sample_log :: files where
  "sample_log = [u ''/r/log'' \<mapsto> Regular False (Log [Some (JObj [(u ''previous_sha256'', JStr zero_sha), (u ''event_sha256'', JStr zero_sha)])]),
     u ''/r/log.anchor'' \<mapsto> Regular False (Doc (JObj (anchor_document 1 zero_sha)))]"

lemma sample_log_verifies:
  "audit_events sample_env (u ''/r/log'') sample_log =
     Inr [[(u ''previous_sha256'', JStr zero_sha), (u ''event_sha256'', JStr zero_sha)]]"
proof -
  have eq: "py_eq (JObj (anchor_document 1 zero_sha)) (JObj (anchor_document (Suc 0) zero_sha))"
    by (simp add: anchor_document_def)
  have "chain sample_env zero_sha [Some (JObj [(u ''previous_sha256'', JStr zero_sha), (u ''event_sha256'', JStr zero_sha)])] =
    Inr ([[(u ''previous_sha256'', JStr zero_sha), (u ''event_sha256'', JStr zero_sha)]], zero_sha)"
    by (simp add: without_def jget_Cons Let_def zero_sha_def del: u_Cons)
  with eq show ?thesis
    by (simp add: audit_events_def sample_log_def exists_at_def is_file_def anchor_path_def read_json_file_def
        del: chain.simps py_eq.simps)
qed

theorem audit_append_reads_back_witness:
  "\<exists>d' es'. audit_append sample_env (u ''/r/log'') [(u ''a'', JInt 1)] \<lparr>dk_files = sample_log, dk_plan = []\<rparr> = (Inr zero_sha, d')
    \<and> audit_events sample_env (u ''/r/log'') (dk_files d') = Inr es' \<and> length es' = 2"
proof -
  have s: "canonical (JObj (sealed_event sample_env zero_sha [(u ''a'', JInt 1)])) =
      JObj [(u ''a'', JInt 1), (u ''event_sha256'', JStr zero_sha), (u ''previous_sha256'', JStr zero_sha)]"
    by (simp add: sealed_event_def linked_def jset_def zero_sha_def)
  have h: "head_of [[(u ''previous_sha256'', JStr zero_sha), (u ''event_sha256'', JStr zero_sha)]] = zero_sha"
    by (simp add: head_of_def jget_Cons del: u_Cons)
  have a: "appendable (u ''/r/log'') [(u ''a'', JInt 1)] sample_log"
    by (simp add: appendable_def sensitive_def SENSITIVE_AUDIT_WORDS_def starts_with_def sample_log_def anchor_path_def ascii_lower_def)
  have "\<not> has_break (canonical (JObj (sealed_event sample_env zero_sha [(u ''a'', JInt 1)])))"
    unfolding s by (simp add: has_break_def zero_sha_def list_ex_iff)
  moreover have "digest_json sample_env v = zero_sha" for v by (simp add: zero_sha_def)
  ultimately show ?thesis
    using audit_append_reads_back [of sample_env "u ''/r/log''" "\<lparr>dk_files = sample_log, dk_plan = []\<rparr>"
        "[[(u ''previous_sha256'', JStr zero_sha), (u ''event_sha256'', JStr zero_sha)]]" "[(u ''a'', JInt 1)]"] sample_log_verifies a h
    by (fastforce simp del: sample_digest)
qed


text \<open>
  The exception: a log file that is gone altogether verifies as an empty log, whatever the anchor counts, and the next
  append starts a new chain.
\<close>

theorem deleted_log_unnoticed: "audit_events env p (fs(p := None)) = Inr []"
  by (simp add: audit_events_def exists_at_def)

text \<open>An event with a line separator in a text is appended without an error, and no event can be read or appended after it.\<close>

theorem line_separator_locks:
  assumes es: "audit_events env p (dk_files d) = Inr es" and node: "\<And>l. dk_files d p \<noteq> Some (Link l)"
    and sep: "has_break (canonical (JObj (sealed_event env (head_of es) event)))"
    and a: "audit_append env p event d = (Inr sha, d')"
  shows "is_err (audit_events env p (dk_files d'))"
proof -
  define line where "line = canonical (JObj (sealed_event env (head_of es) event))"
  from a es obtain d1 where l: "append_line p line d = (Inr (), d1)" and
    d': "dk_files d' p = dk_files d1 p"
    by (auto simp: audit_append_def io_bind_def Let_def line_def anchor_path_def split: if_splits sum.splits prod.splits
        dest!: atomic_write_files)
  have d1: "dk_files d1 p = with_lines [None, None] (dk_files d p)"
    using l sep by (auto simp: append_line_def as_lines_def line_def attempt_def split: list.splits outcome.splits)
  have "\<exists>e. chain env zero_sha (ls @ [None, None]) = Inl e" for ls
    by (cases "chain env zero_sha ls") (auto simp: chain_append)
  moreover have "\<exists>b c ls. dk_files d1 p = Some (Regular b c) \<and> log_lines c = Inr (ls @ [None, None])"
  proof (cases "exists_at (dk_files d) p")
    case True
    obtain b c ls where "dk_files d p = Some (Regular b c)" "log_lines c = Inr ls" by (rule audit_events_Inr [OF es True]) simp
    then show ?thesis by (simp add: d1)
  next
    case False
    with node have "dk_files d p = None" by (auto simp: exists_at_def split: option.splits node.splits)
    then show ?thesis by (auto simp: d1)
  qed
  ultimately obtain b c ls e where "dk_files d' p = Some (Regular b c)" "log_lines c = Inr ls" "chain env zero_sha ls = Inl e"
    unfolding d' by metis
  then show ?thesis by (simp add: audit_events_def exists_at_def)
qed

end
