(* ===== verification/Rb_Sample.thy ===== *)
theory Rb_Sample
  imports Rb_Publication
begin

text \<open>
  A release record that passes every check of \<open>validate_release_record\<close>, for the witnesses of the rollback theories: the
  environment is \<open>sample_env\<close>, whose digest is constant, the verdict is a parameter.
\<close>

definition T_declared :: datetime where "T_declared = DateTime 2026 8 1 12 0 0 0"
definition T_frozen :: datetime where "T_frozen = DateTime 2026 8 1 11 30 0 0"
definition T_completed :: datetime where "T_completed = DateTime 2026 8 1 11 40 0 0"
definition T_window :: datetime where "T_window = DateTime 2026 8 8 12 0 0 0"
definition T_retained :: datetime where "T_retained = DateTime 2027 1 1 0 0 0 0"

lemmas sample_times = T_declared_def T_frozen_def T_completed_def T_window_def T_retained_def

definition stamp :: "datetime \<Rightarrow> json" where
  "stamp t = JStr (format_time t)"

definition all_same :: "string list \<Rightarrow> json \<Rightarrow> json" where
  "all_same names v = JObj (map (\<lambda>n. (u n, v)) names)"

definition sample_artifact :: json where
  "sample_artifact = JObj [(u ''content_b64'', JStr (u ''QQ=='')), (u ''sha256'', sample_sha_text), (u ''retained_until'', stamp T_retained)]"

definition sample_image :: json where
  "sample_image = JStr (u ''r/x:1@sha256:'' @ replicate 64 48)"

definition sample_images :: json where
  "sample_images = all_same RUNNING_IMAGES sample_image"

definition sample_evidence :: json where
  "sample_evidence = all_same RUNNING_IMAGES (JObj [(u ''registry_digest'', sample_sha_text), (u ''image_id_digest'', sample_sha_text),
     (u ''prefetched'', JBool True), (u ''retained_until'', stamp T_retained)])"

definition sample_recovery :: json where
  "sample_recovery = all_same REQUIRED_RECOVERY_CONFIG sample_artifact"

definition sample_artifacts :: "nat \<Rightarrow> json" where
  "sample_artifacts c = JObj
     [(u ''commit'', JStr (replicate 40 c)), (u ''alembic_revision'', JStr (u ''0002'')), (u ''migration_sha'', JStr (replicate 40 48)),
      (u ''images'', sample_images), (u ''image_evidence'', sample_evidence), (u ''recovery_config'', sample_recovery),
      (u ''app_config'', JObj [(u ''app-runtime.json'', sample_artifact)]), (u ''secret_references'', JObj [(u ''DB'', JStr (u ''v1''))])]"

definition sample_approval :: json where
  "sample_approval = JObj [(u ''approval_id'', JStr (u ''A1'')), (u ''approver'', JStr (u ''ops'')), (u ''approved_at'', stamp T_frozen)]"

definition sample_run_evidence :: json where
  "sample_run_evidence = JObj [(u ''passed'', JBool True), (u ''run_id'', JStr (u ''run1'')), (u ''release_identity'', sample_sha_text)]"

definition sample_backup :: json where
  "sample_backup = JObj
     [(u ''backup_id'', JStr (u ''20260801T113000Z-'' @ replicate 32 48)), (u ''source_commit'', JStr (replicate 40 48)),
      (u ''images'', sample_images), (u ''config_sha256'', config_digests sample_recovery), (u ''alembic_revision'', JStr (u ''0002'')),
      (u ''frozen_at'', stamp T_frozen), (u ''completed_at'', stamp T_completed), (u ''encrypted'', JBool True),
      (u ''manifest_authenticated'', JBool True), (u ''completion_last'', JBool True), (u ''remote_verified'', JBool True),
      (u ''preflight_retrievable'', JBool True), (u ''g19_watermark_sha256'', sample_sha_text)]"

definition sample_lossy :: json where
  "sample_lossy = JObj [(u ''preapproved'', JBool True), (u ''authorization_record'', JStr (u ''R1'')), (u ''loss_start'', stamp T_completed),
     (u ''loss_end'', stamp T_window), (u ''release_identity'', sample_sha_text), (u ''approval'', sample_approval)]"

definition sample_release :: "string \<Rightarrow> jobj" where
  "sample_release verdict =
     [(u ''schema_version'', JInt 1), (u ''release_id'', JStr (u ''r1'')), (u ''environment_id'', JStr (u ''e1'')),
      (u ''declared_at'', stamp T_declared), (u ''rollback_window_ends_at'', stamp T_window),
      (u ''stable'', sample_artifacts 48), (u ''candidate'', sample_artifacts 49), (u ''pre_release_backup'', sample_backup),
      (u ''compatibility'', JObj [(u ''verdict'', JStr (u verdict)), (u ''migration_owner'', JStr (u ''ops'')), (u ''decided_at'', stamp T_frozen),
         (u ''release_identity'', sample_sha_text), (u ''approval'', sample_approval),
         (u ''full_read_write_actions'', all_same REQUIRED_COMPATIBILITY_ACTIONS (JBool True)), (u ''g19_rehearsal'', sample_run_evidence)]),
      (u ''release_approval'', sample_approval),
      (u ''publication_fence'', JObj [(u ''command_sha256'', sample_sha_text), (u ''readiness_bypass_only'', JBool True),
         (u ''approval'', sample_approval)]),
      (u ''stable_isolation_smoke'', sample_run_evidence),
      (u ''pre_publication_plan'', JObj [(u ''roll_forward'', JNull), (u ''lossy_recovery'', sample_lossy)])]"

section \<open>It is valid\<close>

lemma sample_times_valid [simp]: "valid_datetime T_declared" "valid_datetime T_frozen" "valid_datetime T_completed"
  "valid_datetime T_window" "valid_datetime T_retained"
  by (simp_all add: sample_times valid_datetime_def days_in_month_def)

lemma sample_times_order [simp]: "T_declared < T_window" "T_window \<le> T_retained" "T_frozen < T_completed" "T_completed \<le> T_declared"
  "T_completed < T_window"
  by (simp_all add: sample_times less_datetime_def less_eq_datetime_def dt_fields_def)

lemma parse_stamp [simp]: "valid_datetime t \<Longrightarrow> parse_time (stamp t) field = Inr t"
  by (simp add: stamp_def parse_format)

lemma all_same_items [simp]: "items (all_same names v) = map (\<lambda>n. (u n, v)) names" "is_obj (all_same names v)"
  by (simp_all add: all_same_def)

lemma jget_all_same [simp]: "jget (map (\<lambda>n. (u n, v)) names) k = (if k \<in> set names then v else JNull)"
  by (induction names) (auto simp: jget_def)

lemma keys_all_same [simp]: "keys_are (map (\<lambda>n. (u n, v)) names) names"
  by (simp add: keys_are_def list_all_iff comp_def)

lemma py_eq_constant: "list_all (\<lambda>kv. snd kv = JStr z) d \<Longrightarrow> py_eq (JObj d) (JObj d)"
proof -
  assume a: "list_all (\<lambda>kv. snd kv = JStr z) d"
  have "case map_of d (fst kv) of None \<Rightarrow> False | Some v \<Rightarrow> py_eq (snd kv) v" if "kv \<in> set d" for kv
  proof -
    from that have "map_of d (fst kv) \<noteq> None" by (auto simp: map_of_eq_None_iff)
    then obtain v where v: "map_of d (fst kv) = Some v" by auto
    then have "(fst kv, v) \<in> set d" by (rule map_of_SomeD)
    with a that have "v = JStr z" "snd kv = JStr z" by (auto simp: list_all_iff)
    with v show ?thesis by simp
  qed
  then show ?thesis by (simp add: list_all_iff)
qed

lemma sample_sha_ok [simp]: "is_sha sample_sha_text"
  by (simp add: sample_sha_text_def is_sha_def)

lemma sample_body: "canonical_body (u ''QQ=='') = Some [65]"
  by (simp add: canonical_body_def b64_value_def b64_digit_def is_upper_def)

lemma sample_artifact_ok: "name \<in> set allowed \<Longrightarrow> validate_config_artifact sample_env name sample_artifact T_window allowed = Inr ()"
  by (simp add: validate_config_artifact_def sample_artifact_def Let_def jget_Cons keys_are_def returns sample_body del: u_Cons)
    (simp add: sample_sha_text_def sample_env_def FORBIDDEN_CONFIG_WORDS_def database_url_at_def eat_def runtime_config_def
      ALLOWED_APP_ENVIRONMENT_def require_def is_sha_def)

lemma sample_IMAGE: "IMAGE (u ''r/x:1@sha256:'' @ replicate 64 48) = Some (replicate 64 48)"
  using zeros_sha by (simp add: IMAGE_def SHA256_def Let_def ascii_space_def)

lemma sample_image_ok: "c \<in> set RUNNING_IMAGES \<Longrightarrow>
    validate_image name T_window (items sample_images) (items sample_evidence) c = Inr ()"
  by (simp add: validate_image_def sample_images_def sample_evidence_def sample_image_def exact_image_def image_digest_def sample_IMAGE
      Let_def jget_Cons keys_are_def returns del: u_Cons) (simp add: sample_sha_text_def require_def)

lemma recovery_paths_allowed: "list_all recovery_path_allowed (map u REQUIRED_RECOVERY_CONFIG)"
  by (simp add: REQUIRED_RECOVERY_CONFIG_def recovery_path_allowed_def starts_with_def)

lemma recovery_names: "REQUIRED_RECOVERY_CONFIG \<noteq> []"
  by (simp add: REQUIRED_RECOVERY_CONFIG_def)

lemma sample_recovery_ok:
  assumes "jget a ''recovery_config'' = sample_recovery"
  shows "validate_configs sample_env name T_window a ''recovery_config'' = Inr ()"
proof -
  have "recovery_path_allowed (u n)" if "n \<in> set REQUIRED_RECOVERY_CONFIG" for n
    using recovery_paths_allowed that by (simp add: list_all_iff)
  then show ?thesis
    using recovery_names
    by (simp add: validate_configs_def assms sample_recovery_def Let_def returns sample_artifact_ok list_all_iff comp_def image_image del: u_Cons)
qed

lemma sample_app_ok: "jget a ''app_config'' = JObj [(u ''app-runtime.json'', sample_artifact)] \<Longrightarrow>
    validate_configs sample_env name T_window a ''app_config'' = Inr ()"
  by (simp add: validate_configs_def Let_def returns sample_artifact_ok ALLOWED_APP_CONFIG_def del: u_Cons)

lemma sample_artifacts_ok: "c \<in> {48, 49} \<Longrightarrow> validate_artifact_set sample_env (sample_artifacts c) name T_window = Inr ()"
proof -
  assume c: "c \<in> {48, 49}"
  define a where "a = items (sample_artifacts c)"
  have f: "jget a ''commit'' = JStr (replicate 40 c)" "jget a ''alembic_revision'' = JStr (u ''0002'')"
    "jget a ''migration_sha'' = JStr (replicate 40 48)" "jget a ''images'' = sample_images" "jget a ''image_evidence'' = sample_evidence"
    "jget a ''recovery_config'' = sample_recovery" "jget a ''app_config'' = JObj [(u ''app-runtime.json'', sample_artifact)]"
    "jget a ''secret_references'' = JObj [(u ''DB'', JStr (u ''v1''))]"
    by (simp_all add: a_def sample_artifacts_def jget_Cons del: u_Cons)
  have keys: "keys_are a [''commit'', ''alembic_revision'', ''migration_sha'', ''images'', ''image_evidence'', ''recovery_config'',
      ''app_config'', ''secret_references'']"
    by (simp add: a_def sample_artifacts_def keys_are_def del: u_Cons)
  have git: "GIT_SHA (replicate 40 c)" "GIT_SHA (replicate 40 48)" "strip (replicate 40 c) \<noteq> []" "strip (replicate 40 48) \<noteq> []"
    using c strip_no_space [of "replicate 40 c"] strip_no_space [of "replicate 40 (48 :: nat)"]
    by (auto simp: GIT_SHA_def hex_text_def is_hex_def is_digit_def list_all_iff is_space_def)
  have "is_obj (sample_artifacts c)" by (simp add: sample_artifacts_def)
  moreover have "validate_image name T_window (items sample_images) (items sample_evidence) x = Inr ()"
    if "x \<in> {''app'', ''certbot'', ''db'', ''migrate'', ''pr2a'', ''proxy''}" for x
    using that by (intro sample_image_ok) (auto simp: RUNNING_IMAGES_def)
  moreover have "safe_id a ''alembic_revision'' = Inr (u ''0002'')"
    by (simp add: safe_id_def required_text_def f SAFE_ID_def id_char_def is_digit_def text_eval)
  moreover have "validate_secret_reference (u ''DB'', JStr (u ''v1'')) = Inr ()"
    by (simp add: validate_secret_reference_def returns text_eval)
  ultimately show ?thesis
    using git sample_recovery_ok [OF f(6)] sample_app_ok [OF f(7)]
    by (simp add: validate_artifact_set_def a_def [symmetric] Let_def returns f keys required_text_def del: u_Cons)
      (simp add: sample_images_def sample_evidence_def)
qed

lemma sample_approval_ok [simp]: "validate_approval sample_approval field = Inr ()"
  by (simp add: validate_approval_def sample_approval_def returns keys_are_def jget_Cons safe_id_def required_text_def del: u_Cons)
    (simp add: SAFE_ID_def id_char_def is_digit_def is_upper_def is_lower_def text_eval)

lemma sample_run_ok [simp]: "validate_run sample_run_evidence msg = Inr ()"
  by (simp add: validate_run_def sample_run_evidence_def returns keys_are_def jget_Cons safe_id_def required_text_def del: u_Cons)
    (simp add: SAFE_ID_def id_char_def is_digit_def is_upper_def is_lower_def text_eval)

lemma sample_backup_id: "BACKUP_ID (u ''20260801T113000Z-'' @ replicate 32 48)" "strip (u ''20260801T113000Z-'' @ replicate 32 48) \<noteq> []"
proof -
  show "BACKUP_ID (u ''20260801T113000Z-'' @ replicate 32 48)"
    by (simp add: BACKUP_ID_def is_digit_def hex_text_def is_hex_def list_all_iff)
  have "strip (u ''20260801T113000Z-'' @ replicate 32 48) = u ''20260801T113000Z-'' @ replicate 32 48"
    by (rule strip_no_space) (simp add: list_all_iff is_space_def)
  then show "strip (u ''20260801T113000Z-'' @ replicate 32 48) \<noteq> []" by simp
qed

lemma sample_backup_ok:
  assumes "jget r ''stable'' = sample_artifacts 48"
  shows "validate_backup r sample_backup T_declared = Inr ()"
proof -
  have images: "py_eq sample_images sample_images"
    unfolding sample_images_def all_same_def sample_image_def
    by (rule py_eq_constant [of "u ''r/x:1@sha256:'' @ replicate 64 48"]) (simp add: list_all_iff del: u_Cons)
  have configs: "py_eq (config_digests sample_recovery) (config_digests sample_recovery)"
    unfolding config_digests_def
    by (rule py_eq_constant [of "replicate 64 48"])
      (auto simp: list_all_iff sample_recovery_def sha_of_item_def sample_artifact_def jget_Cons sample_sha_text_def simp del: u_Cons)
  have stable: "jget (items (sample_artifacts 48)) ''commit'' = JStr (replicate 40 48)" "jget (items (sample_artifacts 48)) ''images'' = sample_images"
    "jget (items (sample_artifacts 48)) ''recovery_config'' = sample_recovery" "jget (items (sample_artifacts 48)) ''alembic_revision'' = JStr (u ''0002'')"
    by (simp_all add: sample_artifacts_def jget_Cons del: u_Cons)
  have "microseconds T_declared - microseconds T_completed \<le> 3600000000"
    by (simp add: sample_times microseconds_def to_ordinal_def Let_def)
  then show ?thesis
    using images configs sample_backup_id
    by (simp add: validate_backup_def sample_backup_def Let_def returns keys_are_def jget_Cons assms stable required_text_def
        del: u_Cons py_eq.simps)
qed

lemma sample_fields:
  "jget (sample_release v) ''schema_version'' = JInt 1" "jget (sample_release v) ''release_id'' = JStr (u ''r1'')"
  "jget (sample_release v) ''environment_id'' = JStr (u ''e1'')" "jget (sample_release v) ''declared_at'' = stamp T_declared"
  "jget (sample_release v) ''rollback_window_ends_at'' = stamp T_window" "jget (sample_release v) ''stable'' = sample_artifacts 48"
  "jget (sample_release v) ''candidate'' = sample_artifacts 49" "jget (sample_release v) ''pre_release_backup'' = sample_backup"
  "jget (sample_release v) ''release_approval'' = sample_approval" "jget (sample_release v) ''stable_isolation_smoke'' = sample_run_evidence"
  "jget (items (jget (sample_release v) ''compatibility'')) ''verdict'' = JStr (u v)"
  "jget (items (jget (sample_release v) ''compatibility'')) ''release_identity'' = sample_sha_text"
  "jget (items (jget (sample_release v) ''compatibility'')) ''g19_rehearsal'' = sample_run_evidence"
  "jget (items (jget (sample_release v) ''pre_publication_plan'')) ''lossy_recovery'' = sample_lossy"
  by (simp_all add: sample_release_def jget_Cons del: u_Cons)

lemma sample_compatibility_ok:
  "v \<in> {''compatible'', ''incompatible''} \<Longrightarrow> validate_compatibility (jget (sample_release v) ''compatibility'') = Inr ()"
proof -
  assume v: "v \<in> {''compatible'', ''incompatible''}"
  have id: "SAFE_ID (u ''ops'')" "strip (u ''ops'') \<noteq> []"
    by (simp_all add: SAFE_ID_def id_char_def is_digit_def is_upper_def is_lower_def text_eval)
  show ?thesis
    using v id
    by (simp add: validate_compatibility_def sample_release_def Let_def returns keys_are_def jget_Cons member_of_def safe_id_def
        required_text_def list_all_iff image_image comp_def del: u_Cons)
qed

lemma sample_identity: "release_identity sample_env (sample_release v) = Inr (replicate 64 48)"
  by (simp add: release_identity_def identity_document_def sample_fields artifacts_identity_def returns)
    (simp add: sample_artifacts_def jget_Cons sample_recovery_def returns del: u_Cons)

lemma sample_plan_ok: "validate_plan (jget (sample_release v) ''pre_publication_plan'') (JStr (u v)) (replicate 64 48) = Inr ()"
proof -
  have id: "SAFE_ID (u ''R1'')" "strip (u ''R1'') \<noteq> []"
    by (simp_all add: SAFE_ID_def id_char_def is_digit_def is_upper_def is_lower_def text_eval)
  then show ?thesis
    by (simp add: validate_plan_def sample_release_def Let_def returns keys_are_def jget_Cons roll_forward_valid_def lossy_valid_def
        sample_lossy_def sample_sha_text_def safe_id_def required_text_def del: u_Cons)
qed

lemma sample_release_valid:
  assumes "v \<in> {''compatible'', ''incompatible''}"
  shows "validate_release_record sample_env (sample_release v) = Inr (replicate 64 48)"
proof -
  have id: "safe_id (sample_release v) ''release_id'' = Inr (u ''r1'')" "safe_id (sample_release v) ''environment_id'' = Inr (u ''e1'')"
    by (simp_all add: safe_id_def required_text_def sample_fields SAFE_ID_def id_char_def is_digit_def is_upper_def is_lower_def text_eval)
  have keys: "keys_are (sample_release v) [''schema_version'', ''release_id'', ''environment_id'', ''declared_at'', ''rollback_window_ends_at'', ''stable'',
      ''candidate'', ''pre_release_backup'', ''compatibility'', ''release_approval'', ''publication_fence'',
      ''stable_isolation_smoke'', ''pre_publication_plan'']"
    by (simp add: sample_release_def keys_are_def del: u_Cons)
  have fence: "validate_fence (jget (sample_release v) ''publication_fence'') = Inr ()"
    by (simp add: sample_release_def validate_fence_def returns keys_are_def jget_Cons del: u_Cons)
  have commits: "\<not> py_eq (jget (items (sample_artifacts 48)) ''commit'') (jget (items (sample_artifacts 49)) ''commit'')"
    by (simp add: sample_artifacts_def jget_Cons del: u_Cons)
  have run: "jget (items sample_run_evidence) ''release_identity'' = JStr (replicate 64 48)"
    by (simp add: sample_run_evidence_def jget_Cons sample_sha_text_def del: u_Cons)
  show ?thesis
    using id keys fence commits run sample_compatibility_ok [OF assms] sample_identity sample_plan_ok sample_backup_ok [of "sample_release v"]
    by (simp add: validate_release_record_def Let_def sample_fields returns sample_artifacts_ok SCHEMA_VERSION_def sample_sha_text_def)
qed

end
