(* ===== verification/Rb_Release.thy ===== *)
theory Rb_Release
  imports Rb_Audit Rb_Sample
begin

text \<open>
  \<open>ReleaseStore\<close>, \<open>validate_execution_environment\<close>, \<open>validate_lossy_authorization\<close> and the runtime identity of
  \<open>scripts/deploy_rollback/model.py\<close>.
\<close>

section \<open>The store\<close>

definition store_init :: "ustr \<Rightarrow> rexc + ustr" where
  "store_init root = (if \<not> starts_with (u ''/'') root \<or> root = u ''/'' then unsafe ''release store root must be a bounded absolute path''
     else Inr root)"

definition release_path :: "ustr \<Rightarrow> ustr \<Rightarrow> ustr" where
  "release_path root release_id = root @ u ''/'' @ release_id @ u ''.json''"

definition release_seal :: "ustr \<Rightarrow> ustr \<Rightarrow> ustr" where
  "release_seal root release_id = root @ u ''/'' @ release_id @ u ''.sha256''"

definition seal_release :: "rb_env \<Rightarrow> ustr \<Rightarrow> jobj \<Rightarrow> ustr io" where
  "seal_release env root r d =
     (case validate_release_record env r of
        Inl e \<Rightarrow> (Inl e, d)
      | Inr identity \<Rightarrow>
          let release_id = text_of (jget r ''release_id'')
          in io_bind (atomic_create (release_path root release_id) (Doc (canonical (JObj r)))) (\<lambda>_.
             io_bind (cleanup (atomic_create (release_seal root release_id) (sealed_text env (JObj r))) (unlink (release_path root release_id)))
               (\<lambda>_ d2. (Inr identity, d2))) d)"

definition load_release :: "rb_env \<Rightarrow> ustr \<Rightarrow> ustr \<Rightarrow> files \<Rightarrow> rexc + jobj" where
  "load_release env root release_id fs =
     (if \<not> SAFE_ID release_id then unsafe ''release_id is invalid''
      else andthen (read_json_file fs (release_path root release_id)) (\<lambda>r.
           andthen (case fs (release_seal root release_id) of
                      None \<Rightarrow> unsafe ''release record digest is missing''
                    | Some (Regular False c) \<Rightarrow> andthen (ascii_text c) (\<lambda>s. Inr (strip s))
                    | Some _ \<Rightarrow> unsafe ''release record digest file is unsafe'') (\<lambda>expected.
           if \<not> SHA256 expected \<or> digest_json env (JObj r) \<noteq> expected then unsafe ''immutable release record digest mismatch''
           else andthen (validate_release_record env r) (\<lambda>_. Inr r))))"

section \<open>The execution environment\<close>

definition validate_execution_environment ::
    "rb_env \<Rightarrow> files \<Rightarrow> ustr \<Rightarrow> jobj \<Rightarrow> ustr \<Rightarrow> ustr \<Rightarrow> ustr \<Rightarrow> rexc + jobj" where
  "validate_execution_environment env fs marker_path r operation_id operator confirmation =
     andthen (read_json_file fs marker_path) (\<lambda>marker.
     andthen (require (keys_are marker [''schema_version'', ''kind'', ''environment_id'', ''docker_context'', ''compose_project'',
         ''resource_prefix'', ''target_marker'', ''publication_fence_command''] \<and> int_of (jget marker ''schema_version'') = Some SCHEMA_VERSION)
         ''execution environment marker schema mismatch'') (\<lambda>_.
     andthen (safe_id marker ''environment_id'') (\<lambda>environment_id.
     andthen (safe_id marker ''docker_context'') (\<lambda>docker_context.
     andthen (safe_id marker ''compose_project'') (\<lambda>compose_project.
     andthen (safe_id marker ''resource_prefix'') (\<lambda>resource_prefix.
       let fence = jget marker ''publication_fence_command'';
           kind = jget marker ''kind'';
           synthetic = (\<lambda>s. starts_with (u ''synthetic-'') s);
           expected = (if kind = JStr (u ''synthetic'') then u ''synthetic:'' @ environment_id @ u '':'' @ operation_id
                       else u ''production:'' @ text_of (jget r ''release_id'') @ u '':'' @ operation_id @ u '':'' @ environment_id @ u '':'' @ operator)
       in andthen (checks
         [require (is_arr fence \<and> elems fence \<noteq> [] \<and> list_all (\<lambda>i. is_str i \<and> text_of i \<noteq> []) (elems fence)
             \<and> py_eq (JStr (digest_json env fence)) (jget (items (jget r ''publication_fence'')) ''command_sha256''))
            ''publication fence command differs from release approval'',
          (if JStr environment_id \<noteq> jget r ''environment_id'' \<or> docker_context \<in> {u ''default'', u ''desktop-linux''}
           then unsafe ''execution environment identity mismatch or default context''
           else andthen (member_of kind [''synthetic'', ''production''])
             (\<lambda>known. require known ''execution environment identity mismatch or default context'')),
          (if kind = JStr (u ''synthetic'')
           then require (synthetic environment_id \<and> synthetic docker_context \<and> synthetic compose_project \<and> synthetic resource_prefix
               \<and> jget marker ''target_marker'' = JStr (u ''SYNTHETIC_PR2B_LOCAL_ONLY'')) ''synthetic/production environment confusion''
           else require (starts_with (u ''production-'') environment_id \<and> jget marker ''target_marker'' = JStr (u ''AUTHORIZED_PRODUCTION''))
               ''production environment marker is invalid''),
          require (confirmation = expected) ''operation-specific environment confirmation mismatch'']) (\<lambda>_. Inr marker)))))))"

section \<open>Lossy recovery\<close>

definition authorization_fields :: "string list" where
  "authorization_fields = [''schema_version'', ''release_id'', ''release_identity'', ''operation_id'', ''environment_id'', ''backup_id'', ''operator'',
     ''authorization_record'', ''approved_at'', ''expires_at'', ''one_time_challenge_sha256'', ''loss_start'', ''loss_end'',
     ''onsite_retention_sha256'', ''reconciliation_plan'', ''approval'']"

text \<open>The window of the authorization against the approved plan; \<open>preapproved[...]\<close> may be missing.\<close>

definition within_plan :: "jobj \<Rightarrow> jobj \<Rightarrow> rexc + unit" where
  "within_plan a preapproved =
     (let text = (\<lambda>k. if u k \<in> set (map fst preapproved) then Inr (jget preapproved k) else Inl PyKeyError)
      in andthen (text ''authorization_record'') (\<lambda>ar.
         if \<not> py_eq (jget a ''authorization_record'') ar then unsafe ''lossy authorization exceeds preapproved loss window''
         else andthen (andthen (text ''loss_start'') (\<lambda>v. parse_time v ''plan.loss_start'')) (\<lambda>start.
           if time_of (jget a ''loss_start'') < start then unsafe ''lossy authorization exceeds preapproved loss window''
           else andthen (andthen (text ''loss_end'') (\<lambda>v. parse_time v ''plan.loss_end'')) (\<lambda>until.
             require (time_of (jget a ''loss_end'') \<le> until) ''lossy authorization exceeds preapproved loss window''))))"

definition challenge_marker :: "ustr \<Rightarrow> jobj \<Rightarrow> ustr" where
  "challenge_marker used a = used @ u ''/'' @ text_of (jget a ''one_time_challenge_sha256'') @ u ''.used''"

text \<open>The checks up to the ledger; the result is the backup.\<close>

definition lossy_checks :: "rb_env \<Rightarrow> jobj \<Rightarrow> jobj \<Rightarrow> ustr \<Rightarrow> ustr \<Rightarrow> ustr \<Rightarrow> ustr \<Rightarrow> ustr \<Rightarrow> datetime \<Rightarrow> rexc + unit" where
  "lossy_checks env a r operation_id environment_id operator challenge retention now =
     andthen (checks
       [require (keys_are a authorization_fields \<and> int_of (jget a ''schema_version'') = Some SCHEMA_VERSION)
          ''lossy authorization schema mismatch'',
        require (SAFE_ID operation_id) ''lossy operation_id is invalid'', require (SAFE_ID environment_id) ''lossy environment_id is invalid'',
        require (SAFE_ID operator) ''lossy operator is invalid'']) (\<lambda>_.
     andthen (validate_release_record env r) (\<lambda>identity.
       let backup = items (jget r ''pre_release_backup'');
           preapproved = jget (items (jget r ''pre_publication_plan'')) ''lossy_recovery'';
           expected = jget a ''one_time_challenge_sha256''
       in checks
         [require (jget (items (jget r ''compatibility'')) ''verdict'' = JStr (u ''incompatible''))
            ''lossy recovery is forbidden for a compatible release'',
          require (list_all (\<lambda>(k, v). py_eq (jget a k) v)
             [(''release_id'', jget r ''release_id''), (''release_identity'', JStr identity), (''operation_id'', JStr operation_id),
              (''environment_id'', JStr environment_id), (''backup_id'', jget backup ''backup_id''), (''operator'', JStr operator),
              (''onsite_retention_sha256'', JStr retention)]) ''lossy authorization identity mismatch'',
          passed (safe_id a ''authorization_record''), passed (required_text a ''reconciliation_plan''),
          validate_approval (jget a ''approval'') ''lossy_operation'',
          andthen (parse_time (jget a ''approved_at'') ''lossy.approved_at'') (\<lambda>approved_at.
          andthen (parse_time (jget a ''expires_at'') ''lossy.expires_at'') (\<lambda>expires_at.
          andthen (parse_time (jget a ''loss_start'') ''lossy.loss_start'') (\<lambda>loss_start.
          andthen (parse_time (jget a ''loss_end'') ''lossy.loss_end'') (\<lambda>loss_end.
            require (approved_at < expires_at \<and> now \<le> expires_at \<and> loss_start < loss_end \<and> now \<le> loss_end)
              ''lossy authorization timing is invalid or expired'')))),
          require (is_obj preapproved \<and> is_true (jget (items preapproved) ''preapproved'')) ''release has no preapproved lossy recovery plan'',
          within_plan a (items preapproved),
          require (challenge \<noteq> [] \<and> is_sha expected \<and> expected = JStr (en_sha env (utf8 challenge)))
            ''lossy authorization challenge mismatch'',
          require (SHA256 retention) ''authenticated onsite retention proof is required'']))"

definition validate_lossy_authorization ::
    "rb_env \<Rightarrow> jobj \<Rightarrow> jobj \<Rightarrow> ustr \<Rightarrow> ustr \<Rightarrow> ustr \<Rightarrow> ustr \<Rightarrow> ustr \<Rightarrow> ustr \<Rightarrow> datetime \<Rightarrow> bool \<Rightarrow> ustr io" where
  "validate_lossy_authorization env a r operation_id environment_id operator challenge retention used now consume d =
     (case lossy_checks env a r operation_id environment_id operator challenge retention now of
        Inl e \<Rightarrow> (Inl e, d)
      | Inr _ \<Rightarrow>
          let backup_id = text_of (jget (items (jget r ''pre_release_backup'')) ''backup_id'');
              marker = challenge_marker used a;
              document = JObj [(u ''release_id'', jget r ''release_id''), (u ''operation_id'', JStr operation_id),
                (u ''authorization_record'', jget a ''authorization_record''), (u ''used_at'', JStr (format_time now))]
          in if \<not> starts_with (u ''/'') used \<or> used = u ''/'' \<or> dk_files d used \<noteq> Some (Folder False)
             then (unsafe ''used-challenge ledger must be a bounded mode-0700 directory'', d)
             else if exists_at (dk_files d) marker then (unsafe ''lossy authorization challenge was already used'', d)
             else if consume then io_bind (atomic_create marker (Doc (canonical document))) (\<lambda>_ d2. (Inr backup_id, d2)) d
             else (Inr backup_id, d))"

section \<open>The runtime identity\<close>

definition build_runtime_identity :: "rb_env \<Rightarrow> jobj \<Rightarrow> string \<Rightarrow> rexc + jobj" where
  "build_runtime_identity env r version =
     (if version \<notin> {''stable'', ''candidate''} then unsafe ''runtime version must be stable or candidate''
      else andthen (validate_release_record env r) (\<lambda>_.
           andthen (release_identity env r) (\<lambda>identity.
             let artifacts = items (jget r version)
             in Inr [(u ''schema_version'', JInt SCHEMA_VERSION), (u ''release_id'', jget r ''release_id''),
                     (u ''release_identity'', JStr identity), (u ''version'', JStr (u version)),
                     (u ''app_image'', jget (items (jget artifacts ''images'')) ''app''), (u ''app_config'', jget artifacts ''app_config'')])))"

definition identity_ok :: "jobj \<Rightarrow> rexc + unit" where
  "identity_ok identity = checks
     [require (keys_are identity [''schema_version'', ''release_id'', ''release_identity'', ''version'', ''app_image'', ''app_config''])
        ''runtime identity schema mismatch'',
      passed (exact_image (jget identity ''app_image'') ''runtime.app_image''),
      andthen (member_of (jget identity ''version'') [''stable'', ''candidate'']) (\<lambda>known. require known ''runtime identity version is invalid''),
      require (is_obj (jget identity ''app_config'') \<and> items (jget identity ''app_config'') \<noteq> []
          \<and> list_all (\<lambda>k. k \<in> set (map u ALLOWED_APP_CONFIG)) (map fst (items (jget identity ''app_config''))))
        ''runtime identity config is outside allowlist'']"

definition switch_runtime_identity :: "ustr \<Rightarrow> jobj \<Rightarrow> unit io" where
  "switch_runtime_identity p identity d =
     (case identity_ok identity of Inl e \<Rightarrow> (Inl e, d) | Inr _ \<Rightarrow> atomic_write p (Doc (canonical (JObj identity))) d)"

section \<open>What a validated record holds\<close>

lemma validated:
  assumes "validate_release_record env r = Inr identity"
  obtains w where "release_identity env r = Inr identity" "validate_artifact_set env (jget r ''stable'') ''stable'' w = Inr ()"
    "validate_artifact_set env (jget r ''candidate'') ''candidate'' w = Inr ()"
  using assms that by (simp add: validate_release_record_def returns Let_def del: u_Cons) blast

lemma artifact_set_image:
  assumes "validate_artifact_set env v name w = Inr x" "c \<in> set RUNNING_IMAGES"
  shows "\<exists>ref h. jget (items (jget (items v) ''images'')) c = JStr ref \<and> IMAGE ref = Some h"
proof -
  from assms have "validate_image name w (items (jget (items v) ''images'')) (items (jget (items v) ''image_evidence'')) c = Inr ()"
    by (auto simp: validate_artifact_set_def returns Let_def RUNNING_IMAGES_def)
  then obtain ref where "exact_image (jget (items (jget (items v) ''images'')) c) (name @ ''.images.'' @ c) = Inr ref"
    by (auto simp: validate_image_def returns Let_def)
  then show ?thesis by (auto simp: exact_image_def split: json.splits if_splits)
qed

lemma config_artifact_name:
  "validate_config_artifact env name artifact w allowed = Inr x \<Longrightarrow> name \<in> set allowed"
  by (simp add: validate_config_artifact_def returns Let_def)

lemma artifact_set_config:
  assumes "validate_artifact_set env v name w = Inr x"
  shows "is_obj (jget (items v) ''app_config'') \<and> items (jget (items v) ''app_config'') \<noteq> []
    \<and> list_all (\<lambda>k. k \<in> set (map u ALLOWED_APP_CONFIG)) (map fst (items (jget (items v) ''app_config'')))"
proof -
  from assms have "validate_configs env name w (items v) ''app_config'' = Inr ()"
    by (simp add: validate_artifact_set_def returns Let_def)
  then have c: "is_obj (jget (items v) ''app_config'')" "items (jget (items v) ''app_config'') \<noteq> []"
    "\<And>kv. kv \<in> set (items (jget (items v) ''app_config'')) \<Longrightarrow>
       validate_config_artifact env (fst kv) (snd kv) w (map u ALLOWED_APP_CONFIG) = Inr ()"
    by (simp_all add: validate_configs_def returns Let_def)
  from config_artifact_name [OF c(3)] c(1,2) show ?thesis unfolding list_all_iff by auto
qed

section \<open>Properties\<close>

text \<open>
  C39. A validated release can always be switched to. For both versions of a validated record the runtime identity is
  built, passes every check of the switch, names an image with an exact digest, carries the identity of the release, and holds
  neither secret references nor any other part of the artifact set.
\<close>

theorem runtime_identity_accepted:
  assumes v: "validate_release_record env r = Inr identity" and version: "version \<in> {''stable'', ''candidate''}"
  shows "\<exists>doc ref h. build_runtime_identity env r version = Inr doc \<and> identity_ok doc = Inr ()
    \<and> jget doc ''app_image'' = JStr ref \<and> IMAGE ref = Some h \<and> jget doc ''release_identity'' = JStr identity
    \<and> map fst doc = map u [''schema_version'', ''release_id'', ''release_identity'', ''version'', ''app_image'', ''app_config'']"
proof -
  obtain w where i: "release_identity env r = Inr identity" and a: "validate_artifact_set env (jget r version) version w = Inr ()"
    by (rule validated [OF v]) (use version in auto)
  obtain ref h where img: "jget (items (jget (items (jget r version)) ''images'')) ''app'' = JStr ref" "IMAGE ref = Some h"
    using artifact_set_image [OF a, of "''app''"] by (auto simp: RUNNING_IMAGES_def)
  define doc where "doc = [(u ''schema_version'', JInt SCHEMA_VERSION), (u ''release_id'', jget r ''release_id''),
     (u ''release_identity'', JStr identity), (u ''version'', JStr (u version)), (u ''app_image'', JStr ref),
     (u ''app_config'', jget (items (jget r version)) ''app_config'')]"
  have b: "build_runtime_identity env r version = Inr doc"
    using version v i img by (auto simp: build_runtime_identity_def doc_def Let_def simp del: u_Cons)
  have "identity_ok doc = Inr ()"
    using version img artifact_set_config [OF a]
    by (auto simp: identity_ok_def doc_def returns jget_Cons keys_are_def exact_image_def member_of_def simp del: u_Cons)
  with b img show ?thesis by (auto simp: doc_def jget_Cons simp del: u_Cons)
qed

theorem runtime_identity_accepted_witness:
  "\<exists>doc. build_runtime_identity sample_env (sample_release ''compatible'') ''stable'' = Inr doc \<and> identity_ok doc = Inr ()"
  using runtime_identity_accepted [OF sample_release_valid, of "''compatible''" "''stable''"] by auto

text \<open>
  The identity binds the artifacts. Two records with the same release identity (and identity documents whose
  digests do not collide) agree, for the stable and the candidate release, on the commit, the database revision, the
  migration and the images, and on the release, the environment and the sealed facts of the backup. So evidence cannot be
  moved to a release with other artifacts.
\<close>

theorem identity_binds_artifacts:
  assumes d: "identity_document r = Inr v" "identity_document r' = Inr v'"
    and same: "release_identity env r = release_identity env r'" and free: "collision_free env [v] [v']"
    and version: "version \<in> {''stable'', ''candidate''}" and k: "k \<in> {''commit'', ''alembic_revision'', ''migration_sha'', ''images''}"
  shows "canonical (jget (items (jget r version)) k) = canonical (jget (items (jget r' version)) k)
    \<and> canonical (jget r ''release_id'') = canonical (jget r' ''release_id'')
    \<and> canonical (jget r ''environment_id'') = canonical (jget r' ''environment_id'')
    \<and> (is_obj (jget r ''pre_release_backup'') \<and> is_obj (jget r' ''pre_release_backup'') \<longrightarrow>
         canonical (jget (items (jget r ''pre_release_backup'')) ''g19_watermark_sha256'')
         = canonical (jget (items (jget r' ''pre_release_backup'')) ''g19_watermark_sha256''))"
proof -
  have c: "canonical v = canonical v'" using same free d by (simp add: release_identity_def collision_free_def)
  then have top: "canonical (jget (items v) n) = canonical (jget (items v') n)" for n
    by (metis jget_items_canonical)
  then have sub: "canonical (jget (items (jget (items v) n)) n') = canonical (jget (items (jget (items v') n)) n')" for n n'
    by (metis jget_items_canonical)
  have fields: "jget (items x) ''release_id'' = jget q ''release_id''" "jget (items x) ''environment_id'' = jget q ''environment_id''"
    "jget (items x) ''pre_release_backup'' = picked (jget q ''pre_release_backup'')
        [''backup_id'', ''source_commit'', ''images'', ''config_sha256'', ''alembic_revision'', ''completed_at'', ''g19_watermark_sha256'']"
    "jget (items (jget (items x) version)) k = jget (items (jget q version)) k" if "identity_document q = Inr x" for q x
    using that version k
    by (auto simp: identity_document_def artifacts_identity_def returns jget_Cons simp del: u_Cons split: if_splits)
  have backup: "jget (items (picked b [''backup_id'', ''source_commit'', ''images'', ''config_sha256'', ''alembic_revision'', ''completed_at'',
      ''g19_watermark_sha256''])) ''g19_watermark_sha256'' = jget (items b) ''g19_watermark_sha256''" if "is_obj b" for b
    using that by (simp add: picked_def jget_Cons del: u_Cons)
  show ?thesis
    using top [of "''release_id''"] top [of "''environment_id''"] sub [of version k] sub [of "''pre_release_backup''" "''g19_watermark_sha256''"]
    by (auto simp: fields [OF d(1)] fields [OF d(2)] backup)
qed

lemma lossy_checksD:
  assumes "lossy_checks env a r operation_id environment_id operator challenge retention now = Inr x"
  obtains identity where "validate_release_record env r = Inr identity" "jget a ''one_time_challenge_sha256'' = JStr (en_sha env (utf8 challenge))"
    "jget (items (jget r ''compatibility'')) ''verdict'' = JStr (u ''incompatible'')"
    "jget a ''operation_id'' = JStr operation_id" "jget a ''environment_id'' = JStr environment_id" "jget a ''operator'' = JStr operator"
    "jget a ''release_identity'' = JStr identity" "jget a ''onsite_retention_sha256'' = JStr retention" "SHA256 retention"
    "within_plan a (items (jget (items (jget r ''pre_publication_plan'')) ''lossy_recovery'')) = Inr ()"
    "\<exists>s e ls le. jget a ''approved_at'' = JStr (format_time s) \<and> jget a ''expires_at'' = JStr (format_time e) \<and> s < e \<and> now \<le> e
       \<and> jget a ''loss_start'' = JStr (format_time ls) \<and> jget a ''loss_end'' = JStr (format_time le) \<and> ls < le \<and> now \<le> le
       \<and> valid_datetime ls \<and> valid_datetime le"
  using assms that by (simp add: lossy_checks_def returns parse_time_Inr Let_def del: u_Cons) blast

lemma within_planD:
  assumes "within_plan a plan = Inr x" "jget a ''loss_start'' = JStr (format_time ls)" "jget a ''loss_end'' = JStr (format_time le)"
    "valid_datetime ls" "valid_datetime le"
  shows "\<exists>ps pe. jget plan ''loss_start'' = JStr (format_time ps) \<and> jget plan ''loss_end'' = JStr (format_time pe) \<and> ps \<le> ls \<and> le \<le> pe"
  using assms by (auto simp: within_plan_def returns parse_time_Inr Let_def not_less split: if_splits)


text \<open>
  A challenge works once. After an authorization was consumed, no call with the same challenge text is accepted as long as the
  marker stays in the ledger: not for another authorization, release, operation, operator or moment, and not for a
  call that would not consume it.
\<close>

theorem challenge_one_shot:
  assumes first: "validate_lossy_authorization env a r operation_id environment_id operator challenge retention used now True d = (Inr backup, d1)"
    and kept: "dk_files d2 (challenge_marker used a) = dk_files d1 (challenge_marker used a)"
  shows "\<exists>e. fst (validate_lossy_authorization env a' r' operation_id' environment_id' operator' challenge retention' used now' consume d2) = Inl e"
proof (cases "lossy_checks env a' r' operation_id' environment_id' operator' challenge retention' now'")
  case (Inl e)
  then show ?thesis by (simp add: validate_lossy_authorization_def)
next
  case (Inr x)
  from first have c: "lossy_checks env a r operation_id environment_id operator challenge retention now = Inr ()"
    by (auto simp: validate_lossy_authorization_def split: sum.splits)
  have "jget a' ''one_time_challenge_sha256'' = jget a ''one_time_challenge_sha256''"
    by (rule lossy_checksD [OF c], rule lossy_checksD [OF Inr]) simp
  then have m: "challenge_marker used a' = challenge_marker used a" by (simp add: challenge_marker_def)
  from first c obtain v where "atomic_create (challenge_marker used a) v d = (Inr (), d1)"
    by (auto simp: validate_lossy_authorization_def io_bind_def Let_def split: if_splits sum.splits prod.splits)
  then have "exists_at (dk_files d1) (challenge_marker used a)"
    by (auto simp: atomic_create_def attempt_def exists_at_def split: if_splits list.splits outcome.splits)
  with kept have "exists_at (dk_files d2) (challenge_marker used a)" by (simp add: exists_at_def)
  with Inr m show ?thesis by (simp add: validate_lossy_authorization_def Let_def)
qed

theorem identity_binds_artifacts_witness:
  "\<exists>v. identity_document (sample_release ''compatible'') = Inr v
     \<and> canonical (jget (items (jget (sample_release ''compatible'') ''stable'')) ''commit'')
       = canonical (jget (items (jget (sample_release ''incompatible'') ''stable'')) ''commit'')"
proof -
  have "\<exists>v. identity_document (sample_release x) = Inr v" for x
    using sample_identity [of x] by (auto simp: release_identity_def returns)
  then obtain v v' where d: "identity_document (sample_release ''compatible'') = Inr v" "identity_document (sample_release ''incompatible'') = Inr v'"
    by blast
  have "picked (jget (sample_release ''compatible'') f) ks = picked (jget (sample_release ''incompatible'') f) ks"
    if "f \<in> {''pre_release_backup'', ''publication_fence''}" for f ks
    using that by (auto simp: sample_release_def jget_Cons simp del: u_Cons)
  moreover have "is_obj (sample_artifacts c)" for c by (simp add: sample_artifacts_def)
  ultimately have "v' = v" using d by (simp add: identity_document_def sample_fields del: u_Cons)
  then have "collision_free sample_env [v] [v']" by (simp add: collision_free_def)
  from identity_binds_artifacts [OF d _ this, of "''stable''" "''commit''"] d show ?thesis by (simp add: sample_identity)
qed

text \<open>An authorization for the sample release and a ledger without markers.\<close>

definition sample_authorization :: jobj where
  "sample_authorization =
     [(u ''schema_version'', JInt 1), (u ''release_id'', JStr (u ''r1'')), (u ''release_identity'', sample_sha_text),
      (u ''operation_id'', JStr (u ''op1'')), (u ''environment_id'', JStr (u ''e1'')),
      (u ''backup_id'', JStr (u ''20260801T113000Z-'' @ replicate 32 48)), (u ''operator'', JStr (u ''ops'')),
      (u ''authorization_record'', JStr (u ''R1'')), (u ''approved_at'', stamp T_completed), (u ''expires_at'', stamp T_window),
      (u ''one_time_challenge_sha256'', sample_sha_text), (u ''loss_start'', stamp T_completed), (u ''loss_end'', stamp T_window),
      (u ''onsite_retention_sha256'', sample_sha_text), (u ''reconciliation_plan'', JStr (u ''plan'')), (u ''approval'', sample_approval)]"

lemma sample_ids [simp]: "SAFE_ID (u ''op1'')" "SAFE_ID (u ''e1'')" "SAFE_ID (u ''ops'')" "SAFE_ID (u ''R1'')" "strip (u ''R1'') \<noteq> []"
  "strip (u ''plan'') \<noteq> []"
  by (simp_all add: SAFE_ID_def id_char_def is_digit_def is_upper_def is_lower_def text_eval)

lemma sample_within_plan: "within_plan sample_authorization (items sample_lossy) = Inr ()"
  by (simp add: within_plan_def sample_authorization_def sample_lossy_def jget_Cons Let_def require_def del: u_Cons)
    (simp add: stamp_def)

lemma sample_lossy_checks:
  "lossy_checks sample_env sample_authorization (sample_release ''incompatible'') (u ''op1'') (u ''e1'') (u ''ops'') (u ''c'')
     (replicate 64 48) T_declared = Inr ()"
proof -
  have o: "T_completed < T_window" "T_declared \<le> T_window" by (simp_all add: sample_times less_datetime_def less_eq_datetime_def dt_fields_def)
  have keys: "keys_are sample_authorization authorization_fields"
    by (simp add: sample_authorization_def keys_are_def authorization_fields_def del: u_Cons)
  have f: "jget sample_authorization ''schema_version'' = JInt 1" "jget sample_authorization ''release_id'' = JStr (u ''r1'')"
    "jget sample_authorization ''release_identity'' = sample_sha_text" "jget sample_authorization ''operation_id'' = JStr (u ''op1'')"
    "jget sample_authorization ''environment_id'' = JStr (u ''e1'')" "jget sample_authorization ''operator'' = JStr (u ''ops'')"
    "jget sample_authorization ''backup_id'' = JStr (u ''20260801T113000Z-'' @ replicate 32 48)"
    "jget sample_authorization ''authorization_record'' = JStr (u ''R1'')" "jget sample_authorization ''reconciliation_plan'' = JStr (u ''plan'')"
    "jget sample_authorization ''approved_at'' = stamp T_completed" "jget sample_authorization ''expires_at'' = stamp T_window"
    "jget sample_authorization ''one_time_challenge_sha256'' = sample_sha_text" "jget sample_authorization ''loss_start'' = stamp T_completed"
    "jget sample_authorization ''loss_end'' = stamp T_window" "jget sample_authorization ''onsite_retention_sha256'' = sample_sha_text"
    "jget sample_authorization ''approval'' = sample_approval"
    by (simp_all add: sample_authorization_def jget_Cons del: u_Cons)
  have b: "jget (items sample_backup) ''backup_id'' = JStr (u ''20260801T113000Z-'' @ replicate 32 48)"
    by (simp add: sample_backup_def jget_Cons del: u_Cons)
  have l: "is_obj sample_lossy" "jget (items sample_lossy) ''preapproved'' = JBool True"
    by (simp_all add: sample_lossy_def jget_Cons del: u_Cons)
  have c: "\<And>x. en_sha sample_env x = replicate 64 48" "u ''c'' \<noteq> []" "is_sha (JStr (replicate 64 48))"
    by (simp_all add: sample_env_def is_sha_def)
  show ?thesis
    using o keys f b l c sample_release_valid [of "''incompatible''"] sample_within_plan
    by (simp add: lossy_checks_def returns Let_def sample_fields safe_id_def required_text_def SCHEMA_VERSION_def sample_sha_text_def
        del: u_Cons)
qed

definition sample_ledger :: disk where
  "sample_ledger = \<lparr>dk_files = [u ''/u'' \<mapsto> Folder False], dk_plan = []\<rparr>"

lemma sample_consumed:
  obtains backup d1 where "validate_lossy_authorization sample_env sample_authorization (sample_release ''incompatible'') (u ''op1'')
    (u ''e1'') (u ''ops'') (u ''c'') (replicate 64 48) (u ''/u'') T_declared True sample_ledger = (Inr backup, d1)"
proof -
  have m: "challenge_marker (u ''/u'') sample_authorization \<noteq> u ''/u''" by (simp add: challenge_marker_def)
  have "starts_with (u ''/'') (challenge_marker (u ''/u'') sample_authorization)" by (simp add: challenge_marker_def starts_with_def)
  with m that sample_lossy_checks show thesis
    by (simp add: validate_lossy_authorization_def sample_ledger_def Let_def exists_at_def io_bind_def atomic_create_def attempt_def
        starts_with_def)
qed


theorem challenge_one_shot_witness:
  "\<exists>backup d1 e. validate_lossy_authorization sample_env sample_authorization (sample_release ''incompatible'') (u ''op1'')
     (u ''e1'') (u ''ops'') (u ''c'') (replicate 64 48) (u ''/u'') T_declared True sample_ledger = (Inr backup, d1)
     \<and> fst (validate_lossy_authorization sample_env sample_authorization (sample_release ''incompatible'') (u ''op1'')
     (u ''e1'') (u ''ops'') (u ''c'') (replicate 64 48) (u ''/u'') T_declared False d1) = Inl e"
proof -
  obtain backup d1 where v: "validate_lossy_authorization sample_env sample_authorization (sample_release ''incompatible'') (u ''op1'')
    (u ''e1'') (u ''ops'') (u ''c'') (replicate 64 48) (u ''/u'') T_declared True sample_ledger = (Inr backup, d1)"
    by (rule sample_consumed)
  from challenge_one_shot [OF v refl] v show ?thesis by blast
qed

end
