(* ===== verification/Actions.thy ===== *)
theory Actions
  imports Main
begin

text \<open>
  Actions of a program that threads a state and may raise: sequencing, loops, and the calculus of weakest
  preconditions with which runs of the operational scripts are reasoned about. An action is a
  function from the state to an error or a value and the state it leaves, so an error keeps what was done before it.
\<close>

section \<open>Actions\<close>

type_synonym ('s, 'e, 'a) act = "'s \<Rightarrow> ('e + 'a) \<times> 's"

definition seq :: "('s, 'e, 'a) act \<Rightarrow> ('a \<Rightarrow> ('s, 'e, 'b) act) \<Rightarrow> ('s, 'e, 'b) act" where
  "seq m k s = (case m s of (Inl e, s1) \<Rightarrow> (Inl e, s1) | (Inr x, s1) \<Rightarrow> k x s1)"

definition result :: "'e + 'a \<Rightarrow> ('s, 'e, 'a) act" where
  "result r s = (r, s)"

fun steps :: "('s, 'e, unit) act list \<Rightarrow> ('s, 'e, unit) act" where
  "steps [] = result (Inr ())"
| "steps (m # ms) = seq m (\<lambda>_. steps ms)"

text \<open>\<open>for x in xs\<close>, with what the loop accumulates.\<close>

fun loop :: "('x \<Rightarrow> 'b \<Rightarrow> ('s, 'e, 'b) act) \<Rightarrow> 'x list \<Rightarrow> 'b \<Rightarrow> ('s, 'e, 'b) act" where
  "loop f [] acc = result (Inr acc)"
| "loop f (x # xs) acc = seq (f x acc) (loop f xs)"

definition locals :: "('s \<Rightarrow> 's) \<Rightarrow> ('s, 'e, unit) act" where
  "locals f s = (Inr (), f s)"

section \<open>Preconditions\<close>

definition wp :: "('s, 'e, 'a) act \<Rightarrow> ('a \<Rightarrow> 's \<Rightarrow> bool) \<Rightarrow> ('e \<Rightarrow> 's \<Rightarrow> bool) \<Rightarrow> 's \<Rightarrow> bool" where
  "wp m Q E s = (case m s of (Inl e, t) \<Rightarrow> E e t | (Inr x, t) \<Rightarrow> Q x t)"

named_theorems wps \<open>preconditions of the actions\<close>

lemma wp_seq [wps]: "wp (seq m k) Q E s = wp m (\<lambda>x. wp (k x) Q E) E s"
  by (auto simp: wp_def seq_def split: prod.splits sum.splits)

lemma wp_result [wps]:
  "wp (result (Inr x)) Q E s = Q x s"
  "wp (result (Inl e)) Q E s = E e s"
  by (simp_all add: wp_def result_def)

lemma wp_locals [wps]: "wp (locals f) Q E s = Q () (f s)"
  by (simp add: wp_def locals_def)

lemma wp_steps [wps]:
  "wp (steps []) Q E s = Q () s"
  "wp (steps (m # ms)) Q E s = wp m (\<lambda>_. wp (steps ms) Q E) E s"
  by (simp_all add: wps)

lemma wp_if [wps]: "wp (if b then m else k) Q E s = (if b then wp m Q E s else wp k Q E s)"
  by simp

lemma if_intro: "(b \<Longrightarrow> P) \<Longrightarrow> (\<not> b \<Longrightarrow> Q) \<Longrightarrow> if b then P else Q"
  by simp

lemma wp_mono: "wp m Q E s \<Longrightarrow> (\<And>x t. Q x t \<Longrightarrow> Q' x t) \<Longrightarrow> (\<And>e t. E e t \<Longrightarrow> E' e t) \<Longrightarrow> wp m Q' E' s"
  by (auto simp: wp_def split: prod.splits sum.splits)

lemma wp_run: "wp m Q E s \<Longrightarrow> case fst (m s) of Inl e \<Rightarrow> E e (snd (m s)) | Inr x \<Rightarrow> Q x (snd (m s))"
  by (auto simp: wp_def split: prod.splits sum.splits)

lemma wp_readI: "(\<And>e. E e s) \<Longrightarrow> (\<And>x. Q x s) \<Longrightarrow> wp (\<lambda>s. (f s, s)) Q E s"
  by (auto simp: wp_def split: sum.splits)

lemma wp_resultI: "(\<And>e. r = Inl e \<Longrightarrow> E e s) \<Longrightarrow> (\<And>x. r = Inr x \<Longrightarrow> Q x s) \<Longrightarrow> wp (result r) Q E s"
  by (cases r) (auto simp: wps)

text \<open>A loop keeps an invariant that each of its rounds keeps; \<open>I\<close> speaks of the items done so far.\<close>

lemma wp_loop:
  assumes "\<And>ys x zs acc s. xs = ys @ x # zs \<Longrightarrow> I ys acc s \<Longrightarrow> wp (f x acc) (I (ys @ [x])) E s" and "I [] acc s"
  shows "wp (loop f xs acc) (I xs) E s"
proof -
  have "wp (loop f zs acc) (I xs) E s" if "xs = ys @ zs" "I ys acc s" for ys zs acc s
    using that
  proof (induction zs arbitrary: ys acc s)
    case Nil
    then show ?case by (simp add: wps)
  next
    case (Cons z zs)
    from Cons.prems have "wp (f z acc) (I (ys @ [z])) E s" by (intro assms(1)) simp_all
    then show ?case
      unfolding loop.simps wp_seq by (rule wp_mono) (use Cons in simp_all)
  qed
  from this [of "[]" xs] assms(2) show ?thesis by simp
qed

end
