(* ===== verification/Rb_Engine.thy ===== *)
theory Rb_Engine
  imports Rb_Release Actions
begin

text \<open>
  \<open>scripts/deploy_rollback/engine.py\<close>: the proxy-last rollback state machine. The host adapter is one function from commands
  and its own state to an answer or an exception; \<open>es_trace\<close> records every command with its
  answer. The local variables of \<open>_switch_app\<close> that its handler reads are fields of the state.
\<close>

section \<open>The host\<close>

datatype hcmd = Retain_Exact_Artifacts | Stop_Proxy | Stop_App | Start_App jobj | Proxy_Is_Stopped | Nonmutating_Old_App_Validation
  | Candidate_Validation | Authorize_Proxy jobj | Start_Proxy | External_Readiness | Current_Watermark

type_synonym 'h host = "hcmd \<Rightarrow> 'h \<Rightarrow> (rexc + json) \<times> 'h"

record rollback_result =
  rr_operation :: ustr
  rr_release :: ustr
  rr_path :: rollback_path
  rr_outcome :: string
  rr_elapsed :: int
  rr_passed :: bool
  rr_backup :: "ustr option"

text \<open>The arguments of the engine; the clock readings are those of the three moments it is read.\<close>

record 'h engine =
  eg_env :: rb_env
  eg_record :: jobj
  eg_identity :: ustr
  eg_operation :: ustr
  eg_operator :: ustr
  eg_pub :: publication
  eg_declared :: json
  eg_isolated :: bool
  eg_clock :: rclock
  eg_audit :: ustr
  eg_runtime :: ustr
  eg_expected :: "string option"
  eg_now :: datetime
  eg_wall :: "datetime \<times> datetime \<times> datetime"
  eg_ticks :: int
  eg_host :: "'h host"

record 'h estate =
  es_disk :: disk
  es_host :: 'h
  es_trace :: "(hcmd \<times> (rexc + json)) list"
  es_stage :: string
  es_switched :: bool
  es_app_stopped :: bool
  es_stop_attempted :: bool

type_synonym ('h, 'a) eact = "('h estate, rexc, 'a) act"

text \<open>\<open>RollbackEngine.__init__\<close>: what it checks.\<close>

definition engine_init :: "'h engine \<Rightarrow> rexc + 'h engine" where
  "engine_init eg =
     andthen (validate_release_record (eg_env eg) (eg_record eg)) (\<lambda>identity.
     andthen (validate_watermark (eg_env eg) (eg_declared eg)) (\<lambda>_.
       if ck_operation (eg_clock eg) \<noteq> eg_operation eg \<or> JStr (ck_release (eg_clock eg)) \<noteq> jget (eg_record eg) ''release_id''
       then unsafe ''RTO clock is cross-bound''
       else if strip (eg_operator eg) = [] then unsafe ''operator is required''
       else Inr (eg\<lparr>eg_identity := identity\<rparr>)))"

section \<open>Actions\<close>

definition call :: "'h engine \<Rightarrow> hcmd \<Rightarrow> ('h, json) eact" where
  "call eg c s = (case eg_host eg c (es_host s) of (r, h) \<Rightarrow> (r, s\<lparr>es_host := h, es_trace := es_trace s @ [(c, r)]\<rparr>))"

definition command :: "'h engine \<Rightarrow> hcmd \<Rightarrow> ('h, unit) eact" where
  "command eg c = seq (call eg c) (\<lambda>_. result (Inr ()))"

definition ensure :: "'h engine \<Rightarrow> hcmd \<Rightarrow> string \<Rightarrow> ('h, unit) eact" where
  "ensure eg c msg = seq (call eg c) (\<lambda>v. result (require (truthy v) msg))"

definition on_disk :: "'a io \<Rightarrow> ('h, 'a) eact" where
  "on_disk m s = (case m (es_disk s) of (r, d) \<Rightarrow> (r, s\<lparr>es_disk := d\<rparr>))"

abbreviation at_stage :: "string \<Rightarrow> ('h, unit) eact" where
  "at_stage name \<equiv> locals (\<lambda>s. s\<lparr>es_stage := name\<rparr>)"

text \<open>\<open>try: m; except BaseException as e: h e\<close>; nothing runs in a process that has ended.\<close>

definition handle :: "('h, 'a) eact \<Rightarrow> (rexc \<Rightarrow> ('h, 'a) eact) \<Rightarrow> ('h, 'a) eact" where
  "handle m h s = (case m s of (Inl e, s1) \<Rightarrow> if e = Killed then (Inl e, s1) else h e s1 | r \<Rightarrow> r)"

abbreviation attempt_stop :: "'h engine \<Rightarrow> ('h, unit) eact" where
  "attempt_stop eg \<equiv> handle (command eg Stop_Proxy) (\<lambda>_. result (Inr ()))"

section \<open>The audit\<close>

definition app_digest :: "json \<Rightarrow> json" where
  "app_digest artifacts = JStr (case IMAGE (text_of (jget (items (jget (items artifacts) ''images'')) ''app'')) of Some h \<Rightarrow> h | None \<Rightarrow> [])"

definition rollback_event :: "'h engine \<Rightarrow> string \<Rightarrow> string \<Rightarrow> rollback_path \<Rightarrow> jobj \<Rightarrow> jobj" where
  "rollback_event eg outcome stage path details =
     (let r = eg_record eg; lossy = jget (items (jget r ''pre_publication_plan'')) ''lossy_recovery''
      in [(u ''schema_version'', JInt 1), (u ''release_id'', jget r ''release_id''), (u ''release_identity'', JStr (eg_identity eg)),
          (u ''operation_id'', JStr (eg_operation eg)), (u ''environment_id'', jget r ''environment_id''),
          (u ''operator'', JStr (eg_operator eg)), (u ''at'', JStr (format_time (eg_now eg))),
          (u ''path'', JStr (u (rollback_path_name path))), (u ''stage'', JStr (u stage)), (u ''result'', JStr (u outcome)),
          (u ''stable_app_digest'', app_digest (jget r ''stable'')), (u ''candidate_app_digest'', app_digest (jget r ''candidate'')),
          (u ''backup_id'', jget (items (jget r ''pre_release_backup'')) ''backup_id''),
          (u ''compatibility'', jget (items (jget r ''compatibility'')) ''verdict''),
          (u ''release_approval'', jget (items (jget r ''release_approval'')) ''approval_id''),
          (u ''compatibility_approval'', jget (items (jget (items (jget r ''compatibility'')) ''approval'')) ''approval_id''),
          (u ''human_authorization_reference'', if is_obj lossy then jget (items lossy) ''authorization_record'' else JStr (u ''none'')),
          (u ''watermark_sha256'', JStr (digest_json (eg_env eg) (eg_declared eg)))] @ details)"

definition audit :: "'h engine \<Rightarrow> string \<Rightarrow> string \<Rightarrow> rollback_path \<Rightarrow> jobj \<Rightarrow> ('h, unit) eact" where
  "audit eg outcome stage path details =
     seq (on_disk (audit_append (eg_env eg) (eg_audit eg) (rollback_event eg outcome stage path details))) (\<lambda>_. result (Inr ()))"

definition text_detail :: "string \<Rightarrow> string \<Rightarrow> jobj" where
  "text_detail k v = [(u k, JStr (u v))]"

fun exc_name :: "rexc \<Rightarrow> string" where
  "exc_name (RollbackSafetyError _) = ''RollbackSafetyError''"
| "exc_name RollbackDecisionRequired = ''RollbackDecisionRequired''"
| "exc_name JSONDecodeError = ''JSONDecodeError''"
| "exc_name UnicodeDecodeError = ''UnicodeDecodeError''"
| "exc_name PyTypeError = ''TypeError''"
| "exc_name PyKeyError = ''KeyError''"
| "exc_name PyOSError = ''OSError''"
| "exc_name (HostError _) = ''Exception''"
| "exc_name Killed = ''''"

section \<open>The engine\<close>

definition decide :: "'h engine \<Rightarrow> ('h, rollback_path) eact" where
  "decide eg =
     seq (on_disk (clock_declare (eg_env eg) (eg_clock eg) (fst (eg_wall eg)))) (\<lambda>_.
     seq (\<lambda>s. (choose_rollback_path (eg_env eg) (pub_read (eg_env eg) (eg_pub eg) (dk_files (es_disk s))) (eg_declared eg)
                 (eg_isolated eg), s)) (\<lambda>path.
     seq (audit eg ''selected'' ''path_decision'' path []) (\<lambda>_. result (Inr path))))"

definition the_backup_id :: "'h engine \<Rightarrow> ustr" where
  "the_backup_id eg = text_of (jget (items (jget (eg_record eg) ''pre_release_backup'')) ''backup_id'')"

definition path_one :: "'h engine \<Rightarrow> ('h, rollback_result) eact" where
  "path_one eg =
     seq (on_disk (clock_elapsed (eg_env eg) (eg_clock eg) (fst (snd (eg_wall eg))) (snd (snd (eg_wall eg))) (eg_ticks eg))) (\<lambda>elapsed.
     seq (audit eg ''pr2a_handoff_required'' ''stable_identity_verified'' Pre_Public_Restore
            (text_detail ''pr2a_entrypoint'' ''scripts/backup_recovery/restore-run.sh'')) (\<lambda>_.
     result (Inr \<lparr>rr_operation = eg_operation eg, rr_release = text_of (jget (eg_record eg) ''release_id''), rr_path = Pre_Public_Restore,
       rr_outcome = ''INVOKE_UNMODIFIED_PR2A_RESTORE'', rr_elapsed = elapsed, rr_passed = (elapsed \<le> 14400),
       rr_backup = Some (the_backup_id eg)\<rparr>)))"

text \<open>A watermark of the host that is valid and has the digest expected.\<close>

definition same_watermark :: "'h engine \<Rightarrow> json \<Rightarrow> string \<Rightarrow> ('h, ustr) eact" where
  "same_watermark eg expected msg =
     seq (call eg Current_Watermark) (\<lambda>observed. result (andthen (validate_watermark (eg_env eg) observed) (\<lambda>d.
       if d \<noteq> digest_json (eg_env eg) expected then unsafe msg else Inr d)))"

definition stable_evidence :: "'h engine \<Rightarrow> rollback_path \<Rightarrow> json \<Rightarrow> ustr \<Rightarrow> jobj" where
  "stable_evidence eg path expected observed_digest =
     [(u ''release_identity'', JStr (eg_identity eg)), (u ''operation_id'', JStr (eg_operation eg)),
      (u ''path'', JStr (u (rollback_path_name path))), (u ''watermark_sha256'', JStr observed_digest),
      (u ''nonmutating_production_validation'', JBool True),
      (u ''baseline_watermark_sha256'', JStr (digest_json (eg_env eg) expected)),
      (u ''approved_full_read_write_rehearsal'',
        jget (items (jget (items (jget (eg_record eg) ''compatibility'')) ''g19_rehearsal'')) ''run_id'')]"

text \<open>The \<open>try\<close> block of \<open>_switch_app\<close>: to the stable application, the proxy last.\<close>

definition switch_body :: "'h engine \<Rightarrow> rollback_path \<Rightarrow> json \<Rightarrow> jobj \<Rightarrow> ('h, rollback_result) eact" where
  "switch_body eg path expected stable_identity =
     seq (steps
       [command eg Retain_Exact_Artifacts,
        at_stage ''proxy_isolation'', locals (\<lambda>s. s\<lparr>es_stop_attempted := True\<rparr>),
        command eg Stop_Proxy, ensure eg Proxy_Is_Stopped ''proxy isolation could not be proved'',
        at_stage ''app_stop'', command eg Stop_App, locals (\<lambda>s. s\<lparr>es_app_stopped := True\<rparr>),
        at_stage ''stable_atomic_switch'', on_disk (switch_runtime_identity (eg_runtime eg) stable_identity),
        locals (\<lambda>s. s\<lparr>es_switched := True\<rparr>),
        at_stage ''stable_app_start'', command eg (Start_App stable_identity),
        ensure eg Proxy_Is_Stopped ''proxy opened before isolated validation'',
        seq (same_watermark eg expected ''data changed before old-app validation began'') (\<lambda>_. result (Inr ())),
        at_stage ''stable_nonmutating_validation'',
        ensure eg Nonmutating_Old_App_Validation ''stable app non-mutating validation failed'',
        at_stage ''complete_watermark_validation'']) (\<lambda>_.
     seq (same_watermark eg expected ''production W1 changed during app-only switch'') (\<lambda>observed_digest.
     seq (steps
       [at_stage ''proxy_authorization'', command eg (Authorize_Proxy (stable_evidence eg path expected observed_digest)),
        at_stage ''proxy_start'', command eg Start_Proxy,
        at_stage ''external_readiness'',
        seq (call eg External_Readiness) (\<lambda>ready. if truthy ready then result (Inr ())
          else seq (command eg Stop_Proxy) (\<lambda>_. result (unsafe ''external readiness failed; proxy re-isolated'')))]) (\<lambda>_.
     seq (on_disk (complete_after_external_readiness (eg_env eg) (eg_clock eg) None (fst (snd (eg_wall eg))) (snd (snd (eg_wall eg)))
            (eg_ticks eg))) (\<lambda>(elapsed, rto_passed).
       if \<not> rto_passed
       then seq (audit eg ''RTO_EXCEEDED'' ''external_readiness'' path [(u ''elapsed_seconds'', JInt elapsed)]) (\<lambda>_.
              result (unsafe ''G-19 RTO exceeded after safe service recovery''))
       else seq (audit eg ''completed'' ''external_readiness'' path [(u ''elapsed_seconds'', JInt elapsed)]) (\<lambda>_.
              result (Inr \<lparr>rr_operation = eg_operation eg, rr_release = text_of (jget (eg_record eg) ''release_id''), rr_path = path,
                rr_outcome = ''ROLLED_BACK'', rr_elapsed = elapsed, rr_passed = True, rr_backup = None\<rparr>))))))"

definition forward_evidence :: "'h engine \<Rightarrow> rollback_path \<Rightarrow> json \<Rightarrow> jobj" where
  "forward_evidence eg path expected =
     [(u ''release_identity'', JStr (eg_identity eg)), (u ''operation_id'', JStr (eg_operation eg)),
      (u ''path'', JStr (u (rollback_path_name path))), (u ''roll_forward'', JBool True),
      (u ''watermark_sha256'', JStr (digest_json (eg_env eg) expected))]"

text \<open>Back to the candidate: stopped, switched, started, validated on unchanged data, published.\<close>

definition roll_forward :: "'h engine \<Rightarrow> rollback_path \<Rightarrow> json \<Rightarrow> jobj \<Rightarrow> ('h, unit) eact" where
  "roll_forward eg path expected candidate_identity =
     seq (call eg Current_Watermark) (\<lambda>failure_watermark.
     seq (result (validate_watermark (eg_env eg) failure_watermark)) (\<lambda>failure_digest.
     seq (steps
       [command eg Stop_App, on_disk (switch_runtime_identity (eg_runtime eg) candidate_identity),
        command eg (Start_App candidate_identity),
        ensure eg Proxy_Is_Stopped ''candidate roll-forward validation failed'',
        ensure eg Candidate_Validation ''candidate roll-forward validation failed'',
        seq (call eg Current_Watermark) (\<lambda>w. result (require (digest_json (eg_env eg) w = failure_digest)
          ''candidate roll-forward validation failed'')),
        command eg (Authorize_Proxy (forward_evidence eg path expected)), command eg Start_Proxy,
        seq (call eg External_Readiness) (\<lambda>ready. if truthy ready then result (Inr ())
          else seq (command eg Stop_Proxy) (\<lambda>_. result (unsafe ''candidate external readiness failed'')))]) (\<lambda>_ s.
       audit eg ''rolled_forward_after_failure'' ''candidate_external_readiness'' path (text_detail ''failed_stage'' (es_stage s)) s)))"

definition roll_forward_or_isolate :: "'h engine \<Rightarrow> rollback_path \<Rightarrow> json \<Rightarrow> jobj \<Rightarrow> ('h, unit) eact" where
  "roll_forward_or_isolate eg path expected candidate_identity =
     handle (roll_forward eg path expected candidate_identity) (\<lambda>roll_forward_error.
       seq (attempt_stop eg) (\<lambda>_ s.
         audit eg ''failed_isolated'' ''candidate_roll_forward'' path
           (text_detail ''failed_stage'' (es_stage s @ '':'' @ exc_name roll_forward_error)) s))"

text \<open>The handler; it raises the original exception again, unless an audit in it fails.\<close>

definition switch_handler :: "'h engine \<Rightarrow> rollback_path \<Rightarrow> json \<Rightarrow> jobj \<Rightarrow> rexc \<Rightarrow> ('h, rollback_result) eact" where
  "switch_handler eg path expected candidate_identity original s =
     seq (if es_stop_attempted s then attempt_stop eg else result (Inr ())) (\<lambda>_.
     seq (if path = Preserve_Forward_Data \<and> (es_switched s \<or> es_app_stopped s)
          then roll_forward_or_isolate eg path expected candidate_identity
          else audit eg ''failed_isolated'' (es_stage s) path (text_detail ''failed_stage'' (exc_name original))) (\<lambda>_.
     result (Inl original))) s"

definition switch_app :: "'h engine \<Rightarrow> rollback_path \<Rightarrow> json \<Rightarrow> ('h, rollback_result) eact" where
  "switch_app eg path expected =
     seq (result (validate_watermark (eg_env eg) expected)) (\<lambda>_.
     seq (result (build_runtime_identity (eg_env eg) (eg_record eg) ''stable'')) (\<lambda>stable_identity.
     seq (result (build_runtime_identity (eg_env eg) (eg_record eg) ''candidate'')) (\<lambda>candidate_identity.
     seq (locals (\<lambda>s. s\<lparr>es_switched := False, es_app_stopped := False, es_stop_attempted := False, es_stage := ''artifact_retention''\<rparr>)) (\<lambda>_.
     handle (switch_body eg path expected stable_identity) (switch_handler eg path expected candidate_identity)))))"

definition verdict_compatible :: "'h engine \<Rightarrow> bool" where
  "verdict_compatible eg \<longleftrightarrow> jget (items (jget (eg_record eg) ''compatibility'')) ''verdict'' = JStr (u ''compatible'')"

definition path_two :: "'h engine \<Rightarrow> ('h, rollback_result) eact" where
  "path_two eg =
     (if \<not> verdict_compatible eg
      then seq (audit eg ''NEEDS_ROLLBACK_DECISION'' ''human_decision'' Preserve_Forward_Data
                  (text_detail ''disposition'' ''keep_candidate_or_proxy_isolated'')) (\<lambda>_. result (Inl RollbackDecisionRequired))
      else switch_app eg Preserve_Forward_Data (eg_declared eg))"

definition planned_action :: "'h engine \<Rightarrow> rollback_path \<Rightarrow> string" where
  "planned_action eg path =
     (if path = Preserve_Forward_Data \<and> \<not> verdict_compatible eg then ''NEEDS_ROLLBACK_DECISION''
      else if path = Pre_Public_Restore then ''INVOKE_UNMODIFIED_PR2A_RESTORE'' else ''APP_ONLY_SWITCH'')"

definition run :: "'h engine \<Rightarrow> ('h, rollback_result) eact" where
  "run eg =
     seq (decide eg) (\<lambda>path.
       if eg_expected eg \<noteq> None \<and> Some (planned_action eg path) \<noteq> eg_expected eg
       then seq (audit eg ''refused_raced_path_change'' ''path_decision'' path
                   (text_detail ''expected_action'' (the (eg_expected eg)) @ text_detail ''observed_action'' (planned_action eg path))) (\<lambda>_.
              result (unsafe ''rollback action changed after lock strategy selection''))
       else if path = Pre_Public_Restore then path_one eg
       else path_two eg)"

end
