(* ===== verification/Rb_Run.thy ===== *)
theory Rb_Run
  imports Rb_Engine
begin

text \<open>
  What the rollback engine does to a host, whatever the host answers: a monitor reads the commands and answers of
  a run, and a small calculus of preconditions (\<open>wp\<close>) over the actions of the engine shows what it can say at the end.
\<close>

section \<open>The monitor\<close>

record guard =
  g_app :: "jobj option"
  g_isolated :: bool
  g_checked :: bool
  g_mark :: "ustr option"
  g_same :: bool
  g_allowed :: bool
  g_closed :: bool
  g_ready :: bool
  g_safe :: bool

definition guard0 :: guard where
  "guard0 = \<lparr>g_app = None, g_isolated = False, g_checked = False, g_mark = None, g_same = False, g_allowed = False,
     g_closed = True, g_ready = False, g_safe = True\<rparr>"

fun affirmed :: "rexc + json \<Rightarrow> bool" where
  "affirmed (Inr v) = truthy v"
| "affirmed (Inl _) = False"

fun obeyed :: "rexc + json \<Rightarrow> bool" where
  "obeyed (Inr _) = True"
| "obeyed (Inl _) = False"

text \<open>
  What a command and its answer say. A start of the proxy is safe when its authorization was obeyed after,
  in this order, an application was started, the proxy was seen stopped, a validation succeeded and the watermark was read
  with the digest of the reading before; it uses the authorization up.
\<close>

fun observe :: "rb_env \<Rightarrow> guard \<Rightarrow> hcmd \<times> (rexc + json) \<Rightarrow> guard" where
  "observe env g (Retain_Exact_Artifacts, r) = g"
| "observe env g (Stop_Proxy, r) = g\<lparr>g_closed := True, g_ready := False\<rparr>"
| "observe env g (Stop_App, r) =
     g\<lparr>g_app := None, g_isolated := False, g_checked := False, g_same := False, g_allowed := False\<rparr>"
| "observe env g (Start_App i, r) =
     g\<lparr>g_app := if obeyed r then Some i else None, g_isolated := False, g_checked := False, g_same := False, g_allowed := False\<rparr>"
| "observe env g (Proxy_Is_Stopped, r) = g\<lparr>g_isolated := affirmed r \<and> g_app g \<noteq> None\<rparr>"
| "observe env g (Nonmutating_Old_App_Validation, r) = g\<lparr>g_checked := affirmed r \<and> g_isolated g\<rparr>"
| "observe env g (Candidate_Validation, r) = g\<lparr>g_checked := affirmed r \<and> g_isolated g\<rparr>"
| "observe env g (Current_Watermark, r) =
     g\<lparr>g_same := (case r of Inl _ \<Rightarrow> False | Inr w \<Rightarrow> g_checked g \<and> g_mark g = Some (digest_json env w)),
       g_mark := (case r of Inl _ \<Rightarrow> g_mark g | Inr w \<Rightarrow> Some (digest_json env w))\<rparr>"
| "observe env g (Authorize_Proxy e, r) = g\<lparr>g_allowed := obeyed r \<and> g_same g\<rparr>"
| "observe env g (Start_Proxy, r) =
     g\<lparr>g_closed := False, g_ready := False, g_allowed := False, g_isolated := False, g_safe := g_safe g \<and> g_allowed g\<rparr>"
| "observe env g (External_Readiness, r) = g\<lparr>g_ready := affirmed r\<rparr>"

definition monitor :: "rb_env \<Rightarrow> (hcmd \<times> (rexc + json)) list \<Rightarrow> guard" where
  "monitor env tr = foldl (observe env) guard0 tr"

lemma monitor_simps [simp]:
  "monitor env [] = guard0"
  "monitor env (tr @ xs) = foldl (observe env) (monitor env tr) xs"
  by (simp_all add: monitor_def)

section \<open>Preconditions\<close>

lemma wp_handle [wps]: "wp (handle m h) Q E s = wp m Q (\<lambda>e t. if e = Killed then E e t else wp (h e) Q E t) s"
  by (auto simp: wp_def handle_def split: prod.splits sum.splits)

text \<open>The host may answer anything, the disk may hold anything and fail at any point.\<close>

definition told :: "'h estate \<Rightarrow> hcmd \<Rightarrow> rexc + json \<Rightarrow> 'h \<Rightarrow> 'h estate" where
  "told s c r h = s\<lparr>es_host := h, es_trace := es_trace s @ [(c, r)]\<rparr>"

lemma wp_callI:
  "(\<And>e h. E e (told s c (Inl e) h)) \<Longrightarrow> (\<And>v h. Q v (told s c (Inr v) h)) \<Longrightarrow> wp (call eg c) Q E s"
  by (auto simp: wp_def call_def told_def split: prod.splits sum.splits)

lemma wp_commandI:
  "(\<And>e h. E e (told s c (Inl e) h)) \<Longrightarrow> (\<And>v h. Q () (told s c (Inr v) h)) \<Longrightarrow> wp (command eg c) Q E s"
  by (simp add: command_def wps wp_callI)

lemma wp_ensureI:
  "(\<And>e h. E e (told s c (Inl e) h)) \<Longrightarrow> (\<And>v h. \<not> truthy v \<Longrightarrow> E (RollbackSafetyError msg) (told s c (Inr v) h)) \<Longrightarrow>
   (\<And>v h. truthy v \<Longrightarrow> Q () (told s c (Inr v) h)) \<Longrightarrow> wp (ensure eg c msg) Q E s"
  by (simp add: ensure_def wps wp_callI require_def)

lemma wp_requireI: "(\<not> b \<Longrightarrow> E (RollbackSafetyError msg) s) \<Longrightarrow> (b \<Longrightarrow> Q () s) \<Longrightarrow> wp (result (require b msg)) Q E s"
  by (simp add: wps require_def)

lemma wp_diskI: "(\<And>e d. E e (s\<lparr>es_disk := d\<rparr>)) \<Longrightarrow> (\<And>x d. Q x (s\<lparr>es_disk := d\<rparr>)) \<Longrightarrow> wp (on_disk m) Q E s"
  by (auto simp: wp_def on_disk_def split: prod.splits sum.splits)

lemma wp_auditI: "(\<And>e d. E e (s\<lparr>es_disk := d\<rparr>)) \<Longrightarrow> (\<And>d. Q () (s\<lparr>es_disk := d\<rparr>)) \<Longrightarrow> wp (audit eg r g p ds) Q E s"
  by (simp add: audit_def wps wp_diskI)

lemma wp_audit_stateI:
  "(\<And>e d. E e (s\<lparr>es_disk := d\<rparr>)) \<Longrightarrow> (\<And>d. Q () (s\<lparr>es_disk := d\<rparr>)) \<Longrightarrow> wp (\<lambda>s. audit eg r g p (ds s) s) Q E s"
  using wp_auditI [of E s Q eg r g p "ds s"] by (simp add: wp_def)

lemma told_simps [simp]:
  "es_trace (told s c r h) = es_trace s @ [(c, r)]" "es_stage (told s c r h) = es_stage s"
  "es_switched (told s c r h) = es_switched s" "es_app_stopped (told s c r h) = es_app_stopped s"
  "es_stop_attempted (told s c r h) = es_stop_attempted s"
  by (simp_all add: told_def)

lemma watermark_digest: "validate_watermark env w = Inr d \<Longrightarrow> d = digest_json env w"
  by (auto simp: validate_watermark_def Let_def andthen_def split: sum.splits)

lemma wp_watermarkI:
  "(\<And>e. E e s) \<Longrightarrow> Q (digest_json env w) s \<Longrightarrow> wp (result (validate_watermark env w)) Q E s"
  by (cases "validate_watermark env w") (auto simp: wps dest!: watermark_digest)

lemma wp_same_watermarkI:
  assumes "\<And>e r h. E e (told s Current_Watermark r h)"
    and "\<And>v h. digest_json (eg_env eg) v = digest_json (eg_env eg) expected \<Longrightarrow>
           Q (digest_json (eg_env eg) v) (told s Current_Watermark (Inr v) h)"
  shows "wp (same_watermark eg expected msg) Q E s"
  unfolding same_watermark_def wps
  by (intro wp_callI wp_resultI) (auto intro!: assms simp: andthen_def dest!: watermark_digest split: sum.splits if_splits)

lemmas wp_rules = wp_callI wp_commandI wp_ensureI wp_requireI wp_diskI wp_readI wp_auditI wp_audit_stateI wp_same_watermarkI
  wp_watermarkI


section \<open>The switch\<close>

abbreviation mon :: "'h engine \<Rightarrow> 'h estate \<Rightarrow> guard" where
  "mon eg s \<equiv> monitor (eg_env eg) (es_trace s)"

abbreviation serves :: "'h engine \<Rightarrow> jobj \<Rightarrow> 'h estate \<Rightarrow> bool" where
  "serves eg i s \<equiv> \<not> g_closed (mon eg s) \<and> g_ready (mon eg s) \<and> g_app (mon eg s) = Some i"

lemma switch_body_ends:
  assumes "g_safe (mon eg s)" "g_closed (mon eg s)" "\<not> es_stop_attempted s"
  shows "wp (switch_body eg path expected old)
    (\<lambda>x t. g_safe (mon eg t) \<and> serves eg old t \<and> rr_outcome x = ''ROLLED_BACK'' \<and> rr_path x = path \<and> rr_passed x)
    (\<lambda>e t. g_safe (mon eg t) \<and> (\<not> es_stop_attempted t \<longrightarrow> g_closed (mon eg t))) s"
  unfolding switch_body_def wps
  by (rule wp_rules conjI impI | simp add: wps assms split_beta)+


lemma roll_forward_ends:
  assumes "g_safe (mon eg s)"
  shows "wp (roll_forward eg path expected candidate) (\<lambda>_ t. g_safe (mon eg t) \<and> serves eg candidate t)
    (\<lambda>e t. g_safe (mon eg t)) s"
  unfolding roll_forward_def wps
  by (rule wp_rules conjI impI | simp add: wps assms split_beta)+

lemma roll_forward_or_isolate_ends:
  assumes "g_safe (mon eg s)"
  shows "wp (roll_forward_or_isolate eg path expected candidate)
    (\<lambda>_ t. g_safe (mon eg t) \<and> (g_closed (mon eg t) \<or> serves eg candidate t))
    (\<lambda>e t. g_safe (mon eg t) \<and> (e = Killed \<or> g_closed (mon eg t))) s"
  unfolding roll_forward_or_isolate_def wps
  by (rule wp_mono [OF roll_forward_ends [OF assms]], simp)
     (rule wp_rules conjI impI | simp add: wps)+

lemma wp_switch_handler:
  "wp (switch_handler eg path expected candidate original) Q E s =
   wp (seq (if es_stop_attempted s then attempt_stop eg else result (Inr ()))
     (\<lambda>_. seq (if path = Preserve_Forward_Data \<and> (es_switched s \<or> es_app_stopped s)
            then roll_forward_or_isolate eg path expected candidate
            else audit eg ''failed_isolated'' (es_stage s) path (text_detail ''failed_stage'' (exc_name original)))
       (\<lambda>_. result (Inl original)))) Q E s"
  by (simp add: wp_def switch_handler_def)

lemma wp_attempt_stopI:
  "(\<And>h. E Killed (told s Stop_Proxy (Inl Killed) h)) \<Longrightarrow> (\<And>r h. Q () (told s Stop_Proxy r h)) \<Longrightarrow> wp (attempt_stop eg) Q E s"
  by (simp add: wps) (rule wp_commandI; simp add: wps)

lemma switch_handler_ends:
  assumes "g_safe (mon eg s)" "es_stop_attempted s \<or> g_closed (mon eg s)"
  shows "wp (switch_handler eg path expected candidate original) (\<lambda>_ _. False)
    (\<lambda>e t. g_safe (mon eg t) \<and> (e = Killed \<or> g_closed (mon eg t) \<or> serves eg candidate t)) s"
    (is "wp _ ?Q ?E _")
proof -
  have last: "wp (if path = Preserve_Forward_Data \<and> (es_switched s \<or> es_app_stopped s)
            then roll_forward_or_isolate eg path expected candidate
            else audit eg ''failed_isolated'' (es_stage s) path (text_detail ''failed_stage'' (exc_name original)))
       (\<lambda>_. wp (result (Inl original)) ?Q ?E) ?E t" if "g_safe (mon eg t)" "g_closed (mon eg t)" for t
  proof (cases "path = Preserve_Forward_Data \<and> (es_switched s \<or> es_app_stopped s)")
    case True
    show ?thesis
      unfolding if_P [OF True] by (rule wp_mono [OF roll_forward_or_isolate_ends [OF that(1)]]) (auto simp: wps)
  next
    case False
    show ?thesis
      unfolding if_not_P [OF False] by (rule wp_auditI) (simp_all add: wps that)
  qed
  show ?thesis
  proof (cases "es_stop_attempted s")
    case True
    then show ?thesis
      unfolding wp_switch_handler wp_seq if_P [OF True] using assms
      by (intro wp_attempt_stopI last) simp_all
  next
    case False
    then show ?thesis
      unfolding wp_switch_handler wp_seq if_not_P [OF False] wp_result(1) using assms
      by (intro last) simp_all
  qed
qed

lemma switch_app_ends:
  assumes "g_safe (mon eg s)" "g_closed (mon eg s)"
  shows "wp (switch_app eg path expected)
    (\<lambda>x t. g_safe (mon eg t) \<and> rr_outcome x = ''ROLLED_BACK'' \<and> rr_passed x \<and> rr_path x = path \<and>
           (\<exists>i. build_runtime_identity (eg_env eg) (eg_record eg) ''stable'' = Inr i \<and> serves eg i t))
    (\<lambda>e t. g_safe (mon eg t) \<and> (e = Killed \<or> g_closed (mon eg t) \<or>
           (\<exists>i. build_runtime_identity (eg_env eg) (eg_record eg) ''candidate'' = Inr i \<and> serves eg i t))) s"
    (is "wp _ ?Q ?E _")
proof -
  have handled: "wp (switch_handler eg path expected i e) ?Q ?E t"
    if "g_safe (mon eg t)" "es_stop_attempted t \<or> g_closed (mon eg t)"
      "build_runtime_identity (eg_env eg) (eg_record eg) ''candidate'' = Inr i" for i e t
    by (rule wp_mono [OF switch_handler_ends [OF that(1,2)]]) (use that(3) in auto)
  show ?thesis
    unfolding switch_app_def wp_seq wp_handle wp_locals
  proof (intro wp_watermarkI wp_resultI)
    fix old new :: jobj
    assume built: "build_runtime_identity (eg_env eg) (eg_record eg) ''stable'' = Inr old"
      "build_runtime_identity (eg_env eg) (eg_record eg) ''candidate'' = Inr new"
    show "wp (switch_body eg path expected old) ?Q
      (\<lambda>e t. if e = Killed then ?E e t else wp (switch_handler eg path expected new e) ?Q ?E t)
      (s\<lparr>es_switched := False, es_app_stopped := False, es_stop_attempted := False, es_stage := ''artifact_retention''\<rparr>)"
    proof (rule wp_mono [OF switch_body_ends])
      fix e t
      assume "g_safe (mon eg t) \<and> (\<not> es_stop_attempted t \<longrightarrow> g_closed (mon eg t))"
      then have "wp (switch_handler eg path expected new e) ?Q ?E t" and safe: "g_safe (mon eg t)"
        by (blast intro: handled built(2))+
      moreover have "?E e t" if "e = Killed" using that safe by simp
      ultimately show "if e = Killed then ?E e t else wp (switch_handler eg path expected new e) ?Q ?E t"
        by (intro if_intro)
    qed (use assms built in auto)
  qed (use assms in simp_all)
qed


text \<open>Where a run of the engine leaves the proxy and the application.\<close>

definition serving :: "'h engine \<Rightarrow> string \<Rightarrow> guard \<Rightarrow> bool" where
  "serving eg version g \<longleftrightarrow> \<not> g_closed g \<and> g_ready g \<and>
     (case build_runtime_identity (eg_env eg) (eg_record eg) version of Inl _ \<Rightarrow> False | Inr i \<Rightarrow> g_app g = Some i)"

definition settled :: "'h engine \<Rightarrow> rexc + rollback_result \<Rightarrow> guard \<Rightarrow> bool" where
  "settled eg r g = (case r of
     Inr x \<Rightarrow> if rr_path x = Preserve_Forward_Data then rr_outcome x = ''ROLLED_BACK'' \<and> rr_passed x \<and> serving eg ''stable'' g
              else rr_outcome x = ''INVOKE_UNMODIFIED_PR2A_RESTORE'' \<and> g = guard0
   | Inl e \<Rightarrow> e = Killed \<or> g_closed g \<or> serving eg ''candidate'' g)"

lemma run_ends:
  assumes "es_trace s = []"
  shows "wp (run eg) (\<lambda>x t. g_safe (mon eg t) \<and> settled eg (Inr x) (mon eg t))
    (\<lambda>e t. g_safe (mon eg t) \<and> settled eg (Inl e) (mon eg t)) s" (is "wp _ ?Q ?E _")
proof -
  have start: "g_safe guard0" "g_closed guard0" by (simp_all add: guard0_def)
  have switch: "wp (switch_app eg Preserve_Forward_Data expected) ?Q ?E t" if "es_trace t = []" for t expected
    by (rule wp_mono [OF switch_app_ends]) (auto simp: that start settled_def serving_def)
  show ?thesis
    unfolding run_def decide_def path_one_def path_two_def wp_seq wp_if wp_result
    by (intro wp_rules if_intro switch) (simp_all add: assms start settled_def wps)
qed

text \<open>
  C5. Proxy last: whatever the host answers and however the disk fails, the engine starts the proxy only after the host obeyed an
  authorization of it, given after an application was started, then the proxy was seen stopped, then a validation succeeded, then the
  data watermark was read unchanged; and never twice on one authorization.
\<close>

theorem proxy_last: "g_safe (monitor (eg_env eg) (es_trace (snd (run eg (s\<lparr>es_trace := []\<rparr>)))))"
  using run_ends [of "s\<lparr>es_trace := []\<rparr>" eg] by (auto simp: wp_def split: prod.splits sum.splits)


text \<open>What runs of the engine without a command leave alone.\<close>

lemma run_undecided:
  assumes "\<not> verdict_compatible eg"
  shows "wp (run eg) (\<lambda>x t. es_trace t = es_trace s \<and> es_host t = es_host s \<and> rr_path x = Pre_Public_Restore)
    (\<lambda>e t. es_trace t = es_trace s \<and> es_host t = es_host s) s"
  unfolding run_def decide_def path_one_def path_two_def wp_seq wp_if wp_result
  by (intro wp_rules if_intro) (simp_all add: assms)

text \<open>
  An undecided release is left alone: when the approved compatibility verdict of the release is not \<open>compatible\<close>, a run sends the host no
  command at all and never reports a rollback; the only success is the hand-over of a release that was never
  public to the restore.
\<close>

theorem undecided_release_untouched:
  assumes "\<not> verdict_compatible eg"
  shows "es_trace (snd (run eg s)) = es_trace s \<and> es_host (snd (run eg s)) = es_host s
    \<and> (case fst (run eg s) of Inl _ \<Rightarrow> True | Inr x \<Rightarrow> rr_path x = Pre_Public_Restore)"
  using run_undecided [OF assms, of s] by (auto simp: wp_def split: prod.splits sum.splits)

definition sample_engine :: "string \<Rightarrow> nat engine" where
  "sample_engine verdict = \<lparr>eg_env = sample_env, eg_record = sample_release verdict, eg_identity = replicate 64 48, eg_operation = u ''op1'',
     eg_operator = u ''ops'', eg_pub = sample_pub, eg_declared = sample_watermark, eg_isolated = True,
     eg_clock = sample_clock, eg_audit = u ''/r/log'', eg_runtime = u ''/r/runtime'', eg_expected = None, eg_now = sample_start,
     eg_wall = (sample_start, sample_start, sample_start), eg_ticks = 0, eg_host = (\<lambda>c n. (Inr (JBool True), n + 1))\<rparr>"

definition sample_estate :: "nat estate" where
  "sample_estate = \<lparr>es_disk = \<lparr>dk_files = (\<lambda>_. None), dk_plan = []\<rparr>, es_host = 0, es_trace = [], es_stage = [], es_switched = False,
     es_app_stopped = False, es_stop_attempted = False\<rparr>"

theorem undecided_release_untouched_witness:
  "es_trace (snd (run (sample_engine ''incompatible'') sample_estate)) = [] \<and> es_host (snd (run (sample_engine ''incompatible'') sample_estate)) = 0"
proof -
  have "\<not> verdict_compatible (sample_engine ''incompatible'')"
    by (simp add: verdict_compatible_def sample_engine_def sample_fields)
  from undecided_release_untouched [OF this, of sample_estate] show ?thesis by (simp add: sample_estate_def)
qed

end
