(* ===== verification/Bk_Model.thy ===== *)
theory Bk_Model
  imports Rb_Base
begin

text \<open>
  \<open>scripts/backup_recovery/model.py\<close>: the manifest of a backup and its authentication, the completion
  marker of an upload, the proof of a restore, the record deletions are derived from, the generations of a recovery
  point and the retention policy. SHA-256, Ed25519, age, \<open>json\<close> and the time zone database are the fields of \<open>bk_env\<close>.
\<close>

section \<open>Errors and the environment\<close>

datatype bexc = SafetyError string | Json_Error | Value_Error | Type_Error | Key_Error | Attribute_Error | Os_Error | Stop_Iteration | Bk_Killed

definition demand :: "bool \<Rightarrow> string \<Rightarrow> bexc + unit" where
  "demand b msg = (if b then Inr () else Inl (SafetyError msg))"

lemma demand_returns [returns]: "demand b msg = Inr x \<longleftrightarrow> b"
  by (simp add: demand_def)

type_synonym blob = "nat list"

text \<open>
  \<open>bk_sign\<close> and \<open>bk_verify\<close> handle signatures as their hexadecimal text; \<open>bk_repr\<close> is the text \<open>str\<close> gives a list or a
  dictionary; \<open>bk_zone\<close> turns a UTC time into the civil time of a zone.
\<close>

record bk_env =
  bk_sha :: "blob \<Rightarrow> ustr"
  bk_dumps :: "json \<Rightarrow> blob"
  bk_loads :: "blob \<Rightarrow> bexc + json"
  bk_sign :: "blob \<Rightarrow> blob \<Rightarrow> ustr"
  bk_verify :: "blob \<Rightarrow> ustr \<Rightarrow> blob \<Rightarrow> bool"
  bk_decrypt :: "blob \<Rightarrow> bexc + blob"
  bk_repr :: "json \<Rightarrow> ustr"
  bk_zone :: "ustr \<Rightarrow> datetime \<Rightarrow> datetime"

definition bk_json :: "bk_env \<Rightarrow> json \<Rightarrow> blob" where
  "bk_json env v = bk_dumps env (canonical v)"

text \<open>\<open>str(v)\<close>, \<open>int(v)\<close> and \<open>for x in v\<close>.\<close>

fun py_text :: "bk_env \<Rightarrow> json \<Rightarrow> ustr" where
  "py_text env (JStr s) = s"
| "py_text env (JInt n) = show_int n"
| "py_text env (JBool b) = (if b then u ''True'' else u ''False'')"
| "py_text env JNull = u ''None''"
| "py_text env v = bk_repr env v"

fun py_integer :: "json \<Rightarrow> bexc + int" where
  "py_integer (JInt n) = Inr n"
| "py_integer (JBool b) = Inr (of_bool b)"
| "py_integer (JStr s) = (case py_int s of None \<Rightarrow> Inl Value_Error | Some n \<Rightarrow> Inr n)"
| "py_integer _ = Inl Type_Error"

fun py_iter :: "json \<Rightarrow> bexc + json list" where
  "py_iter (JArr xs) = Inr xs"
| "py_iter (JStr s) = Inr (map (\<lambda>c. JStr [c]) s)"
| "py_iter (JObj d) = Inr (map (JStr \<circ> fst) d)"
| "py_iter _ = Inl Type_Error"

fun py_values :: "json \<Rightarrow> bexc + json list" where
  "py_values (JObj d) = Inr (map snd d)"
| "py_values _ = Inl Attribute_Error"

text \<open>\<open>str(d.get(k, ""))\<close> and \<open>int(d.get(k, -1))\<close>.\<close>

definition text_or_empty :: "bk_env \<Rightarrow> jobj \<Rightarrow> string \<Rightarrow> ustr" where
  "text_or_empty env d k = (case map_of d (u k) of None \<Rightarrow> [] | Some v \<Rightarrow> py_text env v)"

definition integer_or_negative :: "jobj \<Rightarrow> string \<Rightarrow> bexc + int" where
  "integer_or_negative d k = (case map_of d (u k) of None \<Rightarrow> Inr (- 1) | Some v \<Rightarrow> py_integer v)"

text \<open>\<open>d[k] = v\<close> on the items of a dictionary.\<close>

fun dset :: "'k \<Rightarrow> 'v \<Rightarrow> ('k \<times> 'v) list \<Rightarrow> ('k \<times> 'v) list" where
  "dset k v [] = [(k, v)]"
| "dset k v (x # xs) = (if fst x = k then (k, v) # xs else x # dset k v xs)"

lemma map_of_dset: "map_of (dset k v xs) = (map_of xs)(k \<mapsto> v)"
  by (induction xs) auto

lemma jget_dset [simp]: "jget (dset (u k) v d) k' = (if k' = k then v else jget d k')"
  by (simp add: jget_def map_of_dset)

abbreviation hex128 :: "ustr \<Rightarrow> bool" where
  "hex128 s \<equiv> hex_text 128 s"

text \<open>\<open>".." in Path(p).parts\<close>.\<close>

definition climbs :: "ustr \<Rightarrow> bool" where
  "climbs p \<longleftrightarrow> u ''..'' \<in> set (split_on 47 p)"

definition validate_backup_id :: "ustr \<Rightarrow> bexc + unit" where
  "validate_backup_id s = demand (BACKUP_ID s) ''invalid backup_id''"

text \<open>Only the text that \<open>format_time\<close> writes for a moment passes.\<close>

definition canonical_timestamp :: "json \<Rightarrow> string \<Rightarrow> bexc + datetime" where
  "canonical_timestamp v field =
     (case parse_time v field of Inl _ \<Rightarrow> Inl (SafetyError (''invalid completion '' @ field)) | Inr t \<Rightarrow> Inr t)"

section \<open>Generations and retention\<close>

text \<open>\<open>date.weekday\<close> and, on a Monday, \<open>date.isocalendar\<close>.\<close>

definition weekday :: "datetime \<Rightarrow> nat" where
  "weekday t = (to_ordinal t + 6) mod 7"

definition iso_week_of_monday :: "datetime \<Rightarrow> nat \<times> nat" where
  "iso_week_of_monday t =
     (if dt_month t = 12 \<and> 29 \<le> dt_day t then (dt_year t + 1, 1)
      else (dt_year t, (to_ordinal t + 3 - to_ordinal (DateTime (dt_year t) 1 1 0 0 0 0)) div 7 + 1))"

definition daily_tag :: "datetime \<Rightarrow> ustr" where
  "daily_tag t = u ''daily:'' @ decimal 4 (dt_year t) @ [45] @ decimal 2 (dt_month t) @ [45] @ decimal 2 (dt_day t)"

definition generation_tags :: "bk_env \<Rightarrow> datetime \<Rightarrow> ustr \<Rightarrow> ustr list" where
  "generation_tags env frozen_at timezone =
     (let t = bk_zone env timezone frozen_at
      in [daily_tag t]
         @ (if weekday t = 0 then let (year, week) = iso_week_of_monday t in [u ''weekly:'' @ show_nat year @ u ''-W'' @ decimal 2 week] else [])
         @ (if dt_day t = 1 then [u ''monthly:'' @ show_nat (dt_year t) @ [45] @ decimal 2 (dt_month t)] else []))"

datatype reason = Daily | Weekly | Monthly | Unique_Verified

datatype decision = Keep "reason list" | Delete_Expired | Delete_Resuming | Delete_Finalizing

text \<open>A point: its identity, its freeze time and its generations.\<close>

record rpoint =
  rp_id :: ustr
  rp_frozen :: json
  rp_generations :: "ustr list"

definition month_index :: "datetime \<Rightarrow> int" where
  "month_index t = int (dt_year t) * 12 + int (dt_month t)"

definition day_microseconds :: int where
  "day_microseconds = 86400000000"

text \<open>
  Two times of one zone compare by their civil time, so the cutoffs are civil times too.
  The freeze time of a point is a text that \<open>format_time\<close> wrote; \<open>fromisoformat\<close> of another text is a \<open>ValueError\<close> here.
\<close>

definition keep_reasons :: "bk_env \<Rightarrow> datetime \<Rightarrow> ustr \<Rightarrow> ustr option \<Rightarrow> rpoint \<Rightarrow> datetime \<Rightarrow> reason list" where
  "keep_reasons env now timezone unique_verified p frozen =
     (let local_now = bk_zone env timezone now; t = bk_zone env timezone frozen;
          tags = (if rp_generations p = [] then generation_tags env frozen timezone else rp_generations p)
      in (if daily_tag t \<in> set tags \<and> microseconds t > microseconds local_now - 14 * day_microseconds then [Daily] else [])
         @ (if list_ex (starts_with (u ''weekly:'')) tags \<and> microseconds t > microseconds local_now - 56 * day_microseconds then [Weekly] else [])
         @ (if list_ex (starts_with (u ''monthly:'')) tags \<and> month_index local_now - month_index t < 6 then [Monthly] else [])
         @ (if unique_verified = Some (rp_id p) then [Unique_Verified] else []))"

definition decide_point :: "bk_env \<Rightarrow> datetime \<Rightarrow> ustr \<Rightarrow> ustr option \<Rightarrow> rpoint \<Rightarrow> bexc + decision" where
  "decide_point env now timezone unique_verified p =
     andthen (validate_backup_id (rp_id p)) (\<lambda>_.
     case parse_time (rp_frozen p) [] of
       Inl _ \<Rightarrow> Inl Value_Error
     | Inr frozen \<Rightarrow> let reasons = keep_reasons env now timezone unique_verified p frozen
                    in Inr (if reasons \<noteq> [] then Keep reasons else Delete_Expired))"

fun retention_decisions :: "bk_env \<Rightarrow> datetime \<Rightarrow> ustr \<Rightarrow> ustr option \<Rightarrow> rpoint list \<Rightarrow> bexc + (ustr \<rightharpoonup> decision)" where
  "retention_decisions env now timezone unique_verified [] = Inr (\<lambda>_. None)"
| "retention_decisions env now timezone unique_verified (p # ps) =
     andthen (decide_point env now timezone unique_verified p) (\<lambda>d.
     andthen (retention_decisions env now timezone unique_verified ps) (\<lambda>m.
       Inr (case m (rp_id p) of None \<Rightarrow> m(rp_id p \<mapsto> d) | Some _ \<Rightarrow> m)))"

section \<open>The policy\<close>

lemma strip_char_stripped:
  assumes "s \<noteq> [] \<Longrightarrow> hd s \<noteq> c" "s \<noteq> [] \<Longrightarrow> last s \<noteq> c"
  shows "strip_char c s = s"
proof (cases "s = []")
  case False
  with assms(1) have "dropWhile (\<lambda>x. x = c) s = s" by (cases s) auto
  moreover from False assms(2) have "dropWhile (\<lambda>x. x = c) (rev s) = rev s" by (cases s rule: rev_cases) auto
  ultimately show ?thesis by (simp add: strip_char_def lstrip_char_def rstrip_char_def)
qed (simp add: strip_char_def lstrip_char_def rstrip_char_def)

lemma strip_char_idem [simp]: "strip_char c (strip_char c s) = strip_char c s"
proof (rule strip_char_stripped)
  define t where "t = dropWhile (\<lambda>x. x = c) s"
  have e: "strip_char c s = rev (dropWhile (\<lambda>x. x = c) (rev t))"
    by (simp add: strip_char_def lstrip_char_def rstrip_char_def t_def)
  assume ne: "strip_char c s \<noteq> []"
  have "hd (dropWhile (\<lambda>x. x = c) (rev t)) \<noteq> c" using ne e by (intro hd_dropWhile) auto
  then show "last (strip_char c s) \<noteq> c" by (simp add: e last_rev)
  have "rev t = takeWhile (\<lambda>x. x = c) (rev t) @ rev (strip_char c s)" by (simp add: e)
  then have t: "t = strip_char c s @ rev (takeWhile (\<lambda>x. x = c) (rev t))" by (metis rev_append rev_rev_ident)
  with ne have "t \<noteq> []" by auto
  then have "hd t \<noteq> c" unfolding t_def by (rule hd_dropWhile)
  with ne t show "hd (strip_char c s) \<noteq> c" by (metis hd_append2)
qed

lemma starts_with_daily [simp]:
  "\<not> starts_with (u ''weekly:'') (daily_tag t)" "\<not> starts_with (u ''monthly:'') (daily_tag t)"
  by (simp_all add: daily_tag_def starts_with_def)

lemma tag_prefixes:
  "\<not> starts_with (u ''weekly:'') (u ''monthly:'' @ x)" "\<not> starts_with (u ''monthly:'') (u ''weekly:'' @ x)"
  by (simp_all add: starts_with_def)

lemma tag_kinds:
  "list_ex (starts_with (u ''weekly:'')) (generation_tags env t timezone) \<longleftrightarrow> weekday (bk_zone env timezone t) = 0"
  "list_ex (starts_with (u ''monthly:'')) (generation_tags env t timezone) \<longleftrightarrow> dt_day (bk_zone env timezone t) = 1"
  "daily_tag (bk_zone env timezone t) \<in> set (generation_tags env t timezone)"
  by (auto simp: generation_tags_def Let_def tag_prefixes simp del: u_Cons split: prod.splits)

lemma list_ex_same_set: "set xs = set ys \<Longrightarrow> list_ex P xs = list_ex P ys"
  by (simp add: list_ex_iff)

text \<open>A point has expired when no generation it belongs to holds it any more.\<close>

definition expired :: "bk_env \<Rightarrow> datetime \<Rightarrow> ustr \<Rightarrow> datetime \<Rightarrow> bool" where
  "expired env now timezone frozen =
     (let local_now = bk_zone env timezone now; t = bk_zone env timezone frozen; age = microseconds local_now - microseconds t
      in 14 * day_microseconds \<le> age \<and> (weekday t = 0 \<longrightarrow> 56 * day_microseconds \<le> age)
         \<and> (dt_day t = 1 \<longrightarrow> 6 \<le> month_index local_now - month_index t))"

lemma keep_reasons_expired:
  assumes "set (rp_generations p) = set (generation_tags env frozen timezone)"
  shows "keep_reasons env now timezone protected p frozen = [] \<longleftrightarrow> expired env now timezone frozen \<and> protected \<noteq> Some (rp_id p)"
proof -
  have "rp_generations p \<noteq> []" using assms by (auto simp: generation_tags_def Let_def)
  with list_ex_same_set [OF assms] assms show ?thesis
    by (auto simp: keep_reasons_def expired_def Let_def tag_kinds simp del: u_Cons)
qed

lemma decisions_known: "retention_decisions env now timezone protected ps = Inr m \<Longrightarrow> m i \<noteq> None \<longleftrightarrow> i \<in> rp_id ` set ps"
proof (induction ps arbitrary: m)
  case (Cons q ps)
  then obtain d m' where "retention_decisions env now timezone protected ps = Inr m'"
    "m = (case m' (rp_id q) of None \<Rightarrow> m'(rp_id q \<mapsto> d) | Some _ \<Rightarrow> m')" by (auto simp: returns)
  with Cons.IH [of m'] show ?case by (auto split: option.splits)
qed simp

lemma decisions_point:
  assumes "retention_decisions env now timezone protected ps = Inr m" "p \<in> set ps" "distinct (map rp_id ps)"
  shows "\<exists>d. decide_point env now timezone protected p = Inr d \<and> m (rp_id p) = Some d"
  using assms
proof (induction ps arbitrary: m)
  case (Cons q ps)
  from Cons.prems(1) obtain d m' where d: "decide_point env now timezone protected q = Inr d"
    "retention_decisions env now timezone protected ps = Inr m'"
    "m = (case m' (rp_id q) of None \<Rightarrow> m'(rp_id q \<mapsto> d) | Some _ \<Rightarrow> m')" by (auto simp: returns)
  from decisions_known [OF d(2)] Cons.prems(3) have "m' (rp_id q) = None" by force
  with Cons d show ?case by auto
qed simp

text \<open>
  C24. The retention policy is exactly this: of points with different identities and the generations of their own freeze times, a point is given up
  if and only if it is not the protected one, is at least 14 civil days old, at least 56 if it was frozen on a Monday, and lies at
  least six calendar months back if it was frozen on the first of a month, all in the business time zone; every other
  point is kept, with a reason.
\<close>

theorem retention_exact:
  assumes "retention_decisions env now timezone protected ps = Inr m" "p \<in> set ps" "distinct (map rp_id ps)"
    and "rp_frozen p = JStr (format_time frozen)" "valid_datetime frozen"
    and "set (rp_generations p) = set (generation_tags env frozen timezone)"
  shows "m (rp_id p) = (if expired env now timezone frozen \<and> protected \<noteq> Some (rp_id p) then Some Delete_Expired
      else Some (Keep (keep_reasons env now timezone protected p frozen)))
    \<and> (keep_reasons env now timezone protected p frozen = [] \<longleftrightarrow> expired env now timezone frozen \<and> protected \<noteq> Some (rp_id p))"
proof -
  obtain d where "decide_point env now timezone protected p = Inr d" "m (rp_id p) = Some d"
    using decisions_point [OF assms(1-3)] by blast
  then show ?thesis
    using keep_reasons_expired [OF assms(6), of now protected] assms(4,5)
    by (auto simp: decide_point_def returns parse_format Let_def)
qed

text \<open>A Monday in August, kept for its week forty days later and given up a hundred days later.\<close>

definition sample_bk_env :: bk_env where
  "sample_bk_env = \<lparr>bk_sha = (\<lambda>_. replicate 64 48), bk_dumps = (\<lambda>_. []), bk_loads = (\<lambda>_. Inr JNull), bk_sign = (\<lambda>_ _. replicate 128 48),
     bk_verify = (\<lambda>_ s _. s = replicate 128 48), bk_decrypt = (\<lambda>b. Inr b), bk_repr = (\<lambda>_. u ''[]''), bk_zone = (\<lambda>_ t. t)\<rparr>"

definition sample_frozen :: datetime where
  "sample_frozen = DateTime 2026 8 3 2 0 0 0"

definition sample_backup_identity :: ustr where
  "sample_backup_identity = u ''20260803T020000Z-'' @ replicate 32 48"

definition sample_point :: rpoint where
  "sample_point = \<lparr>rp_id = sample_backup_identity, rp_frozen = JStr (format_time sample_frozen),
     rp_generations = generation_tags sample_bk_env sample_frozen (u ''UTC'')\<rparr>"

lemma sample_point_ok: "BACKUP_ID sample_backup_identity" "valid_datetime sample_frozen"
  by (simp_all add: BACKUP_ID_def sample_backup_identity_def is_digit_def hex_text_def is_hex_def list_all_iff sample_frozen_def
      valid_datetime_def days_in_month_def)

theorem retention_exact_witness:
  "\<exists>m. retention_decisions sample_bk_env (DateTime 2026 11 11 2 0 0 0) (u ''UTC'') None [sample_point] = Inr m
     \<and> m sample_backup_identity = Some Delete_Expired"
proof -
  obtain m where m: "retention_decisions sample_bk_env (DateTime 2026 11 11 2 0 0 0) (u ''UTC'') None [sample_point] = Inr m"
    using sample_point_ok by (simp add: decide_point_def sample_point_def validate_backup_id_def demand_def parse_format Let_def)
  have ordinals: "to_ordinal sample_frozen = 739831" "to_ordinal (DateTime 2026 11 11 2 0 0 0) = 739931"
    by (simp_all add: to_ordinal_def sample_frozen_def upt_rec days_in_month_def is_leap_def)
  have "expired sample_bk_env (DateTime 2026 11 11 2 0 0 0) (u ''UTC'') sample_frozen"
    by (simp add: expired_def sample_bk_env_def Let_def microseconds_def ordinals day_microseconds_def)
      (simp add: sample_frozen_def)
  with retention_exact [OF m, of sample_point sample_frozen] m sample_point_ok show ?thesis
    by (simp add: sample_point_def)
qed

end
