(* ===== verification/Bk_Manifest.thy ===== *)
theory Bk_Manifest
  imports Bk_Model
begin

text \<open>
  The documents of \<open>scripts/backup_recovery/model.py\<close>: manifests and restore proofs with their signatures, the
  completion marker of an upload, and the retention record that names what a deletion may touch.
\<close>

section \<open>Signed documents\<close>

definition authentication_block :: "bk_env \<Rightarrow> blob \<Rightarrow> ustr \<Rightarrow> jobj \<Rightarrow> json" where
  "authentication_block env key key_id document = JObj [(u ''algorithm'', JStr (u ''ed25519'')), (u ''key_id'', JStr key_id),
     (u ''signature'', JStr (bk_sign env key (bk_json env (JObj document))))]"

definition authenticate_manifest :: "bk_env \<Rightarrow> jobj \<Rightarrow> blob \<Rightarrow> ustr \<Rightarrow> bexc + jobj" where
  "authenticate_manifest env manifest key key_id =
     andthen (checks
       [demand (length key = 32) ''manifest authentication key must be exactly 32 bytes'',
        demand (SAFE_ID key_id) ''invalid manifest authentication key id'',
        demand (u ''authentication'' \<notin> set (map fst manifest)) ''manifest is already authenticated'']) (\<lambda>_.
       Inr (manifest @ [(u ''authentication'', authentication_block env key key_id manifest)]))"

definition authority_checks :: "json \<Rightarrow> ustr \<Rightarrow> bexc + unit" where
  "authority_checks authentication key_id =
     (let a = items authentication
      in checks
       [demand (is_obj authentication \<and> keys_are a [''algorithm'', ''key_id'', ''signature'']) ''authentication schema mismatch'',
        demand (jget a ''algorithm'' = JStr (u ''ed25519'') \<and> jget a ''key_id'' = JStr key_id) ''authentication authority mismatch'',
        demand (is_str (jget a ''signature'') \<and> hex128 (text_of (jget a ''signature''))) ''invalid authentication signature''])"

definition signature_ok :: "bk_env \<Rightarrow> blob \<Rightarrow> jobj \<Rightarrow> bexc + unit" where
  "signature_ok env key document =
     demand (bk_verify env key (text_of (jget (items (jget document ''authentication'')) ''signature''))
       (bk_json env (JObj (without ''authentication'' document)))) ''authentication failed''"

definition verify_manifest_authentication :: "bk_env \<Rightarrow> jobj \<Rightarrow> blob \<Rightarrow> ustr \<Rightarrow> bexc + unit" where
  "verify_manifest_authentication env manifest key key_id = checks
     [demand (length key = 32) ''manifest authentication key must be exactly 32 bytes'',
      demand (SAFE_ID key_id) ''invalid manifest authentication key id'',
      authority_checks (jget manifest ''authentication'') key_id,
      signature_ok env key manifest]"

definition validate_restore_verification_unsigned :: "bk_env \<Rightarrow> jobj \<Rightarrow> bexc + unit" where
  "validate_restore_verification_unsigned env v = checks
     ([demand (keys_are v [''schema_version'', ''backup_id'', ''restore_operation_id'', ''environment_id'', ''verified_at'', ''rule'',
          ''restore_history_sha256'', ''manifest_sha256''] \<and> int_of (jget v ''schema_version'') = Some 1) ''restore verification schema mismatch'',
       validate_backup_id (text_or_empty env v ''backup_id''),
       demand (strip (text_or_empty env v ''environment_id'') \<noteq> []) ''restore verification environment is empty'',
       passed (canonical_timestamp (jget v ''verified_at'') ''restore verified_at''),
       demand (jget v ''rule'' = JStr (u ''remote_download_plus_complete_isolated_restore_only'')) ''restore verification rule mismatch'']
      @ map (\<lambda>field. demand (SHA256 (text_or_empty env v field)) (''invalid restore verification '' @ field))
          [''restore_operation_id'', ''restore_history_sha256'', ''manifest_sha256''])"

definition authenticate_restore_verification :: "bk_env \<Rightarrow> jobj \<Rightarrow> blob \<Rightarrow> ustr \<Rightarrow> bexc + jobj" where
  "authenticate_restore_verification env v key key_id =
     andthen (checks
       [validate_restore_verification_unsigned env v,
        demand (length key = 32) ''restore verification signing key must be exactly 32 bytes'',
        demand (SAFE_ID key_id) ''invalid restore verification key id'',
        demand (u ''authentication'' \<notin> set (map fst v)) ''restore verification is already authenticated'']) (\<lambda>_.
       Inr (v @ [(u ''authentication'', authentication_block env key key_id v)]))"

definition verify_restore_verification :: "bk_env \<Rightarrow> jobj \<Rightarrow> blob \<Rightarrow> ustr \<Rightarrow> bexc + unit" where
  "verify_restore_verification env v key key_id = checks
     [demand (length key = 32) ''restore verification key must be exactly 32 bytes'',
      demand (SAFE_ID key_id) ''invalid restore verification key id'',
      authority_checks (jget v ''authentication'') key_id,
      validate_restore_verification_unsigned env (without ''authentication'' v),
      signature_ok env key v]"

section \<open>Manifests\<close>

definition manifest_fields :: "string list" where
  "manifest_fields = [''schema_version'', ''backup_id'', ''started_at'', ''frozen_at'', ''completed_at'', ''source_commit'', ''images'',
     ''config_hashes'', ''alembic_revision'', ''tools'', ''volume_name'', ''database_name'', ''recipient_key_id'', ''authentication'',
     ''objects'', ''files'']"

text \<open>The loop over the files; it returns the paths seen.\<close>

fun file_entries :: "bk_env \<Rightarrow> ustr list \<Rightarrow> json list \<Rightarrow> bexc + ustr list" where
  "file_entries env seen [] = Inr seen"
| "file_entries env seen (v # vs) =
     (if \<not> is_obj v then Inl Attribute_Error
      else let i = items v; path = text_or_empty env i ''path'' in
        andthen (checks
          [demand (path \<noteq> [] \<and> \<not> starts_with (u ''/'') path \<and> \<not> climbs path) ''unsafe file path in manifest'',
           demand (path \<notin> set seen) ''duplicate file path in manifest'',
           demand (SHA256 (text_or_empty env i ''sha256'')) ''invalid file identity in manifest'',
           andthen (integer_or_negative i ''size'') (\<lambda>n. demand (0 \<le> n) ''invalid file identity in manifest'')]) (\<lambda>_.
        file_entries env (path # seen) vs))"

text \<open>The loop over the objects; it returns the names and the keys seen.\<close>

fun object_entries :: "bk_env \<Rightarrow> json \<Rightarrow> ustr list \<Rightarrow> ustr list \<Rightarrow> json list \<Rightarrow> bexc + ustr list \<times> ustr list" where
  "object_entries env backup_id names keys [] = Inr (names, keys)"
| "object_entries env backup_id names keys (v # vs) =
     (if \<not> is_obj v then Inl Attribute_Error
      else let i = items v; name = text_or_empty env i ''name''; key = text_or_empty env i ''key'' in
        andthen (checks
          [demand (name \<noteq> [] \<and> name \<notin> set names \<and> key \<noteq> [] \<and> key \<notin> set keys) ''duplicate or empty object identity'',
           demand (\<not> starts_with (u ''/'') key \<and> \<not> climbs key) ''unsafe object key'',
           demand (SHA256 (text_or_empty env i ''plaintext_sha256'')) ''invalid plaintext_sha256'',
           demand (SHA256 (text_or_empty env i ''ciphertext_sha256'')) ''invalid ciphertext_sha256'',
           andthen (integer_or_negative i ''plaintext_size'') (\<lambda>n. demand (0 \<le> n) ''invalid plaintext_size''),
           andthen (integer_or_negative i ''ciphertext_size'') (\<lambda>n. demand (0 \<le> n) ''invalid ciphertext_size''),
           demand (py_eq (jget i ''backup_id'') backup_id) ''mixed backup_id object'']) (\<lambda>_.
        object_entries env backup_id (name # names) (key # keys) vs))"

definition validate_images :: "bk_env \<Rightarrow> json \<Rightarrow> bexc + unit" where
  "validate_images env images =
     (if \<not> truthy images then Inl (SafetyError ''invalid immutable image identity'')
      else andthen (py_values images) (\<lambda>vs. demand (list_all (\<lambda>v. IMAGE (py_text env v) \<noteq> None) vs) ''invalid immutable image identity''))"

definition validate_manifest :: "bk_env \<Rightarrow> jobj \<Rightarrow> bexc + unit" where
  "validate_manifest env m =
     (let a = items (jget m ''authentication'')
      in andthen (checks
       [demand (list_all (\<lambda>k. k \<in> set (map fst m)) (map u manifest_fields)) ''manifest fields missing'',
        validate_backup_id (py_text env (jget m ''backup_id'')),
        demand (int_of (jget m ''schema_version'') = Some 1) ''unsupported manifest schema'',
        (if list_all (\<lambda>k. hashable (jget m k)) [''started_at'', ''frozen_at'', ''completed_at''] then Inr () else Inl Type_Error),
        demand (\<not> py_eq (jget m ''started_at'') (jget m ''frozen_at'') \<and> \<not> py_eq (jget m ''started_at'') (jget m ''completed_at'')
          \<and> \<not> py_eq (jget m ''frozen_at'') (jget m ''completed_at'')) ''backup timestamps are not distinct'',
        andthen (py_values (jget m ''config_hashes'')) (\<lambda>vs. demand (list_all (\<lambda>v. SHA256 (py_text env v)) vs) ''invalid config digest''),
        demand (items (jget m ''config_hashes'') \<noteq> []) ''config identity is empty'',
        validate_images env (jget m ''images''),
        demand (strip (py_text env (jget m ''recipient_key_id'')) \<noteq> []) ''recipient key id is empty'',
        demand (is_obj (jget m ''authentication'') \<and> keys_are a [''algorithm'', ''key_id'', ''signature'']
          \<and> jget a ''algorithm'' = JStr (u ''ed25519'') \<and> SAFE_ID (py_text env (jget a ''key_id''))
          \<and> hex128 (py_text env (jget a ''signature''))) ''invalid manifest authentication metadata'']) (\<lambda>_.
       andthen (py_iter (jget m ''files'')) (\<lambda>fs.
       andthen (file_entries env [] fs) (\<lambda>paths.
       andthen (py_iter (jget m ''objects'')) (\<lambda>os.
       andthen (object_entries env (jget m ''backup_id'') [] [] os) (\<lambda>(names, keys). checks
        [demand (u ''database'' \<in> set names \<and> u ''config'' \<in> set names) ''database or config object is missing'',
         demand (list_all (\<lambda>p. u ''file:'' @ p \<in> set names) paths) ''file object is missing'']))))))"

section \<open>Completion markers\<close>

definition point_root :: "ustr \<Rightarrow> ustr \<Rightarrow> ustr" where
  "point_root prefix backup_id = prefix @ u ''/points/'' @ backup_id"

definition manifest_key :: "ustr \<Rightarrow> ustr \<Rightarrow> ustr" where
  "manifest_key prefix backup_id = point_root prefix backup_id @ u ''/manifest.json.age''"

definition point_keys :: "ustr \<Rightarrow> ustr \<Rightarrow> ustr list" where
  "point_keys prefix backup_id = [manifest_key prefix backup_id, point_root prefix backup_id @ u ''/database.dump.age'',
     point_root prefix backup_id @ u ''/config.tar.age'']"

definition cas_root :: "ustr \<Rightarrow> ustr" where
  "cas_root prefix = prefix @ u ''/objects/sha256/''"

text \<open>The match of the pattern of a content-addressed key: the digest and whether it is the ciphertext.\<close>

definition cas_match :: "ustr \<Rightarrow> ustr \<Rightarrow> ustr \<Rightarrow> (ustr \<times> bool) option" where
  "cas_match prefix recipient key =
     (let rest = drop (length (cas_root prefix)) key; h = take 64 rest; name = drop 64 rest
      in if \<not> starts_with (cas_root prefix) key \<or> \<not> hex_text 64 h then None
         else if name = [47] @ recipient @ u ''.age'' then Some (h, True)
         else if name = [47] @ recipient @ u ''.json'' then Some (h, False) else None)"

definition remote_prefix :: "ustr \<Rightarrow> string \<Rightarrow> bexc + ustr" where
  "remote_prefix prefix msg =
     (let p = strip_char 47 prefix in if p \<noteq> [] \<and> \<not> climbs p then Inr p else Inl (SafetyError msg))"

definition completion_keys :: "ustr \<Rightarrow> ustr \<Rightarrow> ustr \<Rightarrow> json \<Rightarrow> bexc + unit" where
  "completion_keys prefix backup_id recipient object_keys =
     (let ks = map text_of (elems object_keys);
          others = filter (\<lambda>k. k \<notin> set (point_keys prefix backup_id)) ks
      in checks
       [demand (is_arr object_keys \<and> elems object_keys \<noteq> [] \<and> list_all is_str (elems object_keys) \<and> sorted_wrt (<) ks)
          ''completion object keys are not canonical'',
        demand (set (filter (starts_with (point_root prefix backup_id @ u ''/'')) ks) = set (point_keys prefix backup_id))
          ''completion point object keys mismatch'',
        demand (list_all (\<lambda>k. cas_match prefix recipient k \<noteq> None) others) ''completion object key outside allowed data namespace'',
        demand (list_all (\<lambda>k. case cas_match prefix recipient k of None \<Rightarrow> True
            | Some (h, age) \<Rightarrow> list_ex (\<lambda>k2. cas_match prefix recipient k2 = Some (h, \<not> age)) others) others)
          ''completion CAS object pair is incomplete''])"

text \<open>Python's \<open>sorted(set(...))\<close>.\<close>

definition sorted_set :: "ustr list \<Rightarrow> ustr list" where
  "sorted_set xs = sort (remdups xs)"

definition validate_completion_marker :: "bk_env \<Rightarrow> jobj \<Rightarrow> ustr \<Rightarrow> ustr \<Rightarrow> ustr \<Rightarrow> bexc + unit" where
  "validate_completion_marker env m backup_id prefix timezone =
     andthen (checks
       [demand (keys_are m [''schema_version'', ''backup_id'', ''frozen_at'', ''verified_at'', ''manifest_key'', ''manifest_ciphertext_size'',
          ''manifest_ciphertext_sha256'', ''recipient_key_id'', ''generations'', ''object_keys'', ''status'']) ''completion marker schema mismatch'',
        validate_backup_id backup_id,
        demand (jget m ''schema_version'' = JInt 1) ''unsupported completion marker schema'',
        demand (jget m ''backup_id'' = JStr backup_id) ''completion marker identity mismatch'']) (\<lambda>_.
     andthen (canonical_timestamp (jget m ''frozen_at'') ''frozen_at'') (\<lambda>frozen.
     andthen (canonical_timestamp (jget m ''verified_at'') ''verified_at'') (\<lambda>verified.
     andthen (checks
       [demand (frozen < verified) ''completion verification time is not after freeze'',
        demand (py_eq (jget m ''generations'') (JArr (map JStr (sort (generation_tags env frozen timezone))))) ''completion generations mismatch'',
        demand (is_str (jget m ''recipient_key_id'') \<and> SAFE_ID (text_of (jget m ''recipient_key_id''))) ''invalid completion recipient key id'',
        demand (jget m ''status'' = JStr (u ''remote_ciphertext_verified'')) ''completion marker is not remotely verified'',
        demand (case jget m ''manifest_ciphertext_size'' of JInt n \<Rightarrow> 0 < n | _ \<Rightarrow> False) ''invalid completion manifest size'',
        demand (SHA256 (py_text env (jget m ''manifest_ciphertext_sha256''))) ''invalid completion manifest digest'']) (\<lambda>_.
     andthen (remote_prefix prefix ''invalid completion remote prefix'') (\<lambda>p. checks
       [demand (jget m ''manifest_key'' = JStr (manifest_key p backup_id)) ''completion manifest key mismatch'',
        completion_keys p backup_id (text_of (jget m ''recipient_key_id'')) (jget m ''object_keys'')])))))"

section \<open>Retention records\<close>

text \<open>The keys of one object of the manifest: its own and, for a file, that of its description.\<close>

definition object_key_pair :: "bk_env \<Rightarrow> ustr \<Rightarrow> ustr \<Rightarrow> ustr \<Rightarrow> json \<Rightarrow> bexc + ustr list" where
  "object_key_pair env prefix backup_id recipient v =
     (let i = items v; name = py_text env (jget i ''name''); key = py_text env (jget i ''key'');
          stem = cas_root prefix @ py_text env (jget i ''plaintext_sha256'') @ [47] @ recipient
      in andthen (if name = u ''database'' then Inr (point_root prefix backup_id @ u ''/database.dump.age'', [])
           else if name = u ''config'' then Inr (point_root prefix backup_id @ u ''/config.tar.age'', [])
           else if starts_with (u ''file:'') name then Inr (stem @ u ''.age'', [stem @ u ''.json''])
           else Inl (SafetyError ''unsupported authenticated manifest object'')) (\<lambda>(expected, description).
         if key \<noteq> expected then Inl (SafetyError ''authenticated manifest object key mismatch'') else Inr (key # description)))"

fun object_key_pairs :: "bk_env \<Rightarrow> ustr \<Rightarrow> ustr \<Rightarrow> ustr \<Rightarrow> json list \<Rightarrow> bexc + ustr list" where
  "object_key_pairs env prefix backup_id recipient [] = Inr []"
| "object_key_pairs env prefix backup_id recipient (v # vs) =
     andthen (object_key_pair env prefix backup_id recipient v) (\<lambda>ks.
     andthen (object_key_pairs env prefix backup_id recipient vs) (\<lambda>rest. Inr (ks @ rest)))"

definition retention_record :: "bk_env \<Rightarrow> jobj \<Rightarrow> ustr \<Rightarrow> ustr \<Rightarrow> ustr \<Rightarrow> blob \<Rightarrow> ustr \<Rightarrow> bexc + jobj" where
  "retention_record env manifest backup_id prefix timezone verification_key key_id =
     andthen (checks
       [verify_manifest_authentication env manifest verification_key key_id, validate_manifest env manifest,
        demand (jget manifest ''backup_id'' = JStr backup_id) ''authenticated manifest identity mismatch'']) (\<lambda>_.
     andthen (remote_prefix prefix ''invalid retention remote prefix'') (\<lambda>p.
     andthen (canonical_timestamp (jget manifest ''frozen_at'') ''manifest frozen_at'') (\<lambda>frozen.
       let generations = sort (generation_tags env frozen timezone); recipient = jget manifest ''recipient_key_id'' in
     andthen (checks
       [demand (py_eq (jget manifest ''generations'') (JArr (map JStr generations))) ''authenticated manifest generations mismatch'',
        demand (is_str recipient \<and> SAFE_ID (text_of recipient)) ''invalid authenticated recipient key id'']) (\<lambda>_.
     andthen (object_key_pairs env p backup_id (text_of recipient) (elems (jget manifest ''objects''))) (\<lambda>ks.
       Inr [(u ''schema_version'', JInt 1), (u ''backup_id'', JStr backup_id), (u ''frozen_at'', JStr (format_time frozen)),
            (u ''generations'', JArr (map JStr generations)), (u ''manifest_key'', JStr (manifest_key p backup_id)),
            (u ''object_keys'', JArr (map JStr (sorted_set (point_keys p backup_id @ ks)))),
            (u ''authentication_key_id'', JStr key_id), (u ''manifest_sha256'', JStr (bk_sha env (bk_json env (JObj manifest)))),
            (u ''source'', JStr (u ''ed25519_authenticated_manifest''))])))))"

section \<open>The guard of a restore\<close>

record restore_guard =
  rg_environment :: ustr
  rg_backup :: ustr
  rg_operator :: ustr
  rg_window :: ustr
  rg_authorization :: ustr
  rg_expires :: datetime
  rg_challenge :: ustr

definition guard_validate :: "restore_guard \<Rightarrow> datetime \<Rightarrow> ustr \<Rightarrow> ustr \<Rightarrow> bexc + unit" where
  "guard_validate g now target_environment supplied_challenge = checks
     [demand (list_all (\<lambda>v. strip v \<noteq> []) [rg_environment g, rg_backup g, rg_operator g, rg_window g, rg_authorization g, rg_challenge g,
         target_environment, supplied_challenge]) ''restore confirmation contains an empty value'',
      validate_backup_id (rg_backup g),
      demand (rg_environment g = target_environment) ''restore environment marker mismatch'',
      demand (supplied_challenge \<noteq> [] \<and> supplied_challenge = rg_challenge g) ''restore challenge mismatch'',
      demand (now < rg_expires g) ''restore authorization expired'']"

section \<open>Signatures\<close>

lemma authentication_block_fields:
  "items (authentication_block env key key_id d) = [(u ''algorithm'', JStr (u ''ed25519'')), (u ''key_id'', JStr key_id),
     (u ''signature'', JStr (bk_sign env key (bk_json env (JObj d))))]"
  "is_obj (authentication_block env key key_id d)"
  by (simp_all add: authentication_block_def)

lemma without_absent: "u k \<notin> set (map fst d) \<Longrightarrow> without k d = d"
  by (force simp: without_def filter_id_conv simp del: u_Cons)

lemma signed_checks:
  fixes key_id
  assumes "u ''authentication'' \<notin> set (map fst d)" "\<And>msg. bk_verify env pub (bk_sign env key msg) msg" "\<And>msg. hex128 (bk_sign env key msg)"
  defines "a \<equiv> d @ [(u ''authentication'', authentication_block env key key_id d)]"
  shows "authority_checks (jget a ''authentication'') key_id = Inr ()" "signature_ok env pub a = Inr ()" "without ''authentication'' a = d"
proof -
  have g: "jget a ''authentication'' = authentication_block env key key_id d"
    using assms(1) by (simp add: a_def jget_def map_add_def map_of_eq_None_iff [THEN iffD2] del: u_Cons)
  show w: "without ''authentication'' a = d" by (simp add: a_def without_absent [OF assms(1)] del: u_Cons)
  show "authority_checks (jget a ''authentication'') key_id = Inr ()"
    unfolding g by (simp add: authority_checks_def authentication_block_fields returns Let_def jget_Cons keys_are_def assms(3) del: u_Cons)
  show "signature_ok env pub a = Inr ()"
    unfolding signature_ok_def g w by (simp add: authentication_block_fields returns jget_Cons assms(2) del: u_Cons)
qed

text \<open>
  What is signed verifies. A manifest signed with a backup key passes the verification with the public key of the same
  name, and a restore proof signed with a restore key likewise; without the signature both are what was signed. All that is used of the signature scheme is that
  a signature is 64 bytes and verifies for the message it was made for.
\<close>

theorem signed_documents_verify:
  assumes "\<And>msg. bk_verify env pub (bk_sign env key msg) msg" "\<And>msg. hex128 (bk_sign env key msg)" "length pub = 32"
    and "authenticate_manifest env manifest key key_id = Inr signed"
    and "authenticate_restore_verification env verification key key_id = Inr proof_document"
  shows "verify_manifest_authentication env signed pub key_id = Inr () \<and> without ''authentication'' signed = manifest
    \<and> verify_restore_verification env proof_document pub key_id = Inr () \<and> without ''authentication'' proof_document = verification"
proof -
  from assms(4) have m: "SAFE_ID key_id" "u ''authentication'' \<notin> set (map fst manifest)"
    "signed = manifest @ [(u ''authentication'', authentication_block env key key_id manifest)]"
    by (auto simp: authenticate_manifest_def returns simp del: u_Cons)
  from assms(5) have v: "validate_restore_verification_unsigned env verification = Inr ()" "u ''authentication'' \<notin> set (map fst verification)"
    "proof_document = verification @ [(u ''authentication'', authentication_block env key key_id verification)]"
    by (auto simp: authenticate_restore_verification_def returns simp del: u_Cons)
  note sm = signed_checks [OF m(2) assms(1,2), of key_id, folded m(3)] and sv = signed_checks [OF v(2) assms(1,2), of key_id, folded v(3)]
  from sm sv m(1) v(1) assms(3) show ?thesis
    by (simp add: verify_manifest_authentication_def verify_restore_verification_def returns)
qed

section \<open>The keys of a retention record\<close>

lemma text_or_empty_present: "SHA256 (text_or_empty env d k) \<Longrightarrow> SHA256 (py_text env (jget d k))"
  by (auto simp: text_or_empty_def jget_def SHA256_def hex_text_def split: option.splits)

lemma object_entries_Inr:
  "object_entries env b names ks vs = Inr x \<Longrightarrow> v \<in> set vs \<Longrightarrow> SHA256 (py_text env (jget (items v) ''plaintext_sha256''))"
proof (induction vs arbitrary: names ks)
  case (Cons w vs)
  then show ?case by (auto simp: returns Let_def dest!: text_or_empty_present split: if_splits)
qed simp

lemma validate_manifest_objects:
  assumes "validate_manifest env m = Inr x" "v \<in> set (elems (jget m ''objects''))"
  shows "SHA256 (py_text env (jget (items v) ''plaintext_sha256''))"
proof -
  from assms(1) obtain os y where o: "py_iter (jget m ''objects'') = Inr os" "object_entries env (jget m ''backup_id'') [] [] os = Inr y"
    by (auto simp: validate_manifest_def Let_def returns simp del: u_Cons split: prod.splits)
  then have "elems (jget m ''objects'') = os \<or> elems (jget m ''objects'') = []" by (cases "jget m ''objects''") auto
  with o(2) assms(2) object_entries_Inr show ?thesis by fastforce
qed

lemma cas_match_key:
  "SHA256 h \<Longrightarrow> cas_match p r (cas_root p @ h @ [47] @ r @ u ''.age'') = Some (h, True)"
  "SHA256 h \<Longrightarrow> cas_match p r (cas_root p @ h @ [47] @ r @ u ''.json'') = Some (h, False)"
  by (simp_all add: cas_match_def Let_def SHA256_def hex_text_def)

lemma cas_not_point: "\<not> starts_with (point_root p i @ x) (cas_root p @ y)"
  by (auto simp: point_root_def cas_root_def dest!: starts_withE)

lemma point_keys_start: "k \<in> set (point_keys p i) \<Longrightarrow> starts_with (point_root p i @ [47]) k"
  by (auto simp: point_keys_def manifest_key_def starts_with_def)

text \<open>A key list made of the keys of the point and of complete pairs.\<close>

definition paired :: "ustr \<Rightarrow> ustr \<Rightarrow> ustr \<Rightarrow> ustr list \<Rightarrow> bool" where
  "paired p i r ks \<longleftrightarrow> (\<forall>k \<in> set ks. k \<in> set (point_keys p i) \<or> (\<exists>h. SHA256 h \<and>
     k \<in> {cas_root p @ h @ [47] @ r @ u ''.age'', cas_root p @ h @ [47] @ r @ u ''.json''} \<and>
     {cas_root p @ h @ [47] @ r @ u ''.age'', cas_root p @ h @ [47] @ r @ u ''.json''} \<subseteq> set ks))"

lemma paired_append: "paired p i r ks \<Longrightarrow> paired p i r ls \<Longrightarrow> paired p i r (ks @ ls)"
  unfolding paired_def by (simp del: u_Cons) blast

lemma object_key_pair_paired:
  assumes "object_key_pair env p i r v = Inr ks" "SHA256 (py_text env (jget (items v) ''plaintext_sha256''))"
  shows "paired p i r ks"
proof -
  have "ks = [point_root p i @ u ''/database.dump.age''] \<or> ks = [point_root p i @ u ''/config.tar.age''] \<or>
      (let stem = cas_root p @ py_text env (jget (items v) ''plaintext_sha256'') @ [47] @ r in ks = [stem @ u ''.age'', stem @ u ''.json''])"
    using assms(1) by (simp add: object_key_pair_def Let_def andthen_def del: u_Cons split: if_splits)
  with assms(2) show ?thesis
    by (auto simp: paired_def point_keys_def Let_def simp del: u_Cons intro!: exI [of _ "py_text env (jget (items v) ''plaintext_sha256'')"])
qed

lemma object_key_pairs_paired:
  "object_key_pairs env p i r vs = Inr ks \<Longrightarrow> (\<And>v. v \<in> set vs \<Longrightarrow> SHA256 (py_text env (jget (items v) ''plaintext_sha256''))) \<Longrightarrow> paired p i r ks"
proof (induction vs arbitrary: ks)
  case (Cons v vs)
  then obtain k1 k2 where "object_key_pair env p i r v = Inr k1" "object_key_pairs env p i r vs = Inr k2" "ks = k1 @ k2"
    by (auto simp: returns)
  with Cons object_key_pair_paired show ?case by (auto intro: paired_append)
qed (simp add: paired_def)

lemma sorted_set_simps: "set (sorted_set xs) = set xs" "sorted_wrt (<) (sorted_set xs)"
  by (simp_all add: sorted_set_def strict_sorted_iff)

lemma retention_record_Inr:
  assumes "retention_record env m i prefix timezone vk key_id = Inr r"
  obtains ks frozen where "strip_char 47 prefix \<noteq> []" "BACKUP_ID i" "paired (strip_char 47 prefix) i (text_of (jget m ''recipient_key_id'')) ks"
    "verify_manifest_authentication env m vk key_id = Inr ()" "validate_manifest env m = Inr ()"
    "jget m ''frozen_at'' = JStr (format_time frozen)" "valid_datetime frozen"
    "jget r ''backup_id'' = JStr i" "jget r ''manifest_key'' = JStr (manifest_key (strip_char 47 prefix) i)"
    "jget r ''frozen_at'' = JStr (format_time frozen)" "jget r ''generations'' = JArr (map JStr (sort (generation_tags env frozen timezone)))"
    "jget r ''object_keys'' = JArr (map JStr (sorted_set (point_keys (strip_char 47 prefix) i @ ks)))"
proof -
  from assms obtain ks frozen where
    auth: "verify_manifest_authentication env m vk key_id = Inr ()" and valid: "validate_manifest env m = Inr ()" and
    id: "jget m ''backup_id'' = JStr i" and p: "remote_prefix prefix ''invalid retention remote prefix'' = Inr (strip_char 47 prefix)" and
    f: "canonical_timestamp (jget m ''frozen_at'') ''manifest frozen_at'' = Inr frozen" and
    ks: "object_key_pairs env (strip_char 47 prefix) i (text_of (jget m ''recipient_key_id'')) (elems (jget m ''objects'')) = Inr ks" and
    r: "r = [(u ''schema_version'', JInt 1), (u ''backup_id'', JStr i), (u ''frozen_at'', JStr (format_time frozen)),
            (u ''generations'', JArr (map JStr (sort (generation_tags env frozen timezone)))),
            (u ''manifest_key'', JStr (manifest_key (strip_char 47 prefix) i)),
            (u ''object_keys'', JArr (map JStr (sorted_set (point_keys (strip_char 47 prefix) i @ ks)))),
            (u ''authentication_key_id'', JStr key_id), (u ''manifest_sha256'', JStr (bk_sha env (bk_json env (JObj m)))),
            (u ''source'', JStr (u ''ed25519_authenticated_manifest''))]"
    by (auto simp: retention_record_def returns remote_prefix_def Let_def simp del: u_Cons split: if_splits)
  have "BACKUP_ID i"
    using valid by (simp add: validate_manifest_def returns validate_backup_id_def id Let_def del: u_Cons)
  moreover have "paired (strip_char 47 prefix) i (text_of (jget m ''recipient_key_id'')) ks"
    by (rule object_key_pairs_paired [OF ks validate_manifest_objects [OF valid]])
  moreover have "jget m ''frozen_at'' = JStr (format_time frozen)" "valid_datetime frozen"
    using f parse_time_Inr by (auto simp: canonical_timestamp_def split: sum.splits)
  moreover have "strip_char 47 prefix \<noteq> []" using p by (auto simp: remote_prefix_def Let_def split: if_splits)
  ultimately show thesis using that auth valid unfolding r by (simp add: jget_Cons del: u_Cons)
qed

lemma completion_keys_paired:
  assumes "paired p i r ks"
  shows "completion_keys p i r (JArr (map JStr (sorted_set (point_keys p i @ ks)))) = Inr ()"
proof -
  define all where "all = sorted_set (point_keys p i @ ks)"
  define others where "others = filter (\<lambda>k. k \<notin> set (point_keys p i)) all"
  have texts: "map text_of (map JStr all) = all" by (simp add: comp_def)
  have set_all: "set all = set (point_keys p i) \<union> set ks" and sorted: "sorted_wrt (<) all"
    by (simp_all add: all_def sorted_set_simps)
  have cas: "\<exists>h. SHA256 h \<and> k \<in> {cas_root p @ h @ [47] @ r @ u ''.age'', cas_root p @ h @ [47] @ r @ u ''.json''} \<and>
      {cas_root p @ h @ [47] @ r @ u ''.age'', cas_root p @ h @ [47] @ r @ u ''.json''} \<subseteq> set others" if "k \<in> set others" for k
  proof -
    from that set_all have "k \<in> set ks" "k \<notin> set (point_keys p i)" by (auto simp: others_def)
    then obtain h where h: "SHA256 h" "k \<in> {cas_root p @ h @ [47] @ r @ u ''.age'', cas_root p @ h @ [47] @ r @ u ''.json''}"
      "{cas_root p @ h @ [47] @ r @ u ''.age'', cas_root p @ h @ [47] @ r @ u ''.json''} \<subseteq> set ks"
      using assms unfolding paired_def by blast
    have "cas_root p @ x \<notin> set (point_keys p i)" for x
      using point_keys_start cas_not_point by blast
    then have "x \<in> set others" if "x \<in> set ks" "\<exists>y. x = cas_root p @ y" for x
      using that set_all by (auto simp: others_def)
    with h have "{cas_root p @ h @ [47] @ r @ u ''.age'', cas_root p @ h @ [47] @ r @ u ''.json''} \<subseteq> set others" by blast
    with h(1,2) show ?thesis by blast
  qed
  have point: "set (filter (starts_with (point_root p i @ u ''/'')) all) = set (point_keys p i)"
  proof -
    have "k \<in> set (point_keys p i)" if "k \<in> set all" "starts_with (point_root p i @ u ''/'') k" for k
    proof (rule ccontr)
      assume "k \<notin> set (point_keys p i)"
      with that(1) have "k \<in> set others" by (simp add: others_def)
      with cas that(2) cas_not_point show False by blast
    qed
    moreover have "u ''/'' = [47]" by simp
    ultimately show ?thesis using set_all point_keys_start by auto
  qed
  have matched: "list_all (\<lambda>k. cas_match p r k \<noteq> None) others"
    unfolding list_all_iff
  proof
    fix k
    assume "k \<in> set others"
    with cas obtain h where "SHA256 h" "k = cas_root p @ h @ [47] @ r @ u ''.age'' \<or> k = cas_root p @ h @ [47] @ r @ u ''.json''" by blast
    with cas_match_key [of h p r] show "cas_match p r k \<noteq> None" by auto
  qed
  have pair: "list_all (\<lambda>k. case cas_match p r k of None \<Rightarrow> True
      | Some (h, age) \<Rightarrow> list_ex (\<lambda>k2. cas_match p r k2 = Some (h, \<not> age)) others) others"
    unfolding list_all_iff
  proof
    fix k
    assume "k \<in> set others"
    with cas obtain h where h: "SHA256 h" "k = cas_root p @ h @ [47] @ r @ u ''.age'' \<or> k = cas_root p @ h @ [47] @ r @ u ''.json''"
      "cas_root p @ h @ [47] @ r @ u ''.age'' \<in> set others" "cas_root p @ h @ [47] @ r @ u ''.json'' \<in> set others" by blast
    with cas_match_key [of h p r] obtain age where "cas_match p r k = Some (h, age)" by blast
    moreover have "\<exists>k2 \<in> set others. cas_match p r k2 = Some (h, \<not> age)"
    proof (cases age)
      case True
      with cas_match_key(2) [OF h(1)] show ?thesis by (intro bexI [OF _ h(4)]) (simp del: u_Cons)
    next
      case False
      with cas_match_key(1) [OF h(1)] show ?thesis by (intro bexI [OF _ h(3)]) (simp del: u_Cons)
    qed
    ultimately show "case cas_match p r k of None \<Rightarrow> True
      | Some (h, age) \<Rightarrow> list_ex (\<lambda>k2. cas_match p r k2 = Some (h, \<not> age)) others" by (simp add: list_ex_iff)
  qed
  have "all \<noteq> []" using set_all by (auto simp: point_keys_def)
  with texts sorted point matched pair show ?thesis
    unfolding completion_keys_def all_def [symmetric] Let_def elems.simps texts others_def [symmetric]
    by (simp add: returns list_all_iff [of is_str] del: u_Cons)
qed

text \<open>
  A deletion can only name what the backup made. A record derived from a manifest names the three objects of its own point and, in pairs of ciphertext and
  description, content-addressed objects of its recipient under the same prefix, each once and in order: its keys always pass the
  check of completion markers, it exists only for an authenticated manifest of a well-formed identity, and its freeze time is the manifest's.
\<close>

theorem retention_keys_confined:
  assumes "retention_record env m i prefix timezone vk key_id = Inr r"
  shows "completion_keys (strip_char 47 prefix) i (text_of (jget m ''recipient_key_id'')) (jget r ''object_keys'') = Inr ()
    \<and> jget r ''manifest_key'' = JStr (manifest_key (strip_char 47 prefix) i) \<and> jget r ''backup_id'' = JStr i
    \<and> BACKUP_ID i \<and> strip_char 47 prefix \<noteq> [] \<and> verify_manifest_authentication env m vk key_id = Inr ()
    \<and> jget r ''frozen_at'' = jget m ''frozen_at''"
  by (rule retention_record_Inr [OF assms]) (simp add: completion_keys_paired)

section \<open>A manifest\<close>

abbreviation sample_zeros :: json where
  "sample_zeros \<equiv> JStr (replicate 64 48)"

definition sample_object :: "string \<Rightarrow> ustr \<Rightarrow> json" where
  "sample_object name key = JObj [(u ''name'', JStr (u name)), (u ''key'', JStr key), (u ''plaintext_sha256'', sample_zeros),
     (u ''ciphertext_sha256'', sample_zeros), (u ''plaintext_size'', JInt 1), (u ''ciphertext_size'', JInt 2),
     (u ''backup_id'', JStr sample_backup_identity)]"

definition sample_objects :: json where
  "sample_objects = JArr [sample_object ''database'' (point_root (u ''p'') sample_backup_identity @ u ''/database.dump.age''),
     sample_object ''config'' (point_root (u ''p'') sample_backup_identity @ u ''/config.tar.age''),
     sample_object ''file:a'' (cas_root (u ''p'') @ replicate 64 48 @ [47] @ u ''r1'' @ u ''.age'')]"

definition sample_files :: json where
  "sample_files = JArr [JObj [(u ''path'', JStr (u ''a'')), (u ''size'', JInt 1), (u ''sha256'', sample_zeros)]]"

definition sample_manifest :: jobj where
  "sample_manifest = [(u ''schema_version'', JInt 1), (u ''backup_id'', JStr sample_backup_identity), (u ''started_at'', JStr (u ''1'')),
     (u ''frozen_at'', JStr (format_time sample_frozen)), (u ''completed_at'', JStr (u ''2'')), (u ''source_commit'', JNull),
     (u ''images'', JObj [(u ''app'', JStr (u ''r/x:1@sha256:'' @ replicate 64 48))]), (u ''config_hashes'', JObj [(u ''c'', sample_zeros)]),
     (u ''alembic_revision'', JNull), (u ''tools'', JNull), (u ''volume_name'', JNull), (u ''database_name'', JNull),
     (u ''recipient_key_id'', JStr (u ''r1'')), (u ''objects'', sample_objects), (u ''files'', sample_files),
     (u ''generations'', JArr (map JStr (sort (generation_tags sample_bk_env sample_frozen (u ''UTC'')))))]"

definition sample_key :: blob where
  "sample_key = replicate 32 0"

definition sample_signed :: jobj where
  "sample_signed = sample_manifest @ [(u ''authentication'', authentication_block sample_bk_env sample_key (u ''k1'') sample_manifest)]"

definition sample_verification :: jobj where
  "sample_verification = [(u ''schema_version'', JInt 1), (u ''backup_id'', JStr sample_backup_identity), (u ''restore_operation_id'', sample_zeros),
     (u ''environment_id'', JStr (u ''e1'')), (u ''verified_at'', JStr (format_time sample_frozen)),
     (u ''rule'', JStr (u ''remote_download_plus_complete_isolated_restore_only'')), (u ''restore_history_sha256'', sample_zeros),
     (u ''manifest_sha256'', sample_zeros)]"

lemma zeros_hex [simp]: "SHA256 (replicate 64 48)" "hex128 (replicate 128 48)"
  by (simp_all add: SHA256_def hex_text_def is_hex_def is_digit_def list_all_iff)

lemma sample_key_names [simp]: "SAFE_ID (u ''k1'')" "SAFE_ID (u ''r1'')" "length sample_key = 32"
  by (simp_all add: SAFE_ID_def id_char_def is_digit_def is_upper_def is_lower_def sample_key_def)

lemma sample_manifest_signs: "authenticate_manifest sample_bk_env sample_manifest sample_key (u ''k1'') = Inr sample_signed"
  by (simp add: authenticate_manifest_def returns sample_signed_def sample_manifest_def demand_def checks.simps del: u_Cons)

lemma sample_verification_signs:
  "\<exists>d. authenticate_restore_verification sample_bk_env sample_verification sample_key (u ''k1'') = Inr d"
proof -
  have "validate_restore_verification_unsigned sample_bk_env sample_verification = Inr ()"
    using sample_point_ok
    by (simp add: validate_restore_verification_unsigned_def sample_verification_def returns jget_Cons keys_are_def text_or_empty_def
        validate_backup_id_def canonical_timestamp_def parse_format del: u_Cons)
      (simp add: text_eval)
  then show ?thesis
    by (simp add: authenticate_restore_verification_def checks.simps demand_def sample_verification_def del: u_Cons)
qed

theorem signed_documents_verify_witness:
  "\<exists>d. verify_manifest_authentication sample_bk_env sample_signed sample_key (u ''k1'') = Inr ()
     \<and> verify_restore_verification sample_bk_env d sample_key (u ''k1'') = Inr () \<and> without ''authentication'' d = sample_verification"
proof -
  obtain d where d: "authenticate_restore_verification sample_bk_env sample_verification sample_key (u ''k1'') = Inr d"
    using sample_verification_signs by blast
  have "bk_verify sample_bk_env sample_key (bk_sign sample_bk_env sample_key msg) msg" "hex128 (bk_sign sample_bk_env sample_key msg)" for msg
    by (simp_all add: sample_bk_env_def)
  from signed_documents_verify [OF this _ sample_manifest_signs d] show ?thesis by auto
qed

lemma image_ok: "IMAGE (u ''r/x:1@sha256:'' @ replicate 64 48) \<noteq> None"
  using zeros_hex(1) by (simp add: IMAGE_def SHA256_def Let_def ascii_space_def)

lemma sample_signed_fields:
  "jget sample_signed ''backup_id'' = JStr sample_backup_identity" "jget sample_signed ''schema_version'' = JInt 1"
  "jget sample_signed ''started_at'' = JStr (u ''1'')" "jget sample_signed ''frozen_at'' = JStr (format_time sample_frozen)"
  "jget sample_signed ''completed_at'' = JStr (u ''2'')" "jget sample_signed ''images'' = JObj [(u ''app'', JStr (u ''r/x:1@sha256:'' @ replicate 64 48))]"
  "jget sample_signed ''config_hashes'' = JObj [(u ''c'', sample_zeros)]" "jget sample_signed ''recipient_key_id'' = JStr (u ''r1'')"
  "jget sample_signed ''objects'' = sample_objects" "jget sample_signed ''files'' = sample_files"
  "jget sample_signed ''generations'' = JArr (map JStr (sort (generation_tags sample_bk_env sample_frozen (u ''UTC''))))"
  "jget sample_signed ''authentication'' = authentication_block sample_bk_env sample_key (u ''k1'') sample_manifest"
  by (simp_all add: sample_signed_def sample_manifest_def jget_Cons del: u_Cons)

lemma split_zeros: "split_on 47 (replicate n 48 @ s) = (case split_on 47 s of [] \<Rightarrow> [replicate n 48] | w # ws \<Rightarrow> (replicate n 48 @ w) # ws)"
  by (induction n) (auto split: list.splits)

lemma keys_safe:
  "\<not> climbs (point_root (u ''p'') sample_backup_identity @ u ''/database.dump.age'')"
  "\<not> climbs (point_root (u ''p'') sample_backup_identity @ u ''/config.tar.age'')"
  "\<not> climbs (cas_root (u ''p'') @ replicate 64 48 @ [47] @ u ''r1'' @ u ''.age'')"
proof -
  have "[46, 46] \<noteq> replicate 64 (48 :: nat)" by (auto dest: arg_cong [where f = length])
  then show "\<not> climbs (point_root (u ''p'') sample_backup_identity @ u ''/database.dump.age'')"
    "\<not> climbs (point_root (u ''p'') sample_backup_identity @ u ''/config.tar.age'')"
    "\<not> climbs (cas_root (u ''p'') @ replicate 64 48 @ [47] @ u ''r1'' @ u ''.age'')"
    by (simp_all add: climbs_def point_root_def cas_root_def sample_backup_identity_def split_zeros)
qed

lemma files_ok: "file_entries env [] (elems sample_files) = Inr [u ''a'']"
  by (simp add: sample_files_def text_or_empty_def integer_or_negative_def returns Let_def climbs_def starts_with_def andthen_def checks.simps(2) demand_def)

lemma objects_ok: "\<exists>ks. object_entries env (JStr sample_backup_identity) [] [] (elems sample_objects) =
    Inr ([u ''file:a'', u ''config'', u ''database''], ks)"
  using keys_safe
  by (simp add: sample_objects_def sample_object_def returns text_or_empty_def integer_or_negative_def Let_def jget_Cons del: u_Cons)
   (simp add: point_root_def cas_root_def starts_with_def)

lemma sample_iter: "py_iter sample_files = Inr (elems sample_files)" "py_iter sample_objects = Inr (elems sample_objects)"
  by (simp_all add: sample_files_def sample_objects_def)

lemma sample_fields_present: "list_all (\<lambda>k. k \<in> set (map fst sample_signed)) (map u manifest_fields)"
  by (simp add: sample_signed_def sample_manifest_def manifest_fields_def del: u_Cons)

lemma manifest_ok: "validate_manifest env sample_signed = Inr ()"
proof -
  obtain ks where ks: "object_entries env (JStr sample_backup_identity) [] [] (elems sample_objects) =
    Inr ([u ''file:a'', u ''config'', u ''database''], ks)" using objects_ok by blast
  have "SAFE_ID (u ''k1'')" by (rule sample_key_names)
  moreover have "bk_sign sample_bk_env k msg = replicate 128 48" for k msg by (simp add: sample_bk_env_def)
  ultimately show ?thesis
    using image_ok sample_fields_present sample_point_ok
    by (simp add: validate_manifest_def Let_def sample_signed_fields sample_iter files_ok ks returns authentication_block_fields jget_Cons
        validate_backup_id_def validate_images_def keys_are_def del: u_Cons)
      (simp add: text_eval format_time_def)
qed

definition sample_keys :: "ustr list" where
  "sample_keys = [point_root (u ''p'') sample_backup_identity @ u ''/database.dump.age'', point_root (u ''p'') sample_backup_identity @ u ''/config.tar.age'',
     cas_root (u ''p'') @ replicate 64 48 @ [47] @ u ''r1'' @ u ''.age'', cas_root (u ''p'') @ replicate 64 48 @ [47] @ u ''r1'' @ u ''.json'']"

lemma sample_pairs: "object_key_pairs env (u ''p'') sample_backup_identity (u ''r1'') (elems sample_objects) = Inr sample_keys"
  by (simp add: sample_objects_def sample_object_def object_key_pair_def Let_def jget_Cons andthen_def sample_keys_def del: u_Cons)
    (simp add: starts_with_def)

definition sample_generations :: json where
  "sample_generations = JArr (map JStr (sort (generation_tags sample_bk_env sample_frozen (u ''UTC''))))"

definition sample_object_keys :: json where
  "sample_object_keys = JArr (map JStr (sorted_set (point_keys (u ''p'') sample_backup_identity @ sample_keys)))"

text \<open>What the trusted record of the sample names, for every digest function.\<close>

definition sample_record :: "ustr \<Rightarrow> jobj" where
  "sample_record digest = [(u ''schema_version'', JInt 1), (u ''backup_id'', JStr sample_backup_identity), (u ''frozen_at'', JStr (format_time sample_frozen)),
     (u ''generations'', sample_generations), (u ''manifest_key'', JStr (manifest_key (u ''p'') sample_backup_identity)),
     (u ''object_keys'', sample_object_keys), (u ''authentication_key_id'', JStr (u ''k1'')), (u ''manifest_sha256'', JStr digest),
     (u ''source'', JStr (u ''ed25519_authenticated_manifest''))]"

lemma sample_prefix: "strip_char 47 (u ''/p/'') = u ''p''" "strip_char 47 (u ''p'') = u ''p''"
  by (simp_all add: strip_char_def lstrip_char_def rstrip_char_def)

lemma sample_retention:
  assumes "bk_verify env = bk_verify sample_bk_env" "bk_zone env = bk_zone sample_bk_env" "strip_char 47 prefix = u ''p''"
  shows "retention_record env sample_signed sample_backup_identity prefix (u ''UTC'') sample_key (u ''k1'')
     = Inr (sample_record (bk_sha env (bk_json env (JObj sample_signed))))"
proof -
  have "verify_manifest_authentication env sample_signed sample_key (u ''k1'') = Inr ()"
    using zeros_hex by (simp add: verify_manifest_authentication_def returns authority_checks_def signature_ok_def sample_signed_fields
        authentication_block_fields jget_Cons keys_are_def assms(1) sample_bk_env_def del: u_Cons)
  moreover have "\<not> climbs (u ''p'')" by (simp add: climbs_def)
  moreover have "u ''p'' \<noteq> []" by simp
  moreover have "canonical_timestamp (JStr (format_time sample_frozen)) f = Inr sample_frozen" for f
    using sample_point_ok by (simp add: canonical_timestamp_def parse_format)
  moreover have "generation_tags env sample_frozen tz = generation_tags sample_bk_env sample_frozen tz" for tz
    by (simp add: generation_tags_def assms(2))
  ultimately show ?thesis
    using manifest_ok
    by (simp add: retention_record_def Let_def andthen_def checks.simps demand_def remote_prefix_def assms(3) sample_signed_fields list.rel_map
        list.rel_refl sample_pairs sample_record_def sample_generations_def sample_object_keys_def del: u_Cons)
qed

theorem retention_keys_confined_witness:
  "\<exists>r. retention_record sample_bk_env sample_signed sample_backup_identity (u ''/p/'') (u ''UTC'') sample_key (u ''k1'') = Inr r
     \<and> completion_keys (u ''p'') sample_backup_identity (u ''r1'') (jget r ''object_keys'') = Inr ()"
  using retention_keys_confined [OF sample_retention [OF refl refl sample_prefix(1)]] sample_retention [OF refl refl sample_prefix(1)]
  by (simp add: sample_signed_fields sample_prefix del: u_Cons)

end
