(* ===== verification/Bk_Rotate.thy ===== *)
theory Bk_Rotate
  imports Bk_Manifest Actions
begin

text \<open>
  \<open>scripts/retention/rotate.py\<close>: the rotation of recovery points with the delete identity. \<open>rclone\<close> is one
  function from commands and its own state to an answer; the trace records every command with its answer, and the theorems hold
  for every such function, so whatever the remote holds and however it fails. Dictionaries keyed by backup
  identity are lists of items in insertion order.
\<close>

section \<open>The remote\<close>

datatype rcmd = Cat ustr | Lsf ustr | Copy_From ustr | Copy_To ustr blob | Delete_File ustr

datatype rans = Refused | Text blob | Lines "ustr list" | Finished | Dead

type_synonym 'r rclone = "rcmd \<Rightarrow> 'r \<Rightarrow> rans \<times> 'r"

record 'r rstate =
  rs_remote :: 'r
  rs_trace :: "(rcmd \<times> rans) list"

type_synonym ('r, 'a) ract = "('r rstate, bexc, 'a) act"

text \<open>The arguments of a rotation, with what it finds of its local files and of the contract.\<close>

record 'r rotation =
  ro_env :: bk_env
  ro_rclone :: "'r rclone"
  ro_authorized :: bool
  ro_config_private :: bool
  ro_identity_present :: bool
  ro_identity_private :: bool
  ro_manifest_key :: "blob option"
  ro_manifest_key_private :: bool
  ro_manifest_key_id :: ustr
  ro_restore_key :: "blob option"
  ro_restore_key_private :: bool
  ro_restore_key_id :: ustr
  ro_remote :: ustr
  ro_prefix :: ustr
  ro_contract :: "bexc + ustr"
  ro_now :: datetime
  ro_dry_run :: bool

definition ask :: "'r rotation \<Rightarrow> rcmd \<Rightarrow> ('r, rans) ract" where
  "ask ro c s = (case ro_rclone ro c (rs_remote s) of (a, r) \<Rightarrow>
     (if a = Dead then Inl Bk_Killed else Inr a, s\<lparr>rs_remote := r, rs_trace := rs_trace s @ [(c, a)]\<rparr>))"

text \<open>An answer of another kind than the command's counts as a refusal.\<close>

definition read_remote_json :: "'r rotation \<Rightarrow> ustr \<Rightarrow> ('r, json) ract" where
  "read_remote_json ro target = seq (ask ro (Cat target)) (\<lambda>a. result (case a of
     Text b \<Rightarrow> bk_loads (ro_env ro) b | _ \<Rightarrow> Inl (SafetyError ''authorized retention read failed'')))"

definition list_files :: "'r rotation \<Rightarrow> ustr \<Rightarrow> string \<Rightarrow> ('r, ustr list) ract" where
  "list_files ro target description = seq (ask ro (Lsf target)) (\<lambda>a. result (case a of
     Lines ns \<Rightarrow> Inr (filter (\<lambda>n. n \<noteq> []) ns) | _ \<Rightarrow> Inl (SafetyError (''cannot list '' @ description))))"

text \<open>\<open>target.rsplit("/", 1)\<close>.\<close>

definition parent_of :: "ustr \<Rightarrow> ustr" where
  "parent_of p = rev (tl (dropWhile (\<lambda>c. c \<noteq> 47) (rev p)))"

definition name_of :: "ustr \<Rightarrow> ustr" where
  "name_of p = rev (takeWhile (\<lambda>c. c \<noteq> 47) (rev p))"

definition remote_file_exists :: "'r rotation \<Rightarrow> ustr \<Rightarrow> ('r, bool) ract" where
  "remote_file_exists ro target =
     seq (list_files ro (parent_of target) ''retention deletion target'') (\<lambda>ns. result (Inr (name_of target \<in> set ns)))"

definition delete_if_present :: "'r rotation \<Rightarrow> ustr \<Rightarrow> ('r, unit) ract" where
  "delete_if_present ro target =
     seq (remote_file_exists ro target) (\<lambda>present.
       if \<not> present then result (Inr ())
       else seq (ask ro (Delete_File target)) (\<lambda>a. result (demand (a \<noteq> Refused) ''authorized retention deletion failed'')))"

definition publish_and_verify_journal :: "'r rotation \<Rightarrow> ustr \<Rightarrow> jobj \<Rightarrow> ('r, unit) ract" where
  "publish_and_verify_journal ro target expected =
     seq (ask ro (Copy_To target (bk_json (ro_env ro) (JObj expected)))) (\<lambda>a.
     seq (result (demand (a \<noteq> Refused) ''cannot publish retention deletion journal'')) (\<lambda>_.
     seq (read_remote_json ro target) (\<lambda>v. result (demand (py_eq v (JObj expected)) ''retention deletion journal verification failed''))))"

section \<open>What the remote holds\<close>

definition remote_root :: "'r rotation \<Rightarrow> ustr" where
  "remote_root ro = rstrip_char 47 (ro_remote ro)"

definition normalized_prefix :: "'r rotation \<Rightarrow> ustr" where
  "normalized_prefix ro = strip_char 47 (ro_prefix ro)"

definition remote_base :: "'r rotation \<Rightarrow> ustr" where
  "remote_base ro = remote_root ro @ [47] @ normalized_prefix ro"

definition control_path :: "'r rotation \<Rightarrow> string \<Rightarrow> ustr \<Rightarrow> ustr" where
  "control_path ro kind backup_id = remote_base ro @ [47] @ u kind @ [47] @ backup_id @ u ''.json''"

definition key_path :: "'r rotation \<Rightarrow> ustr \<Rightarrow> ustr" where
  "key_path ro key = remote_root ro @ [47] @ key"

text \<open>The names of one control directory that are markers, as identities.\<close>

definition marker_id :: "ustr \<Rightarrow> bexc + ustr" where
  "marker_id name = (let i = remove_suffix (u ''.json'') name in andthen (validate_backup_id i) (\<lambda>_. Inr i))"

definition authenticated_retention_record :: "'r rotation \<Rightarrow> ustr \<Rightarrow> ustr \<Rightarrow> ('r, jobj) ract" where
  "authenticated_retention_record ro timezone backup_id =
     seq (ask ro (Copy_From (key_path ro (manifest_key (normalized_prefix ro) backup_id)))) (\<lambda>a.
     seq (result (case a of
            Text b \<Rightarrow> andthen (bk_decrypt (ro_env ro) b) (\<lambda>plain. case bk_loads (ro_env ro) plain of
              Inl Json_Error \<Rightarrow> Inl (SafetyError ''authenticated retention manifest is invalid'') | r \<Rightarrow> r)
          | _ \<Rightarrow> Inl (SafetyError ''cannot download authoritative encrypted manifest''))) (\<lambda>v.
     result (if \<not> is_obj v then Inl (SafetyError ''authenticated retention manifest is not a JSON object'')
       else retention_record (ro_env ro) (items v) backup_id (normalized_prefix ro) timezone (the (ro_manifest_key ro)) (ro_manifest_key_id ro))))"

definition completion_round :: "'r rotation \<Rightarrow> ustr \<Rightarrow> ustr \<Rightarrow> (ustr \<times> jobj) list \<Rightarrow> ('r, (ustr \<times> jobj) list) ract" where
  "completion_round ro timezone name acc =
     (if \<not> ends_with (u ''.json'') name then result (Inr acc)
      else seq (result (marker_id name)) (\<lambda>backup_id.
           seq (read_remote_json ro (remote_base ro @ u ''/complete/'' @ name)) (\<lambda>marker.
           seq (result (checks [demand (is_obj marker) ''completion marker is not a JSON object'',
              validate_completion_marker (ro_env ro) (items marker) backup_id (normalized_prefix ro) timezone])) (\<lambda>_.
           seq (authenticated_retention_record ro timezone backup_id) (\<lambda>trusted.
           seq (result (demand (list_all (\<lambda>f. py_eq (jget (items marker) f) (jget trusted f))
              [''frozen_at'', ''generations'', ''manifest_key'', ''object_keys'']) ''completion marker conflicts with authenticated manifest'')) (\<lambda>_.
             result (Inr (dset backup_id trusted acc))))))))"

definition validated_completion_records :: "'r rotation \<Rightarrow> ustr \<Rightarrow> ('r, (ustr \<times> jobj) list) ract" where
  "validated_completion_records ro timezone =
     seq (list_files ro (remote_base ro @ u ''/complete'') ''completion markers'') (\<lambda>names. loop (completion_round ro timezone) names [])"

definition journal_round ::
    "'r rotation \<Rightarrow> ustr \<Rightarrow> ustr \<Rightarrow> (ustr \<times> jobj) list \<times> ustr list \<Rightarrow> ('r, (ustr \<times> jobj) list \<times> ustr list) ract" where
  "journal_round ro timezone name acc =
     (if \<not> ends_with (u ''.json'') name then result (Inr acc)
      else seq (result (marker_id name)) (\<lambda>backup_id.
           seq (remote_file_exists ro (key_path ro (manifest_key (normalized_prefix ro) backup_id))) (\<lambda>present.
           if \<not> present then
             seq (remote_file_exists ro (control_path ro ''complete'' backup_id)) (\<lambda>complete.
             seq (if complete then result (Inr True) else remote_file_exists ro (control_path ro ''verified'' backup_id)) (\<lambda>control.
               result (if control then Inl (SafetyError ''deletion journal lost its manifest before control markers were removed'')
                       else Inr (fst acc, if backup_id \<in> set (snd acc) then snd acc else backup_id # snd acc))))
           else
             seq (authenticated_retention_record ro timezone backup_id) (\<lambda>trusted.
             seq (read_remote_json ro (remote_base ro @ u ''/deleting/'' @ name)) (\<lambda>journal.
               result (if \<not> py_eq journal (JObj trusted) then Inl (SafetyError ''retention deletion journal is not manifest-authenticated'')
                       else Inr (dset backup_id trusted (fst acc), snd acc)))))))"

definition validated_journal_records :: "'r rotation \<Rightarrow> ustr \<Rightarrow> ('r, (ustr \<times> jobj) list \<times> ustr list) ract" where
  "validated_journal_records ro timezone =
     seq (list_files ro (remote_base ro @ u ''/deleting'') ''retention deletion journals'') (\<lambda>names. loop (journal_round ro timezone) names ([], []))"

definition verified_round :: "'r rotation \<Rightarrow> (ustr \<times> jobj) list \<Rightarrow> ustr \<Rightarrow> ustr list \<Rightarrow> ('r, ustr list) ract" where
  "verified_round ro all_markers name acc =
     (if \<not> ends_with (u ''.json'') name then result (Inr acc)
      else seq (result (marker_id name)) (\<lambda>backup_id.
           seq (read_remote_json ro (remote_base ro @ u ''/verified/'' @ name)) (\<lambda>v.
           seq (result (checks [demand (is_obj v) ''restore verification marker is not a JSON object'',
              verify_restore_verification (ro_env ro) (items v) (the (ro_restore_key ro)) (ro_restore_key_id ro)])) (\<lambda>_.
             result (case map_of all_markers backup_id of
               None \<Rightarrow> Inl (SafetyError ''restore verification marker is not bound to this recovery point'')
             | Some marker \<Rightarrow>
                 if jget (items v) ''backup_id'' \<noteq> JStr backup_id \<or> \<not> py_eq (jget (items v) ''manifest_sha256'') (jget marker ''manifest_sha256'')
                 then Inl (SafetyError ''restore verification marker is not bound to this recovery point'')
                 else Inr (if backup_id \<in> set acc then acc else backup_id # acc))))))"

definition validated_verified_ids :: "'r rotation \<Rightarrow> (ustr \<times> jobj) list \<Rightarrow> ('r, ustr list) ract" where
  "validated_verified_ids ro all_markers =
     seq (list_files ro (remote_base ro @ u ''/verified'') ''verified recovery points'') (\<lambda>names. loop (verified_round ro all_markers) names [])"

section \<open>The plan\<close>

record survey =
  sv_complete :: "(ustr \<times> jobj) list"
  sv_journal :: "(ustr \<times> jobj) list"
  sv_finalizing :: "ustr list"
  sv_verified :: "ustr list"

definition all_markers :: "survey \<Rightarrow> (ustr \<times> jobj) list" where
  "all_markers sv = foldl (\<lambda>acc (k, v). dset k v acc) (sv_complete sv) (sv_journal sv)"

definition id_of :: "jobj \<Rightarrow> ustr" where
  "id_of m = text_of (jget m ''backup_id'')"

definition keys_of :: "jobj \<Rightarrow> ustr list" where
  "keys_of m = map text_of (elems (jget m ''object_keys''))"

text \<open>\<open>max\<close> by freeze time and identity; both are texts.\<close>

definition rank :: "(ustr \<times> jobj) list \<Rightarrow> ustr \<Rightarrow> ustr \<times> ustr" where
  "rank markers i = (case map_of markers i of None \<Rightarrow> [] | Some m \<Rightarrow> text_of (jget m ''frozen_at''), i)"

definition protected_verified :: "survey \<Rightarrow> ustr option" where
  "protected_verified sv =
     (case sv_verified sv of [] \<Rightarrow> None
      | i # is \<Rightarrow> Some (foldl (\<lambda>best j. if rank (all_markers sv) best < rank (all_markers sv) j then j else best) i is))"

record rplan =
  pl_decisions :: "ustr \<rightharpoonup> decision"
  pl_kept :: "jobj list"
  pl_deleted :: "jobj list"
  pl_records :: "(ustr \<times> jobj) list"

definition points_of :: "survey \<Rightarrow> rpoint list" where
  "points_of sv = map (\<lambda>(i, m). \<lparr>rp_id = id_of m, rp_frozen = jget m ''frozen_at'',
     rp_generations = map text_of (elems (jget m ''generations''))\<rparr>) (all_markers sv)"

definition is_keep :: "decision option \<Rightarrow> bool" where
  "is_keep d = (case d of Some (Keep _) \<Rightarrow> True | _ \<Rightarrow> False)"

definition rotation_plan :: "'r rotation \<Rightarrow> ustr \<Rightarrow> survey \<Rightarrow> bexc + rplan" where
  "rotation_plan ro timezone sv =
     (let protected = protected_verified sv;
          journal_ids = map fst (sv_journal sv)
      in if (case protected of None \<Rightarrow> False | Some i \<Rightarrow> i \<in> set journal_ids)
         then Inl (SafetyError ''protected verified point has a deletion journal; object integrity is unproven'')
         else andthen (retention_decisions (ro_env ro) (ro_now ro) timezone protected (points_of sv)) (\<lambda>d.
           if list_ex (\<lambda>i. d i \<noteq> Some Delete_Expired) journal_ids
           then Inl (SafetyError ''deletion journal no longer satisfies retention policy'')
           else let d1 = foldl (\<lambda>m i. m(i \<mapsto> Delete_Resuming)) d journal_ids;
                    d2 = foldl (\<lambda>m i. m(i \<mapsto> Delete_Finalizing)) d1 (sv_finalizing sv);
                    markers = map snd (filter (\<lambda>x. fst x \<notin> set journal_ids) (sv_complete sv));
                    deleted = filter (\<lambda>m. d2 (id_of m) = Some Delete_Expired) markers
                in Inr \<lparr>pl_decisions = d2, pl_kept = filter (\<lambda>m. is_keep (d2 (id_of m))) markers, pl_deleted = deleted,
                        pl_records = foldl (\<lambda>acc m. dset (id_of m) m acc) (sv_journal sv) deleted\<rparr>))"

definition referenced :: "rplan \<Rightarrow> ustr list" where
  "referenced pl = concat (map keys_of (pl_kept pl))"

definition record_targets :: "'r rotation \<Rightarrow> survey \<Rightarrow> rplan \<Rightarrow> ustr \<times> jobj \<Rightarrow> ustr list" where
  "record_targets ro sv pl x =
     (let backup_id = fst x; m = snd x; manifest = text_of (jget m ''manifest_key'')
      in [control_path ro ''complete'' backup_id]
         @ map (key_path ro) (filter (\<lambda>k. k \<noteq> manifest \<and> k \<notin> set (referenced pl)) (keys_of m))
         @ (if backup_id \<in> set (sv_verified sv) \<and> protected_verified sv \<noteq> Some backup_id then [control_path ro ''verified'' backup_id] else [])
         @ (if manifest \<notin> set (referenced pl) then [key_path ro manifest] else [])
         @ [control_path ro ''deleting'' backup_id])"

definition delete_targets :: "'r rotation \<Rightarrow> survey \<Rightarrow> rplan \<Rightarrow> ustr list" where
  "delete_targets ro sv pl = concat (map (record_targets ro sv pl) (pl_records pl))
     @ map (control_path ro ''deleting'') (sort (sv_finalizing sv))"

section \<open>The rotation\<close>

definition setup_checks :: "'r rotation \<Rightarrow> bexc + unit" where
  "setup_checks ro = checks
     [demand (ro_authorized ro) ''delete identity is allowed only in an independent authorized environment'',
      demand (ro_config_private ro) ''delete identity config must have mode 0600'',
      demand (ro_identity_present ro) ''offline age identity is missing'',
      demand (ro_identity_private ro) ''offline age identity must be a regular mode-0600 operator-owned file'',
      demand (ro_manifest_key ro \<noteq> None) ''manifest verification key is missing'',
      demand (ro_manifest_key_private ro \<and> length (the (ro_manifest_key ro)) = 32)
        ''manifest verification key must be a regular mode-0600 operator-owned 32-byte file'',
      demand (ro_restore_key ro \<noteq> None) ''restore verification key is missing'',
      demand (ro_restore_key_private ro \<and> length (the (ro_restore_key ro)) = 32)
        ''restore verification key must be a regular mode-0600 operator-owned 32-byte file'',
      demand (58 \<in> set (ro_remote ro) \<and> \<not> starts_with (u ''local:'') (ro_remote ro)) ''retention requires an S3-compatible rclone remote'']"

text \<open>Everything before the first write.\<close>

definition take_survey :: "'r rotation \<Rightarrow> ustr \<Rightarrow> ('r, survey) ract" where
  "take_survey ro timezone =
     seq (validated_completion_records ro timezone) (\<lambda>complete.
     seq (validated_journal_records ro timezone) (\<lambda>(journal, finalizing).
     seq (validated_verified_ids ro (foldl (\<lambda>acc (k, v). dset k v acc) complete journal)) (\<lambda>verified.
       result (Inr \<lparr>sv_complete = complete, sv_journal = journal, sv_finalizing = finalizing, sv_verified = verified\<rparr>))))"

definition prepare_rotation :: "'r rotation \<Rightarrow> ('r, survey \<times> rplan) ract" where
  "prepare_rotation ro =
     seq (result (setup_checks ro)) (\<lambda>_.
     seq (result (ro_contract ro)) (\<lambda>timezone.
     seq (take_survey ro timezone) (\<lambda>sv.
     seq (result (rotation_plan ro timezone sv)) (\<lambda>pl. result (Inr (sv, pl))))))"

definition publish_journals :: "'r rotation \<Rightarrow> rplan \<Rightarrow> ('r, unit) ract" where
  "publish_journals ro pl = loop (\<lambda>m _. publish_and_verify_journal ro (control_path ro ''deleting'' (id_of m)) m) (pl_deleted pl) ()"

definition rotate :: "'r rotation \<Rightarrow> ('r, (ustr \<rightharpoonup> decision) \<times> ustr list \<times> bool) ract" where
  "rotate ro =
     seq (prepare_rotation ro) (\<lambda>(sv, pl).
     seq (if ro_dry_run ro then result (Inr ()) else publish_journals ro pl) (\<lambda>_.
     seq (if ro_dry_run ro then result (Inr ()) else loop (\<lambda>t _. delete_if_present ro t) (delete_targets ro sv pl) ()) (\<lambda>_.
       result (Inr (pl_decisions pl, delete_targets ro sv pl, ro_dry_run ro)))))"

end
