(* ===== verification/Bk_Safety.thy ===== *)
theory Bk_Safety
  imports Bk_Rotate "HOL-Library.Sublist"
begin

text \<open>
  What a rotation can do to the remote: first for every remote, from the commands it gives, then for a remote that keeps files
  the way \<open>rclone\<close> documents, where every state a crash can leave is the state after a beginning of the plan.
\<close>

lemma subseq_members: "subseq xs ys \<Longrightarrow> set xs \<subseteq> set ys"
  by (induction rule: list_emb.induct) auto

section \<open>Commands that write\<close>

fun is_write :: "rcmd \<Rightarrow> bool" where
  "is_write (Copy_To _ _) = True"
| "is_write (Delete_File _) = True"
| "is_write _ = False"

definition writes :: "'r rstate \<Rightarrow> rcmd list" where
  "writes s = filter is_write (map fst (rs_trace s))"

lemma writes_step [simp]: "writes (s\<lparr>rs_remote := r, rs_trace := rs_trace s @ [(c, a)]\<rparr>) = writes s @ (if is_write c then [c] else [])"
  by (simp add: writes_def)

section \<open>A lawful remote\<close>

text \<open>
  \<open>files\<close> gives the files a remote holds. Reading commands report them and change nothing; a write that is refused or during which the process
  dies may have taken effect or not.
\<close>

fun answer_ok :: "(ustr \<rightharpoonup> blob) \<Rightarrow> rcmd \<Rightarrow> rans \<Rightarrow> (ustr \<rightharpoonup> blob) \<Rightarrow> bool" where
  "answer_ok v (Cat p) a v' \<longleftrightarrow> v' = v \<and> (\<forall>b. a = Text b \<longrightarrow> v p = Some b)"
| "answer_ok v (Copy_From p) a v' \<longleftrightarrow> v' = v \<and> (\<forall>b. a = Text b \<longrightarrow> v p = Some b)"
| "answer_ok v (Lsf d) a v' \<longleftrightarrow> v' = v \<and> (\<forall>ns n. a = Lines ns \<longrightarrow> 47 \<notin> set n \<longrightarrow> n \<noteq> [] \<longrightarrow> (n \<in> set ns \<longleftrightarrow> v (d @ [47] @ n) \<noteq> None))"
| "answer_ok v (Copy_To p b) a v' \<longleftrightarrow> v' = v(p \<mapsto> b) \<or> a \<in> {Refused, Dead} \<and> v' = v"
| "answer_ok v (Delete_File p) a v' \<longleftrightarrow> v' = v(p := None) \<or> a \<in> {Refused, Dead} \<and> v' = v"

definition lawful :: "'r rclone \<Rightarrow> ('r \<Rightarrow> ustr \<rightharpoonup> blob) \<Rightarrow> bool" where
  "lawful rc files \<longleftrightarrow> (\<forall>c r. answer_ok (files r) c (fst (rc c r)) (files (snd (rc c r)))) \<and> (\<forall>r d. files r (d @ [47]) = None)"

lemma wp_ask: "wp (ask ro c) Q E s = (case ro_rclone ro c (rs_remote s) of (a, r) \<Rightarrow>
    if a = Dead then E Bk_Killed (s\<lparr>rs_remote := r, rs_trace := rs_trace s @ [(c, a)]\<rparr>)
    else Q a (s\<lparr>rs_remote := r, rs_trace := rs_trace s @ [(c, a)]\<rparr>))"
  by (simp add: wp_def ask_def split: prod.splits)

section \<open>Surveys\<close>

text \<open>A state in which the writes given so far are \<open>w\<close> and, on a lawful remote, the files are \<open>v\<close>.\<close>

definition calm :: "'r rotation \<Rightarrow> ('r \<Rightarrow> ustr \<rightharpoonup> blob) \<Rightarrow> (ustr \<rightharpoonup> blob) \<Rightarrow> rcmd list \<Rightarrow> 'r rstate \<Rightarrow> bool" where
  "calm ro files v w s \<longleftrightarrow> writes s = w \<and> (lawful (ro_rclone ro) files \<longrightarrow> files (rs_remote s) = v)"

text \<open>An action that writes nothing and whose value, if it returns one, satisfies \<open>P\<close>.\<close>

definition surveys :: "'r rotation \<Rightarrow> ('r \<Rightarrow> ustr \<rightharpoonup> blob) \<Rightarrow> (ustr \<rightharpoonup> blob) \<Rightarrow> ('r, 'a) ract \<Rightarrow> ('a \<Rightarrow> bool) \<Rightarrow> bool" where
  "surveys ro files v m P \<longleftrightarrow> (\<forall>w s. calm ro files v w s \<longrightarrow> wp m (\<lambda>x t. calm ro files v w t \<and> P x) (\<lambda>_. calm ro files v w) s)"

lemma surveys_seq: "surveys ro files v m P \<Longrightarrow> (\<And>x. P x \<Longrightarrow> surveys ro files v (k x) Q) \<Longrightarrow> surveys ro files v (seq m k) Q"
  unfolding surveys_def wp_seq by (blast intro: wp_mono)

lemma surveys_result: "(\<And>x. r = Inr x \<Longrightarrow> P x) \<Longrightarrow> surveys ro files v (result r) P"
  unfolding surveys_def by (blast intro: wp_resultI)

lemma surveys_returns: "surveys ro files v (result r) (\<lambda>x. r = Inr x)"
  by (rule surveys_result)

lemma surveys_if: "(b \<Longrightarrow> surveys ro files v m P) \<Longrightarrow> (\<not> b \<Longrightarrow> surveys ro files v k P) \<Longrightarrow> surveys ro files v (if b then m else k) P"
  by simp

lemma surveys_weaken: "surveys ro files v m P \<Longrightarrow> (\<And>x. P x \<Longrightarrow> Q x) \<Longrightarrow> surveys ro files v m Q"
  unfolding surveys_def by (blast intro: wp_mono)

lemma surveys_loop:
  assumes "\<And>x acc. x \<in> set xs \<Longrightarrow> P acc \<Longrightarrow> surveys ro files v (f x acc) P" "P acc"
  shows "surveys ro files v (loop f xs acc) P"
  unfolding surveys_def using assms
  by (auto intro!: wp_loop [where I = "\<lambda>_ acc t. calm ro files v _ t \<and> P acc"] simp: surveys_def)

lemma surveys_ask:
  assumes "\<not> is_write c"
  shows "surveys ro files v (ask ro c) (\<lambda>a. lawful (ro_rclone ro) files \<longrightarrow> answer_ok v c a v \<and> (\<forall>d. v (d @ [47]) = None))"
proof -
  have "files (snd (ro_rclone ro c r)) = files r" if "lawful (ro_rclone ro) files" for r
    using that assms by (cases c) (auto simp: lawful_def dest: spec [of _ c])
  then show ?thesis
    using assms by (auto simp: surveys_def wp_ask calm_def lawful_def split: prod.splits) (metis fst_conv snd_conv)+
qed

section \<open>Paths and items\<close>

lemma path_parts: "47 \<notin> set n \<Longrightarrow> parent_of (p @ [47] @ n) = p \<and> name_of (p @ [47] @ n) = n"
proof -
  assume "47 \<notin> set n"
  then have *: "x \<in> set (rev n) \<Longrightarrow> (\<lambda>c. c \<noteq> 47) x" for x by auto
  from dropWhile_append2 [of "rev n" "\<lambda>c. c \<noteq> 47", OF *, of "47 # rev p"] takeWhile_append2 [of "rev n" "\<lambda>c. c \<noteq> 47", OF *, of "47 # rev p"]
  show ?thesis
    by (simp add: parent_of_def name_of_def)
qed

lemma path_split:
  assumes "47 \<in> set p"
  shows "parent_of p @ [47] @ name_of p = p" "47 \<notin> set (name_of p)"
proof -
  obtain a b where "p = a @ [47] @ b" "47 \<notin> set b" using split_list_last [OF assms] by auto
  with path_parts [of b a] show "parent_of p @ [47] @ name_of p = p" "47 \<notin> set (name_of p)" by simp_all
qed

lemma backup_id_no_slash:
  assumes "BACKUP_ID i"
  shows "47 \<notin> set (i @ u ''.json'')"
proof -
  have parts: "i = take 8 i @ [i ! 8] @ take 6 (drop 9 i) @ [i ! 15, i ! 16] @ drop 17 i"
  proof (rule nth_equalityI)
    show "length i = length (take 8 i @ [i ! 8] @ take 6 (drop 9 i) @ [i ! 15, i ! 16] @ drop 17 i)"
      using assms by (simp add: BACKUP_ID_def)
    show "i ! n = (take 8 i @ [i ! 8] @ take 6 (drop 9 i) @ [i ! 15, i ! 16] @ drop 17 i) ! n" if "n < length i" for n
    proof -
      consider "n < 8" | "n = 8" | "9 \<le> n \<and> n < 15" | "n = 15" | "n = 16" | "16 < n" by linarith
      then show ?thesis
        using that assms by cases (auto simp: nth_append nth_Cons' BACKUP_ID_def)
    qed
  qed
  have "47 \<notin> set (take 8 i @ [i ! 8] @ take 6 (drop 9 i) @ [i ! 15, i ! 16] @ drop 17 i)"
    using assms by (auto simp: BACKUP_ID_def hex_text_def is_hex_def is_digit_def list_all_iff)
  then show ?thesis by (subst parts) simp
qed

lemma marker_id_Inr:
  assumes "marker_id name = Inr i" "ends_with (u ''.json'') name"
  shows "name = i @ u ''.json''" "BACKUP_ID i"
proof -
  have "u ''.json'' \<noteq> []" by simp
  with assms show "name = i @ u ''.json''" "BACKUP_ID i"
    by (auto simp: marker_id_def Let_def returns validate_backup_id_def remove_suffix_def ends_with_def simp del: u_Cons)
      (metis append_take_drop_id)
qed

lemma dset_keys: "fst ` set (dset k v xs) = insert k (fst ` set xs)" "distinct (map fst xs) \<Longrightarrow> distinct (map fst (dset k v xs))"
  by (induction xs) auto

lemma dset_items: "x \<in> set (dset k v xs) \<Longrightarrow> x = (k, v) \<or> x \<in> set xs"
  by (induction xs) (auto split: if_splits)

section \<open>What a survey finds\<close>

definition cas_key :: "ustr \<Rightarrow> ustr \<Rightarrow> bool" where
  "cas_key p k \<longleftrightarrow> starts_with (cas_root p) k"

text \<open>A trusted record names itself, its manifest and data of its own point or content-addressed data.\<close>

definition record_ok :: "'r rotation \<Rightarrow> ustr \<Rightarrow> jobj \<Rightarrow> bool" where
  "record_ok ro i m \<longleftrightarrow> BACKUP_ID i \<and> id_of m = i \<and> jget m ''manifest_key'' = JStr (manifest_key (normalized_prefix ro) i)
     \<and> manifest_key (normalized_prefix ro) i \<in> set (keys_of m)
     \<and> (\<forall>k \<in> set (keys_of m). k \<in> set (point_keys (normalized_prefix ro) i) \<or> cas_key (normalized_prefix ro) k)
     \<and> (\<exists>frozen timezone. valid_datetime frozen \<and> ro_contract ro = Inr timezone \<and> jget m ''frozen_at'' = JStr (format_time frozen)
         \<and> jget m ''generations'' = JArr (map JStr (sort (generation_tags (ro_env ro) frozen timezone))))"

lemma retention_record_ok:
  assumes "retention_record (ro_env ro) m i (normalized_prefix ro) timezone vk key_id = Inr r" "ro_contract ro = Inr timezone"
  shows "record_ok ro i r"
proof -
  define p where "p = normalized_prefix ro"
  have strip: "strip_char 47 (normalized_prefix ro) = p" by (simp add: normalized_prefix_def p_def)
  from retention_record_Inr [OF assms(1), unfolded strip] obtain ks frozen where r: "BACKUP_ID i" "jget r ''backup_id'' = JStr i"
    "jget r ''manifest_key'' = JStr (manifest_key p i)" "paired p i (text_of (jget m ''recipient_key_id'')) ks"
    "jget r ''object_keys'' = JArr (map JStr (sorted_set (point_keys p i @ ks)))"
    and dated: "valid_datetime frozen" "jget r ''frozen_at'' = JStr (format_time frozen)"
    "jget r ''generations'' = JArr (map JStr (sort (generation_tags (ro_env ro) frozen timezone)))" by metis
  have "cas_key p (cas_root p @ x)" for x by (simp add: cas_key_def starts_with_def)
  with r(4) have "k \<in> set (point_keys p i) \<or> cas_key p k" if "k \<in> set ks" for k
    using that unfolding paired_def by blast
  moreover have "set (keys_of r) = set (point_keys p i) \<union> set ks" by (simp add: keys_of_def r(5) sorted_set_simps comp_def)
  ultimately show ?thesis
    using r(1-3) dated assms(2) by (auto simp: record_ok_def id_of_def p_def [symmetric] simp del: u_Cons) (simp_all add: point_keys_def)
qed

lemma surveys_read: "surveys ro files v (read_remote_json ro p) (\<lambda>_. lawful (ro_rclone ro) files \<longrightarrow> v p \<noteq> None)"
  unfolding read_remote_json_def by (rule surveys_seq [OF surveys_ask]) (auto intro!: surveys_result split: rans.splits)

lemma surveys_list:
  "surveys ro files v (list_files ro d description)
     (\<lambda>ns. lawful (ro_rclone ro) files \<longrightarrow> (\<forall>n. 47 \<notin> set n \<longrightarrow> n \<in> set ns \<longleftrightarrow> v (d @ [47] @ n) \<noteq> None))"
proof -
  have "n \<in> set (filter (\<lambda>n. n \<noteq> []) ns) \<longleftrightarrow> v (d @ [47] @ n) \<noteq> None"
    if "\<forall>n. 47 \<notin> set n \<longrightarrow> n \<noteq> [] \<longrightarrow> (n \<in> set ns \<longleftrightarrow> v (d @ [47] @ n) \<noteq> None)" "\<forall>d. v (d @ [47]) = None" "47 \<notin> set n" for n ns
    using that by (cases "n = []") auto
  then show ?thesis
    unfolding list_files_def by (intro surveys_seq [OF surveys_ask]) (auto intro!: surveys_result split: rans.splits)
qed

lemma surveys_exists:
  assumes "47 \<in> set p"
  shows "surveys ro files v (remote_file_exists ro p) (\<lambda>b. lawful (ro_rclone ro) files \<longrightarrow> b \<longleftrightarrow> v p \<noteq> None)"
  unfolding remote_file_exists_def
  by (rule surveys_seq [OF surveys_list]) (use path_split [OF assms] in \<open>auto intro!: surveys_result\<close>)

lemma surveys_record:
  assumes "ro_contract ro = Inr timezone"
  shows "surveys ro files v (authenticated_retention_record ro timezone i) (record_ok ro i)"
  unfolding authenticated_retention_record_def
  by (rule surveys_seq [OF surveys_ask], simp, rule surveys_seq [OF surveys_result, of _ "\<lambda>_. True"], simp)
    (auto intro!: surveys_result dest: retention_record_ok [OF _ assms] split: if_splits)

definition complete_found :: "'r rotation \<Rightarrow> ('r \<Rightarrow> ustr \<rightharpoonup> blob) \<Rightarrow> (ustr \<rightharpoonup> blob) \<Rightarrow> string \<Rightarrow> (ustr \<times> jobj) list \<Rightarrow> bool" where
  "complete_found ro files v kind xs \<longleftrightarrow> distinct (map fst xs)
     \<and> (\<forall>(i, m) \<in> set xs. record_ok ro i m \<and> (lawful (ro_rclone ro) files \<longrightarrow> v (control_path ro kind i) \<noteq> None))"

lemma found_dset:
  "complete_found ro files v kind xs \<Longrightarrow> record_ok ro i m \<Longrightarrow> (lawful (ro_rclone ro) files \<longrightarrow> v (control_path ro kind i) \<noteq> None) \<Longrightarrow>
     complete_found ro files v kind (dset i m xs)"
  unfolding complete_found_def by (auto dest!: dset_items simp: dset_keys(2))

text \<open>The file a marker is read from is the control file of its identity.\<close>

lemma marker_path:
  assumes "marker_id name = Inr i" "ends_with (u ''.json'') name"
  shows "remote_base ro @ u ''/complete/'' @ name = control_path ro ''complete'' i"
    "remote_base ro @ u ''/deleting/'' @ name = control_path ro ''deleting'' i"
  using marker_id_Inr(1) [OF assms] by (simp_all add: control_path_def)

lemmas survey_steps = surveys_seq [OF surveys_returns] surveys_seq [OF surveys_read]

lemma surveys_completions:
  assumes "ro_contract ro = Inr timezone"
  shows "surveys ro files v (validated_completion_records ro timezone) (complete_found ro files v ''complete'')"
proof -
  note record_step = surveys_seq [OF surveys_record [OF assms]]
  have "surveys ro files v (completion_round ro timezone name acc) (complete_found ro files v ''complete'')"
    if acc: "complete_found ro files v ''complete'' acc" for name acc
    unfolding completion_round_def
    by (rule surveys_if, rule surveys_result, use acc in simp, (rule survey_steps record_step)+, rule surveys_result)
      (use acc in \<open>auto intro!: found_dset dest: marker_path(1) [of _ _ ro] simp del: u_Cons\<close>)
  then show ?thesis
    unfolding validated_completion_records_def
    by (intro surveys_seq [OF surveys_list] surveys_loop) (simp_all add: complete_found_def)
qed


definition journal_found :: "'r rotation \<Rightarrow> ('r \<Rightarrow> ustr \<rightharpoonup> blob) \<Rightarrow> (ustr \<rightharpoonup> blob) \<Rightarrow> (ustr \<times> jobj) list \<times> ustr list \<Rightarrow> bool" where
  "journal_found ro files v x \<longleftrightarrow> complete_found ro files v ''deleting'' (fst x)
     \<and> (\<forall>i \<in> set (snd x). lawful (ro_rclone ro) files \<longrightarrow> v (control_path ro ''complete'' i) = None)"

lemma surveys_journals:
  assumes "ro_contract ro = Inr timezone"
  shows "surveys ro files v (validated_journal_records ro timezone) (journal_found ro files v)"
proof -
  note record_step = surveys_seq [OF surveys_record [OF assms]]
  have slash: "47 \<in> set (control_path ro kind i)" "47 \<in> set (key_path ro k)" for kind i k
    by (simp_all add: control_path_def key_path_def)
  have "surveys ro files v (journal_round ro timezone name acc) (journal_found ro files v)"
    if acc: "journal_found ro files v acc" for name acc
    unfolding journal_round_def
    apply (rule surveys_if, rule surveys_result, use acc in simp, rule survey_steps, rule surveys_seq [OF surveys_exists [OF slash(2)]],
       rule surveys_if)
    subgoal for i present
      apply (rule surveys_seq [OF surveys_exists [OF slash(1)]])
      subgoal for complete
        apply (rule surveys_seq [of _ _ _ _ "\<lambda>c. complete \<longrightarrow> c"])
         apply (rule surveys_if, rule surveys_result, simp, rule surveys_weaken [OF surveys_exists [OF slash(1)]], simp)
        apply (rule surveys_result)
        using acc by (auto simp: journal_found_def split: if_splits)
      done
    subgoal for i present
      apply ((rule survey_steps record_step)+, rule surveys_result)
      using acc by (auto simp: journal_found_def split: if_splits simp del: u_Cons intro!: found_dset dest!: marker_path(2) [of _ _ ro])
    done
  then show ?thesis
    unfolding validated_journal_records_def
    by (intro surveys_seq [OF surveys_list] surveys_loop) (simp_all add: complete_found_def journal_found_def)
qed

lemma map_of_known: "map_of xs k = Some v \<Longrightarrow> k \<in> fst ` set xs"
  by (force dest: map_of_SomeD)

lemma surveys_verified: "surveys ro files v (validated_verified_ids ro markers) (\<lambda>is. set is \<subseteq> set (map fst markers))"
proof -
  have "surveys ro files v (verified_round ro markers name acc) (\<lambda>is. set is \<subseteq> set (map fst markers))"
    if acc: "set acc \<subseteq> set (map fst markers)" for name acc
    unfolding verified_round_def
    by (rule surveys_if, rule surveys_result, use acc in simp, (rule survey_steps)+, rule surveys_result)
      (use acc in \<open>auto split: option.splits if_splits dest: map_of_known\<close>)
  then show ?thesis
    unfolding validated_verified_ids_def
    by (intro surveys_seq [OF surveys_list] surveys_loop) simp_all
qed

lemma foldl_dset:
  "fst ` set (foldl (\<lambda>acc (k, v). dset k v acc) xs ys) = fst ` set xs \<union> fst ` set ys"
  "distinct (map fst xs) \<Longrightarrow> distinct (map fst (foldl (\<lambda>acc (k, v). dset k v acc) xs ys))"
  "z \<in> set (foldl (\<lambda>acc (k, v). dset k v acc) xs ys) \<Longrightarrow> z \<in> set xs \<or> z \<in> set ys"
proof (induction ys arbitrary: xs rule: list.induct)
  case (Cons y ys)
  {
    case 1
    from Cons.IH(1) [of "dset (fst y) (snd y) xs"] show ?case by (auto simp: dset_keys split_beta)
  next
    case 2
    from Cons.IH(2) [of "dset (fst y) (snd y) xs"] 2 show ?case by (simp add: dset_keys split_beta)
  next
    case 3
    from Cons.IH(3) [of "dset (fst y) (snd y) xs"] 3 show ?case by (auto simp: split_beta dest!: dset_items)
  }
qed simp_all

text \<open>What holds of a survey.\<close>

definition survey_ok :: "'r rotation \<Rightarrow> ('r \<Rightarrow> ustr \<rightharpoonup> blob) \<Rightarrow> (ustr \<rightharpoonup> blob) \<Rightarrow> survey \<Rightarrow> bool" where
  "survey_ok ro files v sv \<longleftrightarrow> complete_found ro files v ''complete'' (sv_complete sv)
     \<and> journal_found ro files v (sv_journal sv, sv_finalizing sv) \<and> set (sv_verified sv) \<subseteq> set (map fst (all_markers sv))"

lemma surveys_survey: "ro_contract ro = Inr timezone \<Longrightarrow> surveys ro files v (take_survey ro timezone) (survey_ok ro files v)"
  unfolding take_survey_def
  apply (rule surveys_seq [OF surveys_completions], assumption)
  subgoal for complete
    apply (rule surveys_seq [OF surveys_journals], assumption)
    subgoal for x
      by (cases x) (auto intro!: surveys_seq [OF surveys_verified] surveys_result simp: survey_ok_def all_markers_def simp del: set_map)
    done
  done

lemma surveys_prepare:
  "surveys ro files v (prepare_rotation ro) (\<lambda>(sv, pl). survey_ok ro files v sv \<and> (\<exists>timezone. ro_contract ro = Inr timezone \<and> rotation_plan ro timezone sv = Inr pl))"
  unfolding prepare_rotation_def
  by (rule surveys_seq [OF surveys_returns], rule surveys_seq [OF surveys_returns], rule surveys_seq [OF surveys_survey], assumption,
      rule surveys_seq [OF surveys_returns], rule surveys_result) auto

section \<open>Which files the plan names\<close>

lemma control_path_eq:
  "control_path ro kind i = control_path ro kind j \<longleftrightarrow> i = j"
  "control_path ro ''complete'' i \<noteq> control_path ro ''verified'' j" "control_path ro ''complete'' i \<noteq> control_path ro ''deleting'' j"
  "control_path ro ''verified'' i \<noteq> control_path ro ''complete'' j" "control_path ro ''verified'' i \<noteq> control_path ro ''deleting'' j"
  "control_path ro ''deleting'' i \<noteq> control_path ro ''complete'' j" "control_path ro ''deleting'' i \<noteq> control_path ro ''verified'' j"
  by (simp_all add: control_path_def)

lemma key_path_eq: "key_path ro k = key_path ro l \<longleftrightarrow> k = l"
  by (simp add: key_path_def)

lemma key_not_control:
  assumes "k \<in> set (point_keys (normalized_prefix ro) i) \<or> cas_key (normalized_prefix ro) k"
  shows "key_path ro k \<noteq> control_path ro ''complete'' j" "key_path ro k \<noteq> control_path ro ''verified'' j"
    "key_path ro k \<noteq> control_path ro ''deleting'' j"
proof -
  have "\<exists>x. k = normalized_prefix ro @ u ''/points/'' @ x \<or> k = normalized_prefix ro @ u ''/objects/'' @ x"
    using assms by (auto simp: point_keys_def manifest_key_def point_root_def cas_key_def cas_root_def dest!: starts_withE)
  then show "key_path ro k \<noteq> control_path ro ''complete'' j" "key_path ro k \<noteq> control_path ro ''verified'' j"
    "key_path ro k \<noteq> control_path ro ''deleting'' j"
    by (auto simp: key_path_def control_path_def remote_base_def)
qed

lemma record_keys:
  assumes "record_ok ro i m" "k \<in> set (keys_of m)"
  shows "key_path ro k \<noteq> control_path ro ''complete'' j" "key_path ro k \<noteq> control_path ro ''verified'' j"
    "key_path ro k \<noteq> control_path ro ''deleting'' j"
  using assms key_not_control [of k ro i j] by (auto simp: record_ok_def)

lemma foldl_id_dset: "fst ` set (foldl (\<lambda>acc m. dset (id_of m) m acc) xs ms) = fst ` set xs \<union> id_of ` set ms"
  "z \<in> set (foldl (\<lambda>acc m. dset (id_of m) m acc) xs ms) \<Longrightarrow> z \<in> set xs \<or> snd z \<in> set ms \<and> fst z = id_of (snd z)"
proof (induction ms arbitrary: xs)
  case (Cons m ms)
  {
    case 1
    from Cons.IH(1) [of "dset (id_of m) m xs"] show ?case by (auto simp: dset_keys)
  next
    case 2
    from Cons.IH(2) [of "dset (id_of m) m xs"] 2 show ?case by (auto dest!: dset_items)
  }
qed simp_all

lemma foldl_upd: "foldl (\<lambda>m i. m(i \<mapsto> c)) d is = (\<lambda>j. if j \<in> set is then Some c else d j)"
  by (induction "is" arbitrary: d) auto

lemma decisions_values: "retention_decisions env now timezone protected ps = Inr d \<Longrightarrow> d i = None \<or> is_keep (d i) \<or> d i = Some Delete_Expired"
  by (induction ps arbitrary: d) (auto simp: returns decide_point_def is_keep_def Let_def split: sum.splits option.splits if_splits)

definition plan_from :: "survey \<Rightarrow> (ustr \<rightharpoonup> decision) \<Rightarrow> rplan" where
  "plan_from sv d = (let journal_ids = map fst (sv_journal sv); d1 = foldl (\<lambda>m i. m(i \<mapsto> Delete_Resuming)) d journal_ids;
      d2 = foldl (\<lambda>m i. m(i \<mapsto> Delete_Finalizing)) d1 (sv_finalizing sv);
      markers = map snd (filter (\<lambda>x. fst x \<notin> set journal_ids) (sv_complete sv)); deleted = filter (\<lambda>m. d2 (id_of m) = Some Delete_Expired) markers
    in \<lparr>pl_decisions = d2, pl_kept = filter (\<lambda>m. is_keep (d2 (id_of m))) markers, pl_deleted = deleted,
        pl_records = foldl (\<lambda>acc m. dset (id_of m) m acc) (sv_journal sv) deleted\<rparr>)"

lemma rotation_plan_Inr:
  assumes "rotation_plan ro timezone sv = Inr pl"
  shows "\<exists>d. retention_decisions (ro_env ro) (ro_now ro) timezone (protected_verified sv) (points_of sv) = Inr d \<and> pl = plan_from sv d
    \<and> (\<forall>i. protected_verified sv = Some i \<longrightarrow> i \<notin> fst ` set (sv_journal sv))"
  using assms unfolding rotation_plan_def plan_from_def [symmetric, unfolded Let_def] Let_def
  by (cases "protected_verified sv") (auto simp: returns eq_commute [of pl] split: if_splits)

lemma plan_records:
  assumes "rotation_plan ro timezone sv = Inr pl" "survey_ok ro files v sv"
  shows "m \<in> set (pl_kept pl) \<Longrightarrow> \<exists>i. (i, m) \<in> set (sv_complete sv) \<and> record_ok ro i m \<and> i \<notin> fst ` set (pl_records pl) \<and> i \<notin> set (sv_finalizing sv)"
    and "(j, x) \<in> set (pl_records pl) \<Longrightarrow> record_ok ro j x"
    and "m \<in> set (pl_deleted pl) \<Longrightarrow> \<exists>i. (i, m) \<in> set (sv_complete sv) \<and> record_ok ro i m \<and> i \<in> fst ` set (pl_records pl)"
    and "fst ` set (pl_records pl) = fst ` set (sv_journal sv) \<union> id_of ` set (pl_deleted pl)"
    and "(i, m) \<in> set (sv_complete sv) \<Longrightarrow> i \<in> fst ` set (pl_records pl) \<or> m \<in> set (pl_kept pl) \<or> i \<in> set (sv_finalizing sv)"
proof -
  let ?J = "map fst (sv_journal sv)"
  from rotation_plan_Inr [OF assms(1)] obtain d where
    d: "retention_decisions (ro_env ro) (ro_now ro) timezone (protected_verified sv) (points_of sv) = Inr d" and pl: "pl = plan_from sv d" by blast
  note pl = pl [unfolded plan_from_def]
  have ok: "record_ok ro i m \<and> id_of m = i" if "(i, m) \<in> set (sv_complete sv) \<or> (i, m) \<in> set (sv_journal sv)" for i m
    using that assms(2) by (auto simp: survey_ok_def complete_found_def journal_found_def record_ok_def)
  have known: "d i \<noteq> None" if "(i, m) \<in> set (sv_complete sv)" for i m
  proof -
    have "i \<in> fst ` set (all_markers sv)" using that by (force simp: all_markers_def foldl_dset)
    then obtain x where x: "(i, x) \<in> set (all_markers sv)" by auto
    then have "id_of x = i" using ok foldl_dset(3) by (fastforce simp: all_markers_def)
    with x have "i \<in> rp_id ` set (points_of sv)" by (force simp: points_of_def)
    with decisions_known [OF d] show ?thesis by simp
  qed
  note defs = pl foldl_upd Let_def foldl_id_dset
  show recs: "fst ` set (pl_records pl) = fst ` set (sv_journal sv) \<union> id_of ` set (pl_deleted pl)"
    by (simp add: defs)
  show "\<exists>i. (i, m) \<in> set (sv_complete sv) \<and> record_ok ro i m \<and> i \<notin> fst ` set (pl_records pl) \<and> i \<notin> set (sv_finalizing sv)" if "m \<in> set (pl_kept pl)"
  proof -
    from that obtain i where i: "(i, m) \<in> set (sv_complete sv)" "i \<notin> set ?J" and keep: "is_keep (pl_decisions pl (id_of m))"
      by (auto simp: pl Let_def)
    have m: "record_ok ro i m" "id_of m = i" using ok i(1) by blast+
    have "i \<notin> set (sv_finalizing sv)" using keep m(2) by (auto simp: pl Let_def foldl_upd is_keep_def)
    moreover have "pl_decisions pl (id_of x) = Some Delete_Expired" if "x \<in> set (pl_deleted pl)" for x
      using that by (simp add: pl Let_def)
    then have "i \<notin> id_of ` set (pl_deleted pl)" using keep m(2) by (auto simp: is_keep_def)
    then have "i \<notin> fst ` set (pl_records pl)" using i(2) by (simp add: pl Let_def foldl_id_dset)
    ultimately show ?thesis using i(1) m(1) by blast
  qed
  show "\<exists>i. (i, m) \<in> set (sv_complete sv) \<and> record_ok ro i m \<and> i \<in> fst ` set (pl_records pl)" if "m \<in> set (pl_deleted pl)"
  proof -
    from that obtain i where i: "(i, m) \<in> set (sv_complete sv)" by (auto simp: pl Let_def)
    with ok have "record_ok ro i m" "id_of m = i" by blast+
    with i that recs show ?thesis by blast
  qed
  show "record_ok ro j x" if "(j, x) \<in> set (pl_records pl)"
  proof -
    from that have "(j, x) \<in> set (sv_journal sv) \<or> x \<in> set (pl_deleted pl) \<and> j = id_of x"
      unfolding pl Let_def rplan.simps by (auto dest!: foldl_id_dset(2))
    with ok show ?thesis by (fastforce simp: pl Let_def)
  qed
  show "i \<in> fst ` set (pl_records pl) \<or> m \<in> set (pl_kept pl) \<or> i \<in> set (sv_finalizing sv)" if "(i, m) \<in> set (sv_complete sv)"
  proof (cases "i \<in> set ?J \<or> i \<in> set (sv_finalizing sv)")
    case True
    then show ?thesis by (auto simp: pl Let_def foldl_id_dset)
  next
    case False
    with that have m: "m \<in> set (map snd (filter (\<lambda>x. fst x \<notin> set ?J) (sv_complete sv)))" by force
    have "id_of m = i" using ok that by blast
    with False have dec: "pl_decisions pl (id_of m) = d i" by (simp add: pl Let_def foldl_upd)
    have "is_keep (d i) \<or> d i = Some Delete_Expired" using known [OF that] decisions_values [OF d, of i] by auto
    then show ?thesis
    proof
      assume "is_keep (d i)"
      with m dec show ?thesis by (simp add: pl Let_def)
    next
      assume "d i = Some Delete_Expired"
      with m dec have "m \<in> set (pl_deleted pl)" by (simp add: pl Let_def)
      with \<open>id_of m = i\<close> show ?thesis by (force simp: pl Let_def foldl_id_dset)
    qed
  qed
qed

lemma record_targets_cases:
  assumes "t \<in> set (record_targets ro sv pl (j, x))"
  shows "t \<in> {control_path ro ''complete'' j, control_path ro ''verified'' j, control_path ro ''deleting'' j}
    \<or> (\<exists>k. (k \<in> set (keys_of x) \<or> k = text_of (jget x ''manifest_key'')) \<and> k \<notin> set (referenced pl) \<and> t = key_path ro k)"
proof -
  from assms have "t = control_path ro ''complete'' j \<or> t \<in> key_path ro ` {k \<in> set (keys_of x). k \<notin> set (referenced pl)}
      \<or> t = control_path ro ''verified'' j \<or> (text_of (jget x ''manifest_key'') \<notin> set (referenced pl) \<and> t = key_path ro (text_of (jget x ''manifest_key'')))
      \<or> t = control_path ro ''deleting'' j"
    unfolding record_targets_def Let_def fst_conv snd_conv by (auto split: if_splits)
  then show ?thesis by blast
qed

lemma delete_targets_cases:
  assumes "t \<in> set (delete_targets ro sv pl)"
  obtains j where "j \<in> fst ` set (pl_records pl)" "t = control_path ro ''complete'' j \<or> t = control_path ro ''verified'' j"
  | j where "j \<in> fst ` set (pl_records pl) \<or> j \<in> set (sv_finalizing sv)" "t = control_path ro ''deleting'' j"
  | j x k where "(j, x) \<in> set (pl_records pl)" "k \<in> set (keys_of x) \<or> k = text_of (jget x ''manifest_key'')" "k \<notin> set (referenced pl)" "t = key_path ro k"
proof -
  from assms consider j where "j \<in> set (sv_finalizing sv)" "t = control_path ro ''deleting'' j"
    | j x where "(j, x) \<in> set (pl_records pl)" "t \<in> set (record_targets ro sv pl (j, x))"
    by (auto simp: delete_targets_def)
  then show thesis
  proof cases
    case (2 j x)
    then have "j \<in> fst ` set (pl_records pl)" by force
    with record_targets_cases [OF 2(2)] 2(1) that show thesis by blast
  qed (use that in blast)
qed

text \<open>The files of a kept point: its data, its completion marker and its restore proof.\<close>

definition needed_files :: "'r rotation \<Rightarrow> rplan \<Rightarrow> ustr set" where
  "needed_files ro pl = (\<Union>m \<in> set (pl_kept pl). key_path ro ` set (keys_of m) \<union> {control_path ro ''complete'' (id_of m), control_path ro ''verified'' (id_of m)})"

lemma targets_spare_needed:
  assumes "rotation_plan ro timezone sv = Inr pl" "survey_ok ro files v sv"
  shows "needed_files ro pl \<inter> set (delete_targets ro sv pl) = {}"
proof -
  have False if m: "m \<in> set (pl_kept pl)" and t: "t \<in> set (delete_targets ro sv pl)"
    and n: "t \<in> key_path ro ` set (keys_of m) \<union> {control_path ro ''complete'' (id_of m), control_path ro ''verified'' (id_of m)}" for m t
  proof -
    obtain i where i: "record_ok ro i m" "i \<notin> fst ` set (pl_records pl)" "id_of m = i"
      using plan_records(1) [OF assms m] by (auto simp: record_ok_def)
    from t show False
    proof (cases rule: delete_targets_cases)
      case (1 j)
      with n i record_keys [OF i(1), of _ j] show False by (auto simp: control_path_eq) (metis fst_conv image_eqI)+
    next
      case (2 j)
      with n i record_keys [OF i(1), of _ j] show False by (auto simp: control_path_eq) metis+
    next
      case (3 j x k)
      have "k \<in> set (keys_of x)" using 3(2) plan_records(2) [OF assms 3(1)] by (auto simp: record_ok_def)
      with record_keys [OF plan_records(2) [OF assms 3(1)]] n 3(4) have "k \<in> set (keys_of m)" by (auto simp: key_path_eq)
      with m 3(3) show False by (auto simp: referenced_def)
    qed
  qed
  then show ?thesis unfolding needed_files_def by blast
qed

section \<open>What a rotation writes\<close>

definition publications :: "'r rotation \<Rightarrow> jobj list \<Rightarrow> rcmd list" where
  "publications ro ms = map (\<lambda>m. Copy_To (control_path ro ''deleting'' (id_of m)) (bk_json (ro_env ro) (JObj m))) ms"

text \<open>The files after the journals of some records.\<close>

fun with_journals :: "'r rotation \<Rightarrow> (ustr \<rightharpoonup> blob) \<Rightarrow> jobj list \<Rightarrow> ustr \<rightharpoonup> blob" where
  "with_journals ro v [] = v"
| "with_journals ro v (m # ms) = with_journals ro (v(control_path ro ''deleting'' (id_of m) \<mapsto> bk_json (ro_env ro) (JObj m))) ms"

lemma with_journals_append: "with_journals ro v (ms @ ns) = with_journals ro (with_journals ro v ms) ns"
  by (induction ms arbitrary: v) simp_all

lemma wp_surveys: "surveys ro files v m P \<Longrightarrow> calm ro files v w s \<Longrightarrow> wp m (\<lambda>x t. calm ro files v w t \<and> P x) (\<lambda>_. calm ro files v w) s"
  by (auto simp: surveys_def)

lemma calm_ask:
  assumes "calm ro files v w s" "ro_rclone ro c (rs_remote s) = (a, r)"
  shows "\<exists>v'. (lawful (ro_rclone ro) files \<longrightarrow> answer_ok v c a v') \<and>
    calm ro files v' (w @ (if is_write c then [c] else [])) (s\<lparr>rs_remote := r, rs_trace := rs_trace s @ [(c, a)]\<rparr>)"
proof -
  have "lawful (ro_rclone ro) files \<Longrightarrow> answer_ok v c a (files r)"
    using assms unfolding lawful_def calm_def by (metis fst_conv snd_conv)
  with assms(1) show ?thesis by (intro exI [of _ "files r"]) (auto simp: calm_def)
qed

lemma wp_publish:
  assumes "calm ro files v w s"
  shows "wp (publish_and_verify_journal ro p m) (\<lambda>_. calm ro files (v(p \<mapsto> bk_json (ro_env ro) (JObj m))) (w @ [Copy_To p (bk_json (ro_env ro) (JObj m))]))
    (\<lambda>_ t. \<exists>v' \<in> {v, v(p \<mapsto> bk_json (ro_env ro) (JObj m))}. calm ro files v' (w @ [Copy_To p (bk_json (ro_env ro) (JObj m))]) t) s"
proof -
  let ?b = "bk_json (ro_env ro) (JObj m)"
  let ?rest = "\<lambda>a. seq (result (demand (a \<noteq> Refused) ''cannot publish retention deletion journal'')) (\<lambda>_.
     seq (read_remote_json ro p) (\<lambda>v. result (demand (py_eq v (JObj m)) ''retention deletion journal verification failed'')))"
  have rest: "surveys ro files u (?rest a) (\<lambda>_. a \<noteq> Refused)" for u a
    by (rule surveys_seq [OF surveys_returns], rule surveys_seq [OF surveys_read], rule surveys_result) (simp add: returns)
  obtain a r where a: "ro_rclone ro (Copy_To p ?b) (rs_remote s) = (a, r)" by (cases "ro_rclone ro (Copy_To p ?b) (rs_remote s)")
  from calm_ask [OF assms a] obtain v' where v': "lawful (ro_rclone ro) files \<longrightarrow> answer_ok v (Copy_To p ?b) a v'"
    and calm: "calm ro files v' (w @ [Copy_To p ?b]) (s\<lparr>rs_remote := r, rs_trace := rs_trace s @ [(Copy_To p ?b, a)]\<rparr>)" by auto
  show ?thesis
    unfolding publish_and_verify_journal_def wp_seq [of "ask ro _"] wp_ask a prod.case
    using wp_surveys [OF rest calm, of a] v' calm
    by (auto simp: calm_def elim!: wp_mono)
qed

lemma wp_publish_journals:
  assumes "calm ro files v w s"
  shows "wp (publish_journals ro pl) (\<lambda>_. calm ro files (with_journals ro v (pl_deleted pl)) (w @ publications ro (pl_deleted pl)))
    (\<lambda>_ t. \<exists>js ks. prefix js (pl_deleted pl) \<and> prefix ks (pl_deleted pl) \<and> calm ro files (with_journals ro v ks) (w @ publications ro js) t) s"
  unfolding publish_journals_def
proof (rule wp_loop [where I = "\<lambda>ys _. calm ro files (with_journals ro v ys) (w @ publications ro ys)"])
  fix ys x zs acc t
  assume split: "pl_deleted pl = ys @ x # zs" and t: "calm ro files (with_journals ro v ys) (w @ publications ro ys) t"
  have p: "prefix ys (pl_deleted pl)" "prefix (ys @ [x]) (pl_deleted pl)" by (simp_all add: split)
  have e: "publications ro (ys @ [x]) = publications ro ys @ [Copy_To (control_path ro ''deleting'' (id_of x)) (bk_json (ro_env ro) (JObj x))]"
    "with_journals ro v (ys @ [x]) = (with_journals ro v ys)(control_path ro ''deleting'' (id_of x) \<mapsto> bk_json (ro_env ro) (JObj x))"
    by (simp_all add: publications_def with_journals_append)
  show "wp (publish_and_verify_journal ro (control_path ro ''deleting'' (id_of x)) x)
      (\<lambda>_. calm ro files (with_journals ro v (ys @ [x])) (w @ publications ro (ys @ [x])))
      (\<lambda>_ t. \<exists>js ks. prefix js (pl_deleted pl) \<and> prefix ks (pl_deleted pl) \<and> calm ro files (with_journals ro v ks) (w @ publications ro js) t) t"
    using p by (intro wp_mono [OF wp_publish [OF t]]) (auto simp: e [symmetric] intro: exI [of _ "ys @ [x]"])
qed (simp add: assms publications_def)

lemma wp_delete:
  assumes "calm ro files v w s" "47 \<in> set p"
  shows "wp (delete_if_present ro p) (\<lambda>_ t. \<exists>ds. subseq ds [p] \<and> calm ro files (v(p := None)) (w @ map Delete_File ds) t)
    (\<lambda>_ t. \<exists>ds. subseq ds [p] \<and> (\<exists>v' \<in> {v, v(p := None)}. calm ro files v' (w @ map Delete_File ds) t)) s"
proof -
  have deletes: "wp (seq (ask ro (Delete_File p)) (\<lambda>a. result (demand (a \<noteq> Refused) ''authorized retention deletion failed'')))
     (\<lambda>_ t. \<exists>ds. subseq ds [p] \<and> calm ro files (v(p := None)) (w @ map Delete_File ds) t)
     (\<lambda>_ t. \<exists>ds. subseq ds [p] \<and> (\<exists>v' \<in> {v, v(p := None)}. calm ro files v' (w @ map Delete_File ds) t)) t"
    if t: "calm ro files v w t" for t
  proof -
    obtain a r where a: "ro_rclone ro (Delete_File p) (rs_remote t) = (a, r)" by (cases "ro_rclone ro (Delete_File p) (rs_remote t)")
    from calm_ask [OF t a] obtain v' where v': "lawful (ro_rclone ro) files \<longrightarrow> answer_ok v (Delete_File p) a v'"
      and calm: "calm ro files v' (w @ [Delete_File p]) (t\<lparr>rs_remote := r, rs_trace := rs_trace t @ [(Delete_File p, a)]\<rparr>)" by auto
    show ?thesis
      unfolding wp_seq wp_ask a prod.case using v' calm
      by (auto simp: calm_def demand_def wp_result intro!: exI [of _ "[p]"])
  qed
  show ?thesis
    unfolding delete_if_present_def wp_seq [of "remote_file_exists ro p"]
  proof (rule wp_mono [OF wp_surveys [OF surveys_exists [OF assms(2)] assms(1)]])
    fix b t
    assume b: "calm ro files v w t \<and> (lawful (ro_rclone ro) files \<longrightarrow> b \<longleftrightarrow> v p \<noteq> None)"
    show "wp (if \<not> b then result (Inr ()) else seq (ask ro (Delete_File p)) (\<lambda>a. result (demand (a \<noteq> Refused) ''authorized retention deletion failed'')))
      (\<lambda>_ t. \<exists>ds. subseq ds [p] \<and> calm ro files (v(p := None)) (w @ map Delete_File ds) t)
      (\<lambda>_ t. \<exists>ds. subseq ds [p] \<and> (\<exists>v' \<in> {v, v(p := None)}. calm ro files v' (w @ map Delete_File ds) t)) t"
    proof (cases b)
      case False
      then have "calm ro files (v(p := None)) w t" using b by (auto simp: calm_def fun_upd_idem)
      with False show ?thesis by (auto simp: wp_result intro: exI [of _ "[]"])
    qed (use b deletes in simp)
  qed (auto intro: exI [of _ "[]"])
qed

lemma wp_deletes:
  assumes "calm ro files v w s" "\<And>t. t \<in> set ts \<Longrightarrow> 47 \<in> set t"
  shows "wp (loop (\<lambda>t _. delete_if_present ro t) ts ()) (\<lambda>_ t. \<exists>ds. subseq ds ts \<and> calm ro files (v |` (- set ts)) (w @ map Delete_File ds) t)
    (\<lambda>_ t. \<exists>ds zs. subseq ds ts \<and> prefix zs ts \<and> calm ro files (v |` (- set zs)) (w @ map Delete_File ds) t) s"
proof (rule wp_loop [where I = "\<lambda>ys _ t. \<exists>ds. subseq ds ys \<and> calm ro files (v |` (- set ys)) (w @ map Delete_File ds) t"])
  fix ys x zs acc t
  assume split: "ts = ys @ x # zs" and "\<exists>ds. subseq ds ys \<and> calm ro files (v |` (- set ys)) (w @ map Delete_File ds) t"
  then obtain ds where ds: "subseq ds ys" "calm ro files (v |` (- set ys)) (w @ map Delete_File ds) t" by blast
  have more: "subseq (ds @ es) (ys @ [x])" "subseq (ds @ es) ts" if "subseq es [x]" for es
  proof -
    show "subseq (ds @ es) (ys @ [x])" using list_emb_append_mono [OF ds(1) that] .
    then show "subseq (ds @ es) ts" unfolding split using list_emb_append_mono [of "(=)" _ _ "[]" zs] by fastforce
  qed
  have upd: "(v |` (- set ys))(x := None) = v |` (- set (ys @ [x]))" by (auto simp: restrict_map_def)
  have p: "prefix ys ts" "prefix (ys @ [x]) ts" by (simp_all add: split)
  show "wp (delete_if_present ro x) (\<lambda>_ t. \<exists>ds. subseq ds (ys @ [x]) \<and> calm ro files (v |` (- set (ys @ [x]))) (w @ map Delete_File ds) t)
      (\<lambda>_ t. \<exists>ds zs. subseq ds ts \<and> prefix zs ts \<and> calm ro files (v |` (- set zs)) (w @ map Delete_File ds) t) t"
  proof (rule wp_mono [OF wp_delete [OF ds(2)]])
    show "47 \<in> set x" using assms(2) by (simp add: split)
    fix t'
    assume "\<exists>es. subseq es [x] \<and> calm ro files ((v |` (- set ys))(x := None)) ((w @ map Delete_File ds) @ map Delete_File es) t'"
    then show "\<exists>ds. subseq ds (ys @ [x]) \<and> calm ro files (v |` (- set (ys @ [x]))) (w @ map Delete_File ds) t'"
      using more(1) unfolding upd append_assoc map_append [symmetric] by blast
  next
    fix t'
    assume "\<exists>es. subseq es [x] \<and> (\<exists>v' \<in> {v |` (- set ys), (v |` (- set ys))(x := None)}. calm ro files v' ((w @ map Delete_File ds) @ map Delete_File es) t')"
    then show "\<exists>ds zs. subseq ds ts \<and> prefix zs ts \<and> calm ro files (v |` (- set zs)) (w @ map Delete_File ds) t'"
      using more(2) p unfolding upd append_assoc map_append [symmetric] by blast
  qed
qed (use assms(1) in \<open>simp add: calm_def restrict_map_def\<close>)

text \<open>The end of a rotation, whatever the remote and wherever it stops.\<close>

lemma targets_have_slash: "t \<in> set (delete_targets ro sv pl) \<Longrightarrow> 47 \<in> set t"
  by (erule delete_targets_cases) (auto simp: control_path_def key_path_def)

lemma rotate_outcome:
  assumes "prepare_rotation ro s = (Inr (sv, pl), t)" "calm ro files v w t"
  defines "planned \<equiv> if ro_dry_run ro then [] else pl_deleted pl" and "targets \<equiv> if ro_dry_run ro then [] else delete_targets ro sv pl"
  shows "\<exists>js ks ds zs. prefix js planned \<and> prefix ks planned \<and> subseq ds targets \<and> prefix zs targets \<and> (ds = [] \<and> zs = [] \<or> js = planned \<and> ks = planned)
    \<and> calm ro files (with_journals ro v ks |` (- set zs)) (w @ publications ro js @ map Delete_File ds) (snd (rotate ro s))
    \<and> (case fst (rotate ro s) of Inl _ \<Rightarrow> True | Inr x \<Rightarrow> x = (pl_decisions pl, delete_targets ro sv pl, ro_dry_run ro) \<and> ks = planned \<and> zs = targets)"
proof -
  define Q where "Q = (\<lambda>js ks ds zs t. prefix js planned \<and> prefix ks planned \<and> subseq ds targets \<and> prefix zs targets \<and> (ds = [] \<and> zs = [] \<or> js = planned \<and> ks = planned)
    \<and> calm ro files (with_journals ro v ks |` (- set zs)) (w @ publications ro js @ map Delete_File ds) t)"
  have "wp (rotate ro) (\<lambda>x t. \<exists>js ds. Q js planned ds targets t \<and> x = (pl_decisions pl, delete_targets ro sv pl, ro_dry_run ro))
      (\<lambda>_ t. \<exists>js ks ds zs. Q js ks ds zs t) s"
  proof -
    have all: "u |` (- set []) = u" for u :: "ustr \<rightharpoonup> blob" by (simp add: restrict_map_def)
    have jour: "wp (if ro_dry_run ro then result (Inr ()) else publish_journals ro pl) (\<lambda>_ t. Q planned planned [] [] t)
        (\<lambda>_ t. \<exists>js ks ds zs. Q js ks ds zs t) t"
    proof (cases "ro_dry_run ro")
      case False
      have "\<exists>js ks ds zs. Q js ks ds zs t'"
        if "prefix js (pl_deleted pl)" "prefix ks (pl_deleted pl)" "calm ro files (with_journals ro v ks) (w @ publications ro js) t'" for js ks t'
        using that False
        by (intro exI [of _ js] exI [of _ ks] exI [of _ "[]"]) (simp add: Q_def planned_def targets_def all [simplified])
      then show ?thesis
        unfolding if_not_P [OF False] using False
        by (intro wp_mono [OF wp_publish_journals [OF assms(2)]])
          (auto simp: Q_def planned_def targets_def all [simplified])
    qed (use assms(2) in \<open>simp add: wp_result Q_def planned_def targets_def publications_def all [simplified]\<close>)
    have dels: "wp (if ro_dry_run ro then result (Inr ()) else loop (\<lambda>t _. delete_if_present ro t) (delete_targets ro sv pl) ())
        (\<lambda>_ t. \<exists>ds. Q planned planned ds targets t) (\<lambda>_ t. \<exists>js ks ds zs. Q js ks ds zs t) t'" if q: "Q planned planned [] [] t'" for t'
    proof (cases "ro_dry_run ro")
      case False
      from q have "calm ro files (with_journals ro v planned) (w @ publications ro planned) t'" by (simp add: Q_def all [simplified])
      then have loop: "wp (loop (\<lambda>t _. delete_if_present ro t) (delete_targets ro sv pl) ())
          (\<lambda>_ t. \<exists>ds. subseq ds targets \<and> calm ro files (with_journals ro v planned |` (- set targets)) ((w @ publications ro planned) @ map Delete_File ds) t)
          (\<lambda>_ t. \<exists>ds zs. subseq ds targets \<and> prefix zs targets
            \<and> calm ro files (with_journals ro v planned |` (- set zs)) ((w @ publications ro planned) @ map Delete_File ds) t) t'"
        unfolding targets_def if_not_P [OF False] by (rule wp_deletes) (rule targets_have_slash)
      show ?thesis
        unfolding if_not_P [OF False]
        by (rule wp_mono [OF loop]) (auto simp: Q_def)
    qed (use q in \<open>auto simp: wp_result Q_def targets_def\<close>)
    show ?thesis
      unfolding rotate_def wp_seq [of "prepare_rotation ro"] wp_def [of "prepare_rotation ro"] assms(1) prod.case sum.case wp_seq
      by (rule wp_mono [OF jour], rule wp_mono [OF dels]) (auto simp: wp_result)
  qed
  from wp_run [OF this] show ?thesis
    unfolding Q_def by (cases "fst (rotate ro s)") auto
qed

text \<open>The state in which a rotation starts.\<close>

definition fresh :: "'r \<Rightarrow> 'r rstate" where
  "fresh r = \<lparr>rs_remote = r, rs_trace = []\<rparr>"

end
