(* ===== verification/Bk_Sample.thy ===== *)
theory Bk_Sample
  imports Bk_Safety
begin

text \<open>
  A remote that keeps its files in a list, with one complete recovery point, and the survey a rotation makes of it.
\<close>

section \<open>A remote that is a list of files\<close>

type_synonym file_list = "(ustr \<times> blob) list"

definition store_files :: "file_list \<Rightarrow> ustr \<rightharpoonup> blob" where
  "store_files st p = (if p \<noteq> [] \<and> last p = 47 then None else map_of st p)"

definition store_names :: "file_list \<Rightarrow> ustr \<Rightarrow> ustr list" where
  "store_names st d = map name_of (filter (\<lambda>p. 47 \<in> set p \<and> parent_of p = d \<and> store_files st p \<noteq> None) (map fst st))"

fun store_rclone :: "file_list rclone" where
  "store_rclone (Cat p) st = (case store_files st p of Some b \<Rightarrow> Text b | None \<Rightarrow> Refused, st)"
| "store_rclone (Copy_From p) st = (case store_files st p of Some b \<Rightarrow> Text b | None \<Rightarrow> Refused, st)"
| "store_rclone (Lsf d) st = (Lines (store_names st d), st)"
| "store_rclone (Copy_To p b) st =
     (if p \<noteq> [] \<and> last p = 47 then (Refused, st)
      else case map_of st p of None \<Rightarrow> (Finished, (p, b) # st) | Some b' \<Rightarrow> (if b' = b then Finished else Refused, st))"
| "store_rclone (Delete_File p) st = (Finished, filter (\<lambda>x. fst x \<noteq> p) st)"

lemma store_names_iff:
  assumes "47 \<notin> set n" "n \<noteq> []"
  shows "n \<in> set (store_names st d) \<longleftrightarrow> store_files st (d @ [47] @ n) \<noteq> None"
proof
  assume "n \<in> set (store_names st d)"
  then obtain p where p: "47 \<in> set p" "parent_of p = d" "store_files st p \<noteq> None" "n = name_of p"
    by (auto simp: store_names_def)
  with path_split(1) [OF p(1)] show "store_files st (d @ [47] @ n) \<noteq> None" by simp
next
  assume f: "store_files st (d @ [47] @ n) \<noteq> None"
  then have "d @ [47] @ n \<in> set (map fst st)" by (force simp: store_files_def dest: map_of_SomeD split: if_splits)
  with f path_parts [OF assms(1), of d] show "n \<in> set (store_names st d)"
    unfolding store_names_def set_map [of name_of] by (intro image_eqI [of _ _ "d @ [47] @ n"]) auto
qed

lemma store_lawful: "lawful store_rclone store_files"
proof -
  have "map_of (filter (\<lambda>x. fst x \<noteq> p) st) = (map_of st)(p := None)" for p :: ustr and st :: file_list
    by (induction st) auto
  then have d: "store_files (filter (\<lambda>x. fst x \<noteq> p) st) = (store_files st)(p := None)" for p st
    by (auto simp: store_files_def fun_eq_iff)
  have "answer_ok (store_files st) c (fst (store_rclone c st)) (store_files (snd (store_rclone c st)))" for c st
  proof (cases c)
    case (Lsf x)
    then show ?thesis using store_names_iff by auto
  next
    case (Copy_To p b)
    then show ?thesis by (auto simp: store_files_def fun_eq_iff split: option.splits)
  qed (auto simp: d split: option.splits)
  then show ?thesis by (simp add: lawful_def store_files_def)
qed

section \<open>One recovery point\<close>

definition sample_marker :: jobj where
  "sample_marker = [(u ''schema_version'', JInt 1), (u ''backup_id'', JStr sample_backup_identity), (u ''frozen_at'', JStr (format_time sample_frozen)),
     (u ''verified_at'', JStr (format_time (DateTime 2026 8 3 3 0 0 0))), (u ''manifest_key'', JStr (manifest_key (u ''p'') sample_backup_identity)),
     (u ''manifest_ciphertext_size'', JInt 7), (u ''manifest_ciphertext_sha256'', sample_zeros), (u ''recipient_key_id'', JStr (u ''r1'')),
     (u ''generations'', sample_generations), (u ''object_keys'', sample_object_keys), (u ''status'', JStr (u ''remote_ciphertext_verified''))]"

definition sample_loads :: "blob \<Rightarrow> bexc + json" where
  "sample_loads b = (if b = [3] then Inr (JObj sample_marker) else if b = [2] then Inr (JObj sample_signed)
     else if b = [] then Inr (JObj (sample_record (replicate 64 48))) else Inl Json_Error)"

definition sample_rotation :: "datetime \<Rightarrow> file_list rotation" where
  "sample_rotation now = \<lparr>ro_env = sample_bk_env\<lparr>bk_loads := sample_loads\<rparr>, ro_rclone = store_rclone, ro_authorized = True, ro_config_private = True,
     ro_identity_present = True, ro_identity_private = True, ro_manifest_key = Some sample_key, ro_manifest_key_private = True,
     ro_manifest_key_id = u ''k1'', ro_restore_key = Some sample_key, ro_restore_key_private = True, ro_restore_key_id = u ''k1'',
     ro_remote = u ''s3:b/'', ro_prefix = u ''/p/'', ro_contract = Inr (u ''UTC''), ro_now = now, ro_dry_run = False\<rparr>"

definition sample_complete_path :: ustr where
  "sample_complete_path = u ''s3:b/p/complete'' @ [47] @ sample_backup_identity @ u ''.json''"

definition sample_manifest_path :: ustr where
  "sample_manifest_path = u ''s3:b/p/points/'' @ sample_backup_identity @ [47] @ u ''manifest.json.age''"

definition sample_store :: file_list where
  "sample_store = [(sample_complete_path, [3]), (sample_manifest_path, [2])]"

lemma sample_marker_ok:
  assumes "bk_zone env = bk_zone sample_bk_env"
  shows "validate_completion_marker env sample_marker sample_backup_identity (u ''p'') (u ''UTC'') = Inr ()"
proof -
  have p: "paired (u ''p'') sample_backup_identity (u ''r1'') sample_keys"
    by (rule object_key_pairs_paired [OF sample_pairs [of sample_bk_env]])
      (rule validate_manifest_objects [OF manifest_ok [of sample_bk_env]], simp add: sample_signed_fields)
  have "canonical_timestamp (JStr (format_time sample_frozen)) f = Inr sample_frozen"
    "canonical_timestamp (JStr (format_time (DateTime 2026 8 3 3 0 0 0))) f = Inr (DateTime 2026 8 3 3 0 0 0)" for f
    using sample_point_ok by (simp_all add: canonical_timestamp_def parse_format valid_datetime_def days_in_month_def)
  moreover have "generation_tags env sample_frozen tz = generation_tags sample_bk_env sample_frozen tz" for tz
    by (simp add: generation_tags_def assms)
  moreover have "sample_frozen < DateTime 2026 8 3 3 0 0 0" by (simp add: sample_frozen_def less_datetime_def dt_fields_def)
  moreover have "remote_prefix (u ''p'') msg = Inr (u ''p'')" for msg
    by (simp add: remote_prefix_def Let_def sample_prefix(2) del: u_Cons) (simp add: climbs_def)
  ultimately show ?thesis
    using completion_keys_paired [OF p] sample_point_ok(1)
    by (simp add: validate_completion_marker_def andthen_def checks.simps demand_def sample_marker_def jget_Cons keys_are_def validate_backup_id_def
        sample_generations_def sample_object_keys_def list.rel_map list.rel_refl del: u_Cons)
qed

section \<open>The survey\<close>

text \<open>An action that reads the sample and returns \<open>x\<close>.\<close>

definition gives :: "(file_list, 'a) ract \<Rightarrow> 'a \<Rightarrow> bool" where
  "gives m x \<longleftrightarrow> (\<forall>s. rs_remote s = sample_store \<longrightarrow> (\<exists>t. m s = (Inr x, t) \<and> rs_remote t = sample_store))"

lemma gives_seq: "gives m x \<Longrightarrow> gives (k x) y \<Longrightarrow> gives (seq m k) y"
  by (fastforce simp: gives_def seq_def)

lemma gives_result: "r = Inr x \<Longrightarrow> gives (result r) x"
  by (simp add: gives_def result_def)

lemma gives_ask: "store_rclone c sample_store = (a, sample_store) \<Longrightarrow> a \<noteq> Dead \<Longrightarrow> gives (ask (sample_rotation now) c) a"
  by (auto simp: gives_def ask_def sample_rotation_def split: prod.splits)

lemma sample_paths:
  "parent_of sample_complete_path = u ''s3:b/p/complete''" "name_of sample_complete_path = sample_backup_identity @ u ''.json''"
  "parent_of sample_manifest_path = u ''s3:b/p/points/'' @ sample_backup_identity" "47 \<in> set sample_complete_path" "last sample_complete_path \<noteq> 47"
  "sample_complete_path \<noteq> []" "sample_manifest_path \<noteq> []" "last sample_manifest_path \<noteq> 47" "47 \<in> set sample_manifest_path" "sample_complete_path \<noteq> sample_manifest_path"
proof -
  have "47 \<notin> set (u ''manifest.json.age'')" by simp
  then show "parent_of sample_manifest_path = u ''s3:b/p/points/'' @ sample_backup_identity"
    unfolding sample_manifest_path_def using path_parts [of "u ''manifest.json.age''" "u ''s3:b/p/points/'' @ sample_backup_identity"]
    by (simp del: u_Cons)
  show "parent_of sample_complete_path = u ''s3:b/p/complete''" "name_of sample_complete_path = sample_backup_identity @ u ''.json''"
    unfolding sample_complete_path_def using path_parts [OF backup_id_no_slash [OF sample_point_ok(1)]] by (simp_all del: u_Cons)
qed (simp_all add: sample_complete_path_def sample_manifest_path_def)

lemma sample_files: "store_files sample_store sample_complete_path = Some [3]" "store_files sample_store sample_manifest_path = Some [2]"
  using sample_paths by (simp_all add: store_files_def sample_store_def)

lemma sample_names: "store_names sample_store d =
    (if d = u ''s3:b/p/complete'' then [sample_backup_identity @ u ''.json''] else if d = parent_of sample_manifest_path then [name_of sample_manifest_path] else [])"
proof -
  have "u ''s3:b/p/points/'' @ sample_backup_identity \<noteq> u ''s3:b/p/complete''" by simp
  then show ?thesis
    using sample_files by (simp add: store_names_def sample_store_def sample_paths del: u_Cons)
qed

lemma sample_roots:
  "remote_base (sample_rotation now) = u ''s3:b/p''" "normalized_prefix (sample_rotation now) = u ''p''" "remote_root (sample_rotation now) = u ''s3:b''"
  by (simp_all add: remote_base_def remote_root_def normalized_prefix_def sample_rotation_def strip_char_def lstrip_char_def rstrip_char_def)

lemma gives_list:
  "gives (list_files (sample_rotation now) (u ''s3:b/p/complete'') msg) [sample_backup_identity @ u ''.json'']"
  "gives (list_files (sample_rotation now) (u ''s3:b/p/deleting'') msg) []" "gives (list_files (sample_rotation now) (u ''s3:b/p/verified'') msg) []"
proof -
  have "gives (list_files (sample_rotation now) d msg) (filter (\<lambda>n. n \<noteq> []) (store_names sample_store d))" for d
    unfolding list_files_def by (rule gives_seq [OF gives_ask], simp, simp, rule gives_result, simp)
  note l = this [of "u ''s3:b/p/complete''"] this [of "u ''s3:b/p/deleting''"] this [of "u ''s3:b/p/verified''"]
  have "parent_of sample_manifest_path \<noteq> u ''s3:b/p/deleting''" "parent_of sample_manifest_path \<noteq> u ''s3:b/p/verified''"
    "u ''.json'' \<noteq> []" "u ''s3:b/p/deleting'' \<noteq> u ''s3:b/p/complete''" "u ''s3:b/p/verified'' \<noteq> u ''s3:b/p/complete''"
    by (simp_all add: sample_paths)
  with l show "gives (list_files (sample_rotation now) (u ''s3:b/p/complete'') msg) [sample_backup_identity @ u ''.json'']"
    "gives (list_files (sample_rotation now) (u ''s3:b/p/deleting'') msg) []" "gives (list_files (sample_rotation now) (u ''s3:b/p/verified'') msg) []"
    by (simp_all add: sample_names eq_commute [of "u _" "parent_of _"] del: u_Cons)
qed

lemma gives_record:
  "gives (authenticated_retention_record (sample_rotation now) (u ''UTC'') sample_backup_identity) (sample_record (replicate 64 48))"
proof -
  have path: "key_path (sample_rotation now) (manifest_key (normalized_prefix (sample_rotation now)) sample_backup_identity) = sample_manifest_path"
    by (simp add: key_path_def manifest_key_def point_root_def sample_roots sample_manifest_path_def)
  have env: "bk_verify (ro_env (sample_rotation now)) = bk_verify sample_bk_env" "bk_zone (ro_env (sample_rotation now)) = bk_zone sample_bk_env"
    by (simp_all add: sample_rotation_def)
  have loads: "bk_loads (ro_env (sample_rotation now)) [2] = Inr (JObj sample_signed)" "bk_decrypt (ro_env (sample_rotation now)) [2] = Inr [2]"
    by (simp_all add: sample_rotation_def sample_loads_def sample_bk_env_def)
  have keys: "ro_manifest_key (sample_rotation now) = Some sample_key" "ro_manifest_key_id (sample_rotation now) = u ''k1''"
    "bk_sha (ro_env (sample_rotation now)) x = replicate 64 48" for x
    by (simp_all add: sample_rotation_def sample_bk_env_def)
  show ?thesis
    unfolding authenticated_retention_record_def path
    by (rule gives_seq [OF gives_ask [where a = "Text [2]"]], simp add: sample_files, simp, rule gives_seq [OF gives_result [where x = "JObj sample_signed"]],
        simp add: andthen_def loads, rule gives_result)
      (simp add: keys sample_roots sample_retention [OF env sample_prefix(2)] del: u_Cons)
qed

lemma gives_completions:
  "gives (validated_completion_records (sample_rotation now) (u ''UTC'')) [(sample_backup_identity, sample_record (replicate 64 48))]"
proof -
  have name: "ends_with (u ''.json'') (sample_backup_identity @ u ''.json'')" "marker_id (sample_backup_identity @ u ''.json'') = Inr sample_backup_identity"
    using sample_point_ok by (simp_all add: ends_with_def marker_id_def Let_def remove_suffix_def andthen_def validate_backup_id_def demand_def)
  have path: "u ''s3:b/p'' @ u ''/complete/'' @ sample_backup_identity @ u ''.json'' = sample_complete_path"
    by (simp add: sample_complete_path_def)
  have loads: "bk_loads (ro_env (sample_rotation now)) [3] = Inr (JObj sample_marker)"
    by (simp add: sample_rotation_def sample_loads_def)
  have marker: "validate_completion_marker (ro_env (sample_rotation now)) sample_marker sample_backup_identity (u ''p'') (u ''UTC'') = Inr ()"
    by (rule sample_marker_ok) (simp add: sample_rotation_def)
  have agree: "list_all (\<lambda>f. py_eq (jget sample_marker f) (jget (sample_record (replicate 64 48)) f)) [''frozen_at'', ''generations'', ''manifest_key'', ''object_keys'']"
    by (simp add: sample_marker_def sample_record_def jget_Cons sample_generations_def sample_object_keys_def list.rel_map list.rel_refl del: u_Cons)
  have read: "gives (read_remote_json (sample_rotation now) sample_complete_path) (JObj sample_marker)"
    unfolding read_remote_json_def
    by (rule gives_seq [OF gives_ask [where a = "Text [3]"]], simp add: sample_files, simp, rule gives_result) (simp add: loads)
  have round: "gives (completion_round (sample_rotation now) (u ''UTC'') (sample_backup_identity @ u ''.json'') []) [(sample_backup_identity, sample_record (replicate 64 48))]"
    unfolding completion_round_def sample_roots path if_not_P [OF iffD2 [OF not_not name(1)]]
    by (rule gives_seq [OF gives_result [OF name(2)]], rule gives_seq [OF read], rule gives_seq [OF gives_result [where x = "()"]],
        simp add: marker returns del: u_Cons, rule gives_seq [OF gives_record], rule gives_seq [OF gives_result [where x = "()"]])
      (use agree in \<open>simp_all add: returns gives_result del: u_Cons\<close>)
  have base: "remote_base (sample_rotation now) @ u ''/complete'' = u ''s3:b/p/complete''" by (simp add: sample_roots)
  show ?thesis
    unfolding validated_completion_records_def base
    by (rule gives_seq [OF gives_list(1)], unfold loop.simps, rule gives_seq [OF round], rule gives_result, rule refl)
qed

definition sample_survey :: survey where
  "sample_survey = \<lparr>sv_complete = [(sample_backup_identity, sample_record (replicate 64 48))], sv_journal = [], sv_finalizing = [], sv_verified = []\<rparr>"

lemma gives_survey: "gives (take_survey (sample_rotation now) (u ''UTC'')) sample_survey"
proof -
  have base: "remote_base (sample_rotation now) @ u ''/deleting'' = u ''s3:b/p/deleting''" "remote_base (sample_rotation now) @ u ''/verified'' = u ''s3:b/p/verified''"
    by (simp_all add: sample_roots)
  have journals: "gives (validated_journal_records (sample_rotation now) (u ''UTC'')) ([], [])"
    unfolding validated_journal_records_def base by (rule gives_seq [OF gives_list(2)]) (simp add: gives_result)
  have verified: "gives (validated_verified_ids (sample_rotation now) ms) []" for ms
    unfolding validated_verified_ids_def base by (rule gives_seq [OF gives_list(3)]) (simp add: gives_result)
  show ?thesis
    unfolding take_survey_def
    by (rule gives_seq [OF gives_completions], rule gives_seq [OF journals], simp, rule gives_seq [OF verified], rule gives_result) (simp add: sample_survey_def)
qed

lemma sample_plan:
  "\<exists>c. rotation_plan (sample_rotation now) (u ''UTC'') sample_survey = Inr (plan_from sample_survey [sample_backup_identity \<mapsto> c])"
proof -
  have points: "points_of sample_survey = [\<lparr>rp_id = sample_backup_identity, rp_frozen = JStr (format_time sample_frozen),
      rp_generations = map text_of (elems sample_generations)\<rparr>]"
    by (simp add: points_of_def all_markers_def sample_survey_def sample_record_def id_of_def jget_Cons del: u_Cons)
  have "\<exists>c. decide_point env n tz pr \<lparr>rp_id = sample_backup_identity, rp_frozen = JStr (format_time sample_frozen), rp_generations = g\<rparr> = Inr c" for env n tz pr g
    using sample_point_ok by (auto simp: decide_point_def andthen_def validate_backup_id_def demand_def parse_format Let_def)
  then obtain c where "decide_point (ro_env (sample_rotation now)) (ro_now (sample_rotation now)) (u ''UTC'') None \<lparr>rp_id = sample_backup_identity,
      rp_frozen = JStr (format_time sample_frozen), rp_generations = map text_of (elems sample_generations)\<rparr> = Inr c" by blast
  then have "retention_decisions (ro_env (sample_rotation now)) (ro_now (sample_rotation now)) (u ''UTC'') None (points_of sample_survey)
      = Inr [sample_backup_identity \<mapsto> c]" by (simp add: points andthen_def del: u_Cons)
  moreover have "protected_verified sample_survey = None" "sv_journal sample_survey = []" by (simp_all add: protected_verified_def sample_survey_def)
  ultimately show ?thesis
    unfolding rotation_plan_def plan_from_def [symmetric, unfolded Let_def] Let_def by (auto simp: andthen_def)
qed

lemma sample_prepares:
  "\<exists>c t. prepare_rotation (sample_rotation now) (fresh sample_store) = (Inr (sample_survey, plan_from sample_survey [sample_backup_identity \<mapsto> c]), t)"
proof -
  obtain c where c: "rotation_plan (sample_rotation now) (u ''UTC'') sample_survey = Inr (plan_from sample_survey [sample_backup_identity \<mapsto> c])"
    using sample_plan by blast
  have ready: "setup_checks (sample_rotation now) = Inr ()"
    by (simp add: setup_checks_def sample_rotation_def returns starts_with_def sample_key_def)
  have contract: "ro_contract (sample_rotation now) = Inr (u ''UTC'')" by (simp add: sample_rotation_def)
  have "gives (prepare_rotation (sample_rotation now)) (sample_survey, plan_from sample_survey [sample_backup_identity \<mapsto> c])"
    unfolding prepare_rotation_def
    by (rule gives_seq [OF gives_result [OF ready]], rule gives_seq [OF gives_result [OF contract]], rule gives_seq [OF gives_survey],
        rule gives_seq [OF gives_result [OF c]], rule gives_result, rule refl)
  then obtain t where "prepare_rotation (sample_rotation now) (fresh sample_store) = (Inr (sample_survey, plan_from sample_survey [sample_backup_identity \<mapsto> c]), t)"
    unfolding gives_def fresh_def by force
  then show ?thesis by blast
qed

end
