(* ===== verification/Bk_Properties.thy ===== *)
theory Bk_Properties
  imports Bk_Sample
begin

text \<open>
  The guarantees of a rotation: what it may write, which points it spares, every state a crash can leave, and that a point which still looks complete
  is complete.
\<close>

section \<open>From a fresh start\<close>

lemma calm_fresh: "calm ro files (files r) [] (fresh r)"
  by (simp add: calm_def fresh_def writes_def)

lemma prepare_returns:
  assumes "prepare_rotation ro (fresh r) = (Inr (sv, pl), t)"
  shows "calm ro files (files r) [] t \<and> survey_ok ro files (files r) sv \<and> (\<exists>timezone. ro_contract ro = Inr timezone \<and> rotation_plan ro timezone sv = Inr pl)"
  using wp_surveys [OF surveys_prepare calm_fresh [of ro files r]] assms by (auto simp: wp_def)

lemma prepare_raises:
  assumes "prepare_rotation ro (fresh r) = (Inl e, t)"
  shows "rotate ro (fresh r) = (Inl e, t)" "calm ro files (files r) [] t"
  using wp_surveys [OF surveys_prepare calm_fresh [of ro files r]] assms by (auto simp: wp_def rotate_def seq_def)

text \<open>
  What a rotation may write. When the survey fails, nothing is written and the rotation fails the same way. Otherwise, for every remote and wherever
  the rotation stops: it writes deletion journals, in the order of the expired points, and then deletes files of the plan in the order of the plan; it
  deletes nothing before the journals of all expired points are published and read back, nothing at all in a dry run, and never the data,
  the completion marker or the restore proof of a kept point, even where points share content-addressed data.
\<close>

theorem rotation_writes:
  "case prepare_rotation ro (fresh r) of
     (Inl e, t) \<Rightarrow> rotate ro (fresh r) = (Inl e, t) \<and> writes t = []
   | (Inr (sv, pl), t) \<Rightarrow> \<exists>js ds. writes (snd (rotate ro (fresh r))) = publications ro js @ map Delete_File ds
       \<and> prefix js (if ro_dry_run ro then [] else pl_deleted pl) \<and> subseq ds (if ro_dry_run ro then [] else delete_targets ro sv pl)
       \<and> (ds = [] \<or> js = pl_deleted pl) \<and> set ds \<inter> needed_files ro pl = {}"
proof (cases "prepare_rotation ro (fresh r)")
  case (Pair x t)
  show ?thesis
  proof (cases x)
    case (Inl e)
    with Pair prepare_raises(1) [of ro r e t] prepare_raises(2) [of ro r e t "\<lambda>_ _. None"] show ?thesis by (simp add: calm_def)
  next
    case (Inr y)
    obtain sv pl where y: "y = (sv, pl)" by (cases y)
    with Pair Inr have p: "prepare_rotation ro (fresh r) = (Inr (sv, pl), t)" by simp
    note ok = prepare_returns [OF p, of "\<lambda>_ _. None"]
    obtain js ds where w: "prefix js (if ro_dry_run ro then [] else pl_deleted pl)" "subseq ds (if ro_dry_run ro then [] else delete_targets ro sv pl)"
      "ds = [] \<or> js = (if ro_dry_run ro then [] else pl_deleted pl)" "writes (snd (rotate ro (fresh r))) = publications ro js @ map Delete_File ds"
      using rotate_outcome [OF p conjunct1 [OF ok]] unfolding calm_def append_Nil by blast
    have "set ds \<subseteq> set (delete_targets ro sv pl)" using w(2) by (auto split: if_splits dest: subseq_members)
    then have "set ds \<inter> needed_files ro pl = {}" using targets_spare_needed ok by blast
    moreover have "ds = [] \<or> js = pl_deleted pl" using w(2,3) by (auto split: if_splits)
    ultimately show ?thesis unfolding p prod.case sum.case using w by blast
  qed
qed

section \<open>Points that stay\<close>

lemma foldl_max:
  fixes f :: "'a \<Rightarrow> 'b :: linorder"
  defines "best \<equiv> foldl (\<lambda>b j. if f b < f j then j else b)"
  shows "best i is \<in> insert i (set is) \<and> (\<forall>j \<in> insert i (set is). f j \<le> f (best i is))"
proof (induction "is" arbitrary: i)
  case (Cons j js)
  from Cons.IH [of i] Cons.IH [of j] show ?case by (auto simp: best_def)
qed (simp add: best_def)

text \<open>The protected point is the one newest among the verified ones.\<close>

lemma protected_newest:
  assumes "i \<in> set (sv_verified sv)" "\<And>j. j \<in> set (sv_verified sv) \<Longrightarrow> rank (all_markers sv) j \<le> rank (all_markers sv) i"
  shows "protected_verified sv = Some i"
proof -
  obtain x xs where x: "sv_verified sv = x # xs" using assms(1) by (cases "sv_verified sv") auto
  then obtain b where b: "protected_verified sv = Some b" "b \<in> set (sv_verified sv)" "rank (all_markers sv) i \<le> rank (all_markers sv) b"
    using foldl_max [of "rank (all_markers sv)" x xs] assms(1) by (auto simp: protected_verified_def)
  with assms(2) have "rank (all_markers sv) b = rank (all_markers sv) i" by (simp add: order_antisym)
  then have "b = i" by (simp add: rank_def)
  with b show ?thesis by simp
qed

lemma foldl_dset_keeps: "(k, v) \<in> set xs \<Longrightarrow> k \<notin> fst ` set ys \<Longrightarrow> (k, v) \<in> set (foldl (\<lambda>acc (k, v). dset k v acc) xs ys)"
proof (induction ys arbitrary: xs)
  case (Cons y ys)
  have "(k, v) \<in> set (dset a b xs)" if "(k, v) \<in> set xs" "k \<noteq> a" for a b xs
    using that by (induction xs) auto
  with Cons show ?case by (cases y) auto
qed simp

lemma unexpired_kept:
  assumes plan: "rotation_plan ro timezone sv = Inr pl" and ok: "survey_ok ro files v sv" and tz: "ro_contract ro = Inr timezone"
    and m: "(i, m) \<in> set (sv_complete sv)" "i \<notin> fst ` set (sv_journal sv)" "i \<notin> set (sv_finalizing sv)"
    and frozen: "jget m ''frozen_at'' = JStr (format_time frozen)" "valid_datetime frozen"
    and stays: "\<not> expired (ro_env ro) (ro_now ro) timezone frozen \<or> protected_verified sv = Some i"
  shows "m \<in> set (pl_kept pl)"
proof -
  obtain d where d: "retention_decisions (ro_env ro) (ro_now ro) timezone (protected_verified sv) (points_of sv) = Inr d" "pl = plan_from sv d"
    using rotation_plan_Inr [OF plan] by blast
  have rec: "record_ok ro j x" if "(j, x) \<in> set (all_markers sv)" for j x
    using foldl_dset(3) [OF that [unfolded all_markers_def]] ok unfolding survey_ok_def complete_found_def journal_found_def fst_conv by blast
  then have ids: "id_of x = j" if "(j, x) \<in> set (all_markers sv)" for j x using that by (simp add: record_ok_def)
  have mem: "(i, m) \<in> set (all_markers sv)" unfolding all_markers_def by (rule foldl_dset_keeps [OF m(1,2)])
  from rec [OF this] obtain frozen' where im: "id_of m = i" "valid_datetime frozen'" "jget m ''frozen_at'' = JStr (format_time frozen')"
    "jget m ''generations'' = JArr (map JStr (sort (generation_tags (ro_env ro) frozen' timezone)))" using tz by (auto simp: record_ok_def)
  have "JStr (format_time frozen') = JStr (format_time frozen)" by (rule trans [OF im(3) [symmetric] frozen(1)])
  then have "parse_time (JStr (format_time frozen')) [] = parse_time (JStr (format_time frozen)) []" by (rule arg_cong)
  then have same: "frozen' = frozen" by (simp add: parse_format [OF frozen(2)] parse_format [OF im(2)])
  define p where "p = \<lparr>rp_id = i, rp_frozen = jget m ''frozen_at'', rp_generations = map text_of (elems (jget m ''generations''))\<rparr>"
  have "p \<in> set (points_of sv)" using mem im(1) by (force simp: points_of_def p_def)
  moreover have "map rp_id (points_of sv) = map fst (all_markers sv)" using ids by (auto simp: points_of_def)
  then have "distinct (map rp_id (points_of sv))"
    using ok by (simp add: all_markers_def foldl_dset(2) survey_ok_def complete_found_def)
  ultimately obtain c where c: "decide_point (ro_env ro) (ro_now ro) timezone (protected_verified sv) p = Inr c" "d i = Some c"
    using decisions_point [OF d(1)] by (fastforce simp: p_def)
  have "set (rp_generations p) = set (generation_tags (ro_env ro) frozen timezone)" by (simp add: p_def im(4) same comp_def)
  from keep_reasons_expired [OF this, of "ro_now ro" "protected_verified sv"] stays c
  have "is_keep (d i)" by (auto simp: decide_point_def returns p_def frozen(1) parse_format [OF frozen(2)] is_keep_def Let_def split: if_splits)
  then show ?thesis using m im(1) by (force simp: d(2) plan_from_def Let_def foldl_upd)
qed

text \<open>
  C11. Rotation and retention policy together: a complete recovery point that is not already being deleted and is either not yet expired
  by the policy or the newest of the verified points is kept, and whatever the remote answers and wherever the rotation stops,
  none of its data, its completion marker and its restore proof is deleted.
\<close>

theorem rotation_spares_unexpired:
  assumes "prepare_rotation ro (fresh r) = (Inr (sv, pl), t)" "ro_contract ro = Inr timezone"
    and "(i, m) \<in> set (sv_complete sv)" "i \<notin> fst ` set (sv_journal sv)" "i \<notin> set (sv_finalizing sv)"
    and "jget m ''frozen_at'' = JStr (format_time frozen)" "valid_datetime frozen"
    and "\<not> expired (ro_env ro) (ro_now ro) timezone frozen
      \<or> i \<in> set (sv_verified sv) \<and> (\<forall>j \<in> set (sv_verified sv). rank (all_markers sv) j \<le> rank (all_markers sv) i)"
  shows "m \<in> set (pl_kept pl) \<and> {p. Delete_File p \<in> set (writes (snd (rotate ro (fresh r))))}
      \<inter> (key_path ro ` set (keys_of m) \<union> {control_path ro ''complete'' i, control_path ro ''verified'' i}) = {}"
proof -
  note ok = prepare_returns [OF assms(1), of "\<lambda>_ _. None"]
  have plan: "rotation_plan ro timezone sv = Inr pl" and sv: "survey_ok ro (\<lambda>_ _. None) (\<lambda>_. None) sv" using ok assms(2) by auto
  have "\<not> expired (ro_env ro) (ro_now ro) timezone frozen \<or> protected_verified sv = Some i"
    using assms(8) protected_newest by blast
  then have kept: "m \<in> set (pl_kept pl)" by (rule unexpired_kept [OF plan sv assms(2-7)])
  have "id_of m = i" using sv assms(3) by (auto simp: survey_ok_def complete_found_def record_ok_def)
  with kept have "key_path ro ` set (keys_of m) \<union> {control_path ro ''complete'' i, control_path ro ''verified'' i} \<subseteq> needed_files ro pl"
    by (auto simp: needed_files_def)
  moreover obtain js ds where "subseq ds (if ro_dry_run ro then [] else delete_targets ro sv pl)"
    "writes (snd (rotate ro (fresh r))) = publications ro js @ map Delete_File ds"
    using rotate_outcome [OF assms(1) conjunct1 [OF ok]] unfolding calm_def append_Nil by blast
  then have "{p. Delete_File p \<in> set (writes (snd (rotate ro (fresh r))))} \<subseteq> set (delete_targets ro sv pl)"
    by (auto simp: publications_def split: if_splits dest: subseq_members)
  ultimately show ?thesis using kept targets_spare_needed [OF plan sv] by blast
qed

section \<open>Crashes\<close>

lemma with_journals_other: "(\<And>m. m \<in> set ms \<Longrightarrow> p \<noteq> control_path ro ''deleting'' (id_of m)) \<Longrightarrow> with_journals ro v ms p = v p"
  by (induction ms arbitrary: v) auto

lemma with_journals_present:
  "v p \<noteq> None \<or> (\<exists>m \<in> set ms. p = control_path ro ''deleting'' (id_of m)) \<Longrightarrow> with_journals ro v ms p \<noteq> None"
  by (induction ms arbitrary: v) auto

lemma prefix_before: "prefix zs (xs @ c # ys) \<Longrightarrow> e \<in> set zs \<Longrightarrow> e \<notin> set xs \<Longrightarrow> c \<in> set zs"
  by (auto simp: prefix_append prefix_Cons dest: set_mono_prefix)

text \<open>The completion marker of a point is planned before its journal.\<close>

lemma complete_before_journal:
  assumes "rotation_plan ro timezone sv = Inr pl" "survey_ok ro files v sv" "i \<in> fst ` set (pl_records pl)"
    and "prefix zs (delete_targets ro sv pl)" "control_path ro ''deleting'' i \<in> set zs"
  shows "control_path ro ''complete'' i \<in> set zs"
proof -
  from assms(3) obtain xs x ys where split: "pl_records pl = xs @ (i, x) # ys" "i \<notin> fst ` set xs"
    using split_list_first_prop [of "pl_records pl" "\<lambda>z. fst z = i"] by force
  obtain rest where targets: "delete_targets ro sv pl = concat (map (record_targets ro sv pl) xs) @ control_path ro ''complete'' i # rest"
    by (simp add: delete_targets_def split(1) record_targets_def Let_def)
  have "control_path ro ''deleting'' i \<notin> set (record_targets ro sv pl (j, y))" if "(j, y) \<in> set xs" for j y
  proof
    assume *: "control_path ro ''deleting'' i \<in> set (record_targets ro sv pl (j, y))"
    have y: "record_ok ro j y" using plan_records(2) [OF assms(1,2), of j y] that split(1) by simp
    have "j \<noteq> i" using split(2) that by force
    with record_targets_cases [OF *] y record_keys(3) [OF y] show False by (auto simp: control_path_eq record_ok_def) metis+
  qed
  then have "control_path ro ''deleting'' i \<notin> set (concat (map (record_targets ro sv pl) xs))" by auto
  with assms(4,5) show ?thesis unfolding targets by (rule prefix_before)
qed

lemma lawful_outcome:
  assumes "lawful (ro_rclone ro) files" "prepare_rotation ro (fresh r) = (Inr (sv, pl), t)"
  defines "planned \<equiv> if ro_dry_run ro then [] else pl_deleted pl" and "targets \<equiv> if ro_dry_run ro then [] else delete_targets ro sv pl"
  obtains ks zs where "prefix ks planned" "prefix zs targets" "zs = [] \<or> ks = planned"
    "files (rs_remote (snd (rotate ro (fresh r)))) = with_journals ro (files r) ks |` (- set zs)"
    "case fst (rotate ro (fresh r)) of Inl _ \<Rightarrow> True | Inr _ \<Rightarrow> ks = planned \<and> zs = targets"
proof -
  from rotate_outcome [OF assms(2) conjunct1 [OF prepare_returns [OF assms(2), of files]], folded planned_def targets_def]
  obtain js ks ds zs where o: "prefix ks planned" "prefix zs targets" "ds = [] \<and> zs = [] \<or> js = planned \<and> ks = planned"
    "calm ro files (with_journals ro (files r) ks |` (- set zs)) ([] @ publications ro js @ map Delete_File ds) (snd (rotate ro (fresh r)))"
    "case fst (rotate ro (fresh r)) of Inl _ \<Rightarrow> True | Inr x \<Rightarrow> x = (pl_decisions pl, delete_targets ro sv pl, ro_dry_run ro) \<and> ks = planned \<and> zs = targets"
    by (elim exE conjE) (rule that; assumption)
  show thesis
  proof (rule that [OF o(1,2)])
    show "zs = [] \<or> ks = planned" using o(3) by blast
    show "files (rs_remote (snd (rotate ro (fresh r)))) = with_journals ro (files r) ks |` (- set zs)" using o(4) assms(1) unfolding calm_def by blast
    show "case fst (rotate ro (fresh r)) of Inl _ \<Rightarrow> True | Inr _ \<Rightarrow> ks = planned \<and> zs = targets"
      using o(5) by (cases "fst (rotate ro (fresh r))") simp_all
  qed
qed

text \<open>
  C21. Every end of a rotation is a beginning of its plan. On a remote that keeps files as documented, the files after a rotation,
  whether it returned, failed or died, are those before it with the journals of the first few expired points added and then the first few
  files of the plan removed, the second only after all journals; and after a rotation that returned they are exactly those before it without the
  files of the plan, the journals included.
\<close>

theorem rotation_states:
  assumes "lawful (ro_rclone ro) files" "prepare_rotation ro (fresh r) = (Inr (sv, pl), t)" "rotate ro (fresh r) = (outcome, s)"
  shows "\<exists>ks zs. prefix ks (if ro_dry_run ro then [] else pl_deleted pl) \<and> prefix zs (if ro_dry_run ro then [] else delete_targets ro sv pl)
    \<and> (zs = [] \<or> ks = pl_deleted pl) \<and> files (rs_remote s) = with_journals ro (files r) ks |` (- set zs)
    \<and> (case outcome of Inl _ \<Rightarrow> True | Inr _ \<Rightarrow> files (rs_remote s) = files r |` (- (if ro_dry_run ro then {} else set (delete_targets ro sv pl))))"
proof -
  define planned where "planned = (if ro_dry_run ro then [] else pl_deleted pl)"
  define targets where "targets = (if ro_dry_run ro then [] else delete_targets ro sv pl)"
  obtain ks zs where o: "prefix ks planned" "prefix zs targets" "zs = [] \<or> ks = planned"
    "files (rs_remote s) = with_journals ro (files r) ks |` (- set zs)" "case outcome of Inl _ \<Rightarrow> True | Inr _ \<Rightarrow> ks = planned \<and> zs = targets"
    using lawful_outcome [OF assms(1,2)] unfolding assms(3) fst_conv snd_conv planned_def targets_def by metis
  have ok: "survey_ok ro files (files r) sv" "\<exists>timezone. rotation_plan ro timezone sv = Inr pl"
    using prepare_returns [OF assms(2), of files] by auto
  have "with_journals ro (files r) planned |` (- set targets) = files r |` (- set targets)"
  proof (cases "ro_dry_run ro")
    case False
    have "control_path ro ''deleting'' (id_of m) \<in> set (delete_targets ro sv pl)" if "m \<in> set (pl_deleted pl)" for m
    proof -
      have "id_of m \<in> fst ` set (pl_records pl)" using ok that plan_records(4) [OF _ ok(1)] by blast
      then obtain x where x: "(id_of m, x) \<in> set (pl_records pl)" by auto
      have "control_path ro ''deleting'' (id_of m) \<in> set (record_targets ro sv pl (id_of m, x))" by (simp add: record_targets_def Let_def)
      with x show ?thesis unfolding delete_targets_def by (auto intro!: bexI [of _ "(id_of m, x)"])
    qed
    then have "with_journals ro (files r) (pl_deleted pl) p = files r p" if "p \<notin> set (delete_targets ro sv pl)" for p
      using that by (intro with_journals_other) auto
    then show ?thesis using False by (auto simp: planned_def targets_def restrict_map_def)
  qed (simp add: planned_def)
  moreover have "set targets = (if ro_dry_run ro then {} else set (delete_targets ro sv pl))" by (simp add: targets_def)
  moreover have "zs = [] \<or> ks = pl_deleted pl" using o(2,3) by (auto simp: planned_def targets_def split: if_splits)
  ultimately show ?thesis
    using o unfolding planned_def targets_def by (intro exI [of _ ks] exI [of _ zs]) (auto split: sum.splits)
qed

text \<open>
  C6. A point that looks complete is complete. After a rotation that returned, failed or died anywhere, on a remote that keeps files as documented: if the
  completion marker of a point the rotation saw complete is still there and no deletion journal names the point, then the data of
  the point is all as it was before. A half-deleted point is always recognizable.
\<close>

theorem rotation_crash_consistent:
  assumes "lawful (ro_rclone ro) files" "prepare_rotation ro (fresh r) = (Inr (sv, pl), t)" "(i, m) \<in> set (sv_complete sv)"
    and "rotate ro (fresh r) = (outcome, s)"
    and "files (rs_remote s) (control_path ro ''complete'' i) \<noteq> None" "files (rs_remote s) (control_path ro ''deleting'' i) = None"
  shows "files (rs_remote s) |` (key_path ro ` set (keys_of m)) = files r |` (key_path ro ` set (keys_of m))"
proof -
  obtain ks zs where o: "prefix ks (if ro_dry_run ro then [] else pl_deleted pl)" "prefix zs (if ro_dry_run ro then [] else delete_targets ro sv pl)"
    "zs = [] \<or> ks = (if ro_dry_run ro then [] else pl_deleted pl)" "files (rs_remote s) = with_journals ro (files r) ks |` (- set zs)"
    using lawful_outcome [OF assms(1,2)] unfolding assms(4) fst_conv snd_conv by metis
  obtain timezone where ok: "survey_ok ro files (files r) sv" "rotation_plan ro timezone sv = Inr pl"
    using prepare_returns [OF assms(2), of files] by auto
  have m: "record_ok ro i m" "files r (control_path ro ''complete'' i) \<noteq> None"
    using ok(1) assms(1,3) by (auto simp: survey_ok_def complete_found_def)
  have same: "files (rs_remote s) (key_path ro k) = files r (key_path ro k)" if k: "k \<in> set (keys_of m)" for k
  proof (rule ccontr)
    assume "files (rs_remote s) (key_path ro k) \<noteq> files r (key_path ro k)"
    moreover have "with_journals ro (files r) ks (key_path ro k) = files r (key_path ro k)"
      using record_keys(3) [OF m(1) k] by (intro with_journals_other)
    ultimately have z: "key_path ro k \<in> set zs" by (simp add: o(4) restrict_map_def split: if_splits)
    then have run: "\<not> ro_dry_run ro" "ks = pl_deleted pl" "prefix zs (delete_targets ro sv pl)" using o(2,3) by (auto split: if_splits)
    then have "key_path ro k \<in> set (delete_targets ro sv pl)" using z set_mono_prefix by blast
    then have "k \<notin> set (referenced pl)"
      using record_keys [OF m(1) k] by (cases rule: delete_targets_cases) (auto simp: key_path_eq)
    then have "m \<notin> set (pl_kept pl)" using k by (auto simp: referenced_def)
    moreover have "i \<notin> set (sv_finalizing sv)" using ok(1) assms(1) m(2) by (auto simp: survey_ok_def journal_found_def)
    ultimately have rec: "i \<in> fst ` set (pl_records pl)" using plan_records(5) [OF ok(2,1) assms(3)] by blast
    have "with_journals ro (files r) (pl_deleted pl) (control_path ro ''deleting'' i) \<noteq> None"
    proof (rule with_journals_present)
      from rec consider "i \<in> fst ` set (sv_journal sv)" | "i \<in> id_of ` set (pl_deleted pl)" using plan_records(4) [OF ok(2,1)] by blast
      then show "files r (control_path ro ''deleting'' i) \<noteq> None \<or> (\<exists>m \<in> set (pl_deleted pl). control_path ro ''deleting'' i = control_path ro ''deleting'' (id_of m))"
      proof cases
        case 1
        with ok(1) assms(1) show ?thesis by (auto simp: survey_ok_def journal_found_def complete_found_def)
      qed auto
    qed
    with assms(6) have "control_path ro ''deleting'' i \<in> set zs" by (auto simp: o(4) run(2) restrict_map_def split: if_splits)
    then have "control_path ro ''complete'' i \<in> set zs" by (rule complete_before_journal [OF ok(2,1) rec run(3)])
    with assms(5) show False by (simp add: o(4))
  qed
  show ?thesis
    using same by (auto simp: restrict_map_def fun_eq_iff)
qed

section \<open>The sample\<close>

abbreviation two_days_later :: datetime where
  "two_days_later \<equiv> DateTime 2026 8 5 2 0 0 0"

lemma sample_unexpired: "\<not> expired (ro_env (sample_rotation two_days_later)) (ro_now (sample_rotation two_days_later)) (u ''UTC'') sample_frozen"
proof -
  have "to_ordinal sample_frozen = 739831" "to_ordinal two_days_later = 739833"
    by (simp_all add: to_ordinal_def sample_frozen_def upt_rec days_in_month_def is_leap_def)
  then show ?thesis
    by (simp add: expired_def sample_rotation_def sample_bk_env_def Let_def microseconds_def day_microseconds_def)
qed

lemma sample_contract: "ro_contract (sample_rotation now) = Inr (u ''UTC'')"
  by (simp add: sample_rotation_def)

lemma sample_kept:
  obtains pl t where "prepare_rotation (sample_rotation two_days_later) (fresh sample_store) = (Inr (sample_survey, pl), t)"
    "pl_deleted pl = []" "delete_targets (sample_rotation two_days_later) sample_survey pl = []"
proof -
  obtain c t where p: "prepare_rotation (sample_rotation two_days_later) (fresh sample_store)
      = (Inr (sample_survey, plan_from sample_survey [sample_backup_identity \<mapsto> c]), t)" using sample_prepares by blast
  note tz = sample_contract [of two_days_later]
  from prepare_returns [OF p, of store_files] tz have ok: "survey_ok (sample_rotation two_days_later) store_files (store_files sample_store) sample_survey"
    "rotation_plan (sample_rotation two_days_later) (u ''UTC'') sample_survey = Inr (plan_from sample_survey [sample_backup_identity \<mapsto> c])" by auto
  have "sample_record (replicate 64 48) \<in> set (pl_kept (plan_from sample_survey [sample_backup_identity \<mapsto> c]))"
    by (rule unexpired_kept [OF ok(2,1) tz, of sample_backup_identity _ sample_frozen])
      (use sample_unexpired sample_point_ok(2) in \<open>simp_all add: sample_survey_def sample_record_def jget_Cons del: u_Cons\<close>)
  then have "is_keep ([sample_backup_identity \<mapsto> c] (id_of (sample_record (replicate 64 48))))" by (simp add: plan_from_def sample_survey_def Let_def split: if_splits)
  then have d: "pl_deleted (plan_from sample_survey [sample_backup_identity \<mapsto> c]) = []"
    by (auto simp: plan_from_def sample_survey_def is_keep_def Let_def)
  then have "delete_targets (sample_rotation two_days_later) sample_survey (plan_from sample_survey [sample_backup_identity \<mapsto> c]) = []"
    by (simp add: delete_targets_def plan_from_def Let_def sample_survey_def)
  with that p d show thesis by blast
qed

theorem rotation_spares_unexpired_witness:
  "\<exists>pl t. prepare_rotation (sample_rotation two_days_later) (fresh sample_store) = (Inr (sample_survey, pl), t)
     \<and> sample_record (replicate 64 48) \<in> set (pl_kept pl)"
proof -
  obtain pl t where p: "prepare_rotation (sample_rotation two_days_later) (fresh sample_store) = (Inr (sample_survey, pl), t)"
    using sample_kept by blast
  have "sample_record (replicate 64 48) \<in> set (pl_kept pl)"
    by (rule conjunct1 [OF rotation_spares_unexpired [OF p, of "u ''UTC''" sample_backup_identity "sample_record (replicate 64 48)" sample_frozen]])
      (use sample_unexpired sample_point_ok(2) in
        \<open>simp_all add: sample_survey_def sample_record_def jget_Cons sample_contract del: u_Cons\<close>)
  with p show ?thesis by blast
qed

theorem rotation_states_witness:
  "\<exists>pl t outcome s ks zs. prepare_rotation (sample_rotation (DateTime 2026 11 11 2 0 0 0)) (fresh sample_store) = (Inr (sample_survey, pl), t)
     \<and> rotate (sample_rotation (DateTime 2026 11 11 2 0 0 0)) (fresh sample_store) = (outcome, s)
     \<and> prefix zs (delete_targets (sample_rotation (DateTime 2026 11 11 2 0 0 0)) sample_survey pl)
     \<and> store_files (rs_remote s) = with_journals (sample_rotation (DateTime 2026 11 11 2 0 0 0)) (store_files sample_store) ks |` (- set zs)"
proof -
  obtain pl t where p: "prepare_rotation (sample_rotation (DateTime 2026 11 11 2 0 0 0)) (fresh sample_store) = (Inr (sample_survey, pl), t)"
    using sample_prepares by blast
  obtain outcome s where r: "rotate (sample_rotation (DateTime 2026 11 11 2 0 0 0)) (fresh sample_store) = (outcome, s)"
    by (cases "rotate (sample_rotation (DateTime 2026 11 11 2 0 0 0)) (fresh sample_store)")
  have rc: "ro_rclone (sample_rotation now) = store_rclone" "ro_dry_run (sample_rotation now) = False" for now by (simp_all add: sample_rotation_def)
  obtain ks zs where "prefix zs (delete_targets (sample_rotation (DateTime 2026 11 11 2 0 0 0)) sample_survey pl)"
    "store_files (rs_remote s) = with_journals (sample_rotation (DateTime 2026 11 11 2 0 0 0)) (store_files sample_store) ks |` (- set zs)"
    using rotation_states [of "sample_rotation (DateTime 2026 11 11 2 0 0 0)" store_files, unfolded rc, OF store_lawful p r] by auto
  with p r show ?thesis by blast
qed

theorem rotation_crash_consistent_witness:
  "\<exists>outcome s. rotate (sample_rotation two_days_later) (fresh sample_store) = (outcome, s)
     \<and> store_files (rs_remote s) |` (key_path (sample_rotation two_days_later) ` set (keys_of (sample_record (replicate 64 48))))
       = store_files sample_store |` (key_path (sample_rotation two_days_later) ` set (keys_of (sample_record (replicate 64 48))))"
proof -
  obtain pl t where p: "prepare_rotation (sample_rotation two_days_later) (fresh sample_store) = (Inr (sample_survey, pl), t)"
    "pl_deleted pl = []" "delete_targets (sample_rotation two_days_later) sample_survey pl = []"
    by (rule sample_kept)
  obtain outcome s where r: "rotate (sample_rotation two_days_later) (fresh sample_store) = (outcome, s)"
    by (cases "rotate (sample_rotation two_days_later) (fresh sample_store)")
  have rc: "ro_rclone (sample_rotation two_days_later) = store_rclone" by (simp add: sample_rotation_def)
  have lawful: "lawful (ro_rclone (sample_rotation two_days_later)) store_files" by (simp add: rc store_lawful)
  obtain ks zs where "prefix ks []" "prefix zs []" "store_files (rs_remote s) = with_journals (sample_rotation two_days_later) (store_files sample_store) ks |` (- set zs)"
    using lawful_outcome [OF lawful p(1)] unfolding p(2,3) r fst_conv snd_conv by (metis if_cancel)
  then have same: "store_files (rs_remote s) = store_files sample_store" by (simp add: restrict_map_def)
  have paths: "control_path (sample_rotation two_days_later) ''complete'' sample_backup_identity = sample_complete_path"
    "control_path (sample_rotation two_days_later) ''deleting'' sample_backup_identity \<notin> set (map fst sample_store)"
    by (simp_all add: control_path_def sample_roots sample_complete_path_def sample_manifest_path_def sample_store_def)
  then have "store_files sample_store (control_path (sample_rotation two_days_later) ''deleting'' sample_backup_identity) = None"
    by (simp add: store_files_def map_of_eq_None_iff)
  from rotation_crash_consistent [OF lawful p(1) _ r _ this [folded same], of "sample_record (replicate 64 48)"]
  have "store_files (rs_remote s) |` (key_path (sample_rotation two_days_later) ` set (keys_of (sample_record (replicate 64 48))))
       = store_files sample_store |` (key_path (sample_rotation two_days_later) ` set (keys_of (sample_record (replicate 64 48))))"
    by (simp add: sample_survey_def same paths sample_files)
  with r show ?thesis by blast
qed

end
