(* ===== verification/Bk_Objects.thy ===== *)
theory Bk_Objects
  imports Bk_Manifest Actions
begin

text \<open>
  The first part of \<open>scripts/backup_recovery/backup.py\<close> and the inventory of \<open>model.py\<close>: the publication of content-addressed
  ciphertexts with its local checkpoints, and the precopy. The remote, the tools, the clock and
  the local files are typed primitives of a host; every use of the remote is logged, with what it answered.
\<close>

section \<open>The host\<close>

type_synonym ('h, 'a) prim = "'h \<Rightarrow> (bexc + 'a) \<times> 'h"

datatype question = Exists | Is_File | Is_Dir | Is_Symlink

datatype producer = Pg_Dump | Tar "ustr list"

text \<open>A size and a digest.\<close>

type_synonym fingerprint = "int \<times> ustr"

record 'h bhost =
  bh_now :: "('h, datetime) prim"
  bh_uuid :: "('h, ustr) prim"
  bh_exists :: "ustr \<Rightarrow> ('h, bool) prim"
  bh_read :: "ustr \<Rightarrow> ('h, blob) prim"
  bh_hash :: "ustr \<Rightarrow> ('h, fingerprint) prim"
  bh_upload_file :: "ustr \<Rightarrow> ustr \<Rightarrow> ('h, unit) prim"
  bh_upload :: "blob \<Rightarrow> ustr \<Rightarrow> ('h, unit) prim"
  bh_encrypt_command :: "producer \<Rightarrow> ustr \<Rightarrow> ('h, fingerprint \<times> fingerprint) prim"
  bh_encrypt_bytes :: "blob \<Rightarrow> ustr \<Rightarrow> ('h, fingerprint) prim"
  bh_encrypt_file :: "ustr \<Rightarrow> ustr \<Rightarrow> ('h, fingerprint \<times> fingerprint) prim"
  bh_psql :: "string \<Rightarrow> ('h, ustr) prim"
  bh_tool :: "string \<Rightarrow> ('h, ustr) prim"
  bh_ask :: "question \<Rightarrow> ustr \<Rightarrow> ('h, bool) prim"
  bh_inode :: "ustr \<Rightarrow> ('h, nat) prim"
  bh_tree :: "ustr \<Rightarrow> ('h, ustr list) prim"
  bh_residues :: "ustr \<Rightarrow> string \<Rightarrow> ('h, ustr list) prim"
  bh_local_hash :: "ustr \<Rightarrow> ('h, fingerprint) prim"
  bh_local_read :: "ustr \<Rightarrow> ('h, blob) prim"
  bh_local_write :: "ustr \<Rightarrow> blob \<Rightarrow> ('h, unit) prim"
  bh_remove :: "ustr \<Rightarrow> ('h, unit) prim"
  bh_remove_tree :: "ustr \<Rightarrow> ('h, unit) prim"
  bh_make_dir :: "ustr \<Rightarrow> ('h, unit) prim"

text \<open>What is done to the remote: attempts to upload, and what a read or a hash of it returned.\<close>

datatype revent = Upload_Of ustr ustr | Upload_Bytes ustr blob | Upload_Encrypted ustr | Hash_Is ustr fingerprint | Read_Is ustr blob

record 'h bstate =
  bs_host :: 'h
  bs_log :: "revent list"

type_synonym ('h, 'a) bact = "('h bstate, bexc, 'a) act"

record 'h builder =
  bb_host :: "'h bhost"
  bb_env :: bk_env
  bb_prefix :: ustr
  bb_recipient :: ustr
  bb_key :: blob
  bb_key_id :: ustr
  bb_source :: ustr
  bb_repository :: ustr
  bb_state :: ustr
  bb_timezone :: ustr
  bb_allowlist :: "ustr list"
  bb_environ :: "string \<Rightarrow> ustr option"

definition prim :: "('h, 'a) prim \<Rightarrow> ('h, 'a) bact" where
  "prim f s = (case f (bs_host s) of (r, h) \<Rightarrow> (r, s\<lparr>bs_host := h\<rparr>))"

definition record_event :: "revent \<Rightarrow> ('h, unit) bact" where
  "record_event e s = (Inr (), s\<lparr>bs_log := bs_log s @ [e]\<rparr>)"

definition remote_hash :: "'h builder \<Rightarrow> ustr \<Rightarrow> ('h, fingerprint) bact" where
  "remote_hash bb k = seq (prim (bh_hash (bb_host bb) k)) (\<lambda>x. seq (record_event (Hash_Is k x)) (\<lambda>_. result (Inr x)))"

definition remote_read :: "'h builder \<Rightarrow> ustr \<Rightarrow> ('h, blob) bact" where
  "remote_read bb k = seq (prim (bh_read (bb_host bb) k)) (\<lambda>x. seq (record_event (Read_Is k x)) (\<lambda>_. result (Inr x)))"

definition remote_upload :: "'h builder \<Rightarrow> blob \<Rightarrow> ustr \<Rightarrow> ('h, unit) bact" where
  "remote_upload bb b k = seq (record_event (Upload_Bytes k b)) (\<lambda>_. prim (bh_upload (bb_host bb) b k))"

definition remote_upload_file :: "'h builder \<Rightarrow> ustr \<Rightarrow> ustr \<Rightarrow> ('h, unit) bact" where
  "remote_upload_file bb p k = seq (record_event (Upload_Of k p)) (\<lambda>_. prim (bh_upload_file (bb_host bb) p k))"

definition encrypt_command :: "'h builder \<Rightarrow> producer \<Rightarrow> ustr \<Rightarrow> ('h, fingerprint \<times> fingerprint) bact" where
  "encrypt_command bb c k = seq (record_event (Upload_Encrypted k)) (\<lambda>_. prim (bh_encrypt_command (bb_host bb) c k))"

definition encrypt_bytes :: "'h builder \<Rightarrow> blob \<Rightarrow> ustr \<Rightarrow> ('h, fingerprint) bact" where
  "encrypt_bytes bb b k = seq (record_event (Upload_Encrypted k)) (\<lambda>_. prim (bh_encrypt_bytes (bb_host bb) b k))"

abbreviation ask_path :: "'h builder \<Rightarrow> question \<Rightarrow> ustr \<Rightarrow> ('h, bool) bact" where
  "ask_path bb q p \<equiv> prim (bh_ask (bb_host bb) q p)"

abbreviation insist :: "bool \<Rightarrow> string \<Rightarrow> ('s, bexc, unit) act" where
  "insist b msg \<equiv> result (demand b msg)"

section \<open>Identities and inventory\<close>

definition id_stamp :: "datetime \<Rightarrow> ustr" where
  "id_stamp t = decimal 4 (dt_year t) @ decimal 2 (dt_month t) @ decimal 2 (dt_day t) @ u ''T''
     @ decimal 2 (dt_hour t) @ decimal 2 (dt_minute t) @ decimal 2 (dt_second t) @ u ''Z''"

definition new_backup_id :: "datetime \<Rightarrow> ustr \<Rightarrow> ustr" where
  "new_backup_id now uuid = id_stamp now @ [45] @ uuid"

record fitem =
  fi_path :: ustr
  fi_size :: int
  fi_digest :: ustr

definition item_json :: "fitem \<Rightarrow> json" where
  "item_json i = JObj [(u ''path'', JStr (fi_path i)), (u ''size'', JInt (fi_size i)), (u ''sha256'', JStr (fi_digest i))]"

definition under :: "ustr \<Rightarrow> ustr \<Rightarrow> ustr" where
  "under root p = root @ [47] @ p"

definition sha256_file :: "'h builder \<Rightarrow> ustr \<Rightarrow> ('h, fingerprint) bact" where
  "sha256_file bb p =
     seq (prim (bh_inode (bb_host bb) p)) (\<lambda>before.
     seq (ask_path bb Is_File p) (\<lambda>file.
     seq (if \<not> file then result (Inr True) else ask_path bb Is_Symlink p) (\<lambda>unsafe_object.
     seq (insist (\<not> unsafe_object) ''source object is not a regular file'') (\<lambda>_.
     seq (prim (bh_local_hash (bb_host bb) p)) (\<lambda>x.
     seq (prim (bh_inode (bb_host bb) p)) (\<lambda>after.
     seq (insist (after = before) ''source object changed identity while hashing'') (\<lambda>_. result (Inr x))))))))"

text \<open>\<open>bh_tree\<close> gives the paths below a directory, relative to it, in order.\<close>

definition inventory_round :: "'h builder \<Rightarrow> ustr \<Rightarrow> ustr list \<Rightarrow> ustr \<Rightarrow> fitem list \<Rightarrow> ('h, fitem list) bact" where
  "inventory_round bb root excluded p acc =
     seq (ask_path bb Is_Dir (under root p)) (\<lambda>dir.
       if dir then result (Inr acc)
       else if hd (split_on 47 p) \<in> set excluded then result (Inr acc)
       else seq (sha256_file bb (under root p)) (\<lambda>x. result (Inr (acc @ [\<lparr>fi_path = p, fi_size = fst x, fi_digest = snd x\<rparr>]))))"

definition inventory :: "'h builder \<Rightarrow> ustr \<Rightarrow> ustr list \<Rightarrow> ('h, fitem list) bact" where
  "inventory bb root excluded =
     seq (if starts_with (u ''/'') root then ask_path bb Is_Dir root else result (Inr False)) (\<lambda>dir.
     seq (insist dir ''source root must be an existing absolute directory'') (\<lambda>_.
     seq (insist (list_all (\<lambda>n. n \<noteq> [] \<and> n \<noteq> u ''.'' \<and> n \<noteq> u ''..'' \<and> 47 \<notin> set n \<and> 92 \<notin> set n) excluded) ''invalid inventory exclusion'') (\<lambda>_.
     seq (prim (bh_tree (bb_host bb) root)) (\<lambda>ps. loop (inventory_round bb root excluded) ps []))))"

section \<open>Construction\<close>

definition builder_checks :: "ustr \<Rightarrow> ustr \<Rightarrow> ustr \<Rightarrow> bexc + ustr" where
  "builder_checks recipient_key_id prefix recipient =
     andthen (demand (recipient_key_id \<noteq> [] \<and> list_all (\<lambda>c. c \<notin> {47, 92, 32, 9, 10}) recipient_key_id)
       ''invalid recipient key id'') (\<lambda>_.
     andthen (remote_prefix prefix ''invalid remote prefix'') (\<lambda>p.
     andthen (demand (starts_with (u ''age1'') recipient \<and> \<not> list_ex is_space recipient) ''invalid age X25519 recipient'') (\<lambda>_. Inr p)))"

definition cas_key_of :: "'h builder \<Rightarrow> ustr \<Rightarrow> ustr" where
  "cas_key_of bb digest = cas_root (bb_prefix bb) @ digest @ [47] @ bb_recipient bb @ u ''.age''"

definition cas_meta_key_of :: "'h builder \<Rightarrow> ustr \<Rightarrow> ustr" where
  "cas_meta_key_of bb digest = cas_root (bb_prefix bb) @ digest @ [47] @ bb_recipient bb @ u ''.json''"

definition cas_stage_root :: "'h builder \<Rightarrow> ustr \<Rightarrow> ustr" where
  "cas_stage_root bb digest = bb_state bb @ u ''/cas-publications/'' @ digest @ [47] @ bb_recipient bb"

section \<open>Content-addressed objects\<close>

definition validate_cas_metadata :: "'h builder \<Rightarrow> json \<Rightarrow> fitem \<Rightarrow> bexc + jobj" where
  "validate_cas_metadata bb v i =
     (let m = items v in
      if is_obj v \<and> keys_are m [''schema_version'', ''plaintext_size'', ''plaintext_sha256'', ''ciphertext_size'', ''ciphertext_sha256'', ''recipient_key_id'']
        \<and> int_of (jget m ''schema_version'') = Some 1 \<and> jget m ''plaintext_sha256'' = JStr (fi_digest i)
        \<and> int_of (jget m ''plaintext_size'') = Some (fi_size i) \<and> jget m ''recipient_key_id'' = JStr (bb_recipient bb)
        \<and> (case jget m ''ciphertext_size'' of JInt n \<Rightarrow> 0 < n | _ \<Rightarrow> False)
        \<and> is_str (jget m ''ciphertext_sha256'') \<and> hex_text 64 (text_of (jget m ''ciphertext_sha256''))
      then Inr m else Inl (SafetyError ''content-addressed metadata mismatch''))"

definition cas_metadata :: "'h builder \<Rightarrow> fingerprint \<Rightarrow> fingerprint \<Rightarrow> jobj" where
  "cas_metadata bb plain cipher = [(u ''schema_version'', JInt 1), (u ''plaintext_size'', JInt (fst plain)), (u ''plaintext_sha256'', JStr (snd plain)),
     (u ''ciphertext_size'', JInt (fst cipher)), (u ''ciphertext_sha256'', JStr (snd cipher)), (u ''recipient_key_id'', JStr (bb_recipient bb))]"

definition cipher_of :: "jobj \<Rightarrow> fingerprint" where
  "cipher_of m = (case int_of (jget m ''ciphertext_size'') of None \<Rightarrow> 0 | Some n \<Rightarrow> n, text_of (jget m ''ciphertext_sha256''))"

text \<open>The object is complete on the remote.\<close>

definition reuse_object :: "'h builder \<Rightarrow> fitem \<Rightarrow> ('h, jobj) bact" where
  "reuse_object bb i =
     (let digest = fi_digest i; key = cas_key_of bb digest; stage = cas_stage_root bb digest in
     seq (remote_read bb (cas_meta_key_of bb digest)) (\<lambda>b.
     seq (result (andthen (bk_loads (bb_env bb) b) (\<lambda>v. validate_cas_metadata bb v i))) (\<lambda>m.
     seq (remote_hash bb key) (\<lambda>x.
     seq (insist (x = cipher_of m) ''content-addressed metadata mismatch'') (\<lambda>_.
     seq (ask_path bb Exists stage) (\<lambda>present.
     seq (if \<not> present then result (Inr ())
          else seq (ask_path bb Is_Dir stage) (\<lambda>dir.
               seq (if \<not> dir then result (Inr True) else ask_path bb Is_Symlink stage) (\<lambda>unsafe_stage.
               seq (insist (\<not> unsafe_stage) ''unsafe completed CAS publication checkpoint'') (\<lambda>_.
                 prim (bh_remove_tree (bb_host bb) stage))))) (\<lambda>_.
       result (Inr [(u ''name'', JStr (u ''file:'' @ fi_path i)), (u ''key'', JStr key), (u ''plaintext_size'', JInt (fi_size i)),
         (u ''plaintext_sha256'', JStr digest), (u ''ciphertext_size'', jget m ''ciphertext_size''), (u ''ciphertext_sha256'', jget m ''ciphertext_sha256'')]))))))))"

text \<open>\<open>shutil.rmtree(path, ignore_errors=True)\<close>.\<close>

definition discard_tree :: "'h builder \<Rightarrow> ustr \<Rightarrow> ('h, unit) bact" where
  "discard_tree bb p s = (case prim (bh_remove_tree (bb_host bb) p) s of (r, t) \<Rightarrow> (if r = Inl Bk_Killed then Inl Bk_Killed else Inr (), t))"

definition remove_residue :: "'h builder \<Rightarrow> ustr \<Rightarrow> ('h, unit) bact" where
  "remove_residue bb p =
     seq (ask_path bb Is_File p) (\<lambda>file.
     seq (if \<not> file then result (Inr True) else ask_path bb Is_Symlink p) (\<lambda>unsafe_residue.
     seq (insist (\<not> unsafe_residue) ''unsafe CAS publication temporary residue'') (\<lambda>_. prim (bh_remove (bb_host bb) p))))"

definition clear_residues :: "'h builder \<Rightarrow> ustr \<Rightarrow> ('h, unit) bact" where
  "clear_residues bb stage = loop (\<lambda>pattern _. seq (prim (bh_residues (bb_host bb) stage pattern)) (\<lambda>ps. loop (\<lambda>p _. remove_residue bb p) ps ()))
     [''.ciphertext.age.*.encrypting'', ''.metadata.json.*.tmp''] ()"

text \<open>The local checkpoint: ciphertext and metadata, complete, with the metadata missing, or made now.\<close>

definition write_metadata :: "'h builder \<Rightarrow> ustr \<Rightarrow> jobj \<Rightarrow> ('h, jobj) bact" where
  "write_metadata bb path m = seq (prim (bh_local_write (bb_host bb) path (bk_json (bb_env bb) (JObj m)))) (\<lambda>_. result (Inr m))"

definition stage_object :: "'h builder \<Rightarrow> fitem \<Rightarrow> ('h, jobj) bact" where
  "stage_object bb i =
     (let digest = fi_digest i; source = under (bb_source bb) (fi_path i); stage = cas_stage_root bb digest;
          cipher = stage @ u ''/ciphertext.age''; meta = stage @ u ''/metadata.json'' in
     seq (prim (bh_make_dir (bb_host bb) stage)) (\<lambda>_.
     seq (clear_residues bb stage) (\<lambda>_.
     seq (ask_path bb Is_File cipher) (\<lambda>has_cipher.
     seq (if has_cipher then ask_path bb Is_File meta else result (Inr False)) (\<lambda>has_both.
     if has_both then
       seq (prim (bh_local_read (bb_host bb) meta)) (\<lambda>b.
       seq (result (andthen (bk_loads (bb_env bb) b) (\<lambda>v. validate_cas_metadata bb v i))) (\<lambda>m.
       seq (prim (bh_local_hash (bb_host bb) cipher)) (\<lambda>x.
       seq (insist (x = cipher_of m) ''local CAS publication checkpoint mismatch'') (\<lambda>_. result (Inr m)))))
     else
       seq (if has_cipher then seq (ask_path bb Exists meta) (\<lambda>present. result (Inr (\<not> present))) else result (Inr False)) (\<lambda>resumable.
       if resumable then
         seq (prim (bh_local_hash (bb_host bb) source)) (\<lambda>plain.
         seq (insist (plain = (fi_size i, digest)) ''source changed while recovering CAS publication checkpoint'') (\<lambda>_.
         seq (prim (bh_local_hash (bb_host bb) cipher)) (\<lambda>x. write_metadata bb meta (cas_metadata bb plain x))))
       else
         seq (ask_path bb Exists cipher) (\<lambda>present.
         seq (if present then result (Inr True) else ask_path bb Exists meta) (\<lambda>incomplete.
         seq (insist (\<not> incomplete) ''local CAS publication checkpoint is incomplete'') (\<lambda>_.
         seq (prim (bh_encrypt_file (bb_host bb) source cipher)) (\<lambda>(plain, x).
           if plain \<noteq> (fi_size i, digest)
           then seq (discard_tree bb stage) (\<lambda>_. result (Inl (SafetyError ''source changed between inventory and encryption'')))
           else write_metadata bb meta (cas_metadata bb plain x)))))))))))"

definition publish_file_object :: "'h builder \<Rightarrow> fitem \<Rightarrow> ('h, jobj) bact" where
  "publish_file_object bb i =
     (let digest = fi_digest i; key = cas_key_of bb digest; meta_key = cas_meta_key_of bb digest; stage = cas_stage_root bb digest in
     seq (prim (bh_exists (bb_host bb) key)) (\<lambda>age_exists.
     seq (prim (bh_exists (bb_host bb) meta_key)) (\<lambda>meta_exists.
     if age_exists \<and> meta_exists then reuse_object bb i
     else
       seq (stage_object bb i) (\<lambda>m.
       seq (if age_exists
            then seq (remote_hash bb key) (\<lambda>x. insist (x = cipher_of m) ''remote CAS ciphertext conflicts with local checkpoint'')
            else seq (remote_upload_file bb (stage @ u ''/ciphertext.age'') key) (\<lambda>_.
                 seq (remote_hash bb key) (\<lambda>x. insist (x = cipher_of m) ''remote file ciphertext verification failed''))) (\<lambda>_.
       let expected = bk_json (bb_env bb) (JObj m) in
       seq (if meta_exists
            then seq (remote_read bb meta_key) (\<lambda>b. insist (b = expected) ''remote CAS metadata conflicts with local checkpoint'')
            else seq (remote_upload bb expected meta_key) (\<lambda>_.
                 seq (remote_read bb meta_key) (\<lambda>b. insist (b = expected) ''remote CAS metadata verification failed''))) (\<lambda>_.
       seq (discard_tree bb stage) (\<lambda>_.
         result (Inr ([(u ''name'', JStr (u ''file:'' @ fi_path i)), (u ''key'', JStr key)] @ without ''schema_version'' m)))))))))"

section \<open>Precopy\<close>

definition inject_failure :: "'h builder \<Rightarrow> string \<Rightarrow> ('h, unit) bact" where
  "inject_failure bb stage = result (checks
     [demand (stage \<in> set [''files'', ''dump'', ''manifest'', ''encryption'', ''upload'']) ''unknown backup failure stage'',
      demand (bb_environ bb ''BACKUP_FAIL_STAGE'' \<noteq> Some (u stage)) ''injected backup failure''])"

definition precopy_round :: "'h builder \<Rightarrow> fitem \<Rightarrow> int \<times> int \<Rightarrow> ('h, int \<times> int) bact" where
  "precopy_round bb i acc =
     seq (prim (bh_exists (bb_host bb) (cas_key_of bb (fi_digest i)))) (\<lambda>existed.
     seq (publish_file_object bb i) (\<lambda>_. result (Inr (fst acc + of_bool (\<not> existed), snd acc + of_bool existed))))"

definition precopy :: "'h builder \<Rightarrow> ('h, jobj) bact" where
  "precopy bb =
     seq (prim (bh_now (bb_host bb))) (\<lambda>started.
     seq (inject_failure bb ''files'') (\<lambda>_.
     seq (inventory bb (bb_source bb) [u ''temporary'']) (\<lambda>files.
     seq (loop (precopy_round bb) files (0, 0)) (\<lambda>(published, reused).
     seq (prim (bh_now (bb_host bb))) (\<lambda>finished.
     let r = [(u ''status'', JStr (u ''precopy_only_not_a_restore_point'')), (u ''started_at'', JStr (format_time started)),
              (u ''completed_at'', JStr (format_time finished)), (u ''file_count'', JInt (int (length files))),
              (u ''file_bytes'', JInt (sum_list (map fi_size files))), (u ''published'', JInt published), (u ''reused'', JInt reused)] in
     seq (prim (bh_local_write (bb_host bb) (bb_state bb @ u ''/last-precopy.json'') (bk_json (bb_env bb) (JObj r)))) (\<lambda>_. result (Inr r)))))))"

end
