(* ===== verification/Bk_Publish.thy ===== *)
theory Bk_Publish
  imports Bk_Backup
begin

text \<open>
  What a finalization publishes, and in which order: the completion marker last, after everything it names was read back.
\<close>

section \<open>Growing logs\<close>

fun uploads_to :: "revent \<Rightarrow> ustr option" where
  "uploads_to (Upload_Of k _) = Some k"
| "uploads_to (Upload_Bytes k _) = Some k"
| "uploads_to (Upload_Encrypted k) = Some k"
| "uploads_to _ = None"

text \<open>No completion marker is uploaded.\<close>

definition unmarked :: "'h builder \<Rightarrow> revent list \<Rightarrow> bool" where
  "unmarked bb es \<longleftrightarrow> (\<forall>e \<in> set es. \<forall>k. uploads_to e = Some k \<longrightarrow> \<not> starts_with (bb_prefix bb @ u ''/complete/'') k)"

definition grows :: "'h builder \<Rightarrow> 'h bstate \<Rightarrow> 'h bstate \<Rightarrow> bool" where
  "grows bb s t \<longleftrightarrow> (\<exists>es. bs_log t = bs_log s @ es \<and> unmarked bb es)"

lemma grows_refl: "bs_log t = bs_log s \<Longrightarrow> grows bb s t"
  by (simp add: grows_def unmarked_def)

lemma grows_trans: "grows bb s t \<Longrightarrow> grows bb t w \<Longrightarrow> grows bb s w"
  by (auto simp: grows_def unmarked_def)

lemma grows_set: "grows bb s t \<Longrightarrow> set (bs_log s) \<subseteq> set (bs_log t)"
  by (auto simp: grows_def)

text \<open>An action that uploads no completion marker and whose value stands in a relation \<open>P\<close> to the events of the log.\<close>

definition does :: "'h builder \<Rightarrow> ('h, 'a) bact \<Rightarrow> ('a \<Rightarrow> revent set \<Rightarrow> bool) \<Rightarrow> bool" where
  "does bb m P \<longleftrightarrow> (\<forall>s. wp m (\<lambda>x t. grows bb s t \<and> P x (set (bs_log t))) (\<lambda>_ t. grows bb s t) s)"

definition lasting :: "('a \<Rightarrow> revent set \<Rightarrow> bool) \<Rightarrow> bool" where
  "lasting P \<longleftrightarrow> (\<forall>x L L'. P x L \<longrightarrow> L \<subseteq> L' \<longrightarrow> P x L')"

lemma does_seq:
  assumes "does bb m P" "\<And>x L. P x L \<Longrightarrow> does bb (k x) (\<lambda>y L'. L \<subseteq> L' \<longrightarrow> R y L')"
  shows "does bb (seq m k) R"
  unfolding does_def wp_seq
proof
  fix s
  show "wp m (\<lambda>x. wp (k x) (\<lambda>y t. grows bb s t \<and> R y (set (bs_log t))) (\<lambda>_ t. grows bb s t)) (\<lambda>_ t. grows bb s t) s"
  proof (rule wp_mono [OF spec [OF assms(1) [unfolded does_def]]])
    fix x t
    assume t: "grows bb s t \<and> P x (set (bs_log t))"
    from assms(2) [of x "set (bs_log t)"] t
    have "wp (k x) (\<lambda>y w. grows bb t w \<and> (set (bs_log t) \<subseteq> set (bs_log w) \<longrightarrow> R y (set (bs_log w)))) (\<lambda>_ w. grows bb t w) t"
      unfolding does_def by blast
    then show "wp (k x) (\<lambda>y t. grows bb s t \<and> R y (set (bs_log t))) (\<lambda>_ t. grows bb s t) t"
      by (rule wp_mono) (use t in \<open>auto dest: grows_trans grows_set\<close>)
  qed
qed

lemma does_weaken: "does bb m P \<Longrightarrow> (\<And>x L. P x L \<Longrightarrow> Q x L) \<Longrightarrow> does bb m Q"
  unfolding does_def by (blast intro: wp_mono)

text \<open>The same with only what is known of the value.\<close>

lemma does_then:
  assumes "does bb m P" "\<And>x. (\<exists>L. P x L) \<Longrightarrow> does bb (k x) R"
  shows "does bb (seq m k) R"
proof (rule does_seq [of bb m "\<lambda>x _. \<exists>L. P x L"])
  show "does bb m (\<lambda>x _. \<exists>L. P x L)" by (rule does_weaken [OF assms(1)]) blast
  show "does bb (k x) (\<lambda>y L'. L \<subseteq> L' \<longrightarrow> R y L')" if "\<exists>L. P x L" for x L
    by (rule does_weaken [OF assms(2) [OF that]]) simp
qed

lemma does_result: "(\<And>x L. r = Inr x \<Longrightarrow> P x L) \<Longrightarrow> does bb (result r) P"
  unfolding does_def by (auto intro!: wp_resultI grows_refl)

lemma does_prim: "does bb (prim f) (\<lambda>_ _. True)"
  unfolding does_def wp_def prim_def by (auto intro: grows_refl split: prod.splits sum.splits)

lemma does_if: "(b \<Longrightarrow> does bb m P) \<Longrightarrow> (\<not> b \<Longrightarrow> does bb k P) \<Longrightarrow> does bb (if b then m else k) P"
  by simp

lemma does_case: "(\<And>a b. x = (a, b) \<Longrightarrow> does bb (f a b) P) \<Longrightarrow> does bb (case x of (a, b) \<Rightarrow> f a b) P"
  by (cases x) simp

lemma does_event: "unmarked bb [e] \<Longrightarrow> does bb (record_event e) (\<lambda>_ L. e \<in> L)"
  by (auto simp: does_def wp_def record_event_def grows_def)

lemma does_hash: "does bb (remote_hash bb k) (\<lambda>x L. Hash_Is k x \<in> L)"
  unfolding remote_hash_def
  by (rule does_then [OF does_prim], rule does_seq [OF does_event]) (auto simp: unmarked_def intro!: does_result)

lemma does_read: "does bb (remote_read bb k) (\<lambda>x L. Read_Is k x \<in> L)"
  unfolding remote_read_def
  by (rule does_then [OF does_prim], rule does_seq [OF does_event]) (auto simp: unmarked_def intro!: does_result)

lemma does_uploads:
  assumes "\<not> starts_with (bb_prefix bb @ u ''/complete/'') k"
  shows "does bb (remote_upload bb b k) (\<lambda>_ _. True)" "does bb (remote_upload_file bb p k) (\<lambda>_ _. True)"
    "does bb (encrypt_command bb c k) (\<lambda>_ _. True)" "does bb (encrypt_bytes bb b k) (\<lambda>_ _. True)"
  unfolding remote_upload_def remote_upload_file_def encrypt_command_def encrypt_bytes_def
  by (rule does_then [OF does_event]; use assms in \<open>simp add: unmarked_def does_prim\<close>)+

lemma does_loop:
  assumes "\<And>x acc. x \<in> set xs \<Longrightarrow> does bb (f x acc) (\<lambda>acc' L. P acc L \<longrightarrow> P acc' L)" "lasting P" "\<And>L. P acc L"
  shows "does bb (loop f xs acc) P"
  unfolding does_def
proof
  fix s
  have "wp (loop f xs acc) (\<lambda>x t. grows bb s t \<and> P x (set (bs_log t))) (\<lambda>_ t. grows bb s t) s"
  proof (rule wp_loop [where I = "\<lambda>_ acc t. grows bb s t \<and> P acc (set (bs_log t))"])
    fix ys x zs a t
    assume x: "xs = ys @ x # zs" and t: "grows bb s t \<and> P a (set (bs_log t))"
    then have "wp (f x a) (\<lambda>b w. grows bb t w \<and> (P a (set (bs_log w)) \<longrightarrow> P b (set (bs_log w)))) (\<lambda>_ w. grows bb t w) t"
      using assms(1) [of x a] by (auto simp: does_def)
    then show "wp (f x a) (\<lambda>b t. grows bb s t \<and> P b (set (bs_log t))) (\<lambda>_ t. grows bb s t) t"
    proof (rule wp_mono)
      fix b w
      assume w: "grows bb t w \<and> (P a (set (bs_log w)) \<longrightarrow> P b (set (bs_log w)))"
      with t assms(2) have "P a (set (bs_log w))" unfolding lasting_def using grows_set by blast
      with w t show "grows bb s w \<and> P b (set (bs_log w))" using grows_trans by blast
    qed (use t in \<open>blast intro: grows_trans\<close>)
  qed (use assms(3) in \<open>simp add: grows_refl\<close>)
  then show "wp (loop f xs acc) (\<lambda>x t. grows bb s t \<and> P x (set (bs_log t))) (\<lambda>_ t. grows bb s t) s" .
qed

lemma does_quiet_loop: "(\<And>x acc. does bb (f x acc) (\<lambda>_ _. True)) \<Longrightarrow> does bb (loop f xs acc) (\<lambda>_ _. True)"
  by (rule does_loop) (simp_all add: lasting_def)

section \<open>Object by object\<close>

lemma does_insist: "does bb (insist b msg) (\<lambda>_ _. b)"
  by (rule does_result) (simp add: returns)

lemma does_returns: "does bb (result r) (\<lambda>x _. r = Inr x)"
  by (rule does_result)

lemma does_true: "does bb m P \<Longrightarrow> does bb m (\<lambda>_ _. True)"
  by (rule does_weaken) auto

lemma does_discard: "does bb (discard_tree bb p) (\<lambda>_ _. True)"
  unfolding does_def wp_def discard_tree_def prim_def
  by (auto intro: grows_refl split: prod.splits sum.splits)

lemma does_quiet_seq: "does bb m (\<lambda>_ _. True) \<Longrightarrow> (\<And>x. does bb (k x) (\<lambda>_ _. True)) \<Longrightarrow> does bb (seq m k) (\<lambda>_ _. True)"
  by (rule does_then)

lemmas quiet_steps = does_quiet_seq does_if does_prim does_true [OF does_returns] does_quiet_loop

lemma does_residues: "does bb (clear_residues bb stage) (\<lambda>_ _. True)"
  unfolding clear_residues_def remove_residue_def
  by (rule quiet_steps)+

lemma does_write: "does bb (write_metadata bb p m) (\<lambda>x _. x = m)"
  unfolding write_metadata_def by (rule does_then [OF does_prim], rule does_result) simp

lemma cas_checked: "validate_cas_metadata bb v i = Inr m \<Longrightarrow> jget m ''plaintext_sha256'' = JStr (fi_digest i)"
  by (auto simp: validate_cas_metadata_def Let_def split: if_splits)

lemma does_stage: "does bb (stage_object bb i) (\<lambda>m _. jget m ''plaintext_sha256'' = JStr (fi_digest i))"
proof -
  have meta: "jget (cas_metadata bb (n, fi_digest i) x) ''plaintext_sha256'' = JStr (fi_digest i)" for n x
    by (simp add: cas_metadata_def jget_Cons del: u_Cons)
  show ?thesis
    unfolding stage_object_def Let_def
    apply (rule does_then [OF does_prim], rule does_then [OF does_residues], rule does_then [OF does_prim])
    apply (rule does_then [of _ _ "\<lambda>_ _. True"])
     apply (rule does_if, rule does_prim, rule does_true [OF does_returns])
    apply (rule does_if)
     apply (rule does_then [OF does_prim], rule does_then [OF does_returns], rule does_then [OF does_prim], rule does_then [OF does_returns], rule does_result)
     apply (auto simp: returns dest: cas_checked)[1]
    apply (rule does_then [of _ _ "\<lambda>_ _. True"])
     apply (rule does_if, rule does_then [OF does_prim], rule does_true [OF does_returns], rule does_true [OF does_returns])
    apply (rule does_if)
     apply (rule does_then [OF does_prim], rule does_then [OF does_insist], rule does_then [OF does_prim], rule does_weaken [OF does_write])
     apply (use meta in force)
    apply (rule does_then [OF does_prim], rule does_then [of _ _ "\<lambda>_ _. True"])
     apply (rule does_if, rule does_true [OF does_returns], rule does_prim)
    apply (rule does_then [OF does_returns], rule does_then [OF does_prim])
    apply (rule does_case, rule does_if, rule does_then [OF does_discard], rule does_result, simp, rule does_weaken [OF does_write])
    using meta by auto
qed

text \<open>An object of the manifest and what was seen of it on the remote.\<close>

definition object_seen :: "'h builder \<Rightarrow> jobj \<Rightarrow> revent set \<Rightarrow> bool" where
  "object_seen bb ob L \<longleftrightarrow> (\<exists>path digest. jget ob ''name'' = JStr (u ''file:'' @ path) \<and> jget ob ''key'' = JStr (cas_key_of bb digest)
     \<and> jget ob ''plaintext_sha256'' = JStr digest \<and> Hash_Is (cas_key_of bb digest) (cipher_of ob) \<in> L \<and> (\<exists>b. Read_Is (cas_meta_key_of bb digest) b \<in> L))"

lemma lasting_seen: "lasting (\<lambda>obs L. \<forall>ob \<in> set obs. object_seen bb ob L)" "object_seen bb ob L \<Longrightarrow> L \<subseteq> L' \<Longrightarrow> object_seen bb ob L'"
  unfolding lasting_def object_seen_def by blast+

lemma cas_unmarked: "\<not> starts_with (bb_prefix bb @ u ''/complete/'') (cas_key_of bb d)" "\<not> starts_with (bb_prefix bb @ u ''/complete/'') (cas_meta_key_of bb d)"
  by (auto simp: cas_key_of_def cas_meta_key_of_def cas_root_def dest!: starts_withE)

lemma does_reuse: "does bb (reuse_object bb i) (object_seen bb)"
proof -
  let ?key = "cas_key_of bb (fi_digest i)" and ?meta = "cas_meta_key_of bb (fi_digest i)" and ?stage = "cas_stage_root bb (fi_digest i)"
  have clean: "does bb (if \<not> present then result (Inr ())
          else seq (ask_path bb Is_Dir ?stage) (\<lambda>dir.
               seq (if \<not> dir then result (Inr True) else ask_path bb Is_Symlink ?stage) (\<lambda>unsafe_stage.
               seq (insist (\<not> unsafe_stage) ''unsafe completed CAS publication checkpoint'') (\<lambda>_.
                 prim (bh_remove_tree (bb_host bb) ?stage))))) (\<lambda>_ _. True)" for present
    by (rule quiet_steps)+
  have "does bb (reuse_object bb i) (\<lambda>ob L. \<exists>b m. Read_Is ?meta b \<in> L \<and> Hash_Is ?key (cipher_of m) \<in> L \<and>
      ob = [(u ''name'', JStr (u ''file:'' @ fi_path i)), (u ''key'', JStr ?key), (u ''plaintext_size'', JInt (fi_size i)),
         (u ''plaintext_sha256'', JStr (fi_digest i)), (u ''ciphertext_size'', jget m ''ciphertext_size''), (u ''ciphertext_sha256'', jget m ''ciphertext_sha256'')])"
    unfolding reuse_object_def Let_def
    apply (rule does_seq [OF does_read], rule does_then [OF does_returns], rule does_seq [OF does_hash], rule does_then [OF does_insist],
       rule does_then [OF does_prim], rule does_then [OF clean], rule does_result)
    by blast
  then show ?thesis
    by (rule does_weaken) (auto simp: object_seen_def jget_Cons cipher_of_def simp del: u_Cons)
qed

lemma does_publish: "does bb (publish_file_object bb i) (object_seen bb)"
proof -
  let ?key = "cas_key_of bb (fi_digest i)" and ?meta = "cas_meta_key_of bb (fi_digest i)"
  have age: "does bb (if age_exists
            then seq (remote_hash bb ?key) (\<lambda>x. insist (x = cipher_of m) ''remote CAS ciphertext conflicts with local checkpoint'')
            else seq (remote_upload_file bb p ?key) (\<lambda>_.
                 seq (remote_hash bb ?key) (\<lambda>x. insist (x = cipher_of m) ''remote file ciphertext verification failed''))) (\<lambda>_ L. Hash_Is ?key (cipher_of m) \<in> L)"
    for age_exists m p
    by (rule does_if, rule does_seq [OF does_hash], rule does_weaken [OF does_insist], blast,
        rule does_then [OF does_uploads(2) [OF cas_unmarked(1)]], rule does_seq [OF does_hash], rule does_weaken [OF does_insist], blast)
  have read: "does bb (if meta_exists
            then seq (remote_read bb ?meta) (\<lambda>b. insist (b = e) ''remote CAS metadata conflicts with local checkpoint'')
            else seq (remote_upload bb e ?meta) (\<lambda>_.
                 seq (remote_read bb ?meta) (\<lambda>b. insist (b = e) ''remote CAS metadata verification failed''))) (\<lambda>_ L. \<exists>b. Read_Is ?meta b \<in> L)" for meta_exists e
    by (rule does_if, rule does_seq [OF does_read], rule does_weaken [OF does_insist], blast,
        rule does_then [OF does_uploads(1) [OF cas_unmarked(2)]], rule does_seq [OF does_read], rule does_weaken [OF does_insist], blast)
  have "does bb (publish_file_object bb i) (\<lambda>ob L. object_seen bb ob L)"
    unfolding publish_file_object_def Let_def
    apply (rule does_then [OF does_prim], rule does_then [OF does_prim], rule does_if, rule does_reuse)
    apply (rule does_then [OF does_stage], rule does_seq [OF age], rule does_seq [OF read], rule does_then [OF does_discard], rule does_result)
    by (fastforce simp: object_seen_def jget_Cons cipher_of_def simp del: u_Cons)
  then show ?thesis .
qed

section \<open>The point\<close>

lemma does_quiet:
  "does bb (inject_failure bb stage) (\<lambda>_ _. True)" "does bb (assert_quiescent bb) (\<lambda>_ _. True)"
  "does bb (database_assertions bb) (\<lambda>_ _. True)" "does bb (tool_identity bb) (\<lambda>_ _. True)"
  unfolding inject_failure_def assert_quiescent_def database_assertions_def tool_identity_def count_round_def
  by (rule quiet_steps)+

lemma does_inventory: "does bb (inventory bb root excluded) (\<lambda>_ _. True)"
proof -
  have "does bb (sha256_file bb p) (\<lambda>_ _. True)" for p
    unfolding sha256_file_def by (rule quiet_steps)+
  note file_steps = quiet_steps this
  have "does bb (inventory_round bb root excluded p acc) (\<lambda>_ _. True)" for p acc
    unfolding inventory_round_def by (rule file_steps)+
  note round_steps = quiet_steps this
  show ?thesis
    unfolding inventory_def by (rule round_steps)+
qed

lemma does_config: "does bb (config_hashes bb) (\<lambda>_ _. True)"
proof -
  have "does bb (config_round bb a b p acc) (\<lambda>_ _. True)" for a b p acc
    unfolding config_round_def Let_def by (rule quiet_steps)+
  note round_steps = quiet_steps this
  have "does bb (config_entry bb a b e acc) (\<lambda>_ _. True)" for a b e acc
    unfolding config_entry_def Let_def by (rule round_steps)+
  note entry_steps = quiet_steps this
  show ?thesis
    unfolding config_hashes_def by (rule entry_steps)+
qed

lemma does_files: "does bb (finalize_files bb) (\<lambda>x L. \<forall>ob \<in> set (snd x). object_seen bb ob L)"
proof -
  have round: "does bb (seq (assert_quiescent bb) (\<lambda>_. seq (publish_file_object bb i) (\<lambda>ob. result (Inr (acc @ [ob])))))
      (\<lambda>acc' L. (\<forall>ob \<in> set acc. object_seen bb ob L) \<longrightarrow> (\<forall>ob \<in> set acc'. object_seen bb ob L))" for i acc
    by (rule does_then [OF does_quiet(2)], rule does_seq [OF does_publish], rule does_result) (auto intro: lasting_seen(2))
  have loop: "does bb (loop (\<lambda>i acc. seq (assert_quiescent bb) (\<lambda>_. seq (publish_file_object bb i) (\<lambda>ob. result (Inr (acc @ [ob]))))) fs [])
      (\<lambda>obs L. \<forall>ob \<in> set obs. object_seen bb ob L)" for fs
    by (rule does_loop [OF round lasting_seen(1)]) simp
  show ?thesis
    unfolding finalize_files_def
    by (rule does_then [OF does_quiet(2)], rule does_then [OF does_quiet(1)], rule does_then [OF does_inventory], rule does_seq [OF loop], rule does_result)
      (auto intro: lasting_seen(2))
qed

lemma point_unmarked: "\<not> starts_with (bb_prefix bb @ u ''/complete/'') (point_root (bb_prefix bb) i @ x)"
  by (auto simp: point_root_def dest!: starts_withE)

lemma does_part: "does bb (encrypted_part bb c (point_root (bb_prefix bb) i @ x) msg) (\<lambda>y L. Hash_Is (point_root (bb_prefix bb) i @ x) (snd y) \<in> L)"
  unfolding encrypted_part_def
  by (rule does_then [OF does_uploads(3) [OF point_unmarked]], rule does_seq [OF does_hash], rule does_then [OF does_insist], rule does_result) auto

text \<open>Everything the manifest names was read back from the remote as recorded.\<close>

definition confirmed :: "'h builder \<Rightarrow> point_facts \<Rightarrow> revent set \<Rightarrow> bool" where
  "confirmed bb pf L \<longleftrightarrow> Hash_Is (point_root (bb_prefix bb) (pf_id pf) @ u ''/database.dump.age'') (snd (pf_database pf)) \<in> L
     \<and> Hash_Is (point_root (bb_prefix bb) (pf_id pf) @ u ''/config.tar.age'') (snd (pf_config pf)) \<in> L
     \<and> (\<forall>ob \<in> set (pf_file_objects pf). object_seen bb ob L)"

lemma lasting_confirmed: "confirmed bb pf L \<Longrightarrow> L \<subseteq> L' \<Longrightarrow> confirmed bb pf L'"
  unfolding confirmed_def by (blast intro: lasting_seen(2))

lemma does_gather: "does bb (gather_point bb) (confirmed bb)"
proof -
  have db: "does bb (finalize_database bb i) (\<lambda>x L. Hash_Is (point_root (bb_prefix bb) i @ u ''/database.dump.age'') (snd (fst x)) \<in> L)" for i
    unfolding finalize_database_def
    by (rule does_then [OF does_quiet(1)], rule does_then [OF does_quiet(2)], rule does_seq [OF does_part], rule does_then [OF does_quiet(2)],
        rule does_then [OF does_quiet(3)], rule does_result) auto
  have config: "does bb (finalize_config bb i) (\<lambda>x L. Hash_Is (point_root (bb_prefix bb) i @ u ''/config.tar.age'') (snd (fst x)) \<in> L)" for i
    unfolding finalize_config_def
    by (rule does_then [OF does_quiet(1)], rule does_then [OF does_config], rule does_seq [OF does_part], rule does_result) auto
  show ?thesis
    unfolding gather_point_def Let_def
    apply (rule does_then [OF does_prim], rule does_then [OF does_prim], rule does_seq [OF does_files], rule does_case, rule does_then [OF does_prim],
        rule does_seq [OF db], rule does_case, rule does_seq [OF config], rule does_case, rule does_then [OF does_quiet(4)], rule does_then [OF does_prim],
        rule does_then [OF does_insist], rule does_result)
    by (auto simp: confirmed_def intro: lasting_seen(2))
qed

lemma does_manifest: "does bb (publish_manifest bb pf) (\<lambda>x L. Hash_Is (manifest_key (bb_prefix bb) (pf_id pf)) (snd x) \<in> L)"
  unfolding publish_manifest_def manifest_key_def
  by (rule does_then [OF does_prim], rule does_then [OF does_returns], rule does_then [OF does_quiet(1)],
      rule does_then [OF does_uploads(4) [OF point_unmarked]], rule does_seq [OF does_hash], rule does_then [OF does_insist], rule does_result) auto

lemma completion_keys_read:
  assumes "confirmed bb pf L" "Hash_Is (manifest_key (bb_prefix bb) (pf_id pf)) x \<in> L"
    and "k \<in> set (completion_keys_of (manifest_key (bb_prefix bb) (pf_id pf)) (point_objects bb pf))"
  shows "(\<exists>x. Hash_Is k x \<in> L) \<or> (\<exists>b. Read_Is k b \<in> L)"
proof -
  have meta: "remove_suffix (u ''.age'') (cas_key_of bb d) @ u ''.json'' = cas_meta_key_of bb d" for d
    by (simp add: cas_key_of_def cas_meta_key_of_def remove_suffix_def ends_with_def)
  have part: "text_of (jget (items (part_object n i k x)) ''key'') = k" "text_of (jget (items (part_object n i k x)) ''name'') = u n" for n i k x
    by (simp_all add: part_object_def jget_Cons del: u_Cons)
  have part_names: "\<not> starts_with (u ''file:'') (u ''database'')" "\<not> starts_with (u ''file:'') (u ''config'')" by (simp_all add: starts_with_def)
  have named: "jget ((u ''backup_id'', v) # ob) ''key'' = jget ob ''key''" "jget ((u ''backup_id'', v) # ob) ''name'' = jget ob ''name''" for v ob
    by (simp_all add: jget_Cons del: u_Cons)
  from assms(3) consider "k = manifest_key (bb_prefix bb) (pf_id pf)" | "k = point_root (bb_prefix bb) (pf_id pf) @ u ''/database.dump.age''"
    | "k = point_root (bb_prefix bb) (pf_id pf) @ u ''/config.tar.age''"
    | ob where "ob \<in> set (pf_file_objects pf)" "k = text_of (jget ob ''key'') \<or> k = remove_suffix (u ''.age'') (text_of (jget ob ''key'')) @ u ''.json''"
    unfolding completion_keys_of_def sorted_set_simps point_objects_def
    by (auto simp: part named part_names simp del: u_Cons)
  then show ?thesis
  proof cases
    case (4 ob)
    then have "object_seen bb ob L" using assms(1) by (simp add: confirmed_def)
    then obtain d where d: "jget ob ''key'' = JStr (cas_key_of bb d)" "Hash_Is (cas_key_of bb d) (cipher_of ob) \<in> L" "\<exists>b. Read_Is (cas_meta_key_of bb d) b \<in> L"
      unfolding object_seen_def by blast
    from 4(2) have "k = cas_key_of bb d \<or> k = cas_meta_key_of bb d" by (simp add: d(1) meta del: u_Cons)
    with d show ?thesis by blast
  qed (use assms(1,2) in \<open>unfold confirmed_def, blast+\<close>)
qed

definition keys_read :: "revent list \<Rightarrow> ustr set" where
  "keys_read es = {k. \<exists>x. Hash_Is k x \<in> set es} \<union> {k. \<exists>b. Read_Is k b \<in> set es}"

definition begin_log :: "'h \<Rightarrow> 'h bstate" where
  "begin_log h = \<lparr>bs_host = h, bs_log = []\<rparr>"

definition marked :: "'h builder \<Rightarrow> 'h bstate \<Rightarrow> bool" where
  "marked bb t \<longleftrightarrow> (\<exists>es pf sealed verified. unmarked bb es
     \<and> bs_log t = es @ [Upload_Bytes (completion_key bb (pf_id pf)) (bk_json (bb_env bb) (JObj (completion_marker bb pf sealed verified)))]
     \<and> confirmed bb pf (set es) \<and> Hash_Is (manifest_key (bb_prefix bb) (pf_id pf)) sealed \<in> set es)"

lemma unmarked_grows: "grows bb (begin_log h) t \<Longrightarrow> unmarked bb (bs_log t)"
  by (auto simp: grows_def begin_log_def)

lemma wp_completion:
  assumes "unmarked bb (bs_log s)" "confirmed bb pf (set (bs_log s))" "Hash_Is (manifest_key (bb_prefix bb) (pf_id pf)) sealed \<in> set (bs_log s)"
  shows "wp (publish_completion bb pf sealed) (\<lambda>_. marked bb) (\<lambda>_ t. unmarked bb (bs_log t) \<or> marked bb t) s"
proof -
  have quiet: "wp (prim f) (\<lambda>_ t. bs_log t = bs_log s) (\<lambda>_ t. bs_log t = bs_log s) s" for f :: "('h, 'b) prim" and s :: "'h bstate"
    by (auto simp: wp_def prim_def split: prod.splits sum.splits)
  have upload: "wp (remote_upload bb b k) (\<lambda>_ t. bs_log t = bs_log s @ [Upload_Bytes k b]) (\<lambda>_ t. bs_log t = bs_log s @ [Upload_Bytes k b]) s" for b k s
    by (auto simp: wp_def remote_upload_def seq_def record_event_def prim_def split: prod.splits sum.splits)
  have marked: "marked bb w" if "bs_log w = bs_log s @ [Upload_Bytes (completion_key bb (pf_id pf)) (bk_json (bb_env bb) (JObj (completion_marker bb pf sealed v)))]" for w v
    using assms that unfolding marked_def by blast
  show ?thesis
    unfolding publish_completion_def Let_def wp_seq inject_failure_def
    by (rule wp_resultI, use assms(1) in simp, rule wp_mono [OF quiet], rule wp_mono [OF upload], rule wp_mono [OF quiet])
      (use assms(1) marked in \<open>auto simp: wp_result\<close>)
qed

lemma wp_finalize: "wp (finalize bb) (\<lambda>_. marked bb) (\<lambda>_ t. unmarked bb (bs_log t) \<or> marked bb t) (begin_log h)"
  unfolding finalize_def wp_seq
proof (rule wp_mono [OF spec [OF does_gather [unfolded does_def]]])
  fix pf t
  assume t: "grows bb (begin_log h) t \<and> confirmed bb pf (set (bs_log t))"
  show "wp (publish_manifest bb pf) (\<lambda>x. wp (case x of (m, sealed) \<Rightarrow> publish_completion bb pf sealed) (\<lambda>_. marked bb) (\<lambda>_ t. unmarked bb (bs_log t) \<or> marked bb t))
      (\<lambda>_ t. unmarked bb (bs_log t) \<or> marked bb t) t"
  proof (rule wp_mono [OF spec [OF does_manifest [unfolded does_def]]])
    fix x t'
    assume t': "grows bb t t' \<and> Hash_Is (manifest_key (bb_prefix bb) (pf_id pf)) (snd x) \<in> set (bs_log t')"
    then have "unmarked bb (bs_log t')" "confirmed bb pf (set (bs_log t'))"
      using t by (auto intro: unmarked_grows grows_trans lasting_confirmed dest: grows_set)
    with t' show "wp (case x of (m, sealed) \<Rightarrow> publish_completion bb pf sealed) (\<lambda>_. marked bb) (\<lambda>_ t. unmarked bb (bs_log t) \<or> marked bb t) t'"
      by (cases x) (simp add: wp_completion)
  qed (use t in \<open>auto intro: unmarked_grows grows_trans\<close>)
qed (auto intro: unmarked_grows)


end
