(* ===== verification/Bk_Trust.thy ===== *)
theory Bk_Trust
  imports Bk_Publish
begin

text \<open>
  Backup and rotation together: what a finalization publishes passes the checks by which a rotation decides what a point owns.
\<close>

section \<open>Documents after a round trip\<close>

lemma canonical_texts [simp]: "canonical (JArr (map JStr xs)) = JArr (map JStr xs)"
  by simp

lemma json_items_canonical: "JObj (items (canonical (JObj d))) = canonical (JObj d)"
  by simp

lemma verify_canonical: "verify_manifest_authentication env (items (canonical (JObj m))) pub kid = verify_manifest_authentication env m pub kid"
proof -
  have "authority_checks (canonical a) kid = authority_checks a kid" for a
    unfolding authority_checks_def Let_def jget_items_canonical keys_items_canonical canonical_shape canonical_atom ..
  moreover have "signature_ok env pub (items (canonical (JObj m))) = signature_ok env pub m"
    unfolding signature_ok_def jget_canonical jget_items_canonical canonical_shape items.simps(1) without_canonical json_items_canonical bk_json_def canonical_idem ..
  ultimately show ?thesis unfolding verify_manifest_authentication_def jget_canonical by simp
qed

lemma sorted_set_cong: "set xs = set ys \<Longrightarrow> sorted_set xs = sorted_set ys"
  by (simp add: sorted_set_def) (metis sorted_list_of_set_sort_remdups)

lemma object_key_pairs_map: "(\<And>v. v \<in> set vs \<Longrightarrow> object_key_pair env p i r v = Inr (f v)) \<Longrightarrow> object_key_pairs env p i r vs = Inr (concat (map f vs))"
  by (induction vs) (simp_all add: andthen_def)

section \<open>A published point is trusted\<close>

lemma gathered: "gather_point bb s = (Inr pf, t) \<Longrightarrow> confirmed bb pf (set (bs_log t))"
  using spec [OF does_gather [unfolded does_def], of bb s] by (simp add: wp_def)

text \<open>The keys of one object of the manifest.\<close>

definition keys_of_object :: "'h builder \<Rightarrow> json \<Rightarrow> ustr list" where
  "keys_of_object bb v = (let ob = items v; key = text_of (jget ob ''key'')
     in if starts_with (u ''file:'') (text_of (jget ob ''name'')) then [key, remove_suffix (u ''.age'') key @ u ''.json''] else [key])"

lemma object_pair:
  assumes "confirmed bb pf L" "v \<in> set (point_objects bb pf)"
  shows "object_key_pair env (bb_prefix bb) (pf_id pf) (bb_recipient bb) (canonical v) = Inr (keys_of_object bb v)"
proof -
  have part_names: "\<not> starts_with (u ''file:'') (u ''database'')" "\<not> starts_with (u ''file:'') (u ''config'')" by (simp_all add: starts_with_def)
  have distinct: "u ''config'' \<noteq> u ''database''" by simp
  from assms(2) consider "v = part_object ''database'' (pf_id pf) (point_root (bb_prefix bb) (pf_id pf) @ u ''/database.dump.age'') (pf_database pf)"
    | "v = part_object ''config'' (pf_id pf) (point_root (bb_prefix bb) (pf_id pf) @ u ''/config.tar.age'') (pf_config pf)"
    | ob where "ob \<in> set (pf_file_objects pf)" "v = JObj ((u ''backup_id'', JStr (pf_id pf)) # ob)"
    by (auto simp: point_objects_def simp del: u_Cons)
  then show ?thesis
  proof cases
    case (3 ob)
    then have "object_seen bb ob L" using assms(1) by (simp add: confirmed_def)
    then obtain path d where ob: "jget ob ''name'' = JStr (u ''file:'' @ path)" "jget ob ''key'' = JStr (cas_key_of bb d)" "jget ob ''plaintext_sha256'' = JStr d"
      unfolding object_seen_def by blast
    have names: "u ''file:'' @ path \<noteq> u ''database''" "u ''file:'' @ path \<noteq> u ''config''" "starts_with (u ''file:'') (u ''file:'' @ path)" by (simp_all add: starts_with_def)
    have meta: "remove_suffix (u ''.age'') (cas_key_of bb d) @ u ''.json'' = cas_meta_key_of bb d"
      by (simp add: cas_key_of_def cas_meta_key_of_def remove_suffix_def ends_with_def)
    have g: "jget (items (canonical v)) k = canonical (jget (items v) k)" for k by (rule jget_items_canonical)
    have "jget (items v) ''name'' = JStr (u ''file:'' @ path)" "jget (items v) ''key'' = JStr (cas_key_of bb d)" "jget (items v) ''plaintext_sha256'' = JStr d"
      using ob by (simp_all add: 3(2) jget_Cons del: u_Cons)
    then show ?thesis
      unfolding object_key_pair_def Let_def g keys_of_object_def
      using names by (simp add: andthen_def meta del: u_Cons) (simp add: cas_key_of_def cas_meta_key_of_def del: u_Cons)
  qed (use part_names distinct in \<open>unfold object_key_pair_def Let_def jget_items_canonical keys_of_object_def,
      simp_all add: part_object_def jget_Cons andthen_def del: u_Cons\<close>)
qed

lemma manifest_fields_signed:
  assumes "authenticate_manifest env (unsigned_manifest bb pf finished) key kid = Inr m"
  shows "jget m ''backup_id'' = JStr (pf_id pf)" "jget m ''frozen_at'' = JStr (format_time (pf_frozen pf))" "jget m ''recipient_key_id'' = JStr (bb_recipient bb)"
    "jget m ''objects'' = JArr (point_objects bb pf)"
    "jget m ''generations'' = JArr (map JStr (sort (generation_tags (bb_env bb) (pf_frozen pf) (bb_timezone bb))))"
    "m = unsigned_manifest bb pf finished @ [(u ''authentication'', authentication_block env key kid (unsigned_manifest bb pf finished))]" "SAFE_ID kid"
proof -
  show m: "m = unsigned_manifest bb pf finished @ [(u ''authentication'', authentication_block env key kid (unsigned_manifest bb pf finished))]" and "SAFE_ID kid"
    using assms by (auto simp: authenticate_manifest_def returns simp del: u_Cons)
  show "jget m ''backup_id'' = JStr (pf_id pf)" "jget m ''frozen_at'' = JStr (format_time (pf_frozen pf))" "jget m ''recipient_key_id'' = JStr (bb_recipient bb)"
    "jget m ''objects'' = JArr (point_objects bb pf)"
    "jget m ''generations'' = JArr (map JStr (sort (generation_tags (bb_env bb) (pf_frozen pf) (bb_timezone bb))))"
    unfolding m by (simp_all add: unsigned_manifest_def jget_Cons del: u_Cons)
qed

lemma point_pairs:
  assumes "confirmed bb pf L"
  shows "object_key_pairs (bb_env bb) (bb_prefix bb) (pf_id pf) (bb_recipient bb) (map canonical (point_objects bb pf)) = Inr (concat (map (keys_of_object bb) (point_objects bb pf)))"
    and "completion_keys_of (manifest_key (bb_prefix bb) (pf_id pf)) (point_objects bb pf)
      = sorted_set (point_keys (bb_prefix bb) (pf_id pf) @ concat (map (keys_of_object bb) (point_objects bb pf)))"
proof -
  have "object_key_pairs (bb_env bb) (bb_prefix bb) (pf_id pf) (bb_recipient bb) (map canonical vs) = Inr (concat (map (keys_of_object bb) vs))"
    if "set vs \<subseteq> set (point_objects bb pf)" for vs
    using that by (induction vs) (simp_all add: object_pair [OF assms] andthen_def)
  then show "object_key_pairs (bb_env bb) (bb_prefix bb) (pf_id pf) (bb_recipient bb) (map canonical (point_objects bb pf)) = Inr (concat (map (keys_of_object bb) (point_objects bb pf)))"
    by blast
  have part_names: "\<not> starts_with (u ''file:'') (u ''database'')" "\<not> starts_with (u ''file:'') (u ''config'')" by (simp_all add: starts_with_def)
  have part: "text_of (jget (items (part_object n i k x)) ''key'') = k" "text_of (jget (items (part_object n i k x)) ''name'') = u n" for n i k x
    by (simp_all add: part_object_def jget_Cons del: u_Cons)
  have "set (map (\<lambda>v. text_of (jget (items v) ''key'')) vs) \<union> set (map (\<lambda>v. remove_suffix (u ''.age'') (text_of (jget (items v) ''key'')) @ u ''.json'')
          (filter (\<lambda>v. starts_with (u ''file:'') (text_of (jget (items v) ''name''))) vs)) = set (concat (map (keys_of_object bb) vs))" for vs
    by (induction vs) (auto simp: keys_of_object_def Let_def simp del: u_Cons)
  note keys = this [of "point_objects bb pf"]
  have "{point_root (bb_prefix bb) (pf_id pf) @ u ''/database.dump.age'', point_root (bb_prefix bb) (pf_id pf) @ u ''/config.tar.age''}
      \<subseteq> set (concat (map (keys_of_object bb) (point_objects bb pf)))"
    by (simp add: point_objects_def keys_of_object_def Let_def part part_names del: u_Cons)
  with keys show "completion_keys_of (manifest_key (bb_prefix bb) (pf_id pf)) (point_objects bb pf)
      = sorted_set (point_keys (bb_prefix bb) (pf_id pf) @ concat (map (keys_of_object bb) (point_objects bb pf)))"
    unfolding completion_keys_of_def point_keys_def by (intro sorted_set_cong) (auto simp del: u_Cons)
qed


section \<open>A host on which a point is gathered\<close>

abbreviation zeros :: ustr where
  "zeros \<equiv> replicate 64 48"

text \<open>A file where the application would store its content.\<close>

definition sample_path :: ustr where
  "sample_path = u ''files/00/00/'' @ zeros @ u ''.pdf''"

lemma sample_path_facts:
  "split_on 47 sample_path = [u ''files'', u ''00'', u ''00'', zeros @ u ''.pdf'']" "\<not> climbs sample_path" "sample_path \<noteq> []"
  "\<not> starts_with (u ''/'') sample_path" "\<not> starts_with [47] sample_path" "under (u ''/s'') sample_path \<noteq> u ''/s''" "u ''file:'' @ sample_path \<noteq> u ''config''" "u ''file:'' @ sample_path \<noteq> u ''database''"
proof -
  show parts: "split_on 47 sample_path = [u ''files'', u ''00'', u ''00'', zeros @ u ''.pdf'']" by code_simp
  show "\<not> climbs sample_path" unfolding climbs_def parts by simp
qed (simp_all add: sample_path_def starts_with_def under_def)

text \<open>A file that is already on the remote, and a clock that counts the seconds of a minute.\<close>

definition sample_tool :: "string \<Rightarrow> ustr" where
  "sample_tool name = u (if name = ''pg_dump'' then ''pg_dump (PostgreSQL) 16.9'' else if name = ''rclone'' then ''rclone v1.74.1'' else ''1'')"

definition sample_host :: "nat bhost" where
  "sample_host = \<lparr>bh_now = (\<lambda>n. (Inr (DateTime 2026 8 3 2 0 (n mod 60) 0), Suc n)), bh_uuid = Pair (Inr (replicate 32 48)), bh_exists = (\<lambda>_. Pair (Inr True)),
     bh_read = (\<lambda>_. Pair (Inr [])), bh_hash = (\<lambda>_. Pair (Inr (1, zeros))), bh_upload_file = (\<lambda>_ _. Pair (Inr ())), bh_upload = (\<lambda>_ _. Pair (Inr ())),
     bh_encrypt_command = (\<lambda>_ _. Pair (Inr ((1, zeros), (1, zeros)))), bh_encrypt_bytes = (\<lambda>_ _. Pair (Inr (1, zeros))),
     bh_encrypt_file = (\<lambda>_ _. Pair (Inr ((1, zeros), (1, zeros)))), bh_psql = (\<lambda>_. Pair (Inr (u ''0''))), bh_tool = (\<lambda>k. Pair (Inr (sample_tool k))),
     bh_ask = (\<lambda>q p. Pair (Inr (q = Is_File \<or> q = Is_Dir \<and> p = u ''/s''))), bh_inode = (\<lambda>_. Pair (Inr 7)), bh_tree = (\<lambda>_. Pair (Inr [sample_path])), bh_residues = (\<lambda>_ _. Pair (Inr [])),
     bh_local_hash = (\<lambda>_. Pair (Inr (1, zeros))), bh_local_read = (\<lambda>_. Pair (Inr [])), bh_local_write = (\<lambda>_ _. Pair (Inr ())),
     bh_remove = (\<lambda>_. Pair (Inr ())), bh_remove_tree = (\<lambda>_. Pair (Inr ())), bh_make_dir = (\<lambda>_. Pair (Inr ()))\<rparr>"

definition sample_cas :: jobj where
  "sample_cas = [(u ''schema_version'', JInt 1), (u ''plaintext_size'', JInt 1), (u ''plaintext_sha256'', JStr zeros), (u ''ciphertext_size'', JInt 1),
     (u ''ciphertext_sha256'', JStr zeros), (u ''recipient_key_id'', JStr (u ''r1''))]"

definition sample_image :: ustr where
  "sample_image = u ''r/x:1@sha256:'' @ zeros"

definition sample_environ :: "string \<Rightarrow> ustr option" where
  "sample_environ = map_of ((''SOURCE_COMMIT'', replicate 40 48) # map (\<lambda>x. (snd x, sample_image)) image_variables)"

definition sample_builder :: "nat builder" where
  "sample_builder = \<lparr>bb_host = sample_host, bb_env = sample_bk_env\<lparr>bk_loads := \<lambda>_. Inr (JObj sample_cas)\<rparr>, bb_prefix = u ''p'', bb_recipient = u ''r1'',
     bb_key = sample_key, bb_key_id = u ''k1'', bb_source = u ''/s'', bb_repository = u ''/r'', bb_state = u ''/t'', bb_timezone = u ''UTC'',
     bb_allowlist = [u ''c''], bb_environ = sample_environ\<rparr>"

definition comes :: "('h, 'a) bact \<Rightarrow> 'h \<Rightarrow> 'a \<Rightarrow> 'h \<Rightarrow> bool" where
  "comes m h x h' \<longleftrightarrow> (\<forall>s. bs_host s = h \<longrightarrow> (\<exists>t. m s = (Inr x, t) \<and> bs_host t = h'))"

lemma comes_seq: "comes m h x h' \<Longrightarrow> comes (k x) h' y h'' \<Longrightarrow> comes (seq m k) h y h''"
  by (fastforce simp: comes_def seq_def)

lemma comes_result: "r = Inr x \<Longrightarrow> comes (result r) h x h"
  by (simp add: comes_def result_def)

lemma comes_prim: "f h = (Inr x, h') \<Longrightarrow> comes (prim f) h x h'"
  by (simp add: comes_def prim_def)

lemma comes_event: "comes (record_event e) h () h"
  by (simp add: comes_def record_event_def)

lemma comes_insist: "b \<Longrightarrow> comes (insist b msg) h () h"
  by (rule comes_result) (simp add: demand_def)

lemma comes_once: "comes (f x acc) h y h' \<Longrightarrow> comes (loop f [x] acc) h y h'"
  unfolding loop.simps by (erule comes_seq) (rule comes_result [OF refl])

lemma host_fields [simp]:
  "bb_host sample_builder = sample_host" "bb_prefix sample_builder = u ''p''" "bb_recipient sample_builder = u ''r1''" "bb_key sample_builder = sample_key"
  "bb_key_id sample_builder = u ''k1''" "bb_source sample_builder = u ''/s''" "bb_repository sample_builder = u ''/r''" "bb_timezone sample_builder = u ''UTC''"
  "bb_allowlist sample_builder = [u ''c'']" "bb_environ sample_builder = sample_environ" "bk_loads (bb_env sample_builder) b = Inr (JObj sample_cas)"
  "bk_sha (bb_env sample_builder) b = zeros" "bk_sign (bb_env sample_builder) k b = replicate 128 48"
  by (simp_all add: sample_builder_def sample_bk_env_def del: u_Cons)

lemma sample_prims [simp]:
  "bh_now sample_host n = (Inr (DateTime 2026 8 3 2 0 (n mod 60) 0), Suc n)" "bh_uuid sample_host n = (Inr (replicate 32 48), n)" "bh_exists sample_host k n = (Inr True, n)"
  "bh_read sample_host k n = (Inr [], n)" "bh_hash sample_host k n = (Inr (1, zeros), n)" "bh_encrypt_command sample_host c k n = (Inr ((1, zeros), (1, zeros)), n)"
  "bh_psql sample_host q n = (Inr (u ''0''), n)" "bh_tool sample_host q n = (Inr (sample_tool q), n)" "bh_ask sample_host a p n = (Inr (a = Is_File \<or> a = Is_Dir \<and> p = u ''/s''), n)"
  "bh_inode sample_host p n = (Inr 7, n)" "bh_tree sample_host p n = (Inr [sample_path], n)" "bh_local_hash sample_host p n = (Inr (1, zeros), n)"
  "bh_local_read sample_host p n = (Inr [], n)"
  by (simp_all add: sample_host_def del: u_Cons)

definition sample_item :: fitem where
  "sample_item = \<lparr>fi_path = sample_path, fi_size = 1, fi_digest = zeros\<rparr>"

lemma comes_hash: "comes (remote_hash sample_builder k) n (1, zeros) n" "comes (remote_read sample_builder k) n [] n"
  unfolding remote_hash_def remote_read_def
  by (rule comes_seq [OF comes_prim], simp, rule comes_seq [OF comes_event comes_result], rule refl)+

lemma comes_ask:
  "comes (ask_path sample_builder Exists p) n False n" "comes (ask_path sample_builder Is_Symlink p) n False n" "comes (ask_path sample_builder Is_File p) n True n"
  "p \<noteq> u ''/s'' \<Longrightarrow> comes (ask_path sample_builder Is_Dir p) n False n" "comes (ask_path sample_builder Is_Dir (u ''/s'')) n True n"
  by (rule comes_prim, simp)+

lemma comes_quiescent: "comes (assert_quiescent sample_builder) n () n"
  unfolding assert_quiescent_def by (rule comes_seq [OF comes_prim], simp, rule comes_insist, simp)

lemma comes_inject: "stage \<in> {''files'', ''dump'', ''manifest''} \<Longrightarrow> comes (inject_failure sample_builder stage) n () n"
  unfolding inject_failure_def by (rule comes_result) (auto simp: returns sample_environ_def image_variables_def simp del: u_Cons)

definition sample_file_object :: jobj where
  "sample_file_object = [(u ''name'', JStr (u ''file:'' @ sample_path)), (u ''key'', JStr (cas_key_of sample_builder zeros)), (u ''plaintext_size'', JInt 1),
     (u ''plaintext_sha256'', JStr zeros), (u ''ciphertext_size'', JInt 1), (u ''ciphertext_sha256'', JStr zeros)]"

lemma sample_cas_valid: "validate_cas_metadata sample_builder (JObj sample_cas) sample_item = Inr sample_cas" "cipher_of sample_cas = (1, zeros)"
proof -
  have "hex_text 64 zeros" using zeros_hex(1) by (simp add: SHA256_def)
  then show "validate_cas_metadata sample_builder (JObj sample_cas) sample_item = Inr sample_cas" "cipher_of sample_cas = (1, zeros)"
    by (simp_all add: validate_cas_metadata_def sample_cas_def sample_item_def cipher_of_def keys_are_def jget_Cons Let_def del: u_Cons)
qed

lemma comes_publish: "comes (publish_file_object sample_builder sample_item) n sample_file_object n"
proof -
  have "comes (reuse_object sample_builder sample_item) n sample_file_object n"
    unfolding reuse_object_def Let_def
    by (rule comes_seq [OF comes_hash(2)], rule comes_seq [OF comes_result], simp add: andthen_def sample_cas_valid, rule comes_seq [OF comes_hash(1)],
        rule comes_seq [OF comes_insist], simp add: sample_cas_valid, rule comes_seq [OF comes_ask(1)],
        unfold not_False_eq_True if_True, rule comes_seq [OF comes_result [OF refl]], rule comes_result)
      (simp add: sample_file_object_def sample_item_def sample_cas_def jget_Cons del: u_Cons)
  then show ?thesis
    unfolding publish_file_object_def Let_def
    by (intro comes_seq [OF comes_prim [where x = True]]) simp_all
qed

lemma comes_inventory: "comes (inventory sample_builder (u ''/s'') [u ''temporary'']) n [sample_item] n"
proof -
  have hashed: "comes (sha256_file sample_builder p) n (1, zeros) n" for p
    unfolding sha256_file_def
    by (rule comes_seq [OF comes_prim], simp, rule comes_seq [OF comes_ask(3)], unfold not_True_eq_False if_False, rule comes_seq [OF comes_ask(2)],
        rule comes_seq [OF comes_insist], simp, rule comes_seq [OF comes_prim], simp, rule comes_seq [OF comes_prim], simp, rule comes_seq [OF comes_insist], simp,
        rule comes_result, simp)
  have child: "under (u ''/s'') sample_path \<noteq> u ''/s''" "u ''files'' \<noteq> u ''temporary''" by (rule sample_path_facts) simp
  have round: "comes (inventory_round sample_builder (u ''/s'') [u ''temporary''] sample_path []) n [sample_item] n"
    unfolding inventory_round_def
    by (rule comes_seq [OF comes_ask(4)], rule child, simp add: child sample_path_facts del: u_Cons, rule comes_seq [OF hashed], rule comes_result) (simp add: sample_item_def)
  have absolute: "starts_with (u ''/'') (u ''/s'')" by (simp add: starts_with_def)
  show ?thesis
    unfolding inventory_def if_P [OF absolute]
    by (rule comes_seq [OF comes_ask(5)], rule comes_seq [OF comes_insist [OF TrueI]], rule comes_seq [OF comes_insist], simp,
        rule comes_seq [OF comes_prim], simp del: u_Cons, rule comes_once, rule round)
qed

lemma comes_files: "comes (finalize_files sample_builder) n ([sample_item], [sample_file_object]) n"
    unfolding finalize_files_def host_fields
    by (rule comes_seq [OF comes_quiescent], rule comes_seq [OF comes_inject], simp, rule comes_seq [OF comes_inventory],
        rule comes_seq [OF comes_once], rule comes_seq [OF comes_quiescent], rule comes_seq [OF comes_publish], rule comes_result, rule refl, rule comes_result) simp

lemma comes_part: "comes (encrypted_part sample_builder c k msg) n ((1, zeros), (1, zeros)) n"
  unfolding encrypted_part_def encrypt_command_def
  by (rule comes_seq, rule comes_seq [OF comes_event comes_prim], simp, rule comes_seq [OF comes_hash(1)], rule comes_seq [OF comes_insist], simp, rule comes_result, rule refl)

definition sample_assertions :: jobj where
  "sample_assertions = [(u ''table_counts'', JObj (map (\<lambda>t. (u t, JInt 0)) tables)), (u ''audit_projection_sha256'', JStr zeros), (u ''relation_projection_sha256'', JStr zeros)]"

lemma comes_assertions: "comes (database_assertions sample_builder) n sample_assertions n"
proof -
  have "py_integer (JStr (u ''0'')) = Inr 0" by (simp add: py_int_def unsigned_int_def strip_def rstrip_def lstrip_def is_space_def is_digit_def)
  then have round: "comes (count_round sample_builder t acc) n (acc @ [(u t, JInt 0)]) n" for t acc
    unfolding count_round_def by (intro comes_seq [OF comes_prim]) (auto intro: comes_seq comes_result simp del: u_Cons)
  have counts: "comes (loop (count_round sample_builder) ts acc) n (acc @ map (\<lambda>t. (u t, JInt 0)) ts) n" for ts acc
  proof (induction ts arbitrary: acc)
    case Nil
    show ?case unfolding loop.simps by (rule comes_result) simp
  next
    case (Cons t ts)
    from comes_seq [OF round [of t acc], of "loop (count_round sample_builder) ts", OF Cons.IH] show ?case by simp
  qed
  show ?thesis
    unfolding database_assertions_def
    by (rule comes_seq [OF counts], rule comes_seq [OF comes_prim], simp, rule comes_seq [OF comes_prim], simp, rule comes_result)
      (simp add: sample_assertions_def del: u_Cons)
qed

lemma comes_entry: "comes (config_entry sample_builder a b (u ''c'') []) n [(u ''c'', JStr zeros)] n"
proof -
  have path: "under (u ''/r'') (u ''c'') \<noteq> u ''/s''" "\<not> compiled_python (under (u ''/r'') (u ''c''))" "\<not> list_ex (\<lambda>m. occurs m []) secret_markers"
    by (simp_all add: under_def compiled_python_def Let_def secret_markers_def ends_with_def)
  have round: "comes (config_round sample_builder a b (u ''c'') []) n [(u ''c'', JStr zeros)] n"
    unfolding config_round_def Let_def host_fields(7)
    by (rule comes_seq [OF comes_ask(4)], rule path, simp only: path if_False simp_thms, rule comes_seq [OF comes_ask(3)], unfold not_True_eq_False if_False,
        rule comes_seq [OF comes_ask(2)], rule comes_seq [OF comes_insist], simp, rule comes_seq [OF comes_prim], simp del: u_Cons,
        rule comes_seq [OF comes_insist], rule path, rule comes_result, simp del: u_Cons)
  show ?thesis
    unfolding config_entry_def Let_def
    by (rule comes_seq [OF comes_ask(4)], simp only: host_fields, rule path, unfold if_False, rule comes_seq [OF comes_result [OF refl]], rule comes_once, rule round)
qed

lemma comes_config: "comes (finalize_config sample_builder i) n (((1, zeros), (1, zeros)), [(u ''c'', JStr zeros)]) n"
proof -
  have hashes: "comes (config_hashes sample_builder) n [(u ''c'', JStr zeros)] n"
    unfolding config_hashes_def host_fields by (rule comes_seq, rule comes_once, rule comes_entry, rule comes_seq [OF comes_insist], simp, rule comes_result, rule refl)
  show ?thesis
    unfolding finalize_config_def
    by (rule comes_seq [OF comes_inject], simp, rule comes_seq [OF hashes], rule comes_seq [OF comes_part], rule comes_result, rule refl)
qed

lemma comes_database: "comes (finalize_database sample_builder i) n (((1, zeros), (1, zeros)), sample_assertions) n"
  unfolding finalize_database_def
  by (rule comes_seq [OF comes_inject], simp, rule comes_seq [OF comes_quiescent], rule comes_seq [OF comes_part], rule comes_seq [OF comes_quiescent],
      rule comes_seq [OF comes_assertions], rule comes_result, rule refl)

definition sample_tools :: json where
  "sample_tools = JObj [(u ''postgresql'', JStr (u ''0'')), (u ''pg_dump'', JStr (sample_tool ''pg_dump'')), (u ''age'', JStr (sample_tool ''age'')),
     (u ''rclone'', JStr (sample_tool ''rclone''))]"

definition sample_facts :: point_facts where
  "sample_facts = \<lparr>pf_id = sample_backup_identity, pf_started = DateTime 2026 8 3 2 0 0 0, pf_frozen = DateTime 2026 8 3 2 0 1 0, pf_files = [sample_item],
     pf_file_objects = [sample_file_object], pf_database = ((1, zeros), (1, zeros)), pf_assertions = sample_assertions, pf_config = ((1, zeros), (1, zeros)),
     pf_hashes = [(u ''c'', JStr zeros)], pf_tools = sample_tools, pf_alembic = u ''0''\<rparr>"

lemma sample_gathers: "\<exists>t. gather_point sample_builder (begin_log 0) = (Inr sample_facts, t)"
proof -
  have id: "new_backup_id (DateTime 2026 8 3 2 0 0 0) (replicate 32 48) = sample_backup_identity"
  proof -
    have "id_stamp (DateTime 2026 8 3 2 0 0 0) = u ''20260803T020000Z''" by code_simp
    then show ?thesis by (simp add: new_backup_id_def sample_backup_identity_def)
  qed
  have tools: "comes (tool_identity sample_builder) n sample_tools n" for n
    unfolding tool_identity_def sample_tools_def
    by (rule comes_seq [OF comes_prim], simp del: u_Cons, rule comes_seq [OF comes_prim], simp del: u_Cons, rule comes_seq [OF comes_prim], simp del: u_Cons,
        rule comes_seq [OF comes_prim], simp del: u_Cons, rule comes_result, rule refl)
  have commit: "length (environment sample_builder ''SOURCE_COMMIT'') = 40" by (simp add: environment_def sample_environ_def)
  have "comes (gather_point sample_builder) 0 sample_facts (Suc (Suc 0))"
    unfolding gather_point_def Let_def
    apply (rule comes_seq [OF comes_prim], simp, rule comes_seq [OF comes_prim], simp, rule comes_seq [OF comes_files], unfold prod.case)
    apply (rule comes_seq [OF comes_prim], simp, rule comes_seq [OF comes_database], unfold prod.case, rule comes_seq [OF comes_config], unfold prod.case)
    apply (rule comes_seq [OF tools], rule comes_seq [OF comes_prim], simp, rule comes_seq [OF comes_insist [OF commit]], rule comes_result)
    by (simp add: sample_facts_def id)
  from this [unfolded comes_def, rule_format, of "begin_log 0"] show ?thesis by (auto simp: begin_log_def)
qed

text \<open>Reading a document back does not change what the checks of its entries see.\<close>

lemma text_or_empty_reread: "text_or_empty env (items (canonical v)) k = (case map_of (items v) (u k) of None \<Rightarrow> [] | Some w \<Rightarrow> py_text env (canonical w))"
proof (cases v)
  case (JObj d)
  then show ?thesis unfolding text_or_empty_def JObj map_of_canonical by (auto split: option.splits)
qed (simp_all add: text_or_empty_def)

lemma integer_reread: "integer_or_negative (items (canonical v)) k = (case map_of (items v) (u k) of None \<Rightarrow> Inr (- 1) | Some w \<Rightarrow> py_integer w)"
proof -
  have i: "py_integer (canonical w) = py_integer w" for w by (cases w) simp_all
  show ?thesis
  proof (cases v)
    case (JObj d)
    then show ?thesis unfolding integer_or_negative_def JObj map_of_canonical by (auto simp: i split: option.splits)
  qed (simp_all add: integer_or_negative_def)
qed

lemma values_reread: "andthen (py_values (canonical (JObj d))) (\<lambda>vs. demand (list_all P vs) msg) = demand (list_all (P \<circ> canonical \<circ> snd) d) msg"
  by (simp add: andthen_def list_all_iff)

lemma fields_reread: "set (map fst (items (canonical (JObj d)))) = set (map fst d)"
  by (simp add: image_image)

lemma truthy_reread: "truthy (canonical v) = truthy v" "items (canonical v) = [] \<longleftrightarrow> items v = []"
proof -
  have "sort_key f xs = [] \<longleftrightarrow> xs = []" for f :: "ustr \<times> json \<Rightarrow> ustr" and xs by (metis length_0_conv length_sort)
  then show "truthy (canonical v) = truthy v" "items (canonical v) = [] \<longleftrightarrow> items v = []" by (cases v; simp)+
qed

lemmas reread = text_or_empty_reread integer_reread values_reread fields_reread truthy_reread

definition sample_published :: jobj where
  "sample_published = unsigned_manifest sample_builder sample_facts (DateTime 2026 8 3 2 0 2 0)"

lemma sample_published_files: "file_entries env [] [canonical (item_json sample_item)] = Inr [sample_path]"
  using sample_path_facts
  by (simp add: item_json_def sample_item_def reread returns Let_def sample_path_facts andthen_def checks.simps(2) demand_def jget_Cons
     del: canonical.simps(2))

lemma sample_published_objects:
  "\<exists>ks. object_entries env (JStr sample_backup_identity) [] [] (map canonical (point_objects sample_builder sample_facts)) = Inr ([u ''file:'' @ sample_path, u ''config'', u ''database''], ks)"
  using keys_safe
  by (simp add: point_objects_def sample_facts_def part_object_def sample_file_object_def reread returns Let_def jget_Cons cas_key_of_def del: u_Cons canonical.simps(2))
   (simp add: point_root_def cas_root_def starts_with_def)

lemma sample_published_fields:
  assumes "authenticate_manifest (bb_env sample_builder) sample_published sample_key (u ''k1'') = Inr m"
  shows "jget m ''backup_id'' = JStr sample_backup_identity" "jget m ''schema_version'' = JInt 1" "jget m ''started_at'' = JStr (format_time (DateTime 2026 8 3 2 0 0 0))"
    "jget m ''frozen_at'' = JStr (format_time (DateTime 2026 8 3 2 0 1 0))" "jget m ''completed_at'' = JStr (format_time (DateTime 2026 8 3 2 0 2 0))"
    "jget m ''images'' = current_images sample_builder" "jget m ''config_hashes'' = JObj [(u ''c'', sample_zeros)]" "jget m ''recipient_key_id'' = JStr (u ''r1'')"
    "jget m ''objects'' = JArr (point_objects sample_builder sample_facts)" "jget m ''files'' = JArr (map item_json [sample_item])"
    "jget m ''authentication'' = authentication_block (bb_env sample_builder) sample_key (u ''k1'') sample_published"
    "list_all (\<lambda>k. k \<in> set (map fst m)) (map u manifest_fields)"
proof -
  have m: "m = sample_published @ [(u ''authentication'', authentication_block (bb_env sample_builder) sample_key (u ''k1'') sample_published)]"
    using assms by (auto simp: authenticate_manifest_def returns simp del: u_Cons)
  have a: "u ''authentication'' \<notin> set (map fst sample_published)" by (simp add: sample_published_def unsigned_manifest_def)
  show "jget m ''backup_id'' = JStr sample_backup_identity" "jget m ''schema_version'' = JInt 1" "jget m ''started_at'' = JStr (format_time (DateTime 2026 8 3 2 0 0 0))"
    "jget m ''frozen_at'' = JStr (format_time (DateTime 2026 8 3 2 0 1 0))" "jget m ''completed_at'' = JStr (format_time (DateTime 2026 8 3 2 0 2 0))"
    "jget m ''images'' = current_images sample_builder" "jget m ''config_hashes'' = JObj [(u ''c'', sample_zeros)]" "jget m ''recipient_key_id'' = JStr (u ''r1'')"
    "jget m ''objects'' = JArr (point_objects sample_builder sample_facts)" "jget m ''files'' = JArr (map item_json [sample_item])"
    unfolding m by (simp_all add: sample_published_def unsigned_manifest_def sample_facts_def jget_Cons del: u_Cons)
  show "jget m ''authentication'' = authentication_block (bb_env sample_builder) sample_key (u ''k1'') sample_published"
    unfolding m by (simp add: sample_published_def unsigned_manifest_def jget_Cons del: u_Cons)
  show "list_all (\<lambda>k. k \<in> set (map fst m)) (map u manifest_fields)"
    unfolding m by (simp add: sample_published_def unsigned_manifest_def manifest_fields_def del: u_Cons)
qed

lemma sample_published_valid:
  assumes "authenticate_manifest (bb_env sample_builder) sample_published sample_key (u ''k1'') = Inr m"
  shows "validate_manifest env (items (canonical (JObj m))) = Inr ()"
proof -
  note f = sample_published_fields [OF assms]
  obtain ks where ks: "object_entries env (JStr sample_backup_identity) [] [] (map canonical (point_objects sample_builder sample_facts)) = Inr ([u ''file:'' @ sample_path, u ''config'', u ''database''], ks)"
    using sample_published_objects by blast
  have images: "validate_images env (canonical (current_images sample_builder)) = Inr ()"
    unfolding validate_images_def current_images_def values_reread truthy_reread
    using image_ok by (simp add: image_variables_def environment_def sample_environ_def sample_image_def demand_def del: u_Cons)
  have times: "format_time (DateTime 2026 8 3 2 0 a 0) = format_time (DateTime 2026 8 3 2 0 b 0) \<longleftrightarrow> a = b" if "a < 10" "b < 10" for a b
  proof -
    have "valid_datetime (DateTime 2026 8 3 2 0 a 0)" "valid_datetime (DateTime 2026 8 3 2 0 b 0)" using that by (simp_all add: valid_datetime_def days_in_month_def)
    from parse_format [OF this(1)] parse_format [OF this(2)] show ?thesis by (metis Inr_inject datetime.inject)
  qed
  have keys: "keys_are [(u ''algorithm'', a), (u ''key_id'', b), (u ''signature'', c)] [''algorithm'', ''key_id'', ''signature'']" for a b c
    by (simp add: keys_are_def)
  have present: "list_all (\<lambda>k. k \<in> set (map fst (items (canonical (JObj m))))) (map u manifest_fields)" using f(12) by (simp only: reread)
  have named: "strip (u ''r1'') \<noteq> []" by (simp add: text_eval)
  have "SAFE_ID (u ''k1'')" by (rule sample_key_names)
  then show ?thesis
    using present sample_point_ok keys named
    unfolding validate_manifest_def Let_def
    by (simp add: f reread images sample_published_files ks returns authentication_block_fields jget_Cons times validate_backup_id_def
        del: u_Cons canonical.simps(2) file_entries.simps object_entries.simps)
qed

lemma sample_published_signs: "\<exists>m. authenticate_manifest (bb_env sample_builder) sample_published sample_key (u ''k1'') = Inr m"
  by (simp add: authenticate_manifest_def returns sample_published_def unsigned_manifest_def demand_def checks.simps del: u_Cons)

lemma sample_builder_checks: "builder_checks (u ''r1'') (u ''/p/'') (u ''age1x'') = Inr (u ''p'')"
proof -
  have "\<not> climbs (u ''p'')" "u ''p'' \<noteq> []" by (simp_all add: climbs_def)
  then show ?thesis
    by (simp add: builder_checks_def remote_prefix_def sample_prefix andthen_def demand_def del: u_Cons) (simp add: starts_with_def is_space_def)
qed


end
