(* ===== verification/Bk_Checkpoint.thy ===== *)
theory Bk_Checkpoint
  imports Bk_Backup
begin

text \<open>
  The first part of \<open>scripts/backup_recovery/restore.py\<close>: the guarded construction of a restore, its checkpoint on disk with the ordered stages, the cache of
  ciphertexts and the manifest of the recovery point. A checkpoint file is what \<open>json.loads\<close> makes of it, one per backup
  identity, since the authorization and with it the operation identity is fixed. What the host answers about files, database, evidence and clock is
  logged, and so is every change of the database, the files, the retained site and the remote.
\<close>

section \<open>The host\<close>

text \<open>How an atomic write ends: done, failed without effect, or failed with the new content in place.\<close>

datatype landing = Landed | Lost bexc | Landed_Then bexc

text \<open>A member of a tar archive; \<open>tm_content\<close> is \<open>None\<close> without a stream, and \<open>Some None\<close> when reading it fails.\<close>

record tmember =
  tm_name :: ustr
  tm_dir :: bool
  tm_file :: bool
  tm_content :: "blob option option"

text \<open>What \<open>fromisoformat\<close> makes of a text, as an instant in UTC; without an offset it is a reading in the zone of the host.\<close>

datatype instant = Without_Offset datetime | Moment datetime

record 'h rhost =
  rh_download :: "ustr \<Rightarrow> ustr \<Rightarrow> ('h, unit) prim"
  rh_decrypt_small :: "ustr \<Rightarrow> int \<Rightarrow> ('h, blob) prim"
  rh_decrypt_hash :: "ustr \<Rightarrow> ('h, fingerprint) prim"
  rh_decrypt_to :: "ustr \<Rightarrow> ustr \<Rightarrow> ('h, fingerprint) prim"
  rh_pg_restore :: "ustr \<Rightarrow> ('h, unit) prim"
  rh_retain_command :: "producer \<Rightarrow> ustr \<Rightarrow> ('h, fingerprint \<times> fingerprint) prim"
  rh_retain_bytes :: "blob \<Rightarrow> ustr \<Rightarrow> ('h, fingerprint) prim"
  rh_version :: "string \<Rightarrow> ('h, int \<times> ustr) prim"
  rh_rename :: "ustr \<Rightarrow> ustr \<Rightarrow> ('h, unit) prim"
  rh_copy :: "ustr \<Rightarrow> ustr \<Rightarrow> ('h, unit) prim"
  rh_free :: "ustr \<Rightarrow> ('h, int) prim"
  rh_inodes :: "ustr \<Rightarrow> ('h, int) prim"
  rh_blocks :: "ustr \<Rightarrow> ('h, int) prim"
  rh_text :: "ustr \<Rightarrow> ('h, ustr) prim"
  rh_mode :: "ustr \<Rightarrow> ('h, nat) prim"
  rh_write :: "ustr \<Rightarrow> 'h \<Rightarrow> landing \<times> 'h"

datatype sevent = Path_Is ustr fingerprint | Plain_Is ustr fingerprint | Opened ustr blob | Sealed ustr fingerprint | Site_Kept ustr
  | Db_From ustr ustr | Db_Loaded ustr ustr | File_From ustr ustr ustr | File_Is ustr fingerprint | Assertions_Are jobj | References_Are ustr | Broken_References ustr | Evidence_Is blob | Clock_Is datetime | Proof_To ustr blob

record 'h rstate =
  rs_host :: 'h
  rs_checks :: "ustr \<Rightarrow> (bexc + json) option"
  rs_log :: "sevent list"

type_synonym ('h, 'a) sact = "('h rstate, bexc, 'a) act"

text \<open>
  The engine. \<open>re_local\<close> holds what it shares with the backup program: prefix, recipient, directories, environment and the primitives for the remote and for local
  files; its source directory is the file root. \<open>re_iso\<close> is \<open>datetime.fromisoformat\<close> read in UTC, \<open>re_members\<close> is \<open>tarfile\<close>, \<open>re_public\<close> the public key of a private one.
\<close>

record 'h restorer =
  re_local :: "'h builder"
  re_host :: "'h rhost"
  re_guard :: restore_guard
  re_environment :: ustr
  re_manifest_key :: blob
  re_manifest_key_id :: ustr
  re_proof_key :: blob
  re_proof_key_id :: ustr
  re_margin :: int
  re_rto :: int
  re_chunk :: int
  re_iso :: "ustr \<Rightarrow> instant option"
  re_members :: "blob \<Rightarrow> tmember list option"
  re_public :: "blob \<Rightarrow> blob"

definition perform :: "('h, 'a) prim \<Rightarrow> ('h, 'a) sact" where
  "perform f s = (case f (rs_host s) of (r, h) \<Rightarrow> (r, s\<lparr>rs_host := h\<rparr>))"

definition log_event :: "sevent \<Rightarrow> ('h, unit) sact" where
  "log_event e s = (Inr (), s\<lparr>rs_log := rs_log s @ [e]\<rparr>)"

text \<open>An action of the backup program that only asks.\<close>

definition locally :: "('h, 'a) bact \<Rightarrow> ('h, 'a) sact" where
  "locally m s = (case m \<lparr>bs_host = rs_host s, bs_log = []\<rparr> of (r, t) \<Rightarrow> (r, s\<lparr>rs_host := bs_host t\<rparr>))"

definition observe :: "('h, 'a) sact \<Rightarrow> ('a \<Rightarrow> sevent) \<Rightarrow> ('h, 'a) sact" where
  "observe m ev = seq m (\<lambda>x. seq (log_event (ev x)) (\<lambda>_. result (Inr x)))"

abbreviation re_env :: "'h restorer \<Rightarrow> bk_env" where
  "re_env re \<equiv> bb_env (re_local re)"

abbreviation re_base :: "'h restorer \<Rightarrow> 'h bhost" where
  "re_base re \<equiv> bb_host (re_local re)"

abbreviation inquire :: "'h restorer \<Rightarrow> question \<Rightarrow> ustr \<Rightarrow> ('h, bool) sact" where
  "inquire re q p \<equiv> perform (bh_ask (re_base re) q p)"

definition read_clock :: "'h restorer \<Rightarrow> ('h, datetime) sact" where
  "read_clock re = observe (perform (bh_now (re_base re))) Clock_Is"

definition hash_path :: "'h restorer \<Rightarrow> ustr \<Rightarrow> ('h, fingerprint) sact" where
  "hash_path re p = observe (perform (bh_local_hash (re_base re) p)) (Path_Is p)"

definition open_small :: "'h restorer \<Rightarrow> ustr \<Rightarrow> int \<Rightarrow> ('h, blob) sact" where
  "open_small re p limit = observe (perform (rh_decrypt_small (re_host re) p limit)) (Opened p)"

text \<open>\<open>except (...) as error: raise SafetyError(...) from error\<close>.\<close>

definition translating :: "bexc list \<Rightarrow> string \<Rightarrow> ('h, 'a) sact \<Rightarrow> ('h, 'a) sact" where
  "translating es msg m s = (case m s of (Inl e, t) \<Rightarrow> (Inl (if e \<in> set es then SafetyError msg else e), t) | (Inr x, t) \<Rightarrow> (Inr x, t))"

text \<open>\<open>except BaseException: shutil.rmtree(path, ignore_errors=True); raise\<close>.\<close>

definition discarding :: "'h restorer \<Rightarrow> ustr \<Rightarrow> ('h, 'a) sact \<Rightarrow> ('h, 'a) sact" where
  "discarding re path m s =
     (case m s of (Inr x, t) \<Rightarrow> (Inr x, t)
      | (Inl e, t) \<Rightarrow> if e = Bk_Killed then (Inl e, t)
          else (case locally (discard_tree (re_local re) path) t of (r, t') \<Rightarrow> (Inl (if r = Inl Bk_Killed then Bk_Killed else e), t')))"

text \<open>\<open>d[k]\<close> and \<open>v[k]\<close> with a text as key.\<close>

definition need :: "jobj \<Rightarrow> string \<Rightarrow> bexc + json" where
  "need d k = (case map_of d (u k) of None \<Rightarrow> Inl Key_Error | Some v \<Rightarrow> Inr v)"

definition sub :: "json \<Rightarrow> string \<Rightarrow> bexc + json" where
  "sub v k = (case v of JObj d \<Rightarrow> need d k | _ \<Rightarrow> Inl Type_Error)"

section \<open>Construction\<close>

text \<open>The guard an authorization document stands for.\<close>

definition guard_of :: "'h restorer \<Rightarrow> json \<Rightarrow> bexc + restore_guard" where
  "guard_of re v =
     (let text = (\<lambda>k. andthen (sub v k) (\<lambda>w. Inr (py_text (re_env re) w))) in
      andthen (text ''environment_id'') (\<lambda>environment.
      andthen (text ''backup_id'') (\<lambda>backup.
      andthen (text ''operator_id'') (\<lambda>operator.
      andthen (text ''approved_data_loss_window'') (\<lambda>window.
      andthen (text ''authorization_record'') (\<lambda>authorization.
      andthen (text ''expires_at'') (\<lambda>expiry.
      andthen (case re_iso re (concat (map (\<lambda>c. if c = 90 then u ''+00:00'' else [c]) expiry)) of
          Some (Moment t) \<Rightarrow> Inr t | Some (Without_Offset t) \<Rightarrow> Inr t | None \<Rightarrow> Inl Value_Error) (\<lambda>expires.
      andthen (text ''one_time_challenge'') (\<lambda>challenge.
        Inr \<lparr>rg_environment = environment, rg_backup = backup, rg_operator = operator, rg_window = window, rg_authorization = authorization,
          rg_expires = expires, rg_challenge = challenge\<rparr>)))))))))"

definition validate_identity_inputs :: "'h restorer \<Rightarrow> ustr \<Rightarrow> ustr \<Rightarrow> ustr \<Rightarrow> ustr \<Rightarrow> ('h, restore_guard) sact" where
  "validate_identity_inputs re marker_path identity authorization confirmation =
     seq (insist (strip (re_environment re) \<noteq> []) ''target environment id is empty'') (\<lambda>_.
     seq (inquire re Is_File marker_path) (\<lambda>marked.
     seq (insist marked ''target environment marker is missing'') (\<lambda>_.
     seq (perform (rh_text (re_host re) marker_path)) (\<lambda>marker.
     seq (insist (strip marker = re_environment re) ''target environment marker mismatch'') (\<lambda>_.
     seq (inquire re Is_File identity) (\<lambda>injected.
     seq (insist injected ''offline identity was not injected'') (\<lambda>_.
     seq (perform (rh_mode (re_host re) identity)) (\<lambda>mode.
     seq (insist (mode mod 64 = 0) ''offline identity must have mode 0600 or stricter'') (\<lambda>_.
     seq (translating [Os_Error, Key_Error, Value_Error, Json_Error] ''restore authorization is invalid''
           (seq (perform (bh_local_read (re_base re) authorization)) (\<lambda>b. seq (result (bk_loads (re_env re) b)) (\<lambda>v. result (guard_of re v))))) (\<lambda>g.
     seq (read_clock re) (\<lambda>now.
     seq (result (guard_validate g now (re_environment re) confirmation)) (\<lambda>_. result (Inr g)))))))))))))"

text \<open>\<open>RestoreEngine(...)\<close>; the engine it makes differs from its arguments by the stripped prefix and the guard.\<close>

definition open_engine :: "'h restorer \<Rightarrow> ustr \<Rightarrow> ustr \<Rightarrow> ustr \<Rightarrow> ustr \<Rightarrow> ustr \<Rightarrow> ('h, 'h restorer) sact" where
  "open_engine re raw marker_path identity authorization confirmation =
     (let prefix = strip_char 47 raw in
     seq (insist (prefix \<noteq> []) ''remote prefix is required'') (\<lambda>_.
     seq (validate_identity_inputs re marker_path identity authorization confirmation) (\<lambda>g.
       result (Inr (re\<lparr>re_local := (re_local re)\<lparr>bb_prefix := prefix\<rparr>, re_guard := g\<rparr>)))))"

section \<open>The checkpoint\<close>

definition STAGE_ORDER :: "string list" where
  "STAGE_ORDER = [''declared'', ''preflight_complete'', ''site_retained'', ''database_restored'', ''files_complete'', ''offline_validated'',
     ''isolated_functional_validated'', ''proxy_authorized'', ''external_ready'', ''rolled_back'']"

definition stage_rank :: "ustr \<Rightarrow> nat" where
  "stage_rank s = length (takeWhile (\<lambda>x. u x \<noteq> s) STAGE_ORDER)"

definition RESTORE_FAILURE_STAGES :: "string list" where
  "RESTORE_FAILURE_STAGES = [''decrypt'', ''preflight'', ''site_retention'', ''database'', ''files'', ''offline_validation'',
     ''isolated_functional_validation'', ''proxy'']"

definition restore_inject :: "'h restorer \<Rightarrow> string \<Rightarrow> ('h, unit) sact" where
  "restore_inject re stage = result (checks
     [demand (stage \<in> set RESTORE_FAILURE_STAGES) ''unknown restore failure stage'',
      demand (bb_environ (re_local re) ''RESTORE_FAIL_STAGE'' \<noteq> Some (u stage)) ''injected restore failure''])"

definition operation_id :: "'h restorer \<Rightarrow> ustr" where
  "operation_id re = (let g = re_guard re in bk_sha (re_env re) (bk_json (re_env re) (JObj
     [(u ''environment_id'', JStr (rg_environment g)), (u ''backup_id'', JStr (rg_backup g)), (u ''operator_id'', JStr (rg_operator g)),
      (u ''approved_data_loss_window'', JStr (rg_window g)), (u ''authorization_record'', JStr (rg_authorization g)),
      (u ''expires_at'', JStr (format_time (rg_expires g))), (u ''challenge_sha256'', JStr (bk_sha (re_env re) (utf8 (rg_challenge g))))])))"

definition declared_at :: "'h restorer \<Rightarrow> jobj \<Rightarrow> bexc + datetime" where
  "declared_at re c = (case map_of c (u ''declared_at'') of
       None \<Rightarrow> Inl (SafetyError ''restore checkpoint declaration is invalid'')
     | Some v \<Rightarrow> (case re_iso re (concat (map (\<lambda>c. if c = 90 then u ''+00:00'' else [c]) (py_text (re_env re) v))) of
           Some (Moment t) \<Rightarrow> Inr t | _ \<Rightarrow> Inl (SafetyError ''restore checkpoint declaration is invalid'')))"

definition stage_of :: "jobj \<Rightarrow> ustr" where
  "stage_of c = text_of (jget c ''stage'')"

definition check_state :: "'h restorer \<Rightarrow> ustr \<Rightarrow> json \<Rightarrow> bexc + jobj" where
  "check_state re b v =
     (if \<not> is_obj v then Inl Attribute_Error
      else let c = items v in
        if jget c ''backup_id'' \<noteq> JStr b \<or> jget c ''operation_id'' \<noteq> JStr (operation_id re) then Inl (SafetyError ''restore checkpoint is invalid'')
        else if \<not> hashable (jget c ''stage'') then Inl Type_Error
        else if \<not> list_ex (\<lambda>x. jget c ''stage'' = JStr (u x)) STAGE_ORDER then Inl (SafetyError ''restore checkpoint is invalid'')
        else andthen (declared_at re c) (\<lambda>_. Inr c))"

definition initial_state :: "ustr \<Rightarrow> jobj" where
  "initial_state b = [(u ''backup_id'', JStr b), (u ''stage'', JStr (u ''declared'')), (u ''history'', JArr [])]"

definition read_state :: "'h restorer \<Rightarrow> ustr \<Rightarrow> ('h, jobj) sact" where
  "read_state re b =
     seq (result (validate_backup_id b)) (\<lambda>_ s.
       (case rs_checks s b of None \<Rightarrow> Inr (initial_state b) | Some r \<Rightarrow> andthen r (check_state re b), s))"

definition write_state :: "'h restorer \<Rightarrow> ustr \<Rightarrow> jobj \<Rightarrow> ('h, unit) sact" where
  "write_state re b c s =
     (case rh_write (re_host re) b (rs_host s) of (w, h) \<Rightarrow>
        let lost = s\<lparr>rs_host := h\<rparr>; kept = lost\<lparr>rs_checks := (rs_checks s)(b \<mapsto> Inr (canonical (JObj c)))\<rparr>
        in (case w of Landed \<Rightarrow> (Inr (), kept) | Lost e \<Rightarrow> (Inl e, lost) | Landed_Then e \<Rightarrow> (Inl e, kept)))"

definition new_declaration :: "'h restorer \<Rightarrow> ustr \<Rightarrow> datetime \<Rightarrow> jobj" where
  "new_declaration re b now = [(u ''backup_id'', JStr b), (u ''operation_id'', JStr (operation_id re)), (u ''stage'', JStr (u ''declared'')),
     (u ''declared_at'', JStr (format_time now)), (u ''authorization_record'', JStr (rg_authorization (re_guard re))),
     (u ''operator_id'', JStr (rg_operator (re_guard re))), (u ''history'', JArr [])]"

definition declare_restore :: "'h restorer \<Rightarrow> ustr \<Rightarrow> ('h, jobj) sact" where
  "declare_restore re b =
     seq (result (validate_backup_id b)) (\<lambda>_.
     seq (insist (rg_backup (re_guard re) = b) ''authorization backup_id mismatch'') (\<lambda>_.
     seq (\<lambda>s. (Inr (rs_checks s b \<noteq> None), s)) (\<lambda>present.
     seq (if present then read_state re b
          else seq (read_clock re) (\<lambda>now. seq (write_state re b (new_declaration re b now)) (\<lambda>_. result (Inr (new_declaration re b now))))) (\<lambda>c.
       result (Inr [(u ''backup_id'', JStr b), (u ''operation_id'', jget c ''operation_id''), (u ''stage'', jget c ''stage''), (u ''declared_at'', jget c ''declared_at'')])))))"

text \<open>\<open>state["history"]\<close> as the list that is appended to.\<close>

definition history_of :: "jobj \<Rightarrow> bexc + json list" where
  "history_of c = andthen (need c ''history'') (\<lambda>v. if is_arr v then Inr (elems v) else Inl Attribute_Error)"

definition recorded :: "string \<Rightarrow> jobj \<Rightarrow> json list \<Rightarrow> datetime \<Rightarrow> jobj \<Rightarrow> jobj" where
  "recorded stage details h now c =
     dset (u ''history'') (JArr (h @ [JObj ([(u ''stage'', JStr (u stage)), (u ''at'', JStr (format_time now))] @ details)]))
       (dset (u ''stage'') (JStr (u stage)) c)"

definition record_stage :: "'h restorer \<Rightarrow> string \<Rightarrow> jobj \<Rightarrow> jobj \<Rightarrow> ('h, jobj) sact" where
  "record_stage re stage details c =
     seq (result (history_of c)) (\<lambda>h.
     seq (read_clock re) (\<lambda>now. result (Inr (recorded stage details h now c))))"

definition advance_restore :: "'h restorer \<Rightarrow> ustr \<Rightarrow> string \<Rightarrow> jobj \<Rightarrow> ('h, unit) sact" where
  "advance_restore re b stage details =
     seq (read_state re b) (\<lambda>c.
     seq (insist (stage_rank (stage_of c) \<le> stage_rank (u stage)) ''restore state regression refused'') (\<lambda>_.
     seq (insist (stage_rank (u stage) \<le> stage_rank (stage_of c) + 1) ''restore stage skipped'') (\<lambda>_.
     seq (if u stage = stage_of c then result (Inr c) else record_stage re stage details c) (\<lambda>c'. write_state re b c'))))"

definition completed :: "'h restorer \<Rightarrow> ustr \<Rightarrow> string \<Rightarrow> ('h, bool) sact" where
  "completed re b stage =
     seq (read_state re b) (\<lambda>c.
     seq (insist (stage_of c \<noteq> u ''rolled_back'') ''rolled-back restore cannot be resumed'') (\<lambda>_.
       result (Inr (stage_rank (u stage) \<le> stage_rank (stage_of c)))))"

text \<open>A step that is not completed yet needs its predecessor.\<close>

definition requires_stage :: "'h restorer \<Rightarrow> ustr \<Rightarrow> string \<Rightarrow> string \<Rightarrow> ('h, unit) sact" where
  "requires_stage re b stage msg = seq (read_state re b) (\<lambda>c. insist (stage_of c = u stage) msg)"

section \<open>The cache and the manifest\<close>

definition cache_root :: "'h restorer \<Rightarrow> ustr \<Rightarrow> ustr" where
  "cache_root re b = bb_state (re_local re) @ u ''/restore-cache/'' @ b"

definition cache_path :: "'h restorer \<Rightarrow> ustr \<Rightarrow> ustr \<Rightarrow> ustr" where
  "cache_path re b key = cache_root re b @ [47] @ bk_sha (re_env re) (utf8 key) @ u ''.age''"

definition download_verified :: "'h restorer \<Rightarrow> ustr \<Rightarrow> ustr \<Rightarrow> fingerprint \<Rightarrow> ('h, ustr) sact" where
  "download_verified re b key expected =
     (let path = cache_path re b key in
     seq (inquire re Is_File path) (\<lambda>cached.
     seq (if \<not> cached then result (Inr False)
          else seq (hash_path re path) (\<lambda>x.
               if x = expected then result (Inr True) else seq (perform (bh_remove (re_base re) path)) (\<lambda>_. result (Inr False)))) (\<lambda>hit.
     if hit then result (Inr path)
     else
       seq (perform (rh_download (re_host re) key path)) (\<lambda>_.
       seq (hash_path re path) (\<lambda>x.
         if x = expected then result (Inr path)
         else seq (perform (bh_remove (re_base re) path)) (\<lambda>_. result (Inl (SafetyError ''downloaded ciphertext size or SHA-256 mismatch''))))))))"

definition read_completion :: "'h restorer \<Rightarrow> ustr \<Rightarrow> ('h, json) sact" where
  "read_completion re b = translating [Json_Error, Os_Error] ''completion marker is missing or invalid''
     (seq (perform (bh_read (re_base re) (completion_key (re_local re) b))) (\<lambda>x. result (bk_loads (re_env re) x)))"

definition SMALL_LIMIT :: int where
  "SMALL_LIMIT = 16 * 1024 * 1024"

text \<open>The manifest a completion marker points to, with the path of its ciphertext.\<close>

definition open_manifest :: "'h restorer \<Rightarrow> ustr \<Rightarrow> jobj \<Rightarrow> ('h, ustr \<times> jobj) sact" where
  "open_manifest re b completion =
     seq (result (need completion ''manifest_key'')) (\<lambda>key.
     seq (result (andthen (need completion ''manifest_ciphertext_size'') py_integer)) (\<lambda>size.
     seq (result (need completion ''manifest_ciphertext_sha256'')) (\<lambda>digest.
     seq (download_verified re b (py_text (re_env re) key) (size, py_text (re_env re) digest)) (\<lambda>cipher.
     seq (open_small re cipher SMALL_LIMIT) (\<lambda>x.
     seq (translating [Json_Error] ''authenticated manifest is invalid'' (result (bk_loads (re_env re) x))) (\<lambda>v.
     seq (insist (is_obj v) ''authenticated manifest is not a JSON object'') (\<lambda>_.
     seq (result (verify_manifest_authentication (re_env re) (items v) (re_manifest_key re) (re_manifest_key_id re))) (\<lambda>_.
     seq (result (validate_manifest (re_env re) (items v))) (\<lambda>_.
     seq (insist (jget (items v) ''backup_id'' = JStr b) ''manifest identity mismatch'') (\<lambda>_. result (Inr (cipher, items v))))))))))))"

definition read_manifest :: "'h restorer \<Rightarrow> ustr \<Rightarrow> ('h, jobj) sact" where
  "read_manifest re b =
     seq (read_completion re b) (\<lambda>v.
     seq (insist (is_obj v \<and> jget (items v) ''backup_id'' = JStr b \<and> jget (items v) ''status'' = JStr (u ''remote_ciphertext_verified''))
       ''completion marker identity or status mismatch'') (\<lambda>_.
     seq (open_manifest re b (items v)) (\<lambda>(_, m). result (Inr m))))"

end
