(* ===== verification/Bk_Restore.thy ===== *)
theory Bk_Restore
  imports Bk_Checkpoint
begin

text \<open>
  The operations of \<open>scripts/backup_recovery/restore.py\<close>: the preflight with its capacity checks, the retention of the site, the restore of database and files, the
  validations, the authorization of the proxy, the external readiness with its proof, and the rollback to the retained site.
\<close>

section \<open>Deployment identity\<close>

definition current_config_hashes :: "'h restorer \<Rightarrow> ('h, jobj) sact" where
  "current_config_hashes re = locally (loop (config_entry (re_local re) ''current config contains an unsafe object'' ''current config contains secret material'')
     (bb_allowlist (re_local re)) [])"

definition pinned :: "ustr \<Rightarrow> bool" where
  "pinned reference = occurs (u ''@sha256:'') reference"

definition current_deployment_identity :: "'h restorer \<Rightarrow> ('h, jobj) sact" where
  "current_deployment_identity re =
     (let commit = environment (re_local re) ''SOURCE_COMMIT'' in
     seq (insist (hex_text 40 commit \<and> list_all (\<lambda>(name, variable). pinned (environment (re_local re) variable)) image_variables)
       ''current deployment identity is incomplete'') (\<lambda>_.
     seq (current_config_hashes re) (\<lambda>hashes.
       result (Inr [(u ''source_commit'', JStr commit), (u ''images'', current_images (re_local re)), (u ''config_hashes'', JObj hashes)]))))"

definition validate_deployment :: "'h restorer \<Rightarrow> jobj \<Rightarrow> ('h, unit) sact" where
  "validate_deployment re m =
     seq (current_deployment_identity re) (\<lambda>current.
     result (checks
       [demand (py_eq (jget m ''source_commit'') (jget current ''source_commit'')) ''backup source commit differs from target checkout'',
        demand (py_eq (jget m ''images'') (jget current ''images'')) ''backup image set differs from target deployment'',
        demand (py_eq (jget m ''config_hashes'') (jget current ''config_hashes'')) ''backup config set differs from target checkout'']))"

section \<open>Capacity\<close>

definition size_digest :: "'h restorer \<Rightarrow> json \<Rightarrow> string \<Rightarrow> string \<Rightarrow> bexc + fingerprint" where
  "size_digest re v number field = andthen (integer_or_negative (items v) number) (\<lambda>n. Inr (n, text_or_empty (re_env re) (items v) field))"

definition cipher_missing :: "'h restorer \<Rightarrow> ustr \<Rightarrow> json \<Rightarrow> int \<Rightarrow> ('h, int) sact" where
  "cipher_missing re b v missing =
     (let path = cache_path re b (text_or_empty (re_env re) (items v) ''key'') in
     seq (result (size_digest re v ''ciphertext_size'' ''ciphertext_sha256'')) (\<lambda>expected.
     seq (inquire re Is_Symlink path) (\<lambda>link.
     seq (insist (\<not> link) ''encrypted cache contains an unsafe object'') (\<lambda>_.
     seq (inquire re Is_File path) (\<lambda>file.
     seq (if file then hash_path re path else result (Inr (0, []))) (\<lambda>x.
     if file \<and> x = expected then result (Inr missing)
     else
       seq (inquire re Exists path) (\<lambda>present.
       seq (if \<not> present then result (Inr ())
            else seq (inquire re Is_File path) (\<lambda>regular.
                 seq (insist regular ''encrypted cache contains an unsafe object'') (\<lambda>_. perform (bh_remove (re_base re) path)))) (\<lambda>_.
         result (Inr (missing + fst expected))))))))))"

definition require_cache_capacity :: "'h restorer \<Rightarrow> ustr \<Rightarrow> jobj \<Rightarrow> ('h, unit) sact" where
  "require_cache_capacity re b m =
     seq (loop (cipher_missing re b) (elems (jget m ''objects'')) 0) (\<lambda>missing.
     seq (perform (rh_free (re_host re) (bb_state (re_local re)))) (\<lambda>free.
       insist (missing * (100 + re_margin re) div 100 \<le> free) ''insufficient encrypted cache space''))"

definition path_parts :: "ustr \<Rightarrow> ustr list" where
  "path_parts p = filter (\<lambda>x. x \<noteq> [] \<and> x \<noteq> u ''.'') (split_on 47 p)"

definition below :: "ustr \<Rightarrow> ustr list \<Rightarrow> ustr" where
  "below root parts = root @ concat (map (\<lambda>x. 47 # x) parts)"

text \<open>\<open>self.file_root / p\<close>.\<close>

definition target_path :: "'h restorer \<Rightarrow> ustr \<Rightarrow> ustr" where
  "target_path re p = below (if starts_with (u ''/'') p then [] else bb_source (re_local re)) (path_parts p)"

definition parent_check :: "'h restorer \<Rightarrow> ustr \<Rightarrow> ustr list \<Rightarrow> ('h, ustr list) sact" where
  "parent_check re parent missing =
     seq (inquire re Is_Symlink parent) (\<lambda>link.
     seq (if link then result (Inr True)
          else seq (inquire re Exists parent) (\<lambda>present. if \<not> present then result (Inr False)
               else seq (inquire re Is_Dir parent) (\<lambda>dir. result (Inr (\<not> dir))))) (\<lambda>unsafe_parent.
     seq (insist (\<not> unsafe_parent) ''restore target parent is unsafe'') (\<lambda>_.
     seq (inquire re Exists parent) (\<lambda>present. result (Inr (if present \<or> parent \<in> set missing then missing else parent # missing))))))"

definition irregular :: "'h restorer \<Rightarrow> ustr \<Rightarrow> ('h, bool) sact" where
  "irregular re path =
     seq (inquire re Is_Symlink path) (\<lambda>link.
     if link then result (Inr True)
     else seq (inquire re Exists path) (\<lambda>present. if \<not> present then result (Inr False)
          else seq (inquire re Is_File path) (\<lambda>file. result (Inr (\<not> file)))))"

definition holds_file :: "'h restorer \<Rightarrow> ustr \<Rightarrow> fingerprint \<Rightarrow> ('h, bool) sact" where
  "holds_file re path expected =
     seq (inquire re Is_File path) (\<lambda>file. if \<not> file then result (Inr False) else seq (hash_path re path) (\<lambda>x. result (Inr (x = expected))))"

definition target_requirement :: "'h restorer \<Rightarrow> json \<Rightarrow> (int \<times> int) \<times> ustr list \<Rightarrow> ('h, (int \<times> int) \<times> ustr list) sact" where
  "target_requirement re v acc =
     (let parts = path_parts (text_or_empty (re_env re) (items v) ''path''); root = bb_source (re_local re); target = below root parts in
     seq (loop (parent_check re) (map (\<lambda>k. below root (take k parts)) [1..<length parts]) (snd acc)) (\<lambda>missing.
     seq (irregular re target) (\<lambda>bad.
     seq (insist (\<not> bad) ''restore target is unsafe'') (\<lambda>_.
     seq (result (size_digest re v ''size'' ''sha256'')) (\<lambda>expected.
     seq (holds_file re target expected) (\<lambda>held.
       result (Inr (if held then (fst acc, missing) else ((fst (fst acc) + fst expected, snd (fst acc) + 1), missing)))))))))"

definition target_requirements :: "'h restorer \<Rightarrow> jobj \<Rightarrow> ('h, int \<times> int) sact" where
  "target_requirements re m =
     seq (loop (target_requirement re) (elems (jget m ''files'')) ((0, 0), [])) (\<lambda>((bytes, inodes), missing).
       result (Inr (bytes, inodes + int (length missing))))"

text \<open>\<open>target.with_name(f".{target.name}.restore")\<close>.\<close>

definition temporary_of :: "ustr list \<Rightarrow> bexc + ustr list" where
  "temporary_of parts = (if parts = [] then Inl Value_Error else Inr (butlast parts @ [[46] @ last parts @ u ''.restore'']))"

definition reclaimable :: "'h restorer \<Rightarrow> json \<Rightarrow> int \<times> int \<Rightarrow> ('h, int \<times> int) sact" where
  "reclaimable re v acc =
     (let parts = path_parts (text_or_empty (re_env re) (items v) ''path''); root = bb_source (re_local re) in
     seq (result (temporary_of parts)) (\<lambda>temporary_parts.
     seq (irregular re (below root temporary_parts)) (\<lambda>bad.
     seq (insist (\<not> bad) ''restore temporary is unsafe'') (\<lambda>_.
     seq (result (size_digest re v ''size'' ''sha256'')) (\<lambda>expected.
     seq (holds_file re (below root parts) expected) (\<lambda>held.
     if held then result (Inr acc)
     else
       seq (inquire re Is_File (below root temporary_parts)) (\<lambda>stale.
       if \<not> stale then result (Inr acc)
       else seq (perform (rh_blocks (re_host re) (below root temporary_parts))) (\<lambda>n. result (Inr (fst acc + n * 512, snd acc + 1))))))))))"

definition require_target_capacity :: "'h restorer \<Rightarrow> jobj \<Rightarrow> ('h, unit) sact" where
  "require_target_capacity re m =
     seq (target_requirements re m) (\<lambda>(bytes, inodes).
     seq (loop (reclaimable re) (elems (jget m ''files'')) (0, 0)) (\<lambda>(stale_bytes, stale_inodes).
     seq (perform (rh_free (re_host re) (bb_source (re_local re)))) (\<lambda>free.
     seq (insist (bytes * (100 + re_margin re) div 100 \<le> free + stale_bytes) ''insufficient target file space'') (\<lambda>_.
     seq (perform (rh_inodes (re_host re) (bb_source (re_local re)))) (\<lambda>available.
       insist (inodes \<le> available + stale_inodes) ''insufficient target inodes'')))))"

section \<open>Preflight\<close>

fun archive_members :: "bk_env \<Rightarrow> tmember list \<Rightarrow> jobj \<Rightarrow> bexc + jobj" where
  "archive_members env [] observed = Inr observed"
| "archive_members env (t # ts) observed =
     (let name = (if starts_with (u ''./'') (tm_name t) then drop 2 (tm_name t) else tm_name t) in
      if tm_dir t then archive_members env ts observed
      else if \<not> tm_file t \<or> starts_with (u ''/'') name \<or> climbs name then Inl (SafetyError ''config archive contains an unsafe object'')
      else (case tm_content t of
          None \<Rightarrow> Inl (SafetyError ''config archive object cannot be read'')
        | Some None \<Rightarrow> Inl (SafetyError ''config archive is invalid'')
        | Some (Some x) \<Rightarrow> archive_members env ts (dset name (JStr (bk_sha env x)) observed)))"

definition validate_config_archive :: "'h restorer \<Rightarrow> ustr \<Rightarrow> jobj \<Rightarrow> ('h, unit) sact" where
  "validate_config_archive re path m =
     seq (open_small re path (re_chunk re)) (\<lambda>archive.
     result (case re_members re archive of
       None \<Rightarrow> Inl (SafetyError ''config archive is invalid'')
     | Some members \<Rightarrow> andthen (archive_members (re_env re) members []) (\<lambda>observed.
         demand (py_eq (JObj observed) (jget m ''config_hashes'')) ''config archive and manifest hashes differ'')))"

text \<open>What the manifest must agree with before any object is fetched.\<close>

definition manifest_identity :: "'h restorer \<Rightarrow> jobj \<Rightarrow> bexc + unit" where
  "manifest_identity re m = checks
     [demand (jget m ''recipient_key_id'' = JStr (bb_recipient (re_local re))) ''recipient key mapping mismatch'',
      andthen (py_values (jget m ''images'')) (\<lambda>vs. demand (list_all (\<lambda>v. pinned (py_text (re_env re) v)) vs) ''manifest contains a mutable image identity'')]"

definition tool_text :: "'h restorer \<Rightarrow> jobj \<Rightarrow> string \<Rightarrow> bexc + ustr" where
  "tool_text re m name = andthen (need m ''tools'') (\<lambda>tools. andthen (sub tools name) (\<lambda>v. Inr (py_text (re_env re) v)))"

definition tool_versions :: "'h restorer \<Rightarrow> jobj \<Rightarrow> ('h, unit) sact" where
  "tool_versions re m =
     seq (result (andthen (tool_text re m ''pg_dump'') (\<lambda>s. demand (starts_with (u ''pg_dump (PostgreSQL) 16.'') s) ''pg_dump major version is incompatible''))) (\<lambda>_.
     seq (perform (bh_tool (re_base re) ''age'')) (\<lambda>age.
     seq (result (andthen (tool_text re m ''age'') (\<lambda>s. demand (age = s) ''age version is incompatible''))) (\<lambda>_.
     seq (perform (rh_version (re_host re) ''pg_restore'')) (\<lambda>(pg_code, pg_out).
     seq (insist (pg_code = 0 \<and> occurs (u ''PostgreSQL) 16.'') pg_out) ''pg_restore major version is incompatible'') (\<lambda>_.
     seq (perform (rh_version (re_host re) ''rclone'')) (\<lambda>(rc_code, rc_out).
     seq (insist (rc_code = 0) ''rclone version is incompatible'') (\<lambda>_.
       result (andthen (tool_text re m ''rclone'') (\<lambda>s.
         demand (starts_with (u ''rclone v1.74.1'') s \<and> starts_with (u ''rclone v1.74.1'') rc_out) ''rclone version is incompatible'')))))))))"

definition verify_object :: "'h restorer \<Rightarrow> ustr \<Rightarrow> jobj \<Rightarrow> json \<Rightarrow> unit \<Rightarrow> ('h, unit) sact" where
  "verify_object re b m v _ =
     seq (result (size_digest re v ''ciphertext_size'' ''ciphertext_sha256'')) (\<lambda>cipher.
     seq (download_verified re b (text_or_empty (re_env re) (items v) ''key'') cipher) (\<lambda>path.
     seq (observe (perform (rh_decrypt_hash (re_host re) path)) (Plain_Is path)) (\<lambda>plain.
     seq (result (size_digest re v ''plaintext_size'' ''plaintext_sha256'')) (\<lambda>expected.
     seq (insist (plain = expected) ''authenticated plaintext object digest mismatch'') (\<lambda>_.
       if jget (items v) ''name'' = JStr (u ''config'') then validate_config_archive re path m else result (Inr ()))))))"

definition preflight :: "'h restorer \<Rightarrow> ustr \<Rightarrow> ('h, jobj) sact" where
  "preflight re b =
     seq (declare_restore re b) (\<lambda>_.
     seq (restore_inject re ''decrypt'') (\<lambda>_.
     seq (read_completion re b) (\<lambda>v.
     seq (if is_obj v then result (Inr ()) else result (Inl Attribute_Error)) (\<lambda>_.
     seq (insist (jget (items v) ''backup_id'' = JStr b) ''completion marker identity mismatch'') (\<lambda>_.
     seq (insist (jget (items v) ''status'' = JStr (u ''remote_ciphertext_verified'')) ''backup is not remotely verified'') (\<lambda>_.
     seq (open_manifest re b (items v)) (\<lambda>(cipher, m).
     seq (result (manifest_identity re m)) (\<lambda>_.
     seq (validate_deployment re m) (\<lambda>_.
     seq (tool_versions re m) (\<lambda>_.
     seq (require_cache_capacity re b m) (\<lambda>_.
     seq (require_target_capacity re m) (\<lambda>_.
     seq (restore_inject re ''preflight'') (\<lambda>_.
     seq (loop (verify_object re b m) (elems (jget m ''objects'')) ()) (\<lambda>_.
     let control = cache_root re b @ u ''/manifest.control.age'' in
     seq (inquire re Exists control) (\<lambda>present.
     seq (if present then result (Inr ()) else perform (rh_copy (re_host re) cipher control)) (\<lambda>_.
     seq (completed re b ''preflight_complete'') (\<lambda>already.
     seq (if already then result (Inr ()) else advance_restore re b ''preflight_complete'' []) (\<lambda>_.
       result (Inr [(u ''backup_id'', JStr b), (u ''stage'', JStr (u ''preflight_complete'')), (u ''object_count'', JInt (int (length (elems (jget m ''objects''))))),
         (u ''ciphertext_bytes'', JInt (sum_list (map (\<lambda>v. case integer_or_negative (items v) ''ciphertext_size'' of Inl _ \<Rightarrow> 0 | Inr n \<Rightarrow> n) (elems (jget m ''objects'')))))])))))))))))))))))))"

section \<open>The retained site\<close>

definition site_root :: "'h restorer \<Rightarrow> ustr \<Rightarrow> ustr" where
  "site_root re b = bb_state (re_local re) @ u ''/site-retention/'' @ b @ [47] @ operation_id re"

definition staging_root :: "'h restorer \<Rightarrow> ustr \<Rightarrow> ustr" where
  "staging_root re b = bb_state (re_local re) @ u ''/site-retention/'' @ b @ u ''/.'' @ operation_id re @ u ''.staging''"

definition clear_site_path :: "'h restorer \<Rightarrow> ustr \<Rightarrow> unit \<Rightarrow> ('h, unit) sact" where
  "clear_site_path re path _ =
     seq (inquire re Exists path) (\<lambda>present.
     if \<not> present then result (Inr ())
     else
       seq (inquire re Is_Dir path) (\<lambda>dir.
       seq (if \<not> dir then result (Inr True) else inquire re Is_Symlink path) (\<lambda>unsafe_path.
       seq (insist (\<not> unsafe_path) ''uncheckpointed site retention path is unsafe'') (\<lambda>_. perform (bh_remove_tree (re_base re) path)))))"

definition site_identity :: "'h restorer \<Rightarrow> ustr \<Rightarrow> datetime \<Rightarrow> fingerprint \<times> fingerprint \<Rightarrow> fingerprint \<Rightarrow> jobj \<Rightarrow> jobj" where
  "site_identity re b now database files deployment =
     [(u ''environment_id'', JStr (re_environment re)), (u ''target_backup_id'', JStr b), (u ''restore_operation_id'', JStr (operation_id re)),
      (u ''retained_at'', JStr (format_time now)), (u ''database_plaintext_sha256'', JStr (snd (fst database))),
      (u ''database_ciphertext_sha256'', JStr (snd (snd database))), (u ''file_manifest_ciphertext_sha256'', JStr (snd files))] @ deployment"

definition site_check :: "'h restorer \<Rightarrow> ustr \<Rightarrow> ustr \<times> fingerprint \<Rightarrow> unit \<Rightarrow> ('h, unit) sact" where
  "site_check re root check _ = seq (hash_path re (root @ fst check)) (\<lambda>x. insist (x = snd check) ''site retention verification failed'')"

definition retain_bytes :: "'h restorer \<Rightarrow> blob \<Rightarrow> ustr \<Rightarrow> ('h, fingerprint) sact" where
  "retain_bytes re x path = observe (perform (rh_retain_bytes (re_host re) x path)) (Sealed path)"

definition retain_objects :: "'h restorer \<Rightarrow> ustr \<Rightarrow> ('h, unit) sact" where
  "retain_objects re b =
     (let staging = staging_root re b in
     seq (restore_inject re ''site_retention'') (\<lambda>_.
     seq (observe (perform (rh_retain_command (re_host re) Pg_Dump (staging @ u ''/database.dump.age'')))
           (\<lambda>x. Sealed (staging @ u ''/database.dump.age'') (snd x))) (\<lambda>database.
     seq (locally (inventory (re_local re) (bb_source (re_local re)) [u ''temporary''])) (\<lambda>files.
     seq (retain_bytes re (bk_json (re_env re) (JArr (map item_json files))) (staging @ u ''/files.json.age'')) (\<lambda>listing.
     seq (current_deployment_identity re) (\<lambda>deployment.
     seq (read_clock re) (\<lambda>now.
     seq (retain_bytes re (bk_json (re_env re) (JObj (site_identity re b now database listing deployment))) (staging @ u ''/identity.json.age'')) (\<lambda>identity.
     seq (loop (site_check re staging) [(u ''/database.dump.age'', snd database), (u ''/files.json.age'', listing), (u ''/identity.json.age'', identity)] ()) (\<lambda>_.
     seq (perform (rh_rename (re_host re) staging (site_root re b))) (\<lambda>_. log_event (Site_Kept b)))))))))))"

definition retain_site :: "'h restorer \<Rightarrow> ustr \<Rightarrow> ('h, unit) sact" where
  "retain_site re b =
     seq (completed re b ''site_retained'') (\<lambda>already.
     if already then result (Inr ())
     else
       seq (requires_stage re b ''preflight_complete'' ''site retention requires completed preflight'') (\<lambda>_.
       seq (loop (clear_site_path re) [staging_root re b, site_root re b] ()) (\<lambda>_.
       seq (perform (bh_make_dir (re_base re) (staging_root re b))) (\<lambda>_.
       seq (discarding re (staging_root re b) (retain_objects re b)) (\<lambda>_. advance_restore re b ''site_retained'' [])))))"

section \<open>Restoring\<close>

text \<open>\<open>decrypt_to_process\<close> into \<open>pg_restore\<close>.\<close>

definition load_database :: "'h restorer \<Rightarrow> ustr \<Rightarrow> ustr \<Rightarrow> ('h, unit) sact" where
  "load_database re b path = seq (log_event (Db_From b path)) (\<lambda>_. seq (perform (rh_pg_restore (re_host re) path)) (\<lambda>_. log_event (Db_Loaded b path)))"

definition object_named :: "jobj \<Rightarrow> ustr \<Rightarrow> json option" where
  "object_named m name = find (\<lambda>v. jget (items v) ''name'' = JStr name) (elems (jget m ''objects''))"

definition restore_database :: "'h restorer \<Rightarrow> ustr \<Rightarrow> ('h, unit) sact" where
  "restore_database re b =
     seq (completed re b ''database_restored'') (\<lambda>already.
     if already then result (Inr ())
     else
       seq (requires_stage re b ''site_retained'' ''database restore requires verified site retention'') (\<lambda>_.
       seq (restore_inject re ''database'') (\<lambda>_.
       seq (read_manifest re b) (\<lambda>m.
       case object_named m (u ''database'') of
         None \<Rightarrow> result (Inl Stop_Iteration)
       | Some v \<Rightarrow>
           seq (load_database re b (cache_path re b (text_or_empty (re_env re) (items v) ''key''))) (\<lambda>_. advance_restore re b ''database_restored'' [])))))"

text \<open>\<open>{str(item["name"]): item ...}[name]\<close>; the last of equal names counts.\<close>

definition object_by_name :: "'h restorer \<Rightarrow> jobj \<Rightarrow> ustr \<Rightarrow> json option" where
  "object_by_name re m name = find (\<lambda>v. text_or_empty (re_env re) (items v) ''name'' = name) (rev (elems (jget m ''objects'')))"

definition restore_file :: "'h restorer \<Rightarrow> ustr \<Rightarrow> jobj \<Rightarrow> json \<Rightarrow> unit \<Rightarrow> ('h, unit) sact" where
  "restore_file re b m v _ =
     (let path = text_or_empty (re_env re) (items v) ''path''; target = target_path re path in
     seq (restore_inject re ''files'') (\<lambda>_.
     seq (result (size_digest re v ''size'' ''sha256'')) (\<lambda>expected.
     seq (holds_file re target expected) (\<lambda>held.
     if held then result (Inr ())
     else
       (case object_by_name re m (u ''file:'' @ path) of
          None \<Rightarrow> result (Inl Key_Error)
        | Some w \<Rightarrow>
            (let cipher = cache_path re b (text_or_empty (re_env re) (items w) ''key'') in
            seq (log_event (File_From b cipher target)) (\<lambda>_.
            seq (observe (perform (rh_decrypt_to (re_host re) cipher target)) (File_Is target)) (\<lambda>x.
              insist (x = expected) ''restored file digest mismatch''))))))))"

definition restore_files :: "'h restorer \<Rightarrow> ustr \<Rightarrow> ('h, unit) sact" where
  "restore_files re b =
     seq (completed re b ''files_complete'') (\<lambda>already.
     if already then result (Inr ())
     else
       seq (requires_stage re b ''database_restored'' ''file restore requires database_restored'') (\<lambda>_.
       seq (restore_inject re ''files'') (\<lambda>_.
       seq (read_manifest re b) (\<lambda>m.
       seq (loop (restore_file re b m) (elems (jget m ''files'')) ()) (\<lambda>_. advance_restore re b ''files_complete'' [])))))"

section \<open>Validation\<close>

definition validate_file :: "'h restorer \<Rightarrow> json \<Rightarrow> unit \<Rightarrow> ('h, unit) sact" where
  "validate_file re v _ =
     (let target = target_path re (text_or_empty (re_env re) (items v) ''path'') in
     seq (result (size_digest re v ''size'' ''sha256'')) (\<lambda>expected.
     seq (holds_file re target expected) (\<lambda>held. insist held ''full file validation failed'')))"

definition restore_assertions :: "'h restorer \<Rightarrow> ('h, jobj) sact" where
  "restore_assertions re = observe (locally (database_assertions (re_local re))) Assertions_Are"

definition reference_projection :: string where
  "reference_projection = ''SELECT coalesce(jsonb_agg(jsonb_build_object('' @ quoted ''storage_path'' @ '',q.storage_path,'' @ quoted ''sha256'' @ '',q.sha256,'' @ quoted ''size_bytes''
     @ '',q.size_bytes) ORDER BY q.storage_path)::text,'' @ quoted ''[]'' @ '') FROM (SELECT DISTINCT f.storage_path,f.sha256,f.size_bytes FROM pdf_versions v JOIN pdf_files f ON f.id=v.pdf_file_id) q;''"

definition broken_references :: string where
  "broken_references = ''SELECT count(*) FROM pdf_versions v JOIN pdf_files f ON f.id=v.pdf_file_id JOIN products p ON p.id=v.product_id WHERE f.storage_path IS NULL OR f.sha256 IS NULL OR (p.current_version_id=v.id AND v.product_id<>p.id);''"

definition references_of :: "'h restorer \<Rightarrow> ustr \<Rightarrow> bexc + json list" where
  "references_of re payload =
     (case bk_loads (re_env re) (utf8 payload) of
        Inl e \<Rightarrow> Inl (if e = Json_Error then SafetyError ''database file reference projection is invalid'' else e)
      | Inr v \<Rightarrow> if is_arr v \<and> list_all is_obj (elems v) then Inr (elems v) else Inl (SafetyError ''database file reference projection is invalid''))"

definition database_file_references :: "'h restorer \<Rightarrow> ('h, json list) sact" where
  "database_file_references re =
     seq (observe (perform (bh_psql (re_base re) reference_projection)) References_Are) (\<lambda>payload. result (references_of re payload))"

text \<open>A path's entry in \<open>manifest_by_path\<close>.\<close>

definition identity_of_path :: "'h restorer \<Rightarrow> jobj \<Rightarrow> ustr \<Rightarrow> fingerprint option" where
  "identity_of_path re m path =
     (case find (\<lambda>v. text_or_empty (re_env re) (items v) ''path'' = path) (rev (elems (jget m ''files''))) of
        None \<Rightarrow> None
      | Some v \<Rightarrow> (case size_digest re v ''size'' ''sha256'' of Inl _ \<Rightarrow> None | Inr x \<Rightarrow> Some x))"

definition reference_path :: "ustr \<Rightarrow> ustr" where
  "reference_path digest = take 2 digest @ [47] @ take 2 (drop 2 digest) @ [47] @ digest @ u ''.pdf''"

definition identity_ok :: "jobj \<Rightarrow> bool" where
  "identity_ok r \<longleftrightarrow> is_str (jget r ''storage_path'') \<and> text_of (jget r ''storage_path'') \<noteq> [] \<and> \<not> starts_with (u ''/'') (text_of (jget r ''storage_path''))
     \<and> \<not> climbs (text_of (jget r ''storage_path'')) \<and> is_str (jget r ''sha256'') \<and> hex_text 64 (text_of (jget r ''sha256''))
     \<and> (case jget r ''size_bytes'' of JInt n \<Rightarrow> 0 \<le> n | _ \<Rightarrow> False)"

fun validate_references :: "(ustr \<Rightarrow> fingerprint option) \<Rightarrow> ustr list \<Rightarrow> json list \<Rightarrow> bexc + unit" where
  "validate_references known seen [] = Inr ()"
| "validate_references known seen (v # vs) =
     (let r = items v; digest = text_of (jget r ''sha256''); path = u ''files/'' @ text_of (jget r ''storage_path'') in
      andthen (checks
        [demand (identity_ok r) ''database contains an invalid PDF file identity'',
         demand (jget r ''storage_path'' = JStr (reference_path digest)) ''database PDF storage path does not match its SHA-256 identity'',
         demand (path \<notin> set seen) ''database contains duplicate PDF file identities'',
         demand (known path = Some (case int_of (jget r ''size_bytes'') of None \<Rightarrow> 0 | Some n \<Rightarrow> n, digest))
           ''database-referenced PDF is missing or has a different identity'']) (\<lambda>_. validate_references known (path # seen) vs))"

definition manifest_sizes :: "'h restorer \<Rightarrow> json \<Rightarrow> unit \<Rightarrow> ('h, unit) sact" where
  "manifest_sizes re v _ = result (passed (size_digest re v ''size'' ''sha256''))"

definition validate_database_file_references :: "'h restorer \<Rightarrow> jobj \<Rightarrow> json list \<Rightarrow> ('h, unit) sact" where
  "validate_database_file_references re m references =
     seq (loop (manifest_sizes re) (elems (jget m ''files'')) ()) (\<lambda>_. result (validate_references (identity_of_path re m) [] references))"

definition offline_validate :: "'h restorer \<Rightarrow> ustr \<Rightarrow> ('h, jobj) sact" where
  "offline_validate re b =
     seq (completed re b ''offline_validated'') (\<lambda>already.
     seq (if already then result (Inr ()) else requires_stage re b ''files_complete'' ''offline validation requires files_complete'') (\<lambda>_.
     seq (restore_inject re ''offline_validation'') (\<lambda>_.
     seq (read_manifest re b) (\<lambda>m.
     seq (loop (validate_file re) (elems (jget m ''files'')) ()) (\<lambda>_.
     seq (restore_assertions re) (\<lambda>assertions.
     seq (result (andthen (need m ''database_assertions'') (\<lambda>v.
           demand (py_eq (JObj assertions) v) ''database counts, relations, or audit projection changed''))) (\<lambda>_.
     seq (database_file_references re) (\<lambda>references.
     seq (validate_database_file_references re m references) (\<lambda>_.
     seq (observe (perform (bh_psql (re_base re) broken_references)) Broken_References) (\<lambda>broken.
     seq (insist (broken = u ''0'') ''database contains an invalid current/history reference'') (\<lambda>_.
     seq (if already then result (Inr ()) else advance_restore re b ''offline_validated'' []) (\<lambda>_.
       result (Inr [(u ''backup_id'', JStr b), (u ''stage'', JStr (u ''offline_validated'')), (u ''file_count'', JInt (int (length (elems (jget m ''files''))))),
         (u ''table_counts'', jget assertions ''table_counts'')])))))))))))))"

definition functional_checks :: "string list" where
  "functional_checks = [''unuploaded_state'', ''active_current_v2'', ''disabled_state_priority'', ''switch_v1_and_v2'', ''disabled_immediate_no_store'',
     ''audit_append_only'', ''proxy_stopped'', ''public_unreachable'']"

definition evidence_checks :: "ustr \<Rightarrow> json \<Rightarrow> bexc + unit" where
  "evidence_checks b v =
     (if \<not> is_obj v then Inl Attribute_Error
      else demand (jget (items v) ''backup_id'' = JStr b \<and> list_all (\<lambda>k. jget (items v) k = JBool True) functional_checks) ''isolated functional validation is incomplete'')"

definition record_functional_validation :: "'h restorer \<Rightarrow> ustr \<Rightarrow> ustr \<Rightarrow> ('h, unit) sact" where
  "record_functional_validation re b evidence =
     seq (completed re b ''isolated_functional_validated'') (\<lambda>already.
     seq (if already then result (Inr ()) else requires_stage re b ''offline_validated'' ''functional validation requires offline_validated'') (\<lambda>_.
     seq (restore_inject re ''isolated_functional_validation'') (\<lambda>_.
     seq (translating [Os_Error, Json_Error] ''functional evidence is invalid''
           (seq (observe (perform (bh_local_read (re_base re) evidence)) Evidence_Is) (\<lambda>x. result (bk_loads (re_env re) x)))) (\<lambda>v.
     seq (result (evidence_checks b v)) (\<lambda>_.
     if already then result (Inr ())
     else seq (perform (bh_local_read (re_base re) evidence)) (\<lambda>x.
          advance_restore re b ''isolated_functional_validated'' [(u ''evidence_sha256'', JStr (bk_sha (re_env re) x))]))))))"

section \<open>Opening\<close>

definition authorize_proxy :: "'h restorer \<Rightarrow> ustr \<Rightarrow> ('h, unit) sact" where
  "authorize_proxy re b =
     seq (completed re b ''proxy_authorized'') (\<lambda>already.
     if already then result (Inr ())
     else
       seq (requires_stage re b ''isolated_functional_validated'' ''proxy remains blocked until isolated validation passes'') (\<lambda>_.
       seq (restore_inject re ''proxy'') (\<lambda>_. advance_restore re b ''proxy_authorized'' [])))"

text \<open>The elapsed seconds of the last record of the external readiness; every error of the search is the same refusal.\<close>

definition recorded_elapsed :: "jobj \<Rightarrow> bexc + int" where
  "recorded_elapsed c =
     (let bad = SafetyError ''restore completion RTO evidence is invalid'' in
      case map_of c (u ''history'') of
        None \<Rightarrow> Inl bad
      | Some v \<Rightarrow>
          (case find (\<lambda>w. \<not> (is_obj w \<and> map_of (items w) (u ''stage'') \<noteq> None) \<or> jget (items w) ''stage'' = JStr (u ''external_ready'')) (rev (elems v)) of
             None \<Rightarrow> Inl bad
           | Some w \<Rightarrow>
               if \<not> is_obj w \<or> map_of (items w) (u ''stage'') = None then Inl bad
               else (case andthen (need (items w) ''elapsed_seconds'') py_integer of Inl _ \<Rightarrow> Inl bad | Inr n \<Rightarrow> Inr n)))"

definition verification_document :: "'h restorer \<Rightarrow> ustr \<Rightarrow> jobj \<Rightarrow> jobj \<Rightarrow> datetime \<Rightarrow> jobj" where
  "verification_document re b c m now =
     [(u ''schema_version'', JInt 1), (u ''backup_id'', JStr b), (u ''restore_operation_id'', JStr (operation_id re)),
      (u ''environment_id'', JStr (re_environment re)), (u ''verified_at'', JStr (format_time now)),
      (u ''rule'', JStr (u ''remote_download_plus_complete_isolated_restore_only'')),
      (u ''restore_history_sha256'', JStr (bk_sha (re_env re) (bk_json (re_env re) (jget c ''history'')))),
      (u ''manifest_sha256'', JStr (bk_sha (re_env re) (bk_json (re_env re) (JObj m))))]"

definition proof_key :: "'h restorer \<Rightarrow> ustr \<Rightarrow> ustr" where
  "proof_key re b = bb_prefix (re_local re) @ u ''/verified/'' @ b @ u ''.json''"

definition existing_proof :: "'h restorer \<Rightarrow> ustr \<Rightarrow> jobj \<Rightarrow> ('h, unit) sact" where
  "existing_proof re b expected =
     seq (perform (bh_read (re_base re) (proof_key re b))) (\<lambda>x.
     seq (result (bk_loads (re_env re) x)) (\<lambda>v.
     seq (insist (is_obj v) ''restore verification marker is not a JSON object'') (\<lambda>_.
     seq (result (verify_restore_verification (re_env re) (items v) (re_public re (re_proof_key re)) (re_proof_key_id re))) (\<lambda>_.
       insist (jget (items v) ''backup_id'' = JStr b \<and> py_eq (jget (items v) ''manifest_sha256'') (jget expected ''manifest_sha256''))
         ''restore verification marker conflicts with this recovery point''))))"

definition publish_proof :: "'h restorer \<Rightarrow> ustr \<Rightarrow> jobj \<Rightarrow> ('h, unit) sact" where
  "publish_proof re b unsigned =
     seq (result (authenticate_restore_verification (re_env re) unsigned (re_proof_key re) (re_proof_key_id re))) (\<lambda>d.
     seq (log_event (Proof_To (proof_key re b) (bk_json (re_env re) (JObj d)))) (\<lambda>_.
       perform (bh_upload (re_base re) (bk_json (re_env re) (JObj d)) (proof_key re b))))"

definition elapsed_now :: "'h restorer \<Rightarrow> ustr \<Rightarrow> jobj \<Rightarrow> ('h, int) sact" where
  "elapsed_now re b c =
     seq (read_clock re) (\<lambda>now.
     seq (result (declared_at re c)) (\<lambda>start.
     let elapsed = seconds_between now start in
     seq (insist (0 \<le> elapsed) ''restore RTO clock moved backwards'') (\<lambda>_.
     seq (insist (elapsed \<le> re_rto re) ''four-hour restore RTO exceeded'') (\<lambda>_.
     seq (advance_restore re b ''external_ready'' [(u ''elapsed_seconds'', JInt elapsed)]) (\<lambda>_. result (Inr elapsed))))))"

definition external_ready :: "'h restorer \<Rightarrow> ustr \<Rightarrow> ('h, jobj) sact" where
  "external_ready re b =
     seq (completed re b ''external_ready'') (\<lambda>already.
     seq (if already then result (Inr ()) else requires_stage re b ''proxy_authorized'' ''external readiness reported before proxy authorization'') (\<lambda>_.
     seq (read_state re b) (\<lambda>c.
     seq (if already then result (recorded_elapsed c) else elapsed_now re b c) (\<lambda>elapsed.
     seq (read_state re b) (\<lambda>c.
     seq (read_manifest re b) (\<lambda>m.
     seq (read_clock re) (\<lambda>now.
     seq (result (need c ''history'')) (\<lambda>_.
     seq (if length (re_proof_key re) = 32 then result (Inr ()) else result (Inl Value_Error)) (\<lambda>_.
     seq (perform (bh_exists (re_base re) (proof_key re b))) (\<lambda>present.
     seq (if present then existing_proof re b (verification_document re b c m now) else publish_proof re b (verification_document re b c m now)) (\<lambda>_.
       result (Inr [(u ''backup_id'', JStr b), (u ''elapsed_seconds'', JInt elapsed)]))))))))))))"

section \<open>Rollback\<close>

definition site_file :: "'h restorer \<Rightarrow> ustr \<Rightarrow> unit \<Rightarrow> ('h, unit) sact" where
  "site_file re path _ = seq (inquire re Is_File path) (\<lambda>file. insist file ''site retention object is missing'')"

definition retained_file :: "'h restorer \<Rightarrow> json \<Rightarrow> unit \<Rightarrow> ('h, unit) sact" where
  "retained_file re v _ =
     seq (result (sub v ''path'')) (\<lambda>path.
     let target = target_path re (py_text (re_env re) path) in
     seq (inquire re Is_File target) (\<lambda>file.
     seq (insist file ''site files changed; automatic rollback is unsafe'') (\<lambda>_.
     seq (hash_path re target) (\<lambda>x.
     seq (result (andthen (sub v ''size'') py_integer)) (\<lambda>n.
     seq (result (sub v ''sha256'')) (\<lambda>d.
       insist (x = (n, py_text (re_env re) d)) ''site files changed; automatic rollback is unsafe''))))))"

definition site_identity_checks :: "'h restorer \<Rightarrow> ustr \<Rightarrow> json \<Rightarrow> bexc + unit" where
  "site_identity_checks re b v =
     (if \<not> is_obj v then Inl Attribute_Error
      else checks [demand (jget (items v) ''target_backup_id'' = JStr b) ''site retention identity mismatch'',
        demand (jget (items v) ''restore_operation_id'' = JStr (operation_id re)) ''site retention operation identity mismatch''])"

definition rollback_site :: "'h restorer \<Rightarrow> ustr \<Rightarrow> ('h, unit) sact" where
  "rollback_site re b =
     (let root = site_root re b; database = root @ u ''/database.dump.age''; listing = root @ u ''/files.json.age''; identity = root @ u ''/identity.json.age'' in
     seq (read_state re b) (\<lambda>c.
     seq (insist (stage_rank (u ''site_retained'') \<le> stage_rank (stage_of c)) ''rollback requires a verified site retention point'') (\<lambda>_.
     seq (loop (site_file re) [database, listing, identity] ()) (\<lambda>_.
     seq (open_small re identity SMALL_LIMIT) (\<lambda>x.
     seq (result (bk_loads (re_env re) x)) (\<lambda>v.
     seq (result (site_identity_checks re b v)) (\<lambda>_.
     seq (hash_path re database) (\<lambda>h.
     seq (result (need (items v) ''database_ciphertext_sha256'')) (\<lambda>d.
     seq (insist (d = JStr (snd h)) ''site retention database ciphertext changed'') (\<lambda>_.
     seq (open_small re listing SMALL_LIMIT) (\<lambda>x.
     seq (result (andthen (bk_loads (re_env re) x) py_iter)) (\<lambda>vs.
     seq (loop (retained_file re) vs ()) (\<lambda>_.
     seq (load_database re b database) (\<lambda>_.
     seq (record_stage re ''rolled_back'' [] c) (\<lambda>c'. write_state re b c')))))))))))))))"

end
