(* ===== verification/Bk_Restored.thy ===== *)
theory Bk_Restored
  imports Bk_Restore
begin

text \<open>
  The runs of a restore, whatever its host answers and wherever it dies, and what is to hold of them: each stage of a checkpoint was earned in order, and the
  database and the files are not touched before the site was retained.
\<close>

section \<open>Runs\<close>

datatype operation = Declare | Preflight | Retain | Load_Database | Load_Files | Validate | Functional ustr | Open_Proxy | Ready | Roll_Back

definition unit_of :: "('h, 'a) sact \<Rightarrow> ('h, unit) sact" where
  "unit_of m = seq m (\<lambda>_. result (Inr ()))"

fun perform_operation :: "'h restorer \<Rightarrow> operation \<Rightarrow> ustr \<Rightarrow> ('h, unit) sact" where
  "perform_operation re Declare b = unit_of (declare_restore re b)"
| "perform_operation re Preflight b = unit_of (preflight re b)"
| "perform_operation re Retain b = retain_site re b"
| "perform_operation re Load_Database b = restore_database re b"
| "perform_operation re Load_Files b = restore_files re b"
| "perform_operation re Validate b = unit_of (offline_validate re b)"
| "perform_operation re (Functional evidence) b = record_functional_validation re b evidence"
| "perform_operation re Open_Proxy b = authorize_proxy re b"
| "perform_operation re Ready b = unit_of (external_ready re b)"
| "perform_operation re Roll_Back b = rollback_site re b"

text \<open>From an empty state directory, operations on any points, ending in any way, and whatever happens to the host between them.\<close>

inductive reaches :: "'h restorer \<Rightarrow> 'h rstate \<Rightarrow> bool" for re where
  empty: "reaches re \<lparr>rs_host = h, rs_checks = Map.empty, rs_log = []\<rparr>"
| operation: "reaches re s \<Longrightarrow> reaches re (snd (perform_operation re opn b s))"
| outside: "reaches re s \<Longrightarrow> reaches re (s\<lparr>rs_host := h\<rparr>)"

section \<open>Milestones\<close>

definition trusted :: "'h restorer \<Rightarrow> ustr \<Rightarrow> jobj \<Rightarrow> sevent set \<Rightarrow> bool" where
  "trusted re b m L \<longleftrightarrow> (\<exists>path x. Opened path x \<in> L \<and> bk_loads (re_env re) x = Inr (JObj m))
     \<and> verify_manifest_authentication (re_env re) m (re_manifest_key re) (re_manifest_key_id re) = Inr ()
     \<and> validate_manifest (re_env re) m = Inr () \<and> jget m ''backup_id'' = JStr b"

definition object_path :: "'h restorer \<Rightarrow> ustr \<Rightarrow> json \<Rightarrow> ustr" where
  "object_path re b v = cache_path re b (text_or_empty (re_env re) (items v) ''key'')"

definition file_path :: "'h restorer \<Rightarrow> json \<Rightarrow> ustr" where
  "file_path re v = target_path re (text_or_empty (re_env re) (items v) ''path'')"

definition object_checked :: "'h restorer \<Rightarrow> ustr \<Rightarrow> json \<Rightarrow> sevent set \<Rightarrow> bool" where
  "object_checked re b v L \<longleftrightarrow> (\<exists>x y. size_digest re v ''ciphertext_size'' ''ciphertext_sha256'' = Inr x \<and> size_digest re v ''plaintext_size'' ''plaintext_sha256'' = Inr y
     \<and> Path_Is (object_path re b v) x \<in> L \<and> Plain_Is (object_path re b v) y \<in> L)"

definition file_present :: "'h restorer \<Rightarrow> json \<Rightarrow> sevent set \<Rightarrow> bool" where
  "file_present re v L \<longleftrightarrow> (\<exists>x. size_digest re v ''size'' ''sha256'' = Inr x \<and> (Path_Is (file_path re v) x \<in> L \<or> File_Is (file_path re v) x \<in> L))"

definition file_hashed :: "'h restorer \<Rightarrow> json \<Rightarrow> sevent set \<Rightarrow> bool" where
  "file_hashed re v L \<longleftrightarrow> (\<exists>x. size_digest re v ''size'' ''sha256'' = Inr x \<and> Path_Is (file_path re v) x \<in> L)"

definition site_sealed :: "'h restorer \<Rightarrow> ustr \<Rightarrow> sevent set \<Rightarrow> bool" where
  "site_sealed re b L \<longleftrightarrow> Site_Kept b \<in> L \<and> (\<forall>name \<in> {''/database.dump.age'', ''/files.json.age'', ''/identity.json.age''}.
     \<exists>x. Sealed (staging_root re b @ u name) x \<in> L \<and> Path_Is (staging_root re b @ u name) x \<in> L)"

definition database_checked :: "'h restorer \<Rightarrow> jobj \<Rightarrow> sevent set \<Rightarrow> bool" where
  "database_checked re m L \<longleftrightarrow> (\<exists>a d. Assertions_Are a \<in> L \<and> need m ''database_assertions'' = Inr d \<and> py_eq (JObj a) d)
     \<and> (\<exists>p refs. References_Are p \<in> L \<and> references_of re p = Inr refs \<and> validate_references (identity_of_path re m) [] refs = Inr ())
     \<and> Broken_References (u ''0'') \<in> L"

text \<open>What the step to each stage must have seen.\<close>

definition milestone :: "'h restorer \<Rightarrow> ustr \<Rightarrow> nat \<Rightarrow> sevent set \<Rightarrow> bool" where
  "milestone re b n L =
     (if n = 1 then \<exists>m. trusted re b m L \<and> (\<forall>v \<in> set (elems (jget m ''objects'')). object_checked re b v L)
      else if n = 2 then site_sealed re b L
      else if n = 3 then \<exists>m v. trusted re b m L \<and> object_named m (u ''database'') = Some v \<and> Db_Loaded b (object_path re b v) \<in> L
      else if n = 4 then \<exists>m. trusted re b m L \<and> (\<forall>v \<in> set (elems (jget m ''files'')). file_present re v L)
      else if n = 5 then \<exists>m. trusted re b m L \<and> (\<forall>v \<in> set (elems (jget m ''files'')). file_hashed re v L) \<and> database_checked re m L
      else if n = 6 then \<exists>x v. Evidence_Is x \<in> L \<and> bk_loads (re_env re) x = Inr v \<and> evidence_checks b v = Inr ()
      else True)"

text \<open>The log splits into one segment for each stage, in order, each with its milestone.\<close>

fun earned :: "'h restorer \<Rightarrow> ustr \<Rightarrow> nat \<Rightarrow> sevent list \<Rightarrow> bool" where
  "earned re b 0 L = True"
| "earned re b (Suc n) L = (\<exists>A B. L = A @ B \<and> earned re b n A \<and> milestone re b (Suc n) (set B))"

lemma evidence_mono:
  assumes "L \<subseteq> L'"
  shows "trusted re b m L \<Longrightarrow> trusted re b m L'" "object_checked re b v L \<Longrightarrow> object_checked re b v L'" "file_present re v L \<Longrightarrow> file_present re v L'"
    "file_hashed re v L \<Longrightarrow> file_hashed re v L'" "site_sealed re b L \<Longrightarrow> site_sealed re b L'" "database_checked re m L \<Longrightarrow> database_checked re m L'"
proof -
  have "e \<in> L \<Longrightarrow> e \<in> L'" for e using assms by (rule subsetD)
  note up = this
  show "trusted re b m L \<Longrightarrow> trusted re b m L'" unfolding trusted_def using up by meson
  show "object_checked re b v L \<Longrightarrow> object_checked re b v L'" unfolding object_checked_def using up by meson
  show "file_present re v L \<Longrightarrow> file_present re v L'" unfolding file_present_def using up by meson
  show "file_hashed re v L \<Longrightarrow> file_hashed re v L'" unfolding file_hashed_def using up by meson
  show "site_sealed re b L \<Longrightarrow> site_sealed re b L'" unfolding site_sealed_def using up by meson
  show "database_checked re m L \<Longrightarrow> database_checked re m L'" unfolding database_checked_def using up by meson
qed

lemma milestone_mono:
  assumes "milestone re b n L" "L \<subseteq> L'"
  shows "milestone re b n L'"
proof -
  note up = evidence_mono [OF assms(2)]
  have "e \<in> L \<Longrightarrow> e \<in> L'" for e using assms(2) by (rule subsetD)
  note up = up this
  consider "n = 1" | "n = 2" | "n = 3" | "n = 4" | "n = 5" | "n = 6" | "n \<notin> {1, 2, 3, 4, 5, 6}" by auto
  then show ?thesis
  proof cases
    case 1
    then show ?thesis using assms(1) unfolding milestone_def by simp (meson up)
  next
    case 2
    then show ?thesis using assms(1) unfolding milestone_def by simp (meson up)
  next
    case 3
    then show ?thesis using assms(1) unfolding milestone_def by simp (meson up)
  next
    case 4
    then show ?thesis using assms(1) unfolding milestone_def by simp (meson up)
  next
    case 5
    then show ?thesis using assms(1) unfolding milestone_def by simp (meson up)
  next
    case 6
    then show ?thesis using assms(1) unfolding milestone_def by simp (meson up)
  qed (simp add: milestone_def)
qed

lemma earned_append: "earned re b n L \<Longrightarrow> earned re b n (L @ es)"
proof (cases n)
  case (Suc k)
  assume "earned re b n L"
  then obtain A B where "L = A @ B" "earned re b k A" "milestone re b n (set B)" using Suc by auto
  then show ?thesis unfolding Suc earned.simps by (intro exI [of _ A] exI [of _ "B @ es"]) (auto intro: milestone_mono simp: Suc)
qed simp

lemma earned_lower: "earned re b n L \<Longrightarrow> k \<le> n \<Longrightarrow> earned re b k L"
proof (induction n arbitrary: L)
  case (Suc n)
  then show ?case by (cases "k = Suc n") (auto intro: earned_append simp: le_Suc_eq)
qed simp

lemma earned_site: "earned re b n L \<Longrightarrow> 2 \<le> n \<Longrightarrow> Site_Kept b \<in> set L"
  using earned_lower [of re b n L 2] by (auto simp: numeral_2_eq_2 milestone_def site_sealed_def)

lemma earned_database: "earned re b n L \<Longrightarrow> 3 \<le> n \<Longrightarrow> \<exists>p. Db_Loaded b p \<in> set L"
  using earned_lower [of re b n L 3] by (auto simp: numeral_3_eq_3 milestone_def)

section \<open>Order of changes\<close>

text \<open>What must have happened before an event.\<close>

fun allowed :: "sevent \<Rightarrow> sevent set \<Rightarrow> bool" where
  "allowed (Db_From b p) S = (Site_Kept b \<in> S)"
| "allowed (File_From b c p) S = (Site_Kept b \<in> S \<and> (\<exists>p. Db_Loaded b p \<in> S))"
| "allowed _ S = True"

definition guarded :: "sevent list \<Rightarrow> bool" where
  "guarded L \<longleftrightarrow> (\<forall>A e B. L = A @ e # B \<longrightarrow> allowed e (set A))"

lemma allowed_mono: "allowed e S \<Longrightarrow> S \<subseteq> S' \<Longrightarrow> allowed e S'"
  by (induction e S rule: allowed.induct) auto

lemma guarded_snoc: "guarded (L @ [e]) \<longleftrightarrow> guarded L \<and> allowed e (set L)"
proof
  assume g: "guarded (L @ [e])"
  have "allowed x (set A)" if "L = A @ x # B" for A x B
    using g [unfolded guarded_def, rule_format, of A x "B @ [e]"] that by simp
  with g show "guarded L \<and> allowed e (set L)" by (auto simp: guarded_def)
next
  assume g: "guarded L \<and> allowed e (set L)"
  show "guarded (L @ [e])"
    unfolding guarded_def
  proof (intro allI impI)
    fix A x B
    assume "L @ [e] = A @ x # B"
    then show "allowed x (set A)" using g by (cases B rule: rev_cases) (auto simp: guarded_def)
  qed
qed

lemma guarded_append: "guarded L \<Longrightarrow> list_all (\<lambda>e. allowed e (set L)) es \<Longrightarrow> guarded (L @ es)"
proof (induction es rule: rev_induct)
  case (snoc e es)
  then show ?case by (simp flip: append_assoc add: guarded_snoc) (blast intro: allowed_mono)
qed simp

end
