(* ===== verification/Bk_Stages.thy ===== *)
theory Bk_Stages
  imports Bk_Restored
begin

text \<open>
  What a sound checkpoint of a restore is, and the calculus by which operations are shown to keep it: actions that only ask and log, and the writes of checkpoints.
\<close>

section \<open>Checkpoints\<close>

definition history_stages :: "json \<Rightarrow> json list" where
  "history_stages v = map (\<lambda>h. jget (items h) ''stage'') (elems (jget (items v) ''history''))"

abbreviation stage_text :: "string \<Rightarrow> json" where
  "stage_text x \<equiv> JStr (u x)"

abbreviation stages_to :: "nat \<Rightarrow> json list" where
  "stages_to n \<equiv> map stage_text (take n (tl STAGE_ORDER))"

definition document_of :: "'h restorer \<Rightarrow> ustr \<Rightarrow> json \<Rightarrow> bool" where
  "document_of re b v \<longleftrightarrow> is_obj v \<and> jget (items v) ''backup_id'' = JStr b \<and> jget (items v) ''operation_id'' = JStr (operation_id re)
     \<and> is_arr (jget (items v) ''history'') \<and> is_str (jget (items v) ''declared_at'')"

text \<open>The readiness was reached within the limit, from the declaration to a reading of the clock.\<close>

definition ready_in_time :: "'h restorer \<Rightarrow> json \<Rightarrow> sevent set \<Rightarrow> bool" where
  "ready_in_time re v L \<longleftrightarrow> (\<exists>t start. Clock_Is t \<in> L \<and> declared_at re (items v) = Inr start \<and> 0 \<le> seconds_between t start \<and> seconds_between t start \<le> re_rto re)"

definition progressing :: "'h restorer \<Rightarrow> ustr \<Rightarrow> nat \<Rightarrow> json \<Rightarrow> sevent list \<Rightarrow> bool" where
  "progressing re b n v L \<longleftrightarrow> n \<le> 8 \<and> document_of re b v \<and> jget (items v) ''stage'' = stage_text (STAGE_ORDER ! n) \<and> history_stages v = stages_to n
     \<and> earned re b n L \<and> (n = 8 \<longrightarrow> ready_in_time re v (set L))"

definition withdrawn :: "'h restorer \<Rightarrow> ustr \<Rightarrow> json \<Rightarrow> sevent list \<Rightarrow> bool" where
  "withdrawn re b v L \<longleftrightarrow> document_of re b v \<and> jget (items v) ''stage'' = stage_text ''rolled_back'' \<and> earned re b 2 L
     \<and> Db_Loaded b (site_root re b @ u ''/database.dump.age'') \<in> set L
     \<and> (\<exists>n k. 2 \<le> n \<and> n \<le> 8 \<and> history_stages v = stages_to n @ replicate (Suc k) (stage_text ''rolled_back''))"

definition settled :: "'h restorer \<Rightarrow> ustr \<Rightarrow> json \<Rightarrow> sevent list \<Rightarrow> bool" where
  "settled re b v L \<longleftrightarrow> (\<exists>n. progressing re b n v L) \<or> withdrawn re b v L"

definition sound :: "'h restorer \<Rightarrow> 'h rstate \<Rightarrow> bool" where
  "sound re s \<longleftrightarrow> guarded (rs_log s) \<and> (\<forall>b r. rs_checks s b = Some r \<longrightarrow> (\<exists>v. r = Inr v \<and> settled re b v (rs_log s)))"

text \<open>Later states of the same checkpoints.\<close>

definition ahead :: "'h rstate \<Rightarrow> 'h rstate \<Rightarrow> bool" where
  "ahead s t \<longleftrightarrow> (\<forall>b v. rs_checks s b = Some (Inr v) \<longrightarrow> (\<exists>w. rs_checks t b = Some (Inr w) \<and> jget (items w) ''declared_at'' = jget (items v) ''declared_at''
     \<and> (\<exists>zs. history_stages w = history_stages v @ zs)))"

definition keeps :: "'h restorer \<Rightarrow> 'h rstate \<Rightarrow> 'h rstate \<Rightarrow> bool" where
  "keeps re s t \<longleftrightarrow> sound re t \<and> ahead s t"

lemma stage_ranks [simp]:
  "stage_rank (u ''declared'') = 0" "stage_rank (u ''preflight_complete'') = 1" "stage_rank (u ''site_retained'') = 2" "stage_rank (u ''database_restored'') = 3"
  "stage_rank (u ''files_complete'') = 4" "stage_rank (u ''offline_validated'') = 5" "stage_rank (u ''isolated_functional_validated'') = 6"
  "stage_rank (u ''proxy_authorized'') = 7" "stage_rank (u ''external_ready'') = 8" "stage_rank (u ''rolled_back'') = 9"
  by (simp_all add: stage_rank_def STAGE_ORDER_def del: u_Cons)

lemma stage_cases: "n \<le> 8 \<Longrightarrow> n \<in> {0, 1, 2, 3, 4, 5, 6, 7, 8}"
  for n :: nat by auto

lemma stage_rank_nth [simp]: "n \<le> 8 \<Longrightarrow> stage_rank (u (STAGE_ORDER ! n)) = n"
  by (drule stage_cases) (auto simp: STAGE_ORDER_def simp del: u_Cons)

lemma stage_not_rolled [simp]: "n \<le> 8 \<Longrightarrow> STAGE_ORDER ! n \<noteq> ''rolled_back''"
  by (drule stage_cases) (auto simp: STAGE_ORDER_def)

lemma ahead_refl [simp]: "rs_checks t = rs_checks s \<Longrightarrow> ahead s t"
  by (simp add: ahead_def)

lemma ahead_trans:
  assumes "ahead s t" "ahead t w"
  shows "ahead s w"
  unfolding ahead_def
proof (intro allI impI)
  fix b v
  assume "rs_checks s b = Some (Inr v)"
  then obtain v1 xs where 1: "rs_checks t b = Some (Inr v1)" "jget (items v1) ''declared_at'' = jget (items v) ''declared_at''" "history_stages v1 = history_stages v @ xs"
    using assms(1) unfolding ahead_def by blast
  then obtain v2 ys where 2: "rs_checks w b = Some (Inr v2)" "jget (items v2) ''declared_at'' = jget (items v1) ''declared_at''" "history_stages v2 = history_stages v1 @ ys"
    using assms(2) unfolding ahead_def by blast
  then show "\<exists>v2. rs_checks w b = Some (Inr v2) \<and> jget (items v2) ''declared_at'' = jget (items v) ''declared_at'' \<and> (\<exists>zs. history_stages v2 = history_stages v @ zs)"
    using 1 by simp
qed

lemma progressing_append: "progressing re b n v L \<Longrightarrow> progressing re b n v (L @ es)"
  by (auto simp: progressing_def ready_in_time_def intro: earned_append)

lemma withdrawn_append: "withdrawn re b v L \<Longrightarrow> withdrawn re b v (L @ es)"
  unfolding withdrawn_def set_append by (blast intro: earned_append)

lemma settled_append: "settled re b v L \<Longrightarrow> settled re b v (L @ es)"
  unfolding settled_def by (blast intro: progressing_append withdrawn_append)

section \<open>Actions that only ask\<close>

definition went :: "(sevent \<Rightarrow> bool) \<Rightarrow> 'h rstate \<Rightarrow> sevent list \<Rightarrow> 'h rstate \<Rightarrow> bool" where
  "went A s es t \<longleftrightarrow> rs_checks t = rs_checks s \<and> rs_log t = rs_log s @ es \<and> list_all A es"

text \<open>All events satisfy \<open>A\<close>; the value stands in the relation \<open>P\<close> to the new events.\<close>

definition asks :: "(sevent \<Rightarrow> bool) \<Rightarrow> ('h, 'a) sact \<Rightarrow> ('a \<Rightarrow> sevent set \<Rightarrow> bool) \<Rightarrow> bool" where
  "asks A m P \<longleftrightarrow> (\<forall>s. wp m (\<lambda>x t. \<exists>es. went A s es t \<and> P x (set es)) (\<lambda>_ t. \<exists>es. went A s es t) s)"

lemma went_refl: "rs_checks t = rs_checks s \<Longrightarrow> rs_log t = rs_log s \<Longrightarrow> went A s [] t"
  by (simp add: went_def)

lemma went_trans: "went A s es t \<Longrightarrow> went A t fs w \<Longrightarrow> went A s (es @ fs) w"
  by (simp add: went_def)

lemma asks_weaken: "asks A m P \<Longrightarrow> (\<And>x L. P x L \<Longrightarrow> Q x L) \<Longrightarrow> asks A m Q"
  unfolding asks_def by (blast intro: wp_mono)

lemma asks_seq:
  assumes "asks A m P" "\<And>x L. P x L \<Longrightarrow> asks A (k x) (\<lambda>y L'. R y (L \<union> L'))"
  shows "asks A (seq m k) R"
  unfolding asks_def wp_seq
proof
  fix s
  show "wp m (\<lambda>x. wp (k x) (\<lambda>y t. \<exists>es. went A s es t \<and> R y (set es)) (\<lambda>_ t. \<exists>es. went A s es t)) (\<lambda>_ t. \<exists>es. went A s es t) s"
  proof (rule wp_mono [OF spec [OF assms(1) [unfolded asks_def]]])
    fix x t
    assume "\<exists>es. went A s es t \<and> P x (set es)"
    then obtain es where es: "went A s es t" "P x (set es)" by blast
    from assms(2) [OF es(2)] have "wp (k x) (\<lambda>y w. \<exists>fs. went A t fs w \<and> R y (set es \<union> set fs)) (\<lambda>_ w. \<exists>fs. went A t fs w) t"
      unfolding asks_def by blast
    then show "wp (k x) (\<lambda>y t. \<exists>es. went A s es t \<and> R y (set es)) (\<lambda>_ t. \<exists>es. went A s es t) t"
      by (rule wp_mono) (use es(1) in \<open>metis went_trans set_append\<close>)+
  qed
qed

lemma asks_result: "(\<And>x. r = Inr x \<Longrightarrow> P x {}) \<Longrightarrow> asks A (result r) P"
  unfolding asks_def by (auto intro!: wp_resultI exI [of _ "[]"] simp: went_def)

lemma asks_perform: "(\<And>x. P x {}) \<Longrightarrow> asks A (perform f) P"
  unfolding asks_def by (auto simp: wp_def perform_def went_def split: prod.splits sum.splits)

lemma asks_locally: "(\<And>x. P x {}) \<Longrightarrow> asks A (locally m) P"
  unfolding asks_def by (auto simp: wp_def locally_def went_def split: prod.splits sum.splits)

lemma asks_event: "A e \<Longrightarrow> P () {e} \<Longrightarrow> asks A (log_event e) P"
  unfolding asks_def by (auto simp: wp_def log_event_def went_def)

lemma asks_if: "(b \<Longrightarrow> asks A m P) \<Longrightarrow> (\<not> b \<Longrightarrow> asks A k P) \<Longrightarrow> asks A (if b then m else k) P"
  by simp

lemma asks_observe: "asks A m (\<lambda>_ _. True) \<Longrightarrow> (\<And>x. A (ev x)) \<Longrightarrow> (\<And>x L. ev x \<in> L \<Longrightarrow> P x L) \<Longrightarrow> asks A (observe m ev) P"
  unfolding observe_def
  by (rule asks_seq, assumption) (rule asks_seq [OF asks_event [where P = "\<lambda>_ L. L = {ev x}" for x]], auto intro: asks_result)

lemma asks_translating: "asks A m P \<Longrightarrow> asks A (translating es msg m) P"
  unfolding asks_def by (fastforce simp: wp_def translating_def split: prod.splits sum.splits)

lemma asks_discarding: "asks A m P \<Longrightarrow> asks A (discarding re path m) P"
  unfolding asks_def
  by (fastforce simp: wp_def discarding_def locally_def went_def split: prod.splits sum.splits)

text \<open>Loops: \<open>J\<close> holds of each item done, and lasts.\<close>

lemma asks_loop:
  assumes "\<And>x acc. x \<in> set xs \<Longrightarrow> asks A (f x acc) (\<lambda>_ L. J x L)" "\<And>x L L'. J x L \<Longrightarrow> L \<subseteq> L' \<Longrightarrow> J x L'"
  shows "asks A (loop f xs acc) (\<lambda>_ L. \<forall>x \<in> set xs. J x L)"
  using assms(1)
proof (induction xs arbitrary: acc)
  case (Cons x xs)
  have "asks A (f x acc) (\<lambda>_ L. J x L)" using Cons.prems by simp
  then show ?case
    unfolding loop.simps
    by (rule asks_seq) (use Cons in \<open>auto intro!: asks_weaken [OF Cons.IH] intro: assms(2)\<close>)
qed (auto intro: asks_result)

lemma asks_quiet_loop: "(\<And>x acc. asks A (f x acc) (\<lambda>_ _. True)) \<Longrightarrow> asks A (loop f xs acc) (\<lambda>_ _. True)"
  using asks_loop [of xs A f "\<lambda>_ _. True"] by simp

lemma asks_then: "asks A m (\<lambda>_ _. True) \<Longrightarrow> (\<And>x. asks A (k x) (\<lambda>_ _. True)) \<Longrightarrow> asks A (seq m k) (\<lambda>_ _. True)"
  by (rule asks_seq) auto

lemma asks_true: "asks A m P \<Longrightarrow> asks A m (\<lambda>_ _. True)"
  by (erule asks_weaken) simp

text \<open>A continuation whose claim about the new events lasts.\<close>

lemma asks_skip:
  assumes "asks A m (\<lambda>_ _. True)" "\<And>x. asks A (k x) R" "\<And>y L L'. R y L \<Longrightarrow> L \<subseteq> L' \<Longrightarrow> R y L'"
  shows "asks A (seq m k) R"
  by (rule asks_seq [OF assms(1)], rule asks_weaken [OF assms(2)]) (auto intro: assms(3))

end
