(* ===== verification/Bk_Evidence.thy ===== *)
theory Bk_Evidence
  imports Bk_Stages
begin

text \<open>
  What the parts of the restore have seen when they return.
\<close>

section \<open>Reading\<close>

abbreviation ok :: "sevent set \<Rightarrow> sevent \<Rightarrow> bool" where
  "ok S \<equiv> \<lambda>e. allowed e S"

lemma asks_case: "(\<And>a c. x = (a, c) \<Longrightarrow> asks A (f a c) P) \<Longrightarrow> asks A (case x of (a, c) \<Rightarrow> f a c) P"
  by (cases x) simp

lemma asks_option: "asks A m P \<Longrightarrow> (\<And>y. x = Some y \<Longrightarrow> asks A (f y) P) \<Longrightarrow> asks A (case x of None \<Rightarrow> m | Some y \<Rightarrow> f y) P"
  by (cases x) simp_all

lemma asks_value: "asks A (result r) (\<lambda>x _. r = Inr x)"
  by (rule asks_result) simp

lemma asks_insist: "asks A (insist p msg) (\<lambda>_ _. p)"
  by (rule asks_result) (simp add: demand_def split: if_splits)

text \<open>An action that only decides: what follows may use what was decided.\<close>

lemma asks_after_insist: "(p \<Longrightarrow> asks A (k ()) R) \<Longrightarrow> asks A (seq (insist p msg) k) R"
  unfolding asks_def by (auto simp: wp_seq demand_def wps went_def intro!: exI [of _ "[]"])

lemma asks_after_result: "(\<And>x. r = Inr x \<Longrightarrow> asks A (k x) R) \<Longrightarrow> asks A (seq (result r) k) R"
  unfolding asks_def wp_seq by (cases r) (auto simp: wps went_def intro!: exI [of _ "[]"])

lemma asks_nested_case: "(\<And>a c d. asks A (f a c d) P) \<Longrightarrow> asks A (case x of (y, d) \<Rightarrow> (case y of (a, c) \<Rightarrow> \<lambda>d. f a c d) d) P"
  by (cases x; cases "fst x") simp_all

lemmas asking = asks_then asks_if asks_nested_case asks_case asks_quiet_loop asks_option

lemma asks_hash: "asks (ok S) (hash_path re p) (\<lambda>x L. Path_Is p x \<in> L)"
  unfolding hash_path_def by (rule asks_observe) (auto intro: asks_perform)

lemma asks_open: "asks (ok S) (open_small re p limit) (\<lambda>x L. Opened p x \<in> L)"
  unfolding open_small_def by (rule asks_observe) (auto intro: asks_perform)

lemma asks_clock: "asks (ok S) (read_clock re) (\<lambda>t L. Clock_Is t \<in> L)"
  unfolding read_clock_def by (rule asks_observe) (auto intro: asks_perform)

lemma asks_quiet:
  "asks (ok S) (perform f) (\<lambda>_ _. True)" "asks (ok S) (locally m) (\<lambda>_ _. True)" "asks (ok S) (result r) (\<lambda>_ _. True)"
  "asks (ok S) (hash_path re p) (\<lambda>_ _. True)" "asks (ok S) (open_small re p limit) (\<lambda>_ _. True)" "asks (ok S) (read_clock re) (\<lambda>_ _. True)"
  "asks (ok S) (restore_inject re st) (\<lambda>_ _. True)"
  unfolding restore_inject_def
  by (auto intro: asks_perform asks_locally asks_result asks_true [OF asks_hash] asks_true [OF asks_open] asks_true [OF asks_clock])

lemma asks_skips: "(\<And>x. asks A (k x) (\<lambda>y L. R y L)) \<Longrightarrow> asks A m (\<lambda>_ _. True) \<Longrightarrow> (\<And>y L L'. R y L \<Longrightarrow> L \<subseteq> L' \<Longrightarrow> R y L') \<Longrightarrow> asks A (seq m k) R"
  by (rule asks_skip)

lemma asks_download: "asks (ok S) (download_verified re b key x) (\<lambda>p L. p = cache_path re b key \<and> Path_Is p x \<in> L)"
proof -
  let ?path = "cache_path re b key"
  have cached: "asks (ok S) (if \<not> c then result (Inr False)
      else seq (hash_path re ?path) (\<lambda>y. if y = x then result (Inr True) else seq (perform (bh_remove (re_base re) ?path)) (\<lambda>_. result (Inr False))))
      (\<lambda>hit L. hit \<longrightarrow> Path_Is ?path x \<in> L)" for c
    by (rule asks_if, rule asks_result, simp, rule asks_seq [OF asks_hash], rule asks_if, rule asks_result, simp, rule asks_skip [OF asks_quiet(1)], rule asks_result, auto)
  have fetched: "asks (ok S) (seq (perform (rh_download (re_host re) key ?path)) (\<lambda>_. seq (hash_path re ?path) (\<lambda>y. if y = x then result (Inr ?path)
      else seq (perform (bh_remove (re_base re) ?path)) (\<lambda>_. result (Inl (SafetyError ''downloaded ciphertext size or SHA-256 mismatch'')))))) (\<lambda>p L. p = ?path \<and> Path_Is p x \<in> L)"
    by (rule asks_skip [OF asks_quiet(1)], rule asks_seq [OF asks_hash], rule asks_if, rule asks_result, simp, rule asks_skip [OF asks_quiet(1)], rule asks_result, auto)
  show ?thesis
    unfolding download_verified_def Let_def
    by (rule asks_skip [OF asks_quiet(1)], rule asks_seq [OF cached], rule asks_if, rule asks_result, simp, rule asks_weaken [OF fetched], auto)
qed

lemma obj_items: "is_obj v \<Longrightarrow> v = JObj (items v)"
  by (cases v) simp_all

lemma asks_open_manifest: "asks (ok S) (open_manifest re b c) (\<lambda>x L. trusted re b (snd x) L)"
  unfolding open_manifest_def
  apply (rule asks_after_result)+
  apply (rule asks_skip [OF asks_true [OF asks_download]], rule asks_seq [OF asks_open])
  apply (rule asks_seq [OF asks_translating [OF asks_value]])
   apply (rule asks_after_insist, rule asks_after_result, rule asks_after_result, rule asks_after_insist, rule asks_result)
   apply (clarsimp simp: trusted_def, metis obj_items)
  apply (rule evidence_mono(1), assumption, assumption)
  done

lemma asks_completion: "asks (ok S) (read_completion re b) (\<lambda>_ _. True)"
  unfolding read_completion_def by (intro asks_translating asks_then asks_quiet)

lemma asks_manifest: "asks (ok S) (read_manifest re b) (\<lambda>m L. trusted re b m L)"
  unfolding read_manifest_def
  by (rule asks_skip [OF asks_completion], rule asks_after_insist, rule asks_seq [OF asks_open_manifest], rule asks_case, rule asks_result)
    (simp, erule evidence_mono(1) [rotated], blast)

section \<open>Preflight\<close>

lemma asks_deployment: "asks (ok S) (current_deployment_identity re) (\<lambda>_ _. True)" "asks (ok S) (validate_deployment re m) (\<lambda>_ _. True)"
  unfolding validate_deployment_def current_deployment_identity_def current_config_hashes_def Let_def by (intro asks_then asks_quiet)+

lemma asks_holds: "asks (ok S) (holds_file re p x) (\<lambda>h L. h \<longrightarrow> Path_Is p x \<in> L)"
  unfolding holds_file_def
  by (rule asks_skip [OF asks_quiet(1)], rule asks_if, rule asks_result, simp, rule asks_seq [OF asks_hash], rule asks_result, auto)

lemma asks_irregular: "asks (ok S) (irregular re p) (\<lambda>_ _. True)"
  unfolding irregular_def by (intro asking asks_quiet)

lemma asks_capacity:
  "asks (ok S) (require_cache_capacity re b m) (\<lambda>_ _. True)" "asks (ok S) (require_target_capacity re m) (\<lambda>_ _. True)"
  unfolding require_cache_capacity_def cipher_missing_def require_target_capacity_def target_requirements_def target_requirement_def parent_check_def reclaimable_def Let_def
  by (intro asking asks_quiet asks_irregular asks_true [OF asks_holds])+

lemma asks_tools: "asks (ok S) (tool_versions re m) (\<lambda>_ _. True)"
  unfolding tool_versions_def by (intro asking asks_quiet)

lemma asks_config: "asks (ok S) (validate_config_archive re p m) (\<lambda>_ _. True)"
  unfolding validate_config_archive_def by (intro asking asks_quiet)

lemma asks_verify_object: "asks (ok S) (verify_object re b m v acc) (\<lambda>_ L. object_checked re b v L)"
proof -
  have plain: "asks (ok S) (observe (perform (rh_decrypt_hash (re_host re) p)) (Plain_Is p)) (\<lambda>y L. Plain_Is p y \<in> L)" for p
    by (rule asks_observe) (auto intro: asks_perform)
  show ?thesis
    unfolding verify_object_def
    apply (rule asks_after_result, rule asks_seq [OF asks_download], rule asks_seq [OF plain], rule asks_after_result, rule asks_after_insist)
    apply (rule asks_if, rule asks_weaken [OF asks_config])
     apply (auto simp: object_checked_def object_path_def intro: asks_result)
    done
qed

section \<open>Site, database and files\<close>

lemma asks_clear: "asks (ok S) (clear_site_path re p acc) (\<lambda>_ _. True)"
  unfolding clear_site_path_def by (intro asking asks_quiet)

lemma asks_site_check: "asks (ok S) (site_check re root c acc) (\<lambda>_ L. Path_Is (root @ fst c) (snd c) \<in> L)"
  unfolding site_check_def by (rule asks_seq [OF asks_hash], rule asks_result) (auto simp: demand_def split: if_splits)

lemma asks_sealed: "asks (ok S) (observe (perform f) (\<lambda>x. Sealed p (g x))) (\<lambda>x L. Sealed p (g x) \<in> L)" "asks (ok S) (retain_bytes re y p) (\<lambda>x L. Sealed p x \<in> L)"
  unfolding retain_bytes_def by (rule asks_observe; auto intro: asks_perform)+

lemma asks_retain_objects: "asks (ok S) (retain_objects re b) (\<lambda>_ L. site_sealed re b L)"
  unfolding retain_objects_def Let_def
  apply (rule asks_skip [OF asks_quiet(7)], rule asks_seq [OF asks_sealed(1)], rule asks_skip [OF asks_quiet(2)], rule asks_seq [OF asks_sealed(2)])
  apply (rule asks_skip [OF asks_deployment(1)], rule asks_skip [OF asks_quiet(6)], rule asks_seq [OF asks_sealed(2)], rule asks_seq, rule asks_loop [OF asks_site_check], blast)
  apply (rule asks_skip [OF asks_quiet(1)], rule asks_event)
          apply simp
         apply (simp only: site_sealed_def ball_simps list.set fst_conv snd_conv insert_iff empty_iff Un_iff, blast)
         apply (erule evidence_mono(5) [rotated], blast)+
  done

lemma asks_load: "Site_Kept b \<in> S \<Longrightarrow> asks (ok S) (load_database re b p) (\<lambda>_ L. Db_Loaded b p \<in> L)"
  unfolding load_database_def
  by (rule asks_skip [OF asks_event], simp, simp, rule asks_skip [OF asks_quiet(1)], rule asks_event) auto

lemma asks_restore_file:
  assumes "Site_Kept b \<in> S" "\<exists>p. Db_Loaded b p \<in> S"
  shows "asks (ok S) (restore_file re b m v acc) (\<lambda>_ L. file_present re v L)"
proof -
  have written: "asks (ok S) (observe (perform f) (File_Is p)) (\<lambda>x L. File_Is p x \<in> L)" for f :: "('h, fingerprint) prim" and p
    by (rule asks_observe) (auto intro: asks_perform)
  show ?thesis
    unfolding restore_file_def Let_def
    apply (rule asks_skip [OF asks_quiet(7)], rule asks_after_result, rule asks_seq [OF asks_holds], rule asks_if, rule asks_result)
      apply (simp add: file_present_def file_path_def)
     apply (rule asks_option, rule asks_result, simp, rule asks_skip [OF asks_event], use assms in simp, simp, rule asks_seq [OF written], rule asks_weaken [OF asks_insist])
      apply (auto simp: file_present_def file_path_def)
    done
qed

lemma asks_validate_file: "asks (ok S) (validate_file re v acc) (\<lambda>_ L. file_hashed re v L)"
  unfolding validate_file_def Let_def
  by (rule asks_after_result, rule asks_seq [OF asks_holds], rule asks_weaken [OF asks_insist]) (auto simp: file_hashed_def file_path_def)

end
