(* ===== verification/Bk_Keeps.thy ===== *)
theory Bk_Keeps
  imports Bk_Evidence
begin

text \<open>
  Reading and writing checkpoints: documents survive their round trip through the file, and what reads or advances a checkpoint keeps it sound.
\<close>

section \<open>Documents\<close>

lemma history_reread: "history_stages (canonical v) = map canonical (history_stages v)"
  by (simp add: history_stages_def comp_def)

lemma declared_reread: "is_str (jget c ''declared_at'') \<Longrightarrow> declared_at re (items (canonical (JObj c))) = declared_at re c"
  unfolding declared_at_def map_of_canonical
  by (cases "map_of c (u ''declared_at'')") (auto simp: jget_def elim!: is_str.elims)

lemma settled_document: "settled re b v L \<Longrightarrow> document_of re b v"
  by (auto simp: settled_def progressing_def withdrawn_def)

lemma settled_texts: "settled re b v L \<Longrightarrow> map canonical (history_stages v) = history_stages v"
  by (auto simp: settled_def progressing_def withdrawn_def)

lemma declared_dset: "k \<noteq> ''declared_at'' \<Longrightarrow> declared_at re (dset (u k) x c) = declared_at re c"
  by (simp add: declared_at_def map_of_dset del: u_Cons)

text \<open>One more record of a document.\<close>

lemma recorded_document:
  fixes stage details now
  assumes "document_of re b v" "map canonical (history_stages v) = history_stages v" "history_of (items v) = Inr h"
  defines "w \<equiv> canonical (JObj (recorded stage details h now (items v)))"
  shows "document_of re b w" "jget (items w) ''stage'' = stage_text stage" "history_stages w = history_stages v @ [stage_text stage]"
    "jget (items w) ''declared_at'' = jget (items v) ''declared_at''" "declared_at re (items w) = declared_at re (items v)"
proof -
  have h: "h = elems (jget (items v) ''history'')"
    using assms(3) by (auto simp: history_of_def need_def jget_def returns split: option.splits if_splits)
  have g: "jget (items w) k = canonical (jget (recorded stage details h now (items v)) k)" for k
    unfolding w_def by (rule jget_canonical)
  show "document_of re b w" "jget (items w) ''stage'' = stage_text stage"
    using assms(1) unfolding document_of_def g by (simp_all add: recorded_def w_def del: canonical.simps(2) u_Cons)
  have "history_stages w = map canonical (history_stages (JObj (recorded stage details h now (items v))))"
    unfolding w_def by (rule history_reread)
  also have "history_stages (JObj (recorded stage details h now (items v))) = history_stages v @ [stage_text stage]"
    by (simp add: history_stages_def recorded_def h jget_Cons del: u_Cons)
  finally show "history_stages w = history_stages v @ [stage_text stage]" using assms(2) by simp
  have "is_str (jget (items v) ''declared_at'')" using assms(1) by (simp add: document_of_def)
  then obtain d where d: "jget (items v) ''declared_at'' = JStr d" by (cases "jget (items v) ''declared_at''") auto
  then show "jget (items w) ''declared_at'' = jget (items v) ''declared_at''" unfolding g by (simp add: recorded_def del: u_Cons)
  have "declared_at re (items w) = declared_at re (recorded stage details h now (items v))"
    unfolding w_def by (rule declared_reread) (simp add: recorded_def d del: u_Cons)
  then show "declared_at re (items w) = declared_at re (items v)" by (simp add: recorded_def declared_dset del: u_Cons)
qed

lemma stages_Suc: "n < 9 \<Longrightarrow> stages_to (Suc n) = stages_to n @ [stage_text (STAGE_ORDER ! Suc n)]"
proof -
  have "length STAGE_ORDER = 10" by (simp add: STAGE_ORDER_def)
  moreover assume "n < 9"
  ultimately show ?thesis by (simp add: take_Suc_conv_app_nth nth_tl)
qed

section \<open>Reading and writing checkpoints\<close>

definition at_stage :: "'h restorer \<Rightarrow> ustr \<Rightarrow> nat \<Rightarrow> 'h rstate \<Rightarrow> bool" where
  "at_stage re b n s \<longleftrightarrow> (case rs_checks s b of None \<Rightarrow> n = 0 | Some r \<Rightarrow> \<exists>v. r = Inr v \<and> progressing re b n v (rs_log s))"

definition stored :: "'h rstate \<Rightarrow> ustr \<Rightarrow> jobj \<Rightarrow> bool" where
  "stored s b c \<longleftrightarrow> rs_checks s b = Some (Inr (JObj c))"

lemma went_keeps:
  assumes "sound re s" "went (ok (set (rs_log s))) s es t"
  shows "keeps re s t"
proof -
  have "guarded (rs_log t)" using assms by (auto simp: sound_def went_def intro: guarded_append)
  moreover have "\<exists>v. r = Inr v \<and> settled re b v (rs_log t)" if "rs_checks t b = Some r" for b r
    using assms that settled_append unfolding sound_def went_def by metis
  ultimately show ?thesis using assms(2) by (simp add: keeps_def sound_def went_def)
qed

lemma keeps_trans: "keeps re s t \<Longrightarrow> keeps re t w \<Longrightarrow> keeps re s w"
  by (auto simp: keeps_def intro: ahead_trans)

lemma wp_asks:
  assumes "sound re s" "asks (ok (set (rs_log s))) m P"
    and "\<And>x es t. went (ok (set (rs_log s))) s es t \<Longrightarrow> keeps re s t \<Longrightarrow> P x (set es) \<Longrightarrow> wp (k x) (\<lambda>_. keeps re s) (\<lambda>_. keeps re s) t"
  shows "wp (seq m k) (\<lambda>_. keeps re s) (\<lambda>_. keeps re s) s"
  unfolding wp_seq
  by (rule wp_mono [OF spec [OF assms(2) [unfolded asks_def]]]) (use assms(1,3) went_keeps in blast)+

lemma wp_keeps_from: "keeps re s t \<Longrightarrow> wp m (\<lambda>_. keeps re t) (\<lambda>_. keeps re t) t \<Longrightarrow> wp m (\<lambda>_. keeps re s) (\<lambda>_. keeps re s) t"
  by (erule wp_mono) (erule (1) keeps_trans)+

lemma wp_asked: "sound re s \<Longrightarrow> asks (ok (set (rs_log s))) m P \<Longrightarrow> wp m (\<lambda>_. keeps re s) (\<lambda>_. keeps re s) s"
  unfolding asks_def by (erule allE, erule wp_mono) (auto intro: went_keeps)

lemma wp_read_state:
  assumes "sound re s"
  shows "wp (read_state re b) (\<lambda>c t. t = s \<and> (rs_checks s b = None \<and> c = initial_state b \<or> stored s b c \<and> settled re b (JObj c) (rs_log s))) (\<lambda>_ t. t = s) s"
proof (cases "rs_checks s b")
  case None
  then show ?thesis by (simp add: read_state_def wp_def seq_def result_def split: sum.splits)
next
  case (Some r)
  then obtain v where v: "r = Inr v" "settled re b v (rs_log s)" using assms by (auto simp: sound_def)
  then have "v = JObj (items v)" using settled_document obj_items unfolding document_of_def by blast
  moreover have "check_state re b v = Inr c \<Longrightarrow> c = items v" for c
    by (auto simp: check_state_def Let_def returns split: if_splits)
  ultimately show ?thesis
    using v Some by (auto simp: read_state_def wp_def seq_def result_def stored_def andthen_def split: sum.splits)
qed

lemma settled_stage: "settled re b (JObj c) L \<Longrightarrow> (\<exists>n. progressing re b n (JObj c) L \<and> stage_of c = u (STAGE_ORDER ! n)) \<or> withdrawn re b (JObj c) L \<and> stage_of c = u ''rolled_back''"
  by (auto simp: settled_def progressing_def withdrawn_def stage_of_def)

lemma stored_at [simp]: "stored s b c \<Longrightarrow> at_stage re b n s \<longleftrightarrow> progressing re b n (JObj c) (rs_log s)"
  by (simp add: stored_def at_stage_def)

lemma wp_completed:
  fixes re :: "'h restorer"
  assumes "sound re s"
  shows "wp (completed re b st) (\<lambda>x t. t = s \<and> (\<exists>n. at_stage re b n s \<and> (x \<longleftrightarrow> stage_rank (u st) \<le> n))) (\<lambda>_ t. t = s) s"
  unfolding completed_def wp_seq
proof (rule wp_mono [OF wp_read_state [OF assms]], elim conjE, hypsubst)
  fix c and t :: "'h rstate"
  assume c: "rs_checks t b = None \<and> c = initial_state b \<or> stored t b c \<and> settled re b (JObj c) (rs_log t)"
  show "wp (insist (stage_of c \<noteq> u ''rolled_back'') ''rolled-back restore cannot be resumed'')
      (\<lambda>_. wp (result (Inr (stage_rank (u st) \<le> stage_rank (stage_of c)))) (\<lambda>x t'. t' = t \<and> (\<exists>n. at_stage re b n t \<and> (x \<longleftrightarrow> stage_rank (u st) \<le> n))) (\<lambda>_ t'. t' = t)) (\<lambda>_ t'. t' = t) t"
  proof (rule wp_resultI)
    fix x
    assume "demand (stage_of c \<noteq> u ''rolled_back'') ''rolled-back restore cannot be resumed'' = Inr x"
    then have "stage_of c \<noteq> u ''rolled_back''" by (auto simp: demand_def split: if_splits)
    with c have "\<exists>n. at_stage re b n t \<and> stage_rank (stage_of c) = n"
      by (auto dest!: settled_stage simp: at_stage_def stored_def initial_state_def stage_of_def jget_Cons progressing_def simp del: u_Cons)
    then show "wp (result (Inr (stage_rank (u st) \<le> stage_rank (stage_of c)))) (\<lambda>x t'. t' = t \<and> (\<exists>n. at_stage re b n t \<and> (x \<longleftrightarrow> stage_rank (u st) \<le> n))) (\<lambda>_ t'. t' = t) t"
      by (auto simp: wp_result)
  qed simp
qed simp

lemma wp_requires:
  fixes re :: "'h restorer"
  assumes "sound re s" "st \<noteq> ''rolled_back''"
  shows "wp (requires_stage re b st msg) (\<lambda>_ t. t = s \<and> at_stage re b (stage_rank (u st)) s) (\<lambda>_ t. t = s) s"
  unfolding requires_stage_def wp_seq
proof (rule wp_mono [OF wp_read_state [OF assms(1)]], elim conjE, hypsubst)
  fix c and t :: "'h rstate"
  assume c: "rs_checks t b = None \<and> c = initial_state b \<or> stored t b c \<and> settled re b (JObj c) (rs_log t)"
  show "wp (insist (stage_of c = u st) msg) (\<lambda>_ t'. t' = t \<and> at_stage re b (stage_rank (u st)) t) (\<lambda>_ t'. t' = t) t"
  proof (rule wp_resultI)
    fix x
    assume "demand (stage_of c = u st) msg = Inr x"
    then have "stage_of c = u st" by (auto simp: demand_def split: if_splits)
    with c assms(2) show "t = t \<and> at_stage re b (stage_rank (u st)) t"
      by (auto dest!: settled_stage simp: at_stage_def stored_def initial_state_def stage_of_def jget_Cons progressing_def simp del: u_Cons)
  qed simp
qed simp

lemma wp_write:
  assumes "\<And>h. P (s\<lparr>rs_host := h\<rparr>)" "\<And>h. P (s\<lparr>rs_host := h, rs_checks := (rs_checks s)(b \<mapsto> Inr (canonical (JObj c)))\<rparr>)"
  shows "wp (write_state re b c) (\<lambda>_. P) (\<lambda>_. P) s"
  using assms by (auto simp: wp_def write_state_def Let_def split: prod.splits landing.splits)

lemma keeps_refl: "sound re s \<Longrightarrow> keeps re s (s\<lparr>rs_host := h\<rparr>)"
  by (simp add: keeps_def sound_def)

lemma keeps_stored:
  assumes "sound re s" "settled re b w (rs_log s)"
    and "\<And>v. rs_checks s b = Some (Inr v) \<Longrightarrow> jget (items w) ''declared_at'' = jget (items v) ''declared_at'' \<and> (\<exists>zs. history_stages w = history_stages v @ zs)"
  shows "keeps re s (s\<lparr>rs_host := h, rs_checks := (rs_checks s)(b \<mapsto> Inr w)\<rparr>)"
  using assms by (auto simp: keeps_def sound_def ahead_def)

end
