(* ===== verification/Bk_Operations.thy ===== *)
theory Bk_Operations
  imports Bk_Keeps
begin

text \<open>
  The operations of the restore, one by one: each keeps the checkpoints sound and only extends them.
\<close>

section \<open>Advancing\<close>

lemma progressing_next:
  fixes details now
  assumes "progressing re b n (JObj c) L" "Suc n \<le> 8" "earned re b (Suc n) L" "Suc n = 8 \<Longrightarrow> ready_in_time re (JObj c) (set L)" "history_of c = Inr h"
  defines "w \<equiv> canonical (JObj (recorded (STAGE_ORDER ! Suc n) details h now c))"
  shows "progressing re b (Suc n) w L" "jget (items w) ''declared_at'' = jget c ''declared_at''" "\<exists>zs. history_stages w = history_stages (JObj c) @ zs"
proof -
  have d: "document_of re b (JObj c)" "map canonical (history_stages (JObj c)) = history_stages (JObj c)" "history_of (items (JObj c)) = Inr h"
    using assms(1,5) by (auto simp: progressing_def)
  note w = recorded_document [OF d, of "STAGE_ORDER ! Suc n" details now, unfolded items.simps, folded w_def]
  show "jget (items w) ''declared_at'' = jget c ''declared_at''" "\<exists>zs. history_stages w = history_stages (JObj c) @ zs" using w by simp_all
  have "ready_in_time re w L' = ready_in_time re (JObj c) L'" for L' by (simp add: ready_in_time_def w(5))
  then show "progressing re b (Suc n) w L"
    using assms(1-4) w(1-3) by (simp add: progressing_def stages_Suc)
qed

lemma at_stage_stored: "at_stage re b n s \<Longrightarrow> rs_checks s b \<noteq> None \<Longrightarrow> \<exists>c. stored s b c \<and> progressing re b n (JObj c) (rs_log s)"
proof -
  assume "at_stage re b n s" "rs_checks s b \<noteq> None"
  then obtain v where v: "rs_checks s b = Some (Inr v)" "progressing re b n v (rs_log s)" by (auto simp: at_stage_def)
  then have "v = JObj (items v)" by (auto simp: progressing_def document_of_def intro: obj_items)
  with v show ?thesis unfolding stored_def by metis
qed

lemma wp_stored:
  assumes "stored s b c" "\<And>t. t = s \<Longrightarrow> wp (k c) Q E t" "\<And>e. E e s"
  shows "wp (seq (read_state re b) k) Q E s"
proof -
  have "check_state re b (JObj c) = Inr c' \<Longrightarrow> c' = c" for c'
    by (auto simp: check_state_def Let_def returns split: if_splits)
  then show ?thesis
    using assms by (auto simp: wp_seq read_state_def wp_def seq_def result_def stored_def andthen_def split: sum.splits prod.splits)
qed

lemma wp_advance:
  fixes re :: "'h restorer"
  assumes "sound re s" "stored s b c" "progressing re b n (JObj c) (rs_log s)" "Suc n \<le> 8" "st = STAGE_ORDER ! Suc n"
    and "earned re b (Suc n) (rs_log s)" "Suc n = 8 \<Longrightarrow> ready_in_time re (JObj c) (set (rs_log s))"
  shows "wp (advance_restore re b st details) (\<lambda>_. keeps re s) (\<lambda>_. keeps re s) s"
proof -
  have refl: "keeps re s s" using assms(1) by (simp add: keeps_def)
  have "jget c ''stage'' = stage_text (STAGE_ORDER ! n)" "n \<le> 8" using assms(3) by (simp_all add: progressing_def)
  then have stage: "stage_of c = u (STAGE_ORDER ! n)" "stage_rank (stage_of c) = n" by (simp_all add: stage_of_def)
  have "u st \<noteq> stage_of c"
  proof
    assume "u st = stage_of c"
    then have "stage_rank (u st) = n" using stage(2) by simp
    then show False using assms(4,5) by simp
  qed
  have wrote: "wp (write_state re b (recorded st details h now c)) (\<lambda>_. keeps re s) (\<lambda>_. keeps re s) t"
    if "history_of c = Inr h" "went (ok (set (rs_log s))) s es t" for h now es t
  proof -
    from went_keeps [OF assms(1) that(2)] have k: "keeps re s t" .
    from that(2) have t: "rs_checks t = rs_checks s" "rs_log t = rs_log s @ es" by (simp_all add: went_def)
    have p: "progressing re b n (JObj c) (rs_log t)" "earned re b (Suc n) (rs_log t)"
      unfolding t(2) using assms(3) earned_append [OF assms(6)] by (auto intro: progressing_append simp del: earned.simps)
    have r: "Suc n = 8 \<Longrightarrow> ready_in_time re (JObj c) (set (rs_log t))" using assms(7) t by (auto simp: ready_in_time_def)
    note w = progressing_next [OF p(1) assms(4) p(2) r that(1), of details now, folded assms(5)]
    have "keeps re t (t\<lparr>rs_host := h', rs_checks := (rs_checks t)(b \<mapsto> Inr (canonical (JObj (recorded st details h now c))))\<rparr>)" for h'
      by (rule keeps_stored) (use w k assms(2) t in \<open>auto simp: keeps_def settled_def stored_def\<close>)
    moreover have "keeps re t (t\<lparr>rs_host := h'\<rparr>)" for h' using k by (simp add: keeps_def sound_def)
    ultimately show ?thesis using k by (intro wp_write) (auto intro: keeps_trans)
  qed
  show ?thesis
    unfolding advance_restore_def
    apply (rule wp_stored [OF assms(2)])
     apply hypsubst
     apply (simp only: wp_seq, rule wp_resultI, rule refl, simp only: wp_seq, rule wp_resultI, rule refl)
     apply (simp only: wp_seq \<open>u st \<noteq> stage_of c\<close> if_False record_stage_def)
     apply (rule wp_resultI, rule refl, simp only: wp_seq)
     apply (rule wp_mono [OF spec [OF asks_clock [unfolded asks_def]]])
      apply (elim exE conjE, simp only: wp_result, erule (1) wrote)
     apply (blast intro: went_keeps [OF assms(1)])
    apply (rule refl)
    done
qed

section \<open>Asking on\<close>

lemma wp_more:
  assumes "sound re s" "went (ok (set (rs_log s))) s es t" "asks (ok (set (rs_log s))) m P"
    and "\<And>x fs t'. went (ok (set (rs_log s))) s (es @ fs) t' \<Longrightarrow> P x (set fs) \<Longrightarrow> wp (k x) (\<lambda>_. keeps re s) (\<lambda>_. keeps re s) t'"
  shows "wp (seq m k) (\<lambda>_. keeps re s) (\<lambda>_. keeps re s) t"
  unfolding wp_seq
  by (rule wp_mono [OF spec [OF assms(3) [unfolded asks_def]]])
    (use assms(2,4) in \<open>blast intro: went_trans went_keeps [OF assms(1)]\<close>)+

lemmas wp_quiet = wp_more [where P = "\<lambda>_ _. True"]

lemma wp_decided:
  assumes "sound re s" "went (ok (set (rs_log s))) s es t" "\<And>x. r = Inr x \<Longrightarrow> wp (k x) (\<lambda>_. keeps re s) (\<lambda>_. keeps re s) t"
  shows "wp (seq (result r) k) (\<lambda>_. keeps re s) (\<lambda>_. keeps re s) t"
  unfolding wp_seq by (rule wp_resultI) (use assms went_keeps in blast)+

lemma wp_advance_after:
  fixes re :: "'h restorer"
  assumes "sound re s" "at_stage re b n s" "rs_checks s b \<noteq> None" "went (ok (set (rs_log s))) s es t" "milestone re b (Suc n) (set es)"
    "Suc n \<le> 7" "st = STAGE_ORDER ! Suc n"
  shows "wp (advance_restore re b st details) (\<lambda>_. keeps re s) (\<lambda>_. keeps re s) t"
proof -
  from at_stage_stored [OF assms(2,3)] obtain c where c: "stored s b c" "progressing re b n (JObj c) (rs_log s)" by blast
  from went_keeps [OF assms(1,4)] have k: "keeps re s t" .
  from assms(4) have t: "rs_checks t = rs_checks s" "rs_log t = rs_log s @ es" by (simp_all add: went_def)
  have "earned re b (Suc n) (rs_log t)" unfolding t(2) earned.simps using c(2) assms(5) by (auto simp: progressing_def)
  moreover have "stored t b c" using c(1) t by (simp add: stored_def)
  moreover have "progressing re b n (JObj c) (rs_log t)" using c(2) t by (auto intro: progressing_append)
  ultimately have "wp (advance_restore re b st details) (\<lambda>_. keeps re t) (\<lambda>_. keeps re t) t"
    using k assms(6,7) by (intro wp_advance) (auto simp: keeps_def)
  with k show ?thesis by (rule wp_keeps_from)
qed

text \<open>An operation that starts by looking whether its stage was completed, and needs the stage before it.\<close>

lemma wp_stage:
  fixes re :: "'h restorer"
  assumes "sound re s" "\<And>n. at_stage re b n s \<Longrightarrow> stage_rank (u st) \<le> n \<Longrightarrow> wp (k True) (\<lambda>_. keeps re s) (\<lambda>_. keeps re s) s"
    and "\<And>n. at_stage re b n s \<Longrightarrow> n < stage_rank (u st) \<Longrightarrow> wp (k False) (\<lambda>_. keeps re s) (\<lambda>_. keeps re s) s"
  shows "wp (seq (completed re b st) k) (\<lambda>_. keeps re s) (\<lambda>_. keeps re s) s"
  unfolding wp_seq
proof (rule wp_mono [OF wp_completed [OF assms(1)]])
  fix x t
  assume "t = s \<and> (\<exists>n. at_stage re b n s \<and> (x \<longleftrightarrow> stage_rank (u st) \<le> n))"
  then obtain n where "t = s" "at_stage re b n s" "x \<longleftrightarrow> stage_rank (u st) \<le> n" by blast
  then show "wp (k x) (\<lambda>_. keeps re s) (\<lambda>_. keeps re s) t" using assms(2,3) by (cases x) auto
qed (use assms(1) in \<open>simp add: keeps_def\<close>)

lemma wp_needs:
  fixes re :: "'h restorer"
  assumes "sound re s" "st \<noteq> ''rolled_back''" "at_stage re b (stage_rank (u st)) s \<Longrightarrow> wp (k ()) (\<lambda>_. keeps re s) (\<lambda>_. keeps re s) s"
  shows "wp (seq (requires_stage re b st msg) k) (\<lambda>_. keeps re s) (\<lambda>_. keeps re s) s"
  unfolding wp_seq
  by (rule wp_mono [OF wp_requires [OF assms(1,2)]]) (use assms(1,3) in \<open>auto simp: keeps_def\<close>)

lemma at_stage_present: "at_stage re b n s \<Longrightarrow> 0 < n \<Longrightarrow> rs_checks s b \<noteq> None"
  by (cases "rs_checks s b") (auto simp: at_stage_def)

lemma at_stage_site: "at_stage re b n s \<Longrightarrow> 2 \<le> n \<Longrightarrow> Site_Kept b \<in> set (rs_log s)"
  by (auto simp: at_stage_def progressing_def intro: earned_site split: option.splits)

lemma at_stage_loaded: "at_stage re b n s \<Longrightarrow> 3 \<le> n \<Longrightarrow> \<exists>p. Db_Loaded b p \<in> set (rs_log s)"
  by (auto simp: at_stage_def progressing_def intro: earned_database split: option.splits)

section \<open>The operations\<close>

lemma sound_keeps: "sound re s \<Longrightarrow> keeps re s s"
  by (simp add: keeps_def)

lemma went_start: "went (ok (set (rs_log s))) s [] s"
  by (simp add: went_def)

lemma asks_read_state: "asks (ok S) (read_state re b) (\<lambda>_ _. True)"
  unfolding read_state_def
  by (rule asks_then [OF asks_quiet(3)]) (auto simp: asks_def wp_def went_def split: sum.splits)

lemma wp_settle: "sound re s \<Longrightarrow> went (ok (set (rs_log s))) s es t \<Longrightarrow> wp (result r) (\<lambda>_. keeps re s) (\<lambda>_. keeps re s) t"
  by (rule wp_resultI) (blast intro: went_keeps)+

lemma wp_ends: "sound re s \<Longrightarrow> wp (result r) (\<lambda>_. keeps re s) (\<lambda>_. keeps re s) s"
  by (rule wp_resultI) (blast intro: sound_keeps)+

text \<open>The frame of a step from stage \<open>n\<close> to the next.\<close>

lemma wp_operation:
  fixes re :: "'h restorer"
  assumes "sound re s" "st = STAGE_ORDER ! Suc n" "pre = STAGE_ORDER ! n" "1 \<le> n" "n \<le> 7"
    and "at_stage re b n s \<Longrightarrow> rs_checks s b \<noteq> None \<Longrightarrow> wp (k ()) (\<lambda>_. keeps re s) (\<lambda>_. keeps re s) s"
  shows "wp (seq (completed re b st) (\<lambda>already. if already then result (Inr ()) else seq (requires_stage re b pre msg) k)) (\<lambda>_. keeps re s) (\<lambda>_. keeps re s) s"
proof (rule wp_stage [OF assms(1)], simp only: if_True, rule wp_ends [OF assms(1)], simp only: if_False, rule wp_needs [OF assms(1)])
  show "pre \<noteq> ''rolled_back''" using assms(3,5) by simp
next
  assume "at_stage re b (stage_rank (u pre)) s"
  then have a: "at_stage re b n s" using assms(3,5) by simp
  then show "wp (k ()) (\<lambda>_. keeps re s) (\<lambda>_. keeps re s) s" using assms(4,6) at_stage_present by fastforce
qed

lemma wp_option: "(x = None \<Longrightarrow> wp m Q E s) \<Longrightarrow> (\<And>y. x = Some y \<Longrightarrow> wp (f y) Q E s) \<Longrightarrow> wp (case x of None \<Rightarrow> m | Some y \<Rightarrow> f y) Q E s"
  by (cases x) simp_all

lemma stage_names:
  "''site_retained'' = STAGE_ORDER ! Suc 1" "''database_restored'' = STAGE_ORDER ! Suc 2" "''files_complete'' = STAGE_ORDER ! Suc 3" "''offline_validated'' = STAGE_ORDER ! Suc 4"
  "''isolated_functional_validated'' = STAGE_ORDER ! Suc 5" "''proxy_authorized'' = STAGE_ORDER ! Suc 6"
  "''preflight_complete'' = STAGE_ORDER ! 1" "''site_retained'' = STAGE_ORDER ! 2" "''database_restored'' = STAGE_ORDER ! 3" "''files_complete'' = STAGE_ORDER ! 4"
  "''offline_validated'' = STAGE_ORDER ! 5" "''isolated_functional_validated'' = STAGE_ORDER ! 6"
  by (simp_all add: STAGE_ORDER_def)

lemma milestones:
  "milestone re b (Suc 0) L = (\<exists>m. trusted re b m L \<and> (\<forall>v \<in> set (elems (jget m ''objects'')). object_checked re b v L))"
  "milestone re b (Suc 1) L = site_sealed re b L"
  "milestone re b (Suc 2) L = (\<exists>m v. trusted re b m L \<and> object_named m (u ''database'') = Some v \<and> Db_Loaded b (object_path re b v) \<in> L)"
  "milestone re b (Suc 3) L = (\<exists>m. trusted re b m L \<and> (\<forall>v \<in> set (elems (jget m ''files'')). file_present re v L))"
  "milestone re b (Suc 4) L = (\<exists>m. trusted re b m L \<and> (\<forall>v \<in> set (elems (jget m ''files'')). file_hashed re v L) \<and> database_checked re m L)"
  "milestone re b (Suc 5) L = (\<exists>x v. Evidence_Is x \<in> L \<and> bk_loads (re_env re) x = Inr v \<and> evidence_checks b v = Inr ())"
  "milestone re b (Suc 6) L" "milestone re b (Suc 7) L"
  by (simp_all add: milestone_def del: u_Cons)

lemma retain_keeps:
  assumes "sound re s"
  shows "wp (retain_site re b) (\<lambda>_. keeps re s) (\<lambda>_. keeps re s) s"
  unfolding retain_site_def
  apply (rule wp_operation [OF assms stage_names(1,7)], simp, simp)
  apply (rule wp_quiet [OF assms went_start], rule asks_quiet_loop, rule asks_clear)
  apply (rule wp_quiet [OF assms], assumption, rule asks_quiet)
  apply (rule wp_more [OF assms], assumption, rule asks_discarding [OF asks_retain_objects])
  apply (rule wp_advance_after [OF assms _ _ _ _ _ stage_names(1)], assumption, assumption, assumption)
   apply (unfold milestones, erule evidence_mono(5) [rotated], auto)
  done

lemma database_keeps:
  assumes "sound re s"
  shows "wp (restore_database re b) (\<lambda>_. keeps re s) (\<lambda>_. keeps re s) s"
  unfolding restore_database_def
  apply (rule wp_operation [OF assms stage_names(2,8)], simp, simp)
  apply (rule wp_quiet [OF assms went_start], rule asks_quiet)
  apply (rule wp_more [OF assms], assumption, rule asks_manifest)
  apply (rule wp_option, rule wp_settle [OF assms], assumption)
  apply (rule wp_more [OF assms], assumption, rule asks_load, erule at_stage_site, simp)
  apply (rule wp_advance_after [OF assms _ _ _ _ _ stage_names(2)], assumption, assumption, assumption)
   apply (unfold milestones, intro exI conjI, erule evidence_mono(1) [rotated], force, assumption, simp add: object_path_def, simp)
  done

lemma files_keep:
  assumes "sound re s"
  shows "wp (restore_files re b) (\<lambda>_. keeps re s) (\<lambda>_. keeps re s) s"
  unfolding restore_files_def
  apply (rule wp_operation [OF assms stage_names(3,9)], simp, simp)
  apply (rule wp_quiet [OF assms went_start], rule asks_quiet)
  apply (rule wp_more [OF assms], assumption, rule asks_manifest)
  apply (rule wp_more [OF assms], assumption, rule asks_loop [OF asks_restore_file])
     apply (erule at_stage_site, simp, erule at_stage_loaded, simp, erule (1) evidence_mono(3) [rotated])
  apply (rule wp_advance_after [OF assms _ _ _ _ _ stage_names(3)], assumption, assumption, assumption)
   apply (unfold milestones, intro exI conjI, erule evidence_mono(1) [rotated], force, rule ballI, drule (1) bspec, erule evidence_mono(3) [rotated], force, simp)
  done

section \<open>Preflight\<close>

lemma declare_keeps:
  assumes "sound re s"
  shows "wp (declare_restore re b) (\<lambda>_ t. keeps re s t \<and> rs_checks t b \<noteq> None) (\<lambda>_. keeps re s) s"
proof (cases "rs_checks s b")
  case None
  have wrote: "wp (write_state re b (new_declaration re b now)) (\<lambda>_ t. keeps re s t \<and> rs_checks t b \<noteq> None) (\<lambda>_. keeps re s) t"
    if "went (ok (set (rs_log s))) s es t" for now es t
  proof -
    from went_keeps [OF assms that] have k: "keeps re s t" .
    have t: "rs_checks t b = None" using that None by (simp add: went_def)
    have g: "jget (items (canonical (JObj (new_declaration re b now)))) x = canonical (jget (new_declaration re b now) x)" for x by (rule jget_canonical)
    have "progressing re b 0 (canonical (JObj (new_declaration re b now))) L" for L
      unfolding progressing_def document_of_def history_stages_def g
      by (simp add: new_declaration_def jget_Cons STAGE_ORDER_def del: u_Cons canonical.simps(2))
    then have "keeps re t (t\<lparr>rs_host := h, rs_checks := (rs_checks t)(b \<mapsto> Inr (canonical (JObj (new_declaration re b now))))\<rparr>)" for h
      using k t by (intro keeps_stored) (auto simp: keeps_def settled_def)
    moreover have "keeps re t (t\<lparr>rs_host := h\<rparr>)" for h using k by (simp add: keeps_def sound_def)
    ultimately show ?thesis
      using keeps_trans [OF k] by (auto simp: wp_def write_state_def Let_def split: prod.splits landing.splits)
  qed
  show ?thesis
    unfolding declare_restore_def
    apply (simp only: wp_seq, rule wp_resultI, rule sound_keeps [OF assms], simp only: wp_seq, rule wp_resultI, rule sound_keeps [OF assms], simp only: wp_seq)
    apply (simp only: wp_def [of "\<lambda>s. (Inr (rs_checks s b \<noteq> None), s)"] prod.case sum.case None simp_thms if_False wp_seq)
    apply (rule wp_mono [OF spec [OF asks_clock [unfolded asks_def]]])
     apply (elim exE conjE, simp only: wp_seq, rule wp_mono, erule wrote, simp only: wp_result, simp only: wp_result simp_thms, assumption)
    apply (blast intro: went_keeps [OF assms])
    done
next
  case (Some r)
  have "wp (read_state re b) (\<lambda>c t. t = s) (\<lambda>_ t. t = s) s" by (rule wp_mono [OF wp_read_state [OF assms]]) auto
  note read = this
  show ?thesis
    unfolding declare_restore_def
    apply (simp only: wp_seq, rule wp_resultI, rule sound_keeps [OF assms], simp only: wp_seq, rule wp_resultI, rule sound_keeps [OF assms], simp only: wp_seq)
    apply (simp only: wp_def [of "\<lambda>s. (Inr (rs_checks s b \<noteq> None), s)"] prod.case sum.case Some option.distinct simp_thms if_True wp_seq)
    apply (rule wp_mono [OF read])
     apply (simp_all add: wp_result Some sound_keeps [OF assms])
    done
qed

lemma at_stage_back:
  assumes "sound re s" "went A s es t" "at_stage re b n t"
  shows "at_stage re b n s"
proof (cases "rs_checks s b")
  case (Some r)
  with assms(2,3) obtain v where v: "r = Inr v" "progressing re b n v (rs_log t)" by (auto simp: at_stage_def went_def)
  have "settled re b v (rs_log s)" using assms(1) Some v(1) by (auto simp: sound_def)
  then have "\<exists>k. progressing re b k v (rs_log s)"
    using v(2) by (auto simp: settled_def progressing_def withdrawn_def simp del: u_Cons)
  then obtain k where k: "progressing re b k v (rs_log s)" ..
  then have "u (STAGE_ORDER ! k) = u (STAGE_ORDER ! n)" "k \<le> 8" "n \<le> 8" using v(2) by (auto simp: progressing_def)
  then have "k = n" by (metis stage_rank_nth)
  with k Some v(1) show ?thesis by (simp add: at_stage_def)
qed (use assms(2,3) in \<open>simp add: at_stage_def went_def\<close>)

lemma wp_stage_after:
  fixes re :: "'h restorer"
  assumes "sound re s" "went (ok (set (rs_log s))) s es t"
    and "wp (k True) (\<lambda>_. keeps re s) (\<lambda>_. keeps re s) t"
    and "\<And>n. at_stage re b n s \<Longrightarrow> n < stage_rank (u st) \<Longrightarrow> wp (k False) (\<lambda>_. keeps re s) (\<lambda>_. keeps re s) t"
  shows "wp (seq (completed re b st) k) (\<lambda>_. keeps re s) (\<lambda>_. keeps re s) t"
  unfolding wp_seq
proof (rule wp_mono [OF wp_completed])
  show "sound re t" using went_keeps [OF assms(1,2)] by (simp add: keeps_def)
next
  fix x w
  assume "w = t \<and> (\<exists>n. at_stage re b n t \<and> (x \<longleftrightarrow> stage_rank (u st) \<le> n))"
  then obtain n where n: "w = t" "at_stage re b n t" "x \<longleftrightarrow> stage_rank (u st) \<le> n" by blast
  from at_stage_back [OF assms(1,2) n(2)] have "at_stage re b n s" .
  with n(1,3) show "wp (k x) (\<lambda>_. keeps re s) (\<lambda>_. keeps re s) w" using assms(3,4) by (cases x) auto
qed (use went_keeps [OF assms(1,2)] in simp)

lemma wp_pair: "(\<And>a c. x = (a, c) \<Longrightarrow> wp (f a c) Q E s) \<Longrightarrow> wp (case x of (a, c) \<Rightarrow> f a c) Q E s"
  by (cases x) simp

lemma wp_finishes: "wp m (\<lambda>_. K) (\<lambda>_. K) t \<Longrightarrow> wp (seq m (\<lambda>x. result (Inr (f x)))) (\<lambda>_. K) (\<lambda>_. K) t"
  unfolding wp_seq by (erule wp_mono) (simp_all add: wp_result)

lemma preflight_keeps:
  assumes "sound re s"
  shows "wp (preflight re b) (\<lambda>_. keeps re s) (\<lambda>_. keeps re s) s"
  unfolding preflight_def wp_seq [of "declare_restore re b"]
  apply (rule wp_mono [OF declare_keeps [OF assms]])
   apply (elim conjE, rule wp_keeps_from, assumption)
  subgoal premises p for x t
  proof -
    have sound: "sound re t" using p(1) by (simp add: keeps_def)
    note quiet = wp_quiet [OF sound] and more = wp_more [OF sound] and decided = wp_decided [OF sound]
    show ?thesis
      apply (rule wp_quiet [OF sound went_start], rule asks_quiet)
      apply (rule quiet, assumption, rule asks_completion)
      apply (rule quiet, assumption, rule asks_if, rule asks_quiet, rule asks_quiet)
      apply (rule decided, assumption, rule decided, assumption)
      apply (rule more, assumption, rule asks_open_manifest, rule wp_pair, hypsubst, unfold snd_conv)
      apply (rule decided, assumption, rule quiet, assumption, rule asks_deployment, rule quiet, assumption, rule asks_tools)
      apply (rule quiet, assumption, rule asks_capacity, rule quiet, assumption, rule asks_capacity, rule quiet, assumption, rule asks_quiet)
      apply (rule more, assumption, rule asks_loop [OF asks_verify_object], erule (1) evidence_mono(2) [rotated])
      apply (unfold Let_def)
      apply (rule quiet, assumption, rule asks_quiet)
      apply (rule quiet, assumption, rule asks_if, rule asks_quiet, rule asks_quiet)
      apply (rule wp_stage_after [OF sound], assumption)
       apply (rule wp_finishes, simp only: if_True, rule wp_settle [OF sound], assumption)
      apply (rule wp_finishes, simp only: if_False)
      apply (rule wp_advance_after [OF sound _ p(2), where n = 0])
           apply (simp del: u_Cons)
          apply assumption
        apply (subst milestones(1))
         apply (intro exI conjI)
          apply (erule evidence_mono(1) [rotated])
          apply (simp only: set_append, blast)
         apply (rule ballI, drule (1) bspec)
         apply (erule evidence_mono(2) [rotated])
         apply (simp only: set_append, blast)
       apply (simp_all add: STAGE_ORDER_def)
      done
  qed
  apply assumption
  done

section \<open>Validation and opening\<close>

lemma asks_assertions: "asks (ok S) (restore_assertions re) (\<lambda>a L. Assertions_Are a \<in> L)"
  unfolding restore_assertions_def by (rule asks_observe) (auto intro: asks_locally)

lemma asks_references: "asks (ok S) (database_file_references re) (\<lambda>refs L. \<exists>p. References_Are p \<in> L \<and> references_of re p = Inr refs)"
  unfolding database_file_references_def
  by (rule asks_seq [OF asks_observe [where P = "\<lambda>p L. References_Are p \<in> L"]]) (auto intro: asks_perform asks_result)

lemma asks_validate_references: "asks (ok S) (validate_database_file_references re m refs) (\<lambda>_ _. validate_references (identity_of_path re m) [] refs = Inr ())"
  unfolding validate_database_file_references_def manifest_sizes_def
  by (rule asks_skip [OF asks_quiet_loop], rule asks_quiet, rule asks_result) auto

lemma asks_broken: "asks (ok S) (observe (perform f) Broken_References) (\<lambda>x L. Broken_References x \<in> L)"
  by (rule asks_observe) (auto intro: asks_perform)

text \<open>Frame of a validation, which may be repeated after it was completed.\<close>

lemma wp_repeatable:
  fixes re :: "'h restorer"
  assumes "sound re s" "st = STAGE_ORDER ! Suc n" "pre = STAGE_ORDER ! n" "1 \<le> n" "n \<le> 7"
    and "\<And>already. (\<not> already \<Longrightarrow> at_stage re b n s \<and> rs_checks s b \<noteq> None) \<Longrightarrow> wp (k already) (\<lambda>_. keeps re s) (\<lambda>_. keeps re s) s"
  shows "wp (seq (completed re b st) (\<lambda>already. seq (if already then result (Inr ()) else requires_stage re b pre msg) (\<lambda>_. k already))) (\<lambda>_. keeps re s) (\<lambda>_. keeps re s) s"
proof (rule wp_stage [OF assms(1)])
  show "wp (seq (if True then result (Inr ()) else requires_stage re b pre msg) (\<lambda>_. k True)) (\<lambda>_. keeps re s) (\<lambda>_. keeps re s) s"
    using assms(6) [of True] by (simp add: wps)
next
  show "wp (seq (if False then result (Inr ()) else requires_stage re b pre msg) (\<lambda>_. k False)) (\<lambda>_. keeps re s) (\<lambda>_. keeps re s) s"
    unfolding if_False
  proof (rule wp_needs [OF assms(1)])
    show "pre \<noteq> ''rolled_back''" using assms(3,5) by simp
  next
    assume "at_stage re b (stage_rank (u pre)) s"
    then have "at_stage re b n s" using assms(3,5) by simp
    then show "wp (k False) (\<lambda>_. keeps re s) (\<lambda>_. keeps re s) s" using assms(4) by (intro assms(6)) (auto dest: at_stage_present)
  qed
qed

lemma offline_keeps:
  assumes "sound re s"
  shows "wp (offline_validate re b) (\<lambda>_. keeps re s) (\<lambda>_. keeps re s) s"
  unfolding offline_validate_def
  apply (rule wp_repeatable [OF assms stage_names(4,10)], simp, simp)
  apply (rule wp_quiet [OF assms went_start], rule asks_quiet)
  apply (rule wp_more [OF assms], assumption, rule asks_manifest)
  apply (rule wp_more [OF assms], assumption, rule asks_loop [OF asks_validate_file], erule (1) evidence_mono(4) [rotated])
  apply (rule wp_more [OF assms], assumption, rule asks_assertions)
  apply (rule wp_decided [OF assms], assumption)
  apply (rule wp_more [OF assms], assumption, rule asks_references)
  apply (rule wp_more [OF assms], assumption, rule asks_validate_references)
  apply (rule wp_more [OF assms], assumption, rule asks_broken)
  apply (rule wp_decided [OF assms], assumption)
  subgoal for already
    apply (cases already; simp only: if_True if_False)
     apply (rule wp_decided [OF assms], assumption, rule wp_settle [OF assms], assumption)
    apply (rule wp_finishes, rule wp_advance_after [OF assms _ _ _ _ _ stage_names(4)], simp, simp, assumption)
     apply (unfold milestones, intro exI conjI, erule evidence_mono(1) [rotated], force, rule ballI, drule (1) bspec, erule evidence_mono(4) [rotated], force)
     apply (auto simp: database_checked_def returns simp del: u_Cons)
    done
  done

lemma functional_keeps:
  assumes "sound re s"
  shows "wp (record_functional_validation re b e) (\<lambda>_. keeps re s) (\<lambda>_. keeps re s) s"
proof -
  have evidence: "asks (ok S) (translating es msg (seq (observe (perform f) Evidence_Is) (\<lambda>x. result (bk_loads (re_env re) x)))) (\<lambda>v L. \<exists>x. Evidence_Is x \<in> L \<and> bk_loads (re_env re) x = Inr v)"
    for S es msg and f :: "('h, blob) prim"
    by (rule asks_translating, rule asks_seq [OF asks_observe [where P = "\<lambda>p L. Evidence_Is p \<in> L"]]) (auto intro: asks_perform asks_result)
  show ?thesis
    unfolding record_functional_validation_def
    apply (rule wp_repeatable [OF assms stage_names(5,11)], simp, simp)
    apply (rule wp_quiet [OF assms went_start], rule asks_quiet)
    apply (rule wp_more [OF assms], assumption, rule evidence)
    apply (rule wp_decided [OF assms], assumption)
    subgoal for already
      apply (cases already; simp only: if_True if_False)
       apply (rule wp_settle [OF assms], assumption)
      apply (rule wp_quiet [OF assms], assumption, rule asks_quiet)
      apply (rule wp_advance_after [OF assms _ _ _ _ _ stage_names(5)], simp, simp, assumption)
       apply (unfold milestones, auto)
      done
    done
qed

lemma proxy_keeps:
  assumes "sound re s"
  shows "wp (authorize_proxy re b) (\<lambda>_. keeps re s) (\<lambda>_. keeps re s) s"
  unfolding authorize_proxy_def
  apply (rule wp_operation [OF assms stage_names(6,12)], simp, simp)
  apply (rule wp_quiet [OF assms went_start], rule asks_quiet)
  apply (rule wp_advance_after [OF assms _ _ _ _ _ stage_names(6)], assumption, assumption, assumption)
   apply (rule milestones(7), simp)
  done

section \<open>Readiness\<close>

lemma wp_rest: "sound re s \<Longrightarrow> went (ok (set (rs_log s))) s es t \<Longrightarrow> asks (ok (set (rs_log s))) m P \<Longrightarrow> wp m (\<lambda>_. keeps re s) (\<lambda>_. keeps re s) t"
  unfolding asks_def by (erule allE, erule wp_mono) (blast intro: went_trans went_keeps)+

lemma wp_advance_ready:
  fixes re :: "'h restorer"
  assumes "sound re s" "stored s b c" "progressing re b 7 (JObj c) (rs_log s)" "went (ok (set (rs_log s))) s es t"
    "Clock_Is now \<in> set es" "declared_at re c = Inr start" "0 \<le> seconds_between now start" "seconds_between now start \<le> re_rto re"
  shows "wp (advance_restore re b ''external_ready'' details) (\<lambda>_. keeps re s) (\<lambda>_. keeps re s) t"
proof -
  from went_keeps [OF assms(1,4)] have k: "keeps re s t" .
  from assms(4) have t: "rs_checks t = rs_checks s" "rs_log t = rs_log s @ es" by (simp_all add: went_def)
  have "earned re b 7 (rs_log s)" using assms(3) by (simp add: progressing_def)
  then have "earned re b (Suc 7) (rs_log t)" unfolding t(2) earned.simps using milestones(8) by blast
  moreover have "stored t b c" using assms(2) t by (simp add: stored_def)
  moreover have "progressing re b 7 (JObj c) (rs_log t)" using assms(3) t by (auto intro: progressing_append)
  moreover have "ready_in_time re (JObj c) (set (rs_log t))" unfolding ready_in_time_def t(2) using assms(5-8) by auto
  ultimately have "wp (advance_restore re b ''external_ready'' details) (\<lambda>_. keeps re t) (\<lambda>_. keeps re t) t"
    using k by (intro wp_advance) (auto simp: keeps_def STAGE_ORDER_def simp del: earned.simps)
  with k show ?thesis by (rule wp_keeps_from)
qed

lemma elapsed_keeps:
  fixes re :: "'h restorer"
  assumes "sound re s" "stored s b c" "progressing re b 7 (JObj c) (rs_log s)"
  shows "wp (elapsed_now re b c) (\<lambda>_. keeps re s) (\<lambda>_. keeps re s) s"
  unfolding elapsed_now_def Let_def
  apply (rule wp_more [OF assms(1) went_start], rule asks_clock)
  apply (rule wp_decided [OF assms(1)], assumption, rule wp_decided [OF assms(1)], assumption, rule wp_decided [OF assms(1)], assumption)
  apply (rule wp_finishes, rule wp_advance_ready [OF assms], assumption)
  by (auto simp: demand_def split: if_splits)

lemma asks_proof: "asks (ok S) (if present then existing_proof re b d else publish_proof re b d) (\<lambda>_ _. True)"
proof -
  have event: "asks (ok S) (log_event (Proof_To k x)) (\<lambda>_ _. True)" for k x by (rule asks_event) simp_all
  show ?thesis unfolding existing_proof_def publish_proof_def by (intro asking asks_quiet event)
qed

lemma ready_keeps:
  assumes "sound re s"
  shows "wp (external_ready re b) (\<lambda>_. keeps re s) (\<lambda>_. keeps re s) s"
proof -
  define tail where "tail elapsed = seq (read_state re b) (\<lambda>c. seq (read_manifest re b) (\<lambda>m. seq (read_clock re) (\<lambda>now. seq (result (need c ''history'')) (\<lambda>_.
     seq (if length (re_proof_key re) = 32 then result (Inr ()) else result (Inl Value_Error)) (\<lambda>_.
     seq (perform (bh_exists (re_base re) (proof_key re b))) (\<lambda>present.
     seq (if present then existing_proof re b (verification_document re b c m now) else publish_proof re b (verification_document re b c m now)) (\<lambda>_.
       result (Inr [(u ''backup_id'', JStr b), (u ''elapsed_seconds'', JInt elapsed)]))))))))" for elapsed
  have tail: "asks (ok S) (tail elapsed) (\<lambda>_ _. True)" for S elapsed
    unfolding tail_def by (intro asks_then asks_quiet asks_read_state asks_true [OF asks_manifest] asks_proof asks_if [of _ _ "result r" for r])
  have names: "''external_ready'' = STAGE_ORDER ! Suc 7" "''proxy_authorized'' = STAGE_ORDER ! 7" by (simp_all add: STAGE_ORDER_def)
  show ?thesis
    unfolding external_ready_def tail_def [symmetric]
    apply (rule wp_repeatable [OF assms names], simp, simp)
    subgoal premises p for already
    proof (cases already)
      case yes: True
      show ?thesis
        apply (rule wp_quiet [OF assms went_start], rule asks_read_state)
        apply (simp only: yes if_True)
        apply (rule wp_decided [OF assms], assumption, rule wp_rest [OF assms _ tail], assumption)
        done
    next
      case False
      with p obtain c where c: "stored s b c" "progressing re b 7 (JObj c) (rs_log s)" using at_stage_stored by blast
      have after: "wp (tail x) (\<lambda>_. keeps re s) (\<lambda>_. keeps re s) t" if "keeps re s t" for x t
        by (rule wp_keeps_from [OF that], rule wp_asked [OF _ tail]) (use that in \<open>simp add: keeps_def\<close>)
      have "wp (seq (elapsed_now re b c) tail) (\<lambda>_. keeps re s) (\<lambda>_. keeps re s) s"
        unfolding wp_seq by (rule wp_mono [OF elapsed_keeps [OF assms c]]) (use after in auto)
      then show ?thesis using c(1) sound_keeps [OF assms] False by (intro wp_stored [where c = c]) auto
    qed
    done
qed

section \<open>Rollback\<close>

lemma withdrawn_next:
  fixes details now
  assumes "settled re b (JObj c) L" "2 \<le> stage_rank (stage_of c)" "Db_Loaded b (site_root re b @ u ''/database.dump.age'') \<in> set L'" "history_of c = Inr h"
  defines "w \<equiv> canonical (JObj (recorded ''rolled_back'' details h now c))"
  shows "withdrawn re b w (L @ L')" "jget (items w) ''declared_at'' = jget c ''declared_at''" "\<exists>zs. history_stages w = history_stages (JObj c) @ zs"
proof -
  have d: "document_of re b (JObj c)" "map canonical (history_stages (JObj c)) = history_stages (JObj c)" "history_of (items (JObj c)) = Inr h"
    using settled_document [OF assms(1)] settled_texts [OF assms(1)] assms(4) by auto
  note w = recorded_document [OF d, of "''rolled_back''" details now, unfolded items.simps, folded w_def]
  show "jget (items w) ''declared_at'' = jget c ''declared_at''" "\<exists>zs. history_stages w = history_stages (JObj c) @ zs" using w by simp_all
  have "earned re b 2 L \<and> (\<exists>n k. 2 \<le> n \<and> n \<le> 8 \<and> history_stages w = stages_to n @ replicate (Suc k) (stage_text ''rolled_back''))"
    using assms(1) unfolding settled_def
  proof
    assume "\<exists>n. progressing re b n (JObj c) L"
    then obtain n where n: "progressing re b n (JObj c) L" ..
    then have "stage_of c = u (STAGE_ORDER ! n)" "n \<le> 8" by (simp_all add: progressing_def stage_of_def)
    then have "2 \<le> n" using assms(2) by simp
    moreover have "history_stages w = stages_to n @ replicate (Suc 0) (stage_text ''rolled_back'')" using n w(3) by (simp add: progressing_def)
    ultimately show ?thesis using n earned_lower by (blast dest: progressing_def [THEN iffD1])
  next
    assume r: "withdrawn re b (JObj c) L"
    then obtain n k where "2 \<le> n" "n \<le> 8" "history_stages (JObj c) = stages_to n @ replicate (Suc k) (stage_text ''rolled_back'')" by (auto simp: withdrawn_def)
    moreover from this(3) have "history_stages w = stages_to n @ replicate (Suc (Suc k)) (stage_text ''rolled_back'')"
      unfolding w(3) by (simp add: replicate_append_same del: u_Cons)
    ultimately show ?thesis using r unfolding withdrawn_def by blast
  qed
  then show "withdrawn re b w (L @ L')" using w(1,2) assms(3) by (auto simp: withdrawn_def intro: earned_append simp del: u_Cons)
qed

lemma wp_withdraw:
  fixes re :: "'h restorer"
  assumes "sound re s" "stored s b c" "settled re b (JObj c) (rs_log s)" "2 \<le> stage_rank (stage_of c)" "went (ok (set (rs_log s))) s es t"
    "Db_Loaded b (site_root re b @ u ''/database.dump.age'') \<in> set es"
  shows "wp (seq (record_stage re ''rolled_back'' [] c) (write_state re b)) (\<lambda>_. keeps re s) (\<lambda>_. keeps re s) t"
proof -
  have wrote: "wp (write_state re b (recorded ''rolled_back'' [] h now c)) (\<lambda>_. keeps re s) (\<lambda>_. keeps re s) t'"
    if "history_of c = Inr h" "went (ok (set (rs_log s))) s (es @ fs) t'" for h now fs t'
  proof -
    from went_keeps [OF assms(1) that(2)] have k: "keeps re s t'" .
    from that(2) have t: "rs_checks t' = rs_checks s" "rs_log t' = rs_log s @ es @ fs" by (simp_all add: went_def)
    have "Db_Loaded b (site_root re b @ u ''/database.dump.age'') \<in> set (es @ fs)" using assms(6) by simp
    note w = withdrawn_next [OF assms(3,4) this that(1), of "[]" now, folded t(2)]
    have "keeps re t' (t'\<lparr>rs_host := h', rs_checks := (rs_checks t')(b \<mapsto> Inr (canonical (JObj (recorded ''rolled_back'' [] h now c))))\<rparr>)" for h'
      by (rule keeps_stored) (use w k assms(2) t in \<open>auto simp: keeps_def settled_def stored_def\<close>)
    moreover have "keeps re t' (t'\<lparr>rs_host := h'\<rparr>)" for h' using k by (simp add: keeps_def sound_def)
    ultimately show ?thesis using k by (intro wp_write) (auto intro: keeps_trans)
  qed
  have k: "keeps re s t" by (rule went_keeps [OF assms(1,5)])
  show ?thesis
    unfolding record_stage_def wp_seq
    apply (rule wp_resultI, rule k)
    apply (rule wp_mono [OF spec [OF asks_clock [where S = "set (rs_log s)", unfolded asks_def]]])
     apply (elim exE conjE, simp only: wp_result, erule wrote, erule went_trans [OF assms(5)])
    apply (elim exE, rule went_keeps [OF assms(1)], erule went_trans [OF assms(5)])
    done
qed

lemma asks_site_files: "asks (ok S) (loop (site_file re) ps acc) (\<lambda>_ _. True)" "asks (ok S) (loop (retained_file re) vs acc) (\<lambda>_ _. True)"
  unfolding site_file_def retained_file_def Let_def by (intro asking asks_quiet)+

lemma settled_site:
  assumes "settled re b (JObj c) L" "2 \<le> stage_rank (stage_of c)"
  shows "Site_Kept b \<in> set L"
  using settled_stage [OF assms(1)] assms(2)
  by (auto simp: progressing_def withdrawn_def intro: earned_site)

lemma rollback_keeps:
  fixes re :: "'h restorer"
  assumes "sound re s"
  shows "wp (rollback_site re b) (\<lambda>_. keeps re s) (\<lambda>_. keeps re s) s"
  unfolding rollback_site_def Let_def wp_seq [of "read_state re b"]
proof (rule wp_mono [OF wp_read_state [OF assms]], goal_cases)
  case (1 c t)
  then have t: "t = s" by simp
  show ?case
    unfolding t stage_ranks
    apply (rule wp_decided [OF assms went_start])
    apply (rule wp_quiet [OF assms went_start], rule asks_site_files)
    apply (rule wp_quiet [OF assms], assumption, rule asks_quiet)
    apply (rule wp_decided [OF assms], assumption, rule wp_decided [OF assms], assumption)
    apply (rule wp_quiet [OF assms], assumption, rule asks_quiet)
    apply (rule wp_decided [OF assms], assumption, rule wp_decided [OF assms], assumption)
    apply (rule wp_quiet [OF assms], assumption, rule asks_quiet)
    apply (rule wp_decided [OF assms], assumption)
    apply (rule wp_quiet [OF assms], assumption, rule asks_site_files)
    subgoal premises p
    proof -
      have rank: "2 \<le> stage_rank (stage_of c)" using p(1) by (simp add: demand_def split: if_splits)
      then have "c \<noteq> initial_state b" by (auto simp: initial_state_def stage_of_def jget_Cons simp del: u_Cons)
      then have c: "stored s b c" "settled re b (JObj c) (rs_log s)" using 1 by auto
      show ?thesis
        by (rule wp_more [OF assms], (rule p)+, rule asks_load, rule settled_site [OF c(2) rank], rule wp_withdraw [OF assms c rank], assumption) simp
    qed
    done
qed (use assms in \<open>simp add: keeps_def\<close>)

section \<open>All operations\<close>

lemma wp_unit: "wp m (\<lambda>_. K) (\<lambda>_. K) s \<Longrightarrow> wp (unit_of m) (\<lambda>_. K) (\<lambda>_. K) s"
  unfolding unit_of_def by (rule wp_finishes)

lemma operation_keeps:
  assumes "sound re s"
  shows "wp (perform_operation re opn b) (\<lambda>_. keeps re s) (\<lambda>_. keeps re s) s"
proof (cases opn)
  case Declare
  have "wp (declare_restore re b) (\<lambda>_. keeps re s) (\<lambda>_. keeps re s) s" by (rule wp_mono [OF declare_keeps [OF assms]]) auto
  with Declare show ?thesis by (simp add: wp_unit)
qed (simp_all add: wp_unit preflight_keeps [OF assms] retain_keeps [OF assms] database_keeps [OF assms] files_keep [OF assms] offline_keeps [OF assms]
    functional_keeps [OF assms] proxy_keeps [OF assms] ready_keeps [OF assms] rollback_keeps [OF assms])

lemma performed: "sound re s \<Longrightarrow> keeps re s (snd (perform_operation re opn b s))"
  using wp_run [OF operation_keeps, of re s opn b] by (auto split: sum.splits)

lemma reaches_sound: "reaches re s \<Longrightarrow> sound re s"
proof (induction rule: reaches.induct)
  case (empty h)
  then show ?case by (simp add: sound_def guarded_def)
next
  case (operation s opn b)
  then show ?case using performed keeps_def by blast
next
  case (outside s h)
  then show ?case by (simp add: sound_def)
qed

end
