(* ===== verification/Bk_Run.thy ===== *)
theory Bk_Run
  imports Bk_Trust Bk_Operations
begin

text \<open>
  A restore that runs: the recovery point of \<open>Bk_Trust\<close> on a host whose files and database are already those of the point, from the declaration to
  the external readiness. It shows that the hypotheses of the theorems about restores can hold.
\<close>

section \<open>The sample\<close>

text \<open>One document serves as the authorization and as the functional evidence.\<close>

definition restore_manifest :: jobj where
  "restore_manifest = sample_published @ [(u ''authentication'', authentication_block (bb_env sample_builder) sample_key (u ''k1'') sample_published)]"

definition restore_marker :: jobj where
  "restore_marker = completion_marker sample_builder sample_facts (1, zeros) (DateTime 2026 8 3 2 0 3 0)"

definition restore_evidence :: jobj where
  "restore_evidence = [(u ''backup_id'', JStr sample_backup_identity), (u ''environment_id'', JStr (u ''e1'')), (u ''operator_id'', JStr (u ''o1'')),
     (u ''approved_data_loss_window'', JStr (u ''w1'')), (u ''authorization_record'', JStr (u ''a1'')), (u ''expires_at'', JStr (u ''x'')),
     (u ''one_time_challenge'', JStr (u ''c1''))] @ map (\<lambda>k. (u k, JBool True)) functional_checks"

definition restore_reference :: json where
  "restore_reference = JObj [(u ''storage_path'', JStr (reference_path zeros)), (u ''sha256'', JStr zeros), (u ''size_bytes'', JInt 1)]"

definition restore_loads :: "blob \<Rightarrow> bexc + json" where
  "restore_loads x = (if x = [2] then Inr (JObj restore_manifest) else if x = [3] then Inr (JObj restore_marker) else if x = [] then Inr (JObj restore_evidence)
     else if x = [48] then Inr (JArr [restore_reference]) else Inl Json_Error)"

definition restore_builder :: "nat builder" where
  "restore_builder = sample_builder\<lparr>bb_host := sample_host\<lparr>bh_read := \<lambda>_. Pair (Inr [3]), bh_exists := \<lambda>_. Pair (Inr False)\<rparr>, bb_env := (bb_env sample_builder)\<lparr>bk_loads := restore_loads\<rparr>\<rparr>"

definition restore_host :: "nat rhost" where
  "restore_host = \<lparr>rh_download = (\<lambda>_ _. Pair (Inr ())), rh_decrypt_small = (\<lambda>_ _. Pair (Inr [2])), rh_decrypt_hash = (\<lambda>_. Pair (Inr (1, zeros))),
     rh_decrypt_to = (\<lambda>_ _. Pair (Inr (1, zeros))), rh_pg_restore = (\<lambda>_. Pair (Inr ())), rh_retain_command = (\<lambda>_ _. Pair (Inr ((1, zeros), (1, zeros)))),
     rh_retain_bytes = (\<lambda>_ _. Pair (Inr (1, zeros))),
     rh_version = (\<lambda>k. Pair (Inr (0, u (if k = ''rclone'' then ''rclone v1.74.1'' else ''pg_restore (PostgreSQL) 16.9'')))),
     rh_rename = (\<lambda>_ _. Pair (Inr ())), rh_copy = (\<lambda>_ _. Pair (Inr ())), rh_free = (\<lambda>_. Pair (Inr 1000)), rh_inodes = (\<lambda>_. Pair (Inr 1000)),
     rh_blocks = (\<lambda>_. Pair (Inr 0)), rh_text = (\<lambda>_. Pair (Inr (u ''e1''))), rh_mode = (\<lambda>_. Pair (Inr 384)), rh_write = (\<lambda>_. Pair Landed)\<rparr>"

definition sample_guard :: restore_guard where
  "sample_guard = \<lparr>rg_environment = u ''e1'', rg_backup = sample_backup_identity, rg_operator = u ''o1'', rg_window = u ''w1'', rg_authorization = u ''a1'',
     rg_expires = DateTime 2026 8 4 0 0 0 0, rg_challenge = u ''c1''\<rparr>"

definition sample_restorer :: "nat restorer" where
  "sample_restorer = \<lparr>re_local = restore_builder, re_host = restore_host, re_guard = sample_guard, re_environment = u ''e1'', re_manifest_key = sample_key,
     re_manifest_key_id = u ''k1'', re_proof_key = sample_key, re_proof_key_id = u ''k1'', re_margin = 20, re_rto = 14400, re_chunk = 1048576,
     re_iso = (\<lambda>_. Some (Moment (DateTime 2026 8 3 2 0 0 0))), re_members = (\<lambda>_. Some [\<lparr>tm_name = u ''c'', tm_dir = False, tm_file = True, tm_content = Some (Some [])\<rparr>]),
     re_public = (\<lambda>k. k)\<rparr>"

lemma restorer_fields [simp]:
  "re_local sample_restorer = restore_builder" "re_host sample_restorer = restore_host" "re_guard sample_restorer = sample_guard"
  "re_manifest_key sample_restorer = sample_key" "re_manifest_key_id sample_restorer = u ''k1''" "re_proof_key sample_restorer = sample_key"
  "re_proof_key_id sample_restorer = u ''k1''" "re_environment sample_restorer = u ''e1''" "re_rto sample_restorer = 14400" "re_margin sample_restorer = 20" "re_chunk sample_restorer = 1048576"
  "re_iso sample_restorer x = Some (Moment (DateTime 2026 8 3 2 0 0 0))"
  "re_members sample_restorer y = Some [\<lparr>tm_name = u ''c'', tm_dir = False, tm_file = True, tm_content = Some (Some [])\<rparr>]"
  by (simp_all add: sample_restorer_def del: u_Cons)

lemma restore_builder_fields [simp]:
  "bb_prefix restore_builder = u ''p''" "bb_recipient restore_builder = u ''r1''" "bb_source restore_builder = u ''/s''" "bb_repository restore_builder = u ''/r''"
  "bb_allowlist restore_builder = [u ''c'']" "bb_environ restore_builder = sample_environ" "bk_loads (bb_env restore_builder) = restore_loads"
  "bk_sha (bb_env restore_builder) b = zeros" "bk_verify (bb_env restore_builder) k s x \<longleftrightarrow> s = replicate 128 48"
  by (simp_all add: restore_builder_def sample_builder_def sample_bk_env_def del: u_Cons)

lemma restore_base [simp]:
  "bh_read (bb_host restore_builder) k n = (Inr [3], n)" "bh_exists (bb_host restore_builder) k n = (Inr False, n)" "bh_upload (bb_host restore_builder) x k n = (Inr (), n)" "bh_now (bb_host restore_builder) = bh_now sample_host" "bh_ask (bb_host restore_builder) = bh_ask sample_host"
  "bh_local_hash (bb_host restore_builder) = bh_local_hash sample_host" "bh_local_read (bb_host restore_builder) = bh_local_read sample_host"
  "bh_psql (bb_host restore_builder) = bh_psql sample_host" "bh_tool (bb_host restore_builder) = bh_tool sample_host"
  "bh_inode (bb_host restore_builder) = bh_inode sample_host" "bh_tree (bb_host restore_builder) = bh_tree sample_host"
  "bh_make_dir (bb_host restore_builder) p n = (Inr (), n)" "bh_remove_tree (bb_host restore_builder) p n = (Inr (), n)"
  by (simp_all add: restore_builder_def sample_host_def del: u_Cons)

lemma restore_prims [simp]:
  "rh_decrypt_small restore_host p l n = (Inr [2], n)" "rh_decrypt_hash restore_host p n = (Inr (1, zeros), n)" "rh_pg_restore restore_host p n = (Inr (), n)"
  "rh_retain_command restore_host c p n = (Inr ((1, zeros), (1, zeros)), n)" "rh_retain_bytes restore_host x p n = (Inr (1, zeros), n)"
  "rh_version restore_host k n = (Inr (0, u (if k = ''rclone'' then ''rclone v1.74.1'' else ''pg_restore (PostgreSQL) 16.9'')), n)"
  "rh_rename restore_host p q n = (Inr (), n)" "rh_copy restore_host p q n = (Inr (), n)" "rh_free restore_host p n = (Inr 1000, n)" "rh_inodes restore_host p n = (Inr 1000, n)"
  "rh_write restore_host b n = (Landed, n)"
  by (simp_all add: restore_host_def del: u_Cons)

text \<open>What the backup program asks is the same on both hosts.\<close>

lemma same_questions:
  "config_entry restore_builder = config_entry sample_builder" "inventory restore_builder = inventory sample_builder"
  "database_assertions restore_builder = database_assertions sample_builder" "environment restore_builder = environment sample_builder"
  "current_images restore_builder = current_images sample_builder" "completion_key restore_builder = completion_key sample_builder"
proof -
  have c: "config_round restore_builder = config_round sample_builder"
    by (intro ext) (simp add: config_round_def Let_def cong: if_cong del: u_Cons)
  show "config_entry restore_builder = config_entry sample_builder"
    by (intro ext) (simp add: config_entry_def c Let_def cong: if_cong del: u_Cons)
  have f: "sha256_file restore_builder = sha256_file sample_builder" by (intro ext) (simp add: sha256_file_def cong: if_cong)
  have i: "inventory_round restore_builder = inventory_round sample_builder" by (intro ext) (simp add: inventory_round_def f cong: if_cong)
  show "inventory restore_builder = inventory sample_builder" by (intro ext) (simp add: inventory_def i cong: if_cong del: u_Cons)
  have n: "count_round restore_builder = count_round sample_builder" by (intro ext) (simp add: count_round_def)
  show "database_assertions restore_builder = database_assertions sample_builder" by (simp add: database_assertions_def n del: u_Cons)
  show e: "environment restore_builder = environment sample_builder" by (intro ext) (simp add: environment_def)
  show "current_images restore_builder = current_images sample_builder" by (simp add: current_images_def e)
  show "completion_key restore_builder = completion_key sample_builder" by (intro ext) (simp add: completion_key_def)
qed

section \<open>Steps that succeed\<close>

abbreviation sample_id :: ustr where
  "sample_id \<equiv> sample_backup_identity"

text \<open>An action that succeeds from every state, without writing a checkpoint; the log only grows.\<close>

definition gets :: "('h, 'a) sact \<Rightarrow> ('a \<Rightarrow> bool) \<Rightarrow> bool" where
  "gets m X \<longleftrightarrow> (\<forall>s. \<exists>x t. m s = (Inr x, t) \<and> rs_checks t = rs_checks s \<and> set (rs_log s) \<subseteq> set (rs_log t) \<and> X x)"

definition sample_at :: "nat \<Rightarrow> nat rstate \<Rightarrow> bool" where
  "sample_at k s \<longleftrightarrow> (\<exists>c. stored s sample_id c \<and> document_of sample_restorer sample_id (JObj c) \<and> jget c ''stage'' = stage_text (STAGE_ORDER ! k)
     \<and> map canonical (history_stages (JObj c)) = history_stages (JObj c))"

text \<open>An action that succeeds from stage \<open>k\<close>, reaches stage \<open>k'\<close> and logs the events \<open>E\<close>.\<close>

definition leads :: "(nat, 'a) sact \<Rightarrow> nat \<Rightarrow> nat \<Rightarrow> sevent set \<Rightarrow> bool" where
  "leads m k k' E \<longleftrightarrow> (\<forall>s. sample_at k s \<longrightarrow> (\<exists>x t. m s = (Inr x, t) \<and> sample_at k' t \<and> set (rs_log s) \<subseteq> set (rs_log t) \<and> E \<subseteq> set (rs_log t)))"

lemma gets_seq:
  assumes "gets m X" "\<And>x. X x \<Longrightarrow> gets (f x) Y"
  shows "gets (seq m f) Y"
  unfolding gets_def
proof
  fix s
  obtain x t where x: "m s = (Inr x, t)" "rs_checks t = rs_checks s" "set (rs_log s) \<subseteq> set (rs_log t)" "X x"
    using assms(1) unfolding gets_def by meson
  obtain y w where "f x t = (Inr y, w)" "rs_checks w = rs_checks t" "set (rs_log t) \<subseteq> set (rs_log w)" "Y y"
    using assms(2) [OF x(4)] unfolding gets_def by meson
  then show "\<exists>y w. seq m f s = (Inr y, w) \<and> rs_checks w = rs_checks s \<and> set (rs_log s) \<subseteq> set (rs_log w) \<and> Y y"
    using x by (auto simp: seq_def)
qed

lemma gets_result: "r = Inr x \<Longrightarrow> X x \<Longrightarrow> gets (result r) X"
  by (simp add: gets_def result_def)

lemma gets_done: "X x \<Longrightarrow> gets (result (Inr x)) X"
  by (rule gets_result [OF refl])

lemma gets_perform: "(\<And>n. \<exists>n'. f n = (Inr x, n')) \<Longrightarrow> X x \<Longrightarrow> gets (perform f) X"
  unfolding gets_def perform_def
proof
  fix s
  assume "\<And>n. \<exists>n'. f n = (Inr x, n')" "X x"
  then obtain n' where "f (rs_host s) = (Inr x, n')" by blast
  then show "\<exists>x t. (case f (rs_host s) of (r, h) \<Rightarrow> (r, s\<lparr>rs_host := h\<rparr>)) = (Inr x, t) \<and> rs_checks t = rs_checks s \<and> set (rs_log s) \<subseteq> set (rs_log t) \<and> X x"
    using \<open>X x\<close> by simp
qed

lemma gets_now: "gets (read_clock sample_restorer) (\<lambda>t. \<exists>k<60. t = DateTime 2026 8 3 2 0 k 0)"
  by (auto simp: gets_def read_clock_def observe_def seq_def perform_def log_event_def result_def intro!: mod_less_divisor)

lemma gets_locally: "(\<And>n. comes m n x n) \<Longrightarrow> X x \<Longrightarrow> gets (locally m) X"
  unfolding gets_def locally_def comes_def
proof
  fix s
  assume m: "\<And>n. \<forall>s. bs_host s = n \<longrightarrow> (\<exists>t. m s = (Inr x, t) \<and> bs_host t = n)" "X x"
  obtain t where "m \<lparr>bs_host = rs_host s, bs_log = []\<rparr> = (Inr x, t)" using m(1) [of "rs_host s", rule_format, of "\<lparr>bs_host = rs_host s, bs_log = []\<rparr>"] by auto
  then show "\<exists>x t. (case m \<lparr>bs_host = rs_host s, bs_log = []\<rparr> of (r, t) \<Rightarrow> (r, s\<lparr>rs_host := bs_host t\<rparr>)) = (Inr x, t) \<and> rs_checks t = rs_checks s
      \<and> set (rs_log s) \<subseteq> set (rs_log t) \<and> X x" using m(2) by simp
qed

lemma gets_event: "gets (log_event e) (\<lambda>_. True)"
  by (auto simp: gets_def log_event_def)

lemma gets_insist: "b \<Longrightarrow> gets (insist b msg) (\<lambda>_. True)"
  by (rule gets_result) (simp_all add: demand_def)

lemma gets_observe: "gets m X \<Longrightarrow> gets (observe m ev) X"
  unfolding observe_def by (rule gets_seq, assumption, rule gets_seq [OF gets_event], rule gets_result [OF refl])

lemma gets_translating: "gets m X \<Longrightarrow> gets (translating es msg m) X"
  unfolding gets_def translating_def by (erule all_forward) auto

lemma gets_discarding: "gets m X \<Longrightarrow> gets (discarding re p m) X"
  unfolding gets_def discarding_def by (erule all_forward) auto

lemma gets_loop: "(\<And>x acc. x \<in> set xs \<Longrightarrow> J acc \<Longrightarrow> gets (f x acc) J) \<Longrightarrow> J acc \<Longrightarrow> gets (loop f xs acc) J"
proof (induction xs arbitrary: acc)
  case (Cons x xs)
  show ?case unfolding loop.simps by (rule gets_seq [where X = J]) (use Cons in auto)
qed (simp add: gets_done)

lemma leads_after: "gets m X \<Longrightarrow> (\<And>x. X x \<Longrightarrow> leads (f x) k k' E) \<Longrightarrow> leads (seq m f) k k' E"
  unfolding leads_def
proof (intro allI impI)
  fix s
  assume m: "gets m X" and f: "\<And>x. X x \<Longrightarrow> \<forall>s. sample_at k s \<longrightarrow> (\<exists>y t. f x s = (Inr y, t) \<and> sample_at k' t \<and> set (rs_log s) \<subseteq> set (rs_log t) \<and> E \<subseteq> set (rs_log t))"
    and s: "sample_at k s"
  obtain x t where x: "m s = (Inr x, t)" "rs_checks t = rs_checks s" "set (rs_log s) \<subseteq> set (rs_log t)" "X x" using m unfolding gets_def by meson
  have "sample_at k t" using s x(2) by (simp add: sample_at_def stored_def)
  with f [OF x(4)] obtain y w where "f x t = (Inr y, w)" "sample_at k' w" "set (rs_log t) \<subseteq> set (rs_log w)" "E \<subseteq> set (rs_log w)" by meson
  with x show "\<exists>y t. seq m f s = (Inr y, t) \<and> sample_at k' t \<and> set (rs_log s) \<subseteq> set (rs_log t) \<and> E \<subseteq> set (rs_log t)" by (auto simp: seq_def)
qed

lemma leads_seq: "leads m k k' E \<Longrightarrow> (\<And>x. leads (f x) k' k'' {}) \<Longrightarrow> leads (seq m f) k k'' E"
  unfolding leads_def
proof (intro allI impI)
  fix s
  assume m: "\<forall>s. sample_at k s \<longrightarrow> (\<exists>x t. m s = (Inr x, t) \<and> sample_at k' t \<and> set (rs_log s) \<subseteq> set (rs_log t) \<and> E \<subseteq> set (rs_log t))"
    and f: "\<And>x. \<forall>s. sample_at k' s \<longrightarrow> (\<exists>y t. f x s = (Inr y, t) \<and> sample_at k'' t \<and> set (rs_log s) \<subseteq> set (rs_log t) \<and> {} \<subseteq> set (rs_log t))"
    and s: "sample_at k s"
  obtain x t where x: "m s = (Inr x, t)" "sample_at k' t" "set (rs_log s) \<subseteq> set (rs_log t)" "E \<subseteq> set (rs_log t)" using m s by blast
  obtain y w where "f x t = (Inr y, w)" "sample_at k'' w" "set (rs_log t) \<subseteq> set (rs_log w)" using f [of x] x(2) by blast
  with x show "\<exists>y t. seq m f s = (Inr y, t) \<and> sample_at k'' t \<and> set (rs_log s) \<subseteq> set (rs_log t) \<and> E \<subseteq> set (rs_log t)" by (auto simp: seq_def)
qed

lemma leads_result: "leads (result (Inr x)) k k {}"
  by (simp add: leads_def result_def)

lemma leads_event: "leads (log_event e) k k {e}"
  by (auto simp: leads_def log_event_def sample_at_def stored_def)

lemma sample_read:
  assumes "sample_at k s" "k \<le> 8"
  shows "\<exists>c. read_state sample_restorer sample_id s = (Inr c, s) \<and> stored s sample_id c \<and> document_of sample_restorer sample_id (JObj c)
    \<and> stage_of c = u (STAGE_ORDER ! k) \<and> map canonical (history_stages (JObj c)) = history_stages (JObj c)"
proof -
  obtain c where c: "stored s sample_id c" "document_of sample_restorer sample_id (JObj c)" "jget c ''stage'' = stage_text (STAGE_ORDER ! k)"
    "map canonical (history_stages (JObj c)) = history_stages (JObj c)" using assms(1) by (auto simp: sample_at_def)
  have "STAGE_ORDER ! k \<in> set STAGE_ORDER" using assms(2) by (intro nth_mem) (simp add: STAGE_ORDER_def)
  then have "list_ex (\<lambda>x. u (STAGE_ORDER ! k) = u x) STAGE_ORDER" unfolding list_ex_iff by blast
  moreover have "\<exists>d. declared_at sample_restorer c = Inr d"
    using c(2) by (auto simp: document_of_def declared_at_def jget_def split: option.splits)
  ultimately have "check_state sample_restorer sample_id (JObj c) = Inr c"
    using c(2,3) by (auto simp: check_state_def document_of_def Let_def andthen_def)
  then have "read_state sample_restorer sample_id s = (Inr c, s)"
    using c(1) sample_point_ok by (simp add: read_state_def seq_def result_def validate_backup_id_def demand_def stored_def andthen_def)
  then show ?thesis using c by (auto simp: stage_of_def)
qed

lemma leads_from:
  assumes "\<And>s. sample_at k s \<Longrightarrow> m s = (Inr x, s)" "leads (f x) k k' E"
  shows "leads (seq m f) k k' E"
  using assms unfolding leads_def seq_def by simp

lemma leads_completed: "leads (f (stage_rank (u st) \<le> k)) k k' E \<Longrightarrow> k \<le> 8 \<Longrightarrow> leads (seq (completed sample_restorer sample_id st) f) k k' E"
proof (rule leads_from)
  fix s
  assume k: "k \<le> 8" and s: "sample_at k s"
  from sample_read [OF s k] obtain c where "read_state sample_restorer sample_id s = (Inr c, s)" "stage_of c = u (STAGE_ORDER ! k)" by blast
  then show "completed sample_restorer sample_id st s = (Inr (stage_rank (u st) \<le> k), s)"
    using k by (simp add: completed_def seq_def result_def demand_def del: u_Cons)
qed

lemma leads_requires: "leads (f ()) k k' E \<Longrightarrow> st = STAGE_ORDER ! k \<Longrightarrow> k \<le> 8 \<Longrightarrow> leads (seq (requires_stage sample_restorer sample_id st msg) f) k k' E"
proof (rule leads_from)
  fix s
  assume st: "st = STAGE_ORDER ! k" and k: "k \<le> 8" and s: "sample_at k s"
  from sample_read [OF s k] obtain c where "read_state sample_restorer sample_id s = (Inr c, s)" "stage_of c = u (STAGE_ORDER ! k)" by blast
  then show "requires_stage sample_restorer sample_id st msg s = (Inr (), s)" using st by (simp add: requires_stage_def seq_def result_def demand_def)
qed

lemma leads_advance:
  assumes "k < 8" "st = STAGE_ORDER ! Suc k"
  shows "leads (advance_restore sample_restorer sample_id st details) k (Suc k) {}"
  unfolding leads_def
proof (intro allI impI)
  fix s
  assume "sample_at k s"
  then obtain c where c: "read_state sample_restorer sample_id s = (Inr c, s)" "stored s sample_id c" "document_of sample_restorer sample_id (JObj c)"
    "stage_of c = u (STAGE_ORDER ! k)" "map canonical (history_stages (JObj c)) = history_stages (JObj c)" using sample_read [of k s] assms(1) by auto
  then obtain h where h: "history_of c = Inr h"
    by (auto simp: document_of_def history_of_def need_def jget_def andthen_def split: option.splits)
  have rank: "stage_rank (u st) = Suc k" "stage_rank (stage_of c) = k" using assms c(4) by simp_all
  then have "u st \<noteq> stage_of c" by auto
  then have "\<exists>t now. advance_restore sample_restorer sample_id st details s = (Inr (), t)
      \<and> rs_checks t = (rs_checks s)(sample_id \<mapsto> Inr (canonical (JObj (recorded st details h now c)))) \<and> set (rs_log s) \<subseteq> set (rs_log t)"
    using c(1) h rank
    by (auto simp: advance_restore_def seq_def result_def demand_def record_stage_def read_clock_def observe_def perform_def log_event_def write_state_def Let_def
        simp del: canonical.simps split: prod.splits)
  then obtain t now where t: "advance_restore sample_restorer sample_id st details s = (Inr (), t)" "set (rs_log s) \<subseteq> set (rs_log t)"
    "rs_checks t = (rs_checks s)(sample_id \<mapsto> Inr (canonical (JObj (recorded st details h now c))))" by blast
  define w where "w = canonical (JObj (recorded st details h now c))"
  from h have "history_of (items (JObj c)) = Inr h" by simp
  note r = recorded_document [OF c(3,5) this, of st details now, unfolded items.simps, folded w_def]
  have w: "JObj (items w) = w" unfolding w_def by simp
  have "stored t sample_id (items w)" unfolding stored_def w unfolding w_def t(3) by (simp del: canonical.simps)
  moreover have "map canonical (history_stages w) = history_stages w" using r(3) c(5) by simp
  ultimately have "sample_at (Suc k) t" unfolding sample_at_def using r(1,2) assms(2) by (intro exI [of _ "items w"]) (simp add: w)
  then show "\<exists>x t. advance_restore sample_restorer sample_id st details s = (Inr x, t) \<and> sample_at (Suc k) t \<and> set (rs_log s) \<subseteq> set (rs_log t) \<and> {} \<subseteq> set (rs_log t)"
    using t(1,2) by blast
qed

lemma leads_next: "n = Suc k \<Longrightarrow> k < 8 \<Longrightarrow> st = STAGE_ORDER ! n \<Longrightarrow> leads (advance_restore sample_restorer sample_id st details) k n {}"
  using leads_advance by simp

lemma leads_stage: "leads (f False) k k' E \<Longrightarrow> k < stage_rank (u st) \<Longrightarrow> k \<le> 8 \<Longrightarrow> leads (seq (completed sample_restorer sample_id st) f) k k' E"
  by (rule leads_completed) simp_all

section \<open>Its manifest\<close>

lemma restore_signs: "authenticate_manifest (bb_env sample_builder) sample_published sample_key (u ''k1'') = Inr restore_manifest"
  using sample_published_signs by (auto simp: authenticate_manifest_def returns restore_manifest_def simp del: u_Cons)

lemma restore_manifest_fields:
  "jget restore_manifest ''source_commit'' = JStr (replicate 40 48)" "jget restore_manifest ''tools'' = sample_tools"
  "jget restore_manifest ''database_assertions'' = JObj sample_assertions" "map_of restore_manifest (u ''tools'') = Some sample_tools"
  "map_of restore_manifest (u ''database_assertions'') = Some (JObj sample_assertions)"
proof -
  have "environment sample_builder ''SOURCE_COMMIT'' = replicate 40 48" by (simp add: environment_def sample_environ_def)
  then show "jget restore_manifest ''source_commit'' = JStr (replicate 40 48)" "jget restore_manifest ''tools'' = sample_tools"
    "jget restore_manifest ''database_assertions'' = JObj sample_assertions" "map_of restore_manifest (u ''tools'') = Some sample_tools"
    "map_of restore_manifest (u ''database_assertions'') = Some (JObj sample_assertions)"
    unfolding restore_manifest_def sample_published_def unsigned_manifest_def by (simp_all add: jget_Cons sample_facts_def del: u_Cons)
qed

lemmas restore_fields = sample_published_fields [OF restore_signs]

lemma restore_valid: "validate_manifest env restore_manifest = Inr ()"
proof -
  note f = restore_fields
  have files: "file_entries env [] [item_json sample_item] = Inr [sample_path]"
    using sample_path_facts
    by (simp add: item_json_def sample_item_def text_or_empty_def integer_or_negative_def returns Let_def andthen_def checks.simps(2) demand_def)
  have "\<exists>ks. object_entries env (JStr sample_backup_identity) [] [] (point_objects sample_builder sample_facts) = Inr ([u ''file:'' @ sample_path, u ''config'', u ''database''], ks)"
    using keys_safe
    by (simp add: point_objects_def sample_facts_def part_object_def sample_file_object_def text_or_empty_def integer_or_negative_def returns Let_def jget_Cons cas_key_of_def
        del: u_Cons) (simp add: point_root_def cas_root_def starts_with_def)
  then obtain ks where ks: "object_entries env (JStr sample_backup_identity) [] [] (point_objects sample_builder sample_facts) = Inr ([u ''file:'' @ sample_path, u ''config'', u ''database''], ks)"
    by blast
  have images: "validate_images env (current_images sample_builder) = Inr ()"
    unfolding validate_images_def current_images_def
    using image_ok by (simp add: image_variables_def environment_def sample_environ_def sample_image_def andthen_def demand_def del: u_Cons)
  have times: "format_time (DateTime 2026 8 3 2 0 a 0) = format_time (DateTime 2026 8 3 2 0 b 0) \<longleftrightarrow> a = b" if "a < 10" "b < 10" for a b
  proof -
    have "valid_datetime (DateTime 2026 8 3 2 0 a 0)" "valid_datetime (DateTime 2026 8 3 2 0 b 0)" using that by (simp_all add: valid_datetime_def days_in_month_def)
    from parse_format [OF this(1)] parse_format [OF this(2)] show ?thesis by (metis Inr_inject datetime.inject)
  qed
  have keys: "keys_are [(u ''algorithm'', a), (u ''key_id'', b), (u ''signature'', c)] [''algorithm'', ''key_id'', ''signature'']" for a b c
    by (simp add: keys_are_def)
  have named: "strip (u ''r1'') \<noteq> []" by (simp add: text_eval)
  have "SAFE_ID (u ''k1'')" by (rule sample_key_names)
  then show ?thesis
    using f(12) sample_point_ok keys named
    unfolding validate_manifest_def Let_def
    by (simp add: f images files ks returns authentication_block_fields jget_Cons times validate_backup_id_def del: u_Cons file_entries.simps object_entries.simps)
qed

lemma restore_authentic: "verify_manifest_authentication (bb_env restore_builder) restore_manifest sample_key (u ''k1'') = Inr ()"
  using sample_key_names zeros_hex restore_fields(11)
  by (simp add: verify_manifest_authentication_def authority_checks_def signature_ok_def authentication_block_fields keys_are_def jget_Cons Let_def returns del: u_Cons)

lemma sizes_digest:
  "v \<in> set (point_objects sample_builder sample_facts) \<Longrightarrow> size_digest re v ''ciphertext_size'' ''ciphertext_sha256'' = Inr (1, zeros)"
  "v \<in> set (point_objects sample_builder sample_facts) \<Longrightarrow> size_digest re v ''plaintext_size'' ''plaintext_sha256'' = Inr (1, zeros)"
  "size_digest re (item_json sample_item) ''size'' ''sha256'' = Inr (1, zeros)"
  by (auto simp: size_digest_def point_objects_def sample_facts_def part_object_def sample_file_object_def integer_or_negative_def text_or_empty_def andthen_def
      item_json_def sample_item_def simp del: u_Cons)

section \<open>The operations\<close>

lemma gets_inject: "stage \<in> set RESTORE_FAILURE_STAGES \<Longrightarrow> gets (restore_inject sample_restorer stage) (\<lambda>_. True)"
  unfolding restore_inject_def by (rule gets_result [where x = "()"]) (simp_all add: returns sample_environ_def image_variables_def del: u_Cons)

lemma gets_inquire:
  "gets (inquire sample_restorer Exists p) (\<lambda>x. \<not> x)" "gets (inquire sample_restorer Is_Symlink p) (\<lambda>x. \<not> x)" "gets (inquire sample_restorer Is_File p) (\<lambda>x. x)"
  by (rule gets_perform [where x = False], simp, simp)+ (rule gets_perform [where x = True], simp, simp)

lemma gets_hash: "gets (hash_path sample_restorer p) (\<lambda>x. x = (1, zeros))"
  unfolding hash_path_def by (rule gets_observe, rule gets_perform, rule exI, simp, simp)

lemma gets_open: "gets (open_small sample_restorer p n) (\<lambda>x. x = [2])"
  unfolding open_small_def by (rule gets_observe, rule gets_perform, rule exI, simp, simp)

lemma gets_download: "gets (download_verified sample_restorer b k (1, zeros)) (\<lambda>_. True)"
  unfolding download_verified_def Let_def
  by (rule gets_seq [OF gets_inquire(3)], rule gets_seq [where X = "\<lambda>x. x"], simp only: not_True_eq_False if_False, rule gets_seq [OF gets_hash])
    (auto intro!: gets_result)

lemma gets_marker: "gets (read_completion sample_restorer b) (\<lambda>x. x = JObj restore_marker)"
  unfolding read_completion_def
  by (rule gets_translating, rule gets_seq [OF gets_perform [where x = "[3]" and X = "\<lambda>x. x = [3]"]]) (auto intro: gets_result simp: restore_loads_def)

lemma marker_fields:
  "jget restore_marker ''backup_id'' = JStr sample_id" "jget restore_marker ''status'' = stage_text ''remote_ciphertext_verified''"
  "\<exists>k. need restore_marker ''manifest_key'' = Inr (JStr k)" "need restore_marker ''manifest_ciphertext_size'' = Inr (JInt 1)"
  "need restore_marker ''manifest_ciphertext_sha256'' = Inr (JStr zeros)"
  by (simp_all add: restore_marker_def completion_marker_def sample_facts_def jget_Cons need_def del: u_Cons)

lemma gets_manifest: "gets (open_manifest sample_restorer sample_id restore_marker) (\<lambda>x. snd x = restore_manifest)"
proof -
  obtain k where k: "need restore_marker ''manifest_key'' = Inr (JStr k)" using marker_fields(3) by blast
  show ?thesis
    unfolding open_manifest_def
    apply (rule gets_seq [OF gets_result [OF k, where X = "\<lambda>x. x = JStr k"]], simp)
    apply (rule gets_seq [OF gets_result [where x = 1 and X = "\<lambda>x. x = 1"]], simp add: marker_fields andthen_def, simp)
    apply (rule gets_seq [OF gets_result [where x = "JStr zeros" and X = "\<lambda>x. x = JStr zeros"]], simp add: marker_fields, simp)
    apply (simp only: py_text.simps, rule gets_seq [OF gets_download], rule gets_seq [OF gets_open])
    apply (rule gets_seq [OF gets_translating [OF gets_result [where x = "JObj restore_manifest" and X = "\<lambda>x. x = JObj restore_manifest"]]])
      apply (simp add: restore_loads_def, simp)
    apply (rule gets_seq [OF gets_insist], simp, rule gets_seq [OF gets_result [where x = "()" and X = "\<lambda>_. True"]], simp add: restore_authentic del: u_Cons, simp)
    apply (rule gets_seq [OF gets_result [where x = "()" and X = "\<lambda>_. True"]], simp add: restore_valid, simp)
    apply (rule gets_seq [OF gets_insist], simp add: restore_fields, rule gets_result, rule refl, simp)
    done
qed

lemma gets_read_manifest: "gets (read_manifest sample_restorer sample_id) (\<lambda>m. m = restore_manifest)"
  unfolding read_manifest_def
  by (rule gets_seq [OF gets_marker], rule gets_seq [OF gets_insist], simp add: marker_fields del: u_Cons, simp, rule gets_seq [OF gets_manifest])
    (auto intro: gets_result split: prod.splits)

lemma gets_deployment: "gets (current_deployment_identity sample_restorer)
    (\<lambda>d. d = [(u ''source_commit'', JStr (replicate 40 48)), (u ''images'', current_images sample_builder), (u ''config_hashes'', JObj [(u ''c'', JStr zeros)])])"
proof -
  have commit: "environment sample_builder ''SOURCE_COMMIT'' = replicate 40 48" by (simp add: environment_def sample_environ_def)
  have hex: "hex_text 40 (replicate 40 48)" by (simp add: hex_text_def list_all_iff is_hex_def is_digit_def)
  have images: "list_all (\<lambda>(n, x). pinned (environment sample_builder x)) image_variables"
    by (simp add: image_variables_def environment_def sample_environ_def sample_image_def pinned_def starts_with_def)
  show ?thesis
    unfolding current_deployment_identity_def Let_def current_config_hashes_def restorer_fields same_questions restore_builder_fields commit
    by (rule gets_seq [OF gets_insist], use hex images in simp, rule gets_seq [where X = "\<lambda>x. x = [(u ''c'', JStr zeros)]"], rule gets_locally, rule comes_once,
        rule comes_entry, rule refl, simp only:, rule gets_done, rule refl)
qed

lemma gets_validate_deployment: "gets (validate_deployment sample_restorer restore_manifest) (\<lambda>_. True)"
proof -
  have same: "py_eq (current_images sample_builder) (current_images sample_builder)"
    by (simp add: current_images_def image_variables_def del: u_Cons)
  show ?thesis
    unfolding validate_deployment_def
    by (rule gets_seq [OF gets_deployment], rule gets_result [where x = "()"])
      (simp_all add: returns restore_manifest_fields restore_fields jget_Cons same del: u_Cons)
qed

lemma gets_tools: "gets (tool_versions sample_restorer restore_manifest) (\<lambda>_. True)"
proof -
  have texts: "tool_text sample_restorer restore_manifest k = Inr (sample_tool k)" if "k \<in> {''pg_dump'', ''age'', ''rclone''}" for k
    using that by (auto simp: tool_text_def need_def sub_def restore_manifest_fields sample_tools_def andthen_def simp del: u_Cons)
  have starts: "starts_with (u ''pg_dump (PostgreSQL) 16.'') (sample_tool ''pg_dump'')" "starts_with (u ''rclone v1.74.1'') (sample_tool ''rclone'')"
    "starts_with (u ''rclone v1.74.1'') (u ''rclone v1.74.1'')" "occurs (u ''PostgreSQL) 16.'') (u ''pg_restore (PostgreSQL) 16.9'')"
    by (simp_all add: sample_tool_def starts_with_def)
  show ?thesis
    unfolding tool_versions_def
    apply (rule gets_seq [OF gets_result [where x = "()" and X = "\<lambda>_. True"]], simp add: texts starts andthen_def demand_def del: u_Cons, simp)
    apply (rule gets_seq [OF gets_perform [where x = "sample_tool ''age''" and X = "\<lambda>x. x = sample_tool ''age''"]], simp, simp)
    apply (rule gets_seq [OF gets_result [where x = "()" and X = "\<lambda>_. True"]], simp add: texts andthen_def demand_def del: u_Cons, simp)
    apply (rule gets_seq [OF gets_perform [where x = "(0, u ''pg_restore (PostgreSQL) 16.9'')" and X = "\<lambda>x. x = (0, u ''pg_restore (PostgreSQL) 16.9'')"]],
        simp del: u_Cons, simp)
    apply (simp only: prod.case, rule gets_seq [OF gets_insist], simp add: starts del: u_Cons)
    apply (rule gets_seq [OF gets_perform [where x = "(0, u ''rclone v1.74.1'')" and X = "\<lambda>x. x = (0, u ''rclone v1.74.1'')"]], simp del: u_Cons, simp)
    apply (simp only: prod.case, rule gets_seq [OF gets_insist], simp)
    apply (rule gets_result [where x = "()"], simp_all add: texts starts andthen_def demand_def del: u_Cons)
    done
qed

lemma sample_elems: "elems (jget restore_manifest ''objects'') = point_objects sample_builder sample_facts" "elems (jget restore_manifest ''files'') = [item_json sample_item]"
  by (simp_all add: restore_fields)

lemma gets_cache: "gets (require_cache_capacity sample_restorer b restore_manifest) (\<lambda>_. True)"
proof -
  have missing: "gets (cipher_missing sample_restorer b v acc) (\<lambda>x. x = 0)" if "v \<in> set (point_objects sample_builder sample_facts)" "acc = 0" for v acc
    unfolding cipher_missing_def Let_def
    apply (rule gets_seq [OF gets_result [where x = "(1, zeros)" and X = "\<lambda>x. x = (1, zeros)"]], simp add: sizes_digest that, simp)
    apply (rule gets_seq [OF gets_inquire(2)], rule gets_seq [OF gets_insist], simp, rule gets_seq [OF gets_inquire(3)])
    apply (rule gets_seq [where X = "\<lambda>x. x = (1, zeros)"], simp add: gets_hash, simp add: gets_done that)
    done
  show ?thesis
    unfolding require_cache_capacity_def sample_elems
    by (rule gets_seq [OF gets_loop [where J = "\<lambda>x. x = 0"]], rule missing, assumption, assumption, simp,
        rule gets_seq [OF gets_perform [where x = 1000 and X = "\<lambda>x. x = 1000"]], simp, simp, rule gets_insist, simp)
qed

lemma gets_regular: "gets (irregular sample_restorer p) (\<lambda>x. \<not> x)" "gets (holds_file sample_restorer p (1, zeros)) (\<lambda>x. x)"
proof -
  show "gets (irregular sample_restorer p) (\<lambda>x. \<not> x)"
    unfolding irregular_def
    by (rule gets_seq [OF gets_inquire(2)], simp only: if_False, rule gets_seq [OF gets_inquire(1)], simp add: gets_done)
  show "gets (holds_file sample_restorer p (1, zeros)) (\<lambda>x. x)"
    unfolding holds_file_def by (rule gets_seq [OF gets_inquire(3)], simp only: not_True_eq_False if_False, rule gets_seq [OF gets_hash], rule gets_result, simp, simp)
qed

lemma sample_parts: "path_parts (text_or_empty env (items (item_json sample_item)) ''path'') = [u ''files'', u ''00'', u ''00'', zeros @ u ''.pdf'']"
  by (simp add: path_parts_def item_json_def sample_item_def text_or_empty_def sample_path_facts)

lemma gets_target: "gets (require_target_capacity sample_restorer restore_manifest) (\<lambda>_. True)"
proof -
  have digest: "gets (result (size_digest sample_restorer (item_json sample_item) ''size'' ''sha256'')) (\<lambda>x. x = (1, zeros))"
    by (rule gets_result [where x = "(1, zeros)"]) (simp_all add: sizes_digest)
  have parent: "gets (parent_check sample_restorer p missing) (\<lambda>x. length x \<le> Suc (length missing))" for p missing
    unfolding parent_check_def
    apply (rule gets_seq [OF gets_inquire(2)], rule gets_seq [where X = "\<lambda>x. \<not> x"], simp only: if_False)
     apply (rule gets_seq [OF gets_inquire(1)], simp add: gets_done, rule gets_seq [OF gets_insist], simp, rule gets_seq [OF gets_inquire(1)], rule gets_done, simp)
    done
  have need: "gets (target_requirement sample_restorer v acc) (\<lambda>x. fst x = (0, 0) \<and> length (snd x) \<le> 3)" if "v = item_json sample_item" "acc = ((0, 0), [])" for v acc
  proof -
    have steps: "[1..<length [u ''files'', u ''00'', u ''00'', zeros @ u ''.pdf'']] = [1, 2, 3]" by (simp add: upt_rec)
    show ?thesis
      unfolding target_requirement_def Let_def that sample_parts steps list.map loop.simps
      apply (rule gets_seq [where X = "\<lambda>x. length x \<le> 3"])
       apply (rule gets_seq [OF parent], rule gets_seq [OF parent], rule gets_seq [OF parent], rule gets_done, simp)
      apply (rule gets_seq [OF gets_regular(1)], rule gets_seq [OF gets_insist], simp, rule gets_seq [OF digest], simp only:, rule gets_seq [OF gets_regular(2)])
      apply (rule gets_result, simp, simp)
      done
  qed
  have again: "gets (reclaimable sample_restorer v acc) (\<lambda>x. x = (0, 0))" if "v = item_json sample_item" "acc = (0, 0)" for v acc
    unfolding reclaimable_def Let_def that sample_parts
    apply (rule gets_seq [OF gets_result [where X = "\<lambda>_. True"]], simp add: temporary_of_def del: u_Cons, simp)
    apply (rule gets_seq [OF gets_regular(1)], rule gets_seq [OF gets_insist], simp, rule gets_seq [OF digest], simp only:, rule gets_seq [OF gets_regular(2)])
    apply (simp add: gets_done)
    done
  show ?thesis
    unfolding require_target_capacity_def target_requirements_def sample_elems
    apply (rule gets_seq [where X = "\<lambda>x. fst x = 0 \<and> snd x \<le> 3"], simp only: loop.simps)
     apply (rule gets_seq, rule gets_seq [OF need [OF refl refl]], simp only: loop.simps, rule gets_done, assumption, simp only: split_beta, rule gets_done, simp)
    apply (simp only: split_beta, rule gets_seq [OF gets_loop [where J = "\<lambda>x. x = (0, 0)"]], rule again, simp, assumption, simp)
    apply (simp only: prod.case, rule gets_seq [OF gets_perform [where x = 1000 and X = "\<lambda>x. x = 1000"]], simp, simp, rule gets_seq [OF gets_insist], simp)
    apply (rule gets_seq [OF gets_perform [where x = 1000 and X = "\<lambda>x. x = 1000"]], simp, simp, rule gets_insist, simp)
    done
qed

lemma gets_object:
  assumes "v \<in> set (point_objects sample_builder sample_facts)"
  shows "gets (verify_object sample_restorer b restore_manifest v acc) (\<lambda>_. True)"
proof -
  have archive: "gets (validate_config_archive sample_restorer p restore_manifest) (\<lambda>_. True)" for p
    unfolding validate_config_archive_def
    by (rule gets_seq [OF gets_open], rule gets_result [where x = "()"])
      (simp_all add: restore_fields andthen_def climbs_def starts_with_def demand_def)
  show ?thesis
    unfolding verify_object_def
    apply (rule gets_seq [OF gets_result [where x = "(1, zeros)" and X = "\<lambda>x. x = (1, zeros)"]], simp add: sizes_digest assms, simp)
    apply (simp only:, rule gets_seq [OF gets_download])
    apply (rule gets_seq [OF gets_observe [OF gets_perform [where x = "(1, zeros)" and X = "\<lambda>x. x = (1, zeros)"]]], simp, simp)
    apply (rule gets_seq [OF gets_result [where x = "(1, zeros)" and X = "\<lambda>x. x = (1, zeros)"]], simp add: sizes_digest assms, simp)
    apply (rule gets_seq [OF gets_insist], simp, simp add: archive gets_done)
    done
qed

text \<open>From a declared restore, each operation reaches the next stage.\<close>

lemma leads_declare: "leads (declare_restore sample_restorer sample_id) 0 0 {}"
proof -
  have "sample_at 0 s \<Longrightarrow> \<exists>c. declare_restore sample_restorer sample_id s = (Inr c, s)" for s
    using sample_read [of 0 s] sample_point_ok
    by (auto simp: declare_restore_def seq_def result_def validate_backup_id_def demand_def sample_guard_def stored_def)
  then show ?thesis unfolding leads_def by fastforce
qed

lemma leads_preflight: "leads (preflight sample_restorer sample_id) 0 1 {}"
  unfolding preflight_def Let_def
  apply (rule leads_seq [OF leads_declare], rule leads_after [OF gets_inject], simp add: RESTORE_FAILURE_STAGES_def)
  apply (rule leads_after [OF gets_marker], rule leads_after [where X = "\<lambda>_. True"], simp add: gets_done)
  apply (rule leads_after [OF gets_insist], simp add: marker_fields del: u_Cons, rule leads_after [OF gets_insist], simp add: marker_fields del: u_Cons)
  apply (simp only: items.simps, rule leads_after [OF gets_manifest], simp only: split_beta)
  apply (rule leads_after [OF gets_result [where x = "()" and X = "\<lambda>_. True"]])
    apply (simp add: manifest_identity_def returns restore_fields current_images_def image_variables_def environment_def sample_environ_def sample_image_def pinned_def
      starts_with_def, simp)
  apply (rule leads_after [OF gets_validate_deployment], rule leads_after [OF gets_tools], rule leads_after [OF gets_cache], rule leads_after [OF gets_target])
  apply (rule leads_after [OF gets_inject], simp add: RESTORE_FAILURE_STAGES_def)
  apply (rule leads_after [OF gets_loop [where J = "\<lambda>_. True"]], simp only: sample_elems, rule gets_object, assumption, simp)
  apply (rule leads_after [OF gets_inquire(1)], rule leads_after [where X = "\<lambda>_. True"], simp add: gets_def perform_def)
  apply (rule leads_stage, simp only: if_False, rule leads_seq [OF leads_next [where n = 1]], simp, simp, simp add: STAGE_ORDER_def, rule leads_result, simp_all only: stage_ranks)
  done

lemma leads_retain: "leads (retain_site sample_restorer sample_id) 1 2 {}"
proof -
  have clear: "gets (clear_site_path sample_restorer p acc) (\<lambda>_. True)" for p acc
    unfolding clear_site_path_def by (rule gets_seq [OF gets_inquire(1)], simp add: gets_done)
  have seal: "gets (retain_bytes sample_restorer x p) (\<lambda>x. x = (1, zeros))" for x p
    unfolding retain_bytes_def by (rule gets_observe, rule gets_perform [where x = "(1, zeros)"], simp, simp)
  have objects: "gets (retain_objects sample_restorer sample_id) (\<lambda>_. True)"
    unfolding retain_objects_def Let_def
    apply (rule gets_seq [OF gets_inject], simp add: RESTORE_FAILURE_STAGES_def)
    apply (rule gets_seq [OF gets_observe [OF gets_perform [where x = "((1, zeros), (1, zeros))" and X = "\<lambda>x. x = ((1, zeros), (1, zeros))"]]], simp, simp)
    apply (simp only: restorer_fields restore_builder_fields same_questions, rule gets_seq [OF gets_locally [OF comes_inventory, where X = "\<lambda>_. True"]], simp)
    apply (rule gets_seq [OF seal], rule gets_seq [OF gets_deployment], rule gets_seq [OF gets_now], rule gets_seq [OF seal])
    apply (rule gets_seq [OF gets_loop [where J = "\<lambda>_. True"]])
      apply (simp only: site_check_def, rule gets_seq [OF gets_hash], rule gets_insist, auto)[1]
     apply simp
    apply (rule gets_seq [OF gets_perform [where x = "()" and X = "\<lambda>_. True"]], simp, simp, rule gets_event)
    done
  show ?thesis
    unfolding retain_site_def
    apply (rule leads_stage, simp only: if_False, rule leads_requires, rule leads_after [OF gets_loop [where J = "\<lambda>_. True"]], rule clear, simp)
        apply (rule leads_after [OF gets_perform [where x = "()" and X = "\<lambda>_. True"]], simp, simp, rule leads_after [OF gets_discarding [OF objects]])
        apply (rule leads_next, simp, simp, simp add: STAGE_ORDER_def, simp add: STAGE_ORDER_def, simp_all only: stage_ranks)
    done
qed

lemma leads_load: "leads (load_database sample_restorer b p) k k {Db_From b p}"
  unfolding load_database_def
  by (rule leads_seq [OF leads_event], rule leads_after [OF gets_perform [where x = "()" and X = "\<lambda>_. True"]], simp, simp)
    (auto simp: leads_def log_event_def sample_at_def stored_def)

lemma sample_database_object: "\<exists>v. object_named restore_manifest (u ''database'') = Some v"
  by (simp add: object_named_def sample_elems point_objects_def part_object_def jget_Cons del: u_Cons)

lemma leads_database: "\<exists>p. leads (restore_database sample_restorer sample_id) 2 3 {Db_From sample_id p}"
proof -
  obtain v where v: "object_named restore_manifest (u ''database'') = Some v" using sample_database_object by blast
  show ?thesis
    unfolding restore_database_def
    apply (rule exI, rule leads_stage, simp only: if_False, rule leads_requires, rule leads_after [OF gets_inject], simp add: RESTORE_FAILURE_STAGES_def)
        apply (rule leads_after [OF gets_read_manifest], simp only: v option.case, rule leads_seq [OF leads_load])
        apply (rule leads_next, simp, simp, simp add: STAGE_ORDER_def, simp add: STAGE_ORDER_def, simp_all only: stage_ranks)
    done
qed

lemma leads_files: "leads (restore_files sample_restorer sample_id) 3 4 {}"
proof -
  have present: "gets (restore_file sample_restorer b restore_manifest v acc) (\<lambda>_. True)" if "v = item_json sample_item" for b v acc
    unfolding restore_file_def Let_def that
    apply (rule gets_seq [OF gets_inject], simp add: RESTORE_FAILURE_STAGES_def)
    apply (rule gets_seq [OF gets_result [where x = "(1, zeros)" and X = "\<lambda>x. x = (1, zeros)"]], simp add: sizes_digest, simp)
    apply (simp only:, rule gets_seq [OF gets_regular(2)], simp only: if_True, rule gets_done, rule TrueI)
    done
  show ?thesis
    unfolding restore_files_def
    apply (rule leads_stage, simp only: if_False, rule leads_requires, rule leads_after [OF gets_inject], simp add: RESTORE_FAILURE_STAGES_def)
        apply (rule leads_after [OF gets_read_manifest], simp only: sample_elems, rule leads_after [OF gets_loop [where J = "\<lambda>_. True"]], rule present, simp, simp)
        apply (rule leads_next, simp, simp, simp add: STAGE_ORDER_def, simp add: STAGE_ORDER_def, simp_all only: stage_ranks)
    done
qed

lemma leads_offline: "leads (offline_validate sample_restorer sample_id) 4 5 {}"
proof -
  have hashed: "gets (validate_file sample_restorer v acc) (\<lambda>_. True)" if "v = item_json sample_item" for v acc
    unfolding validate_file_def Let_def that
    apply (rule gets_seq [OF gets_result [where x = "(1, zeros)" and X = "\<lambda>x. x = (1, zeros)"]], simp add: sizes_digest, simp)
    apply (simp only:, rule gets_seq [OF gets_regular(2)], rule gets_insist)
    apply simp
    done
  have assertions: "gets (restore_assertions sample_restorer) (\<lambda>a. a = sample_assertions)"
    unfolding restore_assertions_def restorer_fields same_questions by (rule gets_observe, rule gets_locally [OF comes_assertions], rule refl)
  have same: "py_eq (JObj sample_assertions) (JObj sample_assertions)" by (simp add: sample_assertions_def tables_def del: u_Cons)
  have psql: "gets (observe (perform (bh_psql (re_base sample_restorer) q)) ev) (\<lambda>x. x = u ''0'')" for q ev
    by (rule gets_observe, rule gets_perform [where x = "u ''0''"], simp del: u_Cons, simp)
  have zero: "utf8 (u ''0'') = [48]" by code_simp
  have references: "gets (database_file_references sample_restorer) (\<lambda>x. x = [restore_reference])"
    unfolding database_file_references_def
    by (rule gets_seq [OF psql], rule gets_result [where x = "[restore_reference]"])
      (simp_all add: references_of_def zero restore_loads_def restore_reference_def del: u_Cons)
  have valid: "validate_references (identity_of_path sample_restorer restore_manifest) [] [restore_reference] = Inr ()"
  proof -
    have path: "text_of (jget (items restore_reference) ''storage_path'') = reference_path zeros" "u ''files/'' @ reference_path zeros = sample_path"
      "jget (items restore_reference) ''storage_path'' = JStr (reference_path zeros)" "jget (items restore_reference) ''sha256'' = JStr zeros"
      "jget (items restore_reference) ''size_bytes'' = JInt 1"
      by (simp_all add: restore_reference_def jget_Cons reference_path_def sample_path_def numeral_eq_Suc del: u_Cons) (simp add: numeral_eq_Suc)
    have "split_on 47 (reference_path zeros) = [u ''00'', u ''00'', zeros @ u ''.pdf'']" "reference_path zeros \<noteq> []" "\<not> starts_with (u ''/'') (reference_path zeros)"
      by code_simp+
    then have "identity_ok (items restore_reference)"
      using zeros_hex(1) by (simp add: identity_ok_def path climbs_def SHA256_def del: u_Cons) simp
    moreover have "identity_of_path sample_restorer restore_manifest sample_path = Some (1, zeros)"
      by (simp add: identity_of_path_def sample_elems sizes_digest) (simp add: item_json_def sample_item_def text_or_empty_def)
    ultimately show ?thesis by (simp add: path Let_def andthen_def demand_def checks.simps del: u_Cons)
  qed
  show ?thesis
    unfolding offline_validate_def
    apply (rule leads_stage, simp only: if_False, rule leads_requires, rule leads_after [OF gets_inject], simp add: RESTORE_FAILURE_STAGES_def)
        apply (rule leads_after [OF gets_read_manifest], simp only: sample_elems, rule leads_after [OF gets_loop [where J = "\<lambda>_. True"]], rule hashed, simp, simp)
        apply (rule leads_after [OF assertions], rule leads_after [OF gets_result [where x = "()" and X = "\<lambda>_. True"]])
          apply (simp add: need_def restore_manifest_fields andthen_def same demand_def del: u_Cons py_eq.simps, simp)
        apply (rule leads_after [OF references], rule leads_after [where X = "\<lambda>_. True"])
         apply (simp only: validate_database_file_references_def sample_elems, rule gets_seq [OF gets_loop [where J = "\<lambda>_. True"]])
           apply (simp only: manifest_sizes_def, rule gets_result [where x = "()"], simp add: sizes_digest passed_def andthen_def, simp, simp)
         apply (simp only: valid, rule gets_done, rule TrueI)
        apply (rule leads_after [OF psql], rule leads_after [OF gets_insist], simp)
        apply (rule leads_seq [OF leads_next [where n = 5]], simp, simp, simp add: STAGE_ORDER_def, rule leads_result, simp add: STAGE_ORDER_def, simp_all only: stage_ranks)
    done
qed

lemma leads_functional: "leads (record_functional_validation sample_restorer sample_id evidence) 5 6 {}"
proof -
  have read: "gets (perform (bh_local_read (re_base sample_restorer) evidence)) (\<lambda>x. x = [])" by (rule gets_perform [where x = "[]"], simp, simp)
  show ?thesis
    unfolding record_functional_validation_def
    apply (rule leads_stage, simp only: if_False, rule leads_requires, rule leads_after [OF gets_inject], simp add: RESTORE_FAILURE_STAGES_def)
        apply (rule leads_after [OF gets_translating [OF gets_seq [OF gets_observe [OF read] gets_result [where x = "JObj restore_evidence" and X = "\<lambda>x. x = JObj restore_evidence"]]]])
          apply (simp add: restore_loads_def, simp)
        apply (rule leads_after [OF gets_result [where x = "()" and X = "\<lambda>_. True"]])
          apply (simp add: evidence_checks_def restore_evidence_def functional_checks_def jget_Cons demand_def del: u_Cons, simp)
        apply (rule leads_after [OF read], rule leads_next, simp, simp, simp add: STAGE_ORDER_def, simp add: STAGE_ORDER_def, simp_all only: stage_ranks)
    done
qed

lemma leads_proxy: "leads (authorize_proxy sample_restorer sample_id) 6 7 {}"
  unfolding authorize_proxy_def
  apply (rule leads_stage, simp only: if_False, rule leads_requires, rule leads_after [OF gets_inject], simp add: RESTORE_FAILURE_STAGES_def)
      apply (rule leads_next, simp, simp, simp add: STAGE_ORDER_def, simp add: STAGE_ORDER_def, simp_all only: stage_ranks)
  done

lemma sample_operation_id: "operation_id sample_restorer = zeros"
  by (simp add: operation_id_def Let_def)

lemma gets_publish:
  assumes "valid_datetime now"
  shows "gets (publish_proof sample_restorer sample_id (verification_document sample_restorer sample_id c m now)) (\<lambda>_. True)"
proof -
  have named: "strip (u ''e1'') \<noteq> []" by (simp add: text_eval)
  have "\<exists>d. authenticate_restore_verification (bb_env restore_builder) (verification_document sample_restorer sample_id c m now) sample_key (u ''k1'') = Inr d"
    using assms sample_point_ok zeros_hex sample_key_names named
    by (simp add: authenticate_restore_verification_def validate_restore_verification_unsigned_def verification_document_def returns keys_are_def jget_Cons text_or_empty_def
        validate_backup_id_def canonical_timestamp_def parse_format sample_operation_id del: u_Cons)
  then obtain d where d: "authenticate_restore_verification (bb_env restore_builder) (verification_document sample_restorer sample_id c m now) sample_key (u ''k1'') = Inr d"
    by blast
  show ?thesis
    unfolding publish_proof_def restorer_fields d
    by (rule gets_seq [OF gets_done [where X = "\<lambda>_. True"]], simp, rule gets_seq [OF gets_event], rule gets_perform [where x = "()"], simp, simp)
qed

lemma leads_read:
  assumes "\<And>c. document_of sample_restorer sample_id (JObj c) \<Longrightarrow> leads (f c) k k' E" "k \<le> 8"
  shows "leads (seq (read_state sample_restorer sample_id) f) k k' E"
  unfolding leads_def
proof (intro allI impI)
  fix s
  assume s: "sample_at k s"
  from sample_read [OF this assms(2)] obtain c where "read_state sample_restorer sample_id s = (Inr c, s)" "document_of sample_restorer sample_id (JObj c)" by blast
  with assms(1) [of c] s show "\<exists>x t. seq (read_state sample_restorer sample_id) f s = (Inr x, t) \<and> sample_at k' t \<and> set (rs_log s) \<subseteq> set (rs_log t) \<and> E \<subseteq> set (rs_log t)"
    unfolding leads_def by (auto simp: seq_def)
qed

lemma leads_ready: "leads (external_ready sample_restorer sample_id) 7 8 {}"
proof -
  have time: "0 \<le> seconds_between (DateTime 2026 8 3 2 0 k 0) (DateTime 2026 8 3 2 0 0 0)"
    "seconds_between (DateTime 2026 8 3 2 0 k 0) (DateTime 2026 8 3 2 0 0 0) \<le> 14400" "valid_datetime (DateTime 2026 8 3 2 0 k 0)" if "k < 60" for k
    using that by (simp_all add: seconds_between_def Let_def microseconds_def valid_datetime_def days_in_month_def to_ordinal_def)
  have start: "declared_at sample_restorer c = Inr (DateTime 2026 8 3 2 0 0 0)" if "document_of sample_restorer sample_id (JObj c)" for c
    using that by (auto simp: document_of_def declared_at_def jget_def split: option.splits)
  have history: "gets (result (need c ''history'')) (\<lambda>_. True)" if "document_of sample_restorer sample_id (JObj c)" for c
    using that by (auto simp: document_of_def need_def jget_def gets_def result_def split: option.splits)
  have elapsed: "leads (elapsed_now sample_restorer sample_id c) 7 8 {}" if c: "document_of sample_restorer sample_id (JObj c)" for c
    unfolding elapsed_now_def Let_def start [OF c]
    apply (rule leads_after [OF gets_now], rule leads_after [OF gets_done [where X = "\<lambda>x. x = DateTime 2026 8 3 2 0 0 0"]], rule refl)
    apply (rule leads_after [OF gets_insist], use time in blast, rule leads_after [OF gets_insist], use time in auto, rule leads_seq [OF leads_next [where n = 8]])
       apply (simp_all add: STAGE_ORDER_def leads_result)
    done
  show ?thesis
    unfolding external_ready_def
    apply (rule leads_stage, simp only: if_False, rule leads_requires, rule leads_read, rule leads_seq [OF elapsed], assumption, rule leads_read)
           apply (rule leads_after [OF gets_read_manifest], rule leads_after [OF gets_now], elim exE conjE, simp only:)
           apply (rule leads_after [OF history], assumption, rule leads_after [where X = "\<lambda>_. True"], simp add: gets_done)
           apply (rule leads_after [OF gets_perform [where x = False and X = "\<lambda>x. x = False"]], simp, simp, simp only: if_False)
           apply (rule leads_after [OF gets_publish], simp add: time, rule leads_result, simp, simp, simp add: STAGE_ORDER_def, simp_all only: stage_ranks)
    done
qed

section \<open>The run\<close>

lemma sample_declared: "sample_at 0 (snd (perform_operation sample_restorer Declare sample_id \<lparr>rs_host = 0, rs_checks = Map.empty, rs_log = []\<rparr>))"
proof -
  define c where "c = canonical (JObj (new_declaration sample_restorer sample_id (DateTime 2026 8 3 2 0 0 0)))"
  have guard: "rg_backup sample_guard = sample_id" "re_base sample_restorer = bb_host restore_builder" by (simp_all add: sample_guard_def)
  have "rs_checks (snd (perform_operation sample_restorer Declare sample_id \<lparr>rs_host = 0, rs_checks = Map.empty, rs_log = []\<rparr>)) = [sample_id \<mapsto> Inr c]"
    using sample_point_ok
    by (simp add: unit_of_def declare_restore_def seq_def result_def validate_backup_id_def demand_def guard read_clock_def observe_def perform_def log_event_def
        write_state_def Let_def c_def del: canonical.simps)
  moreover have j: "jget (items c) k = canonical (jget (new_declaration sample_restorer sample_id (DateTime 2026 8 3 2 0 0 0)) k)" for k
    unfolding c_def by (rule jget_canonical)
  have "history_stages c = []" unfolding history_stages_def j by (simp add: new_declaration_def jget_Cons del: u_Cons)
  moreover have "c = JObj (items c)" by (simp add: c_def)
  moreover have "document_of sample_restorer sample_id c" "jget (items c) ''stage'' = stage_text ''declared''"
    unfolding document_of_def j by (simp_all add: new_declaration_def jget_Cons c_def del: u_Cons)
  ultimately show ?thesis by (auto simp: sample_at_def stored_def STAGE_ORDER_def simp del: perform_operation.simps intro!: exI [of _ "items c"])
qed

lemma leads_unit: "leads m k k' E \<Longrightarrow> leads (unit_of m) k k' E"
  unfolding unit_of_def by (erule leads_seq) (rule leads_result)

definition reached_with :: "nat \<Rightarrow> sevent set \<Rightarrow> nat rstate \<Rightarrow> bool" where
  "reached_with k F s \<longleftrightarrow> reaches sample_restorer s \<and> sample_at k s \<and> F \<subseteq> set (rs_log s)"

lemma reached_next:
  assumes "reached_with k F s" "leads (perform_operation sample_restorer opn sample_id) k k' E"
  shows "\<exists>t. reached_with k' (F \<union> E) t"
proof -
  obtain x t where t: "perform_operation sample_restorer opn sample_id s = (Inr x, t)" "sample_at k' t" "set (rs_log s) \<subseteq> set (rs_log t)" "E \<subseteq> set (rs_log t)"
    using assms unfolding reached_with_def leads_def by blast
  have "reaches sample_restorer (snd (perform_operation sample_restorer opn sample_id s))"
    using assms(1) unfolding reached_with_def by (intro reaches.operation) simp
  then show ?thesis using t assms(1) unfolding reached_with_def by (intro exI [of _ t]) auto
qed

lemma reached_succeeds: "reached_with k F s \<Longrightarrow> leads m k k' E \<Longrightarrow> \<exists>x t. m s = (Inr x, t)"
  unfolding reached_with_def leads_def by (elim conjE allE impE, assumption) blast

text \<open>Up to the proxy, and with the database restored on the way.\<close>

lemma sample_restored: "\<exists>s p. reached_with 4 {Db_From sample_id p} s"
proof -
  obtain p where p: "leads (restore_database sample_restorer sample_id) 2 3 {Db_From sample_id p}" using leads_database by blast
  have "\<exists>s. reached_with 0 {} s"
    using sample_declared reaches.operation [OF reaches.empty, of sample_restorer Declare sample_id 0] unfolding reached_with_def by blast
  then have "\<exists>s. reached_with 1 {} s" using reached_next [of 0 "{}" _ Preflight 1 "{}"] leads_unit [OF leads_preflight] by auto
  then have "\<exists>s. reached_with 2 {} s" using reached_next [of 1 "{}" _ Retain 2 "{}"] leads_retain by auto
  then have "\<exists>s. reached_with 3 {Db_From sample_id p} s" using reached_next [of 2 "{}" _ Load_Database 3] p by fastforce
  then have "\<exists>s. reached_with 4 {Db_From sample_id p} s" using reached_next [of 3 "{Db_From sample_id p}" _ Load_Files 4 "{}"] leads_files by auto
  then show ?thesis by blast
qed

lemma sample_restore_run: "\<exists>s p. reached_with 6 {Db_From sample_id p} s"
proof -
  obtain p where "\<exists>s. reached_with 4 {Db_From sample_id p} s" using sample_restored by blast
  then have "\<exists>s. reached_with 5 {Db_From sample_id p} s" using reached_next [of 4 "{Db_From sample_id p}" _ Validate 5 "{}"] leads_unit [OF leads_offline] by auto
  then have "\<exists>s. reached_with 6 {Db_From sample_id p} s"
    using reached_next [of 5 "{Db_From sample_id p}" _ "Functional (u ''/e'')" 6 "{}"] leads_functional by auto
  then show ?thesis by blast
qed

lemma sample_opens: "reached_with 6 F s \<Longrightarrow> \<exists>t. authorize_proxy sample_restorer sample_id s = (Inr (), t) \<and> reached_with 7 F t"
proof -
  assume s: "reached_with 6 F s"
  then obtain x t where t: "authorize_proxy sample_restorer sample_id s = (Inr x, t)" "sample_at 7 t" "set (rs_log s) \<subseteq> set (rs_log t)"
    using leads_proxy unfolding reached_with_def leads_def by blast
  have "reaches sample_restorer (snd (perform_operation sample_restorer Open_Proxy sample_id s))"
    using s unfolding reached_with_def by (intro reaches.operation) simp
  then show ?thesis using s t unfolding reached_with_def by auto
qed

text \<open>And to the external readiness.\<close>

lemma sample_ready: "reached_with 7 F s \<Longrightarrow> \<exists>t. reached_with 8 F t"
  using reached_next [of 7 F s Ready 8 "{}"] leads_unit [OF leads_ready] by simp

lemma sample_checkpoint: "reached_with k F s \<Longrightarrow> \<exists>v. rs_checks s sample_id = Some (Inr v) \<and> jget (items v) ''stage'' = stage_text (STAGE_ORDER ! k)"
  unfolding reached_with_def sample_at_def stored_def by fastforce

end
