(* ===== verification/Bk_Recovered.thy ===== *)
theory Bk_Recovered
  imports Bk_Run
begin

text \<open>
  What holds of every restore: its stages were earned in order, the proxy opens on a validated site only, nothing is changed before the site is retained, an operation
  never undoes a record, and a rolled-back restore is over. The proofs rest on \<open>reaches_sound\<close>.
\<close>

section \<open>Stages\<close>

text \<open>C7. in every run, whatever the host answered and wherever operations died, a checkpoint is readable, its stage is one of the ordered ones with exactly the stages
  before it in its history, and every stage up to it was earned in that order: the authenticated manifest with all objects checked, the sealed site, the database, the
  files, the offline validation and the functional evidence. A checkpoint that says rolled back had its site retained and its database loaded from it.\<close>

theorem restore_stages_earned:
  assumes "reaches re s" "rs_checks s b = Some r"
  shows "\<exists>v. r = Inr v \<and>
    ((\<exists>n. n \<le> 8 \<and> jget (items v) ''stage'' = JStr (u (STAGE_ORDER ! n)) \<and> history_stages v = map (\<lambda>x. JStr (u x)) (take n (tl STAGE_ORDER)) \<and> earned re b n (rs_log s))
     \<or> jget (items v) ''stage'' = JStr (u ''rolled_back'') \<and> Site_Kept b \<in> set (rs_log s) \<and> Db_Loaded b (site_root re b @ u ''/database.dump.age'') \<in> set (rs_log s))"
proof -
  have "sound re s" using assms(1) by (rule reaches_sound)
  then obtain v where v: "r = Inr v" "settled re b v (rs_log s)" using assms(2) unfolding sound_def by blast
  moreover have "withdrawn re b v (rs_log s) \<Longrightarrow> Site_Kept b \<in> set (rs_log s)" unfolding withdrawn_def by (auto intro: earned_site)
  ultimately show ?thesis unfolding settled_def progressing_def withdrawn_def by blast
qed

theorem restore_stages_earned_witness:
  "\<exists>s v. reaches sample_restorer s \<and> rs_checks s sample_id = Some (Inr v) \<and> jget (items v) ''stage'' = JStr (u ''external_ready'') \<and> earned sample_restorer sample_id 8 (rs_log s)"
proof -
  obtain s p where s: "reached_with 6 {Db_From sample_id p} s" using sample_restore_run by blast
  then obtain t where t: "reached_with 8 {Db_From sample_id p} t" using sample_opens sample_ready by blast
  then obtain v where v: "rs_checks t sample_id = Some (Inr v)" "jget (items v) ''stage'' = JStr (u (STAGE_ORDER ! 8))" using sample_checkpoint by blast
  have run: "reaches sample_restorer t" using t by (simp add: reached_with_def)
  from restore_stages_earned [OF run v(1)] v(2)
  obtain n where "n \<le> 8" "u (STAGE_ORDER ! n) = u (STAGE_ORDER ! 8)" "earned sample_restorer sample_id n (rs_log t)"
    by (auto simp: STAGE_ORDER_def simp del: u_Cons)
  then have "earned sample_restorer sample_id 8 (rs_log t)" by (metis stage_rank_nth order_refl)
  moreover have "STAGE_ORDER ! 8 = ''external_ready''" by (simp add: STAGE_ORDER_def)
  ultimately show ?thesis using v run by (intro exI [of _ t] exI [of _ v]) simp
qed

section \<open>The proxy\<close>

text \<open>C14. when the authorization of the proxy succeeds, in any run, everything before it was earned in order, from the verified objects to the functional evidence of an
  isolated validation of this very point.\<close>

theorem restore_proxy_gate:
  assumes "reaches re s" "authorize_proxy re b s = (Inr (), t)"
  shows "earned re b 6 (rs_log s)"
proof -
  have sound: "sound re s" using assms(1) by (rule reaches_sound)
  have sure: "Q \<Longrightarrow> wp m (\<lambda>_ _. Q) (\<lambda>_ _. True) w" for Q m w by (simp add: wp_def split: prod.splits sum.splits)
  have "wp (authorize_proxy re b) (\<lambda>_ _. \<exists>n. at_stage re b n s \<and> 6 \<le> n) (\<lambda>_ _. True) s"
    unfolding authorize_proxy_def wp_seq
  proof (rule wp_mono [OF wp_completed [OF sound]])
    fix already t
    assume "t = s \<and> (\<exists>n. at_stage re b n s \<and> (already \<longleftrightarrow> stage_rank (u ''proxy_authorized'') \<le> n))"
    then obtain n where t: "t = s" and n: "at_stage re b n s" "already = (stage_rank (u ''proxy_authorized'') \<le> n)" by blast
    show "wp (if already then result (Inr ()) else seq (requires_stage re b ''isolated_functional_validated'' ''proxy remains blocked until isolated validation passes'')
        (\<lambda>_. seq (restore_inject re ''proxy'') (\<lambda>_. advance_restore re b ''proxy_authorized'' []))) (\<lambda>_ _. \<exists>n. at_stage re b n s \<and> 6 \<le> n) (\<lambda>_ _. True) t"
    proof (cases already)
      case True
      then have "6 \<le> n" using n(2) by (simp only: stage_ranks)
      then show ?thesis using n(1) True by (auto intro: sure)
    next
      case False
      have "at_stage re b (stage_rank (u ''isolated_functional_validated'')) s \<Longrightarrow> \<exists>n. at_stage re b n s \<and> 6 \<le> n" by (simp only: stage_ranks) blast
      then show ?thesis
        unfolding if_not_P [OF False] t wp_seq [of "requires_stage re b st msg" for st msg]
        by (intro wp_mono [OF wp_requires]) (use sound in \<open>simp, simp, blast intro: sure, simp\<close>)
    qed
  qed simp
  then obtain n where n: "at_stage re b n s" "6 \<le> n" using assms(2) by (auto simp: wp_def)
  then have "earned re b n (rs_log s)" by (auto simp: at_stage_def progressing_def split: option.splits)
  then show ?thesis using n(2) by (rule earned_lower)
qed

theorem restore_proxy_gate_witness: "\<exists>s t. reaches sample_restorer s \<and> authorize_proxy sample_restorer sample_id s = (Inr (), t) \<and> earned sample_restorer sample_id 6 (rs_log s)"
proof -
  obtain s p where s: "reached_with 6 {Db_From sample_id p} s" using sample_restore_run by blast
  then obtain t where t: "authorize_proxy sample_restorer sample_id s = (Inr (), t)" using sample_opens by blast
  have run: "reaches sample_restorer s" using s by (simp add: reached_with_def)
  from restore_proxy_gate [OF run t] t run show ?thesis by blast
qed

section \<open>Order of changes\<close>

text \<open>C16. at every moment of every run the database is only touched after the site of the same restore was retained, and a file is only written after that and after a
  load of the database.\<close>

theorem changes_after_site:
  assumes "reaches re s" "rs_log s = A @ e # B"
  shows "case e of Db_From b p \<Rightarrow> Site_Kept b \<in> set A | File_From b c p \<Rightarrow> Site_Kept b \<in> set A \<and> (\<exists>q. Db_Loaded b q \<in> set A) | _ \<Rightarrow> True"
proof -
  have "allowed e (set A)" using reaches_sound [OF assms(1)] assms(2) by (simp add: sound_def guarded_def)
  then show ?thesis by (cases e) simp_all
qed

theorem changes_after_site_witness: "\<exists>s p A B. reaches sample_restorer s \<and> rs_log s = A @ Db_From sample_id p # B \<and> Site_Kept sample_id \<in> set A"
proof -
  obtain s p where s: "reaches sample_restorer s" "Db_From sample_id p \<in> set (rs_log s)" using sample_restore_run by (auto simp: reached_with_def)
  from s(2) obtain A B where log: "rs_log s = A @ Db_From sample_id p # B" by (meson split_list)
  from changes_after_site [OF s(1) log] have "Site_Kept sample_id \<in> set A" by simp
  with log s(1) show ?thesis by blast
qed

section \<open>Records\<close>

text \<open>C27. an operation on any point, succeeding or not, keeps every checkpoint: the time of its declaration stays, and its history is only extended, so no retry
  restarts the recovery clock or undoes a stage.\<close>

theorem operations_extend_checkpoints:
  assumes "reaches re s" "rs_checks s b = Some (Inr v)"
  shows "\<exists>w zs. rs_checks (snd (perform_operation re opn b' s)) b = Some (Inr w) \<and> jget (items w) ''declared_at'' = jget (items v) ''declared_at''
    \<and> history_stages w = history_stages v @ zs"
proof -
  have "ahead s (snd (perform_operation re opn b' s))" using performed [OF reaches_sound [OF assms(1)]] by (simp add: keeps_def)
  with assms(2) show ?thesis unfolding ahead_def by blast
qed

theorem operations_extend_checkpoints_witness:
  "\<exists>s v w zs. reaches sample_restorer s \<and> rs_checks s sample_id = Some (Inr v) \<and> jget (items v) ''stage'' = JStr (u ''external_ready'')
    \<and> rs_checks (snd (perform_operation sample_restorer Roll_Back sample_id s)) sample_id = Some (Inr w) \<and> history_stages w = history_stages v @ zs"
proof -
  obtain s p where "reached_with 6 {Db_From sample_id p} s" using sample_restore_run by blast
  then obtain t where t: "reached_with 8 {Db_From sample_id p} t" using sample_opens sample_ready by blast
  then obtain v where v: "rs_checks t sample_id = Some (Inr v)" "jget (items v) ''stage'' = JStr (u (STAGE_ORDER ! 8))" using sample_checkpoint by blast
  have run: "reaches sample_restorer t" using t by (simp add: reached_with_def)
  from operations_extend_checkpoints [OF run v(1), of Roll_Back sample_id]
  obtain w zs where "rs_checks (snd (perform_operation sample_restorer Roll_Back sample_id t)) sample_id = Some (Inr w)" "history_stages w = history_stages v @ zs"
    by blast
  moreover have "STAGE_ORDER ! 8 = ''external_ready''" by (simp add: STAGE_ORDER_def)
  ultimately show ?thesis using v run by (intro exI [of _ t] exI [of _ v] exI [of _ w] exI [of _ zs]) simp
qed



section \<open>A rolled-back restore\<close>

text \<open>Events by which database or files change.\<close>

fun changing :: "sevent \<Rightarrow> bool" where
  "changing (Db_From b p) = True"
| "changing (File_From b c p) = True"
| "changing e = False"

lemma not_changing: "allowed e {} \<longleftrightarrow> \<not> changing e"
  by (cases e) simp_all

lemma refused_after:
  assumes "went (ok {}) s es t" "asks (ok {}) m P"
    and "\<And>x fs t'. went (ok {}) s (es @ fs) t' \<Longrightarrow> wp (k x) (\<lambda>_ _. False) (\<lambda>_ w. \<exists>es. went (ok {}) s es w) t'"
  shows "wp (seq m k) (\<lambda>_ _. False) (\<lambda>_ w. \<exists>es. went (ok {}) s es w) t"
  unfolding wp_seq
  by (rule wp_mono [OF spec [OF assms(2) [unfolded asks_def]]]) (use assms(1,3) in \<open>blast intro: went_trans\<close>)+

lemma completed_refused:
  assumes "rs_checks s b = Some (Inr v)" "check_state re b v = Inr c" "stage_of c = u ''rolled_back''"
  shows "\<exists>e. completed re b st s = (Inl e, s)"
  using assms by (cases "validate_backup_id b") (auto simp: completed_def read_state_def seq_def result_def demand_def simp del: u_Cons)

lemma seq_refused: "\<exists>e. m s = (Inl e, s) \<Longrightarrow> \<exists>e. seq m k s = (Inl e, s)"
  by (auto simp: seq_def)

lemma declared_already:
  assumes "rs_checks s b = Some r"
  shows "wp (declare_restore re b) (\<lambda>_ t. went A s [] t) (\<lambda>_ t. went A s [] t) s"
  using assms
  by (simp add: wp_def declare_restore_def seq_def result_def read_state_def went_def split: sum.splits prod.splits)

text \<open>C25. once a restore was rolled back, every operation on it except the declaration and another rollback fails, leaves all checkpoints as they are and changes neither
  database nor files. This includes the preflight, which asks for the stage at its end only.\<close>

theorem rolled_back_final:
  assumes "rs_checks s b = Some (Inr v)" "check_state re b v = Inr c" "stage_of c = u ''rolled_back''" "opn \<noteq> Declare" "opn \<noteq> Roll_Back"
  shows "\<exists>e t es. perform_operation re opn b s = (Inl e, t) \<and> rs_checks t = rs_checks s \<and> rs_log t = rs_log s @ es \<and> list_all (\<lambda>e. \<not> changing e) es"
proof -
  have "wp (perform_operation re opn b) (\<lambda>_ _. False) (\<lambda>_ t. \<exists>es. went (ok {}) s es t) s"
  proof (cases "opn = Preflight")
    case True
    have end_refused: "wp (seq (completed re b st) k) (\<lambda>_ _. False) (\<lambda>_ t. \<exists>es. went (ok {}) s es t) t" if "went (ok {}) s es t" for st k es t
      using completed_refused [of t b v re c st] assms(1-3) that by (auto simp: wp_def seq_def went_def split: sum.splits prod.splits)
    have "wp (preflight re b) (\<lambda>_ _. False) (\<lambda>_ t. \<exists>es. went (ok {}) s es t) s"
      unfolding preflight_def wp_seq [of "declare_restore re b"]
      apply (rule wp_mono [OF declared_already [OF assms(1), where A = "ok {}"]])
       apply (rule refused_after, assumption, rule asks_quiet, rule refused_after, assumption, rule asks_completion)
       apply (rule refused_after, assumption, rule asks_if, rule asks_quiet, rule asks_quiet)
       apply (rule refused_after, assumption, rule asks_quiet, rule refused_after, assumption, rule asks_quiet)
       apply (rule refused_after, assumption, rule asks_open_manifest, rule wp_pair)
       apply (rule refused_after, assumption, rule asks_quiet, rule refused_after, assumption, rule asks_deployment, rule refused_after, assumption, rule asks_tools)
       apply (rule refused_after, assumption, rule asks_capacity, rule refused_after, assumption, rule asks_capacity, rule refused_after, assumption, rule asks_quiet)
       apply (rule refused_after, assumption, rule asks_quiet_loop, rule asks_true [OF asks_verify_object])
       apply (unfold Let_def, rule refused_after, assumption, rule asks_quiet, rule refused_after, assumption, rule asks_if, rule asks_quiet, rule asks_quiet)
       apply (rule end_refused, assumption)
      apply blast
      done
    then have "wp (unit_of (preflight re b)) (\<lambda>_ _. False) (\<lambda>_ t. \<exists>es. went (ok {}) s es t) s" unfolding unit_of_def wp_seq by (rule wp_mono) simp_all
    then show ?thesis using True by simp
  next
    case False
    have "\<exists>e. perform_operation re opn b s = (Inl e, s)"
      using False assms(4,5)
      by (cases opn; simp only: perform_operation.simps unit_of_def retain_site_def restore_database_def restore_files_def offline_validate_def
          record_functional_validation_def authorize_proxy_def external_ready_def simp_thms; intro seq_refused completed_refused [OF assms(1-3)])
    then show ?thesis by (auto simp: wp_def went_def intro: exI [of _ "[]"])
  qed
  then show ?thesis by (auto simp: wp_def went_def not_changing split: prod.splits sum.splits)
qed

definition sample_withdrawn :: json where
  "sample_withdrawn = JObj [(u ''backup_id'', JStr sample_id), (u ''operation_id'', JStr zeros), (u ''stage'', JStr (u ''rolled_back'')),
     (u ''declared_at'', JStr (u ''x'')), (u ''history'', JArr [])]"

lemma sample_withdrawn_state: "check_state sample_restorer sample_id sample_withdrawn = Inr (items sample_withdrawn)" "stage_of (items sample_withdrawn) = u ''rolled_back''"
  by (simp_all add: check_state_def sample_withdrawn_def sample_operation_id Let_def jget_Cons STAGE_ORDER_def declared_at_def stage_of_def andthen_def del: u_Cons)

theorem rolled_back_final_witness:
  "\<exists>e t es. perform_operation sample_restorer Open_Proxy sample_id \<lparr>rs_host = 0, rs_checks = [sample_id \<mapsto> Inr sample_withdrawn], rs_log = []\<rparr> = (Inl e, t)
    \<and> rs_log t = es \<and> list_all (\<lambda>e. \<not> changing e) es"
  using rolled_back_final [of "\<lparr>rs_host = 0, rs_checks = [sample_id \<mapsto> Inr sample_withdrawn], rs_log = []\<rparr>" sample_id sample_withdrawn sample_restorer
      "items sample_withdrawn" Open_Proxy] sample_withdrawn_state by fastforce

section \<open>Repeated steps\<close>

text \<open>repeating the retention, the database, the file or the proxy step of a restore that is past it succeeds and does nothing at all: the retained site, the
  database and the files of a completed step are not touched again.\<close>

theorem completed_steps_repeat:
  assumes "rs_checks s b = Some (Inr v)" "check_state re b v = Inr c" "BACKUP_ID b" "stage_rank (stage_of c) = n" "n \<le> 8"
  shows "(2 \<le> n \<longrightarrow> retain_site re b s = (Inr (), s)) \<and> (3 \<le> n \<longrightarrow> restore_database re b s = (Inr (), s)) \<and> (4 \<le> n \<longrightarrow> restore_files re b s = (Inr (), s))
    \<and> (7 \<le> n \<longrightarrow> authorize_proxy re b s = (Inr (), s))"
proof -
  have "stage_of c \<noteq> u ''rolled_back''" using assms(4,5) by (auto simp del: u_Cons)
  then have "completed re b st s = (Inr (stage_rank (u st) \<le> n), s)" for st
    using assms by (simp add: completed_def read_state_def seq_def result_def validate_backup_id_def demand_def andthen_def del: u_Cons)
  then show ?thesis
    by (simp add: retain_site_def restore_database_def restore_files_def authorize_proxy_def seq_def result_def del: u_Cons)
qed

theorem completed_steps_repeat_witness:
  "\<exists>s. reaches sample_restorer s \<and> restore_database sample_restorer sample_id s = (Inr (), s) \<and> authorize_proxy sample_restorer sample_id s = (Inr (), s)"
proof -
  obtain s p where "reached_with 6 {Db_From sample_id p} s" using sample_restore_run by blast
  then obtain t where t: "reached_with 7 {Db_From sample_id p} t" using sample_opens by blast
  then have run: "reaches sample_restorer t" "sample_at 7 t" by (simp_all add: reached_with_def)
  then obtain c where c: "read_state sample_restorer sample_id t = (Inr c, t)" "stored t sample_id c" "stage_of c = u (STAGE_ORDER ! 7)"
    using sample_read [of 7 t] by auto
  have "check_state sample_restorer sample_id (JObj c) = Inr c"
    using c(1,2) sample_point_ok by (simp add: read_state_def seq_def result_def validate_backup_id_def demand_def stored_def)
  moreover have "stage_rank (stage_of c) = 7" using c(3) by simp
  ultimately show ?thesis
    using completed_steps_repeat [of t sample_id "JObj c" sample_restorer c 7] c(2) sample_point_ok(1) run(1) by (auto simp: stored_def)
qed

section \<open>Files of the database\<close>

definition stored_as :: "json \<Rightarrow> ustr" where
  "stored_as v = u ''files/'' @ text_of (jget (items v) ''storage_path'')"

definition identity_of :: "json \<Rightarrow> fingerprint" where
  "identity_of v = (case int_of (jget (items v) ''size_bytes'') of None \<Rightarrow> 0 | Some n \<Rightarrow> n, text_of (jget (items v) ''sha256''))"

lemma references_step:
  "validate_references known seen (v # vs) = Inr () \<longleftrightarrow>
    identity_ok (items v) \<and> text_of (jget (items v) ''storage_path'') = reference_path (text_of (jget (items v) ''sha256'')) \<and> stored_as v \<notin> set seen
    \<and> known (stored_as v) = Some (identity_of v) \<and> validate_references known (stored_as v # seen) vs = Inr ()"
proof -
  have "identity_ok (items v) \<Longrightarrow> jget (items v) ''storage_path'' = JStr p \<longleftrightarrow> text_of (jget (items v) ''storage_path'') = p" for p
    by (auto simp: identity_ok_def elim!: is_str.elims)
  then show ?thesis by (auto simp: returns stored_as_def identity_of_def Let_def simp del: u_Cons)
qed

lemma references_exact:
  "validate_references known seen vs = Inr () \<longleftrightarrow>
    list_all (\<lambda>v. identity_ok (items v) \<and> text_of (jget (items v) ''storage_path'') = reference_path (text_of (jget (items v) ''sha256''))
      \<and> known (stored_as v) = Some (identity_of v) \<and> stored_as v \<notin> set seen) vs \<and> distinct (map stored_as vs)"
  by (induction vs arbitrary: seen) (auto simp: references_step list_all_iff simp del: validate_references.simps(2), (metis image_eqI)+)

text \<open>the references the database reports are accepted exactly when each has a well-formed identity, is stored where its digest says, occurs once, and the manifest
  lists that path with the same size and digest.\<close>

theorem validate_references_exact:
  "validate_references known [] vs = Inr () \<longleftrightarrow>
    list_all (\<lambda>v. identity_ok (items v) \<and> text_of (jget (items v) ''storage_path'') = reference_path (text_of (jget (items v) ''sha256''))
      \<and> known (stored_as v) = Some (identity_of v)) vs \<and> distinct (map stored_as vs)"
  unfolding references_exact by simp

text \<open>What an action logs when it succeeds.\<close>

definition tells :: "('h, 'a) sact \<Rightarrow> ('a \<Rightarrow> sevent set \<Rightarrow> bool) \<Rightarrow> bool" where
  "tells m P \<longleftrightarrow> (\<forall>s. wp m (\<lambda>x t. \<exists>es. rs_log t = rs_log s @ es \<and> P x (set es)) (\<lambda>_ _. True) s)"

lemma tells_asks: "asks A m P \<Longrightarrow> tells m P"
  unfolding asks_def tells_def by (erule all_forward, erule wp_mono) (auto simp: went_def)

lemma tells_weaken: "tells m P \<Longrightarrow> (\<And>x L. P x L \<Longrightarrow> Q x L) \<Longrightarrow> tells m Q"
  unfolding tells_def by (erule all_forward, erule wp_mono) blast+

lemma tells_seq:
  fixes m :: "('h, 'a) sact"
  assumes "tells m P" "\<And>x L. P x L \<Longrightarrow> tells (k x) (\<lambda>y L'. R y (L \<union> L'))"
  shows "tells (seq m k) R"
  unfolding tells_def wp_seq
proof (rule allI, rule wp_mono [OF spec [OF assms(1) [unfolded tells_def]]])
  fix s t :: "'h rstate" and x
  assume "\<exists>es. rs_log t = rs_log s @ es \<and> P x (set es)"
  then obtain es where es: "rs_log t = rs_log s @ es" "P x (set es)" by blast
  from spec [OF assms(2) [OF es(2), unfolded tells_def]]
  show "wp (k x) (\<lambda>y w. \<exists>es. rs_log w = rs_log s @ es \<and> R y (set es)) (\<lambda>_ _. True) t"
    by (rule wp_mono) (use es(1) in \<open>force simp flip: set_append\<close>)+
qed simp

lemma tells_skip: "asks A m (\<lambda>_ _. True) \<Longrightarrow> (\<And>x. tells (k x) R) \<Longrightarrow> (\<And>y L L'. R y L \<Longrightarrow> L \<subseteq> L' \<Longrightarrow> R y L') \<Longrightarrow> tells (seq m k) R"
  by (rule tells_seq [OF tells_asks], assumption, rule tells_weaken, assumption) blast

lemma tells_write: "tells (write_state re b c) (\<lambda>_ L. True)"
  by (auto simp: tells_def wp_def write_state_def Let_def split: prod.splits landing.splits)

lemma tells_advance: "tells (advance_restore re b st details) (\<lambda>_ _. True)"
proof -
  have "asks (ok {}) (if p then result (Inr c) else record_stage re st details c) (\<lambda>_ _. True)" for p c
    unfolding record_stage_def by (intro asking asks_quiet)
  note stage = this
  show ?thesis
    unfolding advance_restore_def
    by (rule tells_skip [OF asks_read_state [where S = "{}"]], rule tells_skip [OF asks_quiet(3) [where S = "{}"]], rule tells_skip [OF asks_quiet(3) [where S = "{}"]],
        rule tells_skip [OF stage], rule tells_write) simp_all
qed

lemma asks_completed: "asks (ok S) (completed re b st) (\<lambda>_ _. True)" "asks (ok S) (requires_stage re b st msg) (\<lambda>_ _. True)"
  unfolding completed_def requires_stage_def by (intro asks_then asks_read_state asks_quiet)+

lemma known_hashed:
  assumes "\<forall>v \<in> set (elems (jget m ''files'')). file_hashed re v L" "identity_of_path re m p = Some x"
  shows "Path_Is (target_path re p) x \<in> L"
proof -
  obtain v where v: "find (\<lambda>v. text_or_empty (re_env re) (items v) ''path'' = p) (rev (elems (jget m ''files''))) = Some v" "size_digest re v ''size'' ''sha256'' = Inr x"
    using assms(2) by (auto simp: identity_of_path_def split: option.splits sum.splits)
  from v(1) have "v \<in> set (rev (elems (jget m ''files'')))" "text_or_empty (re_env re) (items v) ''path'' = p"
    unfolding find_Some_iff by (metis nth_mem)+
  then have "file_hashed re v L" "file_path re v = target_path re p" using assms(1) by (simp_all add: file_path_def)
  then show ?thesis using v(2) by (auto simp: file_hashed_def)
qed

text \<open>C18. after an offline validation, the first or a repeated one, every PDF the database refers to was found at its place among the restored files with the size and the
  digest the database has for it.\<close>

theorem no_dangling_reference:
  assumes "offline_validate re b s = (Inr r, t)"
  shows "\<exists>es p refs. rs_log t = rs_log s @ es \<and> References_Are p \<in> set es \<and> references_of re p = Inr refs
    \<and> list_all (\<lambda>v. Path_Is (target_path re (stored_as v)) (identity_of v) \<in> set es) refs"
proof -
  define found where "found L \<longleftrightarrow> (\<exists>p refs. References_Are p \<in> L \<and> references_of re p = Inr refs \<and> list_all (\<lambda>v. Path_Is (target_path re (stored_as v)) (identity_of v) \<in> L) refs)" for L
  have mono: "found L \<Longrightarrow> L \<subseteq> L' \<Longrightarrow> found L'" for L L' unfolding found_def list_all_iff by blast
  have have_found: "found (L1 \<union> (L2 \<union> (L3 \<union> (L4 \<union> L5))))"
    if "\<forall>v \<in> set (elems (jget m ''files'')). file_hashed re v L1" "References_Are p \<in> L2" "references_of re p = Inr refs"
      "validate_references (identity_of_path re m) [] refs = Inr ()" for m L1 L2 L3 L4 L5 p refs
  proof -
    have "Path_Is (target_path re (stored_as v)) (identity_of v) \<in> L1" if "v \<in> set refs" for v
      using known_hashed [OF \<open>\<forall>v \<in> set (elems (jget m ''files'')). file_hashed re v L1\<close>] references_exact [of "identity_of_path re m" "[]" refs]
        \<open>validate_references (identity_of_path re m) [] refs = Inr ()\<close> that by (simp add: list_all_iff)
    then show ?thesis unfolding found_def list_all_iff using that(2,3) by blast
  qed
  have maybe: "tells (if p then result (Inr ()) else advance_restore re b st details) (\<lambda>_ _. True)" for p st details
    using tells_advance tells_asks [OF asks_quiet(3)] by (cases p) auto
  have "tells (offline_validate re b) (\<lambda>_ L. found L)"
    unfolding offline_validate_def
    apply (rule tells_skip [OF asks_completed(1)])
     apply (rule tells_skip [OF asks_if], rule asks_quiet, rule asks_completed, rule tells_skip [OF asks_quiet(7)], rule tells_skip [OF asks_true [OF asks_manifest]])
        apply (rule tells_seq [OF tells_asks [OF asks_loop [OF asks_validate_file]]], erule (1) evidence_mono(4) [rotated])
        apply (rule tells_skip [OF asks_true [OF asks_assertions]], rule tells_skip [OF asks_quiet(3)], rule tells_seq [OF tells_asks [OF asks_references]])
          apply (rule tells_seq [OF tells_asks [OF asks_validate_references]], rule tells_skip [OF asks_true [OF asks_broken]], rule tells_skip [OF asks_quiet(3)])
            apply (rule tells_seq [OF maybe], rule tells_asks [OF asks_result [where A = "ok {}"]], elim exE conjE, rule have_found, assumption+)
                 apply (erule mono, blast)+
    done
  then have "wp (offline_validate re b) (\<lambda>_ t. \<exists>es. rs_log t = rs_log s @ es \<and> found (set es)) (\<lambda>_ _. True) s" unfolding tells_def by blast
  then show ?thesis by (simp add: wp_def assms found_def)
qed

theorem no_dangling_reference_witness:
  "\<exists>s r t es. reaches sample_restorer s \<and> offline_validate sample_restorer sample_id s = (Inr r, t) \<and> rs_log t = rs_log s @ es
    \<and> Path_Is (target_path sample_restorer sample_path) (1, zeros) \<in> set es"
proof -
  obtain s p where s: "reached_with 4 {Db_From sample_id p} s" using sample_restored by blast
  then have run: "reaches sample_restorer s" by (simp add: reached_with_def)
  from s obtain r t where t: "offline_validate sample_restorer sample_id s = (Inr r, t)" using reached_succeeds [OF _ leads_offline] by meson
  from no_dangling_reference [OF t] obtain es q refs where es: "rs_log t = rs_log s @ es" "references_of sample_restorer q = Inr refs"
    "list_all (\<lambda>v. Path_Is (target_path sample_restorer (stored_as v)) (identity_of v) \<in> set es) refs" by blast
  have "refs = [restore_reference]"
    using es(2) by (auto simp: references_of_def restore_loads_def split: if_splits)
  moreover have "stored_as restore_reference = sample_path" "identity_of restore_reference = (1, zeros)"
    by (simp_all add: stored_as_def identity_of_def restore_reference_def jget_Cons reference_path_def sample_path_def numeral_eq_Suc del: u_Cons) (simp add: numeral_eq_Suc)
  ultimately have "Path_Is (target_path sample_restorer sample_path) (1, zeros) \<in> set es" using es(3) by (simp only: list.pred_inject simp_thms)
  then show ?thesis using run t es(1) by (intro exI conjI)
qed

section \<open>The proof of a restore\<close>

lemma verification_reread:
  "validate_restore_verification_unsigned env (items (canonical (JObj (verification_document re b c m now)))) =
    validate_restore_verification_unsigned env (verification_document re b c m now)"
  unfolding validate_restore_verification_unsigned_def keys_canonical jget_canonical text_or_empty_reread
  by (simp add: verification_document_def text_or_empty_def jget_Cons del: u_Cons)

lemma verify_proof_canonical:
  assumes "without ''authentication'' d = verification_document re b c m now"
  shows "verify_restore_verification env (items (canonical (JObj d))) pub kid = verify_restore_verification env d pub kid"
proof -
  have "authority_checks (canonical a) kid = authority_checks a kid" for a
    unfolding authority_checks_def Let_def jget_items_canonical keys_items_canonical canonical_shape canonical_atom ..
  moreover have "signature_ok env pub (items (canonical (JObj d))) = signature_ok env pub d"
    unfolding signature_ok_def jget_canonical jget_items_canonical canonical_shape items.simps(1) without_canonical json_items_canonical bk_json_def canonical_idem ..
  ultimately show ?thesis
    unfolding verify_restore_verification_def jget_canonical without_canonical assms verification_reread by simp
qed

lemma retention_digest:
  assumes "retention_record env m i prefix timezone vk key_id = Inr r"
  shows "jget r ''manifest_sha256'' = JStr (bk_sha env (bk_json env (JObj m)))"
proof -
  from assms obtain ks frozen where
    "r = [(u ''schema_version'', JInt 1), (u ''backup_id'', JStr i), (u ''frozen_at'', JStr (format_time frozen)),
            (u ''generations'', JArr (map JStr (sort (generation_tags env frozen timezone)))),
            (u ''manifest_key'', JStr (manifest_key (strip_char 47 prefix) i)),
            (u ''object_keys'', JArr (map JStr (sorted_set (point_keys (strip_char 47 prefix) i @ ks)))),
            (u ''authentication_key_id'', JStr key_id), (u ''manifest_sha256'', JStr (bk_sha env (bk_json env (JObj m)))),
            (u ''source'', JStr (u ''ed25519_authenticated_manifest''))]"
    by (auto simp: retention_record_def returns remote_prefix_def Let_def simp del: u_Cons split: if_splits)
  then show ?thesis by (simp add: jget_Cons del: u_Cons)
qed

text \<open>C22. restore and rotation together. The proof document a restore uploads for a manifest, read back as JSON, passes the checks by which a rotation protects a
  verified point: the signature is accepted with the matching public key, the document names the point, and its manifest digest is the one of the retention record that
  the rotation derives from the same manifest.\<close>

theorem restore_proof_accepted:
  assumes "publish_proof re b (verification_document re b c m now) s = (Inr (), t)"
    and "\<And>msg. bk_verify (re_env re) pub (bk_sign (re_env re) (re_proof_key re) msg) msg" "\<And>msg. hex128 (bk_sign (re_env re) (re_proof_key re) msg)" "length pub = 32"
    and "retention_record (re_env re) m b prefix timezone manifest_pub key_id = Inr kept"
  shows "\<exists>d. rs_log t = rs_log s @ [Proof_To (proof_key re b) (bk_json (re_env re) (JObj d))]
    \<and> verify_restore_verification (re_env re) (items (canonical (JObj d))) pub (re_proof_key_id re) = Inr ()
    \<and> jget (items (canonical (JObj d))) ''backup_id'' = JStr b
    \<and> jget (items (canonical (JObj d))) ''manifest_sha256'' = jget kept ''manifest_sha256''"
proof -
  let ?v = "verification_document re b c m now"
  obtain d where d: "authenticate_restore_verification (re_env re) ?v (re_proof_key re) (re_proof_key_id re) = Inr d"
    using assms(1) by (cases "authenticate_restore_verification (re_env re) ?v (re_proof_key re) (re_proof_key_id re)") (auto simp: publish_proof_def seq_def result_def)
  have log: "rs_log t = rs_log s @ [Proof_To (proof_key re b) (bk_json (re_env re) (JObj d))]"
    using assms(1) by (auto simp: publish_proof_def d seq_def result_def log_event_def perform_def split: prod.splits)
  have v: "SAFE_ID (re_proof_key_id re)" "validate_restore_verification_unsigned (re_env re) ?v = Inr ()"
    "d = ?v @ [(u ''authentication'', authentication_block (re_env re) (re_proof_key re) (re_proof_key_id re) ?v)]"
    using d by (auto simp: authenticate_restore_verification_def returns simp del: u_Cons)
  have unsigned: "u ''authentication'' \<notin> set (map fst ?v)" by (simp add: verification_document_def)
  note signed = signed_checks [OF unsigned assms(2,3), of "re_proof_key_id re", folded v(3)]
  have "verify_restore_verification (re_env re) d pub (re_proof_key_id re) = Inr ()"
    using signed v(1,2) assms(4) by (simp add: verify_restore_verification_def returns)
  moreover have "without ''authentication'' d = ?v" using signed by simp
  ultimately have "verify_restore_verification (re_env re) (items (canonical (JObj d))) pub (re_proof_key_id re) = Inr ()" by (simp only: verify_proof_canonical)
  moreover have "jget (items (canonical (JObj d))) ''backup_id'' = JStr b"
    "jget (items (canonical (JObj d))) ''manifest_sha256'' = JStr (bk_sha (re_env re) (bk_json (re_env re) (JObj m)))"
    unfolding jget_canonical v(3) by (simp_all add: verification_document_def jget_Cons del: u_Cons)
  moreover have "jget kept ''manifest_sha256'' = JStr (bk_sha (re_env re) (bk_json (re_env re) (JObj m)))"
    by (rule retention_digest [OF assms(5)])
  ultimately show ?thesis using log by (intro exI [of _ d] conjI) (simp_all only:)
qed

theorem restore_proof_accepted_witness:
  "\<exists>d kept. verify_restore_verification (re_env sample_restorer) (items (canonical (JObj d))) sample_key (u ''k1'') = Inr ()
    \<and> retention_record (re_env sample_restorer) sample_signed sample_id (u ''p'') (u ''UTC'') sample_key (u ''k1'') = Inr kept
    \<and> jget (items (canonical (JObj d))) ''manifest_sha256'' = jget kept ''manifest_sha256''"
proof -
  let ?now = "DateTime 2026 8 3 2 0 0 0"
  have "valid_datetime ?now" by (simp add: valid_datetime_def days_in_month_def)
  from gets_publish [OF this, of "[]" sample_signed] obtain t
    where t: "publish_proof sample_restorer sample_id (verification_document sample_restorer sample_id [] sample_signed ?now) \<lparr>rs_host = 0, rs_checks = Map.empty, rs_log = []\<rparr> = (Inr (), t)"
    unfolding gets_def by fastforce
  have env: "bk_verify (re_env sample_restorer) = bk_verify sample_bk_env" "bk_zone (re_env sample_restorer) = bk_zone sample_bk_env"
    by (simp_all add: restore_builder_def sample_builder_def)
  note kept = sample_retention [OF env sample_prefix(2)]
  have sign: "bk_verify (re_env sample_restorer) sample_key (bk_sign (re_env sample_restorer) (re_proof_key sample_restorer) msg) msg"
    "hex128 (bk_sign (re_env sample_restorer) (re_proof_key sample_restorer) msg)" for msg
    using zeros_hex by (simp_all add: restore_builder_def sample_builder_def sample_bk_env_def)
  from restore_proof_accepted [OF t sign sample_key_names(3) kept] obtain d
    where "verify_restore_verification (re_env sample_restorer) (items (canonical (JObj d))) sample_key (re_proof_key_id sample_restorer) = Inr ()"
      "jget (items (canonical (JObj d))) ''manifest_sha256''
        = jget (sample_record (bk_sha (re_env sample_restorer) (bk_json (re_env sample_restorer) (JObj sample_signed)))) ''manifest_sha256''" by (elim exE conjE)
  then show ?thesis using kept unfolding restorer_fields by blast
qed

section \<open>Authorization\<close>


definition authorized_restorer :: "nat restorer" where
  "authorized_restorer = sample_restorer\<lparr>re_iso := \<lambda>_. Some (Moment (DateTime 2026 8 4 0 0 0 0))\<rparr>"

lemma sample_opens_engine: "\<exists>re' t. open_engine authorized_restorer (u ''/p/'') (u ''/m'') (u ''/i'') (u ''/a'') (u ''c1'')
      \<lparr>rs_host = 0, rs_checks = Map.empty, rs_log = []\<rparr> = (Inr re', t)"
proof -
  have f [simp]: "re_local authorized_restorer = restore_builder" "re_host authorized_restorer = restore_host" "re_environment authorized_restorer = u ''e1''"
    "re_iso authorized_restorer x = Some (Moment (DateTime 2026 8 4 0 0 0 0))" for x
    by (simp_all add: authorized_restorer_def del: u_Cons)
  have host [simp]: "rh_text restore_host p n = (Inr (u ''e1''), n)" "rh_mode restore_host p n = (Inr 384, n)" for p n by (simp_all add: restore_host_def del: u_Cons)
  have guard: "guard_of authorized_restorer (JObj restore_evidence) = Inr (sample_guard\<lparr>rg_expires := DateTime 2026 8 4 0 0 0 0\<rparr>)"
    by (simp add: guard_of_def sub_def need_def restore_evidence_def andthen_def sample_guard_def Let_def del: u_Cons)
  have named: "strip sample_id \<noteq> []"
  proof
    have first: "lstrip sample_id = sample_id" by (simp add: lstrip_def sample_backup_identity_def is_space_def)
    assume "strip sample_id = []"
    then have "\<forall>c \<in> set (rev sample_id). is_space c" unfolding strip_def first rstrip_def by (simp add: dropWhile_eq_Nil_conv)
    then show False by (simp add: sample_backup_identity_def is_space_def)
  qed
  have texts: "strip (u ''e1'') = u ''e1''" "strip (u ''o1'') \<noteq> []" "strip (u ''w1'') \<noteq> []" "strip (u ''a1'') \<noteq> []" "strip (u ''c1'') \<noteq> []" "strip sample_id \<noteq> []"
    using named by (simp_all add: text_eval)
  have before: "DateTime 2026 8 3 2 0 0 0 < DateTime 2026 8 4 0 0 0 0" by (simp add: less_datetime_def dt_fields_def)
  have valid: "guard_validate (sample_guard\<lparr>rg_expires := DateTime 2026 8 4 0 0 0 0\<rparr>) (DateTime 2026 8 3 2 0 0 0) (u ''e1'') (u ''c1'') = Inr ()"
    using texts before sample_point_ok by (simp add: guard_validate_def sample_guard_def returns validate_backup_id_def del: u_Cons) simp
  have loads: "restore_loads [] = Inr (JObj restore_evidence)" by (simp add: restore_loads_def)
  have prefix: "strip_char 47 (u ''/p/'') \<noteq> []" by (simp add: sample_prefix del: u_Cons) simp
  have "\<exists>t. validate_identity_inputs authorized_restorer (u ''/m'') (u ''/i'') (u ''/a'') (u ''c1'') \<lparr>rs_host = 0, rs_checks = Map.empty, rs_log = []\<rparr>
      = (Inr (sample_guard\<lparr>rg_expires := DateTime 2026 8 4 0 0 0 0\<rparr>), t)"
    using texts valid
    by (simp add: validate_identity_inputs_def seq_def result_def demand_def perform_def translating_def read_clock_def observe_def log_event_def loads guard del: u_Cons) simp
  then show ?thesis using prefix by (auto simp: open_engine_def Let_def seq_def result_def demand_def)
qed


end
