(* ===== verification/Spec2Isabelle.thy ===== *)
theory Spec2Isabelle
  imports Admin_Gate Product_Routes Rb_Run Bk_Properties Bk_Recovered
begin

text \<open>
  A verification library for the product PDF and QR code service: the application under
  \<open>src/product_pdf_qr\<close>, and the operational scripts that roll a release back, make backups, restore
  them and delete the expired ones. The application keeps products with an unguessable public token printed as a QR code, versions of
  a PDF per product in content-addressed files, one administrator with sessions, and an audit trail, all in one
  PostgreSQL database. The scripts keep JSON records next to it, written so that a crash must not lose a decision.

  \<^bold>\<open>Theories and code.\<close>
  \<^item> \<open>Py_Prelude\<close>: Python's texts as lists of code points and what the code uses of \<open>str\<close>, the result type of the
    application's exceptions, and the shared list lemmas. \<open>Json\<close>: JSON values with Python's \<open>get\<close>, truth and equality, and the
    key-sorted form. \<open>Actions\<close>: actions that thread a state and may raise, with a calculus of weakest preconditions.
  \<^item> \<open>App_Db\<close> (\<open>migrations/versions\<close>, \<open>domains/audit/service.py\<close>): the tables with their constraints, transactions
    that roll back, sequences that do not, and the append-only triggers. \<open>Base32\<close>: the encoding of the tokens.
  \<^item> \<open>Product_Service\<close>, \<open>Storage_Service\<close>, \<open>Version_Service\<close>, \<open>Public_Scan\<close>, \<open>Auth_Limit\<close>, \<open>Auth_Service\<close>: the services of the
    directories of \<open>domains\<close> with the same names, one definition per function, every refusal and fault a value.
  \<^item> \<open>Import_Parse\<close>, \<open>Importer\<close> (\<open>domains/importer\<close>): the inspection of a workbook, its rows and the import in two phases.
  \<^item> \<open>App_System\<close>: the operations composed into one transition relation over database and files.
  \<^item> \<open>Upload_Gate\<close> (\<open>upload_limit.py\<close>), \<open>Admin_Gate\<close> (\<open>auth_middleware.py\<close>, \<open>admin.py\<close>, \<open>errors.py\<close>), \<open>Qr_Label\<close> and \<open>Product_Routes\<close>
    (\<open>domains/qrcode\<close>, \<open>domains/product/router.py\<close>, \<open>domains/storage/router.py\<close>): the HTTP side.
  \<^item> \<open>Rb_Base\<close>, \<open>Rb_Files\<close>, \<open>Rb_Record\<close>, \<open>Rb_Publication\<close>, \<open>Rb_Clock\<close>, \<open>Rb_Audit\<close>, \<open>Rb_Release\<close> (\<open>scripts/deploy_rollback/model.py\<close>):
    errors, timestamps, files with faults, the release record, the publication state, the recovery clock, the hash-chained log, and the release
    store with the lossy authorization. \<open>Rb_Sample\<close> holds a record every check accepts. \<open>Rb_Engine\<close>, \<open>Rb_Run\<close> (\<open>engine.py\<close>): the
    rollback over an arbitrary host, and what it can do to it.
  \<^item> \<open>Bk_Model\<close>, \<open>Bk_Manifest\<close> (\<open>scripts/backup_recovery/model.py\<close>): generations, the retention policy, manifests, completion markers,
    restore proofs. \<open>Bk_Rotate\<close> (\<open>scripts/retention/rotate.py\<close>): the deletion of expired points over an arbitrary \<open>rclone\<close>; \<open>Bk_Safety\<close>, \<open>Bk_Properties\<close>: what it can do to
    the remote, also when it dies, with the sample of \<open>Bk_Sample\<close>.
  \<^item> \<open>Bk_Objects\<close>, \<open>Bk_Backup\<close> (\<open>scripts/backup_recovery/backup.py\<close>): the inventory, the content-addressed objects with their checkpoints, precopy and finalization
    over a host of typed primitives; \<open>Bk_Publish\<close>: in which order a finalization uploads and what it has confirmed by then; \<open>Bk_Trust\<close>: the rotation accepts what it published.
  \<^item> \<open>Bk_Checkpoint\<close>, \<open>Bk_Restore\<close> (\<open>scripts/backup_recovery/restore.py\<close>): the restore engine, from its authorization and checkpoint file over preflight, site
    retention, database, files and validations to the proxy, the signed proof and the rollback to the retained site. \<open>Bk_Restored\<close> defines its runs, \<open>Bk_Stages\<close>,
    \<open>Bk_Evidence\<close>, \<open>Bk_Keeps\<close> and \<open>Bk_Operations\<close> prove their invariant, \<open>Bk_Run\<close> is a restore that runs through, and \<open>Bk_Recovered\<close> has the properties.

  \<^bold>\<open>How state and effects are represented.\<close> The database is a record of tables; a transaction is a function that keeps the old tables when its body
  raises. Files of the application are a store of formal and temporary files; the scripts' files are a map from paths to contents. A plan lists
  how each durable primitive ends: done, failed before or after its effect, or the process gone. Theorems quantify over all plans, so
  they cover faults and crashes. Hosts and remotes are functions from commands and a state of their own to answers; the commands given are recorded in a trace.
  Random bytes, clocks, digests, signatures, the JSON text, Unicode tables, the spreadsheet container, the QR encoder and fonts are parameters.

  \<^bold>\<open>What the lemmas show.\<close> Each component has the invariant of its state and its preservation by every operation, the outcome of each operation on every branch,
  and its refusals. On top of them: what was uploaded is what a scan serves; printed tokens keep working; history is never
  rewritten; failures of an upload or an import leave nothing behind; requests without a session or token reach nothing; the stages of a publication only
  advance, and restoring is excluded after the cutover; the recovery clock never restarts; the audit log is tamper-evident; the proxy is started
  last; a rotation deletes nothing that a kept point needs, and a crash of it never leaves a point that looks complete and is not; a backup publishes its completion marker
  last; a restore earns its stages in order, changes nothing before the site is retained, opens the proxy on a validated site only, and its proof is the one a
  rotation asks for.

  \<^bold>\<open>Termination and bounds.\<close> Loops are structural recursions or functions with a measure; the bounded read of an upload is also shown to need at most one read
  for each 65536 bytes of its limit and two more. Creation of a product tries the number of tokens the code tries. No fuel is used elsewhere.

  \<^bold>\<open>Not modelled.\<close> Templates and static pages, logging, the wiring of the application (\<open>main.py\<close>, \<open>dependencies.py\<close>, the command line, configuration
  by environment), the migration environment, the concurrency of two requests inside PostgreSQL beyond its constraints; of the scripts, the automation
  of the repository under \<open>scripts/ao\<close>, the command line, host commands and rehearsals of \<open>scripts/deploy_rollback\<close>, the command line, the wrappers of
  \<open>age\<close> and \<open>rclone\<close> and the validators of \<open>scripts/backup_recovery\<close>, and the validators of the production files. They are listed with their reasons in the manifest.
\<close>

end
